(* ===== verification/Prelude.thy ===== *)
theory Prelude
  imports Main "HOL-Library.Sublist" "HOL-Library.List_Lexorder" "HOL-Library.Char_ord"
begin

text \<open>What the components share. Go strings are byte sequences: here a \<^typ>\<open>string\<close> whose
  characters are the bytes, so Go's \<open><\<close> on strings and SQLite's BINARY collation are the
  lexicographic order of \<^theory_text>\<open>List_Lexorder\<close>. A \<open>time.Time\<close> is the number of nanoseconds since
  Go's zero time. A fallible effectful function is an action: it takes the world and returns an
  error or a value, together with the world it leaves behind (also when it fails).\<close>

section \<open>Hints\<close>

named_theorems act_simps \<open>evaluation of actions\<close>
named_theorems keep_intros \<open>actions that keep an invariant of the world\<close>

section \<open>Errors\<close>

text \<open>The sentinel errors of the packages, plus plain errors and wrapped ones. A message is kept as
  a label: the constant part of the format string, without the values printed into it.\<close>

datatype error =
    ErrNotFound
  | ErrConflict
  | ErrForeignKeyViolation
  | ErrInvalidArgument
  | ErrUnsupportedSearchOperator
  | ErrNotExist
  | ErrExist
  | IOError string
  | Plain string
  | Wrapped string error
  | Joined error error

text \<open>\<open>errors.Is\<close> walks the wrapped errors.\<close>

fun err_is :: "error \<Rightarrow> error \<Rightarrow> bool" where
  "err_is (Wrapped m e) t = (Wrapped m e = t \<or> err_is e t)"
| "err_is (Joined d e) t = (Joined d e = t \<or> err_is d t \<or> err_is e t)"
| "err_is e t = (e = t)"

lemma err_is_refl [simp]: "err_is e e"
  by (cases e) simp_all

section \<open>Time\<close>

type_synonym time = int

abbreviation millisecond :: time where
  "millisecond \<equiv> 1000000"

text \<open>\<open>t.IsZero()\<close>, and \<open>t.Truncate(time.Millisecond)\<close>, which rounds towards the zero time's
  past as \<open>t - t mod d\<close> does for the instants after the zero time.\<close>

definition is_zero :: "time \<Rightarrow> bool" where
  "is_zero t = (t = 0)"

definition truncateToMillisecond :: "time \<Rightarrow> time" where
  "truncateToMillisecond t = t - t mod millisecond"

lemma truncate_le: "truncateToMillisecond t \<le> t"
  by (simp add: truncateToMillisecond_def)

lemma truncate_gt: "t < truncateToMillisecond t + millisecond"
  by (simp add: truncateToMillisecond_def)

lemma truncate_mod: "truncateToMillisecond t mod millisecond = 0"
  by (simp add: truncateToMillisecond_def mod_diff_left_eq [symmetric])

lemma truncate_idem [simp]: "truncateToMillisecond (truncateToMillisecond t) = truncateToMillisecond t"
  using truncate_mod [of t] by (simp add: truncateToMillisecond_def)

lemma truncate_mono: "s \<le> t \<Longrightarrow> truncateToMillisecond s \<le> truncateToMillisecond t"
  by (simp add: truncateToMillisecond_def minus_mod_eq_mult_div zdiv_mono1)

section \<open>Strings\<close>

text \<open>The UTF-8 encodings of the characters \<open>unicode.IsSpace\<close> accepts.\<close>

definition space_seqs :: "string list" where
  "space_seqs =
    [[CHR 0x20], [CHR 0x09], [CHR 0x0A], [CHR 0x0B], [CHR 0x0C], [CHR 0x0D],
     [CHR 0xC2, CHR 0x85], [CHR 0xC2, CHR 0xA0], [CHR 0xE1, CHR 0x9A, CHR 0x80],
     [CHR 0xE2, CHR 0x80, CHR 0x80], [CHR 0xE2, CHR 0x80, CHR 0x81], [CHR 0xE2, CHR 0x80, CHR 0x82],
     [CHR 0xE2, CHR 0x80, CHR 0x83], [CHR 0xE2, CHR 0x80, CHR 0x84], [CHR 0xE2, CHR 0x80, CHR 0x85],
     [CHR 0xE2, CHR 0x80, CHR 0x86], [CHR 0xE2, CHR 0x80, CHR 0x87], [CHR 0xE2, CHR 0x80, CHR 0x88],
     [CHR 0xE2, CHR 0x80, CHR 0x89], [CHR 0xE2, CHR 0x80, CHR 0x8A], [CHR 0xE2, CHR 0x80, CHR 0xA8],
     [CHR 0xE2, CHR 0x80, CHR 0xA9], [CHR 0xE2, CHR 0x80, CHR 0xAF], [CHR 0xE2, CHR 0x81, CHR 0x9F],
     [CHR 0xE3, CHR 0x80, CHR 0x80]]"

text \<open>Drops leading occurrences of the given sequences.\<close>

function strip_seqs :: "string list \<Rightarrow> string \<Rightarrow> string" where
  "strip_seqs qs s =
    (case List.find (\<lambda>q. q \<noteq> [] \<and> prefix q s) qs of
       None \<Rightarrow> s
     | Some q \<Rightarrow> strip_seqs qs (drop (length q) s))"
  by pat_completeness auto
termination
  by (relation "measure (\<lambda>(qs, s). length s)")
     (auto simp: find_Some_iff prefix_def)

declare strip_seqs.simps [simp del]

definition starts_with_seq :: "string list \<Rightarrow> string \<Rightarrow> bool" where
  "starts_with_seq qs s = (\<exists>q\<in>set qs. q \<noteq> [] \<and> prefix q s)"

text \<open>\<open>strings.TrimSpace\<close>.\<close>

definition trim_space :: "string \<Rightarrow> string" where
  "trim_space s = rev (strip_seqs (List.map rev space_seqs) (rev (strip_seqs space_seqs s)))"

lemma strip_seqs_not_start: "\<not> starts_with_seq qs (strip_seqs qs s)"
proof (induction qs s rule: strip_seqs.induct)
  case (1 qs s)
  show ?case
  proof (cases "List.find (\<lambda>q. q \<noteq> [] \<and> prefix q s) qs")
    case None
    then have "strip_seqs qs s = s"
      by (subst strip_seqs.simps) simp
    with None show ?thesis
      by (auto simp: starts_with_seq_def find_None_iff)
  next
    case (Some q)
    then show ?thesis
      using 1 [OF Some] by (subst strip_seqs.simps) simp
  qed
qed

lemma strip_seqs_id: "\<not> starts_with_seq qs s \<Longrightarrow> strip_seqs qs s = s"
  by (subst strip_seqs.simps)
     (auto simp: starts_with_seq_def find_Some_iff split: option.splits intro: nth_mem)

lemma strip_seqs_suffix: "suffix (strip_seqs qs s) s"
proof (induction qs s rule: strip_seqs.induct)
  case (1 qs s)
  then show ?case
    by (subst strip_seqs.simps)
       (auto split: option.splits intro: suffix_order.trans suffix_drop)
qed

lemma starts_with_seq_prefix: "prefix t s \<Longrightarrow> starts_with_seq qs t \<Longrightarrow> starts_with_seq qs s"
  by (auto simp: starts_with_seq_def intro: prefix_order.trans)

lemma trim_space_idem [simp]: "trim_space (trim_space s) = trim_space s"
proof -
  let ?l = "strip_seqs space_seqs s"
  let ?r = "strip_seqs (List.map rev space_seqs) (rev ?l)"
  have "prefix (rev ?r) ?l"
    using strip_seqs_suffix [of "List.map rev space_seqs" "rev ?l"] by (simp add: suffix_to_prefix)
  then have "\<not> starts_with_seq space_seqs (rev ?r)"
    using strip_seqs_not_start starts_with_seq_prefix by blast
  then show ?thesis
    by (simp add: trim_space_def strip_seqs_id strip_seqs_not_start)
qed

lemma trim_space_Nil [simp]: "trim_space [] = []"
  by (simp add: trim_space_def strip_seqs_id starts_with_seq_def)

lemma trim_space_length: "length (trim_space s) \<le> length s"
  using strip_seqs_suffix [of space_seqs s] strip_seqs_suffix [of "List.map rev space_seqs" "rev (strip_seqs space_seqs s)"]
  by (auto simp: trim_space_def dest!: suffix_length_le)

text \<open>\<open>strings.HasPrefix\<close> with a byte, \<open>strings.Contains\<close> of a byte, and \<open>strings.Split\<close> at a
  byte: the split of the empty string is one empty part.\<close>

definition blank :: "string \<Rightarrow> bool" where
  "blank s = (trim_space s = [])"

fun split_at :: "char \<Rightarrow> string \<Rightarrow> string list" where
  "split_at c [] = [[]]"
| "split_at c (x # xs) =
    (if x = c then [] # split_at c xs
     else (case split_at c xs of [] \<Rightarrow> [[x]] | p # ps \<Rightarrow> (x # p) # ps))"

lemma split_at_nonempty [simp]: "split_at c s \<noteq> []"
  by (induction c s rule: split_at.induct) (auto split: list.splits)

lemma split_at_notin [simp]: "c \<notin> set s \<Longrightarrow> split_at c s = [s]"
  by (induction c s rule: split_at.induct) auto

lemma split_at_append: "c \<notin> set s \<Longrightarrow> split_at c (s @ c # t) = s # split_at c t"
  by (induction s) auto

lemma trim_fixed_ends:
  assumes "\<not> starts_with_seq space_seqs s" "\<not> starts_with_seq (List.map rev space_seqs) (rev s)"
  shows "trim_space s = s"
  using assms by (simp add: trim_space_def strip_seqs_id)

text \<open>A string between two visible ASCII characters has no white space at its ends.\<close>

definition visible :: "char \<Rightarrow> bool" where
  "visible ch = (CHR 0x21 \<le> ch \<and> ch \<le> CHR 0x7E)"

lemma trim_visible:
  assumes "s \<noteq> []" "visible (hd s)" "visible (last s)"
  shows "trim_space s = s"
proof (rule trim_fixed_ends)
  have ends: "list_all (\<lambda>q. q \<noteq> [] \<and> \<not> visible (hd q) \<and> \<not> visible (last q)) space_seqs" by code_simp
  then have "hd q = hd s" if "q \<in> set space_seqs" "prefix q s" for q
    using that by (auto simp: list_all_iff prefix_def)
  with ends show "\<not> starts_with_seq space_seqs s"
    using assms(2) unfolding starts_with_seq_def list_all_iff by metis
  have "last q = last s" if "q \<in> set space_seqs" "prefix (rev q) (rev s)" for q
    using that ends by (auto simp: list_all_iff suffix_to_prefix [symmetric] suffix_def)
  with ends show "\<not> starts_with_seq (List.map rev space_seqs) (rev s)"
    using assms(3) unfolding starts_with_seq_def list_all_iff by (metis (no_types, lifting) image_iff set_map)
qed

lemma not_blank_visible: "s \<noteq> [] \<Longrightarrow> visible (hd s) \<Longrightarrow> visible (last s) \<Longrightarrow> \<not> blank s"
  by (simp add: blank_def trim_visible)

end
