(* ===== verification/Action.thy ===== *)
theory Action
  imports Prelude
begin

text \<open>Fallible actions on a world: the shape of every Go method \<open>func (...) (T, error)\<close> with side
  effects. \<open>bnd\<close> is the \<open>if err != nil { return err }\<close> idiom: the first error stops the sequence
  and the effects done so far stay. \<open>attempt\<close> inspects an error instead of returning it. Two
  specification forms: \<open>keeps I m\<close> (an invariant survives \<open>m\<close>, whether it fails or not) and
  \<open>ok_triple P m Q\<close> (a successful run from \<open>P\<close> ends in \<open>Q\<close>).\<close>

type_synonym ('w, 'a) act = "'w \<Rightarrow> (error + 'a) \<times> 'w"

definition ret :: "'a \<Rightarrow> ('w, 'a) act" where
  "ret a w = (Inr a, w)"

definition fail :: "error \<Rightarrow> ('w, 'a) act" where
  "fail e w = (Inl e, w)"

definition bnd :: "('w, 'a) act \<Rightarrow> ('a \<Rightarrow> ('w, 'b) act) \<Rightarrow> ('w, 'b) act" where
  "bnd m f w = (case m w of (Inl e, w') \<Rightarrow> (Inl e, w') | (Inr a, w') \<Rightarrow> f a w')"

definition sq :: "('w, 'a) act \<Rightarrow> ('w, 'b) act \<Rightarrow> ('w, 'b) act" where
  "sq m n = bnd m (\<lambda>_. n)"

text \<open>A pure result as an action, and reading the world.\<close>

definition lift_result :: "error + 'a \<Rightarrow> ('w, 'a) act" where
  "lift_result r w = (r, w)"

definition attempt :: "('w, 'a) act \<Rightarrow> ('w, error + 'a) act" where
  "attempt m w = (case m w of (r, w') \<Rightarrow> (Inr r, w'))"

text \<open>\<open>fmt.Errorf("context: %w", err)\<close>.\<close>

definition wrap :: "string \<Rightarrow> ('w, 'a) act \<Rightarrow> ('w, 'a) act" where
  "wrap msg m w = (case m w of (Inl e, w') \<Rightarrow> (Inl (Wrapped msg e), w') | (Inr a, w') \<Rightarrow> (Inr a, w'))"

definition wrap_result :: "string \<Rightarrow> error + 'a \<Rightarrow> error + 'a" where
  "wrap_result msg r = (case r of Inl e \<Rightarrow> Inl (Wrapped msg e) | Inr a \<Rightarrow> Inr a)"

text \<open>\<open>for _, x := range xs { if err := f(x); err != nil { return err } }\<close>.\<close>

fun each :: "('a \<Rightarrow> ('w, unit) act) \<Rightarrow> 'a list \<Rightarrow> ('w, unit) act" where
  "each f [] = ret ()"
| "each f (x # xs) = sq (f x) (each f xs)"

text \<open>A loop that also accumulates: the accumulator is the loop's local state.\<close>

fun each_acc :: "('a \<Rightarrow> 's \<Rightarrow> ('w, 's) act) \<Rightarrow> 'a list \<Rightarrow> 's \<Rightarrow> ('w, 's) act" where
  "each_acc f [] s = ret s"
| "each_acc f (x # xs) s = bnd (f x s) (\<lambda>s'. each_acc f xs s')"

text \<open>The same loop over pure results.\<close>

fun each_result :: "('a \<Rightarrow> 's \<Rightarrow> error + 's) \<Rightarrow> 'a list \<Rightarrow> 's \<Rightarrow> error + 's" where
  "each_result f [] s = Inr s"
| "each_result f (x # xs) s = (case f x s of Inl e \<Rightarrow> Inl e | Inr s' \<Rightarrow> each_result f xs s')"

lemmas act_defs = ret_def fail_def bnd_def sq_def lift_result_def attempt_def wrap_def

declare ret_def [act_simps] fail_def [act_simps] lift_result_def [act_simps]

lemma bnd_cases:
  "fst (bnd m f w) = Inr b \<Longrightarrow>
    (\<And>a w'. m w = (Inr a, w') \<Longrightarrow> f a w' = (Inr b, snd (bnd m f w)) \<Longrightarrow> thesis) \<Longrightarrow> thesis"
  by (cases "m w"; cases "fst (m w)") (auto simp: bnd_def prod_eq_iff split: sum.splits prod.splits)

lemma bnd_ok [simp]: "m w = (Inr a, w') \<Longrightarrow> bnd m f w = f a w'"
  by (simp add: bnd_def)

lemma bnd_error [simp]: "m w = (Inl e, w') \<Longrightarrow> bnd m f w = (Inl e, w')"
  by (simp add: bnd_def)

section \<open>Invariants of the world\<close>

definition keeps :: "('w \<Rightarrow> bool) \<Rightarrow> ('w, 'a) act \<Rightarrow> bool" where
  "keeps I m = (\<forall>w. I w \<longrightarrow> I (snd (m w)))"

lemma keepsI: "(\<And>w. I w \<Longrightarrow> I (snd (m w))) \<Longrightarrow> keeps I m"
  by (simp add: keeps_def)

lemma keepsD: "keeps I m \<Longrightarrow> I w \<Longrightarrow> I (snd (m w))"
  by (simp add: keeps_def)

lemma keeps_ret [keep_intros]: "keeps I (ret a)"
  by (simp add: keeps_def ret_def)

lemma keeps_fail [keep_intros]: "keeps I (fail e)"
  by (simp add: keeps_def fail_def)

lemma keeps_lift_result [keep_intros]: "keeps I (lift_result r)"
  by (simp add: keeps_def lift_result_def)

lemma keeps_bnd [keep_intros]: "keeps I m \<Longrightarrow> (\<And>a. keeps I (f a)) \<Longrightarrow> keeps I (bnd m f)"
  by (auto simp: keeps_def bnd_def split: prod.splits sum.splits)

lemma keeps_sq [keep_intros]: "keeps I m \<Longrightarrow> keeps I n \<Longrightarrow> keeps I (sq m n)"
  by (simp add: sq_def keeps_bnd)

lemma keeps_attempt [keep_intros]: "keeps I m \<Longrightarrow> keeps I (attempt m)"
  by (auto simp: keeps_def attempt_def split: prod.splits)

lemma keeps_wrap [keep_intros]: "keeps I m \<Longrightarrow> keeps I (wrap msg m)"
  by (auto simp: keeps_def wrap_def split: prod.splits sum.splits)

lemma keeps_each [keep_intros]: "(\<And>x. x \<in> set xs \<Longrightarrow> keeps I (f x)) \<Longrightarrow> keeps I (each f xs)"
  by (induction xs) (auto intro: keep_intros)

lemma keeps_each_acc [keep_intros]:
  "(\<And>x s. x \<in> set xs \<Longrightarrow> keeps I (f x s)) \<Longrightarrow> keeps I (each_acc f xs s)"
  by (induction xs arbitrary: s) (auto intro: keep_intros)

lemma keeps_if [keep_intros]: "keeps I m \<Longrightarrow> keeps I n \<Longrightarrow> keeps I (if b then m else n)"
  by simp

lemma keeps_option [keep_intros]:
  "keeps I m \<Longrightarrow> (\<And>a. keeps I (f a)) \<Longrightarrow> keeps I (case x of None \<Rightarrow> m | Some a \<Rightarrow> f a)"
  by (cases x) simp_all

lemma keeps_sum [keep_intros]:
  "(\<And>e. keeps I (f e)) \<Longrightarrow> (\<And>a. keeps I (g a)) \<Longrightarrow> keeps I (case x of Inl e \<Rightarrow> f e | Inr a \<Rightarrow> g a)"
  by (cases x) simp_all

lemma keeps_prod [keep_intros]:
  "(\<And>a b. keeps I (f a b)) \<Longrightarrow> keeps I (case x of (a, b) \<Rightarrow> f a b)"
  by (cases x) simp

section \<open>Successful runs\<close>

definition ok_triple :: "('w \<Rightarrow> bool) \<Rightarrow> ('w, 'a) act \<Rightarrow> ('a \<Rightarrow> 'w \<Rightarrow> bool) \<Rightarrow> bool" where
  "ok_triple P m Q = (\<forall>w a w'. P w \<longrightarrow> m w = (Inr a, w') \<longrightarrow> Q a w')"

lemma ok_tripleI: "(\<And>w a w'. P w \<Longrightarrow> m w = (Inr a, w') \<Longrightarrow> Q a w') \<Longrightarrow> ok_triple P m Q"
  by (simp add: ok_triple_def)

lemma ok_tripleD: "ok_triple P m Q \<Longrightarrow> P w \<Longrightarrow> m w = (Inr a, w') \<Longrightarrow> Q a w'"
  by (simp add: ok_triple_def)

lemma ok_bnd: "ok_triple P m R \<Longrightarrow> (\<And>a. ok_triple (R a) (f a) Q) \<Longrightarrow> ok_triple P (bnd m f) Q"
  unfolding ok_triple_def bnd_def by (auto split: prod.splits sum.splits)

lemma ok_sq: "ok_triple P m (\<lambda>_. R) \<Longrightarrow> ok_triple R n Q \<Longrightarrow> ok_triple P (sq m n) Q"
  by (simp add: sq_def ok_bnd)

lemma ok_ret: "(\<And>w. P w \<Longrightarrow> Q a w) \<Longrightarrow> ok_triple P (ret a) Q"
  by (simp add: ok_triple_def ret_def)

lemma ok_fail: "ok_triple P (fail e) Q"
  by (simp add: ok_triple_def fail_def)

lemma ok_wrap: "ok_triple P m Q \<Longrightarrow> ok_triple P (wrap msg m) Q"
  unfolding ok_triple_def wrap_def by (auto split: prod.splits sum.splits)

lemma ok_keeps: "keeps I m \<Longrightarrow> ok_triple I m (\<lambda>_. I)"
  unfolding ok_triple_def keeps_def by (metis snd_conv)

lemma ok_conseq:
  "ok_triple P' m Q' \<Longrightarrow> (\<And>w. P w \<Longrightarrow> P' w) \<Longrightarrow> (\<And>a w. Q' a w \<Longrightarrow> Q a w) \<Longrightarrow> ok_triple P m Q"
  unfolding ok_triple_def by blast

lemma ok_conj: "ok_triple P m Q \<Longrightarrow> ok_triple P m Q' \<Longrightarrow> ok_triple P m (\<lambda>a w. Q a w \<and> Q' a w)"
  unfolding ok_triple_def by blast

text \<open>A loop whose step for \<open>x\<close> establishes \<open>R x\<close> and keeps what earlier steps established.\<close>

lemma ok_each:
  assumes step: "\<And>x. x \<in> set xs \<Longrightarrow> ok_triple P (f x) (\<lambda>_ w. P w \<and> R x w)"
    and frame: "\<And>x y. x \<in> set xs \<Longrightarrow> y \<in> set xs \<Longrightarrow>
                  ok_triple (\<lambda>w. P w \<and> R y w) (f x) (\<lambda>_ w. R y w)"
  shows "ok_triple P (each f xs) (\<lambda>_ w. P w \<and> (\<forall>x\<in>set xs. R x w))"
proof -
  have "ok_triple (\<lambda>w. P w \<and> (\<forall>y\<in>set ys. R y w)) (each f zs)
          (\<lambda>_ w. P w \<and> (\<forall>x\<in>set ys \<union> set zs. R x w))"
    if "set ys \<subseteq> set xs" "set zs \<subseteq> set xs" for ys zs
    using that
  proof (induction zs arbitrary: ys)
    case Nil
    then show ?case by (auto intro: ok_ret)
  next
    case (Cons z zs)
    have "ok_triple (\<lambda>w. P w \<and> (\<forall>y\<in>set ys. R y w)) (f z)
            (\<lambda>_ w. P w \<and> (\<forall>y\<in>set (z # ys). R y w))"
      using Cons.prems step [of z] frame [of z]
      by (fastforce intro!: ok_tripleI dest: ok_tripleD)
    moreover have "ok_triple (\<lambda>w. P w \<and> (\<forall>y\<in>set (z # ys). R y w)) (each f zs)
            (\<lambda>_ w. P w \<and> (\<forall>x\<in>set (z # ys) \<union> set zs. R x w))"
      using Cons.prems by (intro Cons.IH) auto
    ultimately show ?case
      by (auto intro!: ok_sq [THEN ok_conseq])
  qed
  from this [of "[]" xs] show ?thesis by simp
qed

end
