(* ===== verification/Repo_Types.thy ===== *)
theory Repo_Types
  imports Action
begin

text \<open>The rows and inputs of the package \<open>repository\<close> (\<open>types.go\<close>). Each Go struct is a record
  with the same fields, prefixed because Isabelle's field names are global. A \<open>*string\<close> or
  \<open>*time.Time\<close> that is only read is an \<open>option\<close>; \<open>int64\<close> row ids and sizes, on which the code does
  no arithmetic, are \<^typ>\<open>int\<close>.\<close>

section \<open>Rows\<close>

record Record =
  rID :: string
  rUserID :: string
  rDate :: string
  rDayOrder :: string
  rHTMLContent :: "string option"
  rNotes :: "string option"
  rProjectID :: string
  rSourceDeviceID :: string
  rSourceRef :: "string option"
  rGitRemoteURL :: "string option"
  rGitHash :: "string option"
  rCreatedAt :: time
  rUpdatedAt :: time
  rDeletedAt :: "time option"

record Registry =
  gID :: string
  gCreatedAt :: time
  gUpdatedAt :: time
  gArchivedAt :: "time option"

text \<open>\<open>Project\<close> and \<open>Device\<close> are the same struct in the code.\<close>

type_synonym Project = Registry
type_synonym Device = Registry

record ProjectPath =
  ppID :: int
  ppProjectID :: string
  ppPath :: string
  ppDeviceID :: string
  ppCreatedAt :: time
  ppUpdatedAt :: time

record ChatSession =
  csID :: string
  csUserID :: string
  csSource :: string
  csSourceSessionID :: string
  csParentSourceSessionID :: "string option"
  csSourceDeviceID :: string
  csProjectID :: "string option"
  csCWD :: "string option"
  csTitle :: "string option"
  csStartedAt :: time
  csLastActivityAt :: time
  csOriginalSourcePath :: "string option"
  csRawSourceKey :: "string option"
  csCreatedAt :: time
  csUpdatedAt :: time
  csDeletedAt :: "time option"

record ChatItem =
  ciID :: int
  ciSessionID :: string
  ciOrdinal :: int
  ciRole :: string
  ciItemType :: string
  ciText :: "string option"
  ciSearchText :: string
  ciRawJSON :: "string option"
  ciCreatedAt :: time

record RecordFigure =
  fgID :: int
  fgRecordID :: string
  fgFilename :: string
  fgS3Key :: string
  fgAltText :: "string option"
  fgCreatedAt :: time

record RecordDataFile =
  dfID :: int
  dfRecordID :: string
  dfFilename :: string
  dfS3Key :: string
  dfSize :: int
  dfHash :: string
  dfDescription :: "string option"
  dfCreatedAt :: time

record ChildCounts =
  ccFigures :: nat
  ccDataFiles :: nat

record Template =
  tName :: string
  tHTMLContent :: string
  tDescription :: "string option"
  tCreatedAt :: time
  tUpdatedAt :: time

record SyncVersion =
  svID :: int
  svUserID :: string
  svVersion :: int
  svUpdatedAt :: time

section \<open>Inputs\<close>

record CreateRegistryInput =
  cgID :: string
  cgCreatedAt :: "time option"
  cgUpdatedAt :: "time option"
  cgArchivedAt :: "time option"

record CreateRecordInput =
  crID :: string
  crDate :: string
  crDayOrder :: string
  crHTMLContent :: "string option"
  crNotes :: "string option"
  crProjectID :: string
  crSourceDeviceID :: string
  crSourceRef :: "string option"
  crGitRemoteURL :: "string option"
  crGitHash :: "string option"
  crCreatedAt :: "time option"
  crUpdatedAt :: "time option"
  crDeletedAt :: "time option"

record UpdateRecordInput =
  urID :: string
  urDate :: string
  urDayOrder :: string
  urHTMLContent :: "string option"
  urNotes :: "string option"
  urProjectID :: string
  urSourceDeviceID :: string
  urSourceRef :: "string option"
  urGitRemoteURL :: "string option"
  urGitHash :: "string option"
  urUpdatedAt :: "time option"
  urSetDeletedAt :: bool
  urDeletedAt :: "time option"

record CreateRecordFigureInput =
  cfRecordID :: string
  cfFilename :: string
  cfS3Key :: string
  cfAltText :: "string option"

record UpdateRecordFigureInput =
  ufID :: int
  ufFilename :: string
  ufS3Key :: string
  ufAltText :: "string option"

record CreateRecordDataFileInput =
  cdRecordID :: string
  cdFilename :: string
  cdS3Key :: string
  cdSize :: int
  cdHash :: string
  cdDescription :: "string option"

record UpdateRecordDataFileInput =
  udID :: int
  udFilename :: string
  udS3Key :: string
  udSize :: "int option"
  udHash :: "string option"
  udDescription :: "string option"

record ReplaceRecordChildrenInput =
  rcRecord :: CreateRecordInput
  rcSetDeletedAt :: bool
  rcFigures :: "CreateRecordFigureInput list"
  rcDataFiles :: "CreateRecordDataFileInput list"

record CreateProjectPathInput =
  cpProjectID :: string
  cpPath :: string
  cpDeviceID :: string
  cpCreatedAt :: "time option"
  cpUpdatedAt :: "time option"

text \<open>\<open>UpsertChatSessionInput\<close> embeds \<open>CreateChatSessionInput\<close>.\<close>

record CreateChatSessionInput =
  icID :: string
  icSource :: string
  icSourceSessionID :: string
  icParentSourceSessionID :: "string option"
  icSourceDeviceID :: string
  icProjectID :: "string option"
  icCWD :: "string option"
  icTitle :: "string option"
  icStartedAt :: time
  icLastActivityAt :: time
  icOriginalSourcePath :: "string option"
  icRawSourceKey :: "string option"
  icCreatedAt :: "time option"
  icUpdatedAt :: "time option"
  icDeletedAt :: "time option"

record UpsertChatSessionInput = CreateChatSessionInput +
  icClearDeleted :: bool

record CreateChatItemInput =
  iiSessionID :: string
  iiOrdinal :: int
  iiRole :: string
  iiItemType :: string
  iiText :: "string option"
  iiSearchText :: string
  iiRawJSON :: "string option"
  iiCreatedAt :: "time option"

text \<open>A \<open>ChatImportItemMode\<close> is a Go string: any value other than the two constants is
  representable and must be rejected by its reader.\<close>

datatype ChatImportItemMode = ItemModeReplace | ItemModeAppend | ItemModeOther string

record ChatImportOp =
  ioSession :: UpsertChatSessionInput
  ioItemMode :: ChatImportItemMode
  ioItems :: "CreateChatItemInput list"

record ChatImportResult =
  irSession :: ChatSession
  irCreated :: bool

record CreateTemplateInput =
  ctName :: string
  ctHTMLContent :: string
  ctDescription :: "string option"
  ctCreatedAt :: "time option"
  ctUpdatedAt :: "time option"

record UpdateTemplateInput =
  utName :: string
  utHTMLContent :: string
  utDescription :: "string option"
  utUpdatedAt :: "time option"

section \<open>Filters\<close>

record ListRecordsFilter =
  lrIncludeDeleted :: bool
  lrOnlyDeleted :: bool
  lrProjectID :: "string option"
  lrDateFrom :: "string option"
  lrDateTo :: "string option"
  lrLimit :: int
  lrQuery :: "string option"
  lrUpdatedAfter :: "time option"
  lrUpdatedBefore :: "time option"
  lrHasHTML :: bool
  lrHasData :: bool

record ListChatSessionsFilter =
  lcIncludeDeleted :: bool
  lcOnlyDeleted :: bool
  lcProjectID :: "string option"
  lcUnassigned :: bool
  lcSource :: "string option"
  lcDeviceID :: "string option"
  lcParentSourceSessionID :: "string option"
  lcDateFrom :: "time option"
  lcDateTo :: "time option"
  lcLimit :: int
  lcOffset :: int
  lcUpdatedAfter :: "time option"

record CountChatItemsFilter =
  ciIncludeDeleted :: bool

text \<open>Go's zero values of the two list filters.\<close>

definition zero_records_filter :: ListRecordsFilter where
  "zero_records_filter =
    \<lparr> lrIncludeDeleted = False, lrOnlyDeleted = False, lrProjectID = None, lrDateFrom = None,
      lrDateTo = None, lrLimit = 0, lrQuery = None, lrUpdatedAfter = None, lrUpdatedBefore = None,
      lrHasHTML = False, lrHasData = False \<rparr>"

definition zero_chats_filter :: ListChatSessionsFilter where
  "zero_chats_filter =
    \<lparr> lcIncludeDeleted = False, lcOnlyDeleted = False, lcProjectID = None, lcUnassigned = False,
      lcSource = None, lcDeviceID = None, lcParentSourceSessionID = None, lcDateFrom = None,
      lcDateTo = None, lcLimit = 0, lcOffset = 0, lcUpdatedAfter = None \<rparr>"

end
