(* ===== verification/Resolve.thy ===== *)
theory Resolve
  imports Repo_Types
begin

text \<open>\<open>syncengine/resolve.go\<close>: which of two copies of a record wins, the cursor filter, and the
  filename indexes of child rows. The contract is an order: \<open>activity\<close> maps a record to a
  linearly ordered value (time of the latest action at millisecond precision, then edit over
  delete, then active over tombstoned) and the code picks the greater one.\<close>

section \<open>The code\<close>

datatype Outcome = OutcomeEqual | OutcomeLocal | OutcomeRemote

record recordAction =
  raWhen :: time
  raDeleted :: bool

definition latestRecordAction :: "Record \<Rightarrow> recordAction" where
  "latestRecordAction r =
    (let updatedAt = truncateToMillisecond (rUpdatedAt r) in
     case rDeletedAt r of
       None \<Rightarrow> \<lparr> raWhen = updatedAt, raDeleted = False \<rparr>
     | Some d \<Rightarrow>
         let deletedAt = truncateToMillisecond d in
         if updatedAt < deletedAt then \<lparr> raWhen = deletedAt, raDeleted = True \<rparr>
         else \<lparr> raWhen = updatedAt, raDeleted = False \<rparr>)"

definition recordIsMoreActive :: "Record \<Rightarrow> Record \<Rightarrow> bool" where
  "recordIsMoreActive left right = (rDeletedAt left = None \<and> rDeletedAt right \<noteq> None)"

definition ResolveRecordWinner :: "Record option \<Rightarrow> Record option \<Rightarrow> error + Outcome" where
  "ResolveRecordWinner local_copy remote_copy =
    (case (local_copy, remote_copy) of
       (None, None) \<Rightarrow> Inl (Plain ''at least one record is required'')
     | (None, Some _) \<Rightarrow> Inr OutcomeRemote
     | (Some _, None) \<Rightarrow> Inr OutcomeLocal
     | (Some l, Some r) \<Rightarrow>
         (let la = latestRecordAction l; ra = latestRecordAction r in
          if raWhen la > raWhen ra then Inr OutcomeLocal
          else if raWhen ra > raWhen la then Inr OutcomeRemote
          else if raDeleted la \<noteq> raDeleted ra then
            (if \<not> raDeleted la then Inr OutcomeLocal else Inr OutcomeRemote)
          else if recordIsMoreActive l r then Inr OutcomeLocal
          else if recordIsMoreActive r l then Inr OutcomeRemote
          else Inr OutcomeEqual))"

definition FilterRecordsUpdatedSince :: "Record list \<Rightarrow> time \<Rightarrow> Record list" where
  "FilterRecordsUpdatedSince records since =
    (if is_zero since then records
     else let threshold = truncateToMillisecond since in
       filter (\<lambda>r. \<not> truncateToMillisecond (rUpdatedAt r) < threshold) records)"

definition FigureMapByFilename :: "RecordFigure list \<Rightarrow> error + (string \<rightharpoonup> RecordFigure)" where
  "FigureMapByFilename figures =
    each_result
      (\<lambda>figure indexed.
         if indexed (fgFilename figure) \<noteq> None then Inl (Plain ''duplicate figure filename'')
         else Inr (indexed(fgFilename figure \<mapsto> figure)))
      figures Map.empty"

definition DataFileMapByFilename :: "RecordDataFile list \<Rightarrow> error + (string \<rightharpoonup> RecordDataFile)" where
  "DataFileMapByFilename files =
    each_result
      (\<lambda>file indexed.
         if indexed (dfFilename file) \<noteq> None then Inl (Plain ''duplicate data file filename'')
         else Inr (indexed(dfFilename file \<mapsto> file)))
      files Map.empty"

section \<open>The order the code implements\<close>

datatype Activity = Activity (act_when: time) (act_edit: bool) (act_active: bool)

instantiation Activity :: linorder
begin

definition less_Activity :: "Activity \<Rightarrow> Activity \<Rightarrow> bool" where
  "less_Activity a b =
    (act_when a < act_when b \<or>
     act_when a = act_when b \<and>
       (act_edit a < act_edit b \<or> act_edit a = act_edit b \<and> act_active a < act_active b))"

definition less_eq_Activity :: "Activity \<Rightarrow> Activity \<Rightarrow> bool" where
  "less_eq_Activity a b = (a = b \<or> a < b)" for a b :: Activity

instance
  by standard (auto simp: less_Activity_def less_eq_Activity_def intro: Activity.expand)

end

definition activity :: "Record \<Rightarrow> Activity" where
  "activity r =
    (let a = latestRecordAction r in Activity (raWhen a) (\<not> raDeleted a) (rDeletedAt r = None))"

text \<open>The copy a replica keeps after comparing its own with another.\<close>

definition keep_winner :: "Record \<Rightarrow> Record \<Rightarrow> Record" where
  "keep_winner mine other =
    (case ResolveRecordWinner (Some mine) (Some other) of Inr OutcomeRemote \<Rightarrow> other | _ \<Rightarrow> mine)"

section \<open>Facts\<close>

lemma ResolveRecordWinner_activity:
  "ResolveRecordWinner (Some l) (Some r) =
     Inr (if activity r < activity l then OutcomeLocal
          else if activity l < activity r then OutcomeRemote else OutcomeEqual)"
  by (auto simp: ResolveRecordWinner_def activity_def recordIsMoreActive_def less_Activity_def Let_def)

lemma activity_keep_winner: "activity (keep_winner a b) = max (activity a) (activity b)"
  by (auto simp: keep_winner_def ResolveRecordWinner_activity max_def)

lemma keep_winner_cases: "keep_winner a b \<in> {a, b}"
  by (auto simp: keep_winner_def split: sum.splits Outcome.splits)

text \<open>The fields that decide: two records that agree on them have the same activity.\<close>

lemma activity_cong:
  "rUpdatedAt a = rUpdatedAt b \<Longrightarrow> rDeletedAt a = rDeletedAt b \<Longrightarrow> activity a = activity b"
  by (simp add: activity_def latestRecordAction_def)

lemma activity_truncate:
  assumes "truncateToMillisecond (rUpdatedAt a) = truncateToMillisecond (rUpdatedAt b)"
    and "map_option truncateToMillisecond (rDeletedAt a) = map_option truncateToMillisecond (rDeletedAt b)"
  shows "activity a = activity b"
  using assms
  by (cases "rDeletedAt a"; cases "rDeletedAt b") (simp_all add: activity_def latestRecordAction_def)

text \<open>The filename index of a list of rows: an error exactly for a repeated filename.\<close>

lemma index_rows_result:
  assumes "\<And>row m. f row m = (if m (key row) \<noteq> None then Inl e else Inr (m(key row \<mapsto> row)))"
  shows "each_result f rows m =
     (if distinct (List.map key rows) \<and> set (List.map key rows) \<inter> dom m = {}
      then Inr (m ++ map_of (List.map (\<lambda>row. (key row, row)) rows)) else Inl e)"
proof (induction rows arbitrary: m)
  case (Cons row rows)
  have "m(key row \<mapsto> row) ++ map_of (List.map (\<lambda>row. (key row, row)) rows)
      = m ++ map_of (List.map (\<lambda>row. (key row, row)) (row # rows))"
    if "key row \<notin> key ` set rows"
    using that by (simp add: map_add_upd_left dom_map_of_conv_image_fst image_image)
  moreover have "each_result f (row # rows) m =
      (if m (key row) \<noteq> None then Inl e else each_result f rows (m(key row \<mapsto> row)))"
    by (simp add: assms)
  ultimately show ?case
    unfolding Cons.IH by (auto simp: domIff) (auto simp: fun_eq_iff map_add_def)
qed simp

lemma FigureMapByFilename_result:
  "FigureMapByFilename figures =
     (if distinct (List.map fgFilename figures)
      then Inr (map_of (List.map (\<lambda>f. (fgFilename f, f)) figures))
      else Inl (Plain ''duplicate figure filename''))"
  unfolding FigureMapByFilename_def
  by (subst index_rows_result [where key = fgFilename and e = "Plain ''duplicate figure filename''"])
     simp_all

lemma DataFileMapByFilename_result:
  "DataFileMapByFilename files =
     (if distinct (List.map dfFilename files)
      then Inr (map_of (List.map (\<lambda>f. (dfFilename f, f)) files))
      else Inl (Plain ''duplicate data file filename''))"
  unfolding DataFileMapByFilename_def
  by (subst index_rows_result [where key = dfFilename and e = "Plain ''duplicate data file filename''"])
     simp_all

section \<open>Properties\<close>

text \<open>C2. The conflict rule is a total comparison: with both copies present the code answers by
  comparing their activities, it is antisymmetric in the two sides (so both directions of a sync
  agree), it never fails, and with one copy missing the other wins.\<close>

theorem resolve_is_activity_order:
  "ResolveRecordWinner (Some l) (Some r) =
     Inr (if activity r < activity l then OutcomeLocal
          else if activity l < activity r then OutcomeRemote else OutcomeEqual)
   \<and> (ResolveRecordWinner (Some l) (Some r) = Inr OutcomeLocal
        \<longleftrightarrow> ResolveRecordWinner (Some r) (Some l) = Inr OutcomeRemote)
   \<and> ResolveRecordWinner (Some l) None = Inr OutcomeLocal
   \<and> ResolveRecordWinner None (Some r) = Inr OutcomeRemote"
  by (auto simp: ResolveRecordWinner_activity) (simp_all add: ResolveRecordWinner_def)

text \<open>C3. Convergence: whatever order the copies of a record meet in, the copy that survives is one
  of them and its activity is the maximum of all of them.\<close>

theorem resolve_converges:
  "activity (fold (\<lambda>other mine. keep_winner mine other) copies mine) = Max (activity ` set (mine # copies))
   \<and> fold (\<lambda>other mine. keep_winner mine other) copies mine \<in> set (mine # copies)"
proof (induction copies arbitrary: mine)
  case (Cons c copies)
  have "Max (activity ` set (keep_winner mine c # copies)) = Max (activity ` set (mine # c # copies))"
  proof (cases "copies = []")
    case False
    then show ?thesis
      by (simp add: activity_keep_winner max.assoc)
  qed (simp add: activity_keep_winner)
  with Cons [of "keep_winner mine c"] keep_winner_cases [of mine c] show ?case
    by auto
qed simp

text \<open>The cursor filter is inclusive at millisecond precision and misses nothing: it keeps the
  listed order, keeps exactly the records whose truncated update time is not before the truncated
  cursor (all of them for the zero cursor), hence every record updated at or after the cursor.\<close>

theorem filter_since_complete:
  "set (FilterRecordsUpdatedSince records since) =
     {r \<in> set records. since = 0 \<or> truncateToMillisecond since \<le> truncateToMillisecond (rUpdatedAt r)}
   \<and> {r \<in> set records. since \<le> rUpdatedAt r} \<subseteq> set (FilterRecordsUpdatedSince records since)
   \<and> subseq (FilterRecordsUpdatedSince records since) records"
  by (auto simp: FilterRecordsUpdatedSince_def is_zero_def Let_def not_less truncate_mono)

end
