(* ===== verification/Asset_Key.thy ===== *)
theory Asset_Key
  imports Repo_Types
begin

text \<open>\<open>repository/asset_key.go\<close>, \<open>repository/search_query.go\<close> and the validation of a replacement
  child set (\<open>repository/types.go\<close>).\<close>

definition validateAssetPathSegment :: "string \<Rightarrow> string \<Rightarrow> error + unit" where
  "validateAssetPathSegment field value =
    (if blank value then Inl (Wrapped (field @ '' is required'') ErrInvalidArgument)
     else if value \<noteq> trim_space value then
       Inl (Wrapped (field @ '' must not contain surrounding whitespace'') ErrInvalidArgument)
     else if value = ''.'' \<or> value = ''..'' \<or> CHR ''/'' \<in> set value \<or> CHR 0x5C \<in> set value then
       Inl (Wrapped (field @ '' must be one path segment'') ErrInvalidArgument)
     else Inr ())"

definition CanonicalRecordAssetKey :: "string \<Rightarrow> string \<Rightarrow> string \<Rightarrow> error + string" where
  "CanonicalRecordAssetKey kind recordID filename =
    (if kind \<noteq> ''figures'' \<and> kind \<noteq> ''data'' then
       Inl (Wrapped ''unsupported asset key kind'' ErrInvalidArgument)
     else case validateAssetPathSegment ''record id'' recordID of
       Inl e \<Rightarrow> Inl e
     | Inr _ \<Rightarrow>
         (case validateAssetPathSegment ''filename'' filename of
            Inl e \<Rightarrow> Inl e
          | Inr _ \<Rightarrow> Inr (kind @ ''/'' @ recordID @ ''/'' @ filename)))"

definition ValidateRecordAssetKey :: "string \<Rightarrow> string \<Rightarrow> string \<Rightarrow> string \<Rightarrow> error + unit" where
  "ValidateRecordAssetKey kind recordID filename s3Key =
    (case CanonicalRecordAssetKey kind recordID filename of
       Inl e \<Rightarrow> Inl e
     | Inr expected \<Rightarrow>
         if blank s3Key then Inl (Wrapped ''s3_key is required'' ErrInvalidArgument)
         else if s3Key \<noteq> trim_space s3Key then
           Inl (Wrapped ''s3_key must not contain surrounding whitespace'' ErrInvalidArgument)
         else if prefix ''/'' s3Key \<or> CHR 0x5C \<in> set s3Key then
           Inl (Wrapped ''s3_key must be a forward-slash relative path'' ErrInvalidArgument)
         else if length (split_at (CHR ''/'') s3Key) \<noteq> 3 then
           Inl (Wrapped ''s3_key must be {kind}/{record_id}/{filename}'' ErrInvalidArgument)
         else if s3Key \<noteq> expected then
           Inl (Wrapped ''s3_key must equal the canonical key'' ErrInvalidArgument)
         else Inr ())"

text \<open>\<open>strings.Fields\<close>: the maximal runs without white space. \<open>space_at s\<close> is the length of the
  white-space sequence that starts \<open>s\<close>, 0 if there is none.\<close>

definition space_at :: "string \<Rightarrow> nat" where
  "space_at s = (case List.find (\<lambda>q. prefix q s) space_seqs of None \<Rightarrow> 0 | Some q \<Rightarrow> length q)"

function fields_from :: "string \<Rightarrow> string \<Rightarrow> string list" where
  "fields_from acc s =
    (let flush = (if acc = [] then [] else [rev acc]) in
     case s of
       [] \<Rightarrow> flush
     | c # cs \<Rightarrow>
         if space_at s > 0 then flush @ fields_from [] (drop (space_at s) s)
         else fields_from (c # acc) cs)"
  by pat_completeness auto
termination
  by (relation "measure (\<lambda>(acc, s). length s)") auto

declare fields_from.simps [simp del]

definition split_fields :: "string \<Rightarrow> string list" where
  "split_fields s = fields_from [] s"

definition search_operators :: "string list" where
  "search_operators = [''OR'', ''AND'', ''NOT'', ''NEAR'']"

definition ValidateSearchQuery :: "string \<Rightarrow> error + unit" where
  "ValidateSearchQuery query =
    each_result
      (\<lambda>token _. if token \<in> set search_operators
                 then Inl (Wrapped ''is not supported'' ErrUnsupportedSearchOperator)
                 else Inr ())
      (split_fields query) ()"

text \<open>\<open>ReplaceRecordChildrenInput.Validate\<close>.\<close>

definition validate_replacement_figure :: "string \<Rightarrow> CreateRecordFigureInput \<Rightarrow> unit \<Rightarrow> error + unit" where
  "validate_replacement_figure recordID figure _ =
    (if cfRecordID figure \<noteq> recordID then Inl ErrInvalidArgument
     else ValidateRecordAssetKey ''figures'' (cfRecordID figure) (cfFilename figure) (cfS3Key figure))"

definition validate_replacement_file :: "string \<Rightarrow> CreateRecordDataFileInput \<Rightarrow> unit \<Rightarrow> error + unit" where
  "validate_replacement_file recordID file _ =
    (if cdRecordID file \<noteq> recordID \<or> blank (cdHash file) \<or> cdSize file < 0 then Inl ErrInvalidArgument
     else ValidateRecordAssetKey ''data'' (cdRecordID file) (cdFilename file) (cdS3Key file))"

definition Validate_replacement :: "ReplaceRecordChildrenInput \<Rightarrow> error + unit" where
  "Validate_replacement input =
    (let r = rcRecord input in
     if blank (crID r) \<or> blank (crDate r) \<or> blank (crProjectID r) \<or> blank (crSourceDeviceID r)
     then Inl ErrInvalidArgument
     else case each_result (validate_replacement_figure (crID r)) (rcFigures input) () of
       Inl e \<Rightarrow> Inl e
     | Inr _ \<Rightarrow> each_result (validate_replacement_file (crID r)) (rcDataFiles input) ())"

section \<open>Facts\<close>

text \<open>A name that is one path segment, the condition every stored filename meets.\<close>

definition path_segment :: "string \<Rightarrow> bool" where
  "path_segment v =
    (\<not> blank v \<and> v = trim_space v \<and> v \<noteq> ''.'' \<and> v \<noteq> ''..'' \<and> CHR ''/'' \<notin> set v \<and> CHR 0x5C \<notin> set v)"

lemma validateAssetPathSegment_ok [simp]: "path_segment v \<Longrightarrow> validateAssetPathSegment f v = Inr ()"
  by (simp add: validateAssetPathSegment_def path_segment_def)

lemma validateAssetPathSegment_error:
  "\<not> path_segment v \<Longrightarrow> \<exists>m. validateAssetPathSegment f v = Inl (Wrapped m ErrInvalidArgument)"
  by (auto simp: validateAssetPathSegment_def path_segment_def)

lemma CanonicalRecordAssetKey_ok [simp]:
  assumes "k \<in> {''figures'', ''data''}" "path_segment r" "path_segment f"
  shows "CanonicalRecordAssetKey k r f = Inr (k @ ''/'' @ r @ ''/'' @ f)"
  using assms by (auto simp: CanonicalRecordAssetKey_def)

lemma CanonicalRecordAssetKey_error:
  assumes "\<not> (k \<in> {''figures'', ''data''} \<and> path_segment r \<and> path_segment f)"
  shows "\<exists>m. CanonicalRecordAssetKey k r f = Inl (Wrapped m ErrInvalidArgument)"
  using assms validateAssetPathSegment_error [of r "''record id''"]
    validateAssetPathSegment_error [of f "''filename''"]
  by (cases "path_segment r"; cases "path_segment f") (auto simp: CanonicalRecordAssetKey_def)

lemma CanonicalRecordAssetKey_split:
  assumes "path_segment r" "path_segment f" "CHR ''/'' \<notin> set k"
  shows "split_at (CHR ''/'') (k @ ''/'' @ r @ ''/'' @ f) = [k, r, f]"
  using assms by (simp add: path_segment_def split_at_append)

lemma each_result_unit_ok:
  "each_result (\<lambda>x u. f x u) xs () = Inr () \<longleftrightarrow> (\<forall>x\<in>set xs. f x () = Inr ())"
  by (induction xs) (auto split: sum.splits)

text \<open>Trimming sees only the ends of a string: a white-space sequence has no slash, so what trims a
  string ending in \<open>/f\<close> would trim \<open>f\<close>.\<close>

lemma space_seqs_no_slash: "q \<in> set space_seqs \<Longrightarrow> CHR ''/'' \<notin> set q"
  by (auto simp: space_seqs_def)

lemma starts_with_seq_stop:
  assumes "\<And>q. q \<in> set qs \<Longrightarrow> c \<notin> set q" and "starts_with_seq qs (s @ c # t)"
  shows "starts_with_seq qs s"
proof -
  from assms(2) obtain q where q: "q \<in> set qs" "q \<noteq> []" "prefix q (s @ c # t)"
    by (auto simp: starts_with_seq_def)
  have "prefix q s"
    using q(3) assms(1) [OF q(1)] by (auto simp: prefix_append Cons_prefix_Cons prefix_Cons)
  with q show ?thesis by (auto simp: starts_with_seq_def)
qed

lemma trim_fixed_not_end: "trim_space s = s \<Longrightarrow> \<not> starts_with_seq (List.map rev space_seqs) (rev s)"
  by (metis trim_space_def rev_rev_ident strip_seqs_not_start)

lemma trim_canonical_key:
  assumes "k \<in> {''figures'', ''data''}" "path_segment f"
  shows "trim_space (k @ ''/'' @ r @ ''/'' @ f) = k @ ''/'' @ r @ ''/'' @ f"
proof (rule trim_fixed_ends)
  show "\<not> starts_with_seq space_seqs (k @ ''/'' @ r @ ''/'' @ f)"
    using assms(1) by (auto simp: starts_with_seq_def space_seqs_def)
  have "\<not> starts_with_seq (List.map rev space_seqs) (rev f)"
    using assms(2) trim_fixed_not_end [of f] by (simp add: path_segment_def)
  moreover have ns: "CHR ''/'' \<notin> set q" if "q \<in> set (List.map rev space_seqs)" for q
    using that space_seqs_no_slash by auto
  ultimately show "\<not> starts_with_seq (List.map rev space_seqs) (rev (k @ ''/'' @ r @ ''/'' @ f))"
    using starts_with_seq_stop [of "List.map rev space_seqs" "CHR ''/''" "rev f" "rev (k @ ''/'' @ r)", OF ns]
    by auto
qed

lemma ValidateRecordAssetKey_iff:
  "ValidateRecordAssetKey k r f key = Inr () \<longleftrightarrow>
     k \<in> {''figures'', ''data''} \<and> path_segment r \<and> path_segment f \<and> key = k @ ''/'' @ r @ ''/'' @ f"
proof (cases "k \<in> {''figures'', ''data''} \<and> path_segment r \<and> path_segment f")
  case True
  let ?c = "k @ ''/'' @ r @ ''/'' @ f"
  have "length (split_at (CHR ''/'') ?c) = 3"
    using True by (subst CanonicalRecordAssetKey_split) auto
  moreover have "trim_space ?c = ?c" "?c \<noteq> []"
    using True trim_canonical_key by auto
  moreover have "\<not> prefix ''/'' ?c" "CHR 0x5C \<notin> set ?c"
    using True by (auto simp: path_segment_def)
  ultimately show ?thesis
    using True by (auto simp: ValidateRecordAssetKey_def blank_def simp del: append_Cons)
next
  case False
  then show ?thesis
    using CanonicalRecordAssetKey_error [OF False] by (auto simp: ValidateRecordAssetKey_def)
qed

section \<open>Properties\<close>

text \<open>C4. A child asset key is accepted exactly when it is the canonical path of a supported kind
  over one-segment record id and filename (no white space around them, no separator, not a dot
  name), and then it splits back into kind, record and filename: two rows with one object key are
  the same kind, record and filename.\<close>

theorem asset_key_canonical:
  "(ValidateRecordAssetKey k r f key = Inr ()) =
     (k \<in> {''figures'', ''data''} \<and> path_segment r \<and> path_segment f
      \<and> split_at (CHR ''/'') key = [k, r, f] \<and> key = k @ ''/'' @ r @ ''/'' @ f)"
  using CanonicalRecordAssetKey_split [of r f k] by (auto simp: ValidateRecordAssetKey_iff)

end
