(* ===== verification/Conflict.thy ===== *)
theory Conflict
  imports Resolve Asset_Key
begin

text \<open>\<open>sync/conflict.go\<close>: the bundle comparison, the reconciliation plans for figures and data
  files (matched by filename), and the test that decides whether the side with more child rows may
  repair the other. \<open>figure_plan\<close> and \<open>data_file_plan\<close> are the plans written without the loop.\<close>

section \<open>Bundles\<close>

datatype Winner = WinnerLocal | WinnerCloud | WinnerNone

record RecordBundle =
  bRecord :: Record
  bFigures :: "RecordFigure list"
  bDataFiles :: "RecordDataFile list"

text \<open>On \<open>WinnerNone\<close> the code returns the empty bundle, which its callers do not read: \<open>None\<close>.\<close>

definition ResolveBundle ::
  "RecordBundle \<Rightarrow> RecordBundle \<Rightarrow> error + (RecordBundle option \<times> Winner)" where
  "ResolveBundle local_bundle cloud_bundle =
    (let localID = trim_space (rID (bRecord local_bundle));
         cloudID = trim_space (rID (bRecord cloud_bundle)) in
     if localID = [] then Inl (Plain ''local record id is required'')
     else if cloudID = [] then Inl (Plain ''cloud record id is required'')
     else if localID \<noteq> cloudID then Inl (Plain ''bundle ids must match'')
     else case ResolveRecordWinner (Some (bRecord local_bundle)) (Some (bRecord cloud_bundle)) of
       Inl e \<Rightarrow> Inl e
     | Inr OutcomeLocal \<Rightarrow> Inr (Some local_bundle, WinnerLocal)
     | Inr OutcomeRemote \<Rightarrow> Inr (Some cloud_bundle, WinnerCloud)
     | Inr OutcomeEqual \<Rightarrow> Inr (None, WinnerNone))"

definition nullableStringValue :: "string option \<Rightarrow> string" where
  "nullableStringValue value = (case value of None \<Rightarrow> [] | Some s \<Rightarrow> s)"

section \<open>Figures\<close>

record FigurePlan =
  fpCreates :: "CreateRecordFigureInput list"
  fpUpdates :: "UpdateRecordFigureInput list"
  fpDeleteIDs :: "int list"

definition create_figure_of :: "string \<Rightarrow> RecordFigure \<Rightarrow> CreateRecordFigureInput" where
  "create_figure_of recordID figure =
    \<lparr> cfRecordID = recordID, cfFilename = fgFilename figure, cfS3Key = fgS3Key figure,
      cfAltText = fgAltText figure \<rparr>"

definition update_figure_of :: "RecordFigure \<Rightarrow> RecordFigure \<Rightarrow> UpdateRecordFigureInput" where
  "update_figure_of existing figure =
    \<lparr> ufID = fgID existing, ufFilename = fgFilename figure, ufS3Key = fgS3Key figure,
      ufAltText = fgAltText figure \<rparr>"

definition figure_differs :: "RecordFigure \<Rightarrow> RecordFigure \<Rightarrow> bool" where
  "figure_differs existing figure =
    (fgS3Key existing \<noteq> fgS3Key figure \<or>
     nullableStringValue (fgAltText existing) \<noteq> nullableStringValue (fgAltText figure))"

text \<open>One iteration of the loop over the desired figures: the plan so far and
  \<open>desiredByFilename\<close>.\<close>

definition plan_figure ::
  "string \<Rightarrow> (string \<rightharpoonup> RecordFigure) \<Rightarrow> RecordFigure \<Rightarrow>
   FigurePlan \<times> (string \<rightharpoonup> RecordFigure) \<Rightarrow> error + (FigurePlan \<times> (string \<rightharpoonup> RecordFigure))" where
  "plan_figure recordID existingBy figure st =
    (case st of (plan, desiredBy) \<Rightarrow>
     (case ValidateRecordAssetKey ''figures'' recordID (fgFilename figure) (fgS3Key figure) of
        Inl e \<Rightarrow> Inl (Wrapped ''desired figure asset key'' e)
      | Inr _ \<Rightarrow>
          if desiredBy (fgFilename figure) \<noteq> None then Inl (Plain ''duplicate desired figure filename'')
          else let desiredBy' = desiredBy(fgFilename figure \<mapsto> figure) in
            (case existingBy (fgFilename figure) of
               Some existing \<Rightarrow>
                 if figure_differs existing figure
                 then Inr (plan \<lparr> fpUpdates := fpUpdates plan @ [update_figure_of existing figure] \<rparr>, desiredBy')
                 else Inr (plan, desiredBy')
             | None \<Rightarrow>
                 Inr (plan \<lparr> fpCreates := fpCreates plan @ [create_figure_of recordID figure] \<rparr>, desiredBy'))))"

definition PlanFigureReconciliation ::
  "string \<Rightarrow> RecordFigure list \<Rightarrow> RecordFigure list \<Rightarrow> error + FigurePlan" where
  "PlanFigureReconciliation recordID existing desired =
    (if blank recordID then Inl (Plain ''record id is required'')
     else case FigureMapByFilename existing of
       Inl e \<Rightarrow> Inl (Wrapped ''existing figures'' e)
     | Inr existingBy \<Rightarrow>
         (case each_result (plan_figure recordID existingBy) desired
                 (\<lparr> fpCreates = [], fpUpdates = [], fpDeleteIDs = [] \<rparr>, Map.empty) of
            Inl e \<Rightarrow> Inl e
          | Inr (plan, desiredBy) \<Rightarrow>
              Inr (plan \<lparr> fpDeleteIDs :=
                [fgID figure. figure \<leftarrow> existing, desiredBy (fgFilename figure) = None] \<rparr>)))"

section \<open>Data files\<close>

record DataFilePlan =
  dpCreates :: "CreateRecordDataFileInput list"
  dpUpdates :: "UpdateRecordDataFileInput list"
  dpDeleteIDs :: "int list"

definition create_data_file_of :: "string \<Rightarrow> RecordDataFile \<Rightarrow> CreateRecordDataFileInput" where
  "create_data_file_of recordID file =
    \<lparr> cdRecordID = recordID, cdFilename = dfFilename file, cdS3Key = dfS3Key file,
      cdSize = dfSize file, cdHash = dfHash file, cdDescription = dfDescription file \<rparr>"

definition update_data_file_of :: "RecordDataFile \<Rightarrow> RecordDataFile \<Rightarrow> UpdateRecordDataFileInput" where
  "update_data_file_of existing file =
    \<lparr> udID = dfID existing, udFilename = dfFilename file, udS3Key = dfS3Key file,
      udSize = Some (dfSize file), udHash = Some (dfHash file), udDescription = dfDescription file \<rparr>"

definition data_file_differs :: "RecordDataFile \<Rightarrow> RecordDataFile \<Rightarrow> bool" where
  "data_file_differs existing file =
    (dfS3Key existing \<noteq> dfS3Key file \<or> dfSize existing \<noteq> dfSize file \<or> dfHash existing \<noteq> dfHash file \<or>
     nullableStringValue (dfDescription existing) \<noteq> nullableStringValue (dfDescription file))"

definition plan_data_file ::
  "string \<Rightarrow> (string \<rightharpoonup> RecordDataFile) \<Rightarrow> RecordDataFile \<Rightarrow>
   DataFilePlan \<times> (string \<rightharpoonup> RecordDataFile) \<Rightarrow> error + (DataFilePlan \<times> (string \<rightharpoonup> RecordDataFile))" where
  "plan_data_file recordID existingBy file st =
    (case st of (plan, desiredBy) \<Rightarrow>
     (case ValidateRecordAssetKey ''data'' recordID (dfFilename file) (dfS3Key file) of
        Inl e \<Rightarrow> Inl (Wrapped ''desired data file asset key'' e)
      | Inr _ \<Rightarrow>
          if blank (dfHash file) then Inl (Plain ''desired data file hash is required'')
          else if desiredBy (dfFilename file) \<noteq> None then Inl (Plain ''duplicate desired data file filename'')
          else let desiredBy' = desiredBy(dfFilename file \<mapsto> file) in
            (case existingBy (dfFilename file) of
               Some existing \<Rightarrow>
                 if data_file_differs existing file
                 then Inr (plan \<lparr> dpUpdates := dpUpdates plan @ [update_data_file_of existing file] \<rparr>, desiredBy')
                 else Inr (plan, desiredBy')
             | None \<Rightarrow>
                 Inr (plan \<lparr> dpCreates := dpCreates plan @ [create_data_file_of recordID file] \<rparr>, desiredBy'))))"

definition PlanDataFileReconciliation ::
  "string \<Rightarrow> RecordDataFile list \<Rightarrow> RecordDataFile list \<Rightarrow> error + DataFilePlan" where
  "PlanDataFileReconciliation recordID existing desired =
    (if blank recordID then Inl (Plain ''record id is required'')
     else case DataFileMapByFilename existing of
       Inl e \<Rightarrow> Inl (Wrapped ''existing data files'' e)
     | Inr existingBy \<Rightarrow>
         (case each_result (plan_data_file recordID existingBy) desired
                 (\<lparr> dpCreates = [], dpUpdates = [], dpDeleteIDs = [] \<rparr>, Map.empty) of
            Inl e \<Rightarrow> Inl e
          | Inr (plan, desiredBy) \<Rightarrow>
              Inr (plan \<lparr> dpDeleteIDs :=
                [dfID file. file \<leftarrow> existing, desiredBy (dfFilename file) = None] \<rparr>)))"

section \<open>Repair of a partial target\<close>

fun nullableStringsEqual :: "string option \<Rightarrow> string option \<Rightarrow> bool" where
  "nullableStringsEqual None r = (r = None)"
| "nullableStringsEqual l None = (l = None)"
| "nullableStringsEqual (Some l) (Some r) = (l = r)"

lemma nullableStringsEqual_eq [simp]: "nullableStringsEqual l r = (l = r)"
  by (cases l; cases r) auto

definition recordPayloadsEqual :: "Record \<Rightarrow> Record \<Rightarrow> bool" where
  "recordPayloadsEqual l r =
    (rID l = rID r \<and> rDate l = rDate r \<and> rDayOrder l = rDayOrder r \<and> nullableStringsEqual (rHTMLContent l) (rHTMLContent r) \<and>
     nullableStringsEqual (rNotes l) (rNotes r) \<and> rProjectID l = rProjectID r \<and> rSourceDeviceID l = rSourceDeviceID r \<and>
     nullableStringsEqual (rSourceRef l) (rSourceRef r) \<and> nullableStringsEqual (rGitRemoteURL l) (rGitRemoteURL r) \<and> nullableStringsEqual (rGitHash l) (rGitHash r))"

definition sourceHasExactFigureSuperset :: "RecordFigure list \<Rightarrow> RecordFigure list \<Rightarrow> bool" where
  "sourceHasExactFigureSuperset source target =
    (\<not> length source < length target \<and>
     (let sourceBy = fold (\<lambda>f m. m(fgFilename f \<mapsto> f)) source Map.empty in
      list_all
        (\<lambda>f. case sourceBy (fgFilename f) of
               None \<Rightarrow> False
             | Some match \<Rightarrow> \<not> figure_differs f match)
        target))"

definition sourceHasExactDataFileSuperset :: "RecordDataFile list \<Rightarrow> RecordDataFile list \<Rightarrow> bool" where
  "sourceHasExactDataFileSuperset source target =
    (\<not> length source < length target \<and>
     (let sourceBy = fold (\<lambda>f m. m(dfFilename f \<mapsto> f)) source Map.empty in
      list_all
        (\<lambda>f. case sourceBy (dfFilename f) of
               None \<Rightarrow> False
             | Some match \<Rightarrow> \<not> data_file_differs f match)
        target))"

definition sourceBundleCanRepairTargetChildren :: "RecordBundle \<Rightarrow> RecordBundle \<Rightarrow> bool" where
  "sourceBundleCanRepairTargetChildren source target =
    (recordPayloadsEqual (bRecord source) (bRecord target) \<and>
     sourceHasExactFigureSuperset (bFigures source) (bFigures target) \<and>
     sourceHasExactDataFileSuperset (bDataFiles source) (bDataFiles target) \<and>
     (length (bFigures target) < length (bFigures source) \<or>
      length (bDataFiles target) < length (bDataFiles source)))"

section \<open>The plans without the loop\<close>

definition figure_plan :: "string \<Rightarrow> RecordFigure list \<Rightarrow> RecordFigure list \<Rightarrow> FigurePlan" where
  "figure_plan recordID existing desired =
    \<lparr> fpCreates = [create_figure_of recordID d. d \<leftarrow> desired, fgFilename d \<notin> fgFilename ` set existing],
      fpUpdates = [update_figure_of e d. d \<leftarrow> desired, e \<leftarrow> existing,
                     fgFilename e = fgFilename d \<and> figure_differs e d],
      fpDeleteIDs = [fgID e. e \<leftarrow> existing, fgFilename e \<notin> fgFilename ` set desired] \<rparr>"

definition data_file_plan :: "string \<Rightarrow> RecordDataFile list \<Rightarrow> RecordDataFile list \<Rightarrow> DataFilePlan" where
  "data_file_plan recordID existing desired =
    \<lparr> dpCreates = [create_data_file_of recordID d. d \<leftarrow> desired, dfFilename d \<notin> dfFilename ` set existing],
      dpUpdates = [update_data_file_of e d. d \<leftarrow> desired, e \<leftarrow> existing,
                     dfFilename e = dfFilename d \<and> data_file_differs e d],
      dpDeleteIDs = [dfID e. e \<leftarrow> existing, dfFilename e \<notin> dfFilename ` set desired] \<rparr>"

text \<open>A loop that checks each row, refuses a repeated key and folds a plan.\<close>

lemma plan_loop:
  assumes ok: "\<And>x p m. ok x \<Longrightarrow> m (key x) = None \<Longrightarrow> f x (p, m) = Inr (g x p, m(key x \<mapsto> x))"
    and bad: "\<And>x p m. \<not> (ok x \<and> m (key x) = None) \<Longrightarrow> \<exists>e. f x (p, m) = Inl e"
  shows "each_result f xs (p, m) = Inr (p', m') \<longleftrightarrow>
     (\<forall>x\<in>set xs. ok x) \<and> distinct (List.map key xs) \<and> key ` set xs \<inter> dom m = {} \<and>
     p' = fold g xs p \<and> m' = m ++ map_of (List.map (\<lambda>x. (key x, x)) xs)"
proof (induction xs arbitrary: p m)
  case Nil
  then show ?case by auto
next
  case (Cons x xs)
  show ?case
  proof (cases "ok x \<and> m (key x) = None")
    case True
    have s: "f x (p, m) = Inr (g x p, m(key x \<mapsto> x))"
      using True by (intro ok) auto
    have L: "each_result f (x # xs) (p, m) = Inr (p', m') \<longleftrightarrow>
        (\<forall>x\<in>set xs. ok x) \<and> distinct (List.map key xs) \<and> key ` set xs \<inter> dom (m(key x \<mapsto> x)) = {} \<and>
        p' = fold g xs (g x p) \<and> m' = m(key x \<mapsto> x) ++ map_of (List.map (\<lambda>x. (key x, x)) xs)"
      by (simp only: each_result.simps s sum.case Cons.IH)
    show ?thesis
    proof (cases "key x \<in> key ` set xs")
      case False
      then have "m(key x \<mapsto> x) ++ map_of (List.map (\<lambda>x. (key x, x)) xs)
          = m ++ map_of (List.map (\<lambda>x. (key x, x)) (x # xs))"
        by (simp add: map_add_upd_left dom_map_of_conv_image_fst image_image)
      moreover have "key x \<notin> dom m" using True by (simp add: domIff)
      ultimately show ?thesis
        using True False unfolding L by (auto simp del: map_of.simps list.map simp: list.map(2) [of key])
    qed (use L in auto)
  next
    case False
    then obtain e where "f x (p, m) = Inl e" using bad by blast
    with False show ?thesis by auto
  qed
qed

lemma index_lookup:
  assumes "distinct (List.map key rows)"
  shows "map_of (List.map (\<lambda>f. (key f, f)) rows) k = Some r \<longleftrightarrow> r \<in> set rows \<and> key r = k"
  using assms
  by (auto simp: distinct_map o_def dest!: map_of_SomeD intro!: map_of_is_SomeI)

lemma index_lookup_None:
  "map_of (List.map (\<lambda>f. (key f, f)) rows) k = None \<longleftrightarrow> k \<notin> key ` set rows"
  by (simp add: map_of_eq_None_iff image_image)

text \<open>The one row a filename names in a list without repeated filenames.\<close>

lemma concat_no_match:
  "k \<notin> key ` set rows \<Longrightarrow> concat (List.map (\<lambda>e. if key e = k \<and> P e then [h e] else []) rows) = []"
  by auto

lemma concat_match:
  assumes "distinct (List.map key rows)" "r \<in> set rows" "key r = k"
  shows "concat (List.map (\<lambda>e. if key e = k \<and> P e then [h e] else []) rows) = (if P r then [h r] else [])"
proof -
  obtain ys zs where rows: "rows = ys @ r # zs"
    using assms(2) by (meson split_list)
  have "k \<notin> key ` set ys" "k \<notin> key ` set zs"
    using assms(1,3) unfolding rows by auto
  from this [THEN concat_no_match, of P h] show ?thesis
    using assms(3) by (simp add: rows del: concat_eq_Nil_conv)
qed

section \<open>Facts\<close>

text \<open>How one checked figure changes the plan, over the filename index of the existing rows.\<close>

definition advance_figures ::
  "RecordFigure list \<Rightarrow> string \<Rightarrow> RecordFigure \<Rightarrow> FigurePlan \<Rightarrow> FigurePlan" where
  "advance_figures existing rid d plan =
    plan \<lparr> fpCreates := fpCreates plan @ fpCreates (figure_plan rid existing [d]),
           fpUpdates := fpUpdates plan @ fpUpdates (figure_plan rid existing [d]) \<rparr>"

lemma fold_advance_figures:
  "fold (advance_figures existing rid) desired plan
    = plan \<lparr> fpCreates := fpCreates plan @ fpCreates (figure_plan rid existing desired),
             fpUpdates := fpUpdates plan @ fpUpdates (figure_plan rid existing desired) \<rparr>"
  by (induction desired arbitrary: plan) (simp_all add: advance_figures_def figure_plan_def)

lemma plan_figure_ok:
  assumes "distinct (List.map fgFilename existing)"
    and "ValidateRecordAssetKey ''figures'' rid (fgFilename d) (fgS3Key d) = Inr ()"
    and "m (fgFilename d) = None"
  shows "plan_figure rid (map_of (List.map (\<lambda>f. (fgFilename f, f)) existing)) d (plan, m) =
    Inr (advance_figures existing rid d plan, m(fgFilename d \<mapsto> d))"
proof (cases "map_of (List.map (\<lambda>f. (fgFilename f, f)) existing) (fgFilename d)")
  case None
  then have "fgFilename d \<notin> fgFilename ` set existing" by (simp add: index_lookup_None)
  with None assms show ?thesis
    by (simp add: plan_figure_def advance_figures_def figure_plan_def concat_no_match
        del: concat_eq_Nil_conv)
next
  case (Some e)
  then have e: "e \<in> set existing" "fgFilename e = fgFilename d"
    using assms(1) by (simp_all add: index_lookup)
  then have "fgFilename d \<in> fgFilename ` set existing" by (metis imageI)
  with Some concat_match [OF assms(1) e, of "\<lambda>e. figure_differs e d" "\<lambda>e. update_figure_of e d"] assms
  show ?thesis
    by (simp add: plan_figure_def advance_figures_def figure_plan_def)
qed

text \<open>The checks a plan needs: a record id, no repeated filename on either side, canonical keys.\<close>

definition figure_plan_inputs :: "string \<Rightarrow> RecordFigure list \<Rightarrow> RecordFigure list \<Rightarrow> bool" where
  "figure_plan_inputs rid existing desired =
    (\<not> blank rid \<and> distinct (List.map fgFilename existing) \<and> distinct (List.map fgFilename desired) \<and>
     list_all (\<lambda>d. ValidateRecordAssetKey ''figures'' rid (fgFilename d) (fgS3Key d) = Inr ()) desired)"

lemma plan_figures_loop:
  assumes "distinct (List.map fgFilename existing)"
  shows "each_result (plan_figure rid (map_of (List.map (\<lambda>f. (fgFilename f, f)) existing))) desired
           (plan, Map.empty) = Inr (p, m) \<longleftrightarrow>
     list_all (\<lambda>d. ValidateRecordAssetKey ''figures'' rid (fgFilename d) (fgS3Key d) = Inr ()) desired \<and>
     distinct (List.map fgFilename desired) \<and> p = fold (advance_figures existing rid) desired plan \<and>
     m = map_of (List.map (\<lambda>f. (fgFilename f, f)) desired)"
  by (subst plan_loop [where key = fgFilename and g = "advance_figures existing rid"
        and ok = "\<lambda>d. ValidateRecordAssetKey ''figures'' rid (fgFilename d) (fgS3Key d) = Inr ()"])
     (auto simp: plan_figure_ok [OF assms] list_all_iff, auto simp: plan_figure_def split: sum.splits)

lemma PlanFigureReconciliation_iff:
  "PlanFigureReconciliation rid existing desired = Inr plan \<longleftrightarrow>
     figure_plan_inputs rid existing desired \<and> plan = figure_plan rid existing desired"
proof (cases "\<not> blank rid \<and> distinct (List.map fgFilename existing)")
  case True
  let ?loop = "each_result (plan_figure rid (map_of (List.map (\<lambda>f. (fgFilename f, f)) existing))) desired
      (\<lparr> fpCreates = [], fpUpdates = [], fpDeleteIDs = [] \<rparr>, Map.empty)"
  note loop = plan_figures_loop [OF True [THEN conjunct2], of rid desired
      "\<lparr> fpCreates = [], fpUpdates = [], fpDeleteIDs = [] \<rparr>"]
  have "figure_plan rid existing desired =
      fold (advance_figures existing rid) desired \<lparr> fpCreates = [], fpUpdates = [], fpDeleteIDs = [] \<rparr>
        \<lparr> fpDeleteIDs := [fgID e. e \<leftarrow> existing, fgFilename e \<notin> fgFilename ` set desired] \<rparr>"
    unfolding fold_advance_figures by (simp add: figure_plan_def)
  with True have planned: "PlanFigureReconciliation rid existing desired = Inr plan \<longleftrightarrow>
      figure_plan_inputs rid existing desired \<and> plan = figure_plan rid existing desired"
    if "?loop = Inr (a, b)" for a b
    using that loop [of a b]
    by (auto simp: PlanFigureReconciliation_def FigureMapByFilename_result index_lookup_None
        figure_plan_inputs_def)
  show ?thesis
  proof (cases ?loop)
    case (Inl e)
    with True loop show ?thesis
      by (auto simp: PlanFigureReconciliation_def FigureMapByFilename_result figure_plan_inputs_def)
  next
    case (Inr r)
    then show ?thesis using planned by (cases r) auto
  qed
qed (auto simp: PlanFigureReconciliation_def FigureMapByFilename_result figure_plan_inputs_def)

text \<open>How one checked data file changes the plan, over the filename index of the existing rows.\<close>

definition advance_data_files ::
  "RecordDataFile list \<Rightarrow> string \<Rightarrow> RecordDataFile \<Rightarrow> DataFilePlan \<Rightarrow> DataFilePlan" where
  "advance_data_files existing rid d plan =
    plan \<lparr> dpCreates := dpCreates plan @ dpCreates (data_file_plan rid existing [d]),
           dpUpdates := dpUpdates plan @ dpUpdates (data_file_plan rid existing [d]) \<rparr>"

lemma fold_advance_data_files:
  "fold (advance_data_files existing rid) desired plan
    = plan \<lparr> dpCreates := dpCreates plan @ dpCreates (data_file_plan rid existing desired),
             dpUpdates := dpUpdates plan @ dpUpdates (data_file_plan rid existing desired) \<rparr>"
  by (induction desired arbitrary: plan) (simp_all add: advance_data_files_def data_file_plan_def)

lemma plan_data_file_ok:
  assumes "distinct (List.map dfFilename existing)"
    and "ValidateRecordAssetKey ''data'' rid (dfFilename d) (dfS3Key d) = Inr () \<and> \<not> blank (dfHash d)"
    and "m (dfFilename d) = None"
  shows "plan_data_file rid (map_of (List.map (\<lambda>f. (dfFilename f, f)) existing)) d (plan, m) =
    Inr (advance_data_files existing rid d plan, m(dfFilename d \<mapsto> d))"
proof (cases "map_of (List.map (\<lambda>f. (dfFilename f, f)) existing) (dfFilename d)")
  case None
  then have "dfFilename d \<notin> dfFilename ` set existing" by (simp add: index_lookup_None)
  with None assms show ?thesis
    by (simp add: plan_data_file_def advance_data_files_def data_file_plan_def concat_no_match
        del: concat_eq_Nil_conv)
next
  case (Some e)
  then have e: "e \<in> set existing" "dfFilename e = dfFilename d"
    using assms(1) by (simp_all add: index_lookup)
  then have "dfFilename d \<in> dfFilename ` set existing" by (metis imageI)
  with Some concat_match [OF assms(1) e, of "\<lambda>e. data_file_differs e d" "\<lambda>e. update_data_file_of e d"] assms
  show ?thesis
    by (simp add: plan_data_file_def advance_data_files_def data_file_plan_def)
qed

text \<open>The checks a plan needs: a record id, no repeated filename on either side, canonical keys, a hash.\<close>

definition data_file_plan_inputs :: "string \<Rightarrow> RecordDataFile list \<Rightarrow> RecordDataFile list \<Rightarrow> bool" where
  "data_file_plan_inputs rid existing desired =
    (\<not> blank rid \<and> distinct (List.map dfFilename existing) \<and> distinct (List.map dfFilename desired) \<and>
     list_all (\<lambda>d. ValidateRecordAssetKey ''data'' rid (dfFilename d) (dfS3Key d) = Inr () \<and> \<not> blank (dfHash d)) desired)"

lemma plan_data_files_loop:
  assumes "distinct (List.map dfFilename existing)"
  shows "each_result (plan_data_file rid (map_of (List.map (\<lambda>f. (dfFilename f, f)) existing))) desired
           (plan, Map.empty) = Inr (p, m) \<longleftrightarrow>
     list_all (\<lambda>d. ValidateRecordAssetKey ''data'' rid (dfFilename d) (dfS3Key d) = Inr () \<and> \<not> blank (dfHash d)) desired \<and>
     distinct (List.map dfFilename desired) \<and> p = fold (advance_data_files existing rid) desired plan \<and>
     m = map_of (List.map (\<lambda>f. (dfFilename f, f)) desired)"
  by (subst plan_loop [where key = dfFilename and g = "advance_data_files existing rid"
        and ok = "\<lambda>d. ValidateRecordAssetKey ''data'' rid (dfFilename d) (dfS3Key d) = Inr () \<and> \<not> blank (dfHash d)"])
     (auto simp: plan_data_file_ok [OF assms] list_all_iff, auto simp: plan_data_file_def split: sum.splits)

lemma PlanDataFileReconciliation_iff:
  "PlanDataFileReconciliation rid existing desired = Inr plan \<longleftrightarrow>
     data_file_plan_inputs rid existing desired \<and> plan = data_file_plan rid existing desired"
proof (cases "\<not> blank rid \<and> distinct (List.map dfFilename existing)")
  case True
  let ?loop = "each_result (plan_data_file rid (map_of (List.map (\<lambda>f. (dfFilename f, f)) existing))) desired
      (\<lparr> dpCreates = [], dpUpdates = [], dpDeleteIDs = [] \<rparr>, Map.empty)"
  note loop = plan_data_files_loop [OF True [THEN conjunct2], of rid desired
      "\<lparr> dpCreates = [], dpUpdates = [], dpDeleteIDs = [] \<rparr>"]
  have "data_file_plan rid existing desired =
      fold (advance_data_files existing rid) desired \<lparr> dpCreates = [], dpUpdates = [], dpDeleteIDs = [] \<rparr>
        \<lparr> dpDeleteIDs := [dfID e. e \<leftarrow> existing, dfFilename e \<notin> dfFilename ` set desired] \<rparr>"
    unfolding fold_advance_data_files by (simp add: data_file_plan_def)
  with True have planned: "PlanDataFileReconciliation rid existing desired = Inr plan \<longleftrightarrow>
      data_file_plan_inputs rid existing desired \<and> plan = data_file_plan rid existing desired"
    if "?loop = Inr (a, b)" for a b
    using that loop [of a b]
    by (auto simp: PlanDataFileReconciliation_def DataFileMapByFilename_result index_lookup_None
        data_file_plan_inputs_def)
  show ?thesis
  proof (cases ?loop)
    case (Inl e)
    with True loop show ?thesis
      by (auto simp: PlanDataFileReconciliation_def DataFileMapByFilename_result data_file_plan_inputs_def)
  next
    case (Inr r)
    then show ?thesis using planned by (cases r) auto
  qed
qed (auto simp: PlanDataFileReconciliation_def DataFileMapByFilename_result data_file_plan_inputs_def)

section \<open>Repair\<close>

lemma fold_index:
  "distinct (List.map key rows) \<Longrightarrow>
     fold (\<lambda>f m. m(key f \<mapsto> f)) rows m = m ++ map_of (List.map (\<lambda>f. (key f, f)) rows)"
proof (induction rows arbitrary: m)
  case (Cons r rows)
  then show ?case
    by (simp add: map_add_upd_left dom_map_of_conv_image_fst image_image del: fun_upd_apply)
qed simp

lemma figure_plan_no_creates:
  "fpCreates (figure_plan rid ex des) = [] \<longleftrightarrow> (\<forall>d\<in>set des. fgFilename d \<in> fgFilename ` set ex)"
  by (auto simp: figure_plan_def)

lemma data_file_plan_no_creates:
  "dpCreates (data_file_plan rid ex des) = [] \<longleftrightarrow> (\<forall>d\<in>set des. dfFilename d \<in> dfFilename ` set ex)"
  by (auto simp: data_file_plan_def)

lemma figure_superset_match:
  assumes "sourceHasExactFigureSuperset source target" "distinct (List.map fgFilename source)"
    and "e \<in> set target"
  obtains d where "d \<in> set source" "fgFilename d = fgFilename e" "\<not> figure_differs e d"
  using assms unfolding sourceHasExactFigureSuperset_def
  by (auto simp: fold_index index_lookup list_all_iff split: option.splits)

lemma data_file_superset_match:
  assumes "sourceHasExactDataFileSuperset source target" "distinct (List.map dfFilename source)"
    and "e \<in> set target"
  obtains d where "d \<in> set source" "dfFilename d = dfFilename e" "\<not> data_file_differs e d"
  using assms unfolding sourceHasExactDataFileSuperset_def
  by (auto simp: fold_index index_lookup list_all_iff split: option.splits)

lemma distinct_key_eq:
  "distinct (List.map key xs) \<Longrightarrow> x \<in> set xs \<Longrightarrow> y \<in> set xs \<Longrightarrow> key x = key y \<Longrightarrow> x = y"
  by (auto simp: distinct_map inj_on_def)

lemma longer_distinct_has_new:
  assumes "distinct (List.map key xs)" "length ys < length xs"
  shows "\<exists>x\<in>set xs. key x \<notin> key' ` set ys"
proof (rule ccontr)
  assume "\<not> ?thesis"
  then have "key ` set xs \<subseteq> key' ` set ys" by auto
  then have "card (key ` set xs) \<le> length ys"
    by (meson List.finite_set card_image_le card_length card_mono finite_imageI le_trans)
  moreover have "card (key ` set xs) = length xs"
    using assms(1) by (metis distinct_card length_map set_map)
  ultimately show False using assms(2) by simp
qed

lemma figure_repair_plan:
  assumes "sourceHasExactFigureSuperset source target" "distinct (List.map fgFilename source)"
  shows "fpUpdates (figure_plan rid target source) = [] \<and> fpDeleteIDs (figure_plan rid target source) = []"
proof -
  have "\<not> figure_differs e d" if "e \<in> set target" "d \<in> set source" "fgFilename e = fgFilename d" for e d
    using figure_superset_match [OF assms that(1)] distinct_key_eq [OF assms(2) that(2)] that(3) by metis
  moreover have "fgFilename e \<in> fgFilename ` set source" if "e \<in> set target" for e
    using figure_superset_match [OF assms that] by (metis imageI)
  ultimately show ?thesis by (auto simp: figure_plan_def)
qed

lemma data_file_repair_plan:
  assumes "sourceHasExactDataFileSuperset source target" "distinct (List.map dfFilename source)"
  shows "dpUpdates (data_file_plan rid target source) = [] \<and> dpDeleteIDs (data_file_plan rid target source) = []"
proof -
  have "\<not> data_file_differs e d" if "e \<in> set target" "d \<in> set source" "dfFilename e = dfFilename d" for e d
    using data_file_superset_match [OF assms that(1)] distinct_key_eq [OF assms(2) that(2)] that(3) by metis
  moreover have "dfFilename e \<in> dfFilename ` set source" if "e \<in> set target" for e
    using data_file_superset_match [OF assms that] by (metis imageI)
  ultimately show ?thesis by (auto simp: data_file_plan_def)
qed

section \<open>Properties\<close>

text \<open>\<open>ResolveBundle\<close> answers exactly when both trimmed ids are the same non-empty id; then the
  winner is the bundle of the more active record, and equal activities leave both sides alone.\<close>

theorem resolve_bundle_result:
  "(ResolveBundle l c = Inr (b, w)) =
     (trim_space (rID (bRecord l)) \<noteq> [] \<and> trim_space (rID (bRecord l)) = trim_space (rID (bRecord c)) \<and>
      (b, w) =
        (if activity (bRecord c) < activity (bRecord l) then (Some l, WinnerLocal)
         else if activity (bRecord l) < activity (bRecord c) then (Some c, WinnerCloud)
         else (None, WinnerNone)))"
  by (auto simp: ResolveBundle_def ResolveRecordWinner_activity Let_def)

text \<open>C5. The figure plan is produced exactly for a non-blank record id, lists without repeated
  filenames and canonical keys, and is then the declarative plan: create what the target lacks,
  update what differs under the same filename, delete what is no longer wanted.\<close>

theorem plan_figures_exact:
  "(PlanFigureReconciliation rid existing desired = Inr plan) =
     (figure_plan_inputs rid existing desired \<and> plan = figure_plan rid existing desired)"
  by (rule PlanFigureReconciliation_iff)

text \<open>The same for data files, whose desired rows also need a hash.\<close>

theorem plan_data_files_exact:
  "(PlanDataFileReconciliation rid existing desired = Inr plan) =
     (data_file_plan_inputs rid existing desired \<and> plan = data_file_plan rid existing desired)"
  by (rule PlanDataFileReconciliation_iff)

text \<open>C6. The equal-winner repair only adds: when the source may repair the target's children, both
  plans have no update and no deletion, and at least one of them creates a row.\<close>

theorem repair_only_adds:
  assumes repair: "sourceBundleCanRepairTargetChildren source target"
    and figures: "PlanFigureReconciliation rid (bFigures target) (bFigures source) = Inr fplan"
    and files: "PlanDataFileReconciliation rid (bDataFiles target) (bDataFiles source) = Inr dplan"
  shows "fpUpdates fplan = [] \<and> fpDeleteIDs fplan = [] \<and> dpUpdates dplan = [] \<and> dpDeleteIDs dplan = []
    \<and> \<not> (fpCreates fplan = [] \<and> dpCreates dplan = [])"
proof -
  have f: "distinct (List.map fgFilename (bFigures source))" "fplan = figure_plan rid (bFigures target) (bFigures source)"
    using figures by (simp_all add: PlanFigureReconciliation_iff figure_plan_inputs_def)
  have d: "distinct (List.map dfFilename (bDataFiles source))" "dplan = data_file_plan rid (bDataFiles target) (bDataFiles source)"
    using files by (simp_all add: PlanDataFileReconciliation_iff data_file_plan_inputs_def)
  have "length (bFigures target) < length (bFigures source) \<or> length (bDataFiles target) < length (bDataFiles source)"
    using repair by (simp add: sourceBundleCanRepairTargetChildren_def)
  then have "fpCreates fplan \<noteq> [] \<or> dpCreates dplan \<noteq> []"
    using longer_distinct_has_new [OF f(1), of "bFigures target" fgFilename]
      longer_distinct_has_new [OF d(1), of "bDataFiles target" dfFilename]
    unfolding f(2) d(2) figure_plan_no_creates data_file_plan_no_creates by blast
  then show ?thesis
    using repair figure_repair_plan [OF _ f(1)] data_file_repair_plan [OF _ d(1)]
    by (simp add: sourceBundleCanRepairTargetChildren_def f(2) d(2))
qed

definition sample_record :: "string \<Rightarrow> time \<Rightarrow> time option \<Rightarrow> Record" where
  "sample_record i updated deleted =
    \<lparr> rID = i, rUserID = [], rDate = ''2026-01-02'', rDayOrder = ''a0'', rHTMLContent = None, rNotes = None,
      rProjectID = ''p'', rSourceDeviceID = ''d'', rSourceRef = None, rGitRemoteURL = None, rGitHash = None,
      rCreatedAt = 1, rUpdatedAt = updated, rDeletedAt = deleted \<rparr>"

definition sample_figure :: "int \<Rightarrow> RecordFigure" where
  "sample_figure i =
    \<lparr> fgID = i, fgRecordID = ''r'', fgFilename = ''f'', fgS3Key = ''figures/r/f'', fgAltText = None, fgCreatedAt = 1 \<rparr>"

lemma sample_segments [simp]: "trim_space ''r'' = ''r''" "trim_space ''f'' = ''f''"
  "path_segment ''r''" "path_segment ''f''"
proof -
  show r: "trim_space ''r'' = ''r''" and f: "trim_space ''f'' = ''f''"
    by (rule trim_fixed_ends; simp add: starts_with_seq_def space_seqs_def)+
  then show "path_segment ''r''" "path_segment ''f''"
    by (simp_all add: path_segment_def blank_def)
qed

theorem repair_only_adds_witness:
  "fpUpdates (figure_plan ''r'' [] [sample_figure 1]) = [] \<and>
   fpDeleteIDs (figure_plan ''r'' [] [sample_figure 1]) = [] \<and>
   fpCreates (figure_plan ''r'' [] [sample_figure 1]) \<noteq> []"
proof -
  let ?r = "sample_record ''r'' 5 None"
  let ?s = "\<lparr> bRecord = ?r, bFigures = [sample_figure 1], bDataFiles = [] \<rparr>"
  let ?t = "\<lparr> bRecord = ?r, bFigures = [], bDataFiles = [] \<rparr>"
  have "sourceBundleCanRepairTargetChildren ?s ?t"
    by (simp add: sourceBundleCanRepairTargetChildren_def recordPayloadsEqual_def
        sourceHasExactFigureSuperset_def sourceHasExactDataFileSuperset_def)
  moreover have "PlanFigureReconciliation ''r'' (bFigures ?t) (bFigures ?s)
      = Inr (figure_plan ''r'' [] [sample_figure 1])"
    by (simp add: PlanFigureReconciliation_iff figure_plan_inputs_def ValidateRecordAssetKey_iff
        blank_def sample_figure_def)
  moreover have "PlanDataFileReconciliation ''r'' (bDataFiles ?t) (bDataFiles ?s) = Inr (data_file_plan ''r'' [] [])"
    by (simp add: PlanDataFileReconciliation_iff data_file_plan_inputs_def blank_def)
  ultimately have "fpUpdates (figure_plan ''r'' [] [sample_figure 1]) = [] \<and>
      fpDeleteIDs (figure_plan ''r'' [] [sample_figure 1]) = [] \<and>
      dpUpdates (data_file_plan ''r'' [] []) = [] \<and> dpDeleteIDs (data_file_plan ''r'' [] []) = [] \<and>
      \<not> (fpCreates (figure_plan ''r'' [] [sample_figure 1]) = [] \<and> dpCreates (data_file_plan ''r'' [] []) = [])"
    by (rule repair_only_adds)
  then show ?thesis by (simp add: data_file_plan_def)
qed

end
