(* ===== verification/Interfaces.thy ===== *)
theory Interfaces
  imports Conflict
begin

text \<open>The interfaces the sync service is built on, as records of actions over a world \<open>'w\<close>: the part
  of \<open>repository.Repository\<close> it calls, \<open>LocalFiles\<close>, \<open>ObjectStore\<close>, \<open>SessionManager\<close> and the
  operating-system file calls. A service is a function of such records, so a theorem about it holds
  for every behaviour of the parts, failures included; \<open>zoom\<close> lets one part act on one component of
  a composed world.\<close>

record 'w Repository =
  CreateRecord :: "CreateRecordInput \<Rightarrow> ('w, Record) act"
  GetRecordByID :: "string \<Rightarrow> ('w, Record) act"
  UpdateRecord :: "UpdateRecordInput \<Rightarrow> ('w, Record) act"
  ListRecords :: "ListRecordsFilter \<Rightarrow> ('w, Record list) act"
  CreateRecordFigure :: "CreateRecordFigureInput \<Rightarrow> ('w, RecordFigure) act"
  UpdateRecordFigure :: "UpdateRecordFigureInput \<Rightarrow> ('w, RecordFigure) act"
  ListRecordFiguresByRecordID :: "string \<Rightarrow> ('w, RecordFigure list) act"
  DeleteRecordFigure :: "int \<Rightarrow> ('w, unit) act"
  CreateRecordDataFile :: "CreateRecordDataFileInput \<Rightarrow> ('w, RecordDataFile) act"
  UpdateRecordDataFile :: "UpdateRecordDataFileInput \<Rightarrow> ('w, RecordDataFile) act"
  ListRecordDataFilesByRecordID :: "string \<Rightarrow> ('w, RecordDataFile list) act"
  DeleteRecordDataFile :: "int \<Rightarrow> ('w, unit) act"
  GetSyncVersion :: "('w, SyncVersion) act"
  ListProjects :: "bool \<Rightarrow> ('w, Project list) act"
  UpsertProjectForImport :: "Project \<Rightarrow> ('w, bool) act"
  ListProjectPaths :: "string option \<Rightarrow> ('w, ProjectPath list) act"
  UpsertProjectPath :: "CreateProjectPathInput \<Rightarrow> ('w, ProjectPath \<times> bool) act"
  ListDevices :: "bool \<Rightarrow> ('w, Device list) act"
  UpsertDeviceForImport :: "Device \<Rightarrow> ('w, bool) act"
  UpsertChatSessionWithItems ::
    "UpsertChatSessionInput \<Rightarrow> CreateChatItemInput list \<Rightarrow> ('w, ChatSession \<times> bool) act"
  GetChatSessionByID :: "string \<Rightarrow> ('w, ChatSession) act"
  GetChatSessionBySource :: "string \<Rightarrow> string \<Rightarrow> ('w, ChatSession) act"
  ListChatSessions :: "ListChatSessionsFilter \<Rightarrow> ('w, ChatSession list) act"
  ListChatItems :: "string \<Rightarrow> ('w, ChatItem list) act"

text \<open>\<open>LocalFiles\<close> computes paths; it may refuse a name.\<close>

record LocalFiles =
  ResolveFigurePath :: "string \<Rightarrow> string \<Rightarrow> error + string"
  ResolveDataFilePath :: "string \<Rightarrow> string \<Rightarrow> error + string"
  ResolveChatSourcePath :: "string \<Rightarrow> string \<Rightarrow> error + string"

text \<open>The calls of Go's \<open>os\<close> package on files. An opened or downloaded body is what can be read from
  it: bytes, then possibly a read error.\<close>

type_synonym body = "string \<times> error option"

record 'w OS =
  osStat :: "string \<Rightarrow> ('w, unit) act"
  osOpen :: "string \<Rightarrow> ('w, body) act"
  osMkdirAll :: "string \<Rightarrow> nat \<Rightarrow> ('w, unit) act"
  osCreateTemp :: "string \<Rightarrow> string \<Rightarrow> ('w, string) act"
  osChmod :: "string \<Rightarrow> nat \<Rightarrow> ('w, unit) act"
  osWrite :: "string \<Rightarrow> string \<Rightarrow> ('w, unit) act"
  osSync :: "string \<Rightarrow> ('w, unit) act"
  osClose :: "string \<Rightarrow> ('w, unit) act"
  osRename :: "string \<Rightarrow> string \<Rightarrow> ('w, unit) act"
  osRemove :: "string \<Rightarrow> ('w, unit) act"

text \<open>\<open>ObjectStore\<close>, with the predicate \<open>s3client.IsNotFound\<close> on its errors.\<close>

record 'w ObjectStore =
  Upload :: "string \<Rightarrow> body \<Rightarrow> ('w, unit) act"
  Download :: "string \<Rightarrow> ('w, body) act"
  DeleteObject :: "string \<Rightarrow> ('w, unit) act"
  UpdateVersion :: "int \<Rightarrow> string \<Rightarrow> ('w, unit) act"
  IsNotFound :: "error \<Rightarrow> bool"

record SyncWindow =
  LastSync :: time
  StartedAt :: time

record ('w, 'l) SessionManager =
  Begin :: "('w, SyncWindow \<times> 'l) act"
  Complete :: "SyncWindow \<Rightarrow> ('w, unit) act"
  ReleaseLock :: "'l \<Rightarrow> ('w, unit) act"

section \<open>Composed worlds\<close>

definition zoom :: "('w \<Rightarrow> 's) \<Rightarrow> ('s \<Rightarrow> 'w \<Rightarrow> 'w) \<Rightarrow> ('s, 'a) act \<Rightarrow> ('w, 'a) act" where
  "zoom get put m w = (case m (get w) of (r, s) \<Rightarrow> (r, put s w))"

definition zoom_repository :: "('w \<Rightarrow> 's) \<Rightarrow> ('s \<Rightarrow> 'w \<Rightarrow> 'w) \<Rightarrow> 's Repository \<Rightarrow> 'w Repository" where
  "zoom_repository get put R =
    \<lparr> CreateRecord = (\<lambda>x. zoom get put (CreateRecord R x)),
      GetRecordByID = (\<lambda>x. zoom get put (GetRecordByID R x)),
      UpdateRecord = (\<lambda>x. zoom get put (UpdateRecord R x)),
      ListRecords = (\<lambda>x. zoom get put (ListRecords R x)),
      CreateRecordFigure = (\<lambda>x. zoom get put (CreateRecordFigure R x)),
      UpdateRecordFigure = (\<lambda>x. zoom get put (UpdateRecordFigure R x)),
      ListRecordFiguresByRecordID = (\<lambda>x. zoom get put (ListRecordFiguresByRecordID R x)),
      DeleteRecordFigure = (\<lambda>x. zoom get put (DeleteRecordFigure R x)),
      CreateRecordDataFile = (\<lambda>x. zoom get put (CreateRecordDataFile R x)),
      UpdateRecordDataFile = (\<lambda>x. zoom get put (UpdateRecordDataFile R x)),
      ListRecordDataFilesByRecordID = (\<lambda>x. zoom get put (ListRecordDataFilesByRecordID R x)),
      DeleteRecordDataFile = (\<lambda>x. zoom get put (DeleteRecordDataFile R x)),
      GetSyncVersion = zoom get put (GetSyncVersion R),
      ListProjects = (\<lambda>x. zoom get put (ListProjects R x)),
      UpsertProjectForImport = (\<lambda>x. zoom get put (UpsertProjectForImport R x)),
      ListProjectPaths = (\<lambda>x. zoom get put (ListProjectPaths R x)),
      UpsertProjectPath = (\<lambda>x. zoom get put (UpsertProjectPath R x)),
      ListDevices = (\<lambda>x. zoom get put (ListDevices R x)),
      UpsertDeviceForImport = (\<lambda>x. zoom get put (UpsertDeviceForImport R x)),
      UpsertChatSessionWithItems = (\<lambda>x y. zoom get put (UpsertChatSessionWithItems R x y)),
      GetChatSessionByID = (\<lambda>x. zoom get put (GetChatSessionByID R x)),
      GetChatSessionBySource = (\<lambda>x y. zoom get put (GetChatSessionBySource R x y)),
      ListChatSessions = (\<lambda>x. zoom get put (ListChatSessions R x)),
      ListChatItems = (\<lambda>x. zoom get put (ListChatItems R x)) \<rparr>"

definition zoom_OS :: "('w \<Rightarrow> 's) \<Rightarrow> ('s \<Rightarrow> 'w \<Rightarrow> 'w) \<Rightarrow> 's OS \<Rightarrow> 'w OS" where
  "zoom_OS get put F =
    \<lparr> osStat = (\<lambda>x. zoom get put (osStat F x)), osOpen = (\<lambda>x. zoom get put (osOpen F x)),
      osMkdirAll = (\<lambda>x y. zoom get put (osMkdirAll F x y)),
      osCreateTemp = (\<lambda>x y. zoom get put (osCreateTemp F x y)),
      osChmod = (\<lambda>x y. zoom get put (osChmod F x y)), osWrite = (\<lambda>x y. zoom get put (osWrite F x y)),
      osSync = (\<lambda>x. zoom get put (osSync F x)), osClose = (\<lambda>x. zoom get put (osClose F x)),
      osRename = (\<lambda>x y. zoom get put (osRename F x y)), osRemove = (\<lambda>x. zoom get put (osRemove F x)) \<rparr>"

definition zoom_objects :: "('w \<Rightarrow> 's) \<Rightarrow> ('s \<Rightarrow> 'w \<Rightarrow> 'w) \<Rightarrow> 's ObjectStore \<Rightarrow> 'w ObjectStore" where
  "zoom_objects get put S =
    \<lparr> Upload = (\<lambda>x y. zoom get put (Upload S x y)), Download = (\<lambda>x. zoom get put (Download S x)),
      DeleteObject = (\<lambda>x. zoom get put (DeleteObject S x)),
      UpdateVersion = (\<lambda>x y. zoom get put (UpdateVersion S x y)), IsNotFound = IsNotFound S \<rparr>"

definition zoom_session ::
  "('w \<Rightarrow> 's) \<Rightarrow> ('s \<Rightarrow> 'w \<Rightarrow> 'w) \<Rightarrow> ('s, 'l) SessionManager \<Rightarrow> ('w, 'l) SessionManager" where
  "zoom_session get put M =
    \<lparr> Begin = zoom get put (Begin M), Complete = (\<lambda>x. zoom get put (Complete M x)),
      ReleaseLock = (\<lambda>x. zoom get put (ReleaseLock M x)) \<rparr>"

text \<open>An action on one component keeps every property of the others.\<close>

lemma keeps_zoom: "(\<And>s w. I (put s w) = I w) \<Longrightarrow> keeps I (zoom get put m)"
  by (auto simp: keeps_def zoom_def split: prod.splits)

lemma keeps_zoom_inside:
  assumes "\<And>s w. get (put s w) = s" "keeps J m"
  shows "keeps (\<lambda>w. J (get w)) (zoom get put m)"
  using assms unfolding keeps_def zoom_def by (auto split: prod.splits)

end
