(* ===== verification/Session.thy ===== *)
theory Session
  imports Interfaces
begin

text \<open>\<open>syncengine/session.go\<close>: the sync cursor file, the lock file and the manager. The state is the
  part of the \<open>.pc\<close> directory this code owns: the cursor file, its temp file, the lock file and the
  guard lock. File contents are kept symbolically: a lock file holds the metadata its JSON text
  encodes or text the parser rejects, a cursor file holds the instant its RFC 3339 text denotes,
  blank text or text the parser rejects. Every system call consults \<open>sdFault\<close>, so every theorem
  holds for every pattern of I/O failures.\<close>

record lockFileMetadata =
  lmPID :: int
  lmHostname :: string
  lmStartedAt :: time

datatype lock_text = LockJSON lockFileMetadata | LockGarbage string

datatype cursor_text = CursorInstant time | CursorBlank | CursorUnparsable string

text \<open>What \<open>kill(pid, 0)\<close> reports.\<close>

datatype kill_result = KillOK | KillESRCH | KillEPERM | KillOther string

record SessionDir =
  sdCursor :: "cursor_text option"
  sdTemp :: "cursor_text option"
  sdLock :: "lock_text option"
  sdGuardBusy :: bool \<comment> \<open>another process holds the guard's flock\<close>
  sdGuardMine :: bool \<comment> \<open>this process holds it\<close>
  sdTick :: nat
  sdFault :: "nat \<Rightarrow> string option"
  sdHostname :: "error + string"
  sdPid :: int
  sdClock :: "nat \<Rightarrow> time"
  sdKill :: "int \<Rightarrow> kill_result"

text \<open>One system call: the tick advances, then an injected failure or the effect.\<close>

definition sys :: "(SessionDir, 'a) act \<Rightarrow> (SessionDir, 'a) act" where
  "sys m d =
    (let d' = d \<lparr> sdTick := Suc (sdTick d) \<rparr> in
     case sdFault d (sdTick d) of
       Some msg \<Rightarrow> (Inl (IOError msg), d')
     | None \<Rightarrow> m d')"

text \<open>A call that can only fail by an injected failure, and changes nothing this model holds
  (\<open>MkdirAll\<close>, \<open>Chmod\<close>, \<open>Sync\<close>, \<open>Close\<close>).\<close>

definition sys_plain :: "(SessionDir, unit) act" where
  "sys_plain = sys (ret ())"

definition sys_now :: "(SessionDir, time) act" where
  "sys_now d = (Inr (sdClock d (sdTick d)), d \<lparr> sdTick := Suc (sdTick d) \<rparr>)"

text \<open>Deferred and ignored cleanup (\<open>_ = f()\<close>).\<close>

definition ignoring :: "(SessionDir, unit) act \<Rightarrow> (SessionDir, unit) act" where
  "ignoring m d = (Inr (), snd (m d))"

definition cleanup_on_error :: "(SessionDir, unit) act \<Rightarrow> (SessionDir, 'a) act \<Rightarrow> (SessionDir, 'a) act" where
  "cleanup_on_error c m d =
    (case m d of (Inl e, d') \<Rightarrow> (Inl e, snd (c d')) | (Inr a, d') \<Rightarrow> (Inr a, d'))"

section \<open>The cursor store\<close>

definition read_cursor_file :: "(SessionDir, cursor_text) act" where
  "read_cursor_file = sys (\<lambda>d. (case sdCursor d of None \<Rightarrow> (Inl ErrNotExist, d) | Some t \<Rightarrow> (Inr t, d)))"

text \<open>\<open>CursorStore.Read\<close>: \<open>None\<close> when the file has not been created yet.\<close>

definition cursor_read :: "(SessionDir, time option) act" where
  "cursor_read =
    bnd (attempt read_cursor_file) (\<lambda>r.
      case r of
        Inl e \<Rightarrow> if e = ErrNotExist then ret None else fail (Wrapped ''read last sync'' e)
      | Inr CursorBlank \<Rightarrow> fail (Plain ''timestamp is empty'')
      | Inr (CursorUnparsable m) \<Rightarrow> fail (Wrapped ''parse last sync'' (Plain m))
      | Inr (CursorInstant t) \<Rightarrow> ret (Some (truncateToMillisecond t)))"

definition temp_remove :: "(SessionDir, unit) act" where
  "temp_remove = sys (\<lambda>d. (Inr (), d \<lparr> sdTemp := None \<rparr>))"

text \<open>\<open>CursorStore.Write\<close>: temp file, permissions, contents, sync, close, rename over the cursor. A
  failed write of the contents may leave a part of them.\<close>

definition cursor_write :: "time \<Rightarrow> (SessionDir, unit) act" where
  "cursor_write ts =
    (if is_zero ts then fail (Plain ''last sync timestamp is required'')
     else
      sq (wrap ''create last sync dir'' sys_plain)
      (sq (wrap ''create temp last sync file'' (sys (\<lambda>d. (Inr (), d \<lparr> sdTemp := Some CursorBlank \<rparr>))))
          (cleanup_on_error temp_remove
            (sq (wrap ''set temp last sync permissions'' (cleanup_on_error (ignoring sys_plain) sys_plain))
            (sq (wrap ''write temp last sync'' (cleanup_on_error (ignoring sys_plain)
                  (sys (\<lambda>d. (Inr (), d \<lparr> sdTemp := Some (CursorInstant (truncateToMillisecond ts)) \<rparr>)))))
            (sq (wrap ''sync temp last sync'' (cleanup_on_error (ignoring sys_plain) sys_plain))
            (sq (wrap ''close temp last sync'' sys_plain)
                (wrap ''replace last sync'' (sys (\<lambda>d. (Inr (), d \<lparr> sdCursor := sdTemp d, sdTemp := None \<rparr>)))))))))))"

section \<open>The lock file\<close>

definition ErrSyncLocked :: error where
  "ErrSyncLocked = Plain ''syncengine: sync already in progress''"

record FileLock =
  flReleased :: bool

definition parseLockFileMetadata :: "lock_text \<Rightarrow> lockFileMetadata option" where
  "parseLockFileMetadata data =
    (case data of
       LockGarbage _ \<Rightarrow> None
     | LockJSON m \<Rightarrow>
         if lmPID m \<le> 0 \<or> blank (lmHostname m) \<or> is_zero (lmStartedAt m) then None else Some m)"

definition processExists :: "int \<Rightarrow> (SessionDir, bool) act" where
  "processExists pid d =
    (if pid \<le> 0 then (Inr False, d)
     else case sdKill d pid of
       KillOK \<Rightarrow> (Inr True, d)
     | KillESRCH \<Rightarrow> (Inr False, d)
     | KillEPERM \<Rightarrow> (Inr True, d)
     | KillOther m \<Rightarrow> (Inl (Plain m), d))"

definition newLockFileMetadata :: "(SessionDir, lockFileMetadata) act" where
  "newLockFileMetadata =
    bnd (\<lambda>d. (sdHostname d, d)) (\<lambda>hostname.
      if blank hostname then fail (Plain ''hostname is empty'')
      else bnd sys_now (\<lambda>now.
        (\<lambda>d. (Inr \<lparr> lmPID = sdPid d, lmHostname = hostname, lmStartedAt = now \<rparr>, d))))"

definition remove_lock_file :: "(SessionDir, unit) act" where
  "remove_lock_file =
    sys (\<lambda>d. (case sdLock d of None \<Rightarrow> (Inl ErrNotExist, d) | Some _ \<Rightarrow> (Inr (), d \<lparr> sdLock := None \<rparr>)))"

text \<open>\<open>createFileLock\<close>: \<open>O_CREATE|O_EXCL\<close>, then the metadata; a failure after the creation closes and
  removes the file. Marshalling this struct does not fail.\<close>

definition createFileLock :: "(SessionDir, FileLock) act" where
  "createFileLock =
    sq (sys (\<lambda>d. (case sdLock d of Some _ \<Rightarrow> (Inl ErrExist, d)
                                 | None \<Rightarrow> (Inr (), d \<lparr> sdLock := Some (LockGarbage []) \<rparr>))))
       (cleanup_on_error (sq (ignoring sys_plain) (ignoring remove_lock_file))
         (bnd (wrap ''build sync lock metadata'' newLockFileMetadata) (\<lambda>metadata.
          sq (wrap ''write sync lock'' (sys (\<lambda>d. (Inr (), d \<lparr> sdLock := Some (LockJSON metadata) \<rparr>))))
          (sq (wrap ''sync lock'' sys_plain)
              (ret \<lparr> flReleased = False \<rparr>)))))"

definition read_lock_file :: "(SessionDir, lock_text) act" where
  "read_lock_file = sys (\<lambda>d. (case sdLock d of None \<Rightarrow> (Inl ErrNotExist, d) | Some t \<Rightarrow> (Inr t, d)))"

definition recoverStaleLock :: "(SessionDir, bool) act" where
  "recoverStaleLock =
    bnd (attempt read_lock_file) (\<lambda>r. case r of
      Inl e \<Rightarrow> if e = ErrNotExist then ret True else fail (Wrapped ''read existing sync lock'' e)
    | Inr data \<Rightarrow>
        (case parseLockFileMetadata data of
           None \<Rightarrow> ret False
         | Some metadata \<Rightarrow>
             bnd (wrap ''read hostname for sync lock recovery'' (\<lambda>d. (sdHostname d, d))) (\<lambda>hostname.
             if lmHostname metadata \<noteq> hostname then ret False
             else bnd (wrap ''inspect sync lock process'' (processExists (lmPID metadata))) (\<lambda>alive.
             if alive then ret False
             else bnd (attempt read_lock_file) (\<lambda>r2. case r2 of
               Inl e \<Rightarrow> if e = ErrNotExist then ret True else fail (Wrapped ''re-read sync lock'' e)
             | Inr currentData \<Rightarrow>
                 if data \<noteq> currentData then ret True
                 else bnd (attempt remove_lock_file) (\<lambda>r3. case r3 of
                   Inl e \<Rightarrow> if e = ErrNotExist then ret True
                            else fail (Wrapped ''remove stale sync lock'' e)
                 | Inr _ \<Rightarrow> ret True))))))"

definition EWOULDBLOCK :: error where
  "EWOULDBLOCK = Plain ''resource temporarily unavailable''"

text \<open>The guard: an flock on a file beside the lock file, tried without blocking.\<close>

definition acquireLockOperationGuard :: "(SessionDir, unit) act" where
  "acquireLockOperationGuard =
    sq (wrap ''open sync lock guard'' sys_plain)
    (sq (wrap ''set sync lock guard permissions'' (cleanup_on_error (ignoring sys_plain) sys_plain))
        (cleanup_on_error (ignoring sys_plain)
          (bnd (attempt (sys (\<lambda>d. if sdGuardBusy d then (Inl EWOULDBLOCK, d)
                                   else (Inr (), d \<lparr> sdGuardMine := True \<rparr>)))) (\<lambda>r.
             case r of
               Inl e \<Rightarrow> if err_is e EWOULDBLOCK then fail ErrSyncLocked
                        else fail (Wrapped ''acquire sync lock guard'' e)
             | Inr _ \<Rightarrow> ret ()))))"

text \<open>Closing the file drops the flock even when the explicit unlock failed.\<close>

definition releaseGuard :: "(SessionDir, unit) act" where
  "releaseGuard =
    bnd (attempt (sys (\<lambda>d. (Inr (), d \<lparr> sdGuardMine := False \<rparr>)))) (\<lambda>unlocked.
    bnd (attempt (sys_plain)) (\<lambda>closed.
      sq (\<lambda>d. (Inr (), d \<lparr> sdGuardMine := False \<rparr>))
      (case unlocked of
         Inl e \<Rightarrow> fail (Wrapped ''release sync lock guard'' e)
       | Inr _ \<Rightarrow> (case closed of Inl e \<Rightarrow> fail (Wrapped ''close sync lock guard'' e) | Inr _ \<Rightarrow> ret ()))))"

text \<open>What runs between taking and releasing the guard.\<close>

definition acquireGuarded :: "(SessionDir, FileLock) act" where
  "acquireGuarded =
    bnd (attempt createFileLock) (\<lambda>r. case r of
      Inr lock \<Rightarrow> ret lock
    | Inl e \<Rightarrow>
        if e \<noteq> ErrExist then fail (Wrapped ''create sync lock'' e)
        else bnd recoverStaleLock (\<lambda>recovered.
          if \<not> recovered then fail ErrSyncLocked
          else bnd (attempt createFileLock) (\<lambda>r2. case r2 of
            Inr lock \<Rightarrow> ret lock
          | Inl e2 \<Rightarrow> if e2 = ErrExist then fail ErrSyncLocked
                      else fail (Wrapped ''create sync lock after stale recovery'' e2))))"

definition AcquireFileLock :: "(SessionDir, FileLock) act" where
  "AcquireFileLock =
    sq (wrap ''create lock dir'' sys_plain)
    (sq acquireLockOperationGuard
        (\<lambda>d. case acquireGuarded d of (r, d') \<Rightarrow> (r, snd (releaseGuard d'))))"

record LockFileInspection =
  liExists :: bool
  liHasMetadata :: bool

definition InspectFileLock :: "(SessionDir, LockFileInspection) act" where
  "InspectFileLock =
    bnd (attempt read_lock_file) (\<lambda>r. case r of
      Inl e \<Rightarrow> if e = ErrNotExist then ret \<lparr> liExists = False, liHasMetadata = False \<rparr>
               else fail (Wrapped ''read sync lock'' e)
    | Inr data \<Rightarrow> ret \<lparr> liExists = True, liHasMetadata = (parseLockFileMetadata data \<noteq> None) \<rparr>)"

text \<open>\<open>FileLock.Release\<close>: the file is closed and removed even when the close fails.\<close>

definition Release :: "FileLock \<Rightarrow> (SessionDir, unit) act" where
  "Release lock =
    (if flReleased lock then fail (Plain ''sync lock already released'')
     else bnd (attempt sys_plain) (\<lambda>closed.
       bnd (attempt remove_lock_file) (\<lambda>removed.
         case closed of
           Inl e \<Rightarrow> fail (Wrapped ''close sync lock'' e)
         | Inr _ \<Rightarrow> (case removed of Inl e \<Rightarrow> fail (Wrapped ''remove sync lock'' e) | Inr _ \<Rightarrow> ret ()))))"

section \<open>The manager\<close>

definition manager_begin :: "(SessionDir, SyncWindow \<times> FileLock) act" where
  "manager_begin =
    bnd AcquireFileLock (\<lambda>lock.
    cleanup_on_error (ignoring (Release lock))
      (bnd cursor_read (\<lambda>stored.
       bnd sys_now (\<lambda>now.
         let lastSync = (case stored of None \<Rightarrow> 0 | Some t \<Rightarrow> t);
             startedAt = truncateToMillisecond now in
         if is_zero startedAt then fail (Plain ''sync start timestamp is required'')
         else ret (\<lparr> LastSync = lastSync, StartedAt = startedAt \<rparr>, lock)))))"

definition manager_complete :: "SyncWindow \<Rightarrow> (SessionDir, unit) act" where
  "manager_complete window =
    (if is_zero (StartedAt window) then fail (Plain ''sync start timestamp is required'')
     else cursor_write (StartedAt window))"

definition session_manager :: "(SessionDir, FileLock) SessionManager" where
  "session_manager = \<lparr> Begin = manager_begin, Complete = manager_complete, ReleaseLock = Release \<rparr>"

section \<open>Facts\<close>

text \<open>What no operation of this theory changes.\<close>

definition same_env :: "SessionDir \<Rightarrow> SessionDir \<Rightarrow> bool" where
  "same_env d d' =
    (sdFault d' = sdFault d \<and> sdHostname d' = sdHostname d \<and> sdPid d' = sdPid d \<and>
     sdClock d' = sdClock d \<and> sdKill d' = sdKill d \<and> sdGuardBusy d' = sdGuardBusy d)"

lemma same_env_refl [simp]: "same_env d d"
  by (simp add: same_env_def)

lemma same_env_trans: "same_env a b \<Longrightarrow> same_env b c \<Longrightarrow> same_env a c"
  by (simp add: same_env_def)

lemmas session_prims = sys_def sys_plain_def sys_now_def ignoring_def cleanup_on_error_def act_defs

lemma parse_own_metadata:
  "\<not> blank h \<Longrightarrow> 0 < p \<Longrightarrow> t \<noteq> 0 \<Longrightarrow>
     parseLockFileMetadata (LockJSON \<lparr> lmPID = p, lmHostname = h, lmStartedAt = t \<rparr>)
       = Some \<lparr> lmPID = p, lmHostname = h, lmStartedAt = t \<rparr>"
  by (simp add: parseLockFileMetadata_def is_zero_def)

lemma cursor_write_run:
  assumes "cursor_write ts d = (r, d')"
  shows "same_env d d' \<and> sdLock d' = sdLock d \<and> sdGuardMine d' = sdGuardMine d \<and>
    (case r of Inr _ \<Rightarrow> sdCursor d' = Some (CursorInstant (truncateToMillisecond ts)) \<and> ts \<noteq> 0
             | Inl _ \<Rightarrow> sdCursor d' = sdCursor d)"
  using assms
  by (auto simp: cursor_write_def session_prims temp_remove_def is_zero_def same_env_def Let_def
      split: option.splits if_splits)

lemma cursor_read_run:
  assumes "cursor_read d = (r, d')"
  shows "same_env d d' \<and> sdLock d' = sdLock d \<and> sdGuardMine d' = sdGuardMine d \<and> sdCursor d' = sdCursor d \<and>
    (case r of Inr None \<Rightarrow> sdCursor d = None
             | Inr (Some t) \<Rightarrow> (\<exists>s. sdCursor d = Some (CursorInstant s) \<and> t = truncateToMillisecond s)
             | Inl _ \<Rightarrow> True)"
  using assms
  by (auto simp: cursor_read_def read_cursor_file_def session_prims same_env_def Let_def
      split: option.splits if_splits cursor_text.splits)

text \<open>The metadata this process writes at some clock reading.\<close>

definition own_metadata :: "SessionDir \<Rightarrow> lockFileMetadata \<Rightarrow> bool" where
  "own_metadata d m = (lmPID m = sdPid d \<and> sdHostname d = Inr (lmHostname m) \<and> \<not> blank (lmHostname m)
                       \<and> (\<exists>n. lmStartedAt m = sdClock d n))"

lemma createFileLock_run:
  assumes "createFileLock d = (r, d')"
  shows "same_env d d' \<and> sdCursor d' = sdCursor d \<and> sdGuardMine d' = sdGuardMine d \<and>
    (case r of
       Inr l \<Rightarrow> \<not> flReleased l \<and> sdLock d = None \<and> (\<exists>m. sdLock d' = Some (LockJSON m) \<and> own_metadata d m)
     | Inl e \<Rightarrow> (if e = ErrExist then sdLock d \<noteq> None \<and> sdLock d' = sdLock d
                 else sdLock d \<noteq> None \<longrightarrow> sdLock d' = sdLock d))"
  using assms
  by (auto simp: createFileLock_def newLockFileMetadata_def remove_lock_file_def session_prims same_env_def
      own_metadata_def Let_def split: option.splits if_splits sum.splits)

text \<open>Why an existing lock file may be removed: it parses as metadata of this host whose process is
  gone.\<close>

definition stale_lock :: "SessionDir \<Rightarrow> lock_text \<Rightarrow> bool" where
  "stale_lock d t =
    (\<exists>m. parseLockFileMetadata t = Some m \<and> sdHostname d = Inr (lmHostname m) \<and> sdKill d (lmPID m) = KillESRCH)"

lemma parse_pid_pos: "parseLockFileMetadata t = Some m \<Longrightarrow> 0 < lmPID m"
  by (auto simp: parseLockFileMetadata_def split: lock_text.splits if_splits)

lemma processExists_run:
  "processExists p d = (r, d') \<Longrightarrow> 0 < p \<Longrightarrow> d' = d \<and> (r = Inr False \<longrightarrow> sdKill d p = KillESRCH)"
  by (auto simp: processExists_def split: if_splits kill_result.splits)

lemma processExists_false:
  "processExists p d = (Inr False, d') \<Longrightarrow> 0 < p \<Longrightarrow> d' = d \<and> sdKill d p = KillESRCH"
  using processExists_run by blast

lemma recoverStaleLock_run:
  assumes "recoverStaleLock d = (r, d')"
  shows "same_env d d' \<and> sdCursor d' = sdCursor d \<and> sdGuardMine d' = sdGuardMine d \<and>
    (r = Inr True \<longrightarrow> sdLock d' = None \<and> (\<forall>t. sdLock d = Some t \<longrightarrow> stale_lock d t)) \<and>
    (r \<noteq> Inr True \<longrightarrow> sdLock d' = sdLock d)"
  using assms
  by (simp add: recoverStaleLock_def read_lock_file_def remove_lock_file_def session_prims Let_def
      split: option.splits if_splits sum.splits prod.splits)
    (auto simp: same_env_def stale_lock_def parse_pid_pos dest!: processExists_run
      split: option.splits sum.splits)

lemma own_metadata_env: "same_env d d' \<Longrightarrow> own_metadata d' m = own_metadata d m"
  by (simp add: own_metadata_def same_env_def)

lemma stale_lock_env: "same_env d d' \<Longrightarrow> stale_lock d' t = stale_lock d t"
  by (simp add: stale_lock_def same_env_def)

text \<open>The outcome of an attempt to take the lock, from the state before to the state after.\<close>

definition acquired :: "SessionDir \<Rightarrow> SessionDir \<Rightarrow> FileLock \<Rightarrow> bool" where
  "acquired d d' lock =
    (\<not> flReleased lock \<and> (\<exists>m. sdLock d' = Some (LockJSON m) \<and> own_metadata d m) \<and>
     (\<forall>t. sdLock d = Some t \<longrightarrow> stale_lock d t))"

definition not_acquired :: "SessionDir \<Rightarrow> SessionDir \<Rightarrow> bool" where
  "not_acquired d d' = (\<forall>t. sdLock d = Some t \<longrightarrow> stale_lock d t \<or> sdLock d' = Some t)"

lemma acquireGuarded_run:
  assumes "acquireGuarded d = (r, d')"
  shows "same_env d d' \<and> sdCursor d' = sdCursor d \<and> sdGuardMine d' = sdGuardMine d \<and>
    (case r of Inr l \<Rightarrow> acquired d d' l | Inl e \<Rightarrow> not_acquired d d')"
proof -
  obtain r1 d1 where c1: "createFileLock d = (r1, d1)" by (cases "createFileLock d")
  note k1 = createFileLock_run [OF c1]
  show ?thesis
  proof (cases "r1 = Inl ErrExist")
    case False
    then show ?thesis
      using assms c1 k1
      by (auto simp: acquireGuarded_def act_defs acquired_def not_acquired_def split: sum.splits if_splits)
  next
    case locked: True
    obtain r2 d2 where c2: "recoverStaleLock d1 = (r2, d2)" by (cases "recoverStaleLock d1")
    note k2 = recoverStaleLock_run [OF c2]
    show ?thesis
    proof (cases "r2 = Inr True")
      case False
      then show ?thesis
        using assms c1 c2 k1 k2 locked
        by (auto simp: acquireGuarded_def act_defs not_acquired_def intro: same_env_trans
            split: sum.splits if_splits)
    next
      case True
      obtain r3 d3 where c3: "createFileLock d2 = (r3, d3)" by (cases "createFileLock d2")
      have "d' = d3" "(\<exists>l. r = Inr l \<and> r3 = Inr l) \<or> (\<exists>e. r = Inl e)"
        using assms c1 c2 c3 locked True
        by (auto simp: acquireGuarded_def act_defs split: sum.splits if_splits)
      moreover have "same_env d d2" using k1 k2 by (blast intro: same_env_trans)
      moreover have "\<forall>t. sdLock d = Some t \<longrightarrow> stale_lock d t"
        using k1 k2 locked True stale_lock_env by auto
      ultimately show ?thesis
        using createFileLock_run [OF c3] k1 k2
        by (auto simp: acquired_def not_acquired_def own_metadata_env intro: same_env_trans)
    qed
  qed
qed

lemma acquireLockOperationGuard_run:
  assumes "acquireLockOperationGuard d = (r, d')"
  shows "same_env d d' \<and> sdCursor d' = sdCursor d \<and> sdLock d' = sdLock d \<and>
    (r = Inr () \<longrightarrow> \<not> sdGuardBusy d)"
  using assms
  by (auto simp: acquireLockOperationGuard_def session_prims same_env_def Let_def EWOULDBLOCK_def
      split: option.splits if_splits sum.splits)

lemma releaseGuard_run:
  "same_env d (snd (releaseGuard d)) \<and> sdCursor (snd (releaseGuard d)) = sdCursor d
   \<and> sdLock (snd (releaseGuard d)) = sdLock d \<and> \<not> sdGuardMine (snd (releaseGuard d))"
  by (auto simp: releaseGuard_def session_prims same_env_def Let_def split: option.splits sum.splits)

lemma AcquireFileLock_run:
  assumes "AcquireFileLock d = (r, d')"
  shows "same_env d d' \<and> sdCursor d' = sdCursor d \<and>
    (case r of Inr l \<Rightarrow> acquired d d' l \<and> \<not> sdGuardBusy d \<and> \<not> sdGuardMine d' | Inl e \<Rightarrow> not_acquired d d')"
proof -
  obtain r1 d1 where c1: "wrap ''create lock dir'' sys_plain d = (r1, d1)" by (cases "wrap ''create lock dir'' sys_plain d")
  have k1: "same_env d d1" "sdCursor d1 = sdCursor d" "sdLock d1 = sdLock d"
    using c1 by (auto simp: session_prims same_env_def Let_def split: option.splits)
  obtain r2 d2 where c2: "acquireLockOperationGuard d1 = (r2, d2)" by (cases "acquireLockOperationGuard d1")
  note k2 = acquireLockOperationGuard_run [OF c2]
  obtain r3 d3 where c3: "acquireGuarded d2 = (r3, d3)" by (cases "acquireGuarded d2")
  note k3 = acquireGuarded_run [OF c3]
  show ?thesis
  proof (cases "isl r1 \<or> isl r2")
    case True
    with assms c1 c2 k1 k2 show ?thesis
      by (auto simp: AcquireFileLock_def sq_def bnd_def not_acquired_def isl_def intro: same_env_trans
          split: sum.splits)
  next
    case False
    then have "r = r3" "d' = snd (releaseGuard d3)"
      using assms c1 c2 c3 by (auto simp: AcquireFileLock_def sq_def bnd_def isl_def split: sum.splits)
    moreover have e: "same_env d d2" using k1 k2 by (blast intro: same_env_trans)
    moreover have "same_env d d3" using e k3 by (blast intro: same_env_trans)
    moreover have "r2 = Inr ()" using False by (cases r2) auto
    ultimately show ?thesis
      using k1 k2 k3 releaseGuard_run [of d3] same_env_trans [of d d3 d']
      by (cases r3) (simp_all add: acquired_def not_acquired_def own_metadata_env [OF e] stale_lock_env [OF e]
          same_env_def [of d d1])
  qed
qed

lemma Release_run:
  assumes "Release lock d = (r, d')"
  shows "same_env d d' \<and> sdCursor d' = sdCursor d \<and> sdGuardMine d' = sdGuardMine d \<and>
    (r = Inr () \<longrightarrow> sdLock d \<noteq> None \<and> sdLock d' = None) \<and> (sdLock d' = None \<or> sdLock d' = sdLock d)"
  using assms
  by (auto simp: Release_def remove_lock_file_def session_prims same_env_def Let_def
      split: option.splits if_splits sum.splits)

lemma cleanup_keeps_result:
  "cleanup_on_error c m d = (Inr a, d') \<longleftrightarrow> m d = (Inr a, d')"
  by (auto simp: cleanup_on_error_def split: prod.splits sum.splits)

text \<open>The window a successful \<open>Begin\<close> returns.\<close>

definition window_of :: "SessionDir \<Rightarrow> SyncWindow \<Rightarrow> bool" where
  "window_of d window =
    ((case sdCursor d of
        None \<Rightarrow> LastSync window = 0
      | Some t \<Rightarrow> (\<exists>s. t = CursorInstant s \<and> LastSync window = truncateToMillisecond s)) \<and>
     StartedAt window \<noteq> 0 \<and> (\<exists>n. StartedAt window = truncateToMillisecond (sdClock d n)))"

lemma manager_begin_run:
  assumes "manager_begin d = (Inr (window, lock), d')"
  shows "same_env d d' \<and> sdCursor d' = sdCursor d \<and> acquired d d' lock \<and> window_of d window"
proof -
  obtain d1 where a: "AcquireFileLock d = (Inr lock, d1)"
      and rest: "bnd cursor_read (\<lambda>stored. bnd sys_now (\<lambda>now.
         let lastSync = (case stored of None \<Rightarrow> 0 | Some t \<Rightarrow> t);
             startedAt = truncateToMillisecond now in
         if is_zero startedAt then fail (Plain ''sync start timestamp is required'')
         else ret (\<lparr> LastSync = lastSync, StartedAt = startedAt \<rparr>, lock))) d1 = (Inr (window, lock), d')"
    using assms
    by (auto simp: manager_begin_def bnd_def cleanup_keeps_result ret_def fail_def Let_def
        split: prod.splits sum.splits if_splits)
  obtain stored d2 where c: "cursor_read d1 = (Inr stored, d2)"
    using rest by (auto simp: bnd_def split: prod.splits sum.splits)
  have "StartedAt window = truncateToMillisecond (sdClock d2 (sdTick d2))" "StartedAt window \<noteq> 0"
    "LastSync window = (case stored of None \<Rightarrow> 0 | Some t \<Rightarrow> t)" "same_env d2 d'" "sdCursor d' = sdCursor d2"
    "sdLock d' = sdLock d2"
    using rest c by (auto simp: bnd_def sys_now_def ret_def fail_def is_zero_def same_env_def Let_def split: if_splits)
  moreover note AcquireFileLock_run [OF a] cursor_read_run [OF c]
  ultimately show ?thesis
    by (auto simp: window_of_def acquired_def same_env_def split: option.splits)
qed

section \<open>Properties\<close>

text \<open>C7. The cursor is replaced atomically: for every pattern of I/O failures a write either reports
  success and the cursor file holds the truncated timestamp, or reports an error and the cursor file
  is what it was; the lock file is not touched. The zero time is always refused.\<close>

theorem cursor_write_atomic:
  "(case cursor_write ts d of
      (Inr _, d') \<Rightarrow> ts \<noteq> 0 \<and> sdCursor d' = Some (CursorInstant (truncateToMillisecond ts)) \<and> sdLock d' = sdLock d
    | (Inl _, d') \<Rightarrow> sdCursor d' = sdCursor d \<and> sdLock d' = sdLock d)"
  using cursor_write_run by (fastforce split: prod.splits sum.splits)

text \<open>C8. The lock is never taken from a live or foreign holder. Whatever I/O failures occur: after a
  successful acquisition the lock file holds this process's own metadata, the guard was free and is
  released, and a lock file that was there before named a dead process of this host; after a failed
  one an existing lock that is not stale is still there, unchanged.\<close>

theorem lock_never_stolen:
  "(case AcquireFileLock d of
      (Inr lock, d') \<Rightarrow> acquired d d' lock \<and> \<not> sdGuardBusy d \<and> \<not> sdGuardMine d' \<and> sdCursor d' = sdCursor d
    | (Inl _, d') \<Rightarrow> not_acquired d d' \<and> sdCursor d' = sdCursor d)"
  using AcquireFileLock_run by (fastforce split: prod.splits sum.splits)


definition sample_dir :: SessionDir where
  "sample_dir =
    \<lparr> sdCursor = None, sdTemp = None, sdLock = None, sdGuardBusy = False, sdGuardMine = False, sdTick = 0,
      sdFault = (\<lambda>_. None), sdHostname = Inr ''h'', sdPid = 7, sdClock = (\<lambda>n. 5000000 + int n),
      sdKill = (\<lambda>_. KillESRCH) \<rparr>"


end
