(* ===== verification/Lock_Protocol.thy ===== *)
theory Lock_Protocol
  imports Session
begin

text \<open>The sync lock between concurrent processes. The system calls of \<open>AcquireFileLock\<close>,
  \<open>createFileLock\<close>, \<open>recoverStaleLock\<close> and \<open>FileLock.Release\<close> are the atomic steps of an interleaving
  of any number of processes on any number of hosts that share the \<open>.pc\<close> directory; a process is
  its (pid, host name). Any step may fail instead, a process may crash between any two steps (the
  kernel then drops its flock and leaves the lock file), and a crashed process's pid may be reused.\<close>

type_synonym proc = "int \<times> string"

definition owner :: "lockFileMetadata \<Rightarrow> proc" where
  "owner m = (lmPID m, lmHostname m)"

datatype phase =
    Idle
  | Guarded \<comment> \<open>flock taken, before \<open>createFileLock\<close>\<close>
  | Creating \<comment> \<open>\<open>O_EXCL\<close> succeeded, metadata not written yet\<close>
  | Wrote \<comment> \<open>metadata written, guard still held\<close>
  | Blocked \<comment> \<open>\<open>O_EXCL\<close> found a lock file\<close>
  | ReadLock lock_text \<comment> \<open>\<open>recoverStaleLock\<close> has read it\<close>
  | OwnerDead lock_text \<comment> \<open>its process was gone\<close>
  | SameText lock_text \<comment> \<open>re-read and equal, about to remove it\<close>
  | Retry \<comment> \<open>recovered, before the second \<open>createFileLock\<close>\<close>
  | Leaving \<comment> \<open>returning an error, guard still held\<close>
  | Holding
  | Closing \<comment> \<open>\<open>Release\<close> has closed the file, about to remove it\<close>
  | Crashed

record protocol =
  guard :: "proc option"
  lock_file :: "lock_text option"
  phases :: "proc \<Rightarrow> phase"

definition initial :: protocol where
  "initial = \<lparr> guard = None, lock_file = None, phases = (\<lambda>_. Idle) \<rparr>"

definition goto :: "proc \<Rightarrow> phase \<Rightarrow> protocol \<Rightarrow> protocol" where
  "goto p ph s = s \<lparr> phases := (phases s)(p := ph) \<rparr>"

lemma goto_sel [simp]:
  "guard (goto p ph s) = guard s" "lock_file (goto p ph s) = lock_file s"
  "phases (goto p ph s) = (phases s)(p := ph)"
  by (simp_all add: goto_def)

inductive step :: "protocol \<Rightarrow> protocol \<Rightarrow> bool" where
  take_guard: "phases s p = Idle \<Longrightarrow> guard s = None \<Longrightarrow> step s (goto p Guarded (s \<lparr> guard := Some p \<rparr>))"
| create: "phases s p \<in> {Guarded, Retry} \<Longrightarrow> lock_file s = None \<Longrightarrow>
    step s (goto p Creating (s \<lparr> lock_file := Some (LockGarbage []) \<rparr>))"
| create_exists: "phases s p = Guarded \<Longrightarrow> lock_file s = Some t \<Longrightarrow> step s (goto p Blocked s)"
| fails: "phases s p \<in> {Guarded, Blocked, ReadLock t, OwnerDead t, SameText t, Retry} \<Longrightarrow> step s (goto p Leaving s)"
| write_metadata: "phases s p = Creating \<Longrightarrow> owner m = p \<Longrightarrow>
    step s (goto p Wrote (s \<lparr> lock_file := Some (LockJSON m) \<rparr>))"
| create_undone: "phases s p \<in> {Creating, Wrote} \<Longrightarrow> step s (goto p Leaving (s \<lparr> lock_file := None \<rparr>))"
| undo_failed: "phases s p \<in> {Creating, Wrote} \<Longrightarrow> step s (goto p Leaving s)"
| acquired: "phases s p = Wrote \<Longrightarrow> step s (goto p Holding (s \<lparr> guard := None \<rparr>))"
| read: "phases s p = Blocked \<Longrightarrow> lock_file s = Some t \<Longrightarrow> step s (goto p (ReadLock t) s)"
| read_gone: "phases s p = Blocked \<Longrightarrow> lock_file s = None \<Longrightarrow> step s (goto p Retry s)"
| owner_dead: "phases s p = ReadLock t \<Longrightarrow> parseLockFileMetadata t = Some m \<Longrightarrow> lmHostname m = snd p \<Longrightarrow>
    phases s (owner m) = Crashed \<Longrightarrow> step s (goto p (OwnerDead t) s)"
| reread: "phases s p = OwnerDead t \<Longrightarrow> lock_file s = Some t \<Longrightarrow> step s (goto p (SameText t) s)"
| reread_changed: "phases s p = OwnerDead t \<Longrightarrow> lock_file s \<noteq> Some t \<Longrightarrow> step s (goto p Retry s)"
| remove_stale: "phases s p = SameText t \<Longrightarrow> step s (goto p Retry (s \<lparr> lock_file := None \<rparr>))"
| leave: "phases s p = Leaving \<Longrightarrow> step s (goto p Idle (s \<lparr> guard := None \<rparr>))"
| close: "phases s p = Holding \<Longrightarrow> step s (goto p Closing s)"
| remove: "phases s p = Closing \<Longrightarrow> step s (goto p Idle (s \<lparr> lock_file := None \<rparr>))"
| remove_failed: "phases s p = Closing \<Longrightarrow> step s (goto p Idle s)"
| crash: "phases s p \<noteq> Crashed \<Longrightarrow>
    step s (goto p Crashed (s \<lparr> guard := (if guard s = Some p then None else guard s) \<rparr>))"
| restart: "phases s p = Crashed \<Longrightarrow> step s (goto p Idle s)"

inductive reachable :: "protocol \<Rightarrow> bool" where
  init: "reachable initial"
| next_step: "reachable s \<Longrightarrow> step s s' \<Longrightarrow> reachable s'"

section \<open>Invariant\<close>

text \<open>Who must hold the guard, and who owns the lock file.\<close>

fun needs_guard :: "phase \<Rightarrow> bool" where
  "needs_guard ph = (case ph of Idle \<Rightarrow> False | Holding \<Rightarrow> False | Closing \<Rightarrow> False | Crashed \<Rightarrow> False | _ \<Rightarrow> True)"

definition owns :: "phase \<Rightarrow> bool" where
  "owns ph = (ph = Wrote \<or> ph = Holding \<or> ph = Closing)"

definition owned_by :: "protocol \<Rightarrow> proc \<Rightarrow> bool" where
  "owned_by s p = (\<exists>m. lock_file s = Some (LockJSON m) \<and> owner m = p)"

text \<open>A text judged stale: its owner is idle or gone and stays so while the judge holds the guard.\<close>

definition judged :: "protocol \<Rightarrow> lock_text \<Rightarrow> bool" where
  "judged s t = (\<exists>m. t = LockJSON m \<and> (phases s (owner m) = Idle \<or> phases s (owner m) = Crashed))"

definition lock_inv :: "protocol \<Rightarrow> bool" where
  "lock_inv s =
    ((\<forall>p. needs_guard (phases s p) \<longrightarrow> guard s = Some p) \<and>
     (\<forall>p. owns (phases s p) \<longrightarrow> owned_by s p) \<and>
     (\<forall>p. phases s p = Creating \<longrightarrow> lock_file s = Some (LockGarbage [])) \<and>
     (\<forall>p t. phases s p = OwnerDead t \<or> phases s p = SameText t \<longrightarrow> judged s t) \<and>
     (\<forall>p t. phases s p = SameText t \<longrightarrow> lock_file s = Some t))"

lemma lock_invI:
  assumes "\<And>p. needs_guard (phases s p) \<Longrightarrow> guard s = Some p"
    and "\<And>p. owns (phases s p) \<Longrightarrow> owned_by s p"
    and "\<And>p. phases s p = Creating \<Longrightarrow> lock_file s = Some (LockGarbage [])"
    and "\<And>p t. phases s p = OwnerDead t \<Longrightarrow> judged s t"
    and "\<And>p t. phases s p = SameText t \<Longrightarrow> judged s t \<and> lock_file s = Some t"
  shows "lock_inv s"
  unfolding lock_inv_def using assms by blast

lemma lock_invD:
  assumes "lock_inv s"
  shows "needs_guard (phases s p) \<Longrightarrow> guard s = Some p" "owns (phases s p) \<Longrightarrow> owned_by s p"
    "phases s p = Creating \<Longrightarrow> lock_file s = Some (LockGarbage [])"
    "phases s p = OwnerDead t \<Longrightarrow> judged s t" "phases s p = SameText t \<Longrightarrow> judged s t"
    "phases s p = SameText t \<Longrightarrow> lock_file s = Some t"
  using assms unfolding lock_inv_def by blast+

lemma guard_unique:
  "lock_inv s \<Longrightarrow> needs_guard (phases s p) \<Longrightarrow> needs_guard (phases s q) \<Longrightarrow> p = q"
  using lock_invD(1) by (metis option.inject)

lemma judged_parse: "parseLockFileMetadata t = Some m \<Longrightarrow> t = LockJSON m"
  by (auto simp: parseLockFileMetadata_def split: lock_text.splits if_splits)

lemma lock_inv_initial: "lock_inv initial"
  by (simp add: lock_inv_def initial_def owns_def)

text \<open>What a move of one process has to establish: what its new phase claims, and that the claims of
  the other processes survive.\<close>

lemma lock_inv_goto:
  assumes inv: "lock_inv s"
    and mine: "needs_guard ph \<Longrightarrow> g = Some p" "owns ph \<Longrightarrow> \<exists>m. l = Some (LockJSON m) \<and> owner m = p"
      "ph = Creating \<Longrightarrow> l = Some (LockGarbage [])" "\<And>t. ph = OwnerDead t \<Longrightarrow> judged (goto p ph s) t"
      "\<And>t. ph = SameText t \<Longrightarrow> judged (goto p ph s) t \<and> l = Some t"
    and others: "\<And>q. q \<noteq> p \<Longrightarrow> needs_guard (phases s q) \<Longrightarrow> g = Some q"
      "\<And>q. q \<noteq> p \<Longrightarrow> owns (phases s q) \<Longrightarrow> l = lock_file s"
      "\<And>q. q \<noteq> p \<Longrightarrow> phases s q = Creating \<Longrightarrow> l = lock_file s"
      "\<And>q t. q \<noteq> p \<Longrightarrow> phases s q = OwnerDead t \<Longrightarrow> judged (goto p ph s) t"
      "\<And>q t. q \<noteq> p \<Longrightarrow> phases s q = SameText t \<Longrightarrow> judged (goto p ph s) t \<and> l = lock_file s"
  shows "lock_inv (goto p ph (s \<lparr> guard := g, lock_file := l \<rparr>))" (is "lock_inv ?s")
proof (rule lock_invI)
  have j: "judged ?s t = judged (goto p ph s) t" for t by (simp add: judged_def)
  fix q
  show "guard ?s = Some q" if "needs_guard (phases ?s q)"
    using that mine(1) others(1) by (cases "q = p") auto
  show "owned_by ?s q" if "owns (phases ?s q)"
    using that mine(2) others(2) [of q] lock_invD(2) [OF inv, of q] by (cases "q = p") (auto simp: owned_by_def)
  show "lock_file ?s = Some (LockGarbage [])" if "phases ?s q = Creating"
    using that mine(3) others(3) [of q] lock_invD(3) [OF inv, of q] by (cases "q = p") auto
  fix t
  show "judged ?s t" if "phases ?s q = OwnerDead t"
    using that mine(4) others(4) [of q t] unfolding j by (cases "q = p") auto
  show "judged ?s t \<and> lock_file ?s = Some t" if "phases ?s q = SameText t"
    using that mine(5) others(5) [of q t] lock_invD(6) [OF inv, of q t] unfolding j by (cases "q = p") auto
qed

text \<open>A move of a process that is inside the guard: the others are outside.\<close>

lemma lock_inv_inside:
  assumes inv: "lock_inv s" and p: "needs_guard (phases s p)"
    and mine: "needs_guard ph \<Longrightarrow> g = Some p" "owns ph \<Longrightarrow> \<exists>m. l = Some (LockJSON m) \<and> owner m = p"
      "ph = Creating \<Longrightarrow> l = Some (LockGarbage [])" "\<And>t. ph = OwnerDead t \<Longrightarrow> judged (goto p ph s) t"
      "\<And>t. ph = SameText t \<Longrightarrow> judged (goto p ph s) t \<and> l = Some t"
    and owners: "\<And>q. q \<noteq> p \<Longrightarrow> owns (phases s q) \<Longrightarrow> l = lock_file s"
  shows "lock_inv (goto p ph (s \<lparr> guard := g, lock_file := l \<rparr>))"
proof -
  have outside: "\<not> needs_guard (phases s q)" if "q \<noteq> p" for q
    using guard_unique [OF inv p] that by blast
  show ?thesis
  proof (rule lock_inv_goto [OF inv mine])
    fix q t assume q: "q \<noteq> p"
    show "g = Some q" if "needs_guard (phases s q)" using outside [OF q] that by blast
    show "l = lock_file s" if "owns (phases s q)" using owners q that by blast
    show "l = lock_file s" if "phases s q = Creating" using outside [OF q] that by simp
    show "judged (goto p ph s) t" if "phases s q = OwnerDead t" using outside [OF q] that by simp
    show "judged (goto p ph s) t \<and> l = lock_file s" if "phases s q = SameText t" using outside [OF q] that by simp
  qed
qed

lemma lock_inv_quiet:
  assumes "lock_inv s" "needs_guard (phases s p)" "needs_guard ph" "\<not> owns ph" "ph \<noteq> Creating"
    and "\<And>t. ph = OwnerDead t \<Longrightarrow> judged s t"
    and "\<And>t. ph = SameText t \<Longrightarrow> judged s t \<and> lock_file s = Some t"
  shows "lock_inv (goto p ph s)"
proof -
  have "judged (goto p ph s) t" if "judged s t" for t
    using that assms(2) by (auto simp: judged_def)
  then have "lock_inv (goto p ph (s \<lparr> guard := guard s, lock_file := lock_file s \<rparr>))"
    using assms lock_invD(1) [OF assms(1,2)] by (intro lock_inv_inside) auto
  then show ?thesis by simp
qed

text \<open>Inside the guard without owning the file, no one else's file can be removed or replaced.\<close>

lemma no_owner_if: "lock_inv s \<Longrightarrow> lock_file s = None \<or> lock_file s = Some (LockGarbage g) \<Longrightarrow> \<not> owns (phases s q)"
  using lock_invD(2) by (fastforce simp: owned_by_def)

lemma no_owner_judged:
  assumes "lock_inv s" "judged s t" "lock_file s = Some t"
  shows "\<not> owns (phases s q)"
  using assms lock_invD(2) [OF assms(1), of q] by (auto simp: judged_def owned_by_def owns_def)

lemma judged_goto: "judged s t \<Longrightarrow> phases s p \<notin> {Idle, Crashed} \<or> ph \<in> {Idle, Crashed} \<Longrightarrow> judged (goto p ph s) t"
  by (auto simp: judged_def)

lemma same_fields: "s = s \<lparr> guard := guard s, lock_file := lock_file s \<rparr>" by simp

lemma inv_take_guard:
  assumes "lock_inv s" "phases s p = Idle" "guard s = None"
  shows "lock_inv (goto p Guarded (s \<lparr> guard := Some p \<rparr>))"
proof -
  have n: "\<not> needs_guard (phases s q)" for q
    using lock_invD(1) [OF assms(1), of q] assms(3) by auto
  have "lock_inv (goto p Guarded (s \<lparr> guard := Some p, lock_file := lock_file s \<rparr>))"
  proof (rule lock_inv_goto [OF assms(1)])
    fix q t
    show "judged (goto p Guarded s) t" if "phases s q = OwnerDead t" using n [of q] that by simp
    show "judged (goto p Guarded s) t \<and> lock_file s = lock_file s" if "phases s q = SameText t"
      using n [of q] that by simp
    show "Some p = Some q" if "needs_guard (phases s q)" using n that by blast
  qed (simp_all add: owns_def)
  then show ?thesis by simp
qed

lemma inv_lock_change:
  assumes inv: "lock_inv s" and p: "needs_guard (phases s p)" "needs_guard ph"
    and "\<not> (\<exists>t. ph = OwnerDead t \<or> ph = SameText t)" "ph = Creating \<Longrightarrow> l = Some (LockGarbage [])"
    and "owns ph \<Longrightarrow> \<exists>m. l = Some (LockJSON m) \<and> owner m = p"
    and "\<And>q. q \<noteq> p \<Longrightarrow> \<not> owns (phases s q)"
  shows "lock_inv (goto p ph (s \<lparr> lock_file := l \<rparr>))"
proof -
  have "lock_inv (goto p ph (s \<lparr> guard := guard s, lock_file := l \<rparr>))"
    using assms lock_invD(1) [OF inv p(1)] by (intro lock_inv_inside) auto
  then show ?thesis by simp
qed

lemma inv_leave_guard:
  assumes inv: "lock_inv s" and p: "needs_guard (phases s p)" "\<not> needs_guard ph"
    and "owns ph \<Longrightarrow> owned_by s p" "ph \<noteq> Creating"
  shows "lock_inv (goto p ph (s \<lparr> guard := None \<rparr>))"
proof -
  have "lock_inv (goto p ph (s \<lparr> guard := None, lock_file := lock_file s \<rparr>))"
    using assms by (intro lock_inv_inside) (auto simp: owned_by_def)
  then show ?thesis by simp
qed

lemma single_owner: "lock_inv s \<Longrightarrow> owns (phases s p) \<Longrightarrow> owns (phases s q) \<Longrightarrow> p = q"
  using lock_invD(2) [of s p] lock_invD(2) [of s q] by (auto simp: owned_by_def)

text \<open>A move outside the guard.\<close>

lemma inv_outside:
  assumes inv: "lock_inv s" and ph: "\<not> needs_guard ph"
    and g: "\<And>q. q \<noteq> p \<Longrightarrow> guard s = Some q \<Longrightarrow> g = Some q"
    and idle: "phases s p \<notin> {Idle, Crashed} \<or> ph \<in> {Idle, Crashed}"
    and l: "l = lock_file s \<or> l = None \<and> owns (phases s p)" and o: "owns ph \<Longrightarrow> owned_by s p \<and> l = lock_file s"
  shows "lock_inv (goto p ph (s \<lparr> guard := g, lock_file := l \<rparr>))"
proof (rule lock_inv_goto [OF inv])
  have ow: "l = lock_file s \<or> (\<exists>m. lock_file s = Some (LockJSON m) \<and> owner m = p \<and> phases s p \<notin> {Idle, Crashed})"
    using l lock_invD(2) [OF inv, of p] by (auto simp: owned_by_def owns_def)
  fix q t assume q: "q \<noteq> p"
  show "g = Some q" if "needs_guard (phases s q)" using g [OF q] lock_invD(1) [OF inv that] by blast
  show "l = lock_file s" if "owns (phases s q)" using l single_owner [OF inv that, of p] q by blast
  show "l = lock_file s" if "phases s q = Creating" using ow lock_invD(3) [OF inv that] by auto
  show "judged (goto p ph s) t" if "phases s q = OwnerDead t" by (rule judged_goto [OF lock_invD(4) [OF inv that] idle])
  show "judged (goto p ph s) t \<and> l = lock_file s" if "phases s q = SameText t"
    using judged_goto [OF lock_invD(5) [OF inv that] idle] lock_invD(5,6) [OF inv that] ow
    by (auto simp: judged_def)
qed (use ph o in \<open>auto simp: owned_by_def\<close>)

lemma lock_inv_step: "step s s' \<Longrightarrow> lock_inv s \<Longrightarrow> lock_inv s'"
proof (induction rule: step.induct)
  case (take_guard s p)
  then show ?case by (blast intro: inv_take_guard)
next
  case (create s p)
  then have "\<not> owns (phases s q)" for q using no_owner_if by blast
  with create show ?case by (auto intro!: inv_lock_change simp: owns_def)
next
  case (create_exists s p t)
  then show ?case by (auto intro!: lock_inv_quiet simp: owns_def)
next
  case (fails s p t)
  then show ?case by (auto intro!: lock_inv_quiet simp: owns_def)
next
  case (write_metadata s p m)
  then have "\<not> owns (phases s q)" for q using no_owner_if lock_invD(3) by blast
  with write_metadata show ?case by (auto intro!: inv_lock_change)
next
  case (create_undone s p)
  then have "\<not> owns (phases s q)" if "q \<noteq> p" for q
    using that no_owner_if [of s "[]" q] lock_invD(3) [of s p] single_owner [of s p q] by (auto simp: owns_def)
  with create_undone show ?case by (auto intro!: inv_lock_change simp: owns_def)
next
  case (undo_failed s p)
  then show ?case by (auto intro!: lock_inv_quiet simp: owns_def)
next
  case (acquired s p)
  then show ?case using lock_invD(2) [of s p] by (auto intro!: inv_leave_guard simp: owns_def)
next
  case (read s p t)
  then show ?case by (auto intro!: lock_inv_quiet simp: owns_def)
next
  case (read_gone s p)
  then show ?case by (auto intro!: lock_inv_quiet simp: owns_def)
next
  case (owner_dead s p t m)
  then show ?case using judged_parse [of t m]
    by (auto intro!: lock_inv_quiet simp: owns_def judged_def)
next
  case (reread s p t)
  then show ?case using lock_invD(4) [of s p t] by (auto intro!: lock_inv_quiet simp: owns_def)
next
  case (reread_changed s p t)
  then show ?case by (auto intro!: lock_inv_quiet simp: owns_def)
next
  case (remove_stale s p t)
  then have "\<not> owns (phases s q)" for q
    using no_owner_judged [of s t] lock_invD(5,6) by blast
  with remove_stale show ?case by (auto intro!: inv_lock_change simp: owns_def)
next
  case (leave s p)
  then show ?case by (auto intro!: inv_leave_guard simp: owns_def)
next
  case (close s p)
  then show ?case using inv_outside [of s Closing p "guard s" "lock_file s"] lock_invD(2) [of s p]
    by (auto simp: owns_def)
next
  case (remove s p)
  then show ?case using inv_outside [of s Idle p "guard s" None] by (auto simp: owns_def)
next
  case (remove_failed s p)
  then show ?case using inv_outside [of s Idle p "guard s" "lock_file s"] by (auto simp: owns_def)
next
  case (crash s p)
  then show ?case
    using inv_outside [of s Crashed p "if guard s = Some p then None else guard s" "lock_file s"]
    by (auto simp: owns_def)
next
  case (restart s p)
  then show ?case using inv_outside [of s Idle p "guard s" "lock_file s"] by (auto simp: owns_def)
qed

lemma reachable_inv: "reachable s \<Longrightarrow> lock_inv s"
  by (induction rule: reachable.induct) (auto intro: lock_inv_initial lock_inv_step)

section \<open>Properties\<close>

text \<open>C10. Mutual exclusion: in every reachable interleaving, with crashes between any two system calls,
  pid reuse and failing calls, at most one process is between a successful \<open>AcquireFileLock\<close> and the
  removal of its lock file, and the lock file is then its own.\<close>

theorem lock_mutual_exclusion:
  assumes "reachable s" and "phases s p \<in> {Holding, Closing}" and "phases s q \<in> {Holding, Closing}"
  shows "p = q \<and> owned_by s p"
  using assms reachable_inv [OF assms(1)] single_owner [of s p q] lock_invD(2) [of s p]
  by (auto simp: owns_def)

definition sample_meta :: lockFileMetadata where
  "sample_meta = \<lparr> lmPID = 7, lmHostname = ''h'', lmStartedAt = 5 \<rparr>"

text \<open>From a free lock a process can take it.\<close>

lemma free_lock_path:
  assumes "phases s p = Idle" "guard s = None" "lock_file s = None" "owner m = p"
  shows "\<exists>s'. rtranclp step s s' \<and> phases s' p = Holding \<and> lock_file s' = Some (LockJSON m)"
proof -
  let ?a = "goto p Guarded (s \<lparr> guard := Some p \<rparr>)"
  let ?b = "goto p Creating (?a \<lparr> lock_file := Some (LockGarbage []) \<rparr>)"
  let ?c = "goto p Wrote (?b \<lparr> lock_file := Some (LockJSON m) \<rparr>)"
  let ?d = "goto p Holding (?c \<lparr> guard := None \<rparr>)"
  note more = rtranclp.rtrancl_into_rtrancl
  have "rtranclp step s ?a"
    by (rule more [OF rtranclp.rtrancl_refl]) (use assms in \<open>auto intro!: step.take_guard\<close>)
  then have "rtranclp step s ?b" by (rule more) (use assms in \<open>auto intro!: step.create\<close>)
  then have "rtranclp step s ?c" by (rule more) (use assms in \<open>auto intro!: step.write_metadata\<close>)
  then have "rtranclp step s ?d" by (rule more) (auto intro!: step.acquired)
  then show ?thesis by (intro exI [of _ ?d]) simp
qed

lemma reachable_star: "rtranclp step s s' \<Longrightarrow> reachable s \<Longrightarrow> reachable s'"
  by (induction rule: rtranclp_induct) (auto intro: reachable.next_step)

theorem lock_mutual_exclusion_witness:
  "\<exists>s. reachable s \<and> phases s (7, ''h'') = Holding \<and> owned_by s (7, ''h'')"
proof -
  obtain s where s: "rtranclp step initial s" "phases s (7, ''h'') = Holding"
    using free_lock_path [of initial "(7, ''h'')" sample_meta] by (auto simp: initial_def owner_def sample_meta_def)
  then have "reachable s" using reachable_star reachable.init by blast
  with s lock_mutual_exclusion [of s "(7, ''h'')" "(7, ''h'')"] show ?thesis by auto
qed

text \<open>C11. Recovery is possible: when the guard is free and the lock file names a crashed process of
  this host, an idle process of the host can reach the state in which it holds the lock with its
  own metadata in the file.\<close>

theorem stale_lock_recoverable:
  assumes "phases s p = Idle" "guard s = None" "lock_file s = Some t" "parseLockFileMetadata t = Some m"
    and "lmHostname m = snd p" "phases s (owner m) = Crashed" "owner mine = p"
  shows "\<exists>s'. rtranclp step s s' \<and> phases s' p = Holding \<and> lock_file s' = Some (LockJSON mine)"
proof -
  let ?a = "goto p Guarded (s \<lparr> guard := Some p \<rparr>)"
  let ?b = "goto p Blocked ?a"
  let ?c = "goto p (ReadLock t) ?b"
  let ?d = "goto p (OwnerDead t) ?c"
  let ?e = "goto p (SameText t) ?d"
  let ?f = "goto p Retry (?e \<lparr> lock_file := None \<rparr>)"
  let ?g = "goto p Creating (?f \<lparr> lock_file := Some (LockGarbage []) \<rparr>)"
  let ?h = "goto p Wrote (?g \<lparr> lock_file := Some (LockJSON mine) \<rparr>)"
  let ?i = "goto p Holding (?h \<lparr> guard := None \<rparr>)"
  have ne: "owner m \<noteq> p" using assms(1,6) by auto
  note more = rtranclp.rtrancl_into_rtrancl
  have "rtranclp step s ?a"
    by (rule more [OF rtranclp.rtrancl_refl]) (use assms in \<open>auto intro!: step.take_guard\<close>)
  then have "rtranclp step s ?b" by (rule more) (use assms in \<open>auto intro!: step.create_exists\<close>)
  then have "rtranclp step s ?c" by (rule more) (use assms in \<open>auto intro!: step.read\<close>)
  then have "rtranclp step s ?d"
    by (rule more) (rule step.owner_dead [of _ _ _ m]; use assms ne in simp)
  then have "rtranclp step s ?e" by (rule more) (rule step.reread; use assms in simp)
  then have "rtranclp step s ?f" by (rule more) (rule step.remove_stale [of _ _ t]; simp)
  then have "rtranclp step s ?g" by (rule more) (rule step.create; simp)
  then have "rtranclp step s ?h" by (rule more) (rule step.write_metadata; use assms in simp)
  then have "rtranclp step s ?i" by (rule more) (rule step.acquired; simp)
  then show ?thesis by (intro exI [of _ ?i]) simp
qed

theorem stale_lock_recoverable_witness:
  "\<exists>s s'. phases s (8, ''h'') = Idle \<and> lock_file s = Some (LockJSON sample_meta) \<and>
     rtranclp step s s' \<and> phases s' (8, ''h'') = Holding"
proof -
  let ?s = "\<lparr> guard = None, lock_file = Some (LockJSON sample_meta),
               phases = (\<lambda>_. Idle)((7, ''h'') := Crashed) \<rparr>"
  have "\<not> blank ''h''"
    by (simp add: blank_def trim_fixed_ends starts_with_seq_def space_seqs_def)
  then have "parseLockFileMetadata (LockJSON sample_meta) = Some sample_meta"
    by (simp add: sample_meta_def parseLockFileMetadata_def is_zero_def)
  with stale_lock_recoverable [of ?s "(8, ''h'')" "LockJSON sample_meta" sample_meta
      "\<lparr> lmPID = 8, lmHostname = ''h'', lmStartedAt = 6 \<rparr>"]
  obtain s' where "rtranclp step ?s s'" "phases s' (8, ''h'') = Holding"
    by (auto simp: owner_def sample_meta_def)
  then show ?thesis by (intro exI [of _ ?s] exI [of _ s']) simp
qed

end
