(* ===== verification/Timeutil.thy ===== *)
theory Timeutil
  imports Prelude
begin

text \<open>\<open>timeutil.FormatUTCMillis\<close>, the canonical text of a timestamp: the proleptic Gregorian date and
  time of day of an instant, from Go's zero time 0001-01-01T00:00:00Z on, with milliseconds. The
  calendar computation is the one of Go's \<open>time\<close> package: 400-, 100-, 4- and 1-year cycles.\<close>

definition nanos_per_day :: int where
  "nanos_per_day = 86400000000000"

text \<open>Year (0-based) and day of the year (0-based) of a day number.\<close>

definition year_yday :: "int \<Rightarrow> int \<times> int" where
  "year_yday d =
    (let n400 = d div 146097; d1 = d - 146097 * n400;
         n100a = d1 div 36524; n100 = n100a - n100a div 4; d2 = d1 - 36524 * n100;
         n4 = d2 div 1461; d3 = d2 - 1461 * n4;
         n1a = d3 div 365; n1 = n1a - n1a div 4; d4 = d3 - 365 * n1
     in (400 * n400 + 100 * n100 + 4 * n4 + n1, d4))"

definition leap_year :: "int \<Rightarrow> bool" where
  "leap_year y = (y mod 4 = 0 \<and> (y mod 100 \<noteq> 0 \<or> y mod 400 = 0))"

definition month_lengths :: "int \<Rightarrow> int list" where
  "month_lengths y = [31, if leap_year y then 29 else 28, 31, 30, 31, 30, 31, 31, 30, 31, 30, 31]"

fun month_day :: "int list \<Rightarrow> int \<Rightarrow> int \<Rightarrow> int \<times> int" where
  "month_day [] m d = (m, d)"
| "month_day [n] m d = (m, d)"
| "month_day (n # n' # ns) m d = (if d < n then (m, d) else month_day (n' # ns) (m + 1) (d - n))"

text \<open>Year, month and day of a day number.\<close>

definition civil :: "int \<Rightarrow> int \<times> int \<times> int" where
  "civil days =
    (case year_yday days of (y0, yday) \<Rightarrow>
      (case month_day (month_lengths (y0 + 1)) 1 yday of (m, d) \<Rightarrow> (y0 + 1, m, d + 1)))"

definition digit :: "int \<Rightarrow> char" where
  "digit n = char_of (48 + nat (n mod 10))"

fun digits :: "nat \<Rightarrow> int \<Rightarrow> string" where
  "digits 0 n = []"
| "digits (Suc k) n = digits k (n div 10) @ [digit n]"

definition FormatUTCMillis :: "time \<Rightarrow> string" where
  "FormatUTCMillis t =
    (let days = t div nanos_per_day; ms = (t mod nanos_per_day) div millisecond in
     case civil days of (y, m, d) \<Rightarrow>
       digits 4 y @ ''-'' @ digits 2 m @ ''-'' @ digits 2 d @ ''T'' @
       digits 2 (ms div 3600000) @ '':'' @ digits 2 (ms div 60000 mod 60) @ '':'' @
       digits 2 (ms div 1000 mod 60) @ ''.'' @ digits 3 (ms mod 1000) @ ''Z'')"

fun FormatUTCMillisPtr :: "time option \<Rightarrow> string option" where
  "FormatUTCMillisPtr None = None"
| "FormatUTCMillisPtr (Some t) = Some (FormatUTCMillis t)"

end
