(* ===== verification/Sync_Service.thy ===== *)
theory Sync_Service
  imports Interfaces Timeutil
begin

text \<open>\<open>sync/service.go\<close>: the bidirectional sync service. One definition per function, in the order
  of the file; each takes the service's parts as the record \<open>Service\<close>. \<open>ctx.Err()\<close> is the action
  \<open>sCtxErr\<close>, which may fail at any call; a failed warning write is an error as in the code. A
  deferred cleanup is the combinator \<open>deferring\<close>.\<close>

record ('w, 'l) Service =
  sLocalRepo :: "'w Repository"
  sCloudRepo :: "'w Repository"
  sLocalFS :: LocalFiles
  sOS :: "'w OS"
  sCloudObjects :: "'w ObjectStore"
  sSession :: "('w, 'l) SessionManager"
  sWarn :: "nat \<Rightarrow> string \<Rightarrow> ('w, unit) act"
  sCtxErr :: "('w, unit) act"

text \<open>\<open>NewService\<close> refuses a missing part; the flags say which arguments are non-nil.\<close>

definition NewService ::
  "bool \<Rightarrow> bool \<Rightarrow> bool \<Rightarrow> bool \<Rightarrow> bool \<Rightarrow> ('w, 'l) Service \<Rightarrow> error + ('w, 'l) Service" where
  "NewService hasLocal hasCloud hasFS hasObjects hasSession s =
    (if \<not> hasLocal then Inl (Plain ''local repository is required'')
     else if \<not> hasCloud then Inl (Plain ''cloud repository is required'')
     else if \<not> hasFS then Inl (Plain ''local filesystem is required'')
     else if \<not> hasObjects then Inl (Plain ''object store is required'')
     else if \<not> hasSession then Inl (Plain ''session manager is required'')
     else Inr s)"

text \<open>Runs \<open>m\<close>, then \<open>cleanup\<close> whatever \<open>m\<close> returned; \<open>cleanup\<close>'s own error is dropped
  (\<open>_ = ...\<close>).\<close>

definition finally_ignoring :: "('w, unit) act \<Rightarrow> ('w, 'a) act \<Rightarrow> ('w, 'a) act" where
  "finally_ignoring cleanup m w = (case m w of (r, w') \<Rightarrow> (r, snd (cleanup w')))"

text \<open>The same, but \<open>cleanup\<close> runs only after a failure.\<close>

definition on_error_ignoring :: "('w, unit) act \<Rightarrow> ('w, 'a) act \<Rightarrow> ('w, 'a) act" where
  "on_error_ignoring cleanup m w =
    (case m w of (Inl e, w') \<Rightarrow> (Inl e, snd (cleanup w')) | (Inr a, w') \<Rightarrow> (Inr a, w'))"

text \<open>The deferred release of \<open>Sync\<close>: a release error is returned, joined to an earlier one.\<close>

definition finally_joining :: "('w, unit) act \<Rightarrow> ('w, unit) act \<Rightarrow> ('w, unit) act" where
  "finally_joining cleanup m w =
    (case m w of (r, w') \<Rightarrow>
       (case cleanup w' of
          (Inr _, w'') \<Rightarrow> (r, w'')
        | (Inl releaseErr, w'') \<Rightarrow>
            ((case r of Inr _ \<Rightarrow> Inl releaseErr | Inl e \<Rightarrow> Inl (Joined e releaseErr)), w'')))"

lemma keeps_finally_ignoring [keep_intros]:
  "keeps I c \<Longrightarrow> keeps I m \<Longrightarrow> keeps I (finally_ignoring c m)"
  by (auto simp: keeps_def finally_ignoring_def split: prod.splits)

lemma keeps_on_error_ignoring [keep_intros]:
  "keeps I c \<Longrightarrow> keeps I m \<Longrightarrow> keeps I (on_error_ignoring c m)"
  by (auto simp: keeps_def on_error_ignoring_def split: prod.splits sum.splits)

lemma keeps_finally_joining [keep_intros]:
  "keeps I c \<Longrightarrow> keeps I m \<Longrightarrow> keeps I (finally_joining c m)"
  by (auto simp: keeps_def finally_joining_def split: prod.splits sum.splits)

section \<open>Files\<close>

text \<open>\<open>filepath.Dir\<close> of a clean absolute path: everything before the last slash. The paths come from
  the resolver, which joins and so cleans them.\<close>

definition path_dir :: "string \<Rightarrow> string" where
  "path_dir path =
    (let d = rev (tl (dropWhile (\<lambda>c. c \<noteq> CHR ''/'') (rev path))) in if d = [] then ''/'' else d)"

definition syncedFilePermission :: nat where
  "syncedFilePermission = 420" \<comment> \<open>\<open>0o644\<close>\<close>

definition syncedChatRawFilePermission :: nat where
  "syncedChatRawFilePermission = 384" \<comment> \<open>\<open>0o600\<close>\<close>

text \<open>\<open>io.Copy\<close>: what could be read is written; a read error is returned after it.\<close>

definition copy_body :: "'w OS \<Rightarrow> string \<Rightarrow> body \<Rightarrow> ('w, unit) act" where
  "copy_body os path body =
    sq (osWrite os path (fst body)) (case snd body of None \<Rightarrow> ret () | Some e \<Rightarrow> fail e)"

text \<open>A step on the open temp file: on failure the file is closed first.\<close>

definition or_close :: "'w OS \<Rightarrow> string \<Rightarrow> ('w, unit) act \<Rightarrow> ('w, unit) act" where
  "or_close os tempPath m = on_error_ignoring (osClose os tempPath) m"

definition writeReaderToPathWithPerm :: "'w OS \<Rightarrow> string \<Rightarrow> body \<Rightarrow> nat \<Rightarrow> ('w, unit) act" where
  "writeReaderToPathWithPerm os path body filePerm =
    (let dir = path_dir path in
     sq (wrap ''create directory'' (osMkdirAll os dir 448))
       (bnd (wrap ''create temp file'' (osCreateTemp os dir ''.sync-*'')) (\<lambda>tempPath.
         on_error_ignoring (osRemove os tempPath)
           (sq (wrap ''chmod temp file'' (or_close os tempPath (osChmod os tempPath filePerm)))
           (sq (wrap ''copy temp file'' (or_close os tempPath (copy_body os tempPath body)))
           (sq (wrap ''sync temp file'' (or_close os tempPath (osSync os tempPath)))
           (sq (wrap ''close temp file'' (osClose os tempPath))
               (wrap ''replace'' (osRename os tempPath path)))))))))"

definition writeReaderToPath :: "'w OS \<Rightarrow> string \<Rightarrow> body \<Rightarrow> ('w, unit) act" where
  "writeReaderToPath os path body = writeReaderToPathWithPerm os path body syncedFilePermission"

definition removeFileIfPresent :: "'w OS \<Rightarrow> string \<Rightarrow> ('w, unit) act" where
  "removeFileIfPresent os path =
    bnd (attempt (osRemove os path)) (\<lambda>r.
      case r of
        Inl e \<Rightarrow> if err_is e ErrNotExist then ret () else fail (Wrapped ''remove'' e)
      | Inr _ \<Rightarrow> ret ())"

definition uploadFile :: "('w, 'l) Service \<Rightarrow> string \<Rightarrow> string \<Rightarrow> ('w, unit) act" where
  "uploadFile s key path =
    bnd (wrap ''open local file'' (osOpen (sOS s) path)) (\<lambda>file.
      finally_ignoring (osClose (sOS s) path)
        (wrap ''upload'' (Upload (sCloudObjects s) key file)))"

definition stat_then_upload :: "string \<Rightarrow> ('w, 'l) Service \<Rightarrow> string \<Rightarrow> string \<Rightarrow> ('w, bool) act" where
  "stat_then_upload msg s key path =
    bnd (attempt (osStat (sOS s) path)) (\<lambda>r.
      case r of
        Inl e \<Rightarrow> if err_is e ErrNotExist then ret False else fail (Wrapped msg e)
      | Inr _ \<Rightarrow> sq (uploadFile s key path) (ret True))"

definition uploadDataFileIfPresent :: "('w, 'l) Service \<Rightarrow> string \<Rightarrow> string \<Rightarrow> ('w, bool) act" where
  "uploadDataFileIfPresent = stat_then_upload ''stat local file''"

definition uploadChatSourceIfPresent :: "('w, 'l) Service \<Rightarrow> string \<Rightarrow> string \<Rightarrow> ('w, bool) act" where
  "uploadChatSourceIfPresent = stat_then_upload ''stat local chat source''"

definition downloadFile :: "('w, 'l) Service \<Rightarrow> string \<Rightarrow> string \<Rightarrow> ('w, unit) act" where
  "downloadFile s key path =
    bnd (wrap ''download'' (Download (sCloudObjects s) key)) (\<lambda>body.
      wrap ''write'' (writeReaderToPath (sOS s) path body))"

text \<open>\<open>errObjectNotFound\<close>, a confirmed object miss.\<close>

definition errObjectNotFound :: error where
  "errObjectNotFound = Plain ''cloud object not found''"

definition downloadChatSourceIfPresent :: "('w, 'l) Service \<Rightarrow> string \<Rightarrow> string \<Rightarrow> ('w, unit) act" where
  "downloadChatSourceIfPresent s key path =
    bnd (attempt (Download (sCloudObjects s) key)) (\<lambda>r.
      case r of
        Inl e \<Rightarrow> if IsNotFound (sCloudObjects s) e then fail errObjectNotFound
                 else fail (Wrapped ''download'' e)
      | Inr body \<Rightarrow>
          wrap ''write'' (writeReaderToPathWithPerm (sOS s) path body syncedChatRawFilePermission))"

definition removeLocalFigureFileIfPresent :: "('w, 'l) Service \<Rightarrow> string \<Rightarrow> string \<Rightarrow> ('w, unit) act" where
  "removeLocalFigureFileIfPresent s recordID filename =
    bnd (lift_result (ResolveFigurePath (sLocalFS s) recordID filename)) (\<lambda>path.
      removeFileIfPresent (sOS s) path)"

definition removeLocalDataFileIfPresent :: "('w, 'l) Service \<Rightarrow> string \<Rightarrow> string \<Rightarrow> ('w, unit) act" where
  "removeLocalDataFileIfPresent s recordID filename =
    bnd (lift_result (ResolveDataFilePath (sLocalFS s) recordID filename)) (\<lambda>path.
      removeFileIfPresent (sOS s) path)"

section \<open>Applying a bundle\<close>

definition indexFiguresByID :: "RecordFigure list \<Rightarrow> (int \<rightharpoonup> RecordFigure)" where
  "indexFiguresByID figures = fold (\<lambda>f m. m(fgID f \<mapsto> f)) figures Map.empty"

definition indexDataFilesByID :: "RecordDataFile list \<Rightarrow> (int \<rightharpoonup> RecordDataFile)" where
  "indexDataFilesByID files = fold (\<lambda>f m. m(dfID f \<mapsto> f)) files Map.empty"

text \<open>Reading an absent key of a Go map gives the zero value; only the object key and the filename
  of the row found are used.\<close>

definition old_figure_key :: "(int \<rightharpoonup> RecordFigure) \<Rightarrow> int \<Rightarrow> string" where
  "old_figure_key byID i = (case byID i of None \<Rightarrow> [] | Some f \<Rightarrow> fgS3Key f)"

definition old_figure_filename :: "(int \<rightharpoonup> RecordFigure) \<Rightarrow> int \<Rightarrow> string" where
  "old_figure_filename byID i = (case byID i of None \<Rightarrow> [] | Some f \<Rightarrow> fgFilename f)"

definition old_data_file_key :: "(int \<rightharpoonup> RecordDataFile) \<Rightarrow> int \<Rightarrow> string" where
  "old_data_file_key byID i = (case byID i of None \<Rightarrow> [] | Some f \<Rightarrow> dfS3Key f)"

definition old_data_file_filename :: "(int \<rightharpoonup> RecordDataFile) \<Rightarrow> int \<Rightarrow> string" where
  "old_data_file_filename byID i = (case byID i of None \<Rightarrow> [] | Some f \<Rightarrow> dfFilename f)"

definition figuresOf :: "RecordBundle option \<Rightarrow> RecordFigure list" where
  "figuresOf bundle = (case bundle of None \<Rightarrow> [] | Some b \<Rightarrow> bFigures b)"

definition dataFilesOf :: "RecordBundle option \<Rightarrow> RecordDataFile list" where
  "dataFilesOf bundle = (case bundle of None \<Rightarrow> [] | Some b \<Rightarrow> bDataFiles b)"

definition update_input_of :: "Record \<Rightarrow> UpdateRecordInput" where
  "update_input_of r =
    \<lparr> urID = rID r, urDate = rDate r, urDayOrder = rDayOrder r, urHTMLContent = rHTMLContent r,
      urNotes = rNotes r, urProjectID = rProjectID r, urSourceDeviceID = rSourceDeviceID r,
      urSourceRef = rSourceRef r, urGitRemoteURL = rGitRemoteURL r, urGitHash = rGitHash r,
      urUpdatedAt = Some (rUpdatedAt r), urSetDeletedAt = True, urDeletedAt = rDeletedAt r \<rparr>"

definition create_input_of :: "Record \<Rightarrow> CreateRecordInput" where
  "create_input_of r =
    \<lparr> crID = rID r, crDate = rDate r, crDayOrder = rDayOrder r, crHTMLContent = rHTMLContent r,
      crNotes = rNotes r, crProjectID = rProjectID r, crSourceDeviceID = rSourceDeviceID r,
      crSourceRef = rSourceRef r, crGitRemoteURL = rGitRemoteURL r, crGitHash = rGitHash r,
      crCreatedAt = Some (rCreatedAt r), crUpdatedAt = Some (rUpdatedAt r), crDeletedAt = rDeletedAt r \<rparr>"

definition applyRecord :: "'w Repository \<Rightarrow> Record \<Rightarrow> bool \<Rightarrow> ('w, unit) act" where
  "applyRecord repo record exists =
    (if exists then sq (UpdateRecord repo (update_input_of record)) (ret ())
     else sq (CreateRecord repo (create_input_of record)) (ret ()))"

definition uploadDesiredFigureFiles :: "('w, 'l) Service \<Rightarrow> string \<Rightarrow> RecordFigure list \<Rightarrow> ('w, unit) act" where
  "uploadDesiredFigureFiles s recordID desired =
    each (\<lambda>figure.
      bnd (lift_result (ResolveFigurePath (sLocalFS s) recordID (fgFilename figure))) (\<lambda>path.
        uploadFile s (fgS3Key figure) path)) desired"

definition downloadDesiredFigureFiles :: "('w, 'l) Service \<Rightarrow> string \<Rightarrow> RecordFigure list \<Rightarrow> ('w, unit) act" where
  "downloadDesiredFigureFiles s recordID desired =
    each (\<lambda>figure.
      bnd (lift_result (ResolveFigurePath (sLocalFS s) recordID (fgFilename figure))) (\<lambda>path.
        downloadFile s (fgS3Key figure) path)) desired"

definition applyFiguresToCloud ::
  "('w, 'l) Service \<Rightarrow> string \<Rightarrow> RecordFigure list \<Rightarrow> RecordFigure list \<Rightarrow> ('w, unit) act" where
  "applyFiguresToCloud s recordID desired existing =
    sq (uploadDesiredFigureFiles s recordID desired)
      (bnd (lift_result (PlanFigureReconciliation recordID existing desired)) (\<lambda>plan.
        let byID = indexFiguresByID existing in
        sq (each (\<lambda>c. sq (CreateRecordFigure (sCloudRepo s) c) (ret ())) (fpCreates plan))
        (sq (each (\<lambda>u.
               let old = old_figure_key byID (ufID u) in
               sq (UpdateRecordFigure (sCloudRepo s) u)
                 (if old \<noteq> ufS3Key u then DeleteObject (sCloudObjects s) old else ret ()))
             (fpUpdates plan))
            (each (\<lambda>i.
               sq (DeleteRecordFigure (sCloudRepo s) i)
                  (DeleteObject (sCloudObjects s) (old_figure_key byID i)))
             (fpDeleteIDs plan)))))"

definition applyDataFilesToCloud ::
  "('w, 'l) Service \<Rightarrow> string \<Rightarrow> RecordDataFile list \<Rightarrow> RecordDataFile list \<Rightarrow> ('w, unit) act" where
  "applyDataFilesToCloud s recordID desired existing =
    bnd (lift_result (PlanDataFileReconciliation recordID existing desired)) (\<lambda>plan.
      let byID = indexDataFilesByID existing in
      sq (each (\<lambda>c.
             bnd (lift_result (ResolveDataFilePath (sLocalFS s) recordID (cdFilename c))) (\<lambda>path.
             sq (uploadDataFileIfPresent s (cdS3Key c) path)
             (sq (CreateRecordDataFile (sCloudRepo s) c) (ret ()))))
           (dpCreates plan))
      (sq (each (\<lambda>u.
             bnd (lift_result (ResolveDataFilePath (sLocalFS s) recordID (udFilename u))) (\<lambda>path.
             bnd (uploadDataFileIfPresent s (udS3Key u) path) (\<lambda>uploaded.
             let old = old_data_file_key byID (udID u) in
             if \<not> uploaded \<and> old \<noteq> udS3Key u then
               fail (Plain ''local data file is required to change data file s3_key'')
             else sq (UpdateRecordDataFile (sCloudRepo s) u)
               (if uploaded \<and> old \<noteq> udS3Key u then DeleteObject (sCloudObjects s) old else ret ()))))
           (dpUpdates plan))
          (each (\<lambda>i.
             sq (DeleteRecordDataFile (sCloudRepo s) i)
                (DeleteObject (sCloudObjects s) (old_data_file_key byID i)))
           (dpDeleteIDs plan))))"

definition applyFiguresToLocal ::
  "('w, 'l) Service \<Rightarrow> string \<Rightarrow> RecordFigure list \<Rightarrow> RecordFigure list \<Rightarrow> ('w, unit) act" where
  "applyFiguresToLocal s recordID desired existing =
    sq (downloadDesiredFigureFiles s recordID desired)
      (bnd (lift_result (PlanFigureReconciliation recordID existing desired)) (\<lambda>plan.
        let byID = indexFiguresByID existing in
        sq (each (\<lambda>c. sq (CreateRecordFigure (sLocalRepo s) c) (ret ())) (fpCreates plan))
        (sq (each (\<lambda>u. sq (UpdateRecordFigure (sLocalRepo s) u) (ret ())) (fpUpdates plan))
            (each (\<lambda>i.
               sq (DeleteRecordFigure (sLocalRepo s) i)
                  (removeLocalFigureFileIfPresent s recordID (old_figure_filename byID i)))
             (fpDeleteIDs plan)))))"

definition applyDataFilesToLocal ::
  "('w, 'l) Service \<Rightarrow> string \<Rightarrow> RecordDataFile list \<Rightarrow> RecordDataFile list \<Rightarrow> ('w, unit) act" where
  "applyDataFilesToLocal s recordID desired existing =
    bnd (lift_result (PlanDataFileReconciliation recordID existing desired)) (\<lambda>plan.
      let byID = indexDataFilesByID existing in
      sq (each (\<lambda>c.
             sq (CreateRecordDataFile (sLocalRepo s) c)
                (removeLocalDataFileIfPresent s recordID (cdFilename c)))
           (dpCreates plan))
      (sq (each (\<lambda>u.
             sq (UpdateRecordDataFile (sLocalRepo s) u)
                (removeLocalDataFileIfPresent s recordID (udFilename u)))
           (dpUpdates plan))
          (each (\<lambda>i.
             sq (DeleteRecordDataFile (sLocalRepo s) i)
                (removeLocalDataFileIfPresent s recordID (old_data_file_filename byID i)))
           (dpDeleteIDs plan))))"

definition applyBundleToCloud ::
  "('w, 'l) Service \<Rightarrow> RecordBundle \<Rightarrow> RecordBundle option \<Rightarrow> ('w, unit) act" where
  "applyBundleToCloud s desired existing =
    sq (wrap ''apply record to cloud'' (applyRecord (sCloudRepo s) (bRecord desired) (existing \<noteq> None)))
    (sq (wrap ''apply figures to cloud''
          (applyFiguresToCloud s (rID (bRecord desired)) (bFigures desired) (figuresOf existing)))
        (wrap ''apply data files to cloud''
          (applyDataFilesToCloud s (rID (bRecord desired)) (bDataFiles desired) (dataFilesOf existing))))"

definition applyBundleToLocal ::
  "('w, 'l) Service \<Rightarrow> RecordBundle \<Rightarrow> RecordBundle option \<Rightarrow> ('w, unit) act" where
  "applyBundleToLocal s desired existing =
    sq (wrap ''apply record to local'' (applyRecord (sLocalRepo s) (bRecord desired) (existing \<noteq> None)))
    (sq (wrap ''apply figures to local''
          (applyFiguresToLocal s (rID (bRecord desired)) (bFigures desired) (figuresOf existing)))
        (wrap ''apply data files to local''
          (applyDataFilesToLocal s (rID (bRecord desired)) (bDataFiles desired) (dataFilesOf existing))))"

section \<open>One pass over the records\<close>

definition listChangedRecords :: "'w Repository \<Rightarrow> time \<Rightarrow> ('w, Record list) act" where
  "listChangedRecords repo since =
    bnd (ListRecords repo (zero_records_filter \<lparr> lrIncludeDeleted := True \<rparr>)) (\<lambda>records.
      ret (FilterRecordsUpdatedSince records since))"

definition bundleForRecord :: "'w Repository \<Rightarrow> Record \<Rightarrow> ('w, RecordBundle) act" where
  "bundleForRecord repo record =
    bnd (wrap ''list figures'' (ListRecordFiguresByRecordID repo (rID record))) (\<lambda>figures.
    bnd (wrap ''list data files'' (ListRecordDataFilesByRecordID repo (rID record))) (\<lambda>files.
      ret \<lparr> bRecord = record, bFigures = figures, bDataFiles = files \<rparr>))"

definition loadBundle :: "'w Repository \<Rightarrow> string \<Rightarrow> ('w, RecordBundle option) act" where
  "loadBundle repo recordID =
    bnd (attempt (GetRecordByID repo recordID)) (\<lambda>r.
      case r of
        Inl e \<Rightarrow> if err_is e ErrNotFound then ret None else fail e
      | Inr record \<Rightarrow> bnd (bundleForRecord repo record) (\<lambda>bundle. ret (Some bundle)))"

definition syncRegistries :: "'w Repository \<Rightarrow> 'w Repository \<Rightarrow> ('w, unit) act" where
  "syncRegistries source target =
    bnd (wrap ''list projects'' (ListProjects source True)) (\<lambda>projects.
    sq (each (\<lambda>p. sq (wrap ''upsert project'' (UpsertProjectForImport target p)) (ret ())) projects)
    (bnd (wrap ''list devices'' (ListDevices source True)) (\<lambda>devices.
    sq (each (\<lambda>d. sq (wrap ''upsert device'' (UpsertDeviceForImport target d)) (ret ())) devices)
    (bnd (wrap ''list project paths'' (ListProjectPaths source None)) (\<lambda>paths.
      each (\<lambda>p. sq (wrap ''upsert project path'' (UpsertProjectPath target
                 \<lparr> cpProjectID = ppProjectID p, cpPath = ppPath p, cpDeviceID = ppDeviceID p,
                   cpCreatedAt = Some (ppCreatedAt p), cpUpdatedAt = Some (ppUpdatedAt p) \<rparr>)) (ret ()))
        paths)))))"

record 'w syncDirection =
  dName :: string
  dSourceRepo :: "'w Repository"
  dTargetRepo :: "'w Repository"
  dWinningSide :: Winner
  dApply :: "RecordBundle \<Rightarrow> RecordBundle option \<Rightarrow> ('w, unit) act"

text \<open>The body of the loop of \<open>syncChangedRecords\<close>.\<close>

definition syncOneRecord :: "'w syncDirection \<Rightarrow> Record \<Rightarrow> ('w, unit) act" where
  "syncOneRecord dir record =
    bnd (wrap ''load source bundle'' (bundleForRecord (dSourceRepo dir) record)) (\<lambda>sourceBundle.
    bnd (wrap ''load target bundle'' (loadBundle (dTargetRepo dir) (rID record))) (\<lambda>loaded.
      case loaded of
        None \<Rightarrow> wrap ''sync new record'' (dApply dir sourceBundle None)
      | Some targetBundle \<Rightarrow>
          let localBundle = (if dWinningSide dir = WinnerCloud then targetBundle else sourceBundle);
              cloudBundle = (if dWinningSide dir = WinnerCloud then sourceBundle else targetBundle) in
          bnd (wrap ''resolve bundle'' (lift_result (ResolveBundle localBundle cloudBundle))) (\<lambda>resolved.
            let winner = snd resolved in
            if winner \<noteq> dWinningSide dir then
              (if winner = WinnerNone \<and> sourceBundleCanRepairTargetChildren sourceBundle targetBundle
               then wrap ''repair record'' (dApply dir sourceBundle (Some targetBundle))
               else ret ())
            else wrap ''sync record'' (dApply dir sourceBundle (Some targetBundle)))))"

definition syncChangedRecords :: "'w syncDirection \<Rightarrow> time \<Rightarrow> ('w, unit) act" where
  "syncChangedRecords dir since =
    sq (wrap ''sync registries'' (syncRegistries (dSourceRepo dir) (dTargetRepo dir)))
      (bnd (wrap ''list changes'' (listChangedRecords (dSourceRepo dir) since)) (\<lambda>records.
        each (syncOneRecord dir) records))"

section \<open>One pass over the chats\<close>

record chatRawSyncReport =
  MissingLocal :: "string list"
  MissingCloud :: "string list"

definition loadChatSession :: "'w Repository \<Rightarrow> string \<Rightarrow> ('w, ChatSession option) act" where
  "loadChatSession repo i =
    bnd (attempt (GetChatSessionByID repo i)) (\<lambda>r.
      case r of
        Inl e \<Rightarrow> if err_is e ErrNotFound then ret None else fail e
      | Inr session \<Rightarrow> ret (Some session))"

definition loadChatSessionBySource :: "'w Repository \<Rightarrow> string \<Rightarrow> string \<Rightarrow> ('w, ChatSession option) act" where
  "loadChatSessionBySource repo source sourceSessionID =
    bnd (attempt (GetChatSessionBySource repo source sourceSessionID)) (\<lambda>r.
      case r of
        Inl e \<Rightarrow> if err_is e ErrNotFound then ret None else fail e
      | Inr session \<Rightarrow> ret (Some session))"

text \<open>The chat comparison builds a record with the three fields that matter, all others zero.\<close>

definition chat_as_record :: "ChatSession \<Rightarrow> Record" where
  "chat_as_record c =
    \<lparr> rID = csID c, rUserID = [], rDate = [], rDayOrder = [], rHTMLContent = None, rNotes = None,
      rProjectID = [], rSourceDeviceID = [], rSourceRef = None, rGitRemoteURL = None, rGitHash = None,
      rCreatedAt = 0, rUpdatedAt = csUpdatedAt c, rDeletedAt = csDeletedAt c \<rparr>"

definition resolveChatWinnerForDirection :: "ChatSession \<Rightarrow> ChatSession \<Rightarrow> Winner \<Rightarrow> error + Winner" where
  "resolveChatWinnerForDirection source target winningSide =
    (let l = (if winningSide = WinnerCloud then target else source);
         c = (if winningSide = WinnerCloud then source else target) in
     case ResolveRecordWinner (Some (chat_as_record l)) (Some (chat_as_record c)) of
       Inl e \<Rightarrow> Inl e
     | Inr OutcomeLocal \<Rightarrow> Inr WinnerLocal
     | Inr OutcomeRemote \<Rightarrow> Inr WinnerCloud
     | Inr OutcomeEqual \<Rightarrow> Inr WinnerNone)"

definition transferChatRawSource ::
  "('w, 'l) Service \<Rightarrow> string \<Rightarrow> ChatSession \<Rightarrow> chatRawSyncReport \<Rightarrow> ('w, chatRawSyncReport) act" where
  "transferChatRawSource s name session report =
    (case csRawSourceKey session of
       None \<Rightarrow> ret report
     | Some key \<Rightarrow>
         bnd (wrap ''chat raw source path''
               (lift_result (ResolveChatSourcePath (sLocalFS s) (csID session) key))) (\<lambda>localPath.
         if name = ''push'' then
           bnd (wrap ''upload chat raw source'' (uploadChatSourceIfPresent s key localPath)) (\<lambda>uploaded.
             ret (if uploaded then report
                  else report \<lparr> MissingLocal := MissingLocal report @ [csID session] \<rparr>))
         else if name = ''pull'' then
           bnd (attempt (downloadChatSourceIfPresent s key localPath)) (\<lambda>r.
             case r of
               Inl e \<Rightarrow>
                 if err_is e errObjectNotFound
                 then ret (report \<lparr> MissingCloud := MissingCloud report @ [csID session] \<rparr>)
                 else fail (Wrapped ''download chat raw source'' e)
             | Inr _ \<Rightarrow> ret report)
         else ret report))"

definition upsert_input_of :: "ChatSession \<Rightarrow> UpsertChatSessionInput" where
  "upsert_input_of c =
    \<lparr> icID = csID c, icSource = csSource c, icSourceSessionID = csSourceSessionID c,
      icParentSourceSessionID = csParentSourceSessionID c, icSourceDeviceID = csSourceDeviceID c,
      icProjectID = csProjectID c, icCWD = csCWD c, icTitle = csTitle c, icStartedAt = csStartedAt c,
      icLastActivityAt = csLastActivityAt c, icOriginalSourcePath = csOriginalSourcePath c,
      icRawSourceKey = csRawSourceKey c, icCreatedAt = Some (csCreatedAt c),
      icUpdatedAt = Some (csUpdatedAt c), icDeletedAt = csDeletedAt c,
      icClearDeleted = (csDeletedAt c = None) \<rparr>"

definition item_input_of :: "string \<Rightarrow> ChatItem \<Rightarrow> CreateChatItemInput" where
  "item_input_of sessionID i =
    \<lparr> iiSessionID = sessionID, iiOrdinal = ciOrdinal i, iiRole = ciRole i, iiItemType = ciItemType i,
      iiText = ciText i, iiSearchText = ciSearchText i, iiRawJSON = ciRawJSON i,
      iiCreatedAt = Some (ciCreatedAt i) \<rparr>"

text \<open>Copying one session with its items to the target, after the comparison decided to.\<close>

definition copyChat ::
  "'w Repository \<Rightarrow> 'w Repository \<Rightarrow> ChatSession \<Rightarrow> ('w, unit) act" where
  "copyChat source target session =
    bnd (wrap ''list chat items'' (ListChatItems source (csID session))) (\<lambda>items.
      sq (wrap ''upsert chat session/items''
           (UpsertChatSessionWithItems target (upsert_input_of session)
             (List.map (item_input_of (csID session)) items)))
         (ret ()))"

type_synonym 'w raw_transfer =
  "string \<Rightarrow> ChatSession \<Rightarrow> chatRawSyncReport \<Rightarrow> ('w, chatRawSyncReport) act"

text \<open>The body of the loop of \<open>syncChangedChatsDirected\<close>; \<open>None\<close> is a nil transfer hook.\<close>

definition syncOneChat ::
  "('w, unit) act \<Rightarrow> string \<Rightarrow> 'w Repository \<Rightarrow> 'w Repository \<Rightarrow> Winner \<Rightarrow> 'w raw_transfer option \<Rightarrow>
   ChatSession \<Rightarrow> chatRawSyncReport \<Rightarrow> ('w, chatRawSyncReport) act" where
  "syncOneChat ctxErr name source target winningSide rawTransfer session report =
    sq ctxErr
    (bnd (wrap ''load target chat session'' (loadChatSession target (csID session))) (\<lambda>targetSession.
    (bnd (wrap ''load target chat source''
           (loadChatSessionBySource target (csSource session) (csSourceSessionID session))) (\<lambda>targetSource.
    if targetSource \<noteq> None \<and> csID (the targetSource) \<noteq> csID session then
      fail (Plain ''chat source already exists with another id'')
    else
    let pulling = (winningSide = WinnerCloud);
        shouldTransferRaw = (rawTransfer \<noteq> None \<and> csRawSourceKey session \<noteq> None \<and> csDeletedAt session = None);
        transfer = (\<lambda>rep. the rawTransfer name session rep);
        copy =
          bnd (if shouldTransferRaw \<and> \<not> pulling then transfer report else ret report) (\<lambda>report1.
          sq (copyChat source target session)
             (if shouldTransferRaw \<and> pulling then transfer report1 else ret report1))
    in case targetSession of
         None \<Rightarrow> copy
       | Some targetCopy \<Rightarrow>
           bnd (wrap ''resolve chat session''
                 (lift_result (resolveChatWinnerForDirection session targetCopy winningSide))) (\<lambda>winner.
           if winner \<noteq> winningSide then
             (if winner = WinnerNone \<and> pulling \<and> shouldTransferRaw then transfer report else ret report)
           else copy)))))"

definition syncChangedChatsDirected ::
  "('w, unit) act \<Rightarrow> (nat \<Rightarrow> string \<Rightarrow> ('w, unit) act) \<Rightarrow> time \<Rightarrow> string \<Rightarrow> 'w Repository \<Rightarrow> 'w Repository \<Rightarrow>
   Winner \<Rightarrow> 'w raw_transfer option \<Rightarrow> ('w, unit) act" where
  "syncChangedChatsDirected ctxErr warn since name source target winningSide rawTransfer =
    bnd (wrap ''list chat changes''
          (ListChatSessions source (zero_chats_filter \<lparr> lcIncludeDeleted := True, lcUpdatedAfter := Some since \<rparr>)))
      (\<lambda>sessions.
    bnd (each_acc (syncOneChat ctxErr name source target winningSide rawTransfer) sessions
          \<lparr> MissingLocal = [], MissingCloud = [] \<rparr>) (\<lambda>report.
    sq (if MissingLocal report \<noteq> [] then
          wrap ''write local chat raw source warning''
            (warn (length (MissingLocal report)) ''raw chat source files missing locally'')
        else ret ())
       (if MissingCloud report \<noteq> [] then
          wrap ''write cloud chat raw source warning''
            (warn (length (MissingCloud report)) ''raw chat source objects missing in cloud'')
        else ret ())))"

definition syncChangedChats ::
  "('w, unit) act \<Rightarrow> (nat \<Rightarrow> string \<Rightarrow> ('w, unit) act) \<Rightarrow> time \<Rightarrow> string \<Rightarrow> 'w Repository \<Rightarrow> 'w Repository \<Rightarrow>
   'w raw_transfer option \<Rightarrow> ('w, unit) act" where
  "syncChangedChats ctxErr warn since name source target rawTransfer =
    syncChangedChatsDirected ctxErr warn since name source target WinnerLocal rawTransfer"

section \<open>The whole cycle\<close>

definition push_direction :: "('w, 'l) Service \<Rightarrow> 'w syncDirection" where
  "push_direction s =
    \<lparr> dName = ''push'', dSourceRepo = sLocalRepo s, dTargetRepo = sCloudRepo s, dWinningSide = WinnerLocal,
      dApply = applyBundleToCloud s \<rparr>"

definition pull_direction :: "('w, 'l) Service \<Rightarrow> 'w syncDirection" where
  "pull_direction s =
    \<lparr> dName = ''pull'', dSourceRepo = sCloudRepo s, dTargetRepo = sLocalRepo s, dWinningSide = WinnerCloud,
      dApply = applyBundleToLocal s \<rparr>"

definition pushChangedRecords :: "('w, 'l) Service \<Rightarrow> time \<Rightarrow> ('w, unit) act" where
  "pushChangedRecords s since = syncChangedRecords (push_direction s) since"

definition pullChangedRecords :: "('w, 'l) Service \<Rightarrow> time \<Rightarrow> ('w, unit) act" where
  "pullChangedRecords s since = syncChangedRecords (pull_direction s) since"

definition pushChangedChats :: "('w, 'l) Service \<Rightarrow> time \<Rightarrow> ('w, unit) act" where
  "pushChangedChats s since =
    syncChangedChatsDirected (sCtxErr s) (sWarn s) since ''push'' (sLocalRepo s) (sCloudRepo s) WinnerLocal
      (Some (transferChatRawSource s))"

definition pullChangedChats :: "('w, 'l) Service \<Rightarrow> time \<Rightarrow> ('w, unit) act" where
  "pullChangedChats s since =
    syncChangedChatsDirected (sCtxErr s) (sWarn s) since ''pull'' (sCloudRepo s) (sLocalRepo s) WinnerCloud
      (Some (transferChatRawSource s))"

definition updateCloudVersion :: "('w, 'l) Service \<Rightarrow> ('w, unit) act" where
  "updateCloudVersion s =
    bnd (wrap ''get cloud sync version'' (GetSyncVersion (sCloudRepo s))) (\<lambda>version.
      wrap ''update cloud sync version object''
        (UpdateVersion (sCloudObjects s) (svVersion version) (FormatUTCMillis (svUpdatedAt version))))"

text \<open>The stages of \<open>Sync\<close> before \<open>Complete\<close>.\<close>

definition syncStages :: "('w, 'l) Service \<Rightarrow> time \<Rightarrow> ('w, unit) act" where
  "syncStages s since =
    sq (pushChangedRecords s since)
    (sq (pushChangedChats s since)
    (sq (pullChangedRecords s since)
    (sq (pullChangedChats s since)
        (updateCloudVersion s))))"

definition Sync :: "('w, 'l) Service \<Rightarrow> ('w, unit) act" where
  "Sync s =
    bnd (Begin (sSession s)) (\<lambda>(window, lock).
      finally_joining (ReleaseLock (sSession s) lock)
        (sq (syncStages s (LastSync window)) (Complete (sSession s) window)))"

end
