(* ===== verification/Sync_Frame.thy ===== *)
theory Sync_Frame
  imports Sync_Service
begin

text \<open>What a whole sync cycle preserves. The parts of the service promise to keep an invariant \<open>I\<close> of
  the world; then so does every function of \<open>sync/service.go\<close>, on every path, error paths and
  deferred cleanups included. The locales are the contracts between the service and its parts.\<close>

section \<open>What the parts promise\<close>

definition repository_keeps :: "('w \<Rightarrow> bool) \<Rightarrow> 'w Repository \<Rightarrow> bool" where
  "repository_keeps I R =
    ((\<forall>x. keeps I (CreateRecord R x)) \<and> (\<forall>x. keeps I (GetRecordByID R x)) \<and> (\<forall>x. keeps I (UpdateRecord R x)) \<and>
     (\<forall>x. keeps I (ListRecords R x)) \<and> (\<forall>x. keeps I (CreateRecordFigure R x)) \<and>
     (\<forall>x. keeps I (UpdateRecordFigure R x)) \<and> (\<forall>x. keeps I (ListRecordFiguresByRecordID R x)) \<and>
     (\<forall>x. keeps I (DeleteRecordFigure R x)) \<and> (\<forall>x. keeps I (CreateRecordDataFile R x)) \<and>
     (\<forall>x. keeps I (UpdateRecordDataFile R x)) \<and> (\<forall>x. keeps I (ListRecordDataFilesByRecordID R x)) \<and>
     (\<forall>x. keeps I (DeleteRecordDataFile R x)) \<and> keeps I (GetSyncVersion R) \<and> (\<forall>x. keeps I (ListProjects R x)) \<and>
     (\<forall>x. keeps I (UpsertProjectForImport R x)) \<and> (\<forall>x. keeps I (ListProjectPaths R x)) \<and>
     (\<forall>x. keeps I (UpsertProjectPath R x)) \<and> (\<forall>x. keeps I (ListDevices R x)) \<and>
     (\<forall>x. keeps I (UpsertDeviceForImport R x)) \<and> (\<forall>x y. keeps I (UpsertChatSessionWithItems R x y)) \<and>
     (\<forall>x. keeps I (GetChatSessionByID R x)) \<and> (\<forall>x y. keeps I (GetChatSessionBySource R x y)) \<and>
     (\<forall>x. keeps I (ListChatSessions R x)) \<and> (\<forall>x. keeps I (ListChatItems R x)))"

definition os_keeps :: "('w \<Rightarrow> bool) \<Rightarrow> 'w OS \<Rightarrow> bool" where
  "os_keeps I F =
    ((\<forall>x. keeps I (osStat F x)) \<and> (\<forall>x. keeps I (osOpen F x)) \<and> (\<forall>x y. keeps I (osMkdirAll F x y)) \<and>
     (\<forall>x y. keeps I (osCreateTemp F x y)) \<and> (\<forall>x y. keeps I (osChmod F x y)) \<and> (\<forall>x y. keeps I (osWrite F x y)) \<and>
     (\<forall>x. keeps I (osSync F x)) \<and> (\<forall>x. keeps I (osClose F x)) \<and> (\<forall>x y. keeps I (osRename F x y)) \<and>
     (\<forall>x. keeps I (osRemove F x)))"

definition objects_keep :: "('w \<Rightarrow> bool) \<Rightarrow> 'w ObjectStore \<Rightarrow> bool" where
  "objects_keep I S =
    ((\<forall>x y. keeps I (Upload S x y)) \<and> (\<forall>x. keeps I (Download S x)) \<and> (\<forall>x. keeps I (DeleteObject S x)) \<and>
     (\<forall>x y. keeps I (UpdateVersion S x y)))"

definition session_keeps :: "('w \<Rightarrow> bool) \<Rightarrow> ('w, 'l) SessionManager \<Rightarrow> bool" where
  "session_keeps I M = (keeps I (Begin M) \<and> (\<forall>x. keeps I (Complete M x)) \<and> (\<forall>x. keeps I (ReleaseLock M x)))"

lemma repository_calls:
  assumes "repository_keeps I R"
  shows "keeps I (CreateRecord R a)" "keeps I (GetRecordByID R i)" "keeps I (UpdateRecord R b)"
    "keeps I (ListRecords R c)" "keeps I (CreateRecordFigure R d)" "keeps I (UpdateRecordFigure R e)"
    "keeps I (ListRecordFiguresByRecordID R i)" "keeps I (DeleteRecordFigure R n)"
    "keeps I (CreateRecordDataFile R f)" "keeps I (UpdateRecordDataFile R g)"
    "keeps I (ListRecordDataFilesByRecordID R i)" "keeps I (DeleteRecordDataFile R n)"
    "keeps I (GetSyncVersion R)" "keeps I (ListProjects R t)" "keeps I (UpsertProjectForImport R p)"
    "keeps I (ListProjectPaths R j)" "keeps I (UpsertProjectPath R h)" "keeps I (ListDevices R t)"
    "keeps I (UpsertDeviceForImport R p)" "keeps I (UpsertChatSessionWithItems R k l)"
    "keeps I (GetChatSessionByID R i)" "keeps I (GetChatSessionBySource R i i')"
    "keeps I (ListChatSessions R m)" "keeps I (ListChatItems R i)"
  using assms unfolding repository_keeps_def by - (elim conjE, fast)+

section \<open>The stages\<close>

locale sync_frame =
  fixes I :: "'w \<Rightarrow> bool" and s :: "('w, 'l) Service"
  assumes local_keeps: "repository_keeps I (sLocalRepo s)"
    and cloud_keeps: "repository_keeps I (sCloudRepo s)"
    and files_keep: "os_keeps I (sOS s)"
    and objects_keep: "objects_keep I (sCloudObjects s)"
    and warn_keeps: "keeps I (sWarn s n msg)"
    and ctx_keeps: "keeps I (sCtxErr s)"
begin

lemmas os = files_keep [unfolded os_keeps_def]
lemmas obj = objects_keep [unfolded objects_keep_def]

lemma os_calls [keep_intros]:
  "keeps I (osStat (sOS s) p)" "keeps I (osOpen (sOS s) p)" "keeps I (osMkdirAll (sOS s) p n)"
  "keeps I (osCreateTemp (sOS s) p p')" "keeps I (osChmod (sOS s) p n)" "keeps I (osWrite (sOS s) p p')"
  "keeps I (osSync (sOS s) p)" "keeps I (osClose (sOS s) p)" "keeps I (osRename (sOS s) p p')"
  "keeps I (osRemove (sOS s) p)"
  using os by auto

lemma object_calls [keep_intros]:
  "keeps I (Upload (sCloudObjects s) k b)" "keeps I (Download (sCloudObjects s) k)"
  "keeps I (DeleteObject (sCloudObjects s) k)" "keeps I (UpdateVersion (sCloudObjects s) v t)"
  using obj by (cases b; auto)+

lemma write_reader [keep_intros]: "keeps I (writeReaderToPathWithPerm (sOS s) path body perm)"
  unfolding writeReaderToPathWithPerm_def or_close_def copy_body_def Let_def by (intro keep_intros)

lemma file_calls [keep_intros]:
  "keeps I (writeReaderToPath (sOS s) path body)" "keeps I (removeFileIfPresent (sOS s) path)"
  "keeps I (uploadFile s key path)" "keeps I (downloadChatSourceIfPresent s key path)"
  unfolding writeReaderToPath_def removeFileIfPresent_def uploadFile_def downloadChatSourceIfPresent_def
  by (intro keep_intros)+

lemma stat_upload [keep_intros]: "keeps I (stat_then_upload msg s key path)"
  unfolding stat_then_upload_def by (intro keep_intros)

lemma transfers [keep_intros]:
  "keeps I (uploadDataFileIfPresent s key path)" "keeps I (uploadChatSourceIfPresent s key path)"
  "keeps I (downloadFile s key path)" "keeps I (removeLocalFigureFileIfPresent s i name)"
  "keeps I (removeLocalDataFileIfPresent s i name)"
  unfolding uploadDataFileIfPresent_def uploadChatSourceIfPresent_def downloadFile_def
    removeLocalFigureFileIfPresent_def removeLocalDataFileIfPresent_def
  by (intro keep_intros)+

lemmas local_calls [keep_intros] = repository_calls [OF local_keeps]
lemmas cloud_calls [keep_intros] = repository_calls [OF cloud_keeps]

lemmas hook_calls [keep_intros] = warn_keeps ctx_keeps

lemma apply_to_cloud [keep_intros]: "keeps I (applyBundleToCloud s desired existing)"
  unfolding applyBundleToCloud_def applyRecord_def applyFiguresToCloud_def applyDataFilesToCloud_def
    uploadDesiredFigureFiles_def Let_def
  by (intro keep_intros)

lemma apply_to_local [keep_intros]: "keeps I (applyBundleToLocal s desired existing)"
  unfolding applyBundleToLocal_def applyRecord_def applyFiguresToLocal_def applyDataFilesToLocal_def
    downloadDesiredFigureFiles_def Let_def
  by (intro keep_intros)

text \<open>One direction, for any pair of repositories and any way to apply a bundle that keep \<open>I\<close>.\<close>

lemma one_direction:
  assumes "repository_keeps I (dSourceRepo dir)" "repository_keeps I (dTargetRepo dir)"
    and "\<And>b e. keeps I (dApply dir b e)"
  shows "keeps I (syncChangedRecords dir since)"
proof -
  note rules = keep_intros repository_calls [OF assms(1)] repository_calls [OF assms(2)] assms(3)
  show ?thesis
    unfolding syncChangedRecords_def syncRegistries_def listChangedRecords_def syncOneRecord_def
      bundleForRecord_def loadBundle_def Let_def
    by (intro rules)
qed

lemma raw_transfer [keep_intros]: "keeps I (transferChatRawSource s name session report)"
  unfolding transferChatRawSource_def by (intro keep_intros)

lemma one_chat_direction:
  assumes "repository_keeps I source" "repository_keeps I target"
  shows "keeps I (syncChangedChatsDirected (sCtxErr s) (sWarn s) since name source target side
                    (Some (transferChatRawSource s)))"
proof -
  note rules = keep_intros repository_calls [OF assms(1)] repository_calls [OF assms(2)]
  show ?thesis
    unfolding syncChangedChatsDirected_def syncOneChat_def loadChatSession_def loadChatSessionBySource_def
      copyChat_def Let_def option.sel
    by (intro rules)
qed

lemma stages_keep: "keeps I (syncStages s since)"
  unfolding syncStages_def pushChangedRecords_def pushChangedChats_def pullChangedRecords_def
    pullChangedChats_def updateCloudVersion_def
  by (intro keep_intros one_direction one_chat_direction)
    (auto simp: push_direction_def pull_direction_def intro: local_keeps cloud_keeps keep_intros)

end

section \<open>The cycle\<close>

locale sync_cycle = sync_frame +
  assumes session_keeps: "session_keeps I (sSession s)"
begin

lemma sync_keeps: "keeps I (Sync s)"
  unfolding Sync_def using session_keeps
  by (intro keep_intros stages_keep) (auto simp: session_keeps_def)

end

end
