(* ===== verification/Sqlite_Db.thy ===== *)
theory Sqlite_Db
  imports Interfaces "HOL-Library.Product_Lexorder"
begin

text \<open>The local database (\<open>cli/internal/sqlite/sqlite_schema.sql\<close>) as the SQL statements of the SQLite
  repository see it: tables as lists of rows, CHECK, UNIQUE and FOREIGN KEY constraints, AUTOINCREMENT
  counters, cascades, and the triggers that bump \<open>sync_version\<close> and refresh \<open>updated_at\<close>. A stored
  timestamp is a millisecond instant. A statement reads the clock once (SQLite's \<open>now\<close> is fixed
  within a statement), is atomic, and may be hit by an injected failure. Ranking by the FTS5 engine
  is the parameter \<open>dbFts\<close> of the database.\<close>

record Db =
  dbRecords :: "Record list"
  dbFigures :: "RecordFigure list"
  dbDataFiles :: "RecordDataFile list"
  dbTemplates :: "Template list"
  dbProjects :: "Registry list"
  dbDevices :: "Registry list"
  dbPaths :: "ProjectPath list"
  dbChats :: "ChatSession list"
  dbItems :: "ChatItem list"
  dbFigureSeq :: int
  dbDataFileSeq :: int
  dbPathSeq :: int
  dbItemSeq :: int
  dbVersion :: int
  dbVersionAt :: time
  dbTick :: nat
  dbClock :: "nat \<Rightarrow> time"
  dbFault :: "nat \<Rightarrow> string option"
  dbFts :: "string \<Rightarrow> string list \<Rightarrow> string \<Rightarrow> int option" \<comment> \<open>query, corpus, text: rank of a match\<close>

section \<open>Statements and transactions\<close>

definition statement :: "(time \<Rightarrow> Db \<Rightarrow> error + ('a \<times> Db)) \<Rightarrow> (Db, 'a) act" where
  "statement f db =
    (let db' = db \<lparr> dbTick := Suc (dbTick db) \<rparr> in
     case dbFault db (dbTick db) of
       Some msg \<Rightarrow> (Inl (IOError msg), db')
     | None \<Rightarrow>
         (case f (truncateToMillisecond (dbClock db (dbTick db))) db' of
            Inl e \<Rightarrow> (Inl e, db')
          | Inr (a, db'') \<Rightarrow> (Inr a, db'')))"

definition query :: "(Db \<Rightarrow> 'a) \<Rightarrow> (Db, 'a) act" where
  "query f = statement (\<lambda>_ db. Inr (f db, db))"

text \<open>A transaction: an error, or a failing COMMIT, leaves the tables as BEGIN found them. Only the
  tick, which is not part of the database, moves on.\<close>

definition rolled_back :: "Db \<Rightarrow> Db \<Rightarrow> Db" where
  "rolled_back before now = before \<lparr> dbTick := dbTick now \<rparr>"

definition transaction :: "(Db, 'a) act \<Rightarrow> (Db, 'a) act" where
  "transaction m db =
    (case sq (query (\<lambda>_. ())) (bnd m (\<lambda>a. sq (query (\<lambda>_. ())) (ret a))) db of
       (Inl e, db') \<Rightarrow> (Inl e, rolled_back db db')
     | (Inr a, db') \<Rightarrow> (Inr a, db'))"

text \<open>The errors \<open>mapSQLiteError\<close> makes of constraint failures.\<close>

definition conflict :: error where
  "conflict = Wrapped ''UNIQUE constraint failed'' ErrConflict"

definition fk_violation :: error where
  "fk_violation = Wrapped ''FOREIGN KEY constraint failed'' ErrForeignKeyViolation"

definition check_failed :: error where
  "check_failed = Plain ''CHECK constraint failed''"

section \<open>CHECK constraints\<close>

definition is_digit :: "char \<Rightarrow> bool" where
  "is_digit c = (CHR ''0'' \<le> c \<and> c \<le> CHR ''9'')"

definition is_lower_hex :: "char \<Rightarrow> bool" where
  "is_lower_hex c = (is_digit c \<or> (CHR ''a'' \<le> c \<and> c \<le> CHR ''f''))"

text \<open>Eight digits, a dash, eight lower-case hexadecimal digits.\<close>

definition id_shape :: "string \<Rightarrow> bool" where
  "id_shape s = (length s = 17 \<and> list_all is_digit (take 8 s) \<and> s ! 8 = CHR ''-'' \<and>
                 list_all is_lower_hex (drop 9 s))"

definition date_shape :: "string \<Rightarrow> bool" where
  "date_shape s =
    (length s = 10 \<and> list_all is_digit (take 4 s) \<and> s ! 4 = CHR ''-'' \<and>
     s ! 5 \<in> {CHR ''0'', CHR ''1''} \<and> is_digit (s ! 6) \<and> s ! 7 = CHR ''-'' \<and>
     s ! 8 \<in> {CHR ''0'', CHR ''1'', CHR ''2'', CHR ''3''} \<and> is_digit (s ! 9))"

definition record_checks :: "Record \<Rightarrow> bool" where
  "record_checks r =
    (id_shape (rID r) \<and> date_shape (rDate r) \<and>
     (case rGitHash r of None \<Rightarrow> True | Some h \<Rightarrow> length h = 40 \<and> list_all is_lower_hex h))"

definition filename_check :: "string \<Rightarrow> bool" where
  "filename_check f = (f \<noteq> [] \<and> CHR ''/'' \<notin> set f)"

definition figure_checks :: "RecordFigure \<Rightarrow> bool" where
  "figure_checks f = (filename_check (fgFilename f) \<and> prefix ''figures/'' (fgS3Key f))"

definition data_file_checks :: "RecordDataFile \<Rightarrow> bool" where
  "data_file_checks f =
    (filename_check (dfFilename f) \<and> prefix ''data/'' (dfS3Key f) \<and> 0 \<le> dfSize f \<and>
     length (dfHash f) = 64 \<and> list_all is_lower_hex (dfHash f))"

definition raw_key_check :: "string \<Rightarrow> string \<Rightarrow> bool" where
  "raw_key_check i k =
    (k \<in> {''chats/raw/'' @ i @ ''/source.json'', ''chats/raw/'' @ i @ ''/source.jsonl'',
          ''chats/raw/'' @ i @ ''/source.ndjson''})"

definition chat_checks :: "ChatSession \<Rightarrow> bool" where
  "chat_checks c =
    (id_shape (csID c) \<and> csSource c \<noteq> [] \<and> csSourceSessionID c \<noteq> [] \<and>
     (case csRawSourceKey c of None \<Rightarrow> True | Some k \<Rightarrow> raw_key_check (csID c) k))"

definition item_checks :: "ChatItem \<Rightarrow> bool" where
  "item_checks i = (0 \<le> ciOrdinal i \<and> ciRole i \<noteq> [] \<and> ciItemType i \<noteq> [])"

section \<open>Sync version\<close>

text \<open>The \<open>*_sync_bump_*\<close> triggers.\<close>

definition bump :: "time \<Rightarrow> Db \<Rightarrow> Db" where
  "bump now db = db \<lparr> dbVersion := dbVersion db + 1, dbVersionAt := now \<rparr>"

definition bump_if :: "bool \<Rightarrow> time \<Rightarrow> Db \<Rightarrow> Db" where
  "bump_if b now db = (if b then bump now db else db)"

fun bump_n :: "nat \<Rightarrow> time \<Rightarrow> Db \<Rightarrow> Db" where
  "bump_n 0 now db = db"
| "bump_n (Suc n) now db = bump_n n now (bump now db)"

section \<open>Records\<close>

definition project_ids :: "Db \<Rightarrow> string set" where
  "project_ids db = gID ` set (dbProjects db)"

definition device_ids :: "Db \<Rightarrow> string set" where
  "device_ids db = gID ` set (dbDevices db)"

definition record_ids :: "Db \<Rightarrow> string set" where
  "record_ids db = rID ` set (dbRecords db)"

definition chat_ids :: "Db \<Rightarrow> string set" where
  "chat_ids db = csID ` set (dbChats db)"

definition record_fks :: "Db \<Rightarrow> Record \<Rightarrow> bool" where
  "record_fks db r = (rProjectID r \<in> project_ids db \<and> rSourceDeviceID r \<in> device_ids db)"

text \<open>\<open>INSERT INTO records\<close>.\<close>

definition insert_record :: "Record \<Rightarrow> time \<Rightarrow> Db \<Rightarrow> error + (unit \<times> Db)" where
  "insert_record r now db =
    (if \<not> record_checks r then Inl check_failed
     else if rID r \<in> record_ids db then Inl conflict
     else if \<not> record_fks db r then Inl fk_violation
     else Inr ((), bump now (db \<lparr> dbRecords := dbRecords db @ [r] \<rparr>)))"

text \<open>What \<open>records_sync_bump_after_update\<close> compares.\<close>

definition record_payload_changed :: "Record \<Rightarrow> Record \<Rightarrow> bool" where
  "record_payload_changed old new =
    (rID old \<noteq> rID new \<or> rDate old \<noteq> rDate new \<or> rDayOrder old \<noteq> rDayOrder new \<or>
     rHTMLContent old \<noteq> rHTMLContent new \<or> rNotes old \<noteq> rNotes new \<or> rProjectID old \<noteq> rProjectID new \<or>
     rSourceDeviceID old \<noteq> rSourceDeviceID new \<or> rSourceRef old \<noteq> rSourceRef new \<or>
     rGitRemoteURL old \<noteq> rGitRemoteURL new \<or> rGitHash old \<noteq> rGitHash new \<or>
     rDeletedAt old \<noteq> rDeletedAt new)"

text \<open>\<open>records_auto_update_updated_at\<close>: an update that leaves \<open>updated_at\<close> alone sets it to now.\<close>

definition auto_updated_record :: "time \<Rightarrow> Record \<Rightarrow> Record \<Rightarrow> Record" where
  "auto_updated_record now old new =
    (if rUpdatedAt new = rUpdatedAt old then new \<lparr> rUpdatedAt := now \<rparr> else new)"

definition replace_row :: "('r \<Rightarrow> 'k) \<Rightarrow> 'k \<Rightarrow> 'r \<Rightarrow> 'r list \<Rightarrow> 'r list" where
  "replace_row key k new rows = List.map (\<lambda>r. if key r = k then new else r) rows"

definition lookup_row :: "('r \<Rightarrow> 'k) \<Rightarrow> 'k \<Rightarrow> 'r list \<Rightarrow> 'r option" where
  "lookup_row key k rows = List.find (\<lambda>r. key r = k) rows"

text \<open>\<open>UPDATE records SET ... WHERE id = ?\<close>: the number of rows affected. The primary key is not
  assigned, so \<open>f\<close> keeps it.\<close>

definition update_record :: "string \<Rightarrow> (time \<Rightarrow> Record \<Rightarrow> Record) \<Rightarrow> time \<Rightarrow> Db \<Rightarrow> error + (nat \<times> Db)" where
  "update_record i f now db =
    (case lookup_row rID i (dbRecords db) of
       None \<Rightarrow> Inr (0, db)
     | Some old \<Rightarrow>
         let new = f now old in
         if \<not> record_checks new then Inl check_failed
         else if \<not> record_fks db new then Inl fk_violation
         else Inr (1, bump_if (record_payload_changed old new) now
                (db \<lparr> dbRecords := replace_row rID i (auto_updated_record now old new) (dbRecords db) \<rparr>)))"

text \<open>\<open>DELETE FROM records\<close> of the given ids, with the cascade to both child tables.\<close>

definition delete_records :: "(Record \<Rightarrow> bool) \<Rightarrow> time \<Rightarrow> Db \<Rightarrow> error + (nat \<times> Db)" where
  "delete_records P now db =
    (let gone = filter P (dbRecords db);
         ids = rID ` set gone;
         figs = filter (\<lambda>f. fgRecordID f \<in> ids) (dbFigures db);
         files = filter (\<lambda>f. dfRecordID f \<in> ids) (dbDataFiles db) in
     Inr (length gone,
       bump_n (length gone + length figs + length files) now
         (db \<lparr> dbRecords := filter (\<lambda>r. \<not> P r) (dbRecords db),
               dbFigures := filter (\<lambda>f. fgRecordID f \<notin> ids) (dbFigures db),
               dbDataFiles := filter (\<lambda>f. dfRecordID f \<notin> ids) (dbDataFiles db) \<rparr>)))"

section \<open>Figures and data files\<close>

definition figure_unique :: "Db \<Rightarrow> int \<Rightarrow> RecordFigure \<Rightarrow> bool" where
  "figure_unique db except f =
    list_all (\<lambda>g. fgID g = except \<or> \<not> (fgRecordID g = fgRecordID f \<and> fgFilename g = fgFilename f)) (dbFigures db)"

definition insert_figure :: "CreateRecordFigureInput \<Rightarrow> time \<Rightarrow> Db \<Rightarrow> error + (int \<times> Db)" where
  "insert_figure c now db =
    (let i = dbFigureSeq db + 1;
         f = \<lparr> fgID = i, fgRecordID = cfRecordID c, fgFilename = cfFilename c, fgS3Key = cfS3Key c,
               fgAltText = cfAltText c, fgCreatedAt = now \<rparr> in
     if \<not> figure_checks f then Inl check_failed
     else if \<not> figure_unique db i f then Inl conflict
     else if fgRecordID f \<notin> record_ids db then Inl fk_violation
     else Inr (i, bump now (db \<lparr> dbFigures := dbFigures db @ [f], dbFigureSeq := i \<rparr>)))"

definition figure_changed :: "RecordFigure \<Rightarrow> RecordFigure \<Rightarrow> bool" where
  "figure_changed old new =
    (fgRecordID old \<noteq> fgRecordID new \<or> fgFilename old \<noteq> fgFilename new \<or> fgS3Key old \<noteq> fgS3Key new \<or>
     nullableStringValue (fgAltText old) \<noteq> nullableStringValue (fgAltText new))"

definition update_figure :: "int \<Rightarrow> (RecordFigure \<Rightarrow> RecordFigure) \<Rightarrow> time \<Rightarrow> Db \<Rightarrow> error + (nat \<times> Db)" where
  "update_figure i f now db =
    (case lookup_row fgID i (dbFigures db) of
       None \<Rightarrow> Inr (0, db)
     | Some old \<Rightarrow>
         let new = f old in
         if \<not> figure_checks new then Inl check_failed
         else if \<not> figure_unique db i new then Inl conflict
         else Inr (1, bump_if (figure_changed old new) now
                (db \<lparr> dbFigures := replace_row fgID i new (dbFigures db) \<rparr>)))"

definition delete_figures :: "(RecordFigure \<Rightarrow> bool) \<Rightarrow> time \<Rightarrow> Db \<Rightarrow> error + (nat \<times> Db)" where
  "delete_figures P now db =
    (let n = length (filter P (dbFigures db)) in
     Inr (n, bump_n n now (db \<lparr> dbFigures := filter (\<lambda>f. \<not> P f) (dbFigures db) \<rparr>)))"

definition data_file_unique :: "Db \<Rightarrow> int \<Rightarrow> RecordDataFile \<Rightarrow> bool" where
  "data_file_unique db except f =
    list_all (\<lambda>g. dfID g = except \<or> \<not> (dfRecordID g = dfRecordID f \<and> dfFilename g = dfFilename f)) (dbDataFiles db)"

definition insert_data_file :: "CreateRecordDataFileInput \<Rightarrow> time \<Rightarrow> Db \<Rightarrow> error + (int \<times> Db)" where
  "insert_data_file c now db =
    (let i = dbDataFileSeq db + 1;
         f = \<lparr> dfID = i, dfRecordID = cdRecordID c, dfFilename = cdFilename c, dfS3Key = cdS3Key c,
               dfSize = cdSize c, dfHash = cdHash c, dfDescription = cdDescription c, dfCreatedAt = now \<rparr> in
     if \<not> data_file_checks f then Inl check_failed
     else if \<not> data_file_unique db i f then Inl conflict
     else if dfRecordID f \<notin> record_ids db then Inl fk_violation
     else Inr (i, bump now (db \<lparr> dbDataFiles := dbDataFiles db @ [f], dbDataFileSeq := i \<rparr>)))"

definition data_file_changed :: "RecordDataFile \<Rightarrow> RecordDataFile \<Rightarrow> bool" where
  "data_file_changed old new =
    (dfRecordID old \<noteq> dfRecordID new \<or> dfFilename old \<noteq> dfFilename new \<or> dfS3Key old \<noteq> dfS3Key new \<or>
     dfSize old \<noteq> dfSize new \<or> dfHash old \<noteq> dfHash new \<or>
     nullableStringValue (dfDescription old) \<noteq> nullableStringValue (dfDescription new))"

definition update_data_file :: "int \<Rightarrow> (RecordDataFile \<Rightarrow> RecordDataFile) \<Rightarrow> time \<Rightarrow> Db \<Rightarrow> error + (nat \<times> Db)" where
  "update_data_file i f now db =
    (case lookup_row dfID i (dbDataFiles db) of
       None \<Rightarrow> Inr (0, db)
     | Some old \<Rightarrow>
         let new = f old in
         if \<not> data_file_checks new then Inl check_failed
         else if \<not> data_file_unique db i new then Inl conflict
         else Inr (1, bump_if (data_file_changed old new) now
                (db \<lparr> dbDataFiles := replace_row dfID i new (dbDataFiles db) \<rparr>)))"

definition delete_data_files :: "(RecordDataFile \<Rightarrow> bool) \<Rightarrow> time \<Rightarrow> Db \<Rightarrow> error + (nat \<times> Db)" where
  "delete_data_files P now db =
    (let n = length (filter P (dbDataFiles db)) in
     Inr (n, bump_n n now (db \<lparr> dbDataFiles := filter (\<lambda>f. \<not> P f) (dbDataFiles db) \<rparr>)))"

section \<open>Templates\<close>

definition insert_template :: "Template \<Rightarrow> time \<Rightarrow> Db \<Rightarrow> error + (unit \<times> Db)" where
  "insert_template t now db =
    (if tName t \<in> tName ` set (dbTemplates db) then Inl conflict
     else Inr ((), bump now (db \<lparr> dbTemplates := dbTemplates db @ [t] \<rparr>)))"

definition update_template :: "string \<Rightarrow> (Template \<Rightarrow> Template) \<Rightarrow> time \<Rightarrow> Db \<Rightarrow> error + (nat \<times> Db)" where
  "update_template name f now db =
    (case lookup_row tName name (dbTemplates db) of
       None \<Rightarrow> Inr (0, db)
     | Some old \<Rightarrow>
         let new = f old;
             stored = (if tUpdatedAt new = tUpdatedAt old then new \<lparr> tUpdatedAt := now \<rparr> else new);
             changed = (tHTMLContent old \<noteq> tHTMLContent new \<or>
                        nullableStringValue (tDescription old) \<noteq> nullableStringValue (tDescription new)) in
         Inr (1, bump_if changed now (db \<lparr> dbTemplates := replace_row tName name stored (dbTemplates db) \<rparr>)))"

definition delete_templates :: "string \<Rightarrow> time \<Rightarrow> Db \<Rightarrow> error + (nat \<times> Db)" where
  "delete_templates name now db =
    (let n = length (filter (\<lambda>t. tName t = name) (dbTemplates db)) in
     Inr (n, bump_n n now (db \<lparr> dbTemplates := filter (\<lambda>t. tName t \<noteq> name) (dbTemplates db) \<rparr>)))"

section \<open>Projects and devices\<close>

text \<open>The two registry tables have the same columns and the same triggers. An update that leaves
  \<open>updated_at\<close> alone is followed by the trigger's own update, which fires the bump trigger again when
  the clock has moved.\<close>

definition registry_changed :: "Registry \<Rightarrow> Registry \<Rightarrow> bool" where
  "registry_changed old new =
    (gCreatedAt old \<noteq> gCreatedAt new \<or> gUpdatedAt old \<noteq> gUpdatedAt new \<or> gArchivedAt old \<noteq> gArchivedAt new)"

definition auto_updated_registry :: "time \<Rightarrow> Registry \<Rightarrow> Registry \<Rightarrow> Registry" where
  "auto_updated_registry now old new =
    (if gUpdatedAt new = gUpdatedAt old then new \<lparr> gUpdatedAt := now \<rparr> else new)"

definition registry_bumps :: "time \<Rightarrow> Registry \<Rightarrow> Registry \<Rightarrow> nat" where
  "registry_bumps now old new =
    (if registry_changed old new then 1 else 0) +
    (if gUpdatedAt new = gUpdatedAt old \<and> now \<noteq> gUpdatedAt old then 1 else 0)"

definition insert_project :: "Registry \<Rightarrow> time \<Rightarrow> Db \<Rightarrow> error + (unit \<times> Db)" where
  "insert_project g now db =
    (if gID g = [] then Inl check_failed
     else if gID g \<in> project_ids db then Inl conflict
     else Inr ((), bump now (db \<lparr> dbProjects := dbProjects db @ [g] \<rparr>)))"

definition insert_device :: "Registry \<Rightarrow> time \<Rightarrow> Db \<Rightarrow> error + (unit \<times> Db)" where
  "insert_device g now db =
    (if gID g = [] then Inl check_failed
     else if gID g \<in> device_ids db then Inl conflict
     else Inr ((), bump now (db \<lparr> dbDevices := dbDevices db @ [g] \<rparr>)))"

definition update_project :: "string \<Rightarrow> (time \<Rightarrow> Registry \<Rightarrow> Registry) \<Rightarrow> time \<Rightarrow> Db \<Rightarrow> error + (nat \<times> Db)" where
  "update_project i f now db =
    (case lookup_row gID i (dbProjects db) of
       None \<Rightarrow> Inr (0, db)
     | Some old \<Rightarrow>
         let new = f now old in
         Inr (1, bump_n (registry_bumps now old new) now
           (db \<lparr> dbProjects := replace_row gID i (auto_updated_registry now old new) (dbProjects db) \<rparr>)))"

definition update_device :: "string \<Rightarrow> (time \<Rightarrow> Registry \<Rightarrow> Registry) \<Rightarrow> time \<Rightarrow> Db \<Rightarrow> error + (nat \<times> Db)" where
  "update_device i f now db =
    (case lookup_row gID i (dbDevices db) of
       None \<Rightarrow> Inr (0, db)
     | Some old \<Rightarrow>
         let new = f now old in
         Inr (1, bump_n (registry_bumps now old new) now
           (db \<lparr> dbDevices := replace_row gID i (auto_updated_registry now old new) (dbDevices db) \<rparr>)))"

section \<open>Project paths\<close>

text \<open>\<open>INSERT OR IGNORE\<close>: a duplicate is skipped, a foreign-key failure is not.\<close>

definition insert_path_or_ignore :: "ProjectPath \<Rightarrow> time \<Rightarrow> Db \<Rightarrow> error + (nat \<times> Db)" where
  "insert_path_or_ignore p now db =
    (if ppPath p = [] \<or>
        list_ex (\<lambda>q. ppProjectID q = ppProjectID p \<and> ppPath q = ppPath p \<and> ppDeviceID q = ppDeviceID p) (dbPaths db)
     then Inr (0, db)
     else if ppProjectID p \<notin> project_ids db \<or> ppDeviceID p \<notin> device_ids db then Inl fk_violation
     else let i = dbPathSeq db + 1 in
       Inr (1, bump now (db \<lparr> dbPaths := dbPaths db @ [p \<lparr> ppID := i \<rparr>], dbPathSeq := i \<rparr>)))"

section \<open>Chats\<close>

definition chat_fks :: "Db \<Rightarrow> ChatSession \<Rightarrow> bool" where
  "chat_fks db c =
    (csSourceDeviceID c \<in> device_ids db \<and>
     (case csProjectID c of None \<Rightarrow> True | Some p \<Rightarrow> p \<in> project_ids db))"

definition chat_changed :: "ChatSession \<Rightarrow> ChatSession \<Rightarrow> bool" where
  "chat_changed old new =
    (csID old \<noteq> csID new \<or> csSource old \<noteq> csSource new \<or> csSourceSessionID old \<noteq> csSourceSessionID new \<or>
     csParentSourceSessionID old \<noteq> csParentSourceSessionID new \<or> csSourceDeviceID old \<noteq> csSourceDeviceID new \<or>
     csProjectID old \<noteq> csProjectID new \<or> csCWD old \<noteq> csCWD new \<or> csTitle old \<noteq> csTitle new \<or>
     csStartedAt old \<noteq> csStartedAt new \<or> csLastActivityAt old \<noteq> csLastActivityAt new \<or>
     csOriginalSourcePath old \<noteq> csOriginalSourcePath new \<or> csRawSourceKey old \<noteq> csRawSourceKey new \<or>
     csDeletedAt old \<noteq> csDeletedAt new)"

definition auto_updated_chat :: "time \<Rightarrow> ChatSession \<Rightarrow> ChatSession \<Rightarrow> ChatSession" where
  "auto_updated_chat now old new =
    (if csUpdatedAt new = csUpdatedAt old then new \<lparr> csUpdatedAt := now \<rparr> else new)"

definition same_source :: "ChatSession \<Rightarrow> ChatSession \<Rightarrow> bool" where
  "same_source a b = (csSource a = csSource b \<and> csSourceSessionID a = csSourceSessionID b)"

text \<open>One row of an \<open>UPDATE chat_session\<close>, by primary key.\<close>

definition update_chat :: "string \<Rightarrow> (time \<Rightarrow> ChatSession \<Rightarrow> ChatSession) \<Rightarrow> time \<Rightarrow> Db \<Rightarrow> error + (nat \<times> Db)" where
  "update_chat i f now db =
    (case lookup_row csID i (dbChats db) of
       None \<Rightarrow> Inr (0, db)
     | Some old \<Rightarrow>
         let new = f now old in
         if \<not> chat_checks new then Inl check_failed
         else if \<not> chat_fks db new then Inl fk_violation
         else Inr (1, bump_if (chat_changed old new) now
                (db \<lparr> dbChats := replace_row csID i (auto_updated_chat now old new) (dbChats db) \<rparr>)))"

text \<open>\<open>INSERT INTO chat_session ... ON CONFLICT(source, source_session_id) DO UPDATE\<close>: \<open>excluded\<close> is the
  row that was to be inserted; the CHECK constraints are tested on it first. A conflict on the
  primary key alone is an error.\<close>

definition upsert_chat ::
  "ChatSession \<Rightarrow> (ChatSession \<Rightarrow> ChatSession) \<Rightarrow> time \<Rightarrow> Db \<Rightarrow> error + (unit \<times> Db)" where
  "upsert_chat excluded merge now db =
    (if \<not> chat_checks excluded then Inl check_failed
     else case List.find (same_source excluded) (dbChats db) of
       Some old \<Rightarrow>
         (case update_chat (csID old) (\<lambda>_. merge) now db of
            Inl e \<Rightarrow> Inl e
          | Inr (_, db') \<Rightarrow> Inr ((), db'))
     | None \<Rightarrow>
         if csID excluded \<in> chat_ids db then Inl conflict
         else if \<not> chat_fks db excluded then Inl fk_violation
         else Inr ((), bump now (db \<lparr> dbChats := dbChats db @ [excluded] \<rparr>)))"

definition delete_chats :: "string \<Rightarrow> time \<Rightarrow> Db \<Rightarrow> error + (nat \<times> Db)" where
  "delete_chats i now db =
    (let n = length (filter (\<lambda>c. csID c = i) (dbChats db));
         items = (if n = 0 then [] else filter (\<lambda>x. ciSessionID x = i) (dbItems db)) in
     Inr (n, bump_n (n + length items) now
       (db \<lparr> dbChats := filter (\<lambda>c. csID c \<noteq> i) (dbChats db),
             dbItems := (if n = 0 then dbItems db else filter (\<lambda>x. ciSessionID x \<noteq> i) (dbItems db)) \<rparr>)))"

definition insert_item :: "ChatItem \<Rightarrow> time \<Rightarrow> Db \<Rightarrow> error + (int \<times> Db)" where
  "insert_item it now db =
    (let i = dbItemSeq db + 1 in
     if \<not> item_checks it then Inl check_failed
     else if list_ex (\<lambda>x. ciSessionID x = ciSessionID it \<and> ciOrdinal x = ciOrdinal it) (dbItems db) then Inl conflict
     else if ciSessionID it \<notin> chat_ids db then Inl fk_violation
     else Inr (i, bump now (db \<lparr> dbItems := dbItems db @ [it \<lparr> ciID := i \<rparr>], dbItemSeq := i \<rparr>)))"

definition delete_items :: "string \<Rightarrow> time \<Rightarrow> Db \<Rightarrow> error + (nat \<times> Db)" where
  "delete_items sessionID now db =
    (let n = length (filter (\<lambda>x. ciSessionID x = sessionID) (dbItems db)) in
     Inr (n, bump_n n now (db \<lparr> dbItems := filter (\<lambda>x. ciSessionID x \<noteq> sessionID) (dbItems db) \<rparr>)))"

end
