(* ===== verification/Sqlite_Repo.thy ===== *)
theory Sqlite_Repo
  imports Sqlite_Db
begin

text \<open>\<open>repository/sqlite/repository.go\<close>: the SQLite repository on the database of \<open>Sqlite_Db\<close>, one
  definition per method. A method outside a transaction runs its statements one by one, so an error
  after a write keeps the write. Timestamps pass through \<open>FormatUTCMillis\<close>, which keeps the
  millisecond.\<close>

definition stored_time :: "time option \<Rightarrow> time option" where
  "stored_time t = map_option truncateToMillisecond t"

definition coalesce :: "'a option \<Rightarrow> 'a \<Rightarrow> 'a" where
  "coalesce x d = (case x of None \<Rightarrow> d | Some v \<Rightarrow> v)"

definition coalesce_opt :: "'a option \<Rightarrow> 'a option \<Rightarrow> 'a option" where
  "coalesce_opt x d = (case x of None \<Rightarrow> d | Some v \<Rightarrow> Some v)"

definition nonempty_or :: "string \<Rightarrow> string \<Rightarrow> string" where
  "nonempty_or s d = (if s = [] then d else s)" \<comment> \<open>\<open>COALESCE(NULLIF(?, ''), column)\<close>\<close>

definition found :: "(Db, 'a option) act \<Rightarrow> (Db, 'a) act" where
  "found m = bnd m (\<lambda>r. case r of None \<Rightarrow> fail ErrNotFound | Some x \<Rightarrow> ret x)"

definition ensureRowsAffected :: "nat \<Rightarrow> (Db, unit) act" where
  "ensureRowsAffected n = (if n = 0 then fail ErrNotFound else ret ())"

section \<open>Records\<close>

definition sqlite_GetRecordByID :: "string \<Rightarrow> (Db, Record) act" where
  "sqlite_GetRecordByID i =
    (if blank i then fail ErrInvalidArgument else found (query (\<lambda>db. lookup_row rID i (dbRecords db))))"

definition chatSessionIDExists :: "string \<Rightarrow> (Db, bool) act" where
  "chatSessionIDExists i = query (\<lambda>db. i \<in> chat_ids db)"

definition recordIDExists :: "string \<Rightarrow> (Db, bool) act" where
  "recordIDExists i = query (\<lambda>db. i \<in> record_ids db)"

definition default_day_order :: "string \<Rightarrow> string" where
  "default_day_order d = (if blank d then ''n'' else d)"

text \<open>The row an \<open>INSERT INTO records\<close> stores, with its two \<open>COALESCE(?, now)\<close>.\<close>

definition record_row :: "CreateRecordInput \<Rightarrow> time \<Rightarrow> Record" where
  "record_row c now =
    \<lparr> rID = crID c, rUserID = [], rDate = crDate c, rDayOrder = crDayOrder c,
      rHTMLContent = crHTMLContent c, rNotes = crNotes c, rProjectID = crProjectID c,
      rSourceDeviceID = crSourceDeviceID c, rSourceRef = crSourceRef c, rGitRemoteURL = crGitRemoteURL c,
      rGitHash = crGitHash c, rCreatedAt = coalesce (stored_time (crCreatedAt c)) now,
      rUpdatedAt = coalesce (stored_time (crUpdatedAt c)) now, rDeletedAt = stored_time (crDeletedAt c) \<rparr>"

definition sqlite_CreateRecord :: "CreateRecordInput \<Rightarrow> (Db, Record) act" where
  "sqlite_CreateRecord input =
    (if blank (crID input) \<or> blank (crDate input) \<or> blank (crProjectID input) \<or> blank (crSourceDeviceID input)
     then fail ErrInvalidArgument
     else
       let c = input \<lparr> crDayOrder := default_day_order (crDayOrder input) \<rparr> in
       bnd (chatSessionIDExists (crID c)) (\<lambda>exists.
       if exists then fail (Wrapped ''id already exists as chat session'' ErrConflict)
       else sq (statement (\<lambda>now. insert_record (record_row c now) now))
               (sqlite_GetRecordByID (crID c))))"

definition updated_record :: "UpdateRecordInput \<Rightarrow> Record \<Rightarrow> Record" where
  "updated_record u old =
    old \<lparr> rDate := urDate u, rDayOrder := urDayOrder u, rHTMLContent := urHTMLContent u,
          rNotes := urNotes u, rProjectID := urProjectID u, rSourceDeviceID := urSourceDeviceID u,
          rSourceRef := urSourceRef u, rGitRemoteURL := urGitRemoteURL u, rGitHash := urGitHash u,
          rUpdatedAt := coalesce (stored_time (urUpdatedAt u)) (rUpdatedAt old),
          rDeletedAt := (if urSetDeletedAt u then stored_time (urDeletedAt u) else rDeletedAt old) \<rparr>"

definition sqlite_UpdateRecord :: "UpdateRecordInput \<Rightarrow> (Db, Record) act" where
  "sqlite_UpdateRecord u =
    (if blank (urID u) \<or> blank (urDate u) \<or> blank (urDayOrder u) \<or> blank (urProjectID u) \<or> blank (urSourceDeviceID u)
     then fail ErrInvalidArgument
     else
       bnd (statement (update_record (urID u) (\<lambda>_. updated_record u))) (\<lambda>n.
       sq (ensureRowsAffected n) (sqlite_GetRecordByID (urID u))))"

text \<open>\<open>listRecordsPredicateSQL\<close>, without the full-text condition.\<close>

definition records_predicate :: "ListRecordsFilter \<Rightarrow> Db \<Rightarrow> Record \<Rightarrow> bool" where
  "records_predicate f db r =
    ((if lrOnlyDeleted f then rDeletedAt r \<noteq> None else lrIncludeDeleted f \<or> rDeletedAt r = None) \<and>
     (case lrProjectID f of None \<Rightarrow> True | Some p \<Rightarrow> rProjectID r = p) \<and>
     (case lrDateFrom f of None \<Rightarrow> True | Some d \<Rightarrow> d \<le> rDate r) \<and>
     (case lrDateTo f of None \<Rightarrow> True | Some d \<Rightarrow> rDate r \<le> d) \<and>
     (lrHasHTML f \<longrightarrow> rHTMLContent r \<noteq> None) \<and>
     (lrHasData f \<longrightarrow> list_ex (\<lambda>d. dfRecordID d = rID r) (dbDataFiles db)) \<and>
     (case lrUpdatedAfter f of None \<Rightarrow> True | Some t \<Rightarrow> truncateToMillisecond t \<le> rUpdatedAt r) \<and>
     (case lrUpdatedBefore f of None \<Rightarrow> True | Some t \<Rightarrow> rUpdatedAt r \<le> truncateToMillisecond t))"

text \<open>The indexed text of a record (\<open>records_fts_*\<close> triggers).\<close>

definition record_search_text :: "Record \<Rightarrow> string" where
  "record_search_text r = nullableStringValue (rNotes r) @ '' '' @ nullableStringValue (rHTMLContent r)"

definition record_rank :: "string \<Rightarrow> Db \<Rightarrow> Record \<Rightarrow> int option" where
  "record_rank q db r = dbFts db q (List.map record_search_text (dbRecords db)) (record_search_text r)"

definition limit_rows :: "int \<Rightarrow> 'a list \<Rightarrow> 'a list" where
  "limit_rows n xs = (if 0 < n then take (nat n) xs else xs)"

definition record_order :: "Record \<Rightarrow> string \<times> string \<times> string" where
  "record_order r = (rDate r, rDayOrder r, rID r)"

text \<open>\<open>sqliteFTSQuery\<close>: every white-space separated term quoted, inner quotes doubled.\<close>

definition double_quotes :: "string \<Rightarrow> string" where
  "double_quotes s = concat (List.map (\<lambda>c. if c = CHR 0x22 then [c, c] else [c]) s)"

fun join_with :: "string \<Rightarrow> string list \<Rightarrow> string" where
  "join_with sep [] = []"
| "join_with sep [x] = x"
| "join_with sep (x # y # ys) = x @ sep @ join_with sep (y # ys)"

definition sqliteFTSQuery :: "string \<Rightarrow> string" where
  "sqliteFTSQuery q =
    join_with '' '' (List.map (\<lambda>t. [CHR 0x22] @ double_quotes t @ [CHR 0x22]) (split_fields q))"

definition matching_records :: "ListRecordsFilter \<Rightarrow> Db \<Rightarrow> Record list" where
  "matching_records f db =
    (let rows = filter (records_predicate f db) (dbRecords db) in
     case lrQuery f of
       None \<Rightarrow> sort_key record_order rows
     | Some q \<Rightarrow>
         let rank = record_rank (sqliteFTSQuery q) db in
         sort_key (\<lambda>r. (the (rank r), record_order r)) (filter (\<lambda>r. rank r \<noteq> None) rows))"

definition query_blank :: "ListRecordsFilter \<Rightarrow> bool" where
  "query_blank f = (case lrQuery f of None \<Rightarrow> False | Some q \<Rightarrow> blank q)"

definition sqlite_ListRecords :: "ListRecordsFilter \<Rightarrow> (Db, Record list) act" where
  "sqlite_ListRecords f =
    (if lrLimit f < 0 \<or> query_blank f then fail ErrInvalidArgument
     else query (\<lambda>db. limit_rows (lrLimit f) (matching_records f db)))"

definition sqlite_CountRecords :: "ListRecordsFilter \<Rightarrow> (Db, nat) act" where
  "sqlite_CountRecords f =
    (if query_blank f then fail ErrInvalidArgument else query (\<lambda>db. length (matching_records f db)))"

definition sqlite_SoftDeleteRecord :: "string \<Rightarrow> (Db, unit) act" where
  "sqlite_SoftDeleteRecord i =
    (if blank i then fail ErrInvalidArgument
     else bnd (statement (update_record i (\<lambda>now r. r \<lparr> rDeletedAt := coalesce_opt (rDeletedAt r) (Some now) \<rparr>)))
       ensureRowsAffected)"

definition sqlite_RestoreRecord :: "string \<Rightarrow> (Db, unit) act" where
  "sqlite_RestoreRecord i =
    (if blank i then fail ErrInvalidArgument
     else bnd (statement (update_record i (\<lambda>_ r. r \<lparr> rDeletedAt := None \<rparr>))) ensureRowsAffected)"

definition sqlite_DeleteRecord :: "string \<Rightarrow> (Db, unit) act" where
  "sqlite_DeleteRecord i =
    (if blank i then fail ErrInvalidArgument
     else bnd (statement (delete_records (\<lambda>r. rID r = i))) ensureRowsAffected)"

definition sqlite_CountActiveRecords :: "(Db, nat) act" where
  "sqlite_CountActiveRecords = query (\<lambda>db. length (filter (\<lambda>r. rDeletedAt r = None) (dbRecords db)))"

definition sqlite_CountTrashedRecords :: "(Db, nat) act" where
  "sqlite_CountTrashedRecords = query (\<lambda>db. length (filter (\<lambda>r. rDeletedAt r \<noteq> None) (dbRecords db)))"

definition sqlite_PurgeDeletedRecords :: "(Db, string list) act" where
  "sqlite_PurgeDeletedRecords =
    bnd (query (\<lambda>db. List.map rID (filter (\<lambda>r. rDeletedAt r \<noteq> None) (dbRecords db)))) (\<lambda>ids.
      if ids = [] then ret ids
      else sq (statement (delete_records (\<lambda>r. rDeletedAt r \<noteq> None))) (ret ids))"

text \<open>\<open>CountRecordChildren\<close>: counts per record with at least one child, in chunks of 500 ids.\<close>

definition mergeChildCounts ::
  "(nat \<Rightarrow> ChildCounts \<Rightarrow> ChildCounts) \<Rightarrow> (Db \<Rightarrow> string \<Rightarrow> nat) \<Rightarrow> string list \<Rightarrow>
   (string \<rightharpoonup> ChildCounts) \<Rightarrow> (Db, string \<rightharpoonup> ChildCounts) act" where
  "mergeChildCounts put count ids counts =
    query (\<lambda>db.
      fold (\<lambda>i m. if count db i = 0 then m
                  else m(i \<mapsto> put (count db i) (coalesce (m i) \<lparr> ccFigures = 0, ccDataFiles = 0 \<rparr>)))
        (remdups ids) counts)"

definition figure_count :: "Db \<Rightarrow> string \<Rightarrow> nat" where
  "figure_count db i = length (filter (\<lambda>f. fgRecordID f = i) (dbFigures db))"

definition data_file_count :: "Db \<Rightarrow> string \<Rightarrow> nat" where
  "data_file_count db i = length (filter (\<lambda>f. dfRecordID f = i) (dbDataFiles db))"

definition sqliteCountChildrenChunkSize :: nat where
  "sqliteCountChildrenChunkSize = 500"

function count_chunks :: "string list \<Rightarrow> (string \<rightharpoonup> ChildCounts) \<Rightarrow> (Db, string \<rightharpoonup> ChildCounts) act" where
  "count_chunks ids counts =
    (if ids = [] then ret counts
     else
       let chunk = take sqliteCountChildrenChunkSize ids in
       bnd (mergeChildCounts (\<lambda>n c. c \<lparr> ccFigures := n \<rparr>) figure_count chunk counts) (\<lambda>counts1.
       bnd (mergeChildCounts (\<lambda>n c. c \<lparr> ccDataFiles := n \<rparr>) data_file_count chunk counts1) (\<lambda>counts2.
         count_chunks (drop sqliteCountChildrenChunkSize ids) counts2)))"
  by pat_completeness auto
termination
  by (relation "measure (\<lambda>(ids, _). length ids)") (auto simp: sqliteCountChildrenChunkSize_def)

declare count_chunks.simps [simp del]

definition sqlite_CountRecordChildren :: "string list \<Rightarrow> (Db, string \<rightharpoonup> ChildCounts) act" where
  "sqlite_CountRecordChildren ids =
    (if list_ex blank ids then fail ErrInvalidArgument else count_chunks ids Map.empty)"

section \<open>Replacing a record with its children\<close>

text \<open>\<open>replaceRecordRowTx\<close>: insert, or on a conflict of the primary key update the same columns.
  \<open>excluded\<close> is the row to insert; its \<open>updated_at\<close> is never NULL.\<close>

definition merged_record :: "bool \<Rightarrow> Record \<Rightarrow> Record \<Rightarrow> Record" where
  "merged_record setDeletedAt excluded old =
    old \<lparr> rDate := rDate excluded, rDayOrder := rDayOrder excluded, rHTMLContent := rHTMLContent excluded,
          rNotes := rNotes excluded, rProjectID := rProjectID excluded,
          rSourceDeviceID := rSourceDeviceID excluded, rSourceRef := rSourceRef excluded,
          rGitRemoteURL := rGitRemoteURL excluded, rGitHash := rGitHash excluded,
          rUpdatedAt := rUpdatedAt excluded,
          rDeletedAt := (if setDeletedAt then rDeletedAt excluded else rDeletedAt old) \<rparr>"

definition upsert_record :: "CreateRecordInput \<Rightarrow> bool \<Rightarrow> time \<Rightarrow> Db \<Rightarrow> error + (nat \<times> Db)" where
  "upsert_record c setDeletedAt now db =
    (let excluded = record_row c now in
     if \<not> record_checks excluded then Inl check_failed
     else if crID c \<in> record_ids db
     then update_record (crID c) (\<lambda>_. merged_record setDeletedAt excluded) now db
     else (case insert_record excluded now db of Inl e \<Rightarrow> Inl e | Inr (_, db') \<Rightarrow> Inr (1, db')))"

definition replaceRecordRowTx :: "CreateRecordInput \<Rightarrow> bool \<Rightarrow> (Db, unit) act" where
  "replaceRecordRowTx c setDeletedAt = bnd (statement (upsert_record c setDeletedAt)) ensureRowsAffected"

definition insertRecordFigureTx :: "CreateRecordFigureInput \<Rightarrow> (Db, unit) act" where
  "insertRecordFigureTx c = sq (statement (insert_figure c)) (ret ())"

definition insertRecordDataFileTx :: "CreateRecordDataFileInput \<Rightarrow> (Db, unit) act" where
  "insertRecordDataFileTx c = sq (statement (insert_data_file c)) (ret ())"

definition getRecordByIDTx :: "string \<Rightarrow> (Db, Record) act" where
  "getRecordByIDTx i = found (query (\<lambda>db. lookup_row rID i (dbRecords db)))"

text \<open>The writes of \<open>ReplaceRecordChildren\<close>, and its transaction: the id must not name a chat.\<close>

definition writeReplacementTx ::
  "CreateRecordInput \<Rightarrow> bool \<Rightarrow> CreateRecordFigureInput list \<Rightarrow> CreateRecordDataFileInput list \<Rightarrow> (Db, Record) act" where
  "writeReplacementTx c setDeletedAt figures files =
    sq (replaceRecordRowTx c setDeletedAt)
    (sq (statement (delete_figures (\<lambda>f. fgRecordID f = crID c)))
    (sq (statement (delete_data_files (\<lambda>f. dfRecordID f = crID c)))
    (sq (each insertRecordFigureTx figures)
    (sq (each insertRecordDataFileTx files)
        (getRecordByIDTx (crID c))))))"

definition replacementTx :: "CreateRecordInput \<Rightarrow> ReplaceRecordChildrenInput \<Rightarrow> (Db, Record) act" where
  "replacementTx c input =
    bnd (recordIDExists (crID c)) (\<lambda>exists.
    bnd (if exists then ret False else chatSessionIDExists (crID c)) (\<lambda>chatExists.
    if chatExists then fail (Wrapped ''id already exists as chat session'' ErrConflict)
    else writeReplacementTx c (rcSetDeletedAt input) (rcFigures input) (rcDataFiles input)))"

definition sqlite_ReplaceRecordChildren :: "ReplaceRecordChildrenInput \<Rightarrow> (Db, Record) act" where
  "sqlite_ReplaceRecordChildren input =
    (let c = (rcRecord input) \<lparr> crDayOrder := default_day_order (crDayOrder (rcRecord input)) \<rparr> in
     case Validate_replacement (input \<lparr> rcRecord := c \<rparr>) of
       Inl e \<Rightarrow> fail e
     | Inr _ \<Rightarrow> transaction (replacementTx c input))"

section \<open>Figures\<close>

definition sqlite_GetRecordFigureByID :: "int \<Rightarrow> (Db, RecordFigure) act" where
  "sqlite_GetRecordFigureByID i =
    (if i \<le> 0 then fail ErrInvalidArgument else found (query (\<lambda>db. lookup_row fgID i (dbFigures db))))"

definition sqlite_CreateRecordFigure :: "CreateRecordFigureInput \<Rightarrow> (Db, RecordFigure) act" where
  "sqlite_CreateRecordFigure c =
    bnd (lift_result (ValidateRecordAssetKey ''figures'' (cfRecordID c) (cfFilename c) (cfS3Key c))) (\<lambda>_.
    bnd (statement (insert_figure c)) sqlite_GetRecordFigureByID)"

text \<open>The object key an update stores: the one given, or the canonical one of a new filename; the
  resulting pair is validated.\<close>

definition patched_key :: "string \<Rightarrow> string \<Rightarrow> string \<Rightarrow> string \<Rightarrow> string \<Rightarrow> string \<Rightarrow> error + string" where
  "patched_key kind recordID oldFilename oldKey filename s3Key =
    (let name = nonempty_or filename oldFilename in
     case (if s3Key \<noteq> [] then Inr (s3Key, s3Key)
           else if filename \<noteq> [] then
             (case CanonicalRecordAssetKey kind recordID name of Inl e \<Rightarrow> Inl e | Inr k \<Rightarrow> Inr (k, k))
           else Inr (oldKey, s3Key)) of
       Inl e \<Rightarrow> Inl e
     | Inr (key, patch) \<Rightarrow>
         (case ValidateRecordAssetKey kind recordID name key of Inl e \<Rightarrow> Inl e | Inr _ \<Rightarrow> Inr patch))"

text \<open>Patch semantics: an empty filename or key and a nil alt text keep the stored value.\<close>

definition patched_figure :: "UpdateRecordFigureInput \<Rightarrow> string \<Rightarrow> RecordFigure \<Rightarrow> RecordFigure" where
  "patched_figure u s3KeyPatch old =
    old \<lparr> fgFilename := nonempty_or (ufFilename u) (fgFilename old),
          fgS3Key := nonempty_or s3KeyPatch (fgS3Key old),
          fgAltText := coalesce_opt (ufAltText u) (fgAltText old) \<rparr>"

definition sqlite_UpdateRecordFigure :: "UpdateRecordFigureInput \<Rightarrow> (Db, RecordFigure) act" where
  "sqlite_UpdateRecordFigure u =
    (if ufID u \<le> 0 then fail ErrInvalidArgument
     else
       bnd (if ufFilename u \<noteq> [] \<or> ufS3Key u \<noteq> [] then
              bnd (sqlite_GetRecordFigureByID (ufID u)) (\<lambda>existing.
                lift_result (patched_key ''figures'' (fgRecordID existing) (fgFilename existing)
                  (fgS3Key existing) (ufFilename u) (ufS3Key u)))
            else ret (ufS3Key u)) (\<lambda>s3KeyPatch.
       bnd (statement (update_figure (ufID u) (patched_figure u s3KeyPatch))) (\<lambda>n.
       sq (ensureRowsAffected n) (sqlite_GetRecordFigureByID (ufID u)))))"

definition sqlite_ListRecordFiguresByRecordID :: "string \<Rightarrow> (Db, RecordFigure list) act" where
  "sqlite_ListRecordFiguresByRecordID i =
    (if blank i then fail ErrInvalidArgument
     else query (\<lambda>db. sort_key fgID (filter (\<lambda>f. fgRecordID f = i) (dbFigures db))))"

definition sqlite_DeleteRecordFigure :: "int \<Rightarrow> (Db, unit) act" where
  "sqlite_DeleteRecordFigure i =
    (if i \<le> 0 then fail ErrInvalidArgument
     else bnd (statement (delete_figures (\<lambda>f. fgID f = i))) ensureRowsAffected)"

section \<open>Data files\<close>

definition sqlite_GetRecordDataFileByID :: "int \<Rightarrow> (Db, RecordDataFile) act" where
  "sqlite_GetRecordDataFileByID i =
    (if i \<le> 0 then fail ErrInvalidArgument else found (query (\<lambda>db. lookup_row dfID i (dbDataFiles db))))"

definition sqlite_CreateRecordDataFile :: "CreateRecordDataFileInput \<Rightarrow> (Db, RecordDataFile) act" where
  "sqlite_CreateRecordDataFile c =
    (if blank (cdHash c) then fail ErrInvalidArgument
     else
       bnd (lift_result (ValidateRecordAssetKey ''data'' (cdRecordID c) (cdFilename c) (cdS3Key c))) (\<lambda>_.
       if cdSize c < 0 then fail ErrInvalidArgument
       else bnd (statement (insert_data_file c)) sqlite_GetRecordDataFileByID))"

definition patched_data_file :: "UpdateRecordDataFileInput \<Rightarrow> string \<Rightarrow> RecordDataFile \<Rightarrow> RecordDataFile" where
  "patched_data_file u s3KeyPatch old =
    old \<lparr> dfFilename := nonempty_or (udFilename u) (dfFilename old),
          dfS3Key := nonempty_or s3KeyPatch (dfS3Key old),
          dfSize := coalesce (udSize u) (dfSize old),
          dfHash := nonempty_or (nullableStringValue (udHash u)) (dfHash old),
          dfDescription := coalesce_opt (udDescription u) (dfDescription old) \<rparr>"

definition sqlite_UpdateRecordDataFile :: "UpdateRecordDataFileInput \<Rightarrow> (Db, RecordDataFile) act" where
  "sqlite_UpdateRecordDataFile u =
    (if udID u \<le> 0 \<or> (case udSize u of None \<Rightarrow> False | Some n \<Rightarrow> n < 0) then fail ErrInvalidArgument
     else
       bnd (if udFilename u \<noteq> [] \<or> udS3Key u \<noteq> [] then
              bnd (sqlite_GetRecordDataFileByID (udID u)) (\<lambda>existing.
                lift_result (patched_key ''data'' (dfRecordID existing) (dfFilename existing)
                  (dfS3Key existing) (udFilename u) (udS3Key u)))
            else ret (udS3Key u)) (\<lambda>s3KeyPatch.
       bnd (statement (update_data_file (udID u) (patched_data_file u s3KeyPatch))) (\<lambda>n.
       sq (ensureRowsAffected n) (sqlite_GetRecordDataFileByID (udID u)))))"

definition sqlite_ListRecordDataFilesByRecordID :: "string \<Rightarrow> (Db, RecordDataFile list) act" where
  "sqlite_ListRecordDataFilesByRecordID i =
    (if blank i then fail ErrInvalidArgument
     else query (\<lambda>db. sort_key dfID (filter (\<lambda>f. dfRecordID f = i) (dbDataFiles db))))"

definition sqlite_DeleteRecordDataFile :: "int \<Rightarrow> (Db, unit) act" where
  "sqlite_DeleteRecordDataFile i =
    (if i \<le> 0 then fail ErrInvalidArgument
     else bnd (statement (delete_data_files (\<lambda>f. dfID f = i))) ensureRowsAffected)"

section \<open>Templates\<close>

definition sqlite_GetTemplateByName :: "string \<Rightarrow> (Db, Template) act" where
  "sqlite_GetTemplateByName name =
    (if blank name then fail ErrInvalidArgument else found (query (\<lambda>db. lookup_row tName name (dbTemplates db))))"

definition sqlite_CreateTemplate :: "CreateTemplateInput \<Rightarrow> (Db, Template) act" where
  "sqlite_CreateTemplate c =
    (if blank (ctName c) \<or> blank (ctHTMLContent c) then fail ErrInvalidArgument
     else sq (statement (\<lambda>now. insert_template
                \<lparr> tName = ctName c, tHTMLContent = ctHTMLContent c, tDescription = ctDescription c,
                  tCreatedAt = coalesce (stored_time (ctCreatedAt c)) now,
                  tUpdatedAt = coalesce (stored_time (ctUpdatedAt c)) now \<rparr> now))
             (sqlite_GetTemplateByName (ctName c)))"

definition sqlite_UpdateTemplate :: "UpdateTemplateInput \<Rightarrow> (Db, Template) act" where
  "sqlite_UpdateTemplate u =
    (if blank (utName u) \<or> blank (utHTMLContent u) then fail ErrInvalidArgument
     else bnd (statement (update_template (utName u) (\<lambda>t.
                t \<lparr> tHTMLContent := utHTMLContent u, tDescription := utDescription u,
                    tUpdatedAt := coalesce (stored_time (utUpdatedAt u)) (tUpdatedAt t) \<rparr>))) (\<lambda>n.
          sq (ensureRowsAffected n) (sqlite_GetTemplateByName (utName u))))"

definition sqlite_ListTemplates :: "(Db, Template list) act" where
  "sqlite_ListTemplates = query (\<lambda>db. sort_key tName (dbTemplates db))"

definition sqlite_DeleteTemplate :: "string \<Rightarrow> (Db, unit) act" where
  "sqlite_DeleteTemplate name =
    (if blank name then fail ErrInvalidArgument
     else bnd (statement (delete_templates name)) ensureRowsAffected)"

section \<open>Sync version, projects and devices\<close>

definition sqlite_GetSyncVersion :: "(Db, SyncVersion) act" where
  "sqlite_GetSyncVersion =
    query (\<lambda>db. \<lparr> svID = 1, svUserID = [], svVersion = dbVersion db, svUpdatedAt = dbVersionAt db \<rparr>)"

definition registry_row :: "CreateRegistryInput \<Rightarrow> time \<Rightarrow> Registry" where
  "registry_row c now =
    \<lparr> gID = cgID c, gCreatedAt = coalesce (stored_time (cgCreatedAt c)) now,
      gUpdatedAt = coalesce (stored_time (cgUpdatedAt c)) now, gArchivedAt = stored_time (cgArchivedAt c) \<rparr>"

definition sqlite_GetProjectByID :: "string \<Rightarrow> (Db, Project) act" where
  "sqlite_GetProjectByID i =
    (if blank i then fail ErrInvalidArgument else found (query (\<lambda>db. lookup_row gID i (dbProjects db))))"

definition sqlite_CreateProject :: "CreateRegistryInput \<Rightarrow> (Db, Project) act" where
  "sqlite_CreateProject c =
    (if blank (cgID c) then fail ErrInvalidArgument
     else sq (statement (\<lambda>now. insert_project (registry_row c now) now)) (sqlite_GetProjectByID (cgID c)))"

definition sqlite_ListProjects :: "bool \<Rightarrow> (Db, Project list) act" where
  "sqlite_ListProjects includeArchived =
    query (\<lambda>db. sort_key gID (filter (\<lambda>g. includeArchived \<or> gArchivedAt g = None) (dbProjects db)))"

definition setProjectArchivedAt :: "string \<Rightarrow> (time \<Rightarrow> time option) \<Rightarrow> (Db, Project) act" where
  "setProjectArchivedAt i v =
    (if blank i then fail ErrInvalidArgument
     else bnd (statement (update_project i (\<lambda>now g. g \<lparr> gArchivedAt := v now \<rparr>))) (\<lambda>n.
          sq (ensureRowsAffected n) (sqlite_GetProjectByID i)))"

definition sqlite_ArchiveProject :: "string \<Rightarrow> (Db, Project) act" where
  "sqlite_ArchiveProject i = setProjectArchivedAt i Some"

definition sqlite_RestoreProject :: "string \<Rightarrow> (Db, Project) act" where
  "sqlite_RestoreProject i = setProjectArchivedAt i (\<lambda>_. None)"

text \<open>\<open>upsertProjectForImport\<close>, and the same for devices: keep the newer row.\<close>

definition imported_registry :: "Registry \<Rightarrow> Registry \<Rightarrow> Registry" where
  "imported_registry p old =
    old \<lparr> gCreatedAt := truncateToMillisecond (gCreatedAt p), gUpdatedAt := truncateToMillisecond (gUpdatedAt p),
          gArchivedAt := stored_time (gArchivedAt p) \<rparr>"

definition registry_input :: "Registry \<Rightarrow> CreateRegistryInput" where
  "registry_input p =
    \<lparr> cgID = gID p, cgCreatedAt = Some (gCreatedAt p), cgUpdatedAt = Some (gUpdatedAt p), cgArchivedAt = gArchivedAt p \<rparr>"

definition sqlite_UpsertProjectForImport :: "Project \<Rightarrow> (Db, bool) act" where
  "sqlite_UpsertProjectForImport p =
    (if blank (gID p) \<or> is_zero (gCreatedAt p) \<or> is_zero (gUpdatedAt p) then fail ErrInvalidArgument
     else bnd (attempt (sqlite_GetProjectByID (gID p))) (\<lambda>r. case r of
       Inl e \<Rightarrow>
         if \<not> err_is e ErrNotFound then fail e
         else sq (sqlite_CreateProject (registry_input p)) (ret True)
     | Inr existing \<Rightarrow>
         if \<not> gUpdatedAt p > gUpdatedAt existing then ret False
         else sq (statement (update_project (gID p) (\<lambda>_. imported_registry p))) (ret True)))"

definition sqlite_GetDeviceByID :: "string \<Rightarrow> (Db, Device) act" where
  "sqlite_GetDeviceByID i =
    (if blank i then fail ErrInvalidArgument else found (query (\<lambda>db. lookup_row gID i (dbDevices db))))"

definition sqlite_CreateDevice :: "CreateRegistryInput \<Rightarrow> (Db, Device) act" where
  "sqlite_CreateDevice c =
    (if blank (cgID c) then fail ErrInvalidArgument
     else sq (statement (\<lambda>now. insert_device (registry_row c now) now)) (sqlite_GetDeviceByID (cgID c)))"

definition sqlite_ListDevices :: "bool \<Rightarrow> (Db, Device list) act" where
  "sqlite_ListDevices includeArchived =
    query (\<lambda>db. sort_key gID (filter (\<lambda>g. includeArchived \<or> gArchivedAt g = None) (dbDevices db)))"

definition setDeviceArchivedAt :: "string \<Rightarrow> (time \<Rightarrow> time option) \<Rightarrow> (Db, Device) act" where
  "setDeviceArchivedAt i v =
    (if blank i then fail ErrInvalidArgument
     else bnd (statement (update_device i (\<lambda>now g. g \<lparr> gArchivedAt := v now \<rparr>))) (\<lambda>n.
          sq (ensureRowsAffected n) (sqlite_GetDeviceByID i)))"

definition sqlite_ArchiveDevice :: "string \<Rightarrow> (Db, Device) act" where
  "sqlite_ArchiveDevice i = setDeviceArchivedAt i Some"

definition sqlite_RestoreDevice :: "string \<Rightarrow> (Db, Device) act" where
  "sqlite_RestoreDevice i = setDeviceArchivedAt i (\<lambda>_. None)"

definition sqlite_UpsertDeviceForImport :: "Device \<Rightarrow> (Db, bool) act" where
  "sqlite_UpsertDeviceForImport p =
    (if blank (gID p) \<or> is_zero (gCreatedAt p) \<or> is_zero (gUpdatedAt p) then fail ErrInvalidArgument
     else bnd (attempt (sqlite_GetDeviceByID (gID p))) (\<lambda>r. case r of
       Inl e \<Rightarrow>
         if \<not> err_is e ErrNotFound then fail e
         else sq (sqlite_CreateDevice (registry_input p)) (ret True)
     | Inr existing \<Rightarrow>
         if \<not> gUpdatedAt p > gUpdatedAt existing then ret False
         else sq (statement (update_device (gID p) (\<lambda>_. imported_registry p))) (ret True)))"

end
