(* ===== verification/Sqlite_Chat.thy ===== *)
theory Sqlite_Chat
  imports Sqlite_Repo
begin

text \<open>\<open>repository/sqlite/chat.go\<close>: project paths, chat sessions and chat items, and the repository value
  the sync service is given. The searches (FTS5 ranking, snippets) are not modelled here.\<close>

section \<open>Project paths\<close>

definition getProjectPath :: "string \<Rightarrow> string \<Rightarrow> string \<Rightarrow> (Db, ProjectPath) act" where
  "getProjectPath projectID path deviceID =
    found (query (\<lambda>db. List.find
      (\<lambda>p. ppProjectID p = projectID \<and> ppPath p = path \<and> ppDeviceID p = deviceID) (dbPaths db)))"

definition sqlite_UpsertProjectPath :: "CreateProjectPathInput \<Rightarrow> (Db, ProjectPath \<times> bool) act" where
  "sqlite_UpsertProjectPath c =
    (if blank (cpProjectID c) \<or> blank (cpPath c) \<or> blank (cpDeviceID c) then fail ErrInvalidArgument
     else
       bnd (statement (\<lambda>now. insert_path_or_ignore
              \<lparr> ppID = 0, ppProjectID = cpProjectID c, ppPath = cpPath c, ppDeviceID = cpDeviceID c,
                ppCreatedAt = coalesce (stored_time (cpCreatedAt c)) now,
                ppUpdatedAt = coalesce (stored_time (cpUpdatedAt c)) now \<rparr> now)) (\<lambda>affected.
       bnd (getProjectPath (cpProjectID c) (cpPath c) (cpDeviceID c)) (\<lambda>path.
         ret (path, affected > 0))))"

definition sqlite_ListProjectPaths :: "string option \<Rightarrow> (Db, ProjectPath list) act" where
  "sqlite_ListProjectPaths projectID =
    query (\<lambda>db. sort_key (\<lambda>p. (ppPath p, ppProjectID p, ppDeviceID p))
      (filter (\<lambda>p. case projectID of None \<Rightarrow> True | Some i \<Rightarrow> ppProjectID p = i) (dbPaths db)))"

text \<open>\<open>BackfillChatProjects\<close>: a registered path matches a working directory that equals it or
  continues it after a slash or a backslash; the longest path wins, then the least project id.\<close>

definition path_covers :: "string \<Rightarrow> string \<Rightarrow> bool" where
  "path_covers path cwd =
    (path = cwd \<or>
     (prefix path cwd \<and> length path < length cwd \<and> cwd ! length path \<in> {CHR ''/'', CHR 0x5C}))"

definition covering_paths :: "Db \<Rightarrow> ChatSession \<Rightarrow> ProjectPath list" where
  "covering_paths db c =
    (case csCWD c of
       None \<Rightarrow> []
     | Some cwd \<Rightarrow>
         sort_key (\<lambda>p. (- int (length (ppPath p)), ppProjectID p))
           (filter (\<lambda>p. ppDeviceID p = csSourceDeviceID c \<and> path_covers (ppPath p) cwd) (dbPaths db)))"

definition backfilled :: "Db \<Rightarrow> ChatSession \<Rightarrow> ChatSession option" where
  "backfilled db c =
    (if csProjectID c \<noteq> None then None
     else case covering_paths db c of [] \<Rightarrow> None | p # _ \<Rightarrow> Some (c \<lparr> csProjectID := Some (ppProjectID p) \<rparr>))"

definition backfill :: "time \<Rightarrow> Db \<Rightarrow> error + (nat \<times> Db)" where
  "backfill now db =
    (let n = length (filter (\<lambda>c. backfilled db c \<noteq> None) (dbChats db)) in
     Inr (n, bump_n n now (db \<lparr> dbChats := List.map (\<lambda>c.
         case backfilled db c of None \<Rightarrow> c | Some new \<Rightarrow> auto_updated_chat now c new) (dbChats db) \<rparr>)))"

definition sqlite_BackfillChatProjects :: "(Db, nat) act" where
  "sqlite_BackfillChatProjects = statement backfill"

section \<open>Sessions\<close>

definition validateUpsertChatSessionInput :: "UpsertChatSessionInput \<Rightarrow> error + unit" where
  "validateUpsertChatSessionInput c =
    (if blank (icID c) \<or> blank (icSource c) \<or> blank (icSourceSessionID c) \<or> blank (icSourceDeviceID c) \<or>
        is_zero (icStartedAt c) \<or> is_zero (icLastActivityAt c)
     then Inl ErrInvalidArgument else Inr ())"

definition sqlite_GetChatSessionByID :: "string \<Rightarrow> (Db, ChatSession) act" where
  "sqlite_GetChatSessionByID i =
    (if blank i then fail ErrInvalidArgument else found (query (\<lambda>db. lookup_row csID i (dbChats db))))"

definition find_source :: "string \<Rightarrow> string \<Rightarrow> Db \<Rightarrow> ChatSession option" where
  "find_source source sourceSessionID db =
    List.find (\<lambda>c. csSource c = source \<and> csSourceSessionID c = sourceSessionID) (dbChats db)"

definition sqlite_GetChatSessionBySource :: "string \<Rightarrow> string \<Rightarrow> (Db, ChatSession) act" where
  "sqlite_GetChatSessionBySource source sourceSessionID =
    (if blank source \<or> blank sourceSessionID then fail ErrInvalidArgument
     else found (query (find_source source sourceSessionID)))"

text \<open>The row to insert and the \<open>DO UPDATE SET\<close> list.\<close>

definition chat_row :: "UpsertChatSessionInput \<Rightarrow> time \<Rightarrow> ChatSession" where
  "chat_row c now =
    \<lparr> csID = icID c, csUserID = [], csSource = icSource c, csSourceSessionID = icSourceSessionID c,
      csParentSourceSessionID = icParentSourceSessionID c, csSourceDeviceID = icSourceDeviceID c,
      csProjectID = icProjectID c, csCWD = icCWD c, csTitle = icTitle c,
      csStartedAt = truncateToMillisecond (icStartedAt c),
      csLastActivityAt = truncateToMillisecond (icLastActivityAt c),
      csOriginalSourcePath = icOriginalSourcePath c, csRawSourceKey = icRawSourceKey c,
      csCreatedAt = coalesce (stored_time (icCreatedAt c)) now,
      csUpdatedAt = coalesce (stored_time (icUpdatedAt c)) now,
      csDeletedAt = stored_time (icDeletedAt c) \<rparr>"

definition merged_chat :: "bool \<Rightarrow> ChatSession \<Rightarrow> ChatSession \<Rightarrow> ChatSession" where
  "merged_chat clearDeleted excluded old =
    old \<lparr> csParentSourceSessionID := coalesce_opt (csParentSourceSessionID excluded) (csParentSourceSessionID old),
          csSourceDeviceID := csSourceDeviceID excluded,
          csProjectID := coalesce_opt (csProjectID excluded) (csProjectID old),
          csCWD := coalesce_opt (csCWD excluded) (csCWD old),
          csTitle := coalesce_opt (csTitle excluded) (csTitle old),
          csStartedAt := min (csStartedAt old) (csStartedAt excluded),
          csLastActivityAt := max (csLastActivityAt old) (csLastActivityAt excluded),
          csOriginalSourcePath := csOriginalSourcePath excluded,
          csRawSourceKey := coalesce_opt (csRawSourceKey excluded) (csRawSourceKey old),
          csUpdatedAt := csUpdatedAt excluded,
          csDeletedAt := (if clearDeleted then None else csDeletedAt excluded) \<rparr>"

definition upsert_chat_statement :: "UpsertChatSessionInput \<Rightarrow> (Db, unit) act" where
  "upsert_chat_statement c =
    statement (\<lambda>now. upsert_chat (chat_row c now) (merged_chat (icClearDeleted c) (chat_row c now)) now)"

definition sqlite_UpsertChatSession :: "UpsertChatSessionInput \<Rightarrow> (Db, ChatSession \<times> bool) act" where
  "sqlite_UpsertChatSession c =
    bnd (lift_result (validateUpsertChatSessionInput c)) (\<lambda>_.
    bnd (attempt (sqlite_GetChatSessionBySource (icSource c) (icSourceSessionID c))) (\<lambda>r.
    case r of
      Inl e \<Rightarrow>
        if \<not> err_is e ErrNotFound then fail e
        else bnd (recordIDExists (icID c)) (\<lambda>exists.
          if exists then fail (Wrapped ''id already exists as record'' ErrConflict)
          else sq (upsert_chat_statement c)
            (bnd (sqlite_GetChatSessionBySource (icSource c) (icSourceSessionID c)) (\<lambda>s. ret (s, True))))
    | Inr _ \<Rightarrow>
        sq (upsert_chat_statement c)
          (bnd (sqlite_GetChatSessionBySource (icSource c) (icSourceSessionID c)) (\<lambda>s. ret (s, False)))))"

definition upsertChatSessionTx :: "UpsertChatSessionInput \<Rightarrow> (Db, ChatSession \<times> bool) act" where
  "upsertChatSessionTx c =
    bnd (query (find_source (icSource c) (icSourceSessionID c))) (\<lambda>existing.
    bnd (if existing = None then recordIDExists (icID c) else ret False) (\<lambda>recordExists.
    if recordExists then fail (Wrapped ''id already exists as record'' ErrConflict)
    else sq (upsert_chat_statement c)
      (bnd (found (query (find_source (icSource c) (icSourceSessionID c)))) (\<lambda>s. ret (s, existing = None)))))"

section \<open>Items\<close>

definition validChatItemInput :: "CreateChatItemInput \<Rightarrow> bool" where
  "validChatItemInput i = (0 \<le> iiOrdinal i \<and> \<not> blank (iiRole i) \<and> \<not> blank (iiItemType i))"

definition item_row :: "string \<Rightarrow> CreateChatItemInput \<Rightarrow> time \<Rightarrow> ChatItem" where
  "item_row sessionID i now =
    \<lparr> ciID = 0, ciSessionID = sessionID, ciOrdinal = iiOrdinal i, ciRole = iiRole i, ciItemType = iiItemType i,
      ciText = iiText i,
      ciSearchText = (if iiSearchText i = [] then nullableStringValue (iiText i) else iiSearchText i),
      ciRawJSON = iiRawJSON i, ciCreatedAt = coalesce (stored_time (iiCreatedAt i)) now \<rparr>"

definition insert_item_statement :: "string \<Rightarrow> CreateChatItemInput \<Rightarrow> (Db, int) act" where
  "insert_item_statement sessionID i = statement (\<lambda>now. insert_item (item_row sessionID i now) now)"

definition insertChatItemsTx :: "string \<Rightarrow> CreateChatItemInput list \<Rightarrow> (Db, unit) act" where
  "insertChatItemsTx sessionID items =
    each (\<lambda>i. if \<not> validChatItemInput i then fail ErrInvalidArgument
              else sq (insert_item_statement sessionID i) (ret ())) items"

definition sqlite_UpsertChatSessionWithItems ::
  "UpsertChatSessionInput \<Rightarrow> CreateChatItemInput list \<Rightarrow> (Db, ChatSession \<times> bool) act" where
  "sqlite_UpsertChatSessionWithItems c items =
    bnd (lift_result (validateUpsertChatSessionInput c)) (\<lambda>_.
    if \<not> list_all validChatItemInput items then fail ErrInvalidArgument
    else transaction
      (bnd (upsertChatSessionTx c) (\<lambda>(stored, created).
       sq (statement (delete_items (csID stored)))
       (sq (insertChatItemsTx (csID stored) items)
           (ret (stored, created))))))"

definition sqlite_CreateChatItem :: "CreateChatItemInput \<Rightarrow> (Db, ChatItem) act" where
  "sqlite_CreateChatItem i =
    (if blank (iiSessionID i) \<or> \<not> validChatItemInput i then fail ErrInvalidArgument
     else bnd (insert_item_statement (iiSessionID i) i) (\<lambda>rowid.
       found (query (\<lambda>db. lookup_row ciID rowid (dbItems db)))))"

definition require_session :: "string \<Rightarrow> (Db, unit) act" where
  "require_session sessionID =
    bnd (query (\<lambda>db. sessionID \<in> chat_ids db)) (\<lambda>exists. if exists then ret () else fail ErrNotFound)"

definition sqlite_AppendChatItems :: "string \<Rightarrow> CreateChatItemInput list \<Rightarrow> (Db, unit) act" where
  "sqlite_AppendChatItems sessionID items =
    (if blank sessionID then fail ErrInvalidArgument
     else transaction (sq (require_session sessionID) (insertChatItemsTx sessionID items)))"

definition sqlite_ReplaceChatItems :: "string \<Rightarrow> CreateChatItemInput list \<Rightarrow> (Db, unit) act" where
  "sqlite_ReplaceChatItems sessionID items =
    (if blank sessionID then fail ErrInvalidArgument
     else transaction (sq (require_session sessionID)
       (sq (statement (delete_items sessionID)) (insertChatItemsTx sessionID items))))"

definition validateChatImportOp :: "ChatImportOp \<Rightarrow> error + unit" where
  "validateChatImportOp op =
    (case validateUpsertChatSessionInput (ioSession op) of
       Inl e \<Rightarrow> Inl e
     | Inr _ \<Rightarrow>
         (case ioItemMode op of
            ItemModeOther _ \<Rightarrow> Inl ErrInvalidArgument
          | _ \<Rightarrow> if list_all validChatItemInput (ioItems op) then Inr () else Inl ErrInvalidArgument))"

definition writeChatImportOp :: "ChatImportOp \<Rightarrow> ChatImportResult list \<Rightarrow> (Db, ChatImportResult list) act" where
  "writeChatImportOp op results =
    bnd (upsertChatSessionTx (ioSession op)) (\<lambda>(stored, created).
    sq (if ioItemMode op = ItemModeReplace then sq (statement (delete_items (csID stored))) (ret ()) else ret ())
    (sq (insertChatItemsTx (csID stored) (ioItems op))
        (ret (results @ [\<lparr> irSession = stored, irCreated = created \<rparr>]))))"

definition sqlite_WriteChatImportBatch :: "ChatImportOp list \<Rightarrow> (Db, ChatImportResult list) act" where
  "sqlite_WriteChatImportBatch ops =
    bnd (lift_result (each_result (\<lambda>op _. validateChatImportOp op) ops ())) (\<lambda>_.
    if ops = [] then ret [] else transaction (each_acc writeChatImportOp ops []))"

section \<open>Lists, counts and deletion\<close>

definition chats_predicate :: "ListChatSessionsFilter \<Rightarrow> ChatSession \<Rightarrow> bool" where
  "chats_predicate f c =
    ((if lcOnlyDeleted f then csDeletedAt c \<noteq> None else lcIncludeDeleted f \<or> csDeletedAt c = None) \<and>
     (case lcProjectID f of None \<Rightarrow> True | Some p \<Rightarrow> csProjectID c = Some p) \<and>
     (lcUnassigned f \<longrightarrow> csProjectID c = None) \<and>
     (case lcSource f of None \<Rightarrow> True | Some s \<Rightarrow> csSource c = s) \<and>
     (case lcDeviceID f of None \<Rightarrow> True | Some d \<Rightarrow> csSourceDeviceID c = d) \<and>
     (case lcParentSourceSessionID f of None \<Rightarrow> True | Some p \<Rightarrow> csParentSourceSessionID c = Some p) \<and>
     (case lcDateFrom f of None \<Rightarrow> True | Some t \<Rightarrow> truncateToMillisecond t \<le> csLastActivityAt c) \<and>
     (case lcDateTo f of None \<Rightarrow> True | Some t \<Rightarrow> csLastActivityAt c \<le> truncateToMillisecond t) \<and>
     (case lcUpdatedAfter f of None \<Rightarrow> True | Some t \<Rightarrow> truncateToMillisecond t \<le> csUpdatedAt c))"

text \<open>\<open>ORDER BY last_activity_at DESC, id DESC\<close>; ids are unique.\<close>

definition sqlite_ListChatSessions :: "ListChatSessionsFilter \<Rightarrow> (Db, ChatSession list) act" where
  "sqlite_ListChatSessions f =
    (if lcLimit f < 0 \<or> lcOffset f < 0 then fail ErrInvalidArgument
     else query (\<lambda>db.
       let rows = rev (sort_key (\<lambda>c. (csLastActivityAt c, csID c)) (filter (chats_predicate f) (dbChats db))) in
       limit_rows (lcLimit f) (drop (nat (lcOffset f)) rows)))"

definition sqlite_CountChatSessions :: "ListChatSessionsFilter \<Rightarrow> (Db, nat) act" where
  "sqlite_CountChatSessions f =
    (if lcLimit f < 0 \<or> lcOffset f < 0 then fail ErrInvalidArgument
     else query (\<lambda>db. length (filter (chats_predicate f) (dbChats db))))"

definition sqlite_SoftDeleteChatSession :: "string \<Rightarrow> (Db, unit) act" where
  "sqlite_SoftDeleteChatSession i =
    bnd (statement (update_chat i (\<lambda>now c. c \<lparr> csDeletedAt := coalesce_opt (csDeletedAt c) (Some now) \<rparr>)))
      ensureRowsAffected"

text \<open>The \<open>WHERE\<close> clause of a restore also requires a tombstone.\<close>

definition restore_chat :: "string \<Rightarrow> time \<Rightarrow> Db \<Rightarrow> error + (nat \<times> Db)" where
  "restore_chat i now db =
    (case lookup_row csID i (dbChats db) of
       None \<Rightarrow> Inr (0, db)
     | Some c \<Rightarrow> if csDeletedAt c = None then Inr (0, db)
                 else update_chat i (\<lambda>_ c. c \<lparr> csDeletedAt := None \<rparr>) now db)"

definition sqlite_RestoreChatSession :: "string \<Rightarrow> (Db, unit) act" where
  "sqlite_RestoreChatSession i = bnd (statement (restore_chat i)) ensureRowsAffected"

definition sqlite_DeleteChatSession :: "string \<Rightarrow> (Db, unit) act" where
  "sqlite_DeleteChatSession i = bnd (statement (delete_chats i)) ensureRowsAffected"

definition sqlite_MaxChatItemOrdinal :: "string \<Rightarrow> (Db, int) act" where
  "sqlite_MaxChatItemOrdinal sessionID =
    query (\<lambda>db. fold (\<lambda>x m. max (ciOrdinal x) m) (filter (\<lambda>x. ciSessionID x = sessionID) (dbItems db)) (-1))"

definition sqlite_ListChatItems :: "string \<Rightarrow> (Db, ChatItem list) act" where
  "sqlite_ListChatItems sessionID =
    (if blank sessionID then fail ErrInvalidArgument
     else query (\<lambda>db. sort_key ciOrdinal (filter (\<lambda>x. ciSessionID x = sessionID) (dbItems db))))"

definition sqlite_CountChatItems :: "CountChatItemsFilter \<Rightarrow> (Db, nat) act" where
  "sqlite_CountChatItems f =
    query (\<lambda>db. length (filter
      (\<lambda>x. ciIncludeDeleted f \<or> list_ex (\<lambda>c. csID c = ciSessionID x \<and> csDeletedAt c = None) (dbChats db))
      (dbItems db)))"

section \<open>The repository of the sync service\<close>

definition sqlite_repository :: "Db Repository" where
  "sqlite_repository =
    \<lparr> CreateRecord = sqlite_CreateRecord, GetRecordByID = sqlite_GetRecordByID,
      UpdateRecord = sqlite_UpdateRecord, ListRecords = sqlite_ListRecords,
      CreateRecordFigure = sqlite_CreateRecordFigure, UpdateRecordFigure = sqlite_UpdateRecordFigure,
      ListRecordFiguresByRecordID = sqlite_ListRecordFiguresByRecordID,
      DeleteRecordFigure = sqlite_DeleteRecordFigure, CreateRecordDataFile = sqlite_CreateRecordDataFile,
      UpdateRecordDataFile = sqlite_UpdateRecordDataFile,
      ListRecordDataFilesByRecordID = sqlite_ListRecordDataFilesByRecordID,
      DeleteRecordDataFile = sqlite_DeleteRecordDataFile, GetSyncVersion = sqlite_GetSyncVersion,
      ListProjects = sqlite_ListProjects, UpsertProjectForImport = sqlite_UpsertProjectForImport,
      ListProjectPaths = sqlite_ListProjectPaths, UpsertProjectPath = sqlite_UpsertProjectPath,
      ListDevices = sqlite_ListDevices, UpsertDeviceForImport = sqlite_UpsertDeviceForImport,
      UpsertChatSessionWithItems = sqlite_UpsertChatSessionWithItems,
      GetChatSessionByID = sqlite_GetChatSessionByID, GetChatSessionBySource = sqlite_GetChatSessionBySource,
      ListChatSessions = sqlite_ListChatSessions, ListChatItems = sqlite_ListChatItems \<rparr>"

end
