(* ===== verification/Sqlite_Inv.thy ===== *)
theory Sqlite_Inv
  imports Sqlite_Chat
begin

text \<open>The integrity of the local database: keys are unique, every row passes its CHECK constraints and
  refers to existing rows, generated ids stay within their counters, and no id is both a record and
  a chat. Each statement keeps it, hence every operation of the repository, whether it succeeds,
  fails or is rolled back.\<close>

section \<open>Integrity\<close>

definition wf_records :: "Db \<Rightarrow> bool" where
  "wf_records db = (distinct (List.map rID (dbRecords db)) \<and>
     (\<forall>r\<in>set (dbRecords db). record_checks r \<and> record_fks db r))"

definition wf_figures :: "Db \<Rightarrow> bool" where
  "wf_figures db = (distinct (List.map fgID (dbFigures db)) \<and> 0 \<le> dbFigureSeq db \<and>
     distinct (List.map (\<lambda>f. (fgRecordID f, fgFilename f)) (dbFigures db)) \<and>
     (\<forall>f\<in>set (dbFigures db). 0 < fgID f \<and> fgID f \<le> dbFigureSeq db \<and> figure_checks f \<and>
        fgRecordID f \<in> record_ids db))"

definition wf_data_files :: "Db \<Rightarrow> bool" where
  "wf_data_files db = (distinct (List.map dfID (dbDataFiles db)) \<and> 0 \<le> dbDataFileSeq db \<and>
     distinct (List.map (\<lambda>f. (dfRecordID f, dfFilename f)) (dbDataFiles db)) \<and>
     (\<forall>f\<in>set (dbDataFiles db). 0 < dfID f \<and> dfID f \<le> dbDataFileSeq db \<and> data_file_checks f \<and>
        dfRecordID f \<in> record_ids db))"

definition wf_registries :: "Db \<Rightarrow> bool" where
  "wf_registries db = (distinct (List.map gID (dbProjects db)) \<and> distinct (List.map gID (dbDevices db)) \<and>
     [] \<notin> project_ids db \<and> [] \<notin> device_ids db \<and> distinct (List.map tName (dbTemplates db)))"

definition wf_paths :: "Db \<Rightarrow> bool" where
  "wf_paths db =
    (distinct (List.map (\<lambda>p. (ppProjectID p, ppPath p, ppDeviceID p)) (dbPaths db)) \<and>
     (\<forall>p\<in>set (dbPaths db). ppPath p \<noteq> [] \<and> ppProjectID p \<in> project_ids db \<and> ppDeviceID p \<in> device_ids db))"

definition wf_chats :: "Db \<Rightarrow> bool" where
  "wf_chats db = (distinct (List.map csID (dbChats db)) \<and>
     distinct (List.map (\<lambda>c. (csSource c, csSourceSessionID c)) (dbChats db)) \<and>
     (\<forall>c\<in>set (dbChats db). chat_checks c \<and> chat_fks db c))"

definition wf_items :: "Db \<Rightarrow> bool" where
  "wf_items db = (distinct (List.map ciID (dbItems db)) \<and> 0 \<le> dbItemSeq db \<and>
     distinct (List.map (\<lambda>i. (ciSessionID i, ciOrdinal i)) (dbItems db)) \<and>
     (\<forall>i\<in>set (dbItems db). 0 < ciID i \<and> ciID i \<le> dbItemSeq db \<and> item_checks i \<and> ciSessionID i \<in> chat_ids db))"

definition wf_db :: "Db \<Rightarrow> bool" where
  "wf_db db = (wf_records db \<and> wf_figures db \<and> wf_data_files db \<and> wf_registries db \<and> wf_paths db \<and>
               wf_chats db \<and> wf_items db)"

lemmas wf_parts = wf_records_def wf_figures_def wf_data_files_def wf_registries_def wf_paths_def
  wf_chats_def wf_items_def

lemmas id_sets = project_ids_def device_ids_def record_ids_def chat_ids_def

section \<open>Statements that keep an invariant\<close>

definition statement_keeps :: "(Db \<Rightarrow> bool) \<Rightarrow> (time \<Rightarrow> Db \<Rightarrow> error + ('a \<times> Db)) \<Rightarrow> bool" where
  "statement_keeps I f = (\<forall>now db a db'. I db \<longrightarrow> f now db = Inr (a, db') \<longrightarrow> I db')"

text \<open>An invariant of the tables does not read the tick.\<close>

definition tick_free :: "(Db \<Rightarrow> bool) \<Rightarrow> bool" where
  "tick_free I = (\<forall>db n. I (db \<lparr> dbTick := n \<rparr>) = I db)"

lemma keeps_statement:
  assumes "tick_free I" "statement_keeps I f"
  shows "keeps I (statement f)"
proof (rule keepsI)
  fix db assume "I db"
  then have I: "I (db \<lparr> dbTick := n \<rparr>)" for n using assms(1) by (simp add: tick_free_def)
  have "I db'" if "f now (db \<lparr> dbTick := n \<rparr>) = Inr (a, db')" for n now a db'
    using assms(2) I that by (auto simp: statement_keeps_def)
  then show "I (snd (statement f db))"
    using I by (auto simp: statement_def Let_def split: option.splits sum.splits prod.splits)
qed

lemma keeps_query: "tick_free I \<Longrightarrow> keeps I (query f)"
  unfolding query_def by (rule keeps_statement) (auto simp: statement_keeps_def)

lemma keeps_transaction:
  assumes "tick_free I" "keeps I m"
  shows "keeps I (transaction m)"
proof (rule keepsI)
  fix db assume I: "I db"
  let ?m = "sq (query (\<lambda>_. ())) (bnd m (\<lambda>a. sq (query (\<lambda>_. ())) (ret a)))"
  have "keeps I ?m"
    by (intro keep_intros keeps_query assms)
  then have "I (snd (?m db))"
    by (rule keepsD [where m = ?m]) (rule I)
  moreover have "I (rolled_back db d)" for d
    using I assms(1) by (simp add: rolled_back_def tick_free_def)
  ultimately show "I (snd (transaction m db))"
    by (auto simp: transaction_def split: prod.splits sum.splits)
qed

lemma bump_simps [simp]:
  "dbRecords (bump now db) = dbRecords db" "dbFigures (bump now db) = dbFigures db"
  "dbDataFiles (bump now db) = dbDataFiles db" "dbTemplates (bump now db) = dbTemplates db"
  "dbProjects (bump now db) = dbProjects db" "dbDevices (bump now db) = dbDevices db"
  "dbPaths (bump now db) = dbPaths db" "dbChats (bump now db) = dbChats db" "dbItems (bump now db) = dbItems db"
  "dbFigureSeq (bump now db) = dbFigureSeq db" "dbDataFileSeq (bump now db) = dbDataFileSeq db"
  "dbItemSeq (bump now db) = dbItemSeq db" "dbPathSeq (bump now db) = dbPathSeq db"
  by (simp_all add: bump_def)

lemma bump_n_eq: "\<exists>v t. bump_n n now db = db \<lparr> dbVersion := v, dbVersionAt := t \<rparr>"
proof (induction n arbitrary: db)
  case 0
  have "bump_n 0 now db = db \<lparr> dbVersion := dbVersion db, dbVersionAt := dbVersionAt db \<rparr>" by simp
  then show ?case by blast
next
  case (Suc n)
  obtain v t where "bump_n n now (bump now db) = (bump now db) \<lparr> dbVersion := v, dbVersionAt := t \<rparr>"
    using Suc by blast
  then have "bump_n (Suc n) now db = db \<lparr> dbVersion := v, dbVersionAt := t \<rparr>"
    by (simp add: bump_def)
  then show ?case by blast
qed

lemma chat_fks_iff:
  "chat_fks db c =
    (csSourceDeviceID c \<in> device_ids db \<and> (\<forall>p. csProjectID c = Some p \<longrightarrow> p \<in> project_ids db))"
  by (cases "csProjectID c") (auto simp: chat_fks_def)

lemma bump_rest [simp]:
  "dbClock (bump now db) = dbClock db" "dbFault (bump now db) = dbFault db" "dbFts (bump now db) = dbFts db"
  "dbTick (bump now db) = dbTick db"
  by (simp_all add: bump_def)

lemma bump_if_simps [simp]:
  "dbRecords (bump_if b now db) = dbRecords db" "dbFigures (bump_if b now db) = dbFigures db"
  "dbDataFiles (bump_if b now db) = dbDataFiles db" "dbTemplates (bump_if b now db) = dbTemplates db"
  "dbProjects (bump_if b now db) = dbProjects db" "dbDevices (bump_if b now db) = dbDevices db"
  "dbPaths (bump_if b now db) = dbPaths db" "dbChats (bump_if b now db) = dbChats db"
  "dbItems (bump_if b now db) = dbItems db" "dbFigureSeq (bump_if b now db) = dbFigureSeq db"
  "dbDataFileSeq (bump_if b now db) = dbDataFileSeq db" "dbItemSeq (bump_if b now db) = dbItemSeq db"
  "dbPathSeq (bump_if b now db) = dbPathSeq db" "dbClock (bump_if b now db) = dbClock db"
  "dbFault (bump_if b now db) = dbFault db" "dbFts (bump_if b now db) = dbFts db"
  "dbTick (bump_if b now db) = dbTick db"
  by (simp_all add: bump_if_def)

lemma bump_n_simps [simp]:
  "dbRecords (bump_n n now db) = dbRecords db" "dbFigures (bump_n n now db) = dbFigures db"
  "dbDataFiles (bump_n n now db) = dbDataFiles db" "dbTemplates (bump_n n now db) = dbTemplates db"
  "dbProjects (bump_n n now db) = dbProjects db" "dbDevices (bump_n n now db) = dbDevices db"
  "dbPaths (bump_n n now db) = dbPaths db" "dbChats (bump_n n now db) = dbChats db"
  "dbItems (bump_n n now db) = dbItems db" "dbFigureSeq (bump_n n now db) = dbFigureSeq db"
  "dbDataFileSeq (bump_n n now db) = dbDataFileSeq db" "dbItemSeq (bump_n n now db) = dbItemSeq db"
  "dbPathSeq (bump_n n now db) = dbPathSeq db" "dbClock (bump_n n now db) = dbClock db"
  "dbFault (bump_n n now db) = dbFault db" "dbFts (bump_n n now db) = dbFts db"
  "dbTick (bump_n n now db) = dbTick db"
  by (induction n arbitrary: db) simp_all

lemma wf_version [simp]: "wf_db (db \<lparr> dbVersion := v, dbVersionAt := t \<rparr>) = wf_db db"
  by (simp add: wf_db_def wf_parts id_sets record_fks_def chat_fks_iff)

lemma wf_bump [simp]: "wf_db (bump now db) = wf_db db"
  by (simp add: bump_def)

lemma wf_bump_n [simp]: "wf_db (bump_n n now db) = wf_db db"
  using bump_n_eq [of n now db] wf_version by auto

lemma wf_bump_if [simp]: "wf_db (bump_if b now db) = wf_db db"
  by (simp add: bump_if_def)

lemma tick_free_wf: "tick_free wf_db"
  by (simp add: tick_free_def wf_db_def wf_parts id_sets record_fks_def chat_fks_iff)

section \<open>Rows\<close>

lemma lookup_row_Some: "lookup_row key k rows = Some r \<Longrightarrow> r \<in> set rows \<and> key r = k"
  by (auto simp: lookup_row_def find_Some_iff)

lemma lookup_row_None: "lookup_row key k rows = None \<longleftrightarrow> k \<notin> key ` set rows"
  by (auto simp: lookup_row_def find_None_iff)

lemma lookup_row_unique:
  "distinct (List.map key rows) \<Longrightarrow> r \<in> set rows \<Longrightarrow> lookup_row key (key r) rows = Some r"
proof (induction rows)
  case (Cons x rows)
  have "key x \<noteq> key r" if "r \<in> set rows"
    using Cons.prems(1) that by (metis distinct.simps(2) image_eqI list.set_map list.simps(9))
  with Cons show ?case by (auto simp: lookup_row_def)
qed simp

lemma map_replace_row:
  assumes "\<And>r. r \<in> set rows \<Longrightarrow> key r = k \<Longrightarrow> g new = g r"
  shows "List.map g (replace_row key k new rows) = List.map g rows"
  using assms by (auto simp: replace_row_def)

lemma set_replace_row_sub: "set (replace_row key k new rows) \<subseteq> insert new (set rows)"
  by (auto simp: replace_row_def)

lemma ball_replace_row: "P new \<Longrightarrow> \<forall>r\<in>set rows. P r \<Longrightarrow> \<forall>r\<in>set (replace_row key k new rows). P r"
  using set_replace_row_sub by fastforce

lemma replace_row_Cons:
  "replace_row key k new (r # rows) = (if key r = k then new else r) # replace_row key k new rows"
  by (simp add: replace_row_def)

lemma replace_row_absent: "k \<notin> key ` set rows \<Longrightarrow> replace_row key k new rows = rows"
  by (induction rows) (auto simp: replace_row_def)

lemma distinct_replace_row:
  assumes "distinct (List.map g rows)" "distinct (List.map key rows)"
    and "\<forall>r\<in>set rows. key r = k \<or> g r \<noteq> g new"
  shows "distinct (List.map g (replace_row key k new rows))"
  using assms
proof (induction rows)
  case (Cons r rows)
  show ?case
  proof (cases "key r = k")
    case True
    with Cons.prems(2) have absent: "k \<notin> key ` set rows" by auto
    then have "g new \<notin> g ` set rows" using Cons.prems(3) True by (metis (no_types, lifting) image_iff list.set_intros(2))
    with True Cons.prems(1) show ?thesis
      by (simp add: replace_row_Cons replace_row_absent [OF absent])
  next
    case False
    have "g r \<notin> g ` set (replace_row key k new rows)"
      using Cons.prems False set_replace_row_sub [of key k new rows] by fastforce
    with False Cons show ?thesis by (simp add: replace_row_Cons)
  qed
qed (simp add: replace_row_def)

lemma map_replace_row_key: "key new = k \<Longrightarrow> List.map key (replace_row key k new rows) = List.map key rows"
  by (rule map_replace_row) auto

lemma image_replace_row_key: "key new = k \<Longrightarrow> key ` set (replace_row key k new rows) = key ` set rows"
  using map_replace_row_key [of key new k rows] by (metis list.set_map)

section \<open>Frames\<close>

text \<open>Each part reads a few tables; it survives when its own table is untouched and the tables it
  refers to only grow in ids.\<close>

lemma wf_records_frame:
  "wf_records a \<Longrightarrow> dbRecords b = dbRecords a \<Longrightarrow> project_ids a \<subseteq> project_ids b \<Longrightarrow>
   device_ids a \<subseteq> device_ids b \<Longrightarrow> wf_records b"
  by (auto simp: wf_records_def record_fks_def)

lemma wf_figures_frame:
  "wf_figures a \<Longrightarrow> dbFigures b = dbFigures a \<Longrightarrow> dbFigureSeq b = dbFigureSeq a \<Longrightarrow>
   record_ids a \<subseteq> record_ids b \<Longrightarrow> wf_figures b"
  by (auto simp: wf_figures_def)

lemma wf_data_files_frame:
  "wf_data_files a \<Longrightarrow> dbDataFiles b = dbDataFiles a \<Longrightarrow> dbDataFileSeq b = dbDataFileSeq a \<Longrightarrow>
   record_ids a \<subseteq> record_ids b \<Longrightarrow> wf_data_files b"
  by (auto simp: wf_data_files_def)

lemma wf_registries_frame:
  "wf_registries a \<Longrightarrow> dbProjects b = dbProjects a \<Longrightarrow> dbDevices b = dbDevices a \<Longrightarrow>
   dbTemplates b = dbTemplates a \<Longrightarrow> wf_registries b"
  by (auto simp: wf_registries_def id_sets)

lemma wf_paths_frame:
  "wf_paths a \<Longrightarrow> dbPaths b = dbPaths a \<Longrightarrow> project_ids a \<subseteq> project_ids b \<Longrightarrow>
   device_ids a \<subseteq> device_ids b \<Longrightarrow> wf_paths b"
  by (auto simp: wf_paths_def)

lemma wf_chats_frame:
  "wf_chats a \<Longrightarrow> dbChats b = dbChats a \<Longrightarrow> project_ids a \<subseteq> project_ids b \<Longrightarrow>
   device_ids a \<subseteq> device_ids b \<Longrightarrow> wf_chats b"
  by (auto simp: wf_chats_def chat_fks_iff)

lemma wf_items_frame:
  "wf_items a \<Longrightarrow> dbItems b = dbItems a \<Longrightarrow> dbItemSeq b = dbItemSeq a \<Longrightarrow>
   chat_ids a \<subseteq> chat_ids b \<Longrightarrow> wf_items b"
  by (auto simp: wf_items_def)

lemmas wf_frames = wf_records_frame wf_figures_frame wf_data_files_frame wf_registries_frame
  wf_paths_frame wf_chats_frame wf_items_frame

text \<open>A change of one table: its own part is the only new obligation when ids only grow.\<close>

lemma wf_db_records:
  assumes "wf_db db" "wf_records (db \<lparr> dbRecords := rs \<rparr>)" "rID ` set (dbRecords db) \<subseteq> rID ` set rs"
  shows "wf_db (db \<lparr> dbRecords := rs \<rparr>)"
  using assms unfolding wf_db_def by (intro conjI) (auto elim!: wf_frames simp: id_sets image_subset_iff)

lemma wf_db_figures:
  assumes "wf_db db" "wf_figures (db \<lparr> dbFigures := fs, dbFigureSeq := n \<rparr>)"
  shows "wf_db (db \<lparr> dbFigures := fs, dbFigureSeq := n \<rparr>)"
  using assms unfolding wf_db_def by (intro conjI) (auto elim!: wf_frames simp: id_sets image_subset_iff)

lemma wf_db_data_files:
  assumes "wf_db db" "wf_data_files (db \<lparr> dbDataFiles := fs, dbDataFileSeq := n \<rparr>)"
  shows "wf_db (db \<lparr> dbDataFiles := fs, dbDataFileSeq := n \<rparr>)"
  using assms unfolding wf_db_def by (intro conjI) (auto elim!: wf_frames simp: id_sets image_subset_iff)

lemma wf_db_templates:
  assumes "wf_db db" "distinct (List.map tName ts)"
  shows "wf_db (db \<lparr> dbTemplates := ts \<rparr>)"
  using assms unfolding wf_db_def
  by (intro conjI) (auto elim!: wf_frames simp: id_sets wf_registries_def image_subset_iff)

lemma wf_db_projects:
  assumes "wf_db db" "distinct (List.map gID gs)" "[] \<notin> gID ` set gs" "project_ids db \<subseteq> gID ` set gs"
  shows "wf_db (db \<lparr> dbProjects := gs \<rparr>)"
  using assms unfolding wf_db_def
  by (intro conjI) (auto elim!: wf_frames simp: id_sets wf_registries_def image_subset_iff)

lemma wf_db_devices:
  assumes "wf_db db" "distinct (List.map gID gs)" "[] \<notin> gID ` set gs" "device_ids db \<subseteq> gID ` set gs"
  shows "wf_db (db \<lparr> dbDevices := gs \<rparr>)"
  using assms unfolding wf_db_def
  by (intro conjI) (auto elim!: wf_frames simp: id_sets wf_registries_def image_subset_iff)

lemma wf_db_chats:
  assumes "wf_db db" "wf_chats (db \<lparr> dbChats := cs \<rparr>)" "chat_ids db \<subseteq> csID ` set cs"
  shows "wf_db (db \<lparr> dbChats := cs \<rparr>)"
  using assms unfolding wf_db_def
  by (intro conjI) (auto elim!: wf_frames simp: id_sets image_subset_iff)

section \<open>Every statement\<close>

named_theorems statement_intros \<open>statements that keep the integrity of the database\<close>

lemma statement_keepsI:
  "(\<And>now db a db'. I db \<Longrightarrow> f now db = Inr (a, db') \<Longrightarrow> I db') \<Longrightarrow> statement_keeps I f"
  by (auto simp: statement_keeps_def)

lemma statement_keepsD: "statement_keeps I f \<Longrightarrow> I db \<Longrightarrow> f now db = Inr (a, db') \<Longrightarrow> I db'"
  by (auto simp: statement_keeps_def)

lemma insert_record_wf [statement_intros]: "statement_keeps wf_db (\<lambda>now. insert_record (r now) now)"
proof (rule statement_keepsI)
  fix now db a db'
  assume wf: "wf_db db" and run: "insert_record (r now) now db = Inr (a, db')"
  then have new: "record_checks (r now)" "rID (r now) \<notin> record_ids db" "record_fks db (r now)"
    and db': "db' = bump now (db \<lparr> dbRecords := dbRecords db @ [r now] \<rparr>)"
    by (auto simp: insert_record_def split: if_splits)
  have "wf_db (db \<lparr> dbRecords := dbRecords db @ [r now] \<rparr>)"
    using wf new by (intro wf_db_records) (auto simp: wf_db_def wf_records_def id_sets record_fks_def)
  then show "wf_db db'" by (simp add: db')
qed

lemma wf_replace_record:
  assumes "wf_db db" "record_checks new" "record_fks db new" "rID new = i"
  shows "wf_db (db \<lparr> dbRecords := replace_row rID i new (dbRecords db) \<rparr>)"
proof (rule wf_db_records)
  have "\<forall>r\<in>set (replace_row rID i new (dbRecords db)). record_checks r \<and> record_fks db r"
    using assms by (intro ball_replace_row) (auto simp: wf_db_def wf_records_def)
  then show "wf_records (db \<lparr> dbRecords := replace_row rID i new (dbRecords db) \<rparr>)"
    using assms by (auto simp: wf_db_def wf_records_def map_replace_row_key record_fks_def id_sets)
qed (use assms in \<open>simp_all add: image_replace_row_key\<close>)

lemma auto_updated_record_parts [simp]:
  "rID (auto_updated_record now old new) = rID new"
  "record_checks (auto_updated_record now old new) = record_checks new"
  "record_fks db (auto_updated_record now old new) = record_fks db new"
  by (simp_all add: auto_updated_record_def record_checks_def record_fks_def)

lemma update_record_wf [statement_intros]:
  assumes "\<And>now r. rID (f now r) = rID r"
  shows "statement_keeps wf_db (update_record i f)"
proof (rule statement_keepsI)
  fix now db a db'
  assume "wf_db db" "update_record i f now db = Inr (a, db')"
  then show "wf_db db'"
    using assms lookup_row_Some [of rID i "dbRecords db"]
    by (auto simp: update_record_def Let_def split: option.splits if_splits intro!: wf_replace_record)
qed

lemma image_remaining: "x \<in> g ` A \<Longrightarrow> x \<notin> g ` {y \<in> A. P y} \<Longrightarrow> x \<in> g ` {y \<in> A. \<not> P y}"
  by blast

lemma delete_records_wf [statement_intros]: "statement_keeps wf_db (delete_records P)"
proof (rule statement_keepsI)
  fix now db a db'
  assume wf: "wf_db db" and run: "delete_records P now db = Inr (a, db')"
  let ?gone = "rID ` set (filter P (dbRecords db))"
  let ?db = "db \<lparr> dbRecords := filter (\<lambda>r. \<not> P r) (dbRecords db),
                  dbFigures := filter (\<lambda>f. fgRecordID f \<notin> ?gone) (dbFigures db),
                  dbDataFiles := filter (\<lambda>f. dfRecordID f \<notin> ?gone) (dbDataFiles db) \<rparr>"
  from run have "wf_db db' = wf_db ?db" by (auto simp: delete_records_def Let_def)
  moreover have "wf_records ?db" "wf_figures ?db" "wf_data_files ?db"
    using wf by (auto simp: wf_db_def wf_records_def wf_figures_def wf_data_files_def id_sets record_fks_def
        distinct_map_filter intro!: image_remaining)
  moreover have "wf_registries ?db" "wf_paths ?db" "wf_chats ?db" "wf_items ?db"
    using wf by (auto simp: wf_db_def id_sets elim!: wf_frames)
  ultimately show "wf_db db'" by (simp add: wf_db_def)
qed

lemma insert_figure_wf [statement_intros]: "statement_keeps wf_db (insert_figure c)"
proof (rule statement_keepsI)
  fix now db a db'
  assume wf: "wf_db db" and run: "insert_figure c now db = Inr (a, db')"
  let ?f = "\<lparr> fgID = dbFigureSeq db + 1, fgRecordID = cfRecordID c, fgFilename = cfFilename c,
               fgS3Key = cfS3Key c, fgAltText = cfAltText c, fgCreatedAt = now \<rparr>"
  let ?db = "db \<lparr> dbFigures := dbFigures db @ [?f], dbFigureSeq := dbFigureSeq db + 1 \<rparr>"
  from run have new: "figure_checks ?f" "figure_unique db (dbFigureSeq db + 1) ?f" "cfRecordID c \<in> record_ids db"
    and "wf_db db' = wf_db ?db"
    by (auto simp: insert_figure_def Let_def split: if_splits)
  moreover have "wf_figures db" using wf by (simp add: wf_db_def)
  moreover from this have "dbFigureSeq db + 1 \<notin> fgID ` set (dbFigures db)"
    by (force simp: wf_figures_def)
  moreover from this have "(fgRecordID ?f, fgFilename ?f) \<notin> (\<lambda>f. (fgRecordID f, fgFilename f)) ` set (dbFigures db)"
    using new(2) by (force simp: figure_unique_def list_all_iff)
  ultimately have "wf_figures ?db"
    using new by (auto simp: wf_figures_def id_sets intro: add_increasing2)
  with wf \<open>wf_db db' = wf_db ?db\<close> show "wf_db db'" by (simp add: wf_db_figures)
qed

lemma wf_db_figures_same:
  "wf_db db \<Longrightarrow> wf_figures (db \<lparr> dbFigures := fs \<rparr>) \<Longrightarrow> wf_db (db \<lparr> dbFigures := fs \<rparr>)"
  using wf_db_figures [of db "dbFigureSeq db" fs] by simp

lemma update_figure_wf [statement_intros]:
  assumes "\<And>x. fgID (f x) = fgID x" "\<And>x. fgRecordID (f x) = fgRecordID x"
  shows "statement_keeps wf_db (update_figure i f)"
proof (rule statement_keepsI)
  fix now db a db'
  assume wf: "wf_db db" and run: "update_figure i f now db = Inr (a, db')"
  show "wf_db db'"
  proof (cases "lookup_row fgID i (dbFigures db)")
    case (Some old)
    let ?fs = "replace_row fgID i (f old) (dbFigures db)"
    from run Some have "db' = db \<or> wf_db db' = wf_db (db \<lparr> dbFigures := ?fs \<rparr>)"
      and new: "figure_checks (f old)" "figure_unique db i (f old)"
      by (auto simp: update_figure_def Let_def split: if_splits)
    moreover have old: "old \<in> set (dbFigures db)" "fgID old = i" using lookup_row_Some [OF Some] by auto
    moreover have W: "wf_figures db" using wf by (simp add: wf_db_def)
    have "\<forall>g\<in>set ?fs. 0 < fgID g \<and> fgID g \<le> dbFigureSeq db \<and> figure_checks g \<and> fgRecordID g \<in> record_ids db"
      using W new old assms by (intro ball_replace_row) (auto simp: wf_figures_def)
    moreover have "distinct (List.map (\<lambda>f. (fgRecordID f, fgFilename f)) ?fs)"
      using W new assms by (intro distinct_replace_row) (auto simp: wf_figures_def figure_unique_def list_all_iff)
    ultimately have "wf_figures (db \<lparr> dbFigures := ?fs \<rparr>)"
      using W assms by (auto simp: wf_figures_def map_replace_row_key id_sets)
    with wf show ?thesis using \<open>db' = db \<or> _\<close> by (auto simp: wf_db_figures_same)
  qed (use wf run in \<open>auto simp: update_figure_def\<close>)
qed

lemma delete_figures_wf [statement_intros]: "statement_keeps wf_db (delete_figures P)"
proof (rule statement_keepsI)
  fix now db a db'
  assume wf: "wf_db db" and run: "delete_figures P now db = Inr (a, db')"
  then have "wf_figures (db \<lparr> dbFigures := filter (\<lambda>f. \<not> P f) (dbFigures db) \<rparr>)"
    by (auto simp: wf_db_def wf_figures_def distinct_map_filter id_sets)
  with wf run show "wf_db db'" by (auto simp: delete_figures_def Let_def wf_db_figures_same)
qed

lemma insert_data_file_wf [statement_intros]: "statement_keeps wf_db (insert_data_file c)"
proof (rule statement_keepsI)
  fix now db a db'
  assume wf: "wf_db db" and run: "insert_data_file c now db = Inr (a, db')"
  let ?f = "\<lparr> dfID = dbDataFileSeq db + 1, dfRecordID = cdRecordID c, dfFilename = cdFilename c, dfS3Key = cdS3Key c,
               dfSize = cdSize c, dfHash = cdHash c, dfDescription = cdDescription c, dfCreatedAt = now \<rparr>"
  let ?db = "db \<lparr> dbDataFiles := dbDataFiles db @ [?f], dbDataFileSeq := dbDataFileSeq db + 1 \<rparr>"
  from run have new: "data_file_checks ?f" "data_file_unique db (dbDataFileSeq db + 1) ?f"
      "cdRecordID c \<in> record_ids db"
    and "wf_db db' = wf_db ?db"
    by (auto simp: insert_data_file_def Let_def split: if_splits)
  moreover have "wf_data_files db" using wf by (simp add: wf_db_def)
  moreover from this have "dbDataFileSeq db + 1 \<notin> dfID ` set (dbDataFiles db)"
    by (force simp: wf_data_files_def)
  moreover from this have "(dfRecordID ?f, dfFilename ?f) \<notin> (\<lambda>f. (dfRecordID f, dfFilename f)) ` set (dbDataFiles db)"
    using new(2) by (force simp: data_file_unique_def list_all_iff)
  ultimately have "wf_data_files ?db"
    using new by (auto simp: wf_data_files_def id_sets intro: add_increasing2)
  with wf \<open>wf_db db' = wf_db ?db\<close> show "wf_db db'" by (simp add: wf_db_data_files)
qed

lemma wf_db_data_files_same:
  "wf_db db \<Longrightarrow> wf_data_files (db \<lparr> dbDataFiles := fs \<rparr>) \<Longrightarrow> wf_db (db \<lparr> dbDataFiles := fs \<rparr>)"
  using wf_db_data_files [of db "dbDataFileSeq db" fs] by simp

lemma update_data_file_wf [statement_intros]:
  assumes "\<And>x. dfID (f x) = dfID x" "\<And>x. dfRecordID (f x) = dfRecordID x"
  shows "statement_keeps wf_db (update_data_file i f)"
proof (rule statement_keepsI)
  fix now db a db'
  assume wf: "wf_db db" and run: "update_data_file i f now db = Inr (a, db')"
  show "wf_db db'"
  proof (cases "lookup_row dfID i (dbDataFiles db)")
    case (Some old)
    let ?fs = "replace_row dfID i (f old) (dbDataFiles db)"
    from run Some have "db' = db \<or> wf_db db' = wf_db (db \<lparr> dbDataFiles := ?fs \<rparr>)"
      and new: "data_file_checks (f old)" "data_file_unique db i (f old)"
      by (auto simp: update_data_file_def Let_def split: if_splits)
    moreover have old: "old \<in> set (dbDataFiles db)" "dfID old = i" using lookup_row_Some [OF Some] by auto
    moreover have W: "wf_data_files db" using wf by (simp add: wf_db_def)
    have "\<forall>g\<in>set ?fs. 0 < dfID g \<and> dfID g \<le> dbDataFileSeq db \<and> data_file_checks g \<and> dfRecordID g \<in> record_ids db"
      using W new old assms by (intro ball_replace_row) (auto simp: wf_data_files_def)
    moreover have "distinct (List.map (\<lambda>f. (dfRecordID f, dfFilename f)) ?fs)"
      using W new assms by (intro distinct_replace_row) (auto simp: wf_data_files_def data_file_unique_def list_all_iff)
    ultimately have "wf_data_files (db \<lparr> dbDataFiles := ?fs \<rparr>)"
      using W assms by (auto simp: wf_data_files_def map_replace_row_key id_sets)
    with wf show ?thesis using \<open>db' = db \<or> _\<close> by (auto simp: wf_db_data_files_same)
  qed (use wf run in \<open>auto simp: update_data_file_def\<close>)
qed

lemma delete_data_files_wf [statement_intros]: "statement_keeps wf_db (delete_data_files P)"
proof (rule statement_keepsI)
  fix now db a db'
  assume wf: "wf_db db" and run: "delete_data_files P now db = Inr (a, db')"
  then have "wf_data_files (db \<lparr> dbDataFiles := filter (\<lambda>f. \<not> P f) (dbDataFiles db) \<rparr>)"
    by (auto simp: wf_db_def wf_data_files_def distinct_map_filter id_sets)
  with wf run show "wf_db db'" by (auto simp: delete_data_files_def Let_def wf_db_data_files_same)
qed

lemma insert_template_wf [statement_intros]: "statement_keeps wf_db (\<lambda>now. insert_template (t now) now)"
proof (rule statement_keepsI)
  fix now db a db'
  assume wf: "wf_db db" and run: "insert_template (t now) now db = Inr (a, db')"
  then have "distinct (List.map tName (dbTemplates db @ [t now]))"
    by (auto simp: insert_template_def wf_db_def wf_registries_def split: if_splits)
  from wf_db_templates [OF wf this] run show "wf_db db'" by (auto simp: insert_template_def split: if_splits)
qed

lemma update_template_wf [statement_intros]:
  assumes "\<And>x. tName (f x) = tName x"
  shows "statement_keeps wf_db (update_template name f)"
proof (rule statement_keepsI)
  fix now db a db'
  assume wf: "wf_db db" and run: "update_template name f now db = Inr (a, db')"
  show "wf_db db'"
  proof (cases "lookup_row tName name (dbTemplates db)")
    case (Some old)
    have "distinct (List.map tName (replace_row tName name new (dbTemplates db)))" if "tName new = name" for new
      using that wf by (simp add: map_replace_row_key wf_db_def wf_registries_def)
    then have "wf_db (db \<lparr> dbTemplates := replace_row tName name new (dbTemplates db) \<rparr>)" if "tName new = name" for new
      using that wf by (simp add: wf_db_templates)
    then show ?thesis
      using run Some lookup_row_Some [OF Some] assms by (auto simp: update_template_def Let_def)
  qed (use wf run in \<open>auto simp: update_template_def\<close>)
qed

lemma delete_templates_wf [statement_intros]: "statement_keeps wf_db (delete_templates name)"
proof (rule statement_keepsI)
  fix now db a db'
  assume wf: "wf_db db" and run: "delete_templates name now db = Inr (a, db')"
  then have "distinct (List.map tName (filter (\<lambda>t. tName t \<noteq> name) (dbTemplates db)))"
    by (simp add: wf_db_def wf_registries_def distinct_map_filter)
  from wf_db_templates [OF wf this] run show "wf_db db'" by (auto simp: delete_templates_def Let_def)
qed

lemma wf_registries_wf: "wf_db db \<Longrightarrow> wf_registries db"
  by (simp add: wf_db_def)

lemma insert_project_wf [statement_intros]: "statement_keeps wf_db (\<lambda>now. insert_project (g now) now)"
proof (rule statement_keepsI)
  fix now db a db'
  assume wf: "wf_db db" and run: "insert_project (g now) now db = Inr (a, db')"
  then have "wf_db (db \<lparr> dbProjects := dbProjects db @ [g now] \<rparr>)"
    using wf_registries_wf [OF wf] by (intro wf_db_projects)
      (auto simp: insert_project_def wf_registries_def id_sets split: if_splits)
  with run show "wf_db db'" by (auto simp: insert_project_def split: if_splits)
qed

lemma insert_device_wf [statement_intros]: "statement_keeps wf_db (\<lambda>now. insert_device (g now) now)"
proof (rule statement_keepsI)
  fix now db a db'
  assume wf: "wf_db db" and run: "insert_device (g now) now db = Inr (a, db')"
  then have "wf_db (db \<lparr> dbDevices := dbDevices db @ [g now] \<rparr>)"
    using wf_registries_wf [OF wf] by (intro wf_db_devices)
      (auto simp: insert_device_def wf_registries_def id_sets split: if_splits)
  with run show "wf_db db'" by (auto simp: insert_device_def split: if_splits)
qed

lemma auto_updated_registry_id [simp]: "gID (auto_updated_registry now old new) = gID new"
  by (simp add: auto_updated_registry_def)

lemma update_project_wf [statement_intros]:
  assumes "\<And>now x. gID (f now x) = gID x"
  shows "statement_keeps wf_db (update_project i f)"
proof (rule statement_keepsI)
  fix now db a db'
  assume wf: "wf_db db" and run: "update_project i f now db = Inr (a, db')"
  have "wf_db (db \<lparr> dbProjects := replace_row gID i new (dbProjects db) \<rparr>)" if "gID new = i" for new
    using that wf wf_registries_wf [OF wf] by (intro wf_db_projects)
      (auto simp: map_replace_row_key image_replace_row_key wf_registries_def id_sets)
  then show "wf_db db'"
    using run wf assms lookup_row_Some [of gID i "dbProjects db"]
    by (auto simp: update_project_def Let_def split: option.splits)
qed

lemma update_device_wf [statement_intros]:
  assumes "\<And>now x. gID (f now x) = gID x"
  shows "statement_keeps wf_db (update_device i f)"
proof (rule statement_keepsI)
  fix now db a db'
  assume wf: "wf_db db" and run: "update_device i f now db = Inr (a, db')"
  have "wf_db (db \<lparr> dbDevices := replace_row gID i new (dbDevices db) \<rparr>)" if "gID new = i" for new
    using that wf wf_registries_wf [OF wf] by (intro wf_db_devices)
      (auto simp: map_replace_row_key image_replace_row_key wf_registries_def id_sets)
  then show "wf_db db'"
    using run wf assms lookup_row_Some [of gID i "dbDevices db"]
    by (auto simp: update_device_def Let_def split: option.splits)
qed

lemma insert_path_wf [statement_intros]: "statement_keeps wf_db (\<lambda>now. insert_path_or_ignore (p now) now)"
proof (rule statement_keepsI)
  fix now db a db'
  assume wf: "wf_db db" and run: "insert_path_or_ignore (p now) now db = Inr (a, db')"
  let ?db = "db \<lparr> dbPaths := dbPaths db @ [p now \<lparr> ppID := dbPathSeq db + 1 \<rparr>], dbPathSeq := dbPathSeq db + 1 \<rparr>"
  have "wf_records ?db" "wf_figures ?db" "wf_data_files ?db" "wf_registries ?db" "wf_chats ?db" "wf_items ?db"
    using wf by (auto simp: wf_db_def id_sets elim!: wf_frames)
  moreover have "wf_paths ?db" if "db' \<noteq> db"
    using that wf run
    by (fastforce simp: insert_path_or_ignore_def wf_db_def wf_paths_def id_sets list_ex_iff Let_def split: if_splits)
  ultimately have "wf_db ?db" if "db' \<noteq> db" using that by (simp add: wf_db_def)
  moreover have "db' = db \<or> wf_db db' = wf_db ?db"
    using run by (auto simp: insert_path_or_ignore_def Let_def split: if_splits)
  ultimately show "wf_db db'" using wf by blast
qed

lemma auto_updated_chat_parts [simp]:
  "csID (auto_updated_chat now old new) = csID new"
  "csSource (auto_updated_chat now old new) = csSource new"
  "csSourceSessionID (auto_updated_chat now old new) = csSourceSessionID new"
  "chat_checks (auto_updated_chat now old new) = chat_checks new"
  "chat_fks db (auto_updated_chat now old new) = chat_fks db new"
  by (simp_all add: auto_updated_chat_def chat_checks_def chat_fks_def split: option.splits)

abbreviation source_of :: "ChatSession \<Rightarrow> string \<times> string" where
  "source_of c \<equiv> (csSource c, csSourceSessionID c)"

text \<open>Chats may be rewritten in place as long as key and source stay.\<close>

lemma wf_map_chats:
  assumes "wf_db db" "\<And>c. c \<in> set (dbChats db) \<Longrightarrow> csID (g c) = csID c \<and> source_of (g c) = source_of c"
    and "\<And>c. c \<in> set (dbChats db) \<Longrightarrow> chat_checks (g c) \<and> chat_fks db (g c)"
  shows "wf_db (db \<lparr> dbChats := List.map g (dbChats db) \<rparr>)"
proof (rule wf_db_chats)
  have keys: "List.map (\<lambda>c. csID (g c)) (dbChats db) = List.map csID (dbChats db)"
    "List.map (\<lambda>c. source_of (g c)) (dbChats db) = List.map source_of (dbChats db)"
    using assms(2) by auto
  have "chat_fks (db \<lparr> dbChats := cs \<rparr>) c = chat_fks db c" for cs c
    by (simp add: chat_fks_iff id_sets)
  then show "wf_chats (db \<lparr> dbChats := List.map g (dbChats db) \<rparr>)"
    using assms(1,3) by (auto simp: wf_db_def wf_chats_def comp_def keys)
  show "chat_ids db \<subseteq> csID ` set (List.map g (dbChats db))"
    using assms(2) by (auto simp: chat_ids_def image_iff)
qed (rule assms)

lemma update_chat_keeps_wf:
  assumes wf: "wf_db db" and run: "update_chat i f now db = Inr (a, db')"
    and f: "\<And>old. lookup_row csID i (dbChats db) = Some old \<Longrightarrow>
              csID (f now old) = csID old \<and> source_of (f now old) = source_of old"
  shows "wf_db db'"
proof (cases "lookup_row csID i (dbChats db)")
  case (Some old)
  let ?new = "auto_updated_chat now old (f now old)"
  have old: "old \<in> set (dbChats db)" "csID old = i" using lookup_row_Some [OF Some] by auto
  have same: "c = old" if "c \<in> set (dbChats db)" "csID c = i" for c
    using wf that lookup_row_unique [of csID "dbChats db" c] Some by (auto simp: wf_db_def wf_chats_def)
  have new: "chat_checks (f now old)" "chat_fks db (f now old)"
    using run Some by (auto simp: update_chat_def Let_def split: if_splits)
  let ?g = "\<lambda>c. if csID c = i then ?new else c"
  have "csID (?g c) = csID c \<and> source_of (?g c) = source_of c" if "c \<in> set (dbChats db)" for c
    using same [OF that] f [OF Some] old by (cases "csID c = i") auto
  moreover have "chat_checks (?g c) \<and> chat_fks db (?g c)" if "c \<in> set (dbChats db)" for c
    using wf new that by (auto simp: wf_db_def wf_chats_def)
  ultimately have "wf_db (db \<lparr> dbChats := replace_row csID i ?new (dbChats db) \<rparr>)"
    unfolding replace_row_def by (intro wf_map_chats wf)
  with run Some wf show ?thesis by (auto simp: update_chat_def Let_def split: if_splits)
qed (use wf run in \<open>auto simp: update_chat_def\<close>)

lemma update_chat_wf [statement_intros]:
  assumes "\<And>now c. csID (f now c) = csID c \<and> source_of (f now c) = source_of c"
  shows "statement_keeps wf_db (update_chat i f)"
  using assms by (intro statement_keepsI) (rule update_chat_keeps_wf)

lemma upsert_chat_wf [statement_intros]:
  assumes m: "\<And>now c. csID (m now c) = csID c \<and> source_of (m now c) = source_of c"
  shows "statement_keeps wf_db (\<lambda>now. upsert_chat (x now) (m now) now)"
proof (rule statement_keepsI)
  fix now db a db'
  assume wf: "wf_db db" and run: "upsert_chat (x now) (m now) now db = Inr (a, db')"
  show "wf_db db'"
  proof (cases "List.find (same_source (x now)) (dbChats db)")
    case None
    then have "chat_checks (x now)" "csID (x now) \<notin> chat_ids db" "chat_fks db (x now)"
      and db': "db' = bump now (db \<lparr> dbChats := dbChats db @ [x now] \<rparr>)"
      using run by (auto simp: upsert_chat_def split: if_splits)
    moreover have "source_of (x now) \<notin> source_of ` set (dbChats db)"
      using None by (auto simp: find_None_iff same_source_def)
    ultimately have "wf_chats (db \<lparr> dbChats := dbChats db @ [x now] \<rparr>)"
      using wf by (auto simp: wf_db_def wf_chats_def id_sets chat_fks_iff)
    then have "wf_db (db \<lparr> dbChats := dbChats db @ [x now] \<rparr>)"
      by (rule wf_db_chats [OF wf]) (auto simp: id_sets)
    then show ?thesis by (simp add: db')
  next
    case (Some old)
    then obtain n where "update_chat (csID old) (\<lambda>_. m now) now db = Inr (n, db')"
      using run by (auto simp: upsert_chat_def split: if_splits sum.splits)
    then show ?thesis using m by (auto intro: update_chat_keeps_wf [OF wf])
  qed
qed

lemma restore_chat_wf [statement_intros]: "statement_keeps wf_db (restore_chat i)"
proof (rule statement_keepsI)
  fix now db a db'
  assume wf: "wf_db db" and run: "restore_chat i now db = Inr (a, db')"
  then have "db' = db \<or> update_chat i (\<lambda>_ c. c \<lparr> csDeletedAt := None \<rparr>) now db = Inr (a, db')"
    by (auto simp: restore_chat_def split: option.splits if_splits)
  then show "wf_db db'" using wf by (auto intro: update_chat_keeps_wf)
qed

lemma backfilled_wf:
  assumes "wf_db db" "c \<in> set (dbChats db)" "backfilled db c = Some new"
  shows "csID new = csID c \<and> source_of new = source_of c \<and> chat_checks new \<and> chat_fks db new"
proof -
  obtain p ps where c: "covering_paths db c = p # ps" and new: "new = c \<lparr> csProjectID := Some (ppProjectID p) \<rparr>"
    using assms(3) by (auto simp: backfilled_def split: if_splits list.splits)
  have "p \<in> set (covering_paths db c)" using c by simp
  then have "p \<in> set (dbPaths db)" by (auto simp: covering_paths_def split: option.splits)
  then show ?thesis
    using assms(1,2) new
    by (auto simp: wf_db_def wf_paths_def wf_chats_def chat_fks_def chat_checks_def split: option.splits)
qed

lemma backfill_wf [statement_intros]: "statement_keeps wf_db backfill"
proof (rule statement_keepsI)
  fix now db a db'
  assume wf: "wf_db db" and run: "backfill now db = Inr (a, db')"
  let ?g = "\<lambda>c. case backfilled db c of None \<Rightarrow> c | Some new \<Rightarrow> auto_updated_chat now c new"
  have "csID (?g c) = csID c \<and> source_of (?g c) = source_of c" if "c \<in> set (dbChats db)" for c
    using backfilled_wf [OF wf that] by (cases "backfilled db c") auto
  moreover have "chat_checks (?g c) \<and> chat_fks db (?g c)" if "c \<in> set (dbChats db)" for c
    using backfilled_wf [OF wf that] wf that
    by (cases "backfilled db c") (auto simp: wf_db_def wf_chats_def)
  ultimately have "wf_db (db \<lparr> dbChats := List.map ?g (dbChats db) \<rparr>)" by (intro wf_map_chats wf)
  with run show "wf_db db'" by (auto simp: backfill_def Let_def)
qed

lemma delete_chats_wf [statement_intros]: "statement_keeps wf_db (delete_chats i)"
proof (rule statement_keepsI)
  fix now db a db'
  assume wf: "wf_db db" and run: "delete_chats i now db = Inr (a, db')"
  let ?db = "\<lambda>items. db \<lparr> dbChats := filter (\<lambda>c. csID c \<noteq> i) (dbChats db), dbItems := items \<rparr>"
  let ?items = "filter (\<lambda>x. ciSessionID x \<noteq> i) (dbItems db)"
  have none: "?items = dbItems db" if "filter (\<lambda>c. csID c = i) (dbChats db) = []"
    using that wf by (intro filter_True) (fastforce simp: wf_db_def wf_items_def id_sets filter_empty_conv)
  have "wf_db db' = wf_db (?db ?items)"
    using run none by (auto simp: delete_chats_def Let_def split: if_splits)
  moreover have "wf_chats (?db ?items)" "wf_items (?db ?items)"
    using wf by (auto simp: wf_db_def wf_chats_def wf_items_def id_sets chat_fks_iff distinct_map_filter)
  moreover have "wf_records (?db ?items)" "wf_figures (?db ?items)" "wf_data_files (?db ?items)"
    "wf_registries (?db ?items)" "wf_paths (?db ?items)"
    using wf by (auto simp: wf_db_def id_sets elim!: wf_frames)
  ultimately show "wf_db db'" by (simp add: wf_db_def)
qed

lemma wf_db_items:
  assumes "wf_db db" "wf_items (db \<lparr> dbItems := xs, dbItemSeq := n \<rparr>)"
  shows "wf_db (db \<lparr> dbItems := xs, dbItemSeq := n \<rparr>)"
  using assms unfolding wf_db_def by (intro conjI) (auto elim!: wf_frames simp: id_sets)

lemma insert_item_wf [statement_intros]: "statement_keeps wf_db (\<lambda>now. insert_item (it now) now)"
proof (rule statement_keepsI)
  fix now db a db'
  assume wf: "wf_db db" and run: "insert_item (it now) now db = Inr (a, db')"
  let ?x = "it now \<lparr> ciID := dbItemSeq db + 1 \<rparr>"
  let ?db = "db \<lparr> dbItems := dbItems db @ [?x], dbItemSeq := dbItemSeq db + 1 \<rparr>"
  have W: "wf_items db" using wf by (simp add: wf_db_def)
  have new: "item_checks ?x" "ciSessionID ?x \<in> chat_ids db"
    "(ciSessionID ?x, ciOrdinal ?x) \<notin> (\<lambda>x. (ciSessionID x, ciOrdinal x)) ` set (dbItems db)"
    and db': "db' = bump now ?db"
    using run by (auto simp: insert_item_def Let_def list_ex_iff item_checks_def split: if_splits)
  have "dbItemSeq db + 1 \<notin> ciID ` set (dbItems db)" using W by (force simp: wf_items_def)
  with new W have "wf_items ?db" by (auto simp: wf_items_def id_sets intro: add_increasing2)
  with wf show "wf_db db'" by (simp add: db' wf_db_items)
qed

lemma delete_items_wf [statement_intros]: "statement_keeps wf_db (delete_items i)"
proof (rule statement_keepsI)
  fix now db a db'
  assume wf: "wf_db db" and run: "delete_items i now db = Inr (a, db')"
  have "wf_items (db \<lparr> dbItems := filter (\<lambda>x. ciSessionID x \<noteq> i) (dbItems db), dbItemSeq := dbItemSeq db \<rparr>)"
    using wf by (auto simp: wf_db_def wf_items_def id_sets distinct_map_filter)
  from wf_db_items [OF wf this] run show "wf_db db'" by (auto simp: delete_items_def Let_def)
qed

lemma upsert_record_wf [statement_intros]: "statement_keeps wf_db (upsert_record c b)"
proof (rule statement_keepsI)
  fix now db a db'
  assume wf: "wf_db db" and run: "upsert_record c b now db = Inr (a, db')"
  have "update_record (crID c) (\<lambda>_. merged_record b (record_row c now)) now db = Inr (a, db') \<or>
        (\<exists>u. insert_record (record_row c now) now db = Inr (u, db'))"
    using run by (auto simp: upsert_record_def Let_def split: if_splits sum.splits)
  then show "wf_db db'"
  proof
    assume up: "update_record (crID c) (\<lambda>_. merged_record b (record_row c now)) now db = Inr (a, db')"
    have "statement_keeps wf_db (update_record (crID c) (\<lambda>_. merged_record b (record_row c now)))"
      by (rule update_record_wf) (simp add: merged_record_def)
    from statement_keepsD [OF this wf up] show ?thesis .
  next
    assume "\<exists>u. insert_record (record_row c now) now db = Inr (u, db')"
    then obtain u where "insert_record (record_row c now) now db = Inr (u, db')" ..
    then show ?thesis by (rule statement_keepsD [OF insert_record_wf wf])
  qed
qed

end
