(* ===== verification/Sqlite_Ops.thy ===== *)
theory Sqlite_Ops
  imports Sqlite_Inv
begin

text \<open>From statements to operations: an invariant of the tables that every SQL statement of the
  repository keeps is kept by every operation of the repository, on every path. The locales are the
  contract between the two levels; it is instantiated with the integrity of the database here and
  with the tracking of the sync version in \<open>Sqlite_Version\<close>.\<close>

locale db_frame =
  fixes I :: "Db \<Rightarrow> bool"
  assumes tick: "tick_free I"
    and st_update_record [statement_intros]: "statement_keeps I (update_record i (\<lambda>_. updated_record u))"
    and st_trash_record [statement_intros]:
      "statement_keeps I (update_record i (\<lambda>now r. r \<lparr> rDeletedAt := coalesce_opt (rDeletedAt r) (Some now) \<rparr>))"
    and st_restore_record [statement_intros]:
      "statement_keeps I (update_record i (\<lambda>_ r. r \<lparr> rDeletedAt := None \<rparr>))"
    and st_delete_records [statement_intros]: "statement_keeps I (delete_records P)"
    and st_insert_figure [statement_intros]: "statement_keeps I (insert_figure cf)"
    and st_update_figure [statement_intros]: "statement_keeps I (update_figure n (patched_figure uf k))"
    and st_delete_figures [statement_intros]: "statement_keeps I (delete_figures Q)"
    and st_insert_data_file [statement_intros]: "statement_keeps I (insert_data_file cd)"
    and st_update_data_file [statement_intros]: "statement_keeps I (update_data_file n (patched_data_file ud k))"
    and st_delete_data_files [statement_intros]: "statement_keeps I (delete_data_files T)"
    and st_insert_template [statement_intros]: "statement_keeps I (\<lambda>now. insert_template (t now) now)"
    and st_update_template [statement_intros]:
      "statement_keeps I (update_template i (\<lambda>t. t \<lparr> tHTMLContent := h, tDescription := d,
         tUpdatedAt := coalesce (stored_time v) (tUpdatedAt t) \<rparr>))"
    and st_delete_templates [statement_intros]: "statement_keeps I (delete_templates i)"
    and st_insert_project [statement_intros]: "statement_keeps I (\<lambda>now. insert_project (registry_row cg now) now)"
    and st_archive_project [statement_intros]:
      "statement_keeps I (update_project i (\<lambda>now g. g \<lparr> gArchivedAt := z now \<rparr>))"
    and st_import_project [statement_intros]: "statement_keeps I (update_project i (\<lambda>_. imported_registry p))"
    and st_insert_device [statement_intros]: "statement_keeps I (\<lambda>now. insert_device (registry_row cg now) now)"
    and st_archive_device [statement_intros]:
      "statement_keeps I (update_device i (\<lambda>now g. g \<lparr> gArchivedAt := z now \<rparr>))"
    and st_import_device [statement_intros]: "statement_keeps I (update_device i (\<lambda>_. imported_registry p))"
    and st_insert_path [statement_intros]: "statement_keeps I (\<lambda>now. insert_path_or_ignore (q now) now)"
    and st_backfill [statement_intros]: "statement_keeps I backfill"
    and st_trash_chat [statement_intros]:
      "statement_keeps I (update_chat i (\<lambda>now c. c \<lparr> csDeletedAt := coalesce_opt (csDeletedAt c) (Some now) \<rparr>))"
    and st_restore_chat [statement_intros]: "statement_keeps I (restore_chat i)"
    and st_delete_chats [statement_intros]: "statement_keeps I (delete_chats i)"
    and st_insert_item [statement_intros]: "statement_keeps I (\<lambda>now. insert_item (item_row i x now) now)"
    and st_delete_items [statement_intros]: "statement_keeps I (delete_items i)"
begin

lemma query_keeps [keep_intros]: "keeps I (query f)"
  by (rule keeps_query [OF tick])

lemma statements_keep [keep_intros]: "statement_keeps I f \<Longrightarrow> keeps I (statement f)"
  by (rule keeps_statement [OF tick])

lemma transaction_keeps [keep_intros]: "keeps I m \<Longrightarrow> keeps I (transaction m)"
  by (rule keeps_transaction [OF tick])

lemma keeps_found [keep_intros]: "keeps I m \<Longrightarrow> keeps I (found m)"
  unfolding found_def by (intro keep_intros)

lemma keeps_ensure [keep_intros]: "keeps I (ensureRowsAffected n)"
  unfolding ensureRowsAffected_def by (intro keep_intros)

lemma GetRecordByID_keeps [keep_intros]: "keeps I (sqlite_GetRecordByID i)"
  unfolding sqlite_GetRecordByID_def by (intro keep_intros)

lemma record_exists_keeps [keep_intros]: "keeps I (recordIDExists i)"
  unfolding recordIDExists_def by (intro keep_intros)

lemma chat_exists_keeps [keep_intros]: "keeps I (chatSessionIDExists i)"
  unfolding chatSessionIDExists_def by (intro keep_intros)

lemma records_keeps [keep_intros]:
  "keeps I (sqlite_UpdateRecord u)"
  "keeps I (sqlite_ListRecords f)" "keeps I (sqlite_CountRecords f)"
  "keeps I (sqlite_SoftDeleteRecord i)" "keeps I (sqlite_RestoreRecord i)"
  "keeps I (sqlite_DeleteRecord i)" "keeps I sqlite_PurgeDeletedRecords"
  unfolding sqlite_UpdateRecord_def sqlite_ListRecords_def sqlite_CountRecords_def
    sqlite_SoftDeleteRecord_def sqlite_RestoreRecord_def sqlite_DeleteRecord_def
    sqlite_PurgeDeletedRecords_def Let_def
  by (intro keep_intros statement_intros)+

lemma count_chunks_keeps [keep_intros]: "keeps I (count_chunks ids counts)"
proof (induction ids counts rule: count_chunks.induct)
  case (1 ids counts)
  then show ?case
    by (subst count_chunks.simps) (auto simp: Let_def mergeChildCounts_def intro!: keep_intros)
qed

lemma counts_keeps [keep_intros]:
  "keeps I (sqlite_CountRecordChildren ids)" "keeps I sqlite_CountActiveRecords"
  "keeps I sqlite_CountTrashedRecords" "keeps I sqlite_GetSyncVersion"
  unfolding sqlite_CountRecordChildren_def sqlite_CountActiveRecords_def sqlite_CountTrashedRecords_def
    sqlite_GetSyncVersion_def
  by (intro keep_intros)+

lemma child_reads_keeps [keep_intros]:
  "keeps I (sqlite_GetRecordFigureByID n)" "keeps I (sqlite_ListRecordFiguresByRecordID i)"
  "keeps I (sqlite_GetRecordDataFileByID n)" "keeps I (sqlite_ListRecordDataFilesByRecordID i)"
  unfolding sqlite_GetRecordFigureByID_def sqlite_ListRecordFiguresByRecordID_def
    sqlite_GetRecordDataFileByID_def sqlite_ListRecordDataFilesByRecordID_def
  by (intro keep_intros)+

lemma children_keeps [keep_intros]:
  "keeps I (sqlite_CreateRecordFigure cf)" "keeps I (sqlite_UpdateRecordFigure uf)"
  "keeps I (sqlite_DeleteRecordFigure n)" "keeps I (sqlite_CreateRecordDataFile cd)"
  "keeps I (sqlite_UpdateRecordDataFile ud)" "keeps I (sqlite_DeleteRecordDataFile n)"
  unfolding sqlite_CreateRecordFigure_def sqlite_UpdateRecordFigure_def sqlite_DeleteRecordFigure_def
    sqlite_CreateRecordDataFile_def sqlite_UpdateRecordDataFile_def sqlite_DeleteRecordDataFile_def
  by (intro keep_intros statement_intros)+

lemma template_get_keeps [keep_intros]: "keeps I (sqlite_GetTemplateByName name)"
  unfolding sqlite_GetTemplateByName_def by (intro keep_intros)

lemma templates_keeps [keep_intros]:
  "keeps I (sqlite_CreateTemplate ct)" "keeps I (sqlite_UpdateTemplate ut)"
  "keeps I sqlite_ListTemplates" "keeps I (sqlite_DeleteTemplate name)"
  unfolding sqlite_CreateTemplate_def sqlite_UpdateTemplate_def sqlite_ListTemplates_def sqlite_DeleteTemplate_def
  by (intro keep_intros statement_intros)+

lemma registry_gets_keeps [keep_intros]:
  "keeps I (sqlite_GetProjectByID i)" "keeps I (sqlite_GetDeviceByID i)"
  unfolding sqlite_GetProjectByID_def sqlite_GetDeviceByID_def by (intro keep_intros)+

lemma registry_creates_keeps [keep_intros]:
  "keeps I (sqlite_CreateProject cg)" "keeps I (sqlite_CreateDevice cg)"
  "keeps I (setProjectArchivedAt i v)" "keeps I (setDeviceArchivedAt i v)"
  unfolding sqlite_CreateProject_def sqlite_CreateDevice_def setProjectArchivedAt_def setDeviceArchivedAt_def
  by (intro keep_intros statement_intros)+

lemma registries_keeps [keep_intros]:
  "keeps I (sqlite_ListProjects b)" "keeps I (sqlite_ListDevices b)"
  "keeps I (sqlite_UpsertProjectForImport p)" "keeps I (sqlite_UpsertDeviceForImport p)"
  unfolding sqlite_ListProjects_def sqlite_ListDevices_def sqlite_UpsertProjectForImport_def
    sqlite_UpsertDeviceForImport_def
  by (intro keep_intros statement_intros)+

lemma paths_keeps [keep_intros]:
  "keeps I (sqlite_UpsertProjectPath cp)" "keeps I (sqlite_ListProjectPaths pid)"
  "keeps I sqlite_BackfillChatProjects"
  unfolding sqlite_UpsertProjectPath_def getProjectPath_def sqlite_ListProjectPaths_def
    sqlite_BackfillChatProjects_def
  by (intro keep_intros statement_intros)+

lemma chat_gets_keeps [keep_intros]:
  "keeps I (sqlite_GetChatSessionByID i)" "keeps I (sqlite_GetChatSessionBySource a b)"
  "keeps I (require_session i)"
  unfolding sqlite_GetChatSessionByID_def sqlite_GetChatSessionBySource_def require_session_def
  by (intro keep_intros)+

lemma chat_tx_keeps [keep_intros]:
  "keeps I (insert_item_statement i it)"
  unfolding insert_item_statement_def
  by (intro keep_intros statement_intros)+

lemma insertChatItemsTx_keeps [keep_intros]: "keeps I (insertChatItemsTx i items)"
  unfolding insertChatItemsTx_def by (intro keep_intros)

lemma chat_writes_keeps [keep_intros]:
  "keeps I (sqlite_CreateChatItem it)" "keeps I (sqlite_AppendChatItems i items)"
  "keeps I (sqlite_ReplaceChatItems i items)" "keeps I (sqlite_SoftDeleteChatSession i)"
  "keeps I (sqlite_RestoreChatSession i)" "keeps I (sqlite_DeleteChatSession i)"
  unfolding sqlite_CreateChatItem_def sqlite_AppendChatItems_def sqlite_ReplaceChatItems_def
    sqlite_SoftDeleteChatSession_def sqlite_RestoreChatSession_def sqlite_DeleteChatSession_def
  by (intro keep_intros statement_intros)+

lemma chat_reads_keeps [keep_intros]:
  "keeps I (sqlite_ListChatSessions lc)" "keeps I (sqlite_CountChatSessions lc)"
  "keeps I (sqlite_MaxChatItemOrdinal i)" "keeps I (sqlite_ListChatItems i)"
  "keeps I (sqlite_CountChatItems fi)"
  unfolding sqlite_ListChatSessions_def sqlite_CountChatSessions_def sqlite_MaxChatItemOrdinal_def
    sqlite_ListChatItems_def sqlite_CountChatItems_def
  by (intro keep_intros)+

end

text \<open>The three statements that bring new record and chat ids into the database, and the operations that
  use them.\<close>

locale db_invariant = db_frame +
  assumes st_insert_record [statement_intros]: "statement_keeps I (\<lambda>now. insert_record (record_row c now) now)"
    and st_upsert_record [statement_intros]: "statement_keeps I (upsert_record c b)"
    and st_upsert_chat [statement_intros]:
      "statement_keeps I (\<lambda>now. upsert_chat (chat_row ic now) (merged_chat b (chat_row ic now)) now)"
begin

lemma create_record_keeps [keep_intros]: "keeps I (sqlite_CreateRecord c)"
  unfolding sqlite_CreateRecord_def Let_def by (intro keep_intros statement_intros)

lemma replacement_keeps [keep_intros]: "keeps I (sqlite_ReplaceRecordChildren input)"
  unfolding sqlite_ReplaceRecordChildren_def replacementTx_def writeReplacementTx_def replaceRecordRowTx_def insertRecordFigureTx_def
    insertRecordDataFileTx_def getRecordByIDTx_def Let_def
  by (intro keep_intros statement_intros)

lemma upsert_chat_statement_keeps [keep_intros]: "keeps I (upsert_chat_statement ic)"
  unfolding upsert_chat_statement_def by (intro keep_intros statement_intros)

lemma upsertChatSessionTx_keeps [keep_intros]: "keeps I (upsertChatSessionTx ic)"
  unfolding upsertChatSessionTx_def by (intro keep_intros)

lemma writeChatImportOp_keeps [keep_intros]: "keeps I (writeChatImportOp op results)"
  unfolding writeChatImportOp_def by (intro keep_intros statement_intros)

lemma chat_upserts_keeps [keep_intros]:
  "keeps I (sqlite_UpsertChatSession ic)" "keeps I (sqlite_UpsertChatSessionWithItems ic items)"
  "keeps I (sqlite_WriteChatImportBatch ops)"
  unfolding sqlite_UpsertChatSession_def sqlite_UpsertChatSessionWithItems_def sqlite_WriteChatImportBatch_def
  by (intro keep_intros statement_intros)+

end

text \<open>Integrity is such an invariant.\<close>

interpretation integrity: db_invariant wf_db
  by unfold_locales
    (intro tick_free_wf statement_intros;
     simp add: updated_record_def patched_figure_def patched_data_file_def imported_registry_def merged_chat_def)+

text \<open>C1. Every operation that writes the local database keeps its integrity: unique keys, CHECK
  constraints, foreign keys and counters hold after it whether it succeeds, is refused, is hit by
  an I/O failure half-way or is rolled back.\<close>

theorem sqlite_integrity:
  "keeps wf_db (sqlite_CreateRecord c) \<and> keeps wf_db (sqlite_UpdateRecord u) \<and>
   keeps wf_db (sqlite_SoftDeleteRecord i) \<and> keeps wf_db (sqlite_RestoreRecord i) \<and>
   keeps wf_db (sqlite_DeleteRecord i) \<and> keeps wf_db sqlite_PurgeDeletedRecords \<and>
   keeps wf_db (sqlite_ReplaceRecordChildren rc) \<and>
   keeps wf_db (sqlite_CreateRecordFigure cf) \<and> keeps wf_db (sqlite_UpdateRecordFigure uf) \<and>
   keeps wf_db (sqlite_DeleteRecordFigure n) \<and> keeps wf_db (sqlite_CreateRecordDataFile cd) \<and>
   keeps wf_db (sqlite_UpdateRecordDataFile ud) \<and> keeps wf_db (sqlite_DeleteRecordDataFile n) \<and>
   keeps wf_db (sqlite_CreateTemplate ct) \<and> keeps wf_db (sqlite_UpdateTemplate ut) \<and>
   keeps wf_db (sqlite_DeleteTemplate name) \<and>
   keeps wf_db (sqlite_CreateProject cg) \<and> keeps wf_db (sqlite_ArchiveProject i) \<and>
   keeps wf_db (sqlite_RestoreProject i) \<and> keeps wf_db (sqlite_UpsertProjectForImport p) \<and>
   keeps wf_db (sqlite_CreateDevice cg) \<and> keeps wf_db (sqlite_ArchiveDevice i) \<and>
   keeps wf_db (sqlite_RestoreDevice i) \<and> keeps wf_db (sqlite_UpsertDeviceForImport p) \<and>
   keeps wf_db (sqlite_UpsertProjectPath cp) \<and> keeps wf_db sqlite_BackfillChatProjects \<and>
   keeps wf_db (sqlite_UpsertChatSession ic) \<and> keeps wf_db (sqlite_UpsertChatSessionWithItems ic items) \<and>
   keeps wf_db (sqlite_CreateChatItem it) \<and> keeps wf_db (sqlite_AppendChatItems i items) \<and>
   keeps wf_db (sqlite_ReplaceChatItems i items) \<and> keeps wf_db (sqlite_WriteChatImportBatch ops) \<and>
   keeps wf_db (sqlite_SoftDeleteChatSession i) \<and> keeps wf_db (sqlite_RestoreChatSession i) \<and>
   keeps wf_db (sqlite_DeleteChatSession i)"
  unfolding sqlite_ArchiveProject_def sqlite_RestoreProject_def sqlite_ArchiveDevice_def sqlite_RestoreDevice_def
  by (intro conjI keep_intros)

end
