(* ===== verification/Composed.thy ===== *)
theory Composed
  imports Sync_Frame Session Sqlite_Ops
begin

text \<open>The sync command as \<open>cli/sync.go\<close> wires it: the SQLite repository, the session directory, and any
  cloud repository, object store, file system and warning writer. The contracts of \<open>Sync_Frame\<close> and
  the session contract below are interpreted on these parts, which gives the safety of a whole cycle
  under every failure of every part.\<close>

section \<open>The session contract\<close>

locale session_contract =
  fixes M :: "('w, 'l) SessionManager"
    and cursor :: "'w \<Rightarrow> 'c"
    and started :: "time \<Rightarrow> 'c" \<comment> \<open>the cursor a completed window leaves\<close>
    and opens :: "'w \<Rightarrow> SyncWindow \<Rightarrow> bool" \<comment> \<open>the window fits the cursor and the clock\<close>
    and taken :: "'w \<Rightarrow> bool" \<comment> \<open>the lock could be taken\<close>
    and free :: "'w \<Rightarrow> bool" \<comment> \<open>the lock is gone\<close>
    and rest :: "'w \<Rightarrow> 'r" \<comment> \<open>all that is not the session's\<close>
  assumes begin_ok: "Begin M w = (Inr (window, l), w') \<Longrightarrow> cursor w' = cursor w \<and> opens w window \<and> taken w"
    and begin_error: "Begin M w = (Inl e, w') \<Longrightarrow> cursor w' = cursor w"
    and complete_ok: "opens v window \<Longrightarrow> Complete M window w = (Inr (), w') \<Longrightarrow> cursor w' = started (StartedAt window)"
    and complete_error: "Complete M window w = (Inl e, w') \<Longrightarrow> cursor w' = cursor w"
    and release_cursor: "cursor (snd (ReleaseLock M l w)) = cursor w"
    and release_ok: "ReleaseLock M l w = (Inr (), w') \<Longrightarrow> free w'"
    and begin_rest: "rest (snd (Begin M w)) = rest w"
    and complete_rest: "rest (snd (Complete M window w)) = rest w"
    and release_rest: "rest (snd (ReleaseLock M l w)) = rest w"

locale sync_session = session_contract "sSession s" cursor started opens taken free rest
  for s :: "('w, 'l) Service" and cursor :: "'w \<Rightarrow> 'c" and started opens taken free and rest :: "'w \<Rightarrow> 'r" +
  assumes stages_cursor: "cursor (snd (syncStages s since w)) = cursor w"
begin

lemma cycle_outcome:
  assumes "Sync s w = (r, w')"
  shows "(\<exists>e. r = Inl e \<and> cursor w' = cursor w \<and> rest w' = rest w) \<or>
    (\<exists>window w1. opens w window \<and> taken w \<and> rest w1 = rest w \<and>
       rest w' = rest (snd (syncStages s (LastSync window) w1)) \<and>
       ((fst (syncStages s (LastSync window) w1) = Inr () \<and> cursor w' = started (StartedAt window)) \<or>
        (r \<noteq> Inr () \<and> cursor w' = cursor w)) \<and>
       (r = Inr () \<longrightarrow> fst (syncStages s (LastSync window) w1) = Inr () \<and> free w'))"
proof (cases "Begin (sSession s) w")
  case (Pair r0 w1)
  show ?thesis
  proof (cases r0)
    case (Inl e)
    with Pair assms begin_error begin_rest [of w] show ?thesis by (auto simp: Sync_def bnd_def)
  next
    case (Inr p)
    obtain window l where p: "p = (window, l)" by (cases p)
    obtain r2 w2 where st: "syncStages s (LastSync window) w1 = (r2, w2)" by (cases "syncStages s (LastSync window) w1")
    have b: "cursor w1 = cursor w" "opens w window" "taken w" "rest w1 = rest w"
      using begin_ok begin_rest [of w] Pair Inr p by auto
    have c2: "cursor w2 = cursor w" using stages_cursor [of "LastSync window" w1] st b by simp
    obtain r3 w3 where body: "sq (syncStages s (LastSync window)) (Complete (sSession s) window) w1 = (r3, w3)"
      by (cases "sq (syncStages s (LastSync window)) (Complete (sSession s) window) w1")
    have "rest w3 = rest w2"
      using body st complete_rest [of window w2] by (cases r2) (auto simp: sq_def bnd_def)
    have b3: "(r3 = Inr () \<and> r2 = Inr () \<and> cursor w3 = started (StartedAt window)) \<or>
              (\<exists>e. r3 = Inl e \<and> cursor w3 = cursor w)"
      using body st complete_ok [OF b(2)] complete_error c2
      by (cases r2; cases "Complete (sSession s) window w2"; cases r3) (auto simp: sq_def bnd_def)
    obtain r4 w4 where rel: "ReleaseLock (sSession s) l w3 = (r4, w4)" by (cases "ReleaseLock (sSession s) l w3")
    have "cursor w4 = cursor w3" "rest w4 = rest w2"
      using release_cursor [of l w3] release_rest [of l w3] rel \<open>rest w3 = rest w2\<close> by simp_all
    moreover have "w' = w4" "r = Inr () \<longrightarrow> r3 = Inr () \<and> r4 = Inr ()" "r3 = Inr () \<or> r \<noteq> Inr ()"
      using assms Pair Inr p body rel
      by (auto simp: Sync_def bnd_def finally_joining_def split: sum.splits)
    ultimately have "opens w window \<and> taken w \<and> rest w1 = rest w \<and>
        rest w' = rest (snd (syncStages s (LastSync window) w1)) \<and>
        ((fst (syncStages s (LastSync window) w1) = Inr () \<and> cursor w' = started (StartedAt window)) \<or>
         (r \<noteq> Inr () \<and> cursor w' = cursor w)) \<and>
        (r = Inr () \<longrightarrow> fst (syncStages s (LastSync window) w1) = Inr () \<and> free w')"
      using b3 st b release_ok rel by auto
    then show ?thesis by blast
  qed
qed

end

section \<open>The composed world\<close>

record ('c, 'o, 's) World =
  wLocal :: Db
  wCloud :: 'c
  wOS :: 'o
  wObjects :: 's
  wSession :: SessionDir

text \<open>\<open>newSyncServiceFn\<close> on the local stack, the cloud stack and the session manager of \<open>.pc\<close>.\<close>

definition newSyncService ::
  "'c Repository \<Rightarrow> LocalFiles \<Rightarrow> 'o OS \<Rightarrow> 's ObjectStore \<Rightarrow> (nat \<Rightarrow> string \<Rightarrow> ('o, unit) act) \<Rightarrow> ('o, unit) act \<Rightarrow>
   (('c, 'o, 's) World, FileLock) Service" where
  "newSyncService cloud fs os objects warn ctxErr =
    \<lparr> sLocalRepo = zoom_repository wLocal (\<lambda>x w. w \<lparr> wLocal := x \<rparr>) sqlite_repository,
      sCloudRepo = zoom_repository wCloud (\<lambda>x w. w \<lparr> wCloud := x \<rparr>) cloud,
      sLocalFS = fs,
      sOS = zoom_OS wOS (\<lambda>x w. w \<lparr> wOS := x \<rparr>) os,
      sCloudObjects = zoom_objects wObjects (\<lambda>x w. w \<lparr> wObjects := x \<rparr>) objects,
      sSession = zoom_session wSession (\<lambda>x w. w \<lparr> wSession := x \<rparr>) session_manager,
      sWarn = (\<lambda>n msg. zoom wOS (\<lambda>x w. w \<lparr> wOS := x \<rparr>) (warn n msg)),
      sCtxErr = zoom wOS (\<lambda>x w. w \<lparr> wOS := x \<rparr>) ctxErr \<rparr>"

lemmas zoomed_parts = zoom_repository_def zoom_OS_def zoom_objects_def zoom_session_def

lemma zoomed_repository_frame:
  "(\<And>x w. I (put x w) = I w) \<Longrightarrow> repository_keeps I (zoom_repository get put R)"
  by (simp add: repository_keeps_def zoom_repository_def keeps_zoom)

lemma zoomed_OS_frame: "(\<And>x w. I (put x w) = I w) \<Longrightarrow> os_keeps I (zoom_OS get put F)"
  by (simp add: os_keeps_def zoom_OS_def keeps_zoom)

lemma zoomed_objects_frame: "(\<And>x w. I (put x w) = I w) \<Longrightarrow> objects_keep I (zoom_objects get put S)"
  by (simp add: objects_keep_def zoom_objects_def keeps_zoom)

lemma zoomed_session_frame: "(\<And>x w. I (put x w) = I w) \<Longrightarrow> session_keeps I (zoom_session get put M)"
  by (simp add: session_keeps_def zoom_session_def keeps_zoom)

lemma zoomed_repository_inside:
  "(\<And>x w. get (put x w) = x) \<Longrightarrow> repository_keeps J R \<Longrightarrow>
     repository_keeps (\<lambda>w. J (get w)) (zoom_repository get put R)"
  by (simp add: repository_keeps_def zoom_repository_def keeps_zoom_inside)

lemmas zoomed_frames = zoomed_repository_frame zoomed_OS_frame zoomed_objects_frame zoomed_session_frame keeps_zoom

lemma sqlite_repository_keeps: "repository_keeps wf_db sqlite_repository"
  unfolding repository_keeps_def sqlite_repository_def by (simp add: keep_intros)

text \<open>The contracts hold of the parts: the cycle contract for the integrity of the local database, and
  the stage contract for the session directory, which the stages do not touch.\<close>

interpretation local_db:
  sync_cycle "\<lambda>w. wf_db (wLocal w)" "newSyncService cloud fs os objects warn ctxErr"
  for cloud fs os objects warn ctxErr
  by unfold_locales
    (simp_all add: newSyncService_def zoomed_repository_inside sqlite_repository_keeps zoomed_frames)

interpretation session_dir:
  sync_frame "\<lambda>w. wSession w = d" "newSyncService cloud fs os objects warn ctxErr"
  for d cloud fs os objects warn ctxErr
  by unfold_locales (auto simp: newSyncService_def intro!: zoomed_frames)

definition cursor_of :: "('c, 'o, 's) World \<Rightarrow> cursor_text option" where
  "cursor_of w = sdCursor (wSession w)"

definition lock_free :: "('c, 'o, 's) World \<Rightarrow> bool" where
  "lock_free w = (sdLock (wSession w) = None)"

text \<open>The lock could be taken: no lock file, or a stale one.\<close>

definition lock_takable :: "('c, 'o, 's) World \<Rightarrow> bool" where
  "lock_takable w = (\<forall>t. sdLock (wSession w) = Some t \<longrightarrow> stale_lock (wSession w) t)"

definition outside_session :: "('c, 'o, 's) World \<Rightarrow> Db \<times> 'c \<times> 'o \<times> 's" where
  "outside_session w = (wLocal w, wCloud w, wOS w, wObjects w)"

lemma Release_cursor: "sdCursor (snd (Release l d)) = sdCursor d"
  using Release_run [of l d "fst (Release l d)" "snd (Release l d)"] by simp

lemma cursor_read_cursor: "keeps (\<lambda>d. sdCursor d = c) cursor_read"
  using cursor_read_run by (intro keepsI) (metis prod.collapse)

lemma cleanup_cursor:
  "keeps (\<lambda>d. sdCursor d = c) m \<Longrightarrow> keeps (\<lambda>d. sdCursor d = c) (cleanup_on_error (ignoring (Release l)) m)"
  by (auto simp: keeps_def cleanup_on_error_def ignoring_def Release_cursor split: prod.splits sum.splits)

lemma manager_begin_cursor: "keeps (\<lambda>d. sdCursor d = c) manager_begin"
proof -
  have "keeps (\<lambda>d. sdCursor d = c) AcquireFileLock"
    using AcquireFileLock_run by (intro keepsI) (metis prod.collapse)
  moreover have "keeps (\<lambda>d. sdCursor d = c) sys_now" by (simp add: keeps_def sys_now_def)
  ultimately show ?thesis
    unfolding manager_begin_def Let_def by (intro keep_intros cleanup_cursor cursor_read_cursor)
qed

lemma manager_complete_error: "manager_complete window d = (Inl e, d') \<Longrightarrow> sdCursor d' = sdCursor d"
  using cursor_write_run [of "StartedAt window" d "Inl e" d']
  by (auto simp: manager_complete_def fail_def split: if_splits)

interpretation manager: session_contract
  "zoom_session wSession (\<lambda>x w. w \<lparr> wSession := x \<rparr>) session_manager"
  cursor_of "\<lambda>t. Some (CursorInstant t)"
  "\<lambda>w window. window_of (wSession w) window" lock_takable lock_free outside_session
proof
  fix w :: "('a, 'b, 'c) World" and window l w'
  assume "Begin (zoom_session wSession (\<lambda>x w. w \<lparr> wSession := x \<rparr>) session_manager) w = (Inr (window, l), w')"
  then obtain d' where "manager_begin (wSession w) = (Inr (window, l), d')" "w' = w \<lparr> wSession := d' \<rparr>"
    by (auto simp: zoom_session_def session_manager_def zoom_def split: prod.splits)
  with manager_begin_run [OF this(1)]
  show "cursor_of w' = cursor_of w \<and> window_of (wSession w) window \<and> lock_takable w"
    by (auto simp: cursor_of_def lock_takable_def acquired_def)
next
  fix w :: "('a, 'b, 'c) World" and e w'
  assume "Begin (zoom_session wSession (\<lambda>x w. w \<lparr> wSession := x \<rparr>) session_manager) w = (Inl e, w')"
  then show "cursor_of w' = cursor_of w"
    using keepsD [OF manager_begin_cursor refl, of "wSession w"]
    by (auto simp: zoom_session_def session_manager_def zoom_def cursor_of_def split: prod.splits)
next
  fix v w :: "('a, 'b, 'c) World" and window w'
  assume o: "window_of (wSession v) window"
    and "Complete (zoom_session wSession (\<lambda>x w. w \<lparr> wSession := x \<rparr>) session_manager) window w = (Inr (), w')"
  then obtain d' where "manager_complete window (wSession w) = (Inr (), d')" "w' = w \<lparr> wSession := d' \<rparr>"
    by (auto simp: zoom_session_def session_manager_def zoom_def split: prod.splits)
  moreover have "StartedAt window \<noteq> 0" "truncateToMillisecond (StartedAt window) = StartedAt window"
    using o by (auto simp: window_of_def)
  ultimately show "cursor_of w' = Some (CursorInstant (StartedAt window))"
    using cursor_write_run [of "StartedAt window" "wSession w" "Inr ()" d']
    by (simp add: manager_complete_def is_zero_def cursor_of_def)
next
  fix w :: "('a, 'b, 'c) World" and window e w'
  assume "Complete (zoom_session wSession (\<lambda>x w. w \<lparr> wSession := x \<rparr>) session_manager) window w = (Inl e, w')"
  then obtain d' where "manager_complete window (wSession w) = (Inl e, d')" "w' = w \<lparr> wSession := d' \<rparr>"
    by (auto simp: zoom_session_def session_manager_def zoom_def split: prod.splits)
  with manager_complete_error [OF this(1)] show "cursor_of w' = cursor_of w" by (simp add: cursor_of_def)
next
  fix w :: "('a, 'b, 'c) World" and l
  show "cursor_of (snd (ReleaseLock (zoom_session wSession (\<lambda>x w. w \<lparr> wSession := x \<rparr>) session_manager) l w)) = cursor_of w"
    using Release_cursor [of l "wSession w"]
    by (auto simp: zoom_session_def session_manager_def zoom_def cursor_of_def split: prod.splits)
next
  fix w :: "('a, 'b, 'c) World" and l w'
  assume "ReleaseLock (zoom_session wSession (\<lambda>x w. w \<lparr> wSession := x \<rparr>) session_manager) l w = (Inr (), w')"
  then obtain d' where "Release l (wSession w) = (Inr (), d')" "w' = w \<lparr> wSession := d' \<rparr>"
    by (auto simp: zoom_session_def session_manager_def zoom_def split: prod.splits)
  with Release_run [OF this(1)] show "lock_free w'" by (simp add: lock_free_def)
qed (auto simp: zoom_session_def zoom_def outside_session_def split: prod.splits)

interpretation cycle: sync_session
  "newSyncService cloud fs os objects warn ctxErr" cursor_of "\<lambda>t. Some (CursorInstant t)"
  "\<lambda>w window. window_of (wSession w) window" lock_takable lock_free outside_session
  for cloud fs os objects warn ctxErr
proof -
  let ?s = "newSyncService cloud fs os objects warn ctxErr"
  have "sSession ?s = zoom_session wSession (\<lambda>x w. w \<lparr> wSession := x \<rparr>) session_manager"
    by (simp add: newSyncService_def)
  moreover have "wSession (snd (syncStages ?s since w)) = wSession w" for since w
    using keepsD [OF session_dir.stages_keep, of w "wSession w"] by simp
  ultimately show "sync_session ?s cursor_of (\<lambda>t. Some (CursorInstant t))
      (\<lambda>w window. window_of (wSession w) window) lock_takable lock_free outside_session"
    using manager.session_contract_axioms
    by (auto simp: sync_session_def sync_session_axioms_def cursor_of_def)
qed

section \<open>Properties\<close>



end
