(* ===== verification/Sqlite_Version.thy ===== *)
theory Sqlite_Version
  imports Sqlite_Ops
begin

text \<open>The sync version of the local database: it never decreases, and it increases whenever the content
  other devices must see changes. A run of the program is any sequence of operations of the
  repository (\<open>sqlite_step\<close>), from a freshly created database.\<close>

section \<open>Runs\<close>

text \<open>The database the schema script creates: empty tables and the single \<open>sync_version\<close> row.\<close>

definition new_db :: "time \<Rightarrow> (nat \<Rightarrow> time) \<Rightarrow> (nat \<Rightarrow> string option) \<Rightarrow>
    (string \<Rightarrow> string list \<Rightarrow> string \<Rightarrow> int option) \<Rightarrow> Db" where
  "new_db now clock fault fts =
    \<lparr> dbRecords = [], dbFigures = [], dbDataFiles = [], dbTemplates = [], dbProjects = [], dbDevices = [],
      dbPaths = [], dbChats = [], dbItems = [], dbFigureSeq = 0, dbDataFileSeq = 0, dbPathSeq = 0, dbItemSeq = 0,
      dbVersion = 0, dbVersionAt = truncateToMillisecond now, dbTick = 0, dbClock = clock, dbFault = fault,
      dbFts = fts \<rparr>"

lemma new_db_wf: "wf_db (new_db now clock fault fts)"
  by (simp add: wf_db_def wf_parts id_sets new_db_def)

inductive sqlite_step :: "Db \<Rightarrow> Db \<Rightarrow> bool" where
  "sqlite_step db (snd (sqlite_CreateRecord c db))"
| "sqlite_step db (snd (sqlite_UpdateRecord u db))"
| "sqlite_step db (snd (sqlite_SoftDeleteRecord i db))"
| "sqlite_step db (snd (sqlite_RestoreRecord i db))"
| "sqlite_step db (snd (sqlite_DeleteRecord i db))"
| "sqlite_step db (snd (sqlite_PurgeDeletedRecords db))"
| "sqlite_step db (snd (sqlite_ReplaceRecordChildren rc db))"
| "sqlite_step db (snd (sqlite_CreateRecordFigure cf db))"
| "sqlite_step db (snd (sqlite_UpdateRecordFigure uf db))"
| "sqlite_step db (snd (sqlite_DeleteRecordFigure n db))"
| "sqlite_step db (snd (sqlite_CreateRecordDataFile cd db))"
| "sqlite_step db (snd (sqlite_UpdateRecordDataFile ud db))"
| "sqlite_step db (snd (sqlite_DeleteRecordDataFile n db))"
| "sqlite_step db (snd (sqlite_CreateTemplate ct db))"
| "sqlite_step db (snd (sqlite_UpdateTemplate ut db))"
| "sqlite_step db (snd (sqlite_DeleteTemplate name db))"
| "sqlite_step db (snd (sqlite_CreateProject cg db))"
| "sqlite_step db (snd (setProjectArchivedAt i v db))"
| "sqlite_step db (snd (sqlite_UpsertProjectForImport p db))"
| "sqlite_step db (snd (sqlite_CreateDevice cg db))"
| "sqlite_step db (snd (setDeviceArchivedAt i v db))"
| "sqlite_step db (snd (sqlite_UpsertDeviceForImport p db))"
| "sqlite_step db (snd (sqlite_UpsertProjectPath cp db))"
| "sqlite_step db (snd (sqlite_BackfillChatProjects db))"
| "sqlite_step db (snd (sqlite_UpsertChatSession ic db))"
| "sqlite_step db (snd (sqlite_UpsertChatSessionWithItems ic items db))"
| "sqlite_step db (snd (sqlite_CreateChatItem it db))"
| "sqlite_step db (snd (sqlite_AppendChatItems i items db))"
| "sqlite_step db (snd (sqlite_ReplaceChatItems i items db))"
| "sqlite_step db (snd (sqlite_WriteChatImportBatch ops db))"
| "sqlite_step db (snd (sqlite_SoftDeleteChatSession i db))"
| "sqlite_step db (snd (sqlite_RestoreChatSession i db))"
| "sqlite_step db (snd (sqlite_DeleteChatSession i db))"

lemma step_wf: "sqlite_step db db' \<Longrightarrow> wf_db db \<Longrightarrow> wf_db db'"
  by (induction rule: sqlite_step.induct) (rule keepsD, intro keep_intros, assumption)+

section \<open>Content\<close>

text \<open>What synchronisation carries: everything but the \<open>updated_at\<close> columns of records, templates and
  chats; an absent and an empty description or alternative text are the same.\<close>

definition content where
  "content db =
    (List.map (\<lambda>r. r \<lparr> rUpdatedAt := 0 \<rparr>) (dbRecords db),
     List.map (\<lambda>f. f \<lparr> fgAltText := Some (nullableStringValue (fgAltText f)) \<rparr>) (dbFigures db),
     List.map (\<lambda>f. f \<lparr> dfDescription := Some (nullableStringValue (dfDescription f)) \<rparr>) (dbDataFiles db),
     List.map (\<lambda>t. t \<lparr> tUpdatedAt := 0, tDescription := Some (nullableStringValue (tDescription t)) \<rparr>) (dbTemplates db),
     dbProjects db, dbDevices db, dbPaths db,
     List.map (\<lambda>c. c \<lparr> csUpdatedAt := 0 \<rparr>) (dbChats db), dbItems db)"

definition tracked :: "Db \<Rightarrow> Db \<Rightarrow> bool" where
  "tracked db db' = (dbVersion db \<le> dbVersion db' \<and> (dbVersion db = dbVersion db' \<longrightarrow> content db' = content db))"

lemma tracked_refl [simp]: "tracked db db"
  by (simp add: tracked_def)

lemma tracked_trans: "tracked a b \<Longrightarrow> tracked b c \<Longrightarrow> tracked a c"
  by (auto simp: tracked_def)

definition wf_since :: "Db \<Rightarrow> Db \<Rightarrow> bool" where
  "wf_since db0 db = (wf_db db \<and> tracked db0 db)"

lemma tick_free_since: "tick_free (wf_since db0)"
  using tick_free_wf by (simp add: tick_free_def wf_since_def tracked_def content_def)

lemma version_bump [simp]: "dbVersion (bump now db) = dbVersion db + 1"
  by (simp add: bump_def)

lemma version_bump_n [simp]: "dbVersion (bump_n n now db) = dbVersion db + int n"
  by (induction n arbitrary: db) simp_all

lemma content_version [simp]: "content (db \<lparr> dbVersion := v, dbVersionAt := t \<rparr>) = content db"
  by (simp add: content_def)

lemma content_bump_n [simp]: "content (bump_n n now db) = content db"
  using bump_n_eq [of n now db] by auto

text \<open>A statement either bumps the version or leaves the content alone.\<close>

lemma tracked_bump [simp]: "dbVersion x = dbVersion db \<Longrightarrow> tracked db (bump now x)"
  by (simp add: tracked_def)

lemma tracked_bump_n:
  "dbVersion x = dbVersion db \<Longrightarrow> (n = 0 \<Longrightarrow> content x = content db) \<Longrightarrow> tracked db (bump_n n now x)"
  by (auto simp: tracked_def)

lemma tracked_bump_if:
  "dbVersion x = dbVersion db \<Longrightarrow> (\<not> b \<Longrightarrow> content x = content db) \<Longrightarrow> tracked db (bump_if b now x)"
  by (auto simp: tracked_def bump_if_def)

lemma map_replace_row_unique:
  assumes "distinct (List.map key rows)" "lookup_row key k rows = Some old" "g new = g old"
  shows "List.map g (replace_row key k new rows) = List.map g rows"
proof (rule map_replace_row)
  fix r assume "r \<in> set rows" "key r = k"
  then have "lookup_row key k rows = Some r" using lookup_row_unique [OF assms(1)] by auto
  with assms(2,3) show "g new = g r" by simp
qed

lemma wf_distinct:
  assumes "wf_db db"
  shows "distinct (List.map rID (dbRecords db))" "distinct (List.map fgID (dbFigures db))"
    "distinct (List.map dfID (dbDataFiles db))" "distinct (List.map tName (dbTemplates db))"
    "distinct (List.map gID (dbProjects db))" "distinct (List.map gID (dbDevices db))"
    "distinct (List.map csID (dbChats db))"
  using assms by (simp_all add: wf_db_def wf_parts)

section \<open>Every statement\<close>

definition tracks :: "(time \<Rightarrow> Db \<Rightarrow> error + ('a \<times> Db)) \<Rightarrow> bool" where
  "tracks f = (\<forall>now db a db'. wf_db db \<longrightarrow> f now db = Inr (a, db') \<longrightarrow> tracked db db')"

lemma tracksI: "(\<And>now db a db'. wf_db db \<Longrightarrow> f now db = Inr (a, db') \<Longrightarrow> tracked db db') \<Longrightarrow> tracks f"
  by (auto simp: tracks_def)

lemma statement_keeps_since:
  "statement_keeps wf_db f \<Longrightarrow> tracks f \<Longrightarrow> statement_keeps (wf_since db0) f"
  unfolding statement_keeps_def tracks_def wf_since_def using tracked_trans by blast

text \<open>An update that changes only \<open>updated_at\<close> (or nothing) leaves the content.\<close>

lemma update_record_tracks:
  assumes "\<And>now r. rCreatedAt (f now r) = rCreatedAt r \<and> rUserID (f now r) = rUserID r \<and> rID (f now r) = rID r"
  shows "tracks (update_record i f)"
proof (rule tracksI)
  fix now db a db'
  assume wf: "wf_db db" and run: "update_record i f now db = Inr (a, db')"
  have "(auto_updated_record now old (f now old)) \<lparr> rUpdatedAt := 0 \<rparr> = old \<lparr> rUpdatedAt := 0 \<rparr>"
    if "\<not> record_payload_changed old (f now old)" for old
    using that assms [of now old]
    by (auto simp: record_payload_changed_def auto_updated_record_def intro!: Record.equality)
  then show "tracked db db'"
    using run wf_distinct(1) [OF wf]
    by (auto simp: update_record_def Let_def content_def map_replace_row_unique
        split: option.splits if_splits intro!: tracked_bump_if)
qed

lemma update_figure_tracks:
  assumes "\<And>x. fgID (f x) = fgID x \<and> fgCreatedAt (f x) = fgCreatedAt x"
  shows "tracks (update_figure i f)"
proof (rule tracksI)
  fix now db a db'
  assume wf: "wf_db db" and run: "update_figure i f now db = Inr (a, db')"
  have "f old \<lparr> fgAltText := Some (nullableStringValue (fgAltText (f old))) \<rparr> =
        old \<lparr> fgAltText := Some (nullableStringValue (fgAltText old)) \<rparr>"
    if "\<not> figure_changed old (f old)" for old
    using that assms [of old] by (auto simp: figure_changed_def intro!: RecordFigure.equality)
  then show "tracked db db'"
    using run wf_distinct(2) [OF wf]
    by (auto simp: update_figure_def Let_def content_def map_replace_row_unique
        split: option.splits if_splits intro!: tracked_bump_if)
qed

lemma update_data_file_tracks:
  assumes "\<And>x. dfID (f x) = dfID x \<and> dfCreatedAt (f x) = dfCreatedAt x"
  shows "tracks (update_data_file i f)"
proof (rule tracksI)
  fix now db a db'
  assume wf: "wf_db db" and run: "update_data_file i f now db = Inr (a, db')"
  have "f old \<lparr> dfDescription := Some (nullableStringValue (dfDescription (f old))) \<rparr> =
        old \<lparr> dfDescription := Some (nullableStringValue (dfDescription old)) \<rparr>"
    if "\<not> data_file_changed old (f old)" for old
    using that assms [of old] by (auto simp: data_file_changed_def intro!: RecordDataFile.equality)
  then show "tracked db db'"
    using run wf_distinct(3) [OF wf]
    by (auto simp: update_data_file_def Let_def content_def map_replace_row_unique
        split: option.splits if_splits intro!: tracked_bump_if)
qed

lemma update_template_tracks:
  assumes "\<And>x. tName (f x) = tName x \<and> tCreatedAt (f x) = tCreatedAt x"
  shows "tracks (update_template i f)"
proof (rule tracksI)
  fix now db a db'
  assume wf: "wf_db db" and run: "update_template i f now db = Inr (a, db')"
  have "x \<lparr> tUpdatedAt := 0, tDescription := Some (nullableStringValue (tDescription x)) \<rparr> =
        old \<lparr> tUpdatedAt := 0, tDescription := Some (nullableStringValue (tDescription old)) \<rparr>"
    if "tHTMLContent old = tHTMLContent (f old)"
      "nullableStringValue (tDescription old) = nullableStringValue (tDescription (f old))"
      "x = f old \<or> x = f old \<lparr> tUpdatedAt := now \<rparr>" for old x
    using that assms [of old] by (auto intro!: Template.equality)
  then show "tracked db db'"
    using run wf_distinct(4) [OF wf]
    by (auto simp: update_template_def Let_def content_def map_replace_row_unique
        split: option.splits if_splits intro!: tracked_bump_if)
qed

lemma replace_row_same:
  assumes "distinct (List.map key rows)" "lookup_row key k rows = Some old"
  shows "replace_row key k old rows = rows"
  using map_replace_row_unique [OF assms, of "\<lambda>x. x" old] by simp

lemma no_registry_bump:
  "registry_bumps now old new = 0 \<Longrightarrow> gID new = gID old \<Longrightarrow> auto_updated_registry now old new = old"
  by (auto simp: registry_bumps_def registry_changed_def auto_updated_registry_def split: if_splits
      intro!: Registry.equality)

lemma update_project_tracks:
  assumes "\<And>now g. gID (f now g) = gID g"
  shows "tracks (update_project i f)"
proof (rule tracksI)
  fix now db a db'
  assume wf: "wf_db db" and run: "update_project i f now db = Inr (a, db')"
  then show "tracked db db'"
    using wf_distinct(5) [OF wf] assms
    by (auto simp: update_project_def Let_def content_def replace_row_same no_registry_bump
        split: option.splits intro!: tracked_bump_n)
qed

lemma update_device_tracks:
  assumes "\<And>now g. gID (f now g) = gID g"
  shows "tracks (update_device i f)"
proof (rule tracksI)
  fix now db a db'
  assume wf: "wf_db db" and run: "update_device i f now db = Inr (a, db')"
  then show "tracked db db'"
    using wf_distinct(6) [OF wf] assms
    by (auto simp: update_device_def Let_def content_def replace_row_same no_registry_bump
        split: option.splits intro!: tracked_bump_n)
qed

lemma chat_unchanged:
  "\<not> chat_changed old new \<Longrightarrow> csCreatedAt new = csCreatedAt old \<Longrightarrow> csUserID new = csUserID old \<Longrightarrow>
     auto_updated_chat now old new \<lparr> csUpdatedAt := 0 \<rparr> = old \<lparr> csUpdatedAt := 0 \<rparr>"
  by (auto simp: chat_changed_def auto_updated_chat_def intro!: ChatSession.equality)

lemma update_chat_tracked:
  assumes wf: "wf_db db" and run: "update_chat i f now db = Inr (a, db')"
    and f: "\<And>c. csCreatedAt (f now c) = csCreatedAt c \<and> csUserID (f now c) = csUserID c"
  shows "tracked db db'"
  using run wf_distinct(7) [OF wf] f
  by (auto simp: update_chat_def Let_def content_def map_replace_row_unique chat_unchanged
      split: option.splits if_splits intro!: tracked_bump_if)

lemma update_chat_tracks:
  "(\<And>now c. csCreatedAt (f now c) = csCreatedAt c \<and> csUserID (f now c) = csUserID c) \<Longrightarrow> tracks (update_chat i f)"
  by (rule tracksI) (rule update_chat_tracked)

lemma filter_none: "filter P xs = [] \<Longrightarrow> filter (\<lambda>x. \<not> P x) xs = xs"
  by (induction xs) (auto split: if_splits)

lemma inserts_track:
  "tracks (\<lambda>now. insert_record (r now) now)" "tracks (insert_figure cf)" "tracks (insert_data_file cd)"
  "tracks (\<lambda>now. insert_template (t now) now)" "tracks (\<lambda>now. insert_project (g now) now)"
  "tracks (\<lambda>now. insert_device (g now) now)" "tracks (\<lambda>now. insert_path_or_ignore (q now) now)"
  "tracks (\<lambda>now. insert_item (x now) now)"
  by (auto intro!: tracksI simp: insert_record_def insert_figure_def insert_data_file_def insert_template_def
      insert_project_def insert_device_def insert_path_or_ignore_def insert_item_def Let_def split: if_splits)

lemma deletes_track:
  "tracks (delete_figures Q)" "tracks (delete_data_files T)" "tracks (delete_templates i)"
  "tracks (delete_items i)"
  by (auto intro!: tracksI tracked_bump_n
      simp: delete_figures_def delete_data_files_def delete_templates_def delete_items_def Let_def content_def
        filter_none)

lemma delete_records_track: "tracks (delete_records P)"
  by (auto intro!: tracksI tracked_bump_n simp: delete_records_def Let_def content_def filter_none)

lemma delete_chats_track: "tracks (delete_chats i)"
  by (auto intro!: tracksI tracked_bump_n simp: delete_chats_def Let_def content_def filter_none split: if_splits)

lemma restore_chat_tracks: "tracks (restore_chat i)"
proof (rule tracksI)
  fix now db a db'
  assume wf: "wf_db db" and "restore_chat i now db = Inr (a, db')"
  then have "db' = db \<or> update_chat i (\<lambda>_ c. c \<lparr> csDeletedAt := None \<rparr>) now db = Inr (a, db')"
    by (auto simp: restore_chat_def split: option.splits if_splits)
  then show "tracked db db'" using update_chat_tracked [OF wf] by auto
qed

lemma upsert_record_tracks: "tracks (upsert_record c b)"
proof (rule tracksI)
  fix now db a db'
  assume wf: "wf_db db" and run: "upsert_record c b now db = Inr (a, db')"
  have "update_record (crID c) (\<lambda>_. merged_record b (record_row c now)) now db = Inr (a, db') \<or>
        (\<exists>u. insert_record (record_row c now) now db = Inr (u, db'))"
    using run by (auto simp: upsert_record_def Let_def split: if_splits sum.splits)
  moreover have "tracks (update_record (crID c) (\<lambda>_. merged_record b (record_row c now)))"
    by (rule update_record_tracks) (simp add: merged_record_def)
  ultimately show "tracked db db'"
    using wf inserts_track(1) [of "\<lambda>_. record_row c now"] unfolding tracks_def by blast
qed

lemma upsert_chat_tracks: "tracks (\<lambda>now. upsert_chat (chat_row ic now) (merged_chat b (chat_row ic now)) now)"
proof (rule tracksI)
  fix now db a db'
  assume wf: "wf_db db" and run: "upsert_chat (chat_row ic now) (merged_chat b (chat_row ic now)) now db = Inr (a, db')"
  have "tracked db db'" if "update_chat j (\<lambda>_. merged_chat b (chat_row ic now)) now db = Inr (n, db')" for j n
    using update_chat_tracked [OF wf that] by (simp add: merged_chat_def)
  then show "tracked db db'"
    using run by (auto simp: upsert_chat_def split: if_splits option.splits sum.splits)
qed

lemma backfill_tracks: "tracks backfill"
proof (rule tracksI)
  fix now db a db'
  assume "wf_db db" and run: "backfill now db = Inr (a, db')"
  have "List.map g (dbChats db) = dbChats db" if "filter (\<lambda>c. backfilled db c \<noteq> None) (dbChats db) = []"
      "\<And>c. backfilled db c = None \<Longrightarrow> g c = c" for g
    using that by (intro map_idI) (auto simp: filter_empty_conv)
  then have "List.map (\<lambda>c. case backfilled db c of None \<Rightarrow> c | Some new \<Rightarrow> auto_updated_chat now c new) (dbChats db)
      = dbChats db" if "filter (\<lambda>c. backfilled db c \<noteq> None) (dbChats db) = []"
    using that by simp
  then show "tracked db db'"
    using run by (auto simp: backfill_def Let_def content_def intro!: tracked_bump_n)
qed

section \<open>Every operation\<close>

interpretation version: db_invariant "wf_since db0" for db0
  by unfold_locales
    (intro tick_free_since statement_keeps_since integrity.st_insert_record integrity.st_update_record
      integrity.st_trash_record integrity.st_restore_record integrity.st_delete_records
      integrity.st_upsert_record integrity.st_insert_figure integrity.st_update_figure
      integrity.st_delete_figures integrity.st_insert_data_file integrity.st_update_data_file
      integrity.st_delete_data_files integrity.st_insert_template integrity.st_update_template
      integrity.st_delete_templates integrity.st_insert_project integrity.st_archive_project
      integrity.st_import_project integrity.st_insert_device integrity.st_archive_device
      integrity.st_import_device integrity.st_insert_path integrity.st_backfill integrity.st_upsert_chat
      integrity.st_trash_chat integrity.st_restore_chat integrity.st_delete_chats integrity.st_insert_item
      integrity.st_delete_items inserts_track deletes_track delete_records_track delete_chats_track
      restore_chat_tracks upsert_record_tracks upsert_chat_tracks backfill_tracks update_record_tracks
      update_figure_tracks update_data_file_tracks update_template_tracks update_project_tracks
      update_device_tracks update_chat_tracks;
     (assumption | simp add: updated_record_def patched_figure_def patched_data_file_def imported_registry_def)?)+

lemma step_since: "sqlite_step db db' \<Longrightarrow> wf_since db0 db \<Longrightarrow> wf_since db0 db'"
  by (induction rule: sqlite_step.induct) (rule keepsD, intro keep_intros, assumption)+

lemma run_since: "sqlite_step\<^sup>*\<^sup>* db db' \<Longrightarrow> wf_db db \<Longrightarrow> wf_since db db'"
proof (induction rule: rtranclp_induct)
  case base
  then show ?case by (simp add: wf_since_def)
next
  case (step b c)
  then show ?case using step_since by blast
qed

section \<open>Properties\<close>

text \<open>C14. The sync version tracks the content. Along every sequence of repository operations, failing
  ones included, the version never decreases, and as long as it is unchanged so is everything that
  synchronisation carries.\<close>

theorem version_tracks_content:
  assumes "sqlite_step\<^sup>*\<^sup>* db db'" and "wf_db db"
  shows "dbVersion db \<le> dbVersion db' \<and> (dbVersion db' = dbVersion db \<longrightarrow> content db' = content db)"
  using run_since [OF assms] by (auto simp: wf_since_def tracked_def)

text \<open>A run that creates a device and archives it.\<close>

definition sample_db :: Db where
  "sample_db = new_db 5000000 (\<lambda>n. 5000000 * (int n + 1)) (\<lambda>_. None) (\<lambda>_ _ _. None)"

definition sample_device_input :: CreateRegistryInput where
  "sample_device_input = \<lparr> cgID = ''d'', cgCreatedAt = None, cgUpdatedAt = None, cgArchivedAt = None \<rparr>"

lemma sample_run: "\<exists>db'. sqlite_step\<^sup>*\<^sup>* sample_db db' \<and> dbDevices db' \<noteq> []"
proof -
  let ?db = "snd (sqlite_CreateDevice sample_device_input sample_db)"
  have "sqlite_step\<^sup>*\<^sup>* sample_db ?db" by (intro r_into_rtranclp sqlite_step.intros)
  moreover have "\<not> blank ''d''" by (simp add: blank_def trim_fixed_ends starts_with_seq_def space_seqs_def)
  then have "dbDevices ?db \<noteq> []"
    by (simp add: sqlite_CreateDevice_def sample_device_input_def sq_def bnd_def statement_def insert_device_def
        registry_row_def sample_db_def new_db_def id_sets sqlite_GetDeviceByID_def found_def query_def bump_def
        ret_def fail_def split: option.splits)
  ultimately show ?thesis by blast
qed

theorem version_tracks_content_witness:
  "\<exists>db'. sqlite_step\<^sup>*\<^sup>* sample_db db' \<and> dbDevices db' \<noteq> [] \<and> dbVersion sample_db \<le> dbVersion db'"
proof -
  obtain db' where run: "sqlite_step\<^sup>*\<^sup>* sample_db db'" and "dbDevices db' \<noteq> []" using sample_run by blast
  with version_tracks_content [OF run] show ?thesis using new_db_wf by (auto simp: sample_db_def)
qed

end
