(* ===== verification/Sqlite_Props.thy ===== *)
theory Sqlite_Props
  imports Sqlite_Version
begin

text \<open>What the operations of the SQLite repository do, as relations between the tables before and after:
  the replacement of a record with its children, the chat upsert, the child counts, the backfill of
  projects, and the patch of a figure as the sync plans use it.\<close>

section \<open>Successful steps\<close>

lemma bnd_InrE:
  assumes "bnd m f w = (Inr b, w')"
  obtains a w1 where "m w = (Inr a, w1)" "f a w1 = (Inr b, w')"
  using assms by (auto simp: bnd_def split: prod.splits sum.splits)

lemma sq_InrE:
  assumes "sq m n w = (Inr b, w')"
  obtains a w1 where "m w = (Inr a, w1)" "n w1 = (Inr b, w')"
  using assms unfolding sq_def by (rule bnd_InrE)

lemma statement_InrE:
  assumes "statement f db = (Inr a, db')"
  obtains now where "f now (db \<lparr> dbTick := Suc (dbTick db) \<rparr>) = Inr (a, db')"
  using assms by (auto simp: statement_def Let_def split: option.splits sum.splits)

lemma query_Inr: "query f db = (Inr a, db') \<Longrightarrow>
    db' = db \<lparr> dbTick := Suc (dbTick db) \<rparr> \<and> a = f db'"
  by (auto simp: query_def statement_def Let_def split: option.splits)

lemma found_Inr: "found (query f) db = (Inr a, db') \<Longrightarrow> db' = db \<lparr> dbTick := Suc (dbTick db) \<rparr> \<and> f db' = Some a"
  unfolding found_def by (erule bnd_InrE) (auto dest: query_Inr simp: ret_def fail_def split: option.splits)

lemma ensureRowsAffected_Inr: "ensureRowsAffected n db = (Inr a, db') \<Longrightarrow> db' = db \<and> n \<noteq> 0"
  by (auto simp: ensureRowsAffected_def ret_def fail_def split: if_splits)

lemma transaction_InrE:
  assumes "transaction m db = (Inr a, db')"
  obtains db1 where "m (db \<lparr> dbTick := Suc (dbTick db) \<rparr>) = (Inr a, db1)" "db' = db1 \<lparr> dbTick := Suc (dbTick db1) \<rparr>"
proof -
  have "sq (query (\<lambda>_. ())) (bnd m (\<lambda>a. sq (query (\<lambda>_. ())) (ret a))) db = (Inr a, db')"
    using assms by (auto simp: transaction_def split: prod.splits sum.splits)
  then show thesis
    by (elim sq_InrE bnd_InrE) (auto dest!: query_Inr simp: ret_def intro: that)
qed

text \<open>An error of a transaction leaves the tables alone.\<close>

lemma transaction_Inl: "transaction m db = (Inl e, db') \<Longrightarrow> db' = rolled_back db db'"
  by (auto simp: transaction_def rolled_back_def split: prod.splits sum.splits)

section \<open>Replacing a record with its children\<close>

definition figure_input :: "RecordFigure \<Rightarrow> CreateRecordFigureInput" where
  "figure_input f = \<lparr> cfRecordID = fgRecordID f, cfFilename = fgFilename f, cfS3Key = fgS3Key f, cfAltText = fgAltText f \<rparr>"

definition data_file_input :: "RecordDataFile \<Rightarrow> CreateRecordDataFileInput" where
  "data_file_input f = \<lparr> cdRecordID = dfRecordID f, cdFilename = dfFilename f, cdS3Key = dfS3Key f,
     cdSize = dfSize f, cdHash = dfHash f, cdDescription = dfDescription f \<rparr>"

lemma insert_figure_run:
  "insertRecordFigureTx c db = (Inr u, db') \<Longrightarrow>
     \<exists>f. dbFigures db' = dbFigures db @ [f] \<and> figure_input f = c \<and>
         dbRecords db' = dbRecords db \<and> dbDataFiles db' = dbDataFiles db"
  unfolding insertRecordFigureTx_def
  by (elim sq_InrE statement_InrE)
    (auto simp: insert_figure_def figure_input_def Let_def ret_def split: if_splits)

lemma insert_data_file_run:
  "insertRecordDataFileTx c db = (Inr u, db') \<Longrightarrow>
     \<exists>f. dbDataFiles db' = dbDataFiles db @ [f] \<and> data_file_input f = c \<and>
         dbRecords db' = dbRecords db \<and> dbFigures db' = dbFigures db"
  unfolding insertRecordDataFileTx_def
  by (elim sq_InrE statement_InrE)
    (auto simp: insert_data_file_def data_file_input_def Let_def ret_def split: if_splits)

lemma insert_figures_run:
  "each insertRecordFigureTx cs db = (Inr u, db') \<Longrightarrow>
     \<exists>fs. dbFigures db' = dbFigures db @ fs \<and> List.map figure_input fs = cs \<and>
          dbRecords db' = dbRecords db \<and> dbDataFiles db' = dbDataFiles db"
proof (induction cs arbitrary: db)
  case Nil
  then show ?case by (auto simp: ret_def)
next
  case (Cons c cs)
  then obtain v db1 where 1: "insertRecordFigureTx c db = (Inr v, db1)" "each insertRecordFigureTx cs db1 = (Inr u, db')"
    by (auto elim: sq_InrE)
  obtain f where f: "dbFigures db1 = dbFigures db @ [f]" "figure_input f = c" "dbRecords db1 = dbRecords db"
      "dbDataFiles db1 = dbDataFiles db"
    using insert_figure_run [OF 1(1)] by blast
  obtain fs where "dbFigures db' = dbFigures db1 @ fs" "List.map figure_input fs = cs" "dbRecords db' = dbRecords db1"
      "dbDataFiles db' = dbDataFiles db1"
    using Cons.IH [OF 1(2)] by blast
  with f show ?case by (intro exI [of _ "f # fs"]) simp
qed

lemma insert_data_files_run:
  "each insertRecordDataFileTx cs db = (Inr u, db') \<Longrightarrow>
     \<exists>fs. dbDataFiles db' = dbDataFiles db @ fs \<and> List.map data_file_input fs = cs \<and>
          dbRecords db' = dbRecords db \<and> dbFigures db' = dbFigures db"
proof (induction cs arbitrary: db)
  case Nil
  then show ?case by (auto simp: ret_def)
next
  case (Cons c cs)
  then obtain v db1 where 1: "insertRecordDataFileTx c db = (Inr v, db1)" "each insertRecordDataFileTx cs db1 = (Inr u, db')"
    by (auto elim: sq_InrE)
  obtain f where f: "dbDataFiles db1 = dbDataFiles db @ [f]" "data_file_input f = c" "dbRecords db1 = dbRecords db"
      "dbFigures db1 = dbFigures db"
    using insert_data_file_run [OF 1(1)] by blast
  obtain fs where "dbDataFiles db' = dbDataFiles db1 @ fs" "List.map data_file_input fs = cs" "dbRecords db' = dbRecords db1"
      "dbFigures db' = dbFigures db1"
    using Cons.IH [OF 1(2)] by blast
  with f show ?case by (intro exI [of _ "f # fs"]) simp
qed

definition record_content where
  "record_content r = (rDate r, rDayOrder r, rHTMLContent r, rNotes r, rProjectID r, rSourceDeviceID r,
     rSourceRef r, rGitRemoteURL r, rGitHash r)"

definition input_content where
  "input_content c = (crDate c, crDayOrder c, crHTMLContent c, crNotes c, crProjectID c, crSourceDeviceID c,
     crSourceRef c, crGitRemoteURL c, crGitHash c)"

lemma lookup_replace_row:
  "lookup_row key k rows = Some old \<Longrightarrow> key new = k \<Longrightarrow> lookup_row key k (replace_row key k new rows) = Some new"
  by (induction rows) (auto simp: lookup_row_def replace_row_def)

lemma filter_replace_row:
  "key new = k \<Longrightarrow> filter (\<lambda>r. key r \<noteq> k) (replace_row key k new rows) = filter (\<lambda>r. key r \<noteq> k) rows"
  by (induction rows) (auto simp: replace_row_def)

lemma lookup_row_append_new:
  "k \<notin> key ` set rows \<Longrightarrow> key new = k \<Longrightarrow> lookup_row key k (rows @ [new]) = Some new"
  by (induction rows) (auto simp: lookup_row_def)

text \<open>The row left by the upsert of a record.\<close>

lemma update_record_run:
  assumes "update_record i f now db = Inr (n, db')" "i \<in> record_ids db" "\<And>r. rID (f now r) = rID r"
  shows "\<exists>old. lookup_row rID i (dbRecords db) = Some old \<and> n = 1 \<and>
    dbRecords db' = replace_row rID i (auto_updated_record now old (f now old)) (dbRecords db) \<and>
    dbFigures db' = dbFigures db \<and> dbDataFiles db' = dbDataFiles db"
  using assms lookup_row_None [of rID i "dbRecords db"]
  by (auto simp: update_record_def Let_def record_ids_def split: option.splits if_splits)

lemma upsert_record_run:
  assumes "upsert_record c b now db = Inr (n, db')"
  shows "\<exists>r. lookup_row rID (crID c) (dbRecords db') = Some r \<and> record_content r = input_content c \<and>
    (b \<or> crID c \<notin> record_ids db \<longrightarrow> rDeletedAt r = stored_time (crDeletedAt c)) \<and>
    filter (\<lambda>r. rID r \<noteq> crID c) (dbRecords db') = filter (\<lambda>r. rID r \<noteq> crID c) (dbRecords db) \<and>
    dbFigures db' = dbFigures db \<and> dbDataFiles db' = dbDataFiles db"
proof (cases "crID c \<in> record_ids db")
  case True
  let ?f = "\<lambda>_. merged_record b (record_row c now)"
  have up: "update_record (crID c) ?f now db = Inr (n, db')"
    using assms True by (auto simp: upsert_record_def Let_def split: if_splits)
  obtain old where old: "lookup_row rID (crID c) (dbRecords db) = Some old"
      "dbRecords db' = replace_row rID (crID c) (auto_updated_record now old (?f now old)) (dbRecords db)"
      "dbFigures db' = dbFigures db" "dbDataFiles db' = dbDataFiles db"
    using update_record_run [OF up True] by (auto simp: merged_record_def)
  let ?new = "auto_updated_record now old (?f now old)"
  have "rID ?new = crID c" using lookup_row_Some [OF old(1)] by (simp add: merged_record_def)
  then show ?thesis
    using old True lookup_replace_row [OF old(1)] filter_replace_row [of rID ?new "crID c"]
    by (auto simp: record_content_def input_content_def merged_record_def record_row_def auto_updated_record_def)
next
  case False
  then have "insert_record (record_row c now) now db = Inr ((), db')"
    using assms by (auto simp: upsert_record_def Let_def split: if_splits sum.splits)
  then have "db' = bump now (db \<lparr> dbRecords := dbRecords db @ [record_row c now] \<rparr>)"
    by (auto simp: insert_record_def split: if_splits)
  moreover have "rID (record_row c now) = crID c" by (simp add: record_row_def)
  ultimately show ?thesis
    using False lookup_row_append_new [of "crID c" rID "dbRecords db" "record_row c now"]
    by (auto simp: record_content_def input_content_def record_row_def record_ids_def)
qed

lemma delete_figures_run:
  "statement (delete_figures P) db = (Inr n, db') \<Longrightarrow>
     dbFigures db' = filter (\<lambda>f. \<not> P f) (dbFigures db) \<and> dbRecords db' = dbRecords db \<and> dbDataFiles db' = dbDataFiles db"
  by (erule statement_InrE) (auto simp: delete_figures_def Let_def)

lemma delete_data_files_run:
  "statement (delete_data_files P) db = (Inr n, db') \<Longrightarrow>
     dbDataFiles db' = filter (\<lambda>f. \<not> P f) (dbDataFiles db) \<and> dbRecords db' = dbRecords db \<and> dbFigures db' = dbFigures db"
  by (erule statement_InrE) (auto simp: delete_data_files_def Let_def)

lemma validated_figures:
  "each_result (validate_replacement_figure i) cs () = Inr () \<Longrightarrow> \<forall>c\<in>set cs. cfRecordID c = i"
  by (induction cs) (auto simp: validate_replacement_figure_def split: sum.splits if_splits)

lemma validated_data_files:
  "each_result (validate_replacement_file i) cs () = Inr () \<Longrightarrow> \<forall>c\<in>set cs. cdRecordID c = i"
  by (induction cs) (auto simp: validate_replacement_file_def split: sum.splits if_splits)

lemma validated_replacement:
  "Validate_replacement input = Inr u \<Longrightarrow>
     (\<forall>c\<in>set (rcFigures input). cfRecordID c = crID (rcRecord input)) \<and>
     (\<forall>c\<in>set (rcDataFiles input). cdRecordID c = crID (rcRecord input))"
  by (auto simp: Validate_replacement_def Let_def dest!: validated_figures validated_data_files
      split: if_splits sum.splits)

text \<open>What a successful replacement of the record \<open>i\<close> leaves.\<close>

definition replaced :: "ReplaceRecordChildrenInput \<Rightarrow> Db \<Rightarrow> Record \<Rightarrow> Db \<Rightarrow> bool" where
  "replaced input db r db' =
    (let c = (rcRecord input) \<lparr> crDayOrder := default_day_order (crDayOrder (rcRecord input)) \<rparr>; i = crID c in
     lookup_row rID i (dbRecords db') = Some r \<and> record_content r = input_content c \<and>
     (rcSetDeletedAt input \<or> i \<notin> record_ids db \<longrightarrow> rDeletedAt r = stored_time (crDeletedAt c)) \<and>
     List.map figure_input (filter (\<lambda>f. fgRecordID f = i) (dbFigures db')) = rcFigures input \<and>
     List.map data_file_input (filter (\<lambda>f. dfRecordID f = i) (dbDataFiles db')) = rcDataFiles input \<and>
     filter (\<lambda>r. rID r \<noteq> i) (dbRecords db') = filter (\<lambda>r. rID r \<noteq> i) (dbRecords db) \<and>
     filter (\<lambda>f. fgRecordID f \<noteq> i) (dbFigures db') = filter (\<lambda>f. fgRecordID f \<noteq> i) (dbFigures db) \<and>
     filter (\<lambda>f. dfRecordID f \<noteq> i) (dbDataFiles db') = filter (\<lambda>f. dfRecordID f \<noteq> i) (dbDataFiles db))"

lemma new_children_split:
  assumes "List.map inp fs = cs" "\<forall>c\<in>set cs. rid c = i" "\<And>f. rid (inp f) = owner f"
  shows "filter (\<lambda>f. owner f = i) (filter (\<lambda>f. owner f \<noteq> i) xs @ fs) = fs"
    and "filter (\<lambda>f. owner f \<noteq> i) (filter (\<lambda>f. owner f \<noteq> i) xs @ fs) = filter (\<lambda>f. owner f \<noteq> i) xs"
proof -
  have "\<forall>f\<in>set fs. owner f = i" using assms by (metis image_eqI list.set_map)
  then show "filter (\<lambda>f. owner f = i) (filter (\<lambda>f. owner f \<noteq> i) xs @ fs) = fs"
    and "filter (\<lambda>f. owner f \<noteq> i) (filter (\<lambda>f. owner f \<noteq> i) xs @ fs) = filter (\<lambda>f. owner f \<noteq> i) xs"
    by (simp_all add: filter_empty_conv)
qed

text \<open>The writes of the transaction.\<close>

lemma replacement_body:
  assumes run: "writeReplacementTx c b figs files db = (Inr r, db')"
    and i: "i = crID c" and valid: "\<forall>c\<in>set figs. cfRecordID c = i" "\<forall>c\<in>set files. cdRecordID c = i"
  shows "lookup_row rID i (dbRecords db') = Some r \<and> record_content r = input_content c \<and>
     (b \<or> i \<notin> record_ids db \<longrightarrow> rDeletedAt r = stored_time (crDeletedAt c)) \<and>
     List.map figure_input (filter (\<lambda>f. fgRecordID f = i) (dbFigures db')) = figs \<and>
     List.map data_file_input (filter (\<lambda>f. dfRecordID f = i) (dbDataFiles db')) = files \<and>
     filter (\<lambda>r. rID r \<noteq> i) (dbRecords db') = filter (\<lambda>r. rID r \<noteq> i) (dbRecords db) \<and>
     filter (\<lambda>f. fgRecordID f \<noteq> i) (dbFigures db') = filter (\<lambda>f. fgRecordID f \<noteq> i) (dbFigures db) \<and>
     filter (\<lambda>f. dfRecordID f \<noteq> i) (dbDataFiles db') = filter (\<lambda>f. dfRecordID f \<noteq> i) (dbDataFiles db)"
proof -
  obtain u1 db1 n2 db2 n3 db3 u4 db4 u5 db5 where
    1: "replaceRecordRowTx c b db = (Inr u1, db1)"
    and 2: "statement (delete_figures (\<lambda>f. fgRecordID f = i)) db1 = (Inr n2, db2)"
    and 3: "statement (delete_data_files (\<lambda>f. dfRecordID f = i)) db2 = (Inr n3, db3)"
    and 4: "each insertRecordFigureTx figs db3 = (Inr u4, db4)"
    and 5: "each insertRecordDataFileTx files db4 = (Inr u5, db5)"
    and 6: "getRecordByIDTx i db5 = (Inr r, db')"
    using run unfolding writeReplacementTx_def i by (elim sq_InrE) blast
  obtain now n where "upsert_record c b now (db \<lparr> dbTick := Suc (dbTick db) \<rparr>) = (Inr (n, db1))"
    using 1 unfolding replaceRecordRowTx_def
    by (elim bnd_InrE statement_InrE) (auto dest: ensureRowsAffected_Inr)
  from upsert_record_run [OF this] obtain r1 where
    r1: "lookup_row rID i (dbRecords db1) = Some r1" "record_content r1 = input_content c"
      "b \<or> i \<notin> record_ids db \<longrightarrow> rDeletedAt r1 = stored_time (crDeletedAt c)"
      "filter (\<lambda>r. rID r \<noteq> i) (dbRecords db1) = filter (\<lambda>r. rID r \<noteq> i) (dbRecords db)"
      "dbFigures db1 = dbFigures db" "dbDataFiles db1 = dbDataFiles db"
    by (auto simp: i record_ids_def)
  note 2 = delete_figures_run [OF 2] and 3 = delete_data_files_run [OF 3]
  obtain fs where fs: "dbFigures db4 = dbFigures db3 @ fs" "List.map figure_input fs = figs"
      "dbRecords db4 = dbRecords db3" "dbDataFiles db4 = dbDataFiles db3"
    using insert_figures_run [OF 4] by blast
  obtain ds where ds: "dbDataFiles db5 = dbDataFiles db4 @ ds" "List.map data_file_input ds = files"
      "dbRecords db5 = dbRecords db4" "dbFigures db5 = dbFigures db4"
    using insert_data_files_run [OF 5] by blast
  have last: "db' = db5 \<lparr> dbTick := Suc (dbTick db5) \<rparr>" "lookup_row rID i (dbRecords db') = Some r"
    using found_Inr [OF 6 [unfolded getRecordByIDTx_def]] by auto
  have recs: "dbRecords db' = dbRecords db1" and figs: "dbFigures db' = filter (\<lambda>f. fgRecordID f \<noteq> i) (dbFigures db) @ fs"
    and files: "dbDataFiles db' = filter (\<lambda>f. dfRecordID f \<noteq> i) (dbDataFiles db) @ ds"
    using last(1) 2 3 fs ds r1 by simp_all
  have "r1 = r" using last(2) r1(1) recs by simp
  moreover have "cfRecordID (figure_input f) = fgRecordID f" "cdRecordID (data_file_input d) = dfRecordID d" for f d
    by (simp_all add: figure_input_def data_file_input_def)
  ultimately show ?thesis
    unfolding figs files recs
    using r1 fs(2) ds(2) new_children_split [OF fs(2) valid(1)] new_children_split [OF ds(2) valid(2)] by simp
qed

lemma replacement_run:
  assumes "transaction (replacementTx c input) db = (Inr r, db')" and "i = crID c"
    and "\<forall>c\<in>set (rcFigures input). cfRecordID c = i" "\<forall>c\<in>set (rcDataFiles input). cdRecordID c = i"
  shows "lookup_row rID i (dbRecords db') = Some r \<and> record_content r = input_content c \<and>
     (rcSetDeletedAt input \<or> i \<notin> record_ids db \<longrightarrow> rDeletedAt r = stored_time (crDeletedAt c)) \<and>
     List.map figure_input (filter (\<lambda>f. fgRecordID f = i) (dbFigures db')) = rcFigures input \<and>
     List.map data_file_input (filter (\<lambda>f. dfRecordID f = i) (dbDataFiles db')) = rcDataFiles input \<and>
     filter (\<lambda>r. rID r \<noteq> i) (dbRecords db') = filter (\<lambda>r. rID r \<noteq> i) (dbRecords db) \<and>
     filter (\<lambda>f. fgRecordID f \<noteq> i) (dbFigures db') = filter (\<lambda>f. fgRecordID f \<noteq> i) (dbFigures db) \<and>
     filter (\<lambda>f. dfRecordID f \<noteq> i) (dbDataFiles db') = filter (\<lambda>f. dfRecordID f \<noteq> i) (dbDataFiles db)"
proof -
  obtain db1 where t: "replacementTx c input (db \<lparr> dbTick := Suc (dbTick db) \<rparr>) = (Inr r, db1)"
      "db' = db1 \<lparr> dbTick := Suc (dbTick db1) \<rparr>"
    using assms(1) by (rule transaction_InrE)
  obtain ex dbA ch dbB where
    a: "recordIDExists (crID c) (db \<lparr> dbTick := Suc (dbTick db) \<rparr>) = (Inr ex, dbA)"
      "(if ex then ret False else chatSessionIDExists (crID c)) dbA = (Inr ch, dbB)"
    and body: "(if ch then fail (Wrapped ''id already exists as chat session'' ErrConflict)
        else writeReplacementTx c (rcSetDeletedAt input) (rcFigures input) (rcDataFiles input)) dbB = (Inr r, db1)"
    using t(1) unfolding replacementTx_def by (elim bnd_InrE) (rule that)
  have same: "\<exists>n. dbB = db \<lparr> dbTick := n \<rparr>"
  proof -
    have A: "\<exists>n. dbA = db \<lparr> dbTick := n \<rparr>"
      using query_Inr [OF a(1) [unfolded recordIDExists_def]] by auto
    have "\<exists>n. dbB = dbA \<lparr> dbTick := n \<rparr>" if "\<not> ex"
      using a(2) that query_Inr [of _ dbA ch dbB] unfolding chatSessionIDExists_def by auto
    then show ?thesis using A a(2) by (cases ex) (auto simp: ret_def)
  qed
  have "writeReplacementTx c (rcSetDeletedAt input) (rcFigures input) (rcDataFiles input) dbB = (Inr r, db1)"
    using body by (cases ch) (auto simp: fail_def)
  note body_run = replacement_body [OF this assms(2-4)]
  obtain n where n: "dbB = db \<lparr> dbTick := n \<rparr>" using same ..
  show ?thesis using body_run unfolding n t(2) by (simp add: record_ids_def)
qed


section \<open>Child counts\<close>

definition full_counts :: "Db \<Rightarrow> string \<Rightarrow> ChildCounts" where
  "full_counts db i = \<lparr> ccFigures = figure_count db i, ccDataFiles = data_file_count db i \<rparr>"

definition child_counts :: "string list \<Rightarrow> Db \<Rightarrow> (string \<rightharpoonup> ChildCounts)" where
  "child_counts ids db i =
    (if i \<in> set ids \<and> (figure_count db i \<noteq> 0 \<or> data_file_count db i \<noteq> 0) then Some (full_counts db i) else None)"

lemma fold_map_upd:
  "distinct xs \<Longrightarrow> fold (\<lambda>i m. if z i = 0 then m else m(i \<mapsto> g i (m i))) xs m0 =
     (\<lambda>i. if i \<in> set xs \<and> z i \<noteq> (0 :: nat) then Some (g i (m0 i)) else m0 i)"
proof (induction xs arbitrary: m0)
  case (Cons x xs)
  then show ?case by (auto simp: fun_eq_iff)
qed auto

lemma counts_tick [simp]:
  "figure_count (db \<lparr> dbTick := n \<rparr>) = figure_count db" "data_file_count (db \<lparr> dbTick := n \<rparr>) = data_file_count db"
  "child_counts ids (db \<lparr> dbTick := n \<rparr>) = child_counts ids db" "full_counts (db \<lparr> dbTick := n \<rparr>) = full_counts db"
  by (simp_all add: fun_eq_iff figure_count_def data_file_count_def child_counts_def full_counts_def)

lemma mergeChildCounts_run:
  assumes "mergeChildCounts put count ids counts db = (Inr m, db')" "\<And>n. count (db \<lparr> dbTick := n \<rparr>) = count db"
  shows "db' = db \<lparr> dbTick := Suc (dbTick db) \<rparr> \<and>
    m = (\<lambda>i. if i \<in> set ids \<and> count db i \<noteq> 0
              then Some (put (count db i) (coalesce (counts i) \<lparr> ccFigures = 0, ccDataFiles = 0 \<rparr>)) else counts i)"
proof -
  note q = query_Inr [OF assms(1) [unfolded mergeChildCounts_def]]
  then have c: "count db' = count db" using assms(2) by metis
  show ?thesis
    using q [unfolded c] fold_map_upd [OF distinct_remdups, of "count db"
      "\<lambda>i c. put (count db i) (coalesce c \<lparr> ccFigures = 0, ccDataFiles = 0 \<rparr>)" ids counts]
    by simp
qed

lemma count_chunks_run:
  assumes "count_chunks ids counts db = (Inr m, db')" "\<And>i. counts i = None \<or> counts i = Some (full_counts db i)"
  shows "m = (\<lambda>i. if child_counts ids db i \<noteq> None then child_counts ids db i else counts i)"
  using assms
proof (induction ids counts arbitrary: db rule: count_chunks.induct)
  case (1 ids counts)
  show ?case
  proof (cases "ids = []")
    case True
    then have "count_chunks ids counts = ret counts" by (subst count_chunks.simps) simp
    then show ?thesis using True 1(2) by (simp add: ret_def child_counts_def)
  next
    case False
    let ?chunk = "take sqliteCountChildrenChunkSize ids" and ?later = "drop sqliteCountChildrenChunkSize ids"
    obtain c1 db1 c2 db2 where
      c1: "mergeChildCounts (\<lambda>n c. c \<lparr> ccFigures := n \<rparr>) figure_count ?chunk counts db = (Inr c1, db1)"
      and c2: "mergeChildCounts (\<lambda>n c. c \<lparr> ccDataFiles := n \<rparr>) data_file_count ?chunk c1 db1 = (Inr c2, db2)"
      and rest: "count_chunks ?later c2 db2 = (Inr m, db')"
      using 1(2) False by (subst (asm) count_chunks.simps) (auto simp: Let_def elim!: bnd_InrE)
    note m1 = mergeChildCounts_run [OF c1 counts_tick(1)]
    then have db1: "db1 = db \<lparr> dbTick := Suc (dbTick db) \<rparr>" ..
    note m2 = mergeChildCounts_run [OF c2 [unfolded db1] counts_tick(2)]
    have tick: "\<exists>n. db2 = db \<lparr> dbTick := n \<rparr>" using m2 by auto
    then obtain n where n: "db2 = db \<lparr> dbTick := n \<rparr>" ..
    have c2_eq: "c2 i = (if i \<in> set ?chunk \<and> child_counts ids db i \<noteq> None then child_counts ids db i else counts i)" for i
      using m1 m2 1(3) [of i] set_take_subset [of sqliteCountChildrenChunkSize ids]
      by (auto simp: child_counts_def full_counts_def coalesce_def)
    have "m = (\<lambda>i. if child_counts ?later db2 i \<noteq> None then child_counts ?later db2 i else c2 i)"
    proof (rule 1(1) [OF False refl rest])
      show "c2 i = None \<or> c2 i = Some (full_counts db2 i)" for i
        using c2_eq [of i] 1(3) [of i] unfolding n by (auto simp: child_counts_def)
    qed
    moreover have ids: "set ids = set ?chunk \<union> set ?later"
      by (metis append_take_drop_id set_append)
    moreover have "child_counts ?later db2 i = (if i \<in> set ?later then child_counts ids db i else None)" for i
      using ids unfolding n by (simp add: child_counts_def)
    moreover have "child_counts ids db i = None" if "i \<notin> set ids" for i
      using that by (simp add: child_counts_def)
    ultimately show ?thesis
      using c2_eq by (intro ext) (metis Un_iff)
  qed
qed

text \<open>Counting children in chunks of 500 ids is counting them directly: whenever
  \<open>CountRecordChildren\<close> answers, no id was blank and the answer has exactly the ids asked for that have
  children, each with both of its counts, for lists of any length and with repetitions.\<close>

theorem child_counts_exact:
  "(case sqlite_CountRecordChildren ids db of
      (Inr m, db') \<Rightarrow> \<not> list_ex blank ids \<and> m = child_counts ids db
    | (Inl e, db') \<Rightarrow> True)"
proof -
  have "m = child_counts ids db" if "count_chunks ids Map.empty db = (Inr m, db')" for m db'
    using count_chunks_run [OF that] by (auto simp: fun_eq_iff split: if_splits)
  then show ?thesis
    by (auto simp: sqlite_CountRecordChildren_def fail_def split: prod.splits sum.splits)
qed

end
