(* ===== verification/Sqlite_Chat_Props.thy ===== *)
theory Sqlite_Chat_Props
  imports Sqlite_Props
begin

text \<open>The chat side of the SQLite repository: what an upsert merges, what the backfill assigns, and the
  patch of a figure as the sync plans use it.\<close>

section \<open>Backfill\<close>

definition covers :: "ChatSession \<Rightarrow> ProjectPath \<Rightarrow> bool" where
  "covers c p = (ppDeviceID p = csSourceDeviceID c \<and> (\<exists>cwd. csCWD c = Some cwd \<and> path_covers (ppPath p) cwd))"

text \<open>\<open>p\<close> is the registered path to choose for \<open>c\<close>: no covering path is longer, and among the covering
  paths of its length it has the least project.\<close>

definition best_path :: "Db \<Rightarrow> ChatSession \<Rightarrow> ProjectPath \<Rightarrow> bool" where
  "best_path db c p =
    (p \<in> set (dbPaths db) \<and> covers c p \<and>
     (\<forall>q\<in>set (dbPaths db). covers c q \<longrightarrow>
        length (ppPath q) < length (ppPath p) \<or>
        (length (ppPath q) = length (ppPath p) \<and> ppProjectID p \<le> ppProjectID q)))"

definition wants_project :: "Db \<Rightarrow> ChatSession \<Rightarrow> bool" where
  "wants_project db c = (csProjectID c = None \<and> (\<exists>p\<in>set (dbPaths db). covers c p))"

definition assigned :: "Db \<Rightarrow> ChatSession \<Rightarrow> ChatSession \<Rightarrow> bool" where
  "assigned db c c' =
    (if wants_project db c
     then \<exists>p t. best_path db c p \<and> c' = c \<lparr> csProjectID := Some (ppProjectID p), csUpdatedAt := t \<rparr>
     else c' = c)"

lemma set_covering_paths: "p \<in> set (covering_paths db c) \<longleftrightarrow> p \<in> set (dbPaths db) \<and> covers c p"
  by (cases "csCWD c") (auto simp: covering_paths_def covers_def)

lemma covering_paths_sorted:
  "sorted (List.map (\<lambda>p. (- int (length (ppPath p)), ppProjectID p)) (covering_paths db c))"
  by (auto simp: covering_paths_def split: option.splits)

lemma covering_paths_best:
  assumes "covering_paths db c = p # ps"
  shows "best_path db c p"
proof -
  have "p \<in> set (covering_paths db c)" using assms by simp
  then have "p \<in> set (dbPaths db)" "covers c p" by (simp_all add: set_covering_paths)
  moreover have "(- int (length (ppPath p)), ppProjectID p) \<le> (- int (length (ppPath q)), ppProjectID q)"
    if "q \<in> set (dbPaths db)" "covers c q" for q
  proof -
    have "q \<in> set (p # ps)" using that assms set_covering_paths by metis
    then show ?thesis using covering_paths_sorted [of db c] assms by auto
  qed
  ultimately show ?thesis by (fastforce simp: best_path_def less_eq_prod_def)
qed

lemma backfilled_assigned:
  "assigned db c (case backfilled db c of None \<Rightarrow> c | Some new \<Rightarrow> auto_updated_chat now c new)"
proof (cases "covering_paths db c")
  case Nil
  then have "\<not> (\<exists>p\<in>set (dbPaths db). covers c p)" using set_covering_paths [of _ db c] by auto
  with Nil show ?thesis by (auto simp: backfilled_def assigned_def wants_project_def)
next
  case (Cons p ps)
  then have "\<exists>p\<in>set (dbPaths db). covers c p"
    using set_covering_paths [of p db c] by auto
  with Cons covering_paths_best [OF Cons] show ?thesis
    by (auto simp: backfilled_def assigned_def wants_project_def auto_updated_chat_def)
qed

lemma backfilled_iff: "(\<exists>new. backfilled db c = Some new) \<longleftrightarrow> wants_project db c"
proof -
  have "covering_paths db c \<noteq> [] \<longleftrightarrow> (\<exists>p\<in>set (dbPaths db). covers c p)"
    using set_covering_paths [of _ db c] by (cases "covering_paths db c") auto
  then show ?thesis by (auto simp: backfilled_def wants_project_def split: list.splits)
qed

text \<open>C17. The backfill gives every unassigned chat whose working directory lies in a registered path of
  its device the project of the longest such path, leaves every other chat alone, and reports how
  many it changed.\<close>

theorem backfill_longest_path:
  "(case backfill now db of
      Inl e \<Rightarrow> False
    | Inr (n, db') \<Rightarrow>
        list_all2 (assigned db) (dbChats db) (dbChats db') \<and>
        n = length (filter (wants_project db) (dbChats db)) \<and>
        dbPaths db' = dbPaths db \<and> dbRecords db' = dbRecords db \<and> dbItems db' = dbItems db)"
  by (auto simp: backfill_def Let_def list_all2_map2 backfilled_iff intro!: list.rel_refl_strong backfilled_assigned)

section \<open>Upserting a chat\<close>

text \<open>The stored session after an upsert over an existing one: the identity stays, the time span only
  widens, optional fields are filled or replaced but never emptied, and a tombstone goes away when
  the input says so.\<close>

definition chat_merged :: "UpsertChatSessionInput \<Rightarrow> ChatSession \<Rightarrow> ChatSession \<Rightarrow> bool" where
  "chat_merged c old s =
    (csID s = csID old \<and> csSource s = csSource old \<and> csSourceSessionID s = csSourceSessionID old \<and>
     csCreatedAt s = csCreatedAt old \<and> csSourceDeviceID s = icSourceDeviceID c \<and>
     csStartedAt s \<le> csStartedAt old \<and> csStartedAt s \<le> icStartedAt c \<and>
     csStartedAt s \<in> {csStartedAt old, truncateToMillisecond (icStartedAt c)} \<and>
     csLastActivityAt old \<le> csLastActivityAt s \<and> icLastActivityAt c < csLastActivityAt s + millisecond \<and>
     csLastActivityAt s \<in> {csLastActivityAt old, truncateToMillisecond (icLastActivityAt c)} \<and>
     csTitle s = (if icTitle c = None then csTitle old else icTitle c) \<and>
     csCWD s = (if icCWD c = None then csCWD old else icCWD c) \<and>
     csProjectID s = (if icProjectID c = None then csProjectID old else icProjectID c) \<and>
     csParentSourceSessionID s =
       (if icParentSourceSessionID c = None then csParentSourceSessionID old else icParentSourceSessionID c) \<and>
     csRawSourceKey s = (if icRawSourceKey c = None then csRawSourceKey old else icRawSourceKey c) \<and>
     csOriginalSourcePath s = icOriginalSourcePath c \<and>
     csDeletedAt s = (if icClearDeleted c then None else stored_time (icDeletedAt c)))"

definition chat_inserted :: "UpsertChatSessionInput \<Rightarrow> ChatSession \<Rightarrow> bool" where
  "chat_inserted c s = (\<exists>now. s = chat_row c now)"

lemma merged_chat_merged: "chat_merged c old (auto_updated_chat now old (merged_chat (icClearDeleted c) (chat_row c now) old))"
  using truncate_le [of "icStartedAt c"] truncate_gt [of "icLastActivityAt c"]
  by (auto simp: chat_merged_def auto_updated_chat_def merged_chat_def chat_row_def coalesce_opt_def
      split: option.splits)

lemma find_source_key:
  assumes "wf_db db" "find_source a b db = Some old"
  shows "lookup_row csID (csID old) (dbChats db) = Some old"
  using assms lookup_row_unique [of csID "dbChats db" old]
  by (auto simp: wf_db_def wf_chats_def find_source_def find_Some_iff)

lemma find_source_replaced:
  assumes "wf_db db" "find_source a b db = Some old" "csID new = csID old" "source_of new = source_of old"
  shows "List.find (\<lambda>c. csSource c = a \<and> csSourceSessionID c = b) (replace_row csID (csID old) new (dbChats db)) = Some new"
proof -
  have "distinct (List.map csID (dbChats db))" using assms(1) by (simp add: wf_db_def wf_chats_def)
  then show ?thesis
    using assms(2-4) unfolding find_source_def
  proof (induction "dbChats db" arbitrary: db)
    case (Cons c cs)
    show ?case
    proof (cases "csSource c = a \<and> csSourceSessionID c = b")
      case True
      with Cons.prems Cons.hyps(2) [symmetric] show ?thesis by (auto simp: replace_row_def)
    next
      case False
      have f: "List.find (\<lambda>c. csSource c = a \<and> csSourceSessionID c = b) cs = Some old"
        using Cons.prems(2) False Cons.hyps(2) [symmetric] by simp
      then have "old \<in> set cs" by (auto simp: find_Some_iff)
      then have "csID c \<noteq> csID old" using Cons.prems(1) Cons.hyps(2) [symmetric] by (metis distinct.simps(2) image_eqI list.set_map list.simps(9))
      moreover have "List.find (\<lambda>c. csSource c = a \<and> csSourceSessionID c = b) (replace_row csID (csID old) new cs) = Some new"
        using Cons.hyps(1) [of "db \<lparr> dbChats := cs \<rparr>"] Cons.prems f Cons.hyps(2) [symmetric] by simp
      ultimately show ?thesis using False Cons.hyps(2) [symmetric] by (auto simp: replace_row_Cons)
    qed
  qed simp
qed

lemma find_snoc: "List.find P xs = None \<Longrightarrow> List.find P (xs @ [x]) = (if P x then Some x else None)"
  by (induction xs) (auto split: if_splits)

text \<open>The upsert statement followed by the lookup of what it stored.\<close>

lemma upsert_chat_run:
  assumes wf: "wf_db db" and run: "upsert_chat_statement c db = (Inr u, db')"
    and get: "find_source (icSource c) (icSourceSessionID c) db' = Some s"
  shows "case find_source (icSource c) (icSourceSessionID c) db of
           None \<Rightarrow> chat_inserted c s | Some old \<Rightarrow> chat_merged c old s"
proof -
  let ?db = "db \<lparr> dbTick := Suc (dbTick db) \<rparr>"
  obtain now where up: "upsert_chat (chat_row c now) (merged_chat (icClearDeleted c) (chat_row c now)) now ?db = Inr (u, db')"
    using run unfolding upsert_chat_statement_def by (rule statement_InrE)
  have same: "same_source (chat_row c now) = (\<lambda>x. csSource x = icSource c \<and> csSourceSessionID x = icSourceSessionID c)"
    by (auto simp: same_source_def chat_row_def)
  have find: "List.find (same_source (chat_row c now)) (dbChats ?db) = find_source (icSource c) (icSourceSessionID c) db"
    by (simp add: find_source_def same)
  show ?thesis
  proof (cases "find_source (icSource c) (icSourceSessionID c) db")
    case None
    then have "db' = bump now (?db \<lparr> dbChats := dbChats ?db @ [chat_row c now] \<rparr>)"
      using up find by (auto simp: upsert_chat_def split: if_splits)
    then have "s = chat_row c now"
      using get None by (auto simp: find_source_def find_snoc chat_row_def)
    then show ?thesis using None by (auto simp: chat_inserted_def)
  next
    case (Some old)
    let ?new = "auto_updated_chat now old (merged_chat (icClearDeleted c) (chat_row c now) old)"
    obtain n where "update_chat (csID old) (\<lambda>_. merged_chat (icClearDeleted c) (chat_row c now)) now ?db = Inr (n, db')"
      using up find Some by (auto simp: upsert_chat_def split: if_splits sum.splits)
    then have "dbChats db' = replace_row csID (csID old) ?new (dbChats db)"
      using find_source_key [OF wf Some] by (auto simp: update_chat_def Let_def split: if_splits)
    then have "s = ?new"
      using get find_source_replaced [OF wf Some, of ?new] by (simp add: find_source_def merged_chat_def)
    then show ?thesis using Some merged_chat_merged by simp
  qed
qed

lemma get_by_source_run:
  assumes "sqlite_GetChatSessionBySource a b db = (r, db')" "wf_db db"
  shows "wf_db db' \<and> find_source a b db' = find_source a b db \<and>
    (\<forall>s. r = Inr s \<longrightarrow> find_source a b db = Some s) \<and> (\<forall>e. r = Inl e \<and> err_is e ErrNotFound \<longrightarrow> blank a \<or> blank b \<or> find_source a b db = None)"
  using assms tick_free_wf
  by (auto simp: sqlite_GetChatSessionBySource_def found_def bnd_def query_def statement_def fail_def ret_def Let_def
      find_source_def tick_free_def split: if_splits option.splits sum.splits prod.splits)

lemma upsert_then_get:
  assumes wf: "wf_db db"
    and run: "sq (upsert_chat_statement c)
      (bnd (sqlite_GetChatSessionBySource (icSource c) (icSourceSessionID c)) (\<lambda>s. ret (s, flag))) db = (Inr (s, created), db')"
  shows "created = flag \<and> find_source (icSource c) (icSourceSessionID c) db' = Some s \<and>
    (case find_source (icSource c) (icSourceSessionID c) db of
       None \<Rightarrow> chat_inserted c s | Some old \<Rightarrow> chat_merged c old s)"
proof -
  obtain u db1 db2 where 1: "upsert_chat_statement c db = (Inr u, db1)"
      and 2: "sqlite_GetChatSessionBySource (icSource c) (icSourceSessionID c) db1 = (Inr s, db2)"
      and 3: "created = flag" "db' = db2"
    using run by (elim sq_InrE bnd_InrE) (auto simp: ret_def)
  have "wf_db db1" using keepsD [OF integrity.upsert_chat_statement_keeps wf, of c] 1 by simp
  from get_by_source_run [OF 2 this] have "find_source (icSource c) (icSourceSessionID c) db1 = Some s"
    "find_source (icSource c) (icSourceSessionID c) db2 = Some s" by auto
  with upsert_chat_run [OF wf 1] 3 show ?thesis by simp
qed

text \<open>C18. Importing a chat is a merge. On a well-formed database a successful upsert reports whether the
  session is new; a new one is stored as given, an existing one is merged: its identity stays, its
  time span only widens, optional fields are never emptied, and the deletion state follows the input.\<close>

theorem chat_upsert_merges:
  assumes "wf_db db" and "sqlite_UpsertChatSession c db = (Inr (s, created), db')"
  shows "find_source (icSource c) (icSourceSessionID c) db' = Some s \<and>
    created = (find_source (icSource c) (icSourceSessionID c) db = None) \<and>
    (case find_source (icSource c) (icSourceSessionID c) db of
       None \<Rightarrow> chat_inserted c s | Some old \<Rightarrow> chat_merged c old s)"
proof -
  let ?get = "sqlite_GetChatSessionBySource (icSource c) (icSourceSessionID c)"
  have valid: "\<not> blank (icSource c)" "\<not> blank (icSourceSessionID c)"
    using assms(2) by (auto simp: sqlite_UpsertChatSession_def validateUpsertChatSessionInput_def bnd_def lift_result_def
        split: if_splits)
  obtain r db1 where g: "?get db = (r, db1)" by (cases "?get db")
  note g_run = get_by_source_run [OF g assms(1)]
  have rest: "(case r of
      Inl e \<Rightarrow> if \<not> err_is e ErrNotFound then fail e
        else bnd (recordIDExists (icID c)) (\<lambda>exists.
          if exists then fail (Wrapped ''id already exists as record'' ErrConflict)
          else sq (upsert_chat_statement c) (bnd ?get (\<lambda>s. ret (s, True))))
    | Inr _ \<Rightarrow> sq (upsert_chat_statement c) (bnd ?get (\<lambda>s. ret (s, False)))) db1 = (Inr (s, created), db')"
    using assms(2) g
    by (auto simp: sqlite_UpsertChatSession_def bnd_def [of "lift_result _"] lift_result_def
        bnd_def [of "attempt _"] attempt_def split: sum.splits)
  show ?thesis
  proof (cases r)
    case (Inr old)
    then show ?thesis using upsert_then_get [OF _ rest [unfolded Inr sum.case]] g_run by simp
  next
    case (Inl e)
    have nf: "err_is e ErrNotFound" using rest Inl by (auto simp: fail_def split: if_splits)
    then obtain db2 where db2: "db2 = db1 \<lparr> dbTick := Suc (dbTick db1) \<rparr>"
      "sq (upsert_chat_statement c) (bnd ?get (\<lambda>s. ret (s, True))) db2 = (Inr (s, created), db')"
      using rest Inl unfolding recordIDExists_def
      by (auto elim!: bnd_InrE dest: query_Inr simp: fail_def split: if_splits)
    have "wf_db db2" "find_source (icSource c) (icSourceSessionID c) db2 = None"
      using g_run tick_free_wf valid nf Inl unfolding db2(1) by (auto simp: tick_free_def find_source_def)
    with upsert_then_get [OF _ db2(2)] g_run valid nf Inl show ?thesis by simp
  qed
qed

definition sample_chat_db :: Db where
  "sample_chat_db = sample_db \<lparr> dbDevices := [\<lparr> gID = ''d'', gCreatedAt = 1, gUpdatedAt = 1, gArchivedAt = None \<rparr>] \<rparr>"

definition sample_chat_input :: UpsertChatSessionInput where
  "sample_chat_input =
    \<lparr> icID = ''20240101-0000000a'', icSource = ''codex'', icSourceSessionID = ''s1'',
      icParentSourceSessionID = None, icSourceDeviceID = ''d'', icProjectID = None, icCWD = None, icTitle = None,
      icStartedAt = 5000000, icLastActivityAt = 6000000, icOriginalSourcePath = None, icRawSourceKey = None,
      icCreatedAt = None, icUpdatedAt = None, icDeletedAt = None, icClearDeleted = False \<rparr>"

lemma sample_chat_db_wf: "wf_db sample_chat_db"
  by (simp add: sample_chat_db_def sample_db_def new_db_def wf_db_def wf_parts id_sets)

theorem chat_upsert_merges_witness:
  "\<exists>s db'. sqlite_UpsertChatSession sample_chat_input sample_chat_db = (Inr (s, True), db') \<and>
     find_source ''codex'' ''s1'' db' = Some s \<and> chat_inserted sample_chat_input s"
proof -
  have nb: "\<not> blank ''20240101-0000000a''" "\<not> blank ''codex''" "\<not> blank ''s1''" "\<not> blank ''d''"
    by (simp_all add: blank_def trim_fixed_ends starts_with_seq_def space_seqs_def)
  have shape: "id_shape ''20240101-0000000a''"
    by (simp add: id_shape_def is_digit_def is_lower_hex_def)
  obtain s db' where run: "sqlite_UpsertChatSession sample_chat_input sample_chat_db = (Inr (s, True), db')"
    by (simp add: sqlite_UpsertChatSession_def validateUpsertChatSessionInput_def sample_chat_input_def nb
        is_zero_def lift_result_def bnd_def attempt_def sq_def sqlite_GetChatSessionBySource_def found_def query_def
        statement_def find_source_def sample_chat_db_def sample_db_def new_db_def fail_def ret_def
        recordIDExists_def id_sets upsert_chat_statement_def upsert_chat_def chat_checks_def chat_row_def
        same_source_def chat_fks_def shape bump_def truncateToMillisecond_def Let_def)
  show ?thesis
    using run chat_upsert_merges [OF sample_chat_db_wf run]
    by (simp add: sample_chat_input_def find_source_def sample_chat_db_def sample_db_def new_db_def)
qed

section \<open>The patch of a figure\<close>

text \<open>A cleared alternative text is lost by the sync plan on SQLite. When the stored figure has a
  non-empty alternative text and the winning copy has none, the plan asks for an update, but when that
  update succeeds the stored text is still there, so the copies still differ and every later plan
  asks for the update again.\<close>

theorem cleared_alt_text_not_applied:
  assumes "lookup_row fgID (fgID stored) (dbFigures db) = Some stored"
    and "nullableStringValue (fgAltText stored) \<noteq> []" and "fgAltText winner = None"
    and "sqlite_UpdateRecordFigure (update_figure_of stored winner) db = (Inr f, db')"
  shows "figure_differs stored winner \<and> fgAltText f = fgAltText stored \<and> figure_differs f winner"
proof -
  let ?u = "update_figure_of stored winner"
  have id: "ufID ?u = fgID stored" and none: "ufAltText ?u = None"
    using assms(3) by (simp_all add: update_figure_of_def)
  obtain k db1 n db2 where
    1: "(if ufFilename ?u \<noteq> [] \<or> ufS3Key ?u \<noteq> [] then
           bnd (sqlite_GetRecordFigureByID (fgID stored)) (\<lambda>existing.
             lift_result (patched_key ''figures'' (fgRecordID existing) (fgFilename existing)
               (fgS3Key existing) (ufFilename ?u) (ufS3Key ?u)))
         else ret (ufS3Key ?u)) db = (Inr k, db1)"
    and 2: "statement (update_figure (fgID stored) (patched_figure ?u k)) db1 = (Inr n, db2)"
    and 3: "sq (ensureRowsAffected n) (sqlite_GetRecordFigureByID (fgID stored)) db2 = (Inr f, db')"
    using assms(4) unfolding sqlite_UpdateRecordFigure_def id
    by (auto simp: fail_def split: if_splits elim!: bnd_InrE)
  have "dbFigures db1 = dbFigures db"
    using 1 by (auto simp: sqlite_GetRecordFigureByID_def fail_def ret_def lift_result_def
        split: if_splits elim!: bnd_InrE dest!: found_Inr)
  then have "dbFigures db2 = replace_row fgID (fgID stored) (patched_figure ?u k stored) (dbFigures db)"
    using 2 assms(1) by (elim statement_InrE) (auto simp: update_figure_def Let_def split: if_splits)
  moreover have "fgID (patched_figure ?u k stored) = fgID stored" by (simp add: patched_figure_def)
  ultimately have "lookup_row fgID (fgID stored) (dbFigures db2) = Some (patched_figure ?u k stored)"
    using lookup_replace_row [OF assms(1)] by simp
  then have "f = patched_figure ?u k stored"
    using 3 by (auto simp: sqlite_GetRecordFigureByID_def fail_def split: if_splits
        elim!: sq_InrE dest!: found_Inr ensureRowsAffected_Inr)
  then have "fgAltText f = fgAltText stored" by (simp add: patched_figure_def none coalesce_opt_def)
  then show ?thesis using assms(2,3) by (simp add: figure_differs_def nullableStringValue_def)
qed

definition sample_stored :: RecordFigure where
  "sample_stored = sample_figure 1 \<lparr> fgAltText := Some ''x'' \<rparr>"

definition sample_figure_db :: Db where
  "sample_figure_db = sample_db \<lparr> dbFigures := [sample_stored] \<rparr>"

theorem cleared_alt_text_not_applied_witness:
  "\<exists>f db'. sqlite_UpdateRecordFigure (update_figure_of sample_stored (sample_figure 2)) sample_figure_db = (Inr f, db') \<and>
     fgAltText f = Some ''x'' \<and> figure_differs f (sample_figure 2)"
proof -
  have key: "ValidateRecordAssetKey ''figures'' ''r'' ''f'' ''figures/r/f'' = Inr ()"
    using CanonicalRecordAssetKey_ok [of "''figures''" "''r''" "''f''"]
    by (simp add: ValidateRecordAssetKey_def trim_fixed_ends starts_with_seq_def space_seqs_def blank_def)
  obtain f db' where run: "sqlite_UpdateRecordFigure (update_figure_of sample_stored (sample_figure 2)) sample_figure_db
      = (Inr f, db')"
    by (simp add: sqlite_UpdateRecordFigure_def update_figure_of_def sample_stored_def sample_figure_def
        sample_figure_db_def sample_db_def new_db_def bnd_def sqlite_GetRecordFigureByID_def found_def query_def
        statement_def lookup_row_def ret_def lift_result_def patched_key_def nonempty_or_def key
        update_figure_def patched_figure_def figure_checks_def filename_check_def figure_unique_def
        figure_changed_def bump_if_def replace_row_def coalesce_opt_def sq_def ensureRowsAffected_def Let_def)
  have "lookup_row fgID (fgID sample_stored) (dbFigures sample_figure_db) = Some sample_stored"
    by (simp add: sample_figure_db_def lookup_row_def)
  from cleared_alt_text_not_applied [OF this _ _ run] run show ?thesis
    by (simp add: sample_stored_def sample_figure_def nullableStringValue_def)
qed

end
