(* ===== verification/Sqlite_Ids.thy ===== *)
theory Sqlite_Ids
  imports Sqlite_Version
begin

text \<open>Record ids and chat ids are one name space: an operation that creates a record looks for a chat
  with that id first, and the other way round. No schema constraint enforces this; here it is an
  invariant of every run.\<close>

definition disjoint_ids :: "Db \<Rightarrow> bool" where
  "disjoint_ids db = (wf_db db \<and> record_ids db \<inter> chat_ids db = {})"

lemma tick_free_ids: "tick_free disjoint_ids"
  using tick_free_wf by (simp add: tick_free_def disjoint_ids_def id_sets)

text \<open>A statement that introduces no id keeps the name spaces apart.\<close>

definition no_new_ids :: "(time \<Rightarrow> Db \<Rightarrow> error + ('a \<times> Db)) \<Rightarrow> bool" where
  "no_new_ids f = (\<forall>now db a db'. f now db = Inr (a, db') \<longrightarrow>
     record_ids db' \<subseteq> record_ids db \<and> chat_ids db' \<subseteq> chat_ids db)"

lemma no_new_idsI:
  "(\<And>now db a db'. f now db = Inr (a, db') \<Longrightarrow> record_ids db' \<subseteq> record_ids db \<and> chat_ids db' \<subseteq> chat_ids db) \<Longrightarrow>
     no_new_ids f"
  by (auto simp: no_new_ids_def)

lemma statement_keeps_ids: "statement_keeps wf_db f \<Longrightarrow> no_new_ids f \<Longrightarrow> statement_keeps disjoint_ids f"
  unfolding statement_keeps_def no_new_ids_def disjoint_ids_def by blast

lemma ids_bump [simp]:
  "record_ids (bump now db) = record_ids db" "chat_ids (bump now db) = chat_ids db"
  "record_ids (bump_if b now db) = record_ids db" "chat_ids (bump_if b now db) = chat_ids db"
  "record_ids (bump_n n now db) = record_ids db" "chat_ids (bump_n n now db) = chat_ids db"
  by (simp_all add: id_sets)

lemma replace_row_ids:
  "lookup_row key k rows = Some old \<Longrightarrow> key new = key old \<Longrightarrow> key ` set (replace_row key k new rows) = key ` set rows"
  using lookup_row_Some [of key k rows old] by (simp add: image_replace_row_key)

lemma update_record_ids:
  "(\<And>now r. rID (f now r) = rID r) \<Longrightarrow> no_new_ids (update_record i f)"
  by (rule no_new_idsI)
    (auto simp: update_record_def Let_def id_sets replace_row_ids split: option.splits if_splits)

lemma update_chat_ids_of:
  "update_chat i f now db = Inr (a, db') \<Longrightarrow> (\<And>c. csID (f now c) = csID c) \<Longrightarrow>
     record_ids db' = record_ids db \<and> chat_ids db' = chat_ids db"
  by (clarsimp simp: update_chat_def Let_def id_sets replace_row_ids split: option.splits if_splits)

lemma other_tables_ids:
  "no_new_ids (insert_figure cf)" "no_new_ids (insert_data_file cd)" "no_new_ids (delete_figures Q)"
  "no_new_ids (delete_data_files T)" "no_new_ids (update_figure n f)" "no_new_ids (update_data_file n g)"
  "no_new_ids (\<lambda>now. insert_template (t now) now)" "no_new_ids (update_template i h)"
  "no_new_ids (delete_templates i)" "no_new_ids (\<lambda>now. insert_project (p now) now)"
  "no_new_ids (\<lambda>now. insert_device (p now) now)" "no_new_ids (update_project i k)"
  "no_new_ids (update_device i k)" "no_new_ids (\<lambda>now. insert_path_or_ignore (q now) now)"
  "no_new_ids (\<lambda>now. insert_item (x now) now)" "no_new_ids (delete_items i)"
  by (rule no_new_idsI, auto simp: insert_figure_def insert_data_file_def delete_figures_def delete_data_files_def
      update_figure_def update_data_file_def insert_template_def update_template_def delete_templates_def
      insert_project_def insert_device_def update_project_def update_device_def insert_path_or_ignore_def
      insert_item_def delete_items_def id_sets Let_def split: option.splits if_splits)+

lemma main_tables_ids:
  "no_new_ids (delete_records P)" "no_new_ids (delete_chats i)" "no_new_ids (restore_chat i)" "no_new_ids backfill"
proof -
  show "no_new_ids (delete_records P)" "no_new_ids (delete_chats i)"
    by (rule no_new_idsI, auto simp: delete_records_def delete_chats_def id_sets Let_def split: if_splits)+
  show "no_new_ids (restore_chat i)"
  proof (rule no_new_idsI)
    fix now db a db' assume "restore_chat i now db = Inr (a, db')"
    then have "db' = db \<or> update_chat i (\<lambda>_ c. c \<lparr> csDeletedAt := None \<rparr>) now db = Inr (a, db')"
      by (auto simp: restore_chat_def split: option.splits if_splits)
    then show "record_ids db' \<subseteq> record_ids db \<and> chat_ids db' \<subseteq> chat_ids db"
      using update_chat_ids_of by fastforce
  qed
  show "no_new_ids backfill"
  proof (rule no_new_idsI)
    fix now db a db' assume run: "backfill now db = Inr (a, db')"
    have "csID (case backfilled db c of None \<Rightarrow> c | Some new \<Rightarrow> auto_updated_chat now c new) = csID c" for c
      by (auto simp: backfilled_def split: option.splits if_splits list.splits)
    then show "record_ids db' \<subseteq> record_ids db \<and> chat_ids db' \<subseteq> chat_ids db"
      using run by (auto simp: backfill_def Let_def id_sets)
  qed
qed

lemma update_chat_ids: "(\<And>now c. csID (f now c) = csID c) \<Longrightarrow> no_new_ids (update_chat i f)"
  by (rule no_new_idsI) (use update_chat_ids_of in fastforce)

interpretation ids: db_frame disjoint_ids
  by unfold_locales
    (intro tick_free_ids statement_keeps_ids integrity.st_insert_record integrity.st_update_record
      integrity.st_trash_record integrity.st_restore_record integrity.st_delete_records
      integrity.st_insert_figure integrity.st_update_figure
      integrity.st_delete_figures integrity.st_insert_data_file integrity.st_update_data_file
      integrity.st_delete_data_files integrity.st_insert_template integrity.st_update_template
      integrity.st_delete_templates integrity.st_insert_project integrity.st_archive_project
      integrity.st_import_project integrity.st_insert_device integrity.st_archive_device
      integrity.st_import_device integrity.st_insert_path integrity.st_backfill
      integrity.st_trash_chat integrity.st_restore_chat integrity.st_delete_chats integrity.st_insert_item
      integrity.st_delete_items other_tables_ids main_tables_ids update_record_ids update_chat_ids;
     simp add: updated_record_def)+

section \<open>Guarded insertions\<close>

lemma insert_record_ids:
  assumes "disjoint_ids db" "rID r \<notin> chat_ids db" "insert_record r now db = Inr (a, db')"
  shows "disjoint_ids db'"
proof -
  have "record_ids db' = insert (rID r) (record_ids db)" "chat_ids db' = chat_ids db"
    using assms(3) by (auto simp: insert_record_def split: if_splits) (auto simp: id_sets)
  moreover have "wf_db db'"
    using statement_keepsD [OF insert_record_wf [of "\<lambda>_. r"]] assms(1,3) by (auto simp: disjoint_ids_def)
  ultimately show ?thesis using assms(1,2) by (auto simp: disjoint_ids_def)
qed

lemma upsert_record_ids:
  assumes "disjoint_ids db" "crID c \<in> record_ids db \<or> crID c \<notin> chat_ids db" "upsert_record c b now db = Inr (a, db')"
  shows "disjoint_ids db'"
proof (cases "crID c \<in> record_ids db")
  case True
  then have "update_record (crID c) (\<lambda>_. merged_record b (record_row c now)) now db = Inr (a, db')"
    using assms(3) by (auto simp: upsert_record_def Let_def split: if_splits)
  moreover have "no_new_ids (update_record (crID c) (\<lambda>_. merged_record b (record_row c now)))"
    by (rule update_record_ids) (simp add: merged_record_def)
  moreover have "wf_db db'" using statement_keepsD [OF upsert_record_wf] assms(1,3) by (auto simp: disjoint_ids_def)
  ultimately show ?thesis using assms(1) unfolding no_new_ids_def disjoint_ids_def by blast
next
  case False
  then obtain u where "insert_record (record_row c now) now db = Inr (u, db')"
    using assms(3) by (auto simp: upsert_record_def Let_def split: if_splits sum.splits)
  moreover have "rID (record_row c now) \<notin> chat_ids db" using False assms(2) by (simp add: record_row_def)
  ultimately show ?thesis using insert_record_ids [OF assms(1)] by blast
qed

lemma upsert_chat_ids:
  assumes "disjoint_ids db" "find_source (icSource c) (icSourceSessionID c) db \<noteq> None \<or> icID c \<notin> record_ids db"
    and "upsert_chat (chat_row c now) (merged_chat b (chat_row c now)) now db = Inr (a, db')"
  shows "disjoint_ids db'"
proof -
  have wf: "wf_db db'"
    using statement_keepsD [OF integrity.st_upsert_chat] assms(1,3) by (auto simp: disjoint_ids_def)
  have same: "same_source (chat_row c now) = (\<lambda>x. csSource x = icSource c \<and> csSourceSessionID x = icSourceSessionID c)"
    by (auto simp: same_source_def chat_row_def)
  show ?thesis
  proof (cases "List.find (same_source (chat_row c now)) (dbChats db)")
    case (Some old)
    then obtain n where "update_chat (csID old) (\<lambda>_. merged_chat b (chat_row c now)) now db = Inr (n, db')"
      using assms(3) by (auto simp: upsert_chat_def split: if_splits sum.splits)
    from update_chat_ids_of [OF this] wf assms(1) show ?thesis by (simp add: merged_chat_def disjoint_ids_def)
  next
    case None
    then have "db' = bump now (db \<lparr> dbChats := dbChats db @ [chat_row c now] \<rparr>)"
      using assms(3) by (auto simp: upsert_chat_def split: if_splits)
    moreover have "icID c \<notin> record_ids db"
      using None assms(2) by (simp add: find_source_def same)
    ultimately show ?thesis
      using wf assms(1) by (auto simp: disjoint_ids_def id_sets chat_row_def)
  qed
qed

text \<open>A statement run after its guard: what the guard read still holds.\<close>

lemma statement_guarded:
  assumes "tick_free I" "tick_free G" "I db" "G db"
    and "\<And>now a x x'. I x \<Longrightarrow> G x \<Longrightarrow> f now x = Inr (a, x') \<Longrightarrow> I x'"
  shows "I (snd (statement f db))"
proof -
  have t: "I (db \<lparr> dbTick := n \<rparr>)" "G (db \<lparr> dbTick := n \<rparr>)" for n
    using assms(1-4) by (simp_all add: tick_free_def)
  then have "f now (db \<lparr> dbTick := n \<rparr>) = Inr (a, x) \<Longrightarrow> I x" for now n a x
    using assms(5) by blast
  with t show ?thesis by (auto simp: statement_def Let_def split: option.splits sum.splits prod.splits)
qed

text \<open>A query reads and only moves the tick.\<close>

lemma query_run:
  assumes "\<And>d n. f (d \<lparr> dbTick := n \<rparr>) = f d"
  shows "snd (query f db) = db \<lparr> dbTick := Suc (dbTick db) \<rparr>"
    and "fst (query f db) = Inr a \<Longrightarrow> a = f db"
  using assms by (auto simp: query_def statement_def Let_def split: option.splits)

lemma keeps_guarded:
  assumes "tick_free I" "\<And>d n. q (d \<lparr> dbTick := n \<rparr>) = q d"
    and "\<And>x. I x \<Longrightarrow> I (snd (m (q x) x))"
  shows "keeps I (bnd (query q) m)"
proof (rule keepsI)
  fix db assume I: "I db"
  let ?db = "db \<lparr> dbTick := Suc (dbTick db) \<rparr>"
  have "I ?db" "q ?db = q db" using I assms(1,2) by (auto simp: tick_free_def)
  then show "I (snd (bnd (query q) m db))"
    using assms(3) [of ?db] query_run [of q db] assms(2)
    by (auto simp: bnd_def split: prod.splits sum.splits)
qed
lemma then_keeps: "I (snd (m x)) \<Longrightarrow> (\<And>a. keeps I (f a)) \<Longrightarrow> I (snd (bnd m f x))"
  by (auto simp: bnd_def keeps_def split: prod.splits sum.splits)

lemma then_keeps_sq: "I (snd (m x)) \<Longrightarrow> keeps I n \<Longrightarrow> I (snd (sq m n x))"
  by (simp add: sq_def then_keeps)

lemma bnd_ret: "bnd (ret a) f = f a"
  by (simp add: fun_eq_iff ret_def)

lemmas ids_then = then_keeps [where I = disjoint_ids] then_keeps_sq [where I = disjoint_ids]
lemmas ids_guarded = statement_guarded [where I = disjoint_ids, OF tick_free_ids]

lemma tick_free_guards:
  "tick_free (\<lambda>db. i \<notin> chat_ids db)" "tick_free (\<lambda>db. i \<notin> record_ids db)"
  "tick_free (\<lambda>db. i \<in> record_ids db \<or> i \<notin> chat_ids db)"
  "tick_free (\<lambda>db. find_source a b db \<noteq> None \<or> i \<notin> record_ids db)"
  by (simp_all add: tick_free_def id_sets find_source_def)

lemma ids_tick [simp]:
  "record_ids (d \<lparr> dbTick := n \<rparr>) = record_ids d" "chat_ids (d \<lparr> dbTick := n \<rparr>) = chat_ids d"
  "find_source a b (d \<lparr> dbTick := n \<rparr>) = find_source a b d"
  by (simp_all add: id_sets find_source_def)

lemma create_record_ids [keep_intros]: "keeps disjoint_ids (sqlite_CreateRecord c)"
proof -
  have "keeps disjoint_ids
      (bnd (query (\<lambda>db. crID d \<in> chat_ids db)) (\<lambda>exists.
       if exists then fail e
       else sq (statement (\<lambda>now. insert_record (record_row d now) now)) (sqlite_GetRecordByID (crID d))))" for d e
  proof (rule keeps_guarded [OF tick_free_ids])
    fix x assume I: "disjoint_ids x"
    have st: "disjoint_ids y'"
      if "disjoint_ids y" "crID d \<notin> chat_ids y" "insert_record (record_row d now) now y = Inr (a, y')" for now a y y'
      using insert_record_ids [OF that(1) _ that(3)] that(2) by (simp add: record_row_def)
    have "disjoint_ids (snd (statement (\<lambda>now. insert_record (record_row d now) now) x))" if "crID d \<notin> chat_ids x"
      by (rule ids_guarded [OF tick_free_guards(1) [of "crID d"] I that]) (rule st)
    then have "disjoint_ids (snd (sq (statement (\<lambda>now. insert_record (record_row d now) now))
        (sqlite_GetRecordByID (crID d)) x))" if "crID d \<notin> chat_ids x"
      using that by (intro ids_then ids.GetRecordByID_keeps)
    then show "disjoint_ids (snd ((if crID d \<in> chat_ids x then fail e
        else sq (statement (\<lambda>now. insert_record (record_row d now) now)) (sqlite_GetRecordByID (crID d))) x))"
      using I by (cases "crID d \<in> chat_ids x") (simp_all add: fail_def)
  qed simp
  from this [of "c \<lparr> crDayOrder := default_day_order (crDayOrder c) \<rparr>"]
  show ?thesis unfolding sqlite_CreateRecord_def chatSessionIDExists_def Let_def by (simp add: keeps_fail)
qed

lemma replacement_ids [keep_intros]: "keeps disjoint_ids (sqlite_ReplaceRecordChildren input)"
proof -
  have guarded: "keeps disjoint_ids
      (bnd (recordIDExists i) (\<lambda>exists.
       bnd (if exists then ret False else chatSessionIDExists i) (\<lambda>chatExists.
       if chatExists then fail e else sq (replaceRecordRowTx c b) n)))"
    if "keeps disjoint_ids n" "i = crID c" for i b e c and n :: "(Db, Record) act"
    unfolding recordIDExists_def chatSessionIDExists_def
  proof (rule keeps_guarded [OF tick_free_ids])
    fix x assume I: "disjoint_ids x"
    have row: "disjoint_ids (snd (sq (replaceRecordRowTx c b) n y))"
      if "disjoint_ids y" "i \<in> record_ids y \<or> i \<notin> chat_ids y" for y
    proof -
      have "disjoint_ids (snd (statement (upsert_record c b) y))"
        using upsert_record_ids \<open>i = crID c\<close> by (intro ids_guarded [OF tick_free_guards(3) [of i] that]) blast
      then show ?thesis unfolding replaceRecordRowTx_def by (intro ids_then \<open>keeps disjoint_ids n\<close> keep_intros)
    qed
    have "keeps disjoint_ids (bnd (query (\<lambda>db. i \<in> chat_ids db))
        (\<lambda>chatExists. if chatExists then fail e else sq (replaceRecordRowTx c b) n))"
      by (rule keeps_guarded [OF tick_free_ids]) (auto simp: fail_def row)
    then show "disjoint_ids (snd (bnd (if i \<in> record_ids x then ret False else query (\<lambda>db. i \<in> chat_ids db))
        (\<lambda>chatExists. if chatExists then fail e else sq (replaceRecordRowTx c b) n) x))"
      using I row [of x] keepsD [where I = disjoint_ids]
      by (cases "i \<in> record_ids x") (simp_all add: bnd_ret)
  qed simp
  show ?thesis
    unfolding sqlite_ReplaceRecordChildren_def replacementTx_def writeReplacementTx_def Let_def
      insertRecordFigureTx_def insertRecordDataFileTx_def getRecordByIDTx_def
    by (rule keeps_sum, rule keeps_fail, rule ids.transaction_keeps, rule guarded)
      (intro keep_intros statement_intros refl)+
qed

text \<open>The lookup by source that every chat upsert starts with.\<close>

lemma chat_upsert_ids:
  assumes "disjoint_ids x" "find_source (icSource ic) (icSourceSessionID ic) x \<noteq> None \<or> icID ic \<notin> record_ids x"
  shows "disjoint_ids (snd (upsert_chat_statement ic x))"
  unfolding upsert_chat_statement_def
  by (rule ids_guarded [OF tick_free_guards(4) assms]) (rule upsert_chat_ids)

lemma guarded_chat_upsert:
  assumes "\<And>a. keeps disjoint_ids (n a)"
  shows "keeps disjoint_ids (bnd (recordIDExists (icID ic)) (\<lambda>exists.
           if exists then fail e else sq (upsert_chat_statement ic) (n exists)))"
  unfolding recordIDExists_def
proof (rule keeps_guarded [OF tick_free_ids])
  fix x assume "disjoint_ids x"
  then show "disjoint_ids (snd ((if icID ic \<in> record_ids x then fail e
      else sq (upsert_chat_statement ic) (n (icID ic \<in> record_ids x))) x))"
    using assms by (cases "icID ic \<in> record_ids x") (auto simp: fail_def intro!: ids_then chat_upsert_ids)
qed simp

lemma upsertChatSessionTx_ids [keep_intros]: "keeps disjoint_ids (upsertChatSessionTx ic)"
  unfolding upsertChatSessionTx_def
proof (rule keeps_guarded [OF tick_free_ids])
  fix x assume I: "disjoint_ids x"
  let ?found = "find_source (icSource ic) (icSourceSessionID ic)"
  let ?after = "bnd (found (query ?found)) (\<lambda>s. ret (s, ?found x = None))"
  have after: "keeps disjoint_ids ?after" by (intro keep_intros)
  show "disjoint_ids (snd (bnd (if ?found x = None then recordIDExists (icID ic) else ret False) (\<lambda>recordExists.
      if recordExists then fail (Wrapped ''id already exists as record'' ErrConflict)
      else sq (upsert_chat_statement ic) ?after) x))"
  proof (cases "?found x = None")
    case True
    then show ?thesis using keepsD [OF guarded_chat_upsert [where n = "\<lambda>_. ?after", OF after] I] by simp
  next
    case False
    then show ?thesis
      using chat_upsert_ids [OF I, of ic] after then_keeps_sq [where I = disjoint_ids]
      by (simp only: if_False bnd_ret not_False_eq_True) simp
  qed
qed simp

lemma writeChatImportOp_ids [keep_intros]: "keeps disjoint_ids (writeChatImportOp op results)"
  unfolding writeChatImportOp_def by (intro keep_intros statement_intros)

lemma chat_upserts_ids [keep_intros]:
  "keeps disjoint_ids (sqlite_UpsertChatSessionWithItems ic items)" "keeps disjoint_ids (sqlite_WriteChatImportBatch ops)"
  unfolding sqlite_UpsertChatSessionWithItems_def sqlite_WriteChatImportBatch_def
  by (intro keep_intros statement_intros)+

lemma get_by_source_found:
  "sqlite_GetChatSessionBySource a b db = (Inr s, db') \<Longrightarrow> find_source a b db' = Some s"
  by (auto simp: sqlite_GetChatSessionBySource_def found_def bnd_def query_def statement_def fail_def ret_def Let_def
      split: if_splits option.splits sum.splits prod.splits)

lemma chat_upsert_op_ids [keep_intros]: "keeps disjoint_ids (sqlite_UpsertChatSession ic)"
proof -
  let ?get = "sqlite_GetChatSessionBySource (icSource ic) (icSourceSessionID ic)"
  let ?again = "\<lambda>created. bnd ?get (\<lambda>s. ret (s, created))"
  let ?rest = "\<lambda>r. case r of
      Inl e \<Rightarrow> if \<not> err_is e ErrNotFound then fail e
        else bnd (recordIDExists (icID ic)) (\<lambda>exists.
          if exists then fail (Wrapped ''id already exists as record'' ErrConflict)
          else sq (upsert_chat_statement ic) (?again True))
    | Inr _ \<Rightarrow> sq (upsert_chat_statement ic) (?again False)"
  have bk: "keeps disjoint_ids (?again created)" for created by (intro keep_intros)
  have body: "keeps disjoint_ids (bnd (attempt ?get) ?rest)"
  proof (rule keepsI)
    fix db assume I: "disjoint_ids db"
    obtain r db' where g: "?get db = (r, db')" by (cases "?get db")
    have I': "disjoint_ids db'" using keepsD [OF ids.chat_gets_keeps(2) I] g by (metis snd_conv)
    have "disjoint_ids (snd (?rest r db'))"
    proof (cases r)
      case (Inl e)
      then show ?thesis
        using I' keepsD [OF guarded_chat_upsert [where n = "\<lambda>_. ?again True", OF bk] I'] by (simp add: fail_def)
    next
      case (Inr s)
      then have "disjoint_ids (snd (upsert_chat_statement ic db'))"
        using get_by_source_found g by (intro chat_upsert_ids [OF I']) auto
      then show ?thesis using Inr then_keeps_sq [where I = disjoint_ids, OF _ bk] by simp
    qed
    then show "disjoint_ids (snd (bnd (attempt ?get) ?rest db))" using g by (simp add: bnd_def attempt_def)
  qed
  show ?thesis unfolding sqlite_UpsertChatSession_def by (intro keep_intros body)
qed

lemma step_ids: "sqlite_step db db' \<Longrightarrow> disjoint_ids db \<Longrightarrow> disjoint_ids db'"
  by (induction rule: sqlite_step.induct) (rule keepsD, intro keep_intros, assumption)+

text \<open>C15. Record ids and chat ids never overlap: in every database reached from a new one by any sequence
  of repository operations, with whatever inputs and failures, no id names both a record and a chat.\<close>

theorem reachable_ids_disjoint:
  assumes "sqlite_step\<^sup>*\<^sup>* (new_db now clock fault fts) db"
  shows "record_ids db \<inter> chat_ids db = {} \<and> wf_db db"
proof -
  have "disjoint_ids db"
    using assms
  proof (induction rule: rtranclp_induct)
    case base
    then show ?case using new_db_wf by (simp add: disjoint_ids_def id_sets new_db_def)
  qed (rule step_ids)
  then show ?thesis by (simp add: disjoint_ids_def)
qed

theorem reachable_ids_disjoint_witness:
  "\<exists>db. sqlite_step\<^sup>*\<^sup>* sample_db db \<and> dbDevices db \<noteq> [] \<and> record_ids db \<inter> chat_ids db = {}"
proof -
  obtain db where run: "sqlite_step\<^sup>*\<^sup>* sample_db db" and "dbDevices db \<noteq> []"
    using sample_run by blast
  moreover have "record_ids db \<inter> chat_ids db = {}"
    using reachable_ids_disjoint run unfolding sample_db_def by blast
  ultimately show ?thesis by blast
qed

end
