(* ===== verification/Disk.thy ===== *)
theory Disk
  imports Action
begin

text \<open>The file system the file-handling components run on. A path is the list of components of a clean
  absolute path, a tree maps paths to nodes, and every system call advances a tick: the fault oracle
  may make the call at that tick fail with an I/O error, and from the crash tick on (power loss, a
  killed process) no call has an effect any more. A failing call may have done a part of its work:
  \<open>keep\<close> says which nodes a failed \<open>RemoveAll\<close> has not reached or a failed \<open>MkdirAll\<close> has made. Renames are atomic and durable, as
  \<open>rename(2)\<close> and the \<open>fsync\<close> calls around it make them; symbolic links, permissions and
  modification times are not modelled. File contents are the type \<open>'c\<close>.\<close>

type_synonym path = "string list"

datatype 'c node = Dir | File 'c

type_synonym 'c tree = "(path \<times> 'c node) list"

record 'c Disk =
  dkTree :: "'c tree"
  dkTick :: nat
  dkFault :: "nat \<Rightarrow> (string \<times> (path \<Rightarrow> bool)) option"
  dkCrash :: "nat option"
  dkTemp :: "nat \<Rightarrow> string list" \<comment> \<open>the random names \<open>CreateTemp\<close> and \<open>MkdirTemp\<close> try\<close>
  dkNow :: "nat \<Rightarrow> string" \<comment> \<open>the clock, formatted\<close>
  dkJunk :: "nat \<Rightarrow> 'c" \<comment> \<open>what a failed write leaves\<close>

section \<open>Trees\<close>

definition at :: "'c tree \<Rightarrow> path \<Rightarrow> 'c node option" where
  "at t p = map_of t p"

definition put_node :: "path \<Rightarrow> 'c node \<Rightarrow> 'c tree \<Rightarrow> 'c tree" where
  "put_node p n t = (p, n) # filter (\<lambda>(r, _). r \<noteq> p) t"

definition removed :: "path \<Rightarrow> 'c tree \<Rightarrow> 'c tree" where
  "removed p t = filter (\<lambda>(r, _). \<not> prefix p r) t"

text \<open>What an interrupted \<open>RemoveAll\<close> leaves: the nodes all of whose ancestors in the subtree are
  left too.\<close>

definition survives :: "path \<Rightarrow> (path \<Rightarrow> bool) \<Rightarrow> path \<Rightarrow> bool" where
  "survives p keep r = list_all (\<lambda>n. keep (take n r)) [length p..<Suc (length r)]"

definition partly_removed :: "path \<Rightarrow> (path \<Rightarrow> bool) \<Rightarrow> 'c tree \<Rightarrow> 'c tree" where
  "partly_removed p keep t = filter (\<lambda>(r, _). prefix p r \<longrightarrow> survives p keep r) t"

text \<open>The subtree at \<open>a\<close> moves to \<open>b\<close>, replacing what was there.\<close>

definition moved :: "path \<Rightarrow> path \<Rightarrow> 'c tree \<Rightarrow> 'c tree" where
  "moved a b t =
    map (\<lambda>(r, n). if prefix a r then (b @ drop (length a) r, n) else (r, n))
      (filter (\<lambda>(r, _). prefix a r \<or> \<not> prefix b r) t)"

definition made_dirs :: "path \<Rightarrow> (path \<Rightarrow> bool) \<Rightarrow> 'c tree \<Rightarrow> 'c tree" where
  "made_dirs p made t = map (\<lambda>q. (q, Dir)) (filter (\<lambda>q. at t q = None \<and> made q) (prefixes p)) @ t"

definition has_children :: "'c tree \<Rightarrow> path \<Rightarrow> bool" where
  "has_children t p = list_ex (\<lambda>(r, _). strict_prefix p r) t"

text \<open>A lookup below a file is refused (\<open>ENOTDIR\<close>).\<close>

definition errNotDir :: error where
  "errNotDir = Plain ''not a directory''"

definition is_file_at :: "'c tree \<Rightarrow> path \<Rightarrow> bool" where
  "is_file_at t p = (case at t p of Some (File _) \<Rightarrow> True | _ \<Rightarrow> False)"

definition below_file :: "'c tree \<Rightarrow> path \<Rightarrow> bool" where
  "below_file t p = list_ex (\<lambda>n. is_file_at t (take n p)) [0..<length p]"

definition look :: "'c tree \<Rightarrow> path \<Rightarrow> error + 'c node" where
  "look t p =
    (if below_file t p then Inl errNotDir
     else case at t p of None \<Rightarrow> Inl ErrNotExist | Some n \<Rightarrow> Inr n)"

section \<open>System calls\<close>

text \<open>One call: \<open>effect\<close> when it runs, \<open>partial\<close> when it fails half way.\<close>

definition disk_call ::
  "('c tree \<Rightarrow> (path \<Rightarrow> bool) \<Rightarrow> 'c tree) \<Rightarrow> ('c tree \<Rightarrow> error + ('a \<times> 'c tree)) \<Rightarrow> ('c Disk, 'a) act" where
  "disk_call partial effect d =
    (let d' = d \<lparr> dkTick := Suc (dkTick d) \<rparr> in
     if (case dkCrash d of None \<Rightarrow> False | Some n \<Rightarrow> n \<le> dkTick d) then (Inl (IOError ''crash''), d')
     else case dkFault d (dkTick d) of
       Some (msg, keep) \<Rightarrow> (Inl (IOError msg), d' \<lparr> dkTree := partial (dkTree d) keep \<rparr>)
     | None \<Rightarrow>
         (case effect (dkTree d) of
            Inl e \<Rightarrow> (Inl e, d')
          | Inr (a, t) \<Rightarrow> (Inr a, d' \<lparr> dkTree := t \<rparr>)))"

definition unchanged :: "'c tree \<Rightarrow> (path \<Rightarrow> bool) \<Rightarrow> 'c tree" where
  "unchanged t keep = t"

text \<open>A call that only reads, and one that changes nothing the model holds (\<open>Sync\<close>, \<open>Close\<close>,
  \<open>Chmod\<close>).\<close>

definition disk_read :: "('c tree \<Rightarrow> error + 'a) \<Rightarrow> ('c Disk, 'a) act" where
  "disk_read f = disk_call unchanged (\<lambda>t. case f t of Inl e \<Rightarrow> Inl e | Inr a \<Rightarrow> Inr (a, t))"

definition disk_plain :: "('c Disk, unit) act" where
  "disk_plain = disk_read (\<lambda>_. Inr ())"

definition lstat :: "path \<Rightarrow> ('c Disk, 'c node) act" where
  "lstat p = disk_read (\<lambda>t. look t p)"

definition read_file :: "path \<Rightarrow> ('c Disk, 'c) act" where
  "read_file p = disk_read (\<lambda>t. case look t p of
     Inl e \<Rightarrow> Inl e | Inr Dir \<Rightarrow> Inl (Plain ''is a directory'') | Inr (File c) \<Rightarrow> Inr c)"

text \<open>\<open>Mkdir\<close>, and \<open>MkdirAll\<close>, which fails at the first component that is a file; a failed one may
  have made some of the directories.\<close>

definition mkdir :: "path \<Rightarrow> ('c Disk, unit) act" where
  "mkdir p = disk_call unchanged (\<lambda>t. case look t p of
     Inr _ \<Rightarrow> Inl ErrExist
   | Inl e \<Rightarrow>
       if e \<noteq> ErrNotExist then Inl e
       else if p \<noteq> [] \<and> at t (butlast p) = None then Inl ErrNotExist
       else Inr ((), put_node p Dir t))"

definition mkdir_all :: "path \<Rightarrow> ('c Disk, unit) act" where
  "mkdir_all p = disk_call (\<lambda>t made. made_dirs p made t) (\<lambda>t.
     if below_file t p \<or> is_file_at t p then Inl errNotDir
     else Inr ((), made_dirs p (\<lambda>_. True) t))"

text \<open>\<open>rename(2)\<close>: a file replaces a file, a directory replaces an empty directory, nothing else is
  replaced; a directory cannot move below itself.\<close>

definition may_replace :: "'c tree \<Rightarrow> 'c node \<Rightarrow> path \<Rightarrow> bool" where
  "may_replace t n b =
    (case at t b of
       None \<Rightarrow> b = [] \<or> at t (butlast b) = Some Dir
     | Some (File _) \<Rightarrow> (case n of File _ \<Rightarrow> True | Dir \<Rightarrow> False)
     | Some Dir \<Rightarrow> (case n of File _ \<Rightarrow> False | Dir \<Rightarrow> \<not> has_children t b))"

definition rename_file :: "path \<Rightarrow> path \<Rightarrow> ('c Disk, unit) act" where
  "rename_file a b = disk_call unchanged (\<lambda>t. case look t a of
     Inl e \<Rightarrow> Inl e
   | Inr n \<Rightarrow>
       if a = b then Inr ((), t)
       else if below_file t b then Inl errNotDir
       else if prefix a b \<or> \<not> may_replace t n b then Inl (Plain ''cannot rename'')
       else Inr ((), moved a b t))"

text \<open>\<open>Remove\<close> of a file or an empty directory, and \<open>RemoveAll\<close>, to which a missing path is no
  error.\<close>

definition remove_file :: "path \<Rightarrow> ('c Disk, unit) act" where
  "remove_file p = disk_call unchanged (\<lambda>t. case look t p of
     Inl e \<Rightarrow> Inl e
   | Inr n \<Rightarrow> if \<not> is_file_at t p \<and> has_children t p then Inl (Plain ''directory not empty'')
             else Inr ((), removed p t))"

definition remove_all :: "path \<Rightarrow> ('c Disk, unit) act" where
  "remove_all p = disk_call (\<lambda>t keep. partly_removed p keep t) (\<lambda>t. Inr ((), removed p t))"

text \<open>\<open>CreateTemp\<close> and \<open>MkdirTemp\<close> take the first random name that is free.\<close>

definition create_in :: "'c node \<Rightarrow> path \<Rightarrow> string \<Rightarrow> ('c Disk, path) act" where
  "create_in n dir stem d =
    (let names = dkTemp d (dkTick d) in
     disk_call unchanged (\<lambda>t. case look t dir of
       Inl e \<Rightarrow> Inl e
     | Inr (File _) \<Rightarrow> Inl errNotDir
     | Inr Dir \<Rightarrow>
         (case List.find (\<lambda>s. at t (dir @ [stem @ s]) = None) names of
            None \<Rightarrow> Inl ErrExist
          | Some s \<Rightarrow> Inr (dir @ [stem @ s], put_node (dir @ [stem @ s]) n t))) d)"

text \<open>Writing an open file; a failed write leaves anything in it.\<close>

definition write_open :: "path \<Rightarrow> 'c \<Rightarrow> ('c Disk, unit) act" where
  "write_open p c d =
    disk_call (\<lambda>t _. put_node p (File (dkJunk d (dkTick d))) t) (\<lambda>t. Inr ((), put_node p (File c) t)) d"

definition clock :: "('c Disk, string) act" where
  "clock d = (Inr (dkNow d (dkTick d)), d \<lparr> dkTick := Suc (dkTick d) \<rparr>)"

text \<open>\<open>os.Open\<close> of a directory, \<open>Sync\<close> and \<open>Close\<close>: the \<open>syncDir\<close> helper of each package.\<close>

definition syncDir :: "path \<Rightarrow> ('c Disk, unit) act" where
  "syncDir dir =
    sq (lstat dir)
      (bnd (attempt disk_plain) (\<lambda>r.
        case r of
          Inl e \<Rightarrow> sq (attempt disk_plain) (fail e)
        | Inr _ \<Rightarrow> disk_plain))"

text \<open>\<open>_ = f()\<close>.\<close>

definition ignored :: "('w, 'a) act \<Rightarrow> ('w, unit) act" where
  "ignored m w = (Inr (), snd (m w))"

text \<open>A deferred cleanup that runs only after an error.\<close>

definition cleanup_unless_ok :: "('w, 'a) act \<Rightarrow> ('w, 'b) act \<Rightarrow> ('w, 'b) act" where
  "cleanup_unless_ok c m w =
    (case m w of (Inl e, w') \<Rightarrow> (Inl e, snd (c w')) | (Inr b, w') \<Rightarrow> (Inr b, w'))"

end
