(* ===== verification/Replacement.thy ===== *)
theory Replacement
  imports Disk
begin

text \<open>\<open>gitsnapshot/snapshot.go\<close>, the durable replacement of named entries of a directory by staged ones
  (\<open>ReplaceContents\<close>), its roll-forward after an interruption (\<open>CompleteReplacement\<close>) and its roll-back
  (\<open>RestoreReplacementBackup\<close>). One definition per function, on the file system of \<open>Disk\<close>. An entry is
  the list of components of a relative path; \<open>touchedDirs\<close> is the list of the directories to flush.\<close>

section \<open>Entries\<close>

text \<open>\<open>filepath.Clean\<close> of the relative path with these components (\<open>strings.Split(entry, "/")\<close>).\<close>

fun clean_onto :: "path \<Rightarrow> path \<Rightarrow> path" where
  "clean_onto done [] = rev done"
| "clean_onto done (c # cs) =
    (if c = [] \<or> c = ''.'' then clean_onto done cs
     else if c = ''..'' \<and> done \<noteq> [] \<and> hd done \<noteq> ''..'' then clean_onto (tl done) cs
     else clean_onto (c # done) cs)"

definition rooted :: "path \<Rightarrow> bool" where
  "rooted entry = (case entry of [] # _ # _ \<Rightarrow> True | _ \<Rightarrow> False)"

definition errEntry :: error where
  "errEntry = Plain ''replacement entry must be a relative path under root''"

fun cleanReplacementEntryLoop :: "path list \<Rightarrow> path list \<Rightarrow> error + path list" where
  "cleanReplacementEntryLoop cleaned [] = Inr cleaned"
| "cleanReplacementEntryLoop cleaned (entry # entries) =
    (let e = clean_onto [] entry in
     if e = [] \<or> rooted entry \<or> hd e = ''..'' then Inl errEntry
     else cleanReplacementEntryLoop (if e \<in> set cleaned then cleaned else cleaned @ [e]) entries)"

definition cleanReplacementEntryList :: "path list \<Rightarrow> error + path list" where
  "cleanReplacementEntryList entries = cleanReplacementEntryLoop [] entries"

definition cleanReplacementEntries :: "path list \<Rightarrow> error + path list" where
  "cleanReplacementEntries entries =
    (if entries = [] then Inl (Plain ''replacement entries are required'')
     else cleanReplacementEntryList entries)"

definition replacementEntrySet :: "path list \<Rightarrow> error + path list" where
  "replacementEntrySet = cleanReplacementEntryList"

section \<open>Helpers\<close>

definition pathExists :: "path \<Rightarrow> ('c Disk, bool) act" where
  "pathExists p =
    bnd (attempt (lstat p)) (\<lambda>r.
      case r of
        Inl e \<Rightarrow> if err_is e ErrNotExist then ret False else fail e
      | Inr _ \<Rightarrow> ret True)"

text \<open>The loop upwards from \<open>dir\<close> to the first existing ancestor; the missing directories are collected
  from the innermost to the outermost.\<close>

function missing_parents :: "path \<Rightarrow> path list \<Rightarrow> ('c Disk, path list) act" where
  "missing_parents dir missing =
    bnd (attempt (lstat dir)) (\<lambda>r.
      case r of
        Inr _ \<Rightarrow> ret missing
      | Inl e \<Rightarrow>
          if \<not> err_is e ErrNotExist then fail e
          else if dir = [] then ret (missing @ [dir])
          else missing_parents (butlast dir) (missing @ [dir]))"
  by pat_completeness auto
termination
  by (relation "measure (\<lambda>(dir, _). length dir)") auto

declare missing_parents.simps [simp del]

definition ensureReplacementParent :: "path \<Rightarrow> ('c Disk, unit) act" where
  "ensureReplacementParent p =
    (let parent = butlast p in
     bnd (missing_parents parent []) (\<lambda>missing.
     sq (mkdir_all parent)
        (each (\<lambda>dir. syncDir (butlast dir)) (rev missing))))"

definition touchReplacementDir :: "path \<Rightarrow> path list \<Rightarrow> path list" where
  "touchReplacementDir dir touched = List.insert dir touched"

definition touchReplacementRename :: "path \<Rightarrow> path \<Rightarrow> path list \<Rightarrow> path list" where
  "touchReplacementRename from to touched =
    touchReplacementDir (butlast to) (touchReplacementDir (butlast from) touched)"

definition path_text :: "path \<Rightarrow> string" where
  "path_text p = (if p = [] then ''/'' else concat (List.map (\<lambda>c. CHR ''/'' # c) p))"

text \<open>The touched directories in order, the root first; only a vanished directory other than the root
  may be skipped.\<close>

definition syncReplacementDirs :: "path \<Rightarrow> path list \<Rightarrow> ('c Disk, unit) act" where
  "syncReplacementDirs root touched =
    each (\<lambda>dir.
      bnd (attempt (syncDir dir)) (\<lambda>r.
        case r of
          Inl e \<Rightarrow>
            if err_is e ErrNotExist \<and> dir \<noteq> root then ret ()
            else if dir = root then fail (Wrapped ''sync export root'' e)
            else fail (Wrapped ''sync replacement directory'' e)
        | Inr _ \<Rightarrow> ret ()))
      (root # sort_key path_text (filter (\<lambda>dir. dir \<noteq> root) touched))"

definition syncAfterBackupRemoval :: "path \<Rightarrow> path \<Rightarrow> ('c Disk, unit) act" where
  "syncAfterBackupRemoval root backupDir =
    (let parent = butlast backupDir in
     if parent = root then wrap ''sync export root after backup removal'' (syncDir root)
     else wrap ''sync backup parent after backup removal'' (syncDir parent))"

text \<open>With no directory given, a temporary one is made in the root.\<close>

definition createReplacementBackupDir :: "path \<Rightarrow> path option \<Rightarrow> ('c Disk, path) act" where
  "createReplacementBackupDir root backupDir =
    (case backupDir of
       Some dir \<Rightarrow>
         sq (wrap ''create replacement backup parent'' (ensureReplacementParent dir))
         (sq (wrap ''create replacement backup dir'' (mkdir_all dir))
         (sq (wrap ''sync replacement backup parent'' (syncDir (butlast dir)))
             (ret dir)))
     | None \<Rightarrow> wrap ''create snapshot backup dir'' (create_in Dir root ''.snapshot-backup-''))"

text \<open>A loop that stops at the first error and hands it over with what was collected so far.\<close>

fun each_until :: "('a \<Rightarrow> 's \<Rightarrow> ('w, 's) act) \<Rightarrow> 'a list \<Rightarrow> 's \<Rightarrow> ('w, (error \<times> 's) + 's) act" where
  "each_until f [] s = ret (Inr s)"
| "each_until f (x # xs) s =
    bnd (attempt (f x s)) (\<lambda>r.
      case r of Inl e \<Rightarrow> ret (Inl (e, s)) | Inr s' \<Rightarrow> each_until f xs s')"

section \<open>Rolling back in the same process\<close>

text \<open>What \<open>replaceContents\<close> returns: nil, a \<open>*CommittedReplacementCleanupError\<close> (the only place that
  makes one, so \<open>errors.As\<close> finds it in no other error), or another error.\<close>

datatype replacement_result = Replaced | CommittedReplacementCleanupError error | ReplacementError error

text \<open>The two loops collect errors and go on; the state is the touched directories and whether an
  error was met.\<close>

definition remove_promoted :: "path \<Rightarrow> path \<Rightarrow> path list \<times> bool \<Rightarrow> ('c Disk, path list \<times> bool) act" where
  "remove_promoted root name s =
    bnd (attempt (remove_all (root @ name))) (\<lambda>r.
      case r of
        Inl _ \<Rightarrow> ret (fst s, True)
      | Inr _ \<Rightarrow> ret (touchReplacementDir (butlast (root @ name)) (fst s), snd s))"

definition restore_moved ::
  "path \<Rightarrow> path \<Rightarrow> path \<Rightarrow> path list \<times> bool \<Rightarrow> ('c Disk, path list \<times> bool) act" where
  "restore_moved root backupDir name s =
    bnd (attempt (remove_all (root @ name))) (\<lambda>r.
      case r of
        Inl _ \<Rightarrow> ret (fst s, True)
      | Inr _ \<Rightarrow>
          let touched = touchReplacementDir (butlast (root @ name)) (fst s) in
          bnd (attempt (ensureReplacementParent (root @ name))) (\<lambda>r.
            case r of
              Inl _ \<Rightarrow> ret (touched, True)
            | Inr _ \<Rightarrow>
                bnd (attempt (rename_file (backupDir @ name) (root @ name))) (\<lambda>r.
                  case r of
                    Inl _ \<Rightarrow> ret (touched, True)
                  | Inr _ \<Rightarrow> ret (touchReplacementRename (backupDir @ name) (root @ name) touched, snd s))))"

text \<open>The results carry the flag \<open>cleanupBackup\<close>, which the deferred clean-up reads.\<close>

type_synonym replacement_outcome = "bool \<times> replacement_result"

definition restoreSnapshotContents ::
  "path \<Rightarrow> path \<Rightarrow> path list \<Rightarrow> path list \<Rightarrow> path list \<Rightarrow> error \<Rightarrow> ('c Disk, replacement_outcome) act" where
  "restoreSnapshotContents root backupDir movedExisting promoted touched cause =
    bnd (each_acc (remove_promoted root) (rev promoted) (touched, False)) (\<lambda>s1.
    bnd (each_acc (restore_moved root backupDir) (rev movedExisting) s1) (\<lambda>s2.
    bnd (attempt (syncReplacementDirs root (fst s2))) (\<lambda>r.
      let failed = (snd s2 \<or> (case r of Inl _ \<Rightarrow> True | Inr _ \<Rightarrow> False)) in
      ret (if failed then (False, ReplacementError (Wrapped ''failed to restore previous snapshot state'' cause))
           else (True, ReplacementError cause)))))"

definition rollbackSnapshotContents ::
  "path \<Rightarrow> path \<Rightarrow> path list \<Rightarrow> path list \<Rightarrow> path list \<Rightarrow> error \<Rightarrow> ('c Disk, unit) act option \<Rightarrow>
   ('c Disk, replacement_outcome) act" where
  "rollbackSnapshotContents root backupDir movedExisting promoted touched cause beforeRollback =
    bnd (attempt (case beforeRollback of None \<Rightarrow> ret () | Some hook \<Rightarrow> hook)) (\<lambda>r.
      case r of
        Inl _ \<Rightarrow> ret (False, ReplacementError (Wrapped ''prepare replacement rollback'' cause))
      | Inr _ \<Rightarrow> restoreSnapshotContents root backupDir movedExisting promoted touched cause)"

section \<open>Replacing\<close>

text \<open>The bodies of the two loops of \<open>replaceContents\<close>; the state is the touched directories and the
  entries done.\<close>

definition backup_entry ::
  "path \<Rightarrow> path \<Rightarrow> path \<Rightarrow> path list \<times> path list \<Rightarrow> ('c Disk, path list \<times> path list) act" where
  "backup_entry root backupDir name s =
    bnd (wrap ''inspect existing'' (pathExists (root @ name))) (\<lambda>exists.
      if \<not> exists then ret s
      else
        sq (wrap ''create backup parent'' (ensureReplacementParent (backupDir @ name)))
        (sq (wrap ''backup existing'' (rename_file (root @ name) (backupDir @ name)))
            (ret (touchReplacementRename (root @ name) (backupDir @ name) (fst s), snd s @ [name]))))"

definition promote_entry ::
  "path \<Rightarrow> path \<Rightarrow> path \<Rightarrow> path list \<times> path list \<Rightarrow> ('c Disk, path list \<times> path list) act" where
  "promote_entry root stagingRoot name s =
    bnd (wrap ''inspect staged'' (pathExists (stagingRoot @ name))) (\<lambda>exists.
      if \<not> exists then ret s
      else
        sq (wrap ''create target parent'' (ensureReplacementParent (root @ name)))
        (sq (wrap ''promote staged'' (rename_file (stagingRoot @ name) (root @ name)))
            (ret (touchReplacementRename (stagingRoot @ name) (root @ name) (fst s), snd s @ [name]))))"

text \<open>Flushing the renames and removing the backup directory, once everything is promoted.\<close>

definition commitReplacement ::
  "path \<Rightarrow> path \<Rightarrow> path list \<Rightarrow> path list \<Rightarrow> path list \<Rightarrow> ('c Disk, unit) act option \<Rightarrow>
   ('c Disk, replacement_outcome) act" where
  "commitReplacement root backupDir backed promoted touched beforeRollback =
    bnd (attempt (syncReplacementDirs root touched)) (\<lambda>r.
      case r of
        Inl cause \<Rightarrow> rollbackSnapshotContents root backupDir backed promoted touched cause beforeRollback
      | Inr _ \<Rightarrow>
          bnd (attempt (wrap ''remove snapshot backup dir'' (remove_all backupDir))) (\<lambda>r.
            case r of
              Inl e \<Rightarrow> ret (False, CommittedReplacementCleanupError e)
            | Inr _ \<Rightarrow>
                bnd (attempt (syncAfterBackupRemoval root backupDir)) (\<lambda>r.
                  case r of
                    Inl e \<Rightarrow> ret (False, CommittedReplacementCleanupError e)
                  | Inr _ \<Rightarrow> ret (False, Replaced))))"

definition promoteEntries ::
  "path \<Rightarrow> path \<Rightarrow> path \<Rightarrow> path list \<Rightarrow> path list \<Rightarrow> path list \<Rightarrow> ('c Disk, unit) act option \<Rightarrow>
   ('c Disk, replacement_outcome) act" where
  "promoteEntries root stagingRoot backupDir entries backed touched1 beforeRollback =
    bnd (each_until (promote_entry root stagingRoot) entries (touched1, [])) (\<lambda>r.
      case r of
        Inl (cause, (touched, promoted)) \<Rightarrow>
          rollbackSnapshotContents root backupDir backed promoted touched cause beforeRollback
      | Inr (touched, promoted) \<Rightarrow>
          commitReplacement root backupDir backed promoted touched beforeRollback)"

definition replaceBody ::
  "path \<Rightarrow> path \<Rightarrow> path \<Rightarrow> path list \<Rightarrow> ('c Disk, unit) act option \<Rightarrow> ('c Disk, replacement_outcome) act" where
  "replaceBody root stagingRoot backupDir entries beforeRollback =
    bnd (each_until (backup_entry root backupDir) entries ([], [])) (\<lambda>r.
      case r of
        Inl (cause, (touched, backed)) \<Rightarrow>
          rollbackSnapshotContents root backupDir backed [] touched cause beforeRollback
      | Inr (touched, backed) \<Rightarrow>
          promoteEntries root stagingRoot backupDir entries backed touched beforeRollback)"

definition replaceContents ::
  "path \<Rightarrow> path \<Rightarrow> path list \<Rightarrow> path option \<Rightarrow> ('c Disk, unit) act option \<Rightarrow> ('c Disk, replacement_result) act" where
  "replaceContents root stagingRoot entries backupOption beforeRollback =
    (case cleanReplacementEntries entries of
       Inl e \<Rightarrow> ret (ReplacementError e)
     | Inr cleaned \<Rightarrow>
         bnd (attempt (createReplacementBackupDir root backupOption)) (\<lambda>r.
           case r of
             Inl e \<Rightarrow> ret (ReplacementError e)
           | Inr backupDir \<Rightarrow>
               bnd (replaceBody root stagingRoot backupDir cleaned beforeRollback) (\<lambda>(cleanupBackup, result).
                 sq (if cleanupBackup then ignored (remove_all backupDir) else ret ())
                    (ret result))))"

section \<open>Rolling forward and back after an interruption\<close>

text \<open>The body of the loop of \<open>CompleteReplacement\<close>: a live target is kept when it is the promoted one,
  removed when its original is backed up, and backed up otherwise; then the staged entry, if there,
  is promoted.\<close>

definition promote_rest ::
  "path \<Rightarrow> path \<Rightarrow> path \<Rightarrow> bool \<Rightarrow> path list \<Rightarrow> ('c Disk, path list) act" where
  "promote_rest root stagingRoot name stagedExists touched =
    (if \<not> stagedExists then ret touched
     else
       sq (wrap ''create target parent'' (ensureReplacementParent (root @ name)))
       (sq (wrap ''promote staged'' (rename_file (stagingRoot @ name) (root @ name)))
           (ret (touchReplacementRename (stagingRoot @ name) (root @ name) touched))))"

definition complete_entry ::
  "path \<Rightarrow> path \<Rightarrow> path \<Rightarrow> path list \<Rightarrow> path \<Rightarrow> path list \<Rightarrow> ('c Disk, path list) act" where
  "complete_entry root stagingRoot backupDir originallyStaged name touched =
    bnd (wrap ''inspect staged'' (pathExists (stagingRoot @ name))) (\<lambda>stagedExists.
    bnd (wrap ''inspect existing'' (pathExists (root @ name))) (\<lambda>targetExists.
      if \<not> targetExists then promote_rest root stagingRoot name stagedExists touched
      else
        bnd (wrap ''inspect backup'' (pathExists (backupDir @ name))) (\<lambda>backupExists.
          if \<not> stagedExists \<and> name \<in> set originallyStaged then
            ret (touchReplacementRename (stagingRoot @ name) (root @ name)
              (if backupExists then touchReplacementRename (backupDir @ name) (root @ name) touched else touched))
          else if backupExists then
            sq (wrap ''remove conflicting live'' (remove_all (root @ name)))
               (promote_rest root stagingRoot name stagedExists
                 (touchReplacementDir (butlast (root @ name)) touched))
          else
            sq (wrap ''create backup parent'' (ensureReplacementParent (backupDir @ name)))
            (sq (wrap ''backup existing'' (rename_file (root @ name) (backupDir @ name)))
                (promote_rest root stagingRoot name stagedExists
                  (touchReplacementRename (root @ name) (backupDir @ name) touched))))))"

definition CompleteReplacement ::
  "path \<Rightarrow> path \<Rightarrow> path \<Rightarrow> path list \<Rightarrow> path list \<Rightarrow> ('c Disk, unit) act" where
  "CompleteReplacement root stagingRoot backupDir entries stagedEntries =
    bnd (lift_result (cleanReplacementEntries entries)) (\<lambda>cleaned.
      let originallyStaged = List.map (clean_onto []) stagedEntries in
      bnd (each_acc (complete_entry root stagingRoot backupDir originallyStaged) cleaned []) (\<lambda>touched.
        syncReplacementDirs root touched))"

definition restore_entry ::
  "path \<Rightarrow> path \<Rightarrow> path list \<Rightarrow> path \<Rightarrow> path list \<Rightarrow> ('c Disk, path list) act" where
  "restore_entry root backupDir originals name touched =
    bnd (wrap ''inspect backup'' (pathExists (backupDir @ name))) (\<lambda>backupExists.
      if \<not> backupExists \<and> name \<in> set originals then ret touched
      else
        sq (wrap ''clear target'' (remove_all (root @ name)))
           (let touched1 = touchReplacementDir (butlast (root @ name)) touched in
            if \<not> backupExists then ret touched1
            else
              sq (wrap ''create restore parent'' (ensureReplacementParent (root @ name)))
              (sq (wrap ''restore'' (rename_file (backupDir @ name) (root @ name)))
                  (ret (touchReplacementRename (backupDir @ name) (root @ name) touched1)))))"

definition RestoreReplacementBackup ::
  "path \<Rightarrow> path \<Rightarrow> path list \<Rightarrow> path list \<Rightarrow> ('c Disk, unit) act" where
  "RestoreReplacementBackup root backupDir entries originalEntries =
    bnd (lift_result (cleanReplacementEntries entries)) (\<lambda>cleaned.
    bnd (lift_result (replacementEntrySet originalEntries)) (\<lambda>originals.
    bnd (each_acc (restore_entry root backupDir originals) (rev cleaned) []) (\<lambda>touched.
      syncReplacementDirs root touched)))"

end
