(* ===== verification/Restore.thy ===== *)
theory Restore
  imports Replacement
begin

text \<open>\<open>cli/restore_db.go\<close>, \<open>cli/restore_recovery.go\<close> and \<open>cli/fileutil.go\<close>: replacing the local store by a
  staged one under a marker file, and the recovery that runs before the store is opened again. The
  marker file holds the JSON document of the marker, kept symbolically as the marker itself; any
  other contents do not parse.\<close>

record restoreMarker =
  rmPhase :: string
  rmStagingDir :: path
  rmBackupDir :: path
  rmTimestamp :: string
  rmStagedEntries :: "path list option"
  rmOriginalEntries :: "path list option"
  rmRollbackOnly :: bool

datatype doc = MarkerJSON restoreMarker | Bytes string

type_synonym disk = "doc Disk"

definition restorePhaseStaging :: string where
  "restorePhaseStaging = ''staging''"

definition restorePhaseCommitting :: string where
  "restorePhaseCommitting = ''committing''"

definition restorePhaseDone :: string where
  "restorePhaseDone = ''done''"

definition restorePayloadEntries :: "path list" where
  "restorePayloadEntries =
    [[''.pc'', ''pc.db''], [''.pc'', ''pc.db-wal''], [''.pc'', ''pc.db-shm''], [''.pc'', ''pc.db-journal''],
     [''.pc'', ''last_sync''], [''figures''], [''data''], [''chats'', ''raw'']]"

definition basePath :: "path \<Rightarrow> path" where
  "basePath homeDir = homeDir @ [''personal-context'']"

definition restoreMarkerPath :: "path \<Rightarrow> path" where
  "restoreMarkerPath homeDir = basePath homeDir @ [''.pc'', ''restore.marker'']"

definition restorePayloadBackupDir :: "path \<Rightarrow> path" where
  "restorePayloadBackupDir backupDir = backupDir @ [''.restore-payload'']"

section \<open>Durable files\<close>

function ensureDirDurably :: "path \<Rightarrow> (disk, unit) act" where
  "ensureDirDurably dir =
    bnd (attempt (lstat dir)) (\<lambda>r.
      case r of
        Inr Dir \<Rightarrow> ret ()
      | Inr (File _) \<Rightarrow> fail (Plain ''exists and is not a directory'')
      | Inl e \<Rightarrow>
          if \<not> err_is e ErrNotExist then fail e
          else
            sq (if dir \<noteq> [] then ensureDirDurably (butlast dir) else ret ())
            (bnd (attempt (mkdir dir)) (\<lambda>r.
              case r of
                Inl e \<Rightarrow>
                  if err_is e ErrExist then
                    bnd (attempt (lstat dir)) (\<lambda>r. case r of Inr Dir \<Rightarrow> ret () | _ \<Rightarrow> fail e)
                  else fail e
              | Inr _ \<Rightarrow> wrap ''sync parent directory for created directory'' (syncDir (butlast dir)))))"
  by pat_completeness auto
termination
  by (relation "measure length") auto

declare ensureDirDurably.simps [simp del]

definition closing :: "(disk, 'a) act \<Rightarrow> (disk, 'a) act" where
  "closing m = cleanup_unless_ok disk_plain m" \<comment> \<open>\<open>_ = tempFile.Close()\<close> after an error\<close>

definition writeTextFileAtomically :: "path \<Rightarrow> doc \<Rightarrow> (disk, unit) act" where
  "writeTextFileAtomically path content =
    sq (wrap ''create parent directory'' (ensureDirDurably (butlast path)))
    (bnd (wrap ''create temp file'' (create_in (File (Bytes [])) (butlast path) ''.tmp-'')) (\<lambda>tempPath.
      sq (cleanup_unless_ok (remove_file tempPath)
           (sq (wrap ''set permissions'' (closing disk_plain))
           (sq (wrap ''write temp file'' (closing (write_open tempPath content)))
           (sq (wrap ''sync temp file'' (closing disk_plain))
           (sq (wrap ''close temp file'' disk_plain)
               (wrap ''replace'' (rename_file tempPath path)))))))
         (wrap ''sync parent directory'' (syncDir (butlast path)))))"

section \<open>The marker\<close>

definition marker_incomplete :: "restoreMarker \<Rightarrow> bool" where
  "marker_incomplete m = (rmPhase m = [] \<or> rmStagingDir m = [] \<or> rmBackupDir m = [] \<or> rmTimestamp m = [])"

definition errMarkerFields :: error where
  "errMarkerFields = Plain ''restore marker is missing required fields''"

definition readRestoreMarker :: "path \<Rightarrow> (disk, restoreMarker option) act" where
  "readRestoreMarker homeDir =
    bnd (attempt (read_file (restoreMarkerPath homeDir))) (\<lambda>r.
      case r of
        Inl e \<Rightarrow>
          if err_is e ErrNotExist \<or> err_is e errNotDir then ret None else fail (Wrapped ''read restore marker'' e)
      | Inr (Bytes _) \<Rightarrow> fail (Plain ''parse restore marker'')
      | Inr (MarkerJSON m) \<Rightarrow> if marker_incomplete m then fail errMarkerFields else ret (Some m))"

definition writeRestoreMarker :: "path \<Rightarrow> restoreMarker \<Rightarrow> (disk, unit) act" where
  "writeRestoreMarker homeDir m =
    (if marker_incomplete m then fail errMarkerFields
     else wrap ''write restore marker'' (writeTextFileAtomically (restoreMarkerPath homeDir) (MarkerJSON m)))"

text \<open>An action whose failure is an error unless something is merely missing.\<close>

definition missing_ok :: "string \<Rightarrow> (disk, unit) act \<Rightarrow> (disk, unit) act" where
  "missing_ok msg m =
    bnd (attempt m) (\<lambda>r.
      case r of
        Inl e \<Rightarrow> if err_is e ErrNotExist then ret () else fail (Wrapped msg e)
      | Inr _ \<Rightarrow> ret ())"

definition removeRestoreMarker :: "path \<Rightarrow> (disk, unit) act" where
  "removeRestoreMarker homeDir =
    (let p = restoreMarkerPath homeDir in
     sq (missing_ok ''remove restore marker'' (remove_file p))
        (missing_ok ''sync restore marker removal'' (syncDir (butlast p))))"

definition cleanupRestoreStaging :: "restoreMarker \<Rightarrow> (disk, unit) act" where
  "cleanupRestoreStaging m =
    sq (wrap ''remove restore staging dir'' (remove_all (rmStagingDir m)))
       (missing_ok ''sync restore staging cleanup'' (syncDir (butlast (rmStagingDir m))))"

definition cleanupCompletedRestore :: "restoreMarker \<Rightarrow> (disk, unit) act" where
  "cleanupCompletedRestore m =
    sq (cleanupRestoreStaging m)
    (sq (wrap ''remove restore payload backup'' (remove_all (restorePayloadBackupDir (rmBackupDir m))))
        (missing_ok ''sync restore payload backup cleanup'' (syncDir (rmBackupDir m))))"

section \<open>Recovery\<close>

text \<open>\<open>err == nil\<close> of a \<open>Stat\<close>: any error counts as missing.\<close>

definition restorePathExists :: "path \<Rightarrow> (disk, bool) act" where
  "restorePathExists p =
    bnd (attempt (lstat p)) (\<lambda>r. ret (case r of Inl _ \<Rightarrow> False | Inr _ \<Rightarrow> True))"

definition liveDatabaseExists :: "path \<Rightarrow> (disk, bool) act" where
  "liveDatabaseExists base =
    bnd (attempt (lstat (base @ [''.pc'', ''pc.db'']))) (\<lambda>r.
      ret (case r of Inr (File _) \<Rightarrow> True | _ \<Rightarrow> False))"

definition restoreFromBackup :: "path \<Rightarrow> restoreMarker \<Rightarrow> path list \<Rightarrow> (disk, unit) act" where
  "restoreFromBackup homeDir m originals =
    (let base = basePath homeDir in
     sq (wrap ''roll back interrupted restore''
          (RestoreReplacementBackup base (restorePayloadBackupDir (rmBackupDir m)) restorePayloadEntries originals))
     (bnd (liveDatabaseExists base) (\<lambda>live.
        if live then ret () else fail (Plain ''restored database is missing''))))"

text \<open>Rolling forward: \<open>True\<close> when it left a live database.\<close>

definition rollForward :: "path \<Rightarrow> restoreMarker \<Rightarrow> path list \<Rightarrow> (disk, bool) act" where
  "rollForward homeDir m staged =
    (let base = basePath homeDir in
     sq (wrap ''roll forward interrupted restore''
          (CompleteReplacement base (rmStagingDir m) (restorePayloadBackupDir (rmBackupDir m)) restorePayloadEntries staged))
        (liveDatabaseExists base))"

definition recoverCommittingRestore :: "path \<Rightarrow> restoreMarker \<Rightarrow> (disk, unit) act" where
  "recoverCommittingRestore homeDir m =
    (let base = basePath homeDir; payload = restorePayloadBackupDir (rmBackupDir m) in
     case (rmStagedEntries m, rmOriginalEntries m) of
       (None, _) \<Rightarrow> fail (Plain ''restore marker committing phase is missing staged_entries'')
     | (Some _, None) \<Rightarrow> fail (Plain ''restore marker committing phase is missing original_entries'')
     | (Some staged, Some originals) \<Rightarrow>
         if rmRollbackOnly m then restoreFromBackup homeDir m originals
         else
           bnd (attempt (lstat (rmStagingDir m))) (\<lambda>info.
             case info of
               Inr (File _) \<Rightarrow> fail (Plain ''restore staging path is not a directory'')
             | Inr Dir \<Rightarrow>
                 bnd (restorePathExists payload) (\<lambda>_.
                 bnd (rollForward homeDir m staged) (\<lambda>live.
                   if live then ret () else restoreFromBackup homeDir m originals))
             | Inl e \<Rightarrow>
                 bnd (restorePathExists payload) (\<lambda>backedUp.
                 bnd (if \<not> backedUp \<and> err_is e ErrNotExist then liveDatabaseExists base else ret False) (\<lambda>settled.
                   if settled then ret () else restoreFromBackup homeDir m originals))))"

definition recoverInterruptedRestore :: "path \<Rightarrow> (disk, unit) act" where
  "recoverInterruptedRestore homeDir =
    bnd (readRestoreMarker homeDir) (\<lambda>found.
      case found of
        None \<Rightarrow> ret ()
      | Some m \<Rightarrow>
          if rmPhase m = restorePhaseStaging then
            sq (cleanupRestoreStaging m) (removeRestoreMarker homeDir)
          else if rmPhase m = restorePhaseCommitting then
            sq (recoverCommittingRestore homeDir m)
            (sq (cleanupCompletedRestore m) (removeRestoreMarker homeDir))
          else if rmPhase m = restorePhaseDone then
            sq (cleanupCompletedRestore m) (removeRestoreMarker homeDir)
          else fail (Plain ''restore marker has unknown phase''))"

section \<open>The command\<close>

definition newRestoreMarker :: "string \<Rightarrow> path \<Rightarrow> path \<Rightarrow> (disk, restoreMarker) act" where
  "newRestoreMarker phase stagingDir backupDir =
    bnd clock (\<lambda>now. ret
      \<lparr> rmPhase = phase, rmStagingDir = stagingDir, rmBackupDir = backupDir, rmTimestamp = now,
        rmStagedEntries = None, rmOriginalEntries = None, rmRollbackOnly = False \<rparr>)"

text \<open>\<open>listExistingRestorePayloadEntries\<close>.\<close>

definition listExistingRestorePayloadEntries :: "path \<Rightarrow> (disk, path list) act" where
  "listExistingRestorePayloadEntries base =
    each_acc (\<lambda>entry found.
      bnd (attempt (lstat (base @ entry))) (\<lambda>r.
        case r of
          Inl e \<Rightarrow> if err_is e ErrNotExist then ret found else fail (Wrapped ''inspect restore payload entry'' e)
        | Inr _ \<Rightarrow> ret (found @ [entry]))) restorePayloadEntries []"

definition finishCommittedRestore :: "path \<Rightarrow> restoreMarker \<Rightarrow> (disk, unit) act" where
  "finishCommittedRestore homeDir m =
    bnd clock (\<lambda>now.
      let done = m \<lparr> rmPhase := restorePhaseDone, rmTimestamp := now \<rparr> in
      sq (writeRestoreMarker homeDir done)
      (sq (cleanupCompletedRestore done)
          (removeRestoreMarker homeDir)))"

definition markRestoreRollbackOnly :: "path \<Rightarrow> restoreMarker \<Rightarrow> (disk, unit) act" where
  "markRestoreRollbackOnly homeDir m =
    bnd clock (\<lambda>now. writeRestoreMarker homeDir (m \<lparr> rmRollbackOnly := True, rmTimestamp := now \<rparr>))"

text \<open>A nil \<open>OriginalEntries\<close> is an empty set of originals.\<close>

definition originals_of :: "restoreMarker \<Rightarrow> path list" where
  "originals_of m = (case rmOriginalEntries m of None \<Rightarrow> [] | Some es \<Rightarrow> es)"

definition abortFailedRestorePromotion :: "path \<Rightarrow> restoreMarker \<Rightarrow> (disk, unit) act" where
  "abortFailedRestorePromotion homeDir m =
    bnd clock (\<lambda>now.
      let rb = m \<lparr> rmRollbackOnly := True, rmTimestamp := now \<rparr> in
      sq (writeRestoreMarker homeDir rb)
      (sq (wrap ''roll back failed restore promotion''
            (RestoreReplacementBackup (basePath homeDir) (restorePayloadBackupDir (rmBackupDir rb))
              restorePayloadEntries (originals_of rb)))
          (finishCommittedRestore homeDir rb)))"

text \<open>What \<open>runRestoreDB\<close> does with the result of \<open>ReplaceContents\<close>.\<close>

definition settleReplacement :: "path \<Rightarrow> restoreMarker \<Rightarrow> replacement_result \<Rightarrow> (disk, unit) act" where
  "settleReplacement homeDir m result =
    (case result of
       Replaced \<Rightarrow> finishCommittedRestore homeDir m
     | CommittedReplacementCleanupError e \<Rightarrow>
         bnd (attempt (finishCommittedRestore homeDir m)) (\<lambda>r.
           case r of
             Inl finishErr \<Rightarrow> fail (Wrapped ''promote restored store committed; finish cleanup failed'' finishErr)
           | Inr _ \<Rightarrow> fail (Wrapped ''promote restored store committed; replacement cleanup failed'' e))
     | ReplacementError e \<Rightarrow>
         bnd (attempt (abortFailedRestorePromotion homeDir m)) (\<lambda>r.
           case r of
             Inl _ \<Rightarrow> fail (Wrapped ''promote restored store; abort cleanup failed'' e)
           | Inr _ \<Rightarrow> fail (Wrapped ''promote restored store'' e)))"

text \<open>\<open>runRestoreDB\<close> from the point where the staged store is complete: mark, promote, finish.\<close>

definition promoteStagedStore :: "path \<Rightarrow> restoreMarker \<Rightarrow> (disk, unit) act" where
  "promoteStagedStore homeDir marker =
    bnd clock (\<lambda>now.
      let m = marker \<lparr> rmPhase := restorePhaseCommitting, rmTimestamp := now \<rparr> in
      sq (writeRestoreMarker homeDir m)
        (bnd (replaceContents (basePath homeDir) (rmStagingDir m) restorePayloadEntries
                (Some (restorePayloadBackupDir (rmBackupDir m))) (Some (markRestoreRollbackOnly homeDir m)))
           (settleReplacement homeDir m)))"

text \<open>\<open>runRestoreDB\<close> after the backup snapshot has been written to \<open>backupPath\<close>: the originals are
  listed, the store is staged (\<open>buildRestoreStagedStore\<close>, a parameter: it imports the snapshot into a
  new database under the staging directory) and promoted. Until the first marker is written a
  deferred clean-up removes the staging directory on failure.\<close>

definition createRestoreStagingDir :: "path \<Rightarrow> (disk, path) act" where
  "createRestoreStagingDir homeDir =
    (let pcDir = basePath homeDir @ [''.pc''] in
     sq (wrap ''create restore staging parent'' (ensureDirDurably pcDir))
     (bnd (wrap ''create restore staging dir'' (create_in Dir pcDir ''restore-staging-'')) (\<lambda>stagingDir.
       sq (wrap ''sync restore staging parent'' (syncDir pcDir)) (ret stagingDir))))"

definition runRestoreDB :: "path \<Rightarrow> path \<Rightarrow> (path \<Rightarrow> (disk, unit) act) \<Rightarrow> (disk, unit) act" where
  "runRestoreDB homeDir backupPath buildRestoreStagedStore =
    bnd (listExistingRestorePayloadEntries (basePath homeDir)) (\<lambda>originalEntries.
    bnd (createRestoreStagingDir homeDir) (\<lambda>stagingDir.
    bnd (cleanup_unless_ok
           (bnd (newRestoreMarker restorePhaseStaging stagingDir backupPath) cleanupRestoreStaging)
           (sq (buildRestoreStagedStore stagingDir)
           (bnd (listExistingRestorePayloadEntries stagingDir) (\<lambda>stagedEntries.
           (bnd (newRestoreMarker restorePhaseStaging stagingDir backupPath) (\<lambda>m0.
              let m = m0 \<lparr> rmStagedEntries := Some stagedEntries, rmOriginalEntries := Some originalEntries \<rparr> in
              sq (writeRestoreMarker homeDir m) (ret m)))))))
      (\<lambda>m. promoteStagedStore homeDir m)))"

end
