(* ===== verification/Disk_Logic.thy ===== *)
theory Disk_Logic
  imports Disk
begin

text \<open>Reasoning about programs on the file system: what each tree operation does to a lookup and to the
  subtree at a path, and rules for two kinds of statements, \<open>keeps\<close> (an invariant of the tree survives
  a program) and \<open>outcome\<close> (what holds of the result and the tree after it, error results included).\<close>

section \<open>Lookups\<close>

lemma at_Nil [simp]: "at [] r = None"
  by (simp add: at_def)

lemma at_Cons [simp]: "at ((p, n) # t) r = (if p = r then Some n else at t r)"
  by (simp add: at_def)

lemma at_filter: "at (filter (\<lambda>(r, _). P r) t) r = (if P r then at t r else None)"
  by (induction t) (auto simp: at_def)

lemma at_put_node [simp]: "at (put_node p n t) r = (if r = p then Some n else at t r)"
  by (auto simp: put_node_def at_filter)

lemma at_removed [simp]: "at (removed p t) r = (if prefix p r then None else at t r)"
  by (simp add: removed_def at_filter)

lemma at_partly_removed [simp]:
  "at (partly_removed p keep t) r = (if prefix p r \<and> \<not> survives p keep r then None else at t r)"
  by (simp add: partly_removed_def at_filter)

lemma at_made_dirs [simp]:
  "at (made_dirs p made t) r = (if at t r = None \<and> prefix r p \<and> made r then Some Dir else at t r)"
proof -
  have "map_of (map (\<lambda>q. (q, Dir)) xs @ t) r = (if r \<in> set xs then Some Dir else map_of t r)" for xs
    by (induction xs) auto
  then show ?thesis by (auto simp: made_dirs_def at_def)
qed

lemma at_moved:
  assumes "parallel a b"
  shows "at (moved a b t) r =
    (if prefix b r then at t (a @ drop (length b) r) else if prefix a r then None else at t r)"
proof (induction t)
  case Nil
  then show ?case by (simp add: moved_def)
next
  case (Cons x t)
  obtain p n where x: "x = (p, n)" by (cases x)
  have no: "\<not> (prefix a q \<and> prefix b q)" for q
    using assms prefix_same_cases by (auto simp: parallel_def)
  have key: "(b @ drop (length a) p = r) = (prefix b r \<and> p = a @ drop (length b) r)" if "prefix a p"
    using that by (auto simp: prefix_def)
  have step: "moved a b ((p, n) # t) =
      (if prefix a p then [(b @ drop (length a) p, n)] else if prefix b p then [] else [(p, n)]) @ moved a b t"
    by (simp add: moved_def)
  consider "prefix a p" | "\<not> prefix a p" "prefix b p" | "\<not> prefix a p" "\<not> prefix b p" by blast
  then show ?case
  proof cases
    case 1
    have "p \<noteq> r" if "\<not> prefix a r" using that 1 by auto
    then show ?thesis using 1 key no Cons.IH unfolding x step by auto
  next
    case 2
    have "p \<noteq> a @ drop (length b) r" using 2 by auto
    then show ?thesis using 2 Cons.IH unfolding x step by auto
  next
    case 3
    have "p \<noteq> a @ drop (length b) r" using 3 by auto
    then show ?thesis using 3 Cons.IH unfolding x step by auto
  qed
qed

section \<open>Subtrees\<close>

text \<open>The subtree at a path as a map, empty when there is no node.\<close>

definition view :: "'c tree \<Rightarrow> path \<Rightarrow> path \<Rightarrow> 'c node option" where
  "view t p = (\<lambda>q. if at t p = None then None else at t (p @ q))"

abbreviation gone :: "path \<Rightarrow> 'c node option" where
  "gone \<equiv> (\<lambda>_. None)"

lemma view_gone_iff: "view t p = gone \<longleftrightarrow> at t p = None"
  by (auto simp: view_def fun_eq_iff dest: spec [of _ "[]"])

lemma view_root: "view t p [] = at t p"
  by (simp add: view_def)

lemma prefix_append_cases: "prefix p (q @ r) \<Longrightarrow> prefix p q \<or> prefix q p"
  by (metis prefix_def prefix_same_cases)

lemma view_cong: "(\<And>r. prefix p r \<Longrightarrow> at t r = at u r) \<Longrightarrow> view t p = view u p"
  by (auto simp: view_def fun_eq_iff)

lemma view_removed: "prefix p q \<Longrightarrow> view (removed p t) q = gone"
  by (simp add: view_gone_iff)

lemma view_removed_other [simp]: "parallel p q \<Longrightarrow> view (removed p t) q = view t q"
  by (rule view_cong) (auto simp: parallel_def dest: prefix_same_cases)

lemma view_partly_other [simp]: "parallel p q \<Longrightarrow> view (partly_removed p keep t) q = view t q"
  by (rule view_cong) (auto simp: parallel_def dest: prefix_same_cases)

lemma view_partly_gone: "view t q = gone \<Longrightarrow> view (partly_removed p keep t) q = gone"
  by (auto simp: view_gone_iff)

lemma view_removed_gone: "view t q = gone \<Longrightarrow> view (removed p t) q = gone"
  by (auto simp: view_gone_iff)

lemma view_made_dirs [simp]: "\<not> prefix q p \<Longrightarrow> view (made_dirs p made t) q = view t q"
  by (rule view_cong) (auto dest: prefix_order.trans)

lemma view_put_node [simp]: "\<not> prefix q p \<Longrightarrow> view (put_node p n t) q = view t q"
  by (rule view_cong) auto

lemma parallel_same [simp]: "parallel (p @ q) (p @ r) = parallel q r"
  by (simp add: parallel_def)

lemma parallel_Cons [simp]:
  "parallel (a # q) (b # r) = (a \<noteq> b \<or> parallel q r)" "\<not> parallel [] r" "\<not> parallel q []"
  by (auto simp: parallel_def)

lemma view_moved_to: "parallel a b \<Longrightarrow> at t a \<noteq> None \<Longrightarrow> view (moved a b t) b = view t a"
  by (auto simp: view_def at_moved fun_eq_iff)

lemma view_moved_from: "parallel a b \<Longrightarrow> view (moved a b t) a = gone"
  by (auto simp: view_gone_iff at_moved parallel_def)

lemma view_moved_other: "parallel a b \<Longrightarrow> parallel a c \<Longrightarrow> parallel b c \<Longrightarrow> view (moved a b t) c = view t c"
  by (rule view_cong) (auto simp: at_moved parallel_def dest: prefix_same_cases)

section \<open>Invariants of the tree\<close>

abbreviation on_tree :: "('c tree \<Rightarrow> bool) \<Rightarrow> 'c Disk \<Rightarrow> bool" where
  "on_tree J \<equiv> (\<lambda>d :: 'c Disk. J (dkTree d))"

lemma keeps_call:
  assumes "\<And>t k. J t \<Longrightarrow> J (partial t k)" and "\<And>t a u. J t \<Longrightarrow> effect t = Inr (a, u) \<Longrightarrow> J u"
  shows "keeps (on_tree J) (disk_call partial effect)"
  by (rule keepsI)
     (auto simp: disk_call_def Let_def assms split: option.splits prod.splits sum.splits intro: assms(2) [rotated])

lemma keeps_disk_read [keep_intros]: "keeps (on_tree J) (disk_read f)"
  unfolding disk_read_def by (rule keeps_call) (auto simp: unchanged_def split: sum.splits)

lemma keeps_disk_plain [keep_intros]: "keeps (on_tree J) disk_plain"
  unfolding disk_plain_def by (rule keeps_disk_read)

lemma keeps_lstat [keep_intros]: "keeps (on_tree J) (lstat p)"
  unfolding lstat_def by (rule keeps_disk_read)

lemma keeps_read_file [keep_intros]: "keeps (on_tree J) (read_file p)"
  unfolding read_file_def by (rule keeps_disk_read)

lemma keeps_clock [keep_intros]: "keeps (on_tree J) clock"
  by (simp add: keeps_def clock_def)

lemma keeps_syncDir [keep_intros]: "keeps (on_tree J) (syncDir p)"
  unfolding syncDir_def by (intro keep_intros)

lemma keeps_ignored [keep_intros]: "keeps I m \<Longrightarrow> keeps I (ignored m)"
  by (simp add: keeps_def ignored_def)

lemma keeps_cleanup_unless_ok [keep_intros]:
  "keeps I c \<Longrightarrow> keeps I m \<Longrightarrow> keeps I (cleanup_unless_ok c m)"
  by (auto simp: keeps_def cleanup_unless_ok_def split: prod.splits sum.splits)

text \<open>A predicate is \<open>dirs_stable\<close> under the directories made on the way to \<open>p\<close>, and so on.\<close>

lemma keeps_mkdir_all [keep_intros]:
  "(\<And>t made. J t \<Longrightarrow> J (made_dirs p made t)) \<Longrightarrow> keeps (on_tree J) (mkdir_all p)"
  unfolding mkdir_all_def by (rule keeps_call) (auto split: if_splits)

lemma keeps_mkdir [keep_intros]:
  "(\<And>t. J t \<Longrightarrow> at t p = None \<Longrightarrow> J (put_node p Dir t)) \<Longrightarrow> keeps (on_tree J) (mkdir p)"
  unfolding mkdir_def
  by (rule keeps_call) (auto simp: unchanged_def look_def errNotDir_def split: if_splits sum.splits option.splits)

lemma keeps_rename [keep_intros]:
  "(\<And>t. J t \<Longrightarrow> at t a \<noteq> None \<Longrightarrow> a \<noteq> b \<Longrightarrow> J (moved a b t)) \<Longrightarrow> keeps (on_tree J) (rename_file a b)"
  unfolding rename_file_def
  by (rule keeps_call) (auto simp: unchanged_def look_def split: if_splits sum.splits option.splits)

lemma keeps_remove_all [keep_intros]:
  "(\<And>t keep. J t \<Longrightarrow> J (partly_removed p keep t)) \<Longrightarrow> (\<And>t. J t \<Longrightarrow> J (removed p t)) \<Longrightarrow>
     keeps (on_tree J) (remove_all p)"
  unfolding remove_all_def by (rule keeps_call) auto

lemma keeps_remove_file [keep_intros]:
  "(\<And>t. J t \<Longrightarrow> J (removed p t)) \<Longrightarrow> keeps (on_tree J) (remove_file p)"
  unfolding remove_file_def
  by (rule keeps_call) (auto simp: unchanged_def split: if_splits sum.splits)

lemma keeps_create_in [keep_intros]:
  fixes n :: "'c node"
  assumes "\<And>t s. J t \<Longrightarrow> at t (dir @ [stem @ s]) = None \<Longrightarrow> J (put_node (dir @ [stem @ s]) n t)"
  shows "keeps (on_tree J) (create_in n dir stem)"
proof (rule keepsI)
  fix d :: "'c Disk" assume "J (dkTree d)"
  let ?effect = "\<lambda>t. case look t dir of
       Inl e \<Rightarrow> Inl e
     | Inr (File _) \<Rightarrow> Inl errNotDir
     | Inr Dir \<Rightarrow>
         (case List.find (\<lambda>s. at t (dir @ [stem @ s]) = None) (dkTemp d (dkTick d)) of
            None \<Rightarrow> Inl ErrExist
          | Some s \<Rightarrow> Inr (dir @ [stem @ s], put_node (dir @ [stem @ s]) n t))"
  have "keeps (on_tree J) (disk_call unchanged ?effect)"
    by (rule keeps_call)
       (auto simp: unchanged_def find_Some_iff assms split: sum.splits node.splits option.splits)
  then show "J (dkTree (snd (create_in n dir stem d)))"
    using \<open>J (dkTree d)\<close> by (auto simp: create_in_def dest: keepsD)
qed

lemma keeps_write_open [keep_intros]:
  fixes c :: 'c
  assumes "\<And>t c. J t \<Longrightarrow> J (put_node p (File c) t)"
  shows "keeps (on_tree J) (write_open p c)"
proof (rule keepsI)
  fix d :: "'c Disk" assume J: "J (dkTree d)"
  have "keeps (on_tree J) (disk_call (\<lambda>t _. put_node p (File (dkJunk d (dkTick d))) t)
      (\<lambda>t. Inr ((), put_node p (File c) t)))"
    by (rule keeps_call) (auto intro: assms)
  then show "J (dkTree (snd (write_open p c d)))" using J by (auto simp: write_open_def dest: keepsD)
qed

section \<open>Results\<close>

definition outcome :: "('c tree \<Rightarrow> bool) \<Rightarrow> ('c Disk, 'a) act \<Rightarrow> (error + 'a \<Rightarrow> 'c tree \<Rightarrow> bool) \<Rightarrow> bool" where
  "outcome J m K = (\<forall>d. J (dkTree d) \<longrightarrow> K (fst (m d)) (dkTree (snd (m d))))"

named_theorems outcome_intros \<open>rules for outcomes\<close>

lemma outcomeI: "(\<And>d. J (dkTree d) \<Longrightarrow> K (fst (m d)) (dkTree (snd (m d)))) \<Longrightarrow> outcome J m K"
  by (simp add: outcome_def)

lemma outcomeD: "outcome J m K \<Longrightarrow> m d = (r, d') \<Longrightarrow> J (dkTree d) \<Longrightarrow> K r (dkTree d')"
  unfolding outcome_def by (metis fst_conv snd_conv)

lemma outcome_keeps: "keeps (on_tree J) m \<Longrightarrow> outcome J m (\<lambda>_. J)"
  by (simp add: outcome_def keeps_def)

lemma outcome_conseq:
  "outcome J' m K' \<Longrightarrow> (\<And>t. J t \<Longrightarrow> J' t) \<Longrightarrow> (\<And>r t. K' r t \<Longrightarrow> K r t) \<Longrightarrow> outcome J m K"
  by (simp add: outcome_def)

lemma outcome_weaken: "outcome J m K' \<Longrightarrow> (\<And>r t. K' r t \<Longrightarrow> K r t) \<Longrightarrow> outcome J m K"
  by (simp add: outcome_def)

text \<open>The two branches of a result.\<close>

definition either :: "('e \<Rightarrow> 't \<Rightarrow> bool) \<Rightarrow> ('a \<Rightarrow> 't \<Rightarrow> bool) \<Rightarrow> 'e + 'a \<Rightarrow> 't \<Rightarrow> bool" where
  "either E A r t = (case r of Inl e \<Rightarrow> E e t | Inr a \<Rightarrow> A a t)"

lemma either_simps [simp]: "either E A (Inl e) = E e" "either E A (Inr a) = A a"
  by (simp_all add: either_def fun_eq_iff)

lemma outcome_bnd:
  fixes m :: "('c Disk, 'a) act"
  assumes "outcome J m (either (\<lambda>e. K (Inl e)) R)" and "\<And>a. outcome (R a) (f a) K"
  shows "outcome J (bnd m f) K"
proof (rule outcomeI)
  fix d :: "'c Disk" assume "J (dkTree d)"
  with assms(1) have 1: "either (\<lambda>e. K (Inl e)) R (fst (m d)) (dkTree (snd (m d)))" by (simp add: outcome_def)
  show "K (fst (bnd m f d)) (dkTree (snd (bnd m f d)))"
    using 1 assms(2) by (cases "m d"; cases "fst (m d)") (auto simp: bnd_def outcome_def)
qed

lemma outcome_bnd_sure:
  assumes "outcome J m (either (\<lambda>_ _. False) R)" and "\<And>a. outcome (R a) (f a) K"
  shows "outcome J (bnd m f) K"
  by (rule outcome_bnd [OF outcome_weaken [OF assms(1)] assms(2)]) (auto simp: either_def split: sum.splits)

lemma outcome_sq:
  "outcome J m (either (\<lambda>e. K (Inl e)) (\<lambda>_. R)) \<Longrightarrow> outcome R n K \<Longrightarrow> outcome J (sq m n) K"
  unfolding sq_def by (rule outcome_bnd)

lemma outcome_attempt: "outcome J m (\<lambda>r. K (Inr r)) \<Longrightarrow> outcome J (attempt m) K"
  by (auto simp: outcome_def attempt_def split: prod.splits)

lemma outcome_try:
  assumes "outcome J m (either E A)" and "\<And>e. outcome (E e) (f (Inl e)) K" and "\<And>a. outcome (A a) (f (Inr a)) K"
  shows "outcome J (bnd (attempt m) f) K"
proof (rule outcome_bnd, rule outcome_attempt)
  show "outcome J m (\<lambda>r. either (\<lambda>e. K (Inl e)) (either E A) (Inr r))" using assms(1) by simp
  show "outcome (either E A r) (f r) K" for r using assms(2,3) by (cases r) simp_all
qed

lemma outcome_ret: "(\<And>t. J t \<Longrightarrow> K (Inr a) t) \<Longrightarrow> outcome J (ret a) K"
  by (simp add: outcome_def ret_def)

lemma outcome_fail: "(\<And>t. J t \<Longrightarrow> K (Inl e) t) \<Longrightarrow> outcome J (fail e) K"
  by (simp add: outcome_def fail_def)

lemma outcome_lift_result: "(\<And>t. J t \<Longrightarrow> K r t) \<Longrightarrow> outcome J (lift_result r) K"
  by (simp add: outcome_def lift_result_def)

lemma outcome_wrap:
  "outcome J m (either (\<lambda>e. K (Inl (Wrapped msg e))) (\<lambda>a. K (Inr a))) \<Longrightarrow> outcome J (wrap msg m) K"
  by (fastforce simp: outcome_def wrap_def split: prod.splits sum.splits)

text \<open>A fixed part of the precondition can be assumed.\<close>

lemma outcome_pure: "(P \<Longrightarrow> outcome J m K) \<Longrightarrow> outcome (\<lambda>t. P \<and> J t) m K"
  by (simp add: outcome_def)

lemma outcome_false: "outcome (\<lambda>_. False) m K"
  by (simp add: outcome_def)

lemma outcome_each_acc:
  assumes "\<And>x s. x \<in> set xs \<Longrightarrow> outcome (I s) (f x s) (either E I)"
  shows "outcome (I s) (each_acc f xs s) (either E I)"
  using assms
proof (induction xs arbitrary: s)
  case Nil
  then show ?case by (auto intro: outcome_ret)
next
  case (Cons x xs)
  show ?case
    unfolding each_acc.simps
  proof (rule outcome_bnd)
    show "outcome (I s) (f x s) (either (\<lambda>e. either E I (Inl e)) I)"
      by (rule outcome_weaken [OF Cons.prems]) (auto simp: either_def split: sum.splits)
    show "outcome (I a) (each_acc f xs a) (either E I)" for a
      by (rule Cons.IH) (simp add: Cons.prems)
  qed
qed

lemma outcome_lstat:
  "outcome J (lstat p) (\<lambda>r t. J t \<and>
     (case r of Inl e \<Rightarrow> err_is e ErrNotExist \<longrightarrow> at t p = None | Inr n \<Rightarrow> at t p = Some n))"
  by (rule outcomeI)
     (auto simp: lstat_def disk_read_def disk_call_def Let_def unchanged_def look_def errNotDir_def
       split: option.splits prod.splits sum.splits if_splits)

lemma outcome_rename:
  assumes "a \<noteq> b" and "\<And>t. J t \<Longrightarrow> at t a \<noteq> None \<Longrightarrow> K (Inr ()) (moved a b t)" and "\<And>t e. J t \<Longrightarrow> K (Inl e) t"
  shows "outcome J (rename_file a b) K"
  using assms
  by (intro outcomeI)
     (auto simp: rename_file_def disk_call_def Let_def unchanged_def look_def
       split: option.splits prod.splits sum.splits if_splits)

lemma outcome_remove_all:
  assumes "\<And>t. J t \<Longrightarrow> K (Inr ()) (removed p t)" and "\<And>t e. J t \<Longrightarrow> K (Inl e) t"
    and "\<And>t keep e. J t \<Longrightarrow> K (Inl e) (partly_removed p keep t)"
  shows "outcome J (remove_all p) K"
  using assms
  by (intro outcomeI)
     (auto simp: remove_all_def disk_call_def Let_def split: option.splits prod.splits if_splits)

lemma outcome_create_in:
  fixes n :: "'c node"
  assumes "\<And>t e. J t \<Longrightarrow> K (Inl e) t"
    and "\<And>t s. J t \<Longrightarrow> K (Inr (dir @ [stem @ s])) (put_node (dir @ [stem @ s]) n t)"
  shows "outcome J (create_in n dir stem) K"
  using assms
  by (intro outcomeI)
     (auto simp: create_in_def disk_call_def Let_def unchanged_def
       split: option.splits prod.splits sum.splits node.splits)

lemma outcome_write_open:
  fixes c :: 'c
  assumes "\<And>t e. J t \<Longrightarrow> K (Inl e) t" and "\<And>t e c. J t \<Longrightarrow> K (Inl e) (put_node p (File c) t)"
    and "\<And>t. J t \<Longrightarrow> K (Inr ()) (put_node p (File c) t)"
  shows "outcome J (write_open p c) K"
  using assms by (intro outcomeI) (auto simp: write_open_def disk_call_def Let_def split: option.splits prod.splits)

lemma outcome_remove_file:
  assumes "\<And>t. J t \<Longrightarrow> K (Inr ()) (removed p t)" and "\<And>t e. J t \<Longrightarrow> \<not> err_is e ErrNotExist \<or> at t p = None \<Longrightarrow> K (Inl e) t"
  shows "outcome J (remove_file p) K"
  using assms
  by (intro outcomeI)
     (auto simp: remove_file_def disk_call_def Let_def unchanged_def look_def errNotDir_def
       split: option.splits prod.splits sum.splits if_splits)

lemma outcome_cleanup:
  assumes "outcome J m (either E (\<lambda>b. K (Inr b)))" and "\<And>e. outcome (E e) c (\<lambda>_. K (Inl e))"
  shows "outcome J (cleanup_unless_ok c m) K"
  using assms by (fastforce simp: outcome_def cleanup_unless_ok_def split: prod.splits sum.splits)

lemma outcome_keeps_either: "keeps (on_tree J) m \<Longrightarrow> outcome J m (either (\<lambda>_. J) (\<lambda>_. J))"
  by (rule outcome_weaken [OF outcome_keeps]) (auto simp: either_def split: sum.splits)

lemma outcome_clock: "outcome J clock (either (\<lambda>_ _. False) (\<lambda>_. J))"
  by (simp add: outcome_def clock_def)

lemma outcome_after_clock: "(\<And>now. outcome J (f now) K) \<Longrightarrow> outcome J (bnd clock f) K"
  by (rule outcome_bnd_sure [OF outcome_clock])

lemma outcome_or: "outcome J m K \<Longrightarrow> outcome J' m K \<Longrightarrow> outcome (\<lambda>t. J t \<or> J' t) m K"
  by (auto simp: outcome_def)

lemma either_weaken:
  "either E A r t \<Longrightarrow> (\<And>e. E e t \<Longrightarrow> E' e t) \<Longrightarrow> (\<And>a. A a t \<Longrightarrow> A' a t) \<Longrightarrow> either E' A' r t"
  by (cases r) auto

lemma outcome_sq_keeps:
  assumes "keeps (on_tree J) m" and "\<And>e t. J t \<Longrightarrow> K (Inl e) t" and "outcome J n K"
  shows "outcome J (sq m n) K"
  by (rule outcome_sq [OF outcome_weaken [OF outcome_keeps [OF assms(1)]] assms(3)])
     (auto simp: either_def assms(2) split: sum.splits)

lemma outcome_bnd_keeps:
  assumes "keeps (on_tree J) m" and "\<And>e t. J t \<Longrightarrow> K (Inl e) t" and "\<And>a. outcome J (f a) K"
  shows "outcome J (bnd m f) K"
  by (rule outcome_bnd [OF outcome_weaken [OF outcome_keeps [OF assms(1)]] assms(3)])
     (auto simp: either_def assms(2) split: sum.splits)

lemma outcome_ex: "(\<And>x. C x \<Longrightarrow> outcome (J x) m K) \<Longrightarrow> outcome (\<lambda>t. \<exists>x. C x \<and> J x t) m K"
  by (auto simp: outcome_def)

lemma outcome_wrap_either:
  "outcome J m (either (\<lambda>e. E (Wrapped msg e)) A) \<Longrightarrow> outcome J (wrap msg m) (either E A)"
  by (rule outcome_wrap) simp

lemma outcome_some: "(\<And>x. outcome (J x) m K) \<Longrightarrow> outcome (\<lambda>t. \<exists>x. J x t) m K"
  by (auto simp: outcome_def)

lemma outcome_lifted:
  "(\<And>e. r = Inl e \<Longrightarrow> outcome J (fail e) K) \<Longrightarrow> (\<And>a. r = Inr a \<Longrightarrow> outcome J (f a) K) \<Longrightarrow>
     outcome J (bnd (lift_result r) f) K"
  by (cases r) (simp_all add: bnd_def lift_result_def fail_def outcome_def)

lemma outcome_read_file:
  "outcome J (read_file p) (\<lambda>r t. J t \<and> (case r of Inl e \<Rightarrow> True | Inr c \<Rightarrow> at t p = Some (File c)))"
  by (rule outcomeI)
     (auto simp: read_file_def disk_read_def disk_call_def Let_def unchanged_def look_def errNotDir_def
       split: option.splits prod.splits sum.splits if_splits node.splits)

end
