(* ===== verification/Replacement_Inv.thy ===== *)
theory Replacement_Inv
  imports Replacement Disk_Logic
begin

text \<open>What a replacement does to its entries, whatever fails and wherever it stops. The state of an
  entry is the triple of its live, staged and backed-up subtrees; \<open>old\<close> and \<open>new\<close> are the subtrees the
  replacement started from.\<close>

section \<open>Rules for the helpers\<close>

lemma keeps_pathExists [keep_intros]: "keeps (on_tree J) (pathExists p)"
  unfolding pathExists_def by (intro keep_intros)

lemma keeps_missing_parents [keep_intros]: "keeps (on_tree J) (missing_parents dir missing)"
proof (induction dir missing rule: missing_parents.induct)
  case (1 dir missing)
  have "keeps (on_tree J) (case r of
        Inr _ \<Rightarrow> ret missing
      | Inl e \<Rightarrow>
          if \<not> err_is e ErrNotExist then fail e
          else if dir = [] then ret (missing @ [dir])
          else missing_parents (butlast dir) (missing @ [dir]))" for r :: "error + 'a node"
    using 1 by (cases r) (auto intro: keep_intros)
  then show ?case
    by (subst missing_parents.simps) (intro keeps_bnd keeps_attempt keeps_lstat)
qed

lemma keeps_ensureReplacementParent [keep_intros]:
  "(\<And>t made. J t \<Longrightarrow> J (made_dirs (butlast p) made t)) \<Longrightarrow> keeps (on_tree J) (ensureReplacementParent p)"
  unfolding ensureReplacementParent_def Let_def by (intro keep_intros)

lemma keeps_syncReplacementDirs [keep_intros]: "keeps (on_tree J) (syncReplacementDirs root touched)"
  unfolding syncReplacementDirs_def by (intro keep_intros)

lemma keeps_syncAfterBackupRemoval [keep_intros]: "keeps (on_tree J) (syncAfterBackupRemoval root backupDir)"
  unfolding syncAfterBackupRemoval_def Let_def by (intro keep_intros)

lemma outcome_pathExists:
  "outcome J (pathExists p) (either (\<lambda>_. J) (\<lambda>b t. J t \<and> b = (at t p \<noteq> None)))"
  unfolding pathExists_def
proof (rule outcome_bnd, rule outcome_attempt)
  let ?found = "\<lambda>r t. J t \<and> (case r of Inl e \<Rightarrow> err_is e ErrNotExist \<longrightarrow> at t p = None | Inr n \<Rightarrow> at t p = Some n)"
  show "outcome J (lstat p) (\<lambda>r. either (\<lambda>e. either (\<lambda>_. J) (\<lambda>b t. J t \<and> b = (at t p \<noteq> None)) (Inl e)) ?found (Inr r))"
    by (simp add: outcome_lstat)
  show "outcome (?found r) (case r of
          Inl e \<Rightarrow> if err_is e ErrNotExist then ret False else fail e
        | Inr _ \<Rightarrow> ret True) (either (\<lambda>_. J) (\<lambda>b t. J t \<and> b = (at t p \<noteq> None)))" for r
    by (cases r) (auto intro!: outcome_ret outcome_fail)
qed

text \<open>Loops whose invariant mentions the elements already done.\<close>

lemma outcome_each_until:
  assumes "\<And>pre x post s. xs = pre @ x # post \<Longrightarrow>
      outcome (I pre s) (f x s) (either (\<lambda>_. E s) (I (pre @ [x])))"
  shows "outcome (I [] s) (each_until f xs s)
    (either (\<lambda>_ _. False) (\<lambda>r t. case r of Inl (e, s) \<Rightarrow> E s t | Inr s \<Rightarrow> I xs s t))"
proof -
  have "outcome (I pre s) (each_until f ys s)
      (either (\<lambda>_ _. False) (\<lambda>r t. case r of Inl (e, s) \<Rightarrow> E s t | Inr s \<Rightarrow> I xs s t))"
    if "xs = pre @ ys" for pre ys s
    using that
  proof (induction ys arbitrary: pre s)
    case Nil
    then show ?case by (auto intro: outcome_ret)
  next
    case (Cons y ys)
    show ?case
      unfolding each_until.simps
    proof (rule outcome_bnd, rule outcome_attempt, rule outcome_weaken [OF assms [OF Cons.prems]])
      fix r t assume "either (\<lambda>_. E s) (I (pre @ [y])) r t"
      then show "either (\<lambda>e. either (\<lambda>_ _. False) (\<lambda>r t. case r of Inl (e, s) \<Rightarrow> E s t | Inr s \<Rightarrow> I xs s t) (Inl e))
          (\<lambda>r. either (\<lambda>_. E s) (I (pre @ [y])) r) (Inr r) t" by simp
    next
      fix r
      show "outcome (either (\<lambda>_. E s) (I (pre @ [y])) r)
          (case r of Inl e \<Rightarrow> ret (Inl (e, s)) | Inr s' \<Rightarrow> each_until f ys s')
          (either (\<lambda>_ _. False) (\<lambda>r t. case r of Inl (e, s) \<Rightarrow> E s t | Inr s \<Rightarrow> I xs s t))"
        using Cons.IH [of "pre @ [y]"] Cons.prems
        by (cases r) (auto intro: outcome_ret)
    qed
  qed
  from this [of "[]" xs] show ?thesis by simp
qed

lemma outcome_each_acc_pre:
  assumes "\<And>pre x post s. xs = pre @ x # post \<Longrightarrow> outcome (I pre s) (f x s) (either E (I (pre @ [x])))"
  shows "outcome (I [] s) (each_acc f xs s) (either E (I xs))"
proof -
  have "outcome (I pre s) (each_acc f ys s) (either E (I xs))" if "xs = pre @ ys" for pre ys s
    using that
  proof (induction ys arbitrary: pre s)
    case Nil
    then show ?case by (auto intro: outcome_ret)
  next
    case (Cons y ys)
    show ?case
      unfolding each_acc.simps
    proof (rule outcome_bnd)
      show "outcome (I pre s) (f y s) (either (\<lambda>e. either E (I xs) (Inl e)) (I (pre @ [y])))"
        by (rule outcome_weaken [OF assms [OF Cons.prems]]) (auto simp: either_def split: sum.splits)
      show "outcome (I (pre @ [y]) a) (each_acc f ys a) (either E (I xs))" for a
        using Cons.IH [of "pre @ [y]"] Cons.prems by simp
    qed
  qed
  from this [of "[]" xs] show ?thesis by simp
qed

section \<open>States of an entry\<close>

type_synonym 'c slot = "(path \<Rightarrow> 'c node option) \<times> (path \<Rightarrow> 'c node option) \<times> (path \<Rightarrow> 'c node option)"

definition slot :: "path \<Rightarrow> path \<Rightarrow> path \<Rightarrow> 'c tree \<Rightarrow> path \<Rightarrow> 'c slot" where
  "slot root staging backup t e = (view t (root @ e), view t (staging @ e), view t (backup @ e))"

text \<open>On the way forward an entry is untouched, moved to the backup, or promoted.\<close>

definition forward_slot :: "(path \<Rightarrow> 'c node option) \<Rightarrow> (path \<Rightarrow> 'c node option) \<Rightarrow> 'c slot \<Rightarrow> bool" where
  "forward_slot old new s \<longleftrightarrow> s = (old, new, gone) \<or> s = (gone, new, old) \<or> s = (new, gone, old)"

text \<open>After the commit the backup does not matter any more.\<close>

definition promoted_slot :: "(path \<Rightarrow> 'c node option) \<Rightarrow> 'c slot \<Rightarrow> bool" where
  "promoted_slot new s \<longleftrightarrow> fst s = new \<and> fst (snd s) = gone"

text \<open>On the way back an original is in the backup, or live with no backup.\<close>

definition back_slot :: "(path \<Rightarrow> 'c node option) \<Rightarrow> 'c slot \<Rightarrow> bool" where
  "back_slot old s \<longleftrightarrow>
    (if old = gone then snd (snd s) = gone else snd (snd s) = old \<or> (fst s = old \<and> snd (snd s) = gone))"

lemma forward_is_back: "forward_slot old new s \<Longrightarrow> back_slot old s"
  by (auto simp: forward_slot_def back_slot_def)

section \<open>The contract of a layout\<close>

text \<open>Where the entries live, are staged and are backed up: no slot lies inside another, and the backup
  directory holds no live or staged entry.\<close>

locale replacement_layout =
  fixes root :: path and staging :: path and backup :: path and entries :: "path list"
  assumes clean_entries: "cleanReplacementEntries entries = Inr entries"
    and distinct_entries: "distinct entries" and proper_entries: "[] \<notin> set entries"
    and slots_apart: "x \<in> {root, staging, backup} \<Longrightarrow> y \<in> {root, staging, backup} \<Longrightarrow> e \<in> set entries \<Longrightarrow>
      f \<in> set entries \<Longrightarrow> (x, e) \<noteq> (y, f) \<Longrightarrow> parallel (x @ e) (y @ f)"
    and places_differ: "root \<noteq> staging" "root \<noteq> backup" "staging \<noteq> backup"
    and backup_apart: "e \<in> set entries \<Longrightarrow> parallel backup (root @ e)" "e \<in> set entries \<Longrightarrow> parallel backup (staging @ e)"
begin

lemma apart:
  assumes "e \<in> set entries"
  shows "parallel (root @ e) (staging @ e)" "parallel (root @ e) (backup @ e)" "parallel (staging @ e) (backup @ e)"
    "parallel (staging @ e) (root @ e)" "parallel (backup @ e) (root @ e)" "parallel (backup @ e) (staging @ e)"
  using assms slots_apart places_differ by (auto simp: parallel_def)

lemma apart_other:
  assumes "e \<in> set entries" "f \<in> set entries" "e \<noteq> f" "x \<in> {root, staging, backup}" "y \<in> {root, staging, backup}"
  shows "parallel (x @ e) (y @ f)"
  using assms slots_apart by simp

lemma not_above:
  assumes "e \<in> set entries" "f \<in> set entries" "x \<in> {root, staging, backup}" "y \<in> {root, staging, backup}"
  shows "\<not> prefix (x @ e) (butlast (y @ f))"
proof
  assume up: "prefix (x @ e) (butlast (y @ f))"
  then have "prefix (x @ e) (y @ f)" by (metis prefixeq_butlast prefix_order.trans)
  then have "(x, e) = (y, f)" using slots_apart [of x y e f] assms by (auto simp: parallel_def)
  with up have "prefix (y @ f) (butlast (y @ f))" by simp
  moreover have "length (butlast (y @ f)) < length (y @ f)" using assms(2) proper_entries by (cases "f = []") (auto simp flip: length_greater_0_conv)
  ultimately show False by (auto dest: prefix_length_le)
qed

abbreviation slot_of :: "'c tree \<Rightarrow> path \<Rightarrow> 'c slot" where
  "slot_of \<equiv> slot root staging backup"

text \<open>The effect of the operations on the slots.\<close>

lemma slot_dirs [simp]:
  assumes "e \<in> set entries" "f \<in> set entries" "y \<in> {root, staging, backup}"
  shows "slot_of (made_dirs (butlast (y @ f)) made t) e = slot_of t e"
  using not_above [OF assms(1,2) _ assms(3)] by (simp add: slot_def)

lemma slot_other:
  assumes "e \<in> set entries" "f \<in> set entries" "e \<noteq> f" "x \<in> {root, staging, backup}" "y \<in> {root, staging, backup}" "x \<noteq> y"
  shows "slot_of (moved (x @ f) (y @ f) t) e = slot_of t e" "slot_of (removed (x @ f) t) e = slot_of t e"
    "slot_of (partly_removed (x @ f) keep t) e = slot_of t e"
proof -
  have p: "parallel (z @ f) (w @ e)" if "z \<in> {root, staging, backup}" "w \<in> {root, staging, backup}" for z w
    using apart_other [of f e z w] that assms by auto
  have "parallel (x @ f) (y @ f)" using slots_apart [of x y f f] assms by auto
  then show "slot_of (moved (x @ f) (y @ f) t) e = slot_of t e"
    using p assms by (simp add: slot_def view_moved_other)
  show "slot_of (removed (x @ f) t) e = slot_of t e" "slot_of (partly_removed (x @ f) keep t) e = slot_of t e"
    using p assms(4) by (simp_all add: slot_def)
qed

lemma slot_moves:
  assumes "e \<in> set entries"
  shows "at t (root @ e) \<noteq> None \<Longrightarrow> slot_of (moved (root @ e) (backup @ e) t) e = (gone, view t (staging @ e), view t (root @ e))"
    and "at t (staging @ e) \<noteq> None \<Longrightarrow> slot_of (moved (staging @ e) (root @ e) t) e = (view t (staging @ e), gone, view t (backup @ e))"
    and "at t (backup @ e) \<noteq> None \<Longrightarrow> slot_of (moved (backup @ e) (root @ e) t) e = (view t (backup @ e), view t (staging @ e), gone)"
  using apart [OF assms] by (simp_all add: slot_def view_moved_to view_moved_from view_moved_other)

lemma slot_removed:
  assumes "e \<in> set entries"
  shows "slot_of (removed (root @ e) t) e = (gone, view t (staging @ e), view t (backup @ e))"
    and "snd (slot_of (partly_removed (root @ e) keep t) e) = snd (slot_of t e)"
  using apart [OF assms] by (simp_all add: slot_def view_removed)

lemma slot_backup_removed:
  assumes "e \<in> set entries"
  shows "fst (slot_of (removed backup t) e) = view t (root @ e)" "fst (snd (slot_of (removed backup t) e)) = view t (staging @ e)"
    "snd (snd (slot_of (removed backup t) e)) = gone"
    "fst (slot_of (partly_removed backup keep t) e) = view t (root @ e)"
    "fst (snd (slot_of (partly_removed backup keep t) e)) = view t (staging @ e)"
    "view t (backup @ e) = gone \<Longrightarrow> snd (snd (slot_of (partly_removed backup keep t) e)) = gone"
  using backup_apart [OF assms] by (simp_all add: slot_def view_removed view_partly_gone)

text \<open>A condition on the rest of the tree that the operations on the slots and the making of the backup
  directory keep.\<close>

definition stable :: "('c tree \<Rightarrow> bool) \<Rightarrow> bool" where
  "stable F \<longleftrightarrow>
    (\<forall>t keep. F t \<longrightarrow> F (made_dirs backup keep t) \<and> F (made_dirs (butlast backup) keep t) \<and>
       F (removed backup t) \<and> F (partly_removed backup keep t)) \<and>
    (\<forall>t e x y keep. e \<in> set entries \<longrightarrow> x \<in> {root, staging, backup} \<longrightarrow> y \<in> {root, staging, backup} \<longrightarrow> F t \<longrightarrow>
      F (made_dirs (butlast (x @ e)) keep t) \<and> F (removed (root @ e) t) \<and> F (partly_removed (root @ e) keep t) \<and>
      (x \<noteq> y \<longrightarrow> F (moved (x @ e) (y @ e) t)))"

lemma stable_backup:
  assumes "stable F" "F t"
  shows "F (made_dirs backup keep t)" "F (made_dirs (butlast backup) keep t)"
    "F (removed backup t)" "F (partly_removed backup keep t)"
  using assms unfolding stable_def by blast+

lemma stableD:
  assumes "stable F" "F t" "e \<in> set entries"
  shows "x \<in> {root, staging, backup} \<Longrightarrow> F (made_dirs (butlast (x @ e)) keep t)" "F (removed (root @ e) t)"
    "F (partly_removed (root @ e) keep t)"
    "x \<in> {root, staging, backup} \<Longrightarrow> y \<in> {root, staging, backup} \<Longrightarrow> x \<noteq> y \<Longrightarrow> F (moved (x @ e) (y @ e) t)"
  using assms unfolding stable_def by blast+

lemma stable_conj: "stable F \<Longrightarrow> stable G \<Longrightarrow> stable (\<lambda>t. F t \<and> G t)"
  by (simp add: stable_def)

lemma stable_ex: "(\<And>m. stable (F m)) \<Longrightarrow> stable (\<lambda>t. \<exists>m. F m t)"
  unfolding stable_def by blast

lemma stable_all: "(\<And>m. C m \<Longrightarrow> stable (F m)) \<Longrightarrow> stable (\<lambda>t. \<forall>m. C m \<longrightarrow> F m t)"
  unfolding stable_def by blast

lemma stable_const: "stable (\<lambda>_. C)"
  by (simp add: stable_def)

text \<open>A node outside the slots and the backup directory stays.\<close>

lemma stable_at:
  fixes n :: "'c node"
  assumes "\<not> prefix backup p" and "\<And>x e. x \<in> {root, staging, backup} \<Longrightarrow> e \<in> set entries \<Longrightarrow> \<not> prefix (x @ e) p"
  shows "stable (\<lambda>t. at t p = Some n)"
proof -
  have "at (moved (x @ e) (y @ e) t) p = at t p"
    if "e \<in> set entries" "x \<in> {root, staging, backup}" "y \<in> {root, staging, backup}" "x \<noteq> y" for x y e and t :: "'c tree"
    using slots_apart [of x y e e] assms(2) that by (simp add: at_moved)
  then show ?thesis using assms unfolding stable_def by (auto simp: backup_apart)
qed

text \<open>The entries with a condition each, and the rest.\<close>

definition with_slots :: "('c tree \<Rightarrow> bool) \<Rightarrow> (path \<Rightarrow> 'c slot \<Rightarrow> bool) \<Rightarrow> 'c tree \<Rightarrow> bool" where
  "with_slots F P t \<longleftrightarrow> F t \<and> (\<forall>e\<in>set entries. P e (slot_of t e))"

lemma with_slots_dirs:
  "stable F \<Longrightarrow> e \<in> set entries \<Longrightarrow> x \<in> {root, staging, backup} \<Longrightarrow> with_slots F P t \<Longrightarrow>
    with_slots F P (made_dirs (butlast (x @ e)) made t)"
  using slot_dirs stableD(1) unfolding with_slots_def by metis

lemma with_slots_update:
  assumes "stable F" "e \<in> set entries" "x \<in> {root, staging, backup}" "y \<in> {root, staging, backup}" "x \<noteq> y"
    "with_slots F P t" and other: "\<And>f s. f \<noteq> e \<Longrightarrow> P f s \<Longrightarrow> Q f s"
  shows "Q e (slot_of (moved (x @ e) (y @ e) t) e) \<Longrightarrow> with_slots F Q (moved (x @ e) (y @ e) t)"
    and "Q e (slot_of (removed (root @ e) t) e) \<Longrightarrow> with_slots F Q (removed (root @ e) t)"
    and "Q e (slot_of (partly_removed (root @ e) keep t) e) \<Longrightarrow> with_slots F Q (partly_removed (root @ e) keep t)"
proof -
  have fr: "F (moved (x @ e) (y @ e) t)" "F (removed (root @ e) t)" "F (partly_removed (root @ e) keep t)"
    using stableD [OF assms(1) _ assms(2)] assms by (auto simp: with_slots_def)
  have Q: "Q f (slot_of t f)" if "f \<in> set entries" "f \<noteq> e" for f
    using assms(6) that other by (simp add: with_slots_def)
  have "Q f (slot_of (moved (x @ e) (y @ e) t) f)" if "Q e (slot_of (moved (x @ e) (y @ e) t) e)" "f \<in> set entries" for f
    using that slot_other(1) [OF that(2) assms(2) _ assms(3-5), where t = t] Q [OF that(2)] by (cases "f = e") simp_all
  then show "Q e (slot_of (moved (x @ e) (y @ e) t) e) \<Longrightarrow> with_slots F Q (moved (x @ e) (y @ e) t)"
    using fr by (simp add: with_slots_def)
  have rt: "root \<in> {root, staging, backup}" "staging \<in> {root, staging, backup}" "root \<noteq> staging"
    using places_differ by auto
  have "Q f (slot_of (removed (root @ e) t) f)" if "Q e (slot_of (removed (root @ e) t) e)" "f \<in> set entries" for f
    using that slot_other(2) [OF that(2) assms(2) _ rt, where t = t] Q [OF that(2)] by (cases "f = e") simp_all
  then show "Q e (slot_of (removed (root @ e) t) e) \<Longrightarrow> with_slots F Q (removed (root @ e) t)"
    using fr by (simp add: with_slots_def)
  have "Q f (slot_of (partly_removed (root @ e) keep t) f)"
    if "Q e (slot_of (partly_removed (root @ e) keep t) e)" "f \<in> set entries" for f
    using that slot_other(3) [OF that(2) assms(2) _ rt, where t = t] Q [OF that(2)] by (cases "f = e") simp_all
  then show "Q e (slot_of (partly_removed (root @ e) keep t) e) \<Longrightarrow> with_slots F Q (partly_removed (root @ e) keep t)"
    using fr by (simp add: with_slots_def)
qed

text \<open>An inspection of a path followed by a decision.\<close>

lemma outcome_inspect:
  assumes "\<And>e t. J t \<Longrightarrow> K (Inl e) t" and "outcome (\<lambda>t. J t \<and> at t p \<noteq> None) (f True) K"
    and "outcome (\<lambda>t. J t \<and> at t p = None) (f False) K"
  shows "outcome J (bnd (wrap msg (pathExists p)) f) K"
proof (rule outcome_bnd, rule outcome_wrap)
  let ?R = "\<lambda>b t. J t \<and> b = (at t p \<noteq> None)"
  show "outcome J (pathExists p) (either (\<lambda>e. either (\<lambda>e. K (Inl e)) ?R (Inl (Wrapped msg e)))
      (\<lambda>b. either (\<lambda>e. K (Inl e)) ?R (Inr b)))"
    by (rule outcome_weaken [OF outcome_pathExists]) (auto simp: either_def assms(1) split: sum.splits)
  show "outcome (?R b) (f b) K" for b
    using assms(2,3) by (cases b) (simp_all add: conj_commute)
qed

text \<open>Moving an entry between two of its places, with the parent made first.\<close>

lemma outcome_move:
  assumes "stable F" "e \<in> set entries" "x \<in> {root, staging, backup}" "y \<in> {root, staging, backup}" "x \<noteq> y"
    and J: "\<And>t. J t \<Longrightarrow> with_slots F P t \<and> at t (x @ e) \<noteq> None"
    and other: "\<And>f s. f \<noteq> e \<Longrightarrow> P f s \<Longrightarrow> Q f s"
    and there: "\<And>t. with_slots F P t \<Longrightarrow> at t (x @ e) \<noteq> None \<Longrightarrow> Q e (slot_of (moved (x @ e) (y @ e) t) e)"
    and bad: "\<And>t err. with_slots F P t \<Longrightarrow> K (Inl err) t" and good: "outcome (with_slots F Q) n K"
  shows "outcome J (sq (wrap m1 (ensureReplacementParent (y @ e))) (sq (wrap m2 (rename_file (x @ e) (y @ e))) n)) K"
proof (rule outcome_sq)
  have "keeps (on_tree (with_slots F P)) (wrap m1 (ensureReplacementParent (y @ e)))"
    by (intro keep_intros with_slots_dirs [OF assms(1,2,4)])
  from outcome_conseq [OF outcome_keeps [OF this], of J] J
  show "outcome J (wrap m1 (ensureReplacementParent (y @ e))) (either (\<lambda>err. K (Inl err)) (\<lambda>_. with_slots F P))"
    by (auto simp: either_def bad split: sum.splits)
  show "outcome (with_slots F P) (sq (wrap m2 (rename_file (x @ e) (y @ e))) n) K"
  proof (rule outcome_sq [OF outcome_wrap good])
    have "x @ e \<noteq> y @ e" using assms(5) by simp
    then show "outcome (with_slots F P) (rename_file (x @ e) (y @ e))
        (either (\<lambda>e. either (\<lambda>err. K (Inl err)) (\<lambda>_. with_slots F Q) (Inl (Wrapped m2 e)))
          (\<lambda>a. either (\<lambda>err. K (Inl err)) (\<lambda>_. with_slots F Q) (Inr a)))"
      using with_slots_update(1) [OF assms(1-5) _ other] there bad
      by (intro outcome_rename) auto
  qed
qed

text \<open>The two loops of \<open>replaceContents\<close>: which entries they have moved and promoted so far.\<close>

definition backing_up :: "(path \<Rightarrow> path \<Rightarrow> 'c node option) \<Rightarrow> (path \<Rightarrow> path \<Rightarrow> 'c node option) \<Rightarrow>
    path list \<Rightarrow> path \<Rightarrow> 'c slot \<Rightarrow> bool" where
  "backing_up old new bs e s =
    (if e \<in> set bs then s = (gone, new e, old e) \<and> old e \<noteq> gone else s = (old e, new e, gone))"

definition promoting :: "(path \<Rightarrow> path \<Rightarrow> 'c node option) \<Rightarrow> (path \<Rightarrow> path \<Rightarrow> 'c node option) \<Rightarrow>
    path list \<Rightarrow> path \<Rightarrow> 'c slot \<Rightarrow> bool" where
  "promoting old new ps e s = (if e \<in> set ps then s = (new e, gone, old e) else s = (gone, new e, old e))"

lemma slot_live: "with_slots F P t \<Longrightarrow> e \<in> set entries \<Longrightarrow> P e (slot_of t e)"
  by (simp add: with_slots_def)

lemma backup_entry_outcome:
  assumes "stable F" "e \<in> set entries" "e \<notin> set bs"
  shows "outcome (with_slots F (backing_up old new bs)) (backup_entry root backup e (touched, bs))
    (either (\<lambda>_. with_slots F (backing_up old new bs))
      (\<lambda>(_, bs') t. with_slots F (backing_up old new bs') t \<and> (bs' = bs @ [e] \<or> bs' = bs \<and> old e = gone)))"
  unfolding backup_entry_def
proof (rule outcome_inspect; (unfold if_True if_False not_True_eq_False not_False_eq_True)?)
  let ?J = "with_slots F (backing_up old new bs)"
  have live: "slot_of t e = (old e, new e, gone)" if "?J t" for t
    using slot_live [OF that assms(2)] assms(3) by (simp add: backing_up_def)
  show "outcome (\<lambda>t. ?J t \<and> at t (root @ e) \<noteq> None)
     (sq (wrap ''create backup parent'' (ensureReplacementParent (backup @ e)))
       (sq (wrap ''backup existing'' (rename_file (root @ e) (backup @ e)))
         (ret (touchReplacementRename (root @ e) (backup @ e) (fst (touched, bs)), snd (touched, bs) @ [e]))))
     (either (\<lambda>_. ?J) (\<lambda>(_, bs') t. with_slots F (backing_up old new bs') t \<and> (bs' = bs @ [e] \<or> bs' = bs \<and> old e = gone)))"
  proof (rule outcome_move [OF assms(1,2), where P = "backing_up old new bs" and Q = "backing_up old new (bs @ [e])"])
    fix t assume J: "?J t" and "at t (root @ e) \<noteq> None"
    then show "backing_up old new (bs @ [e]) e (slot_of (moved (root @ e) (backup @ e) t) e)"
      using live [OF J] slot_moves(1) [OF assms(2), of t] by (auto simp: backing_up_def slot_def simp flip: view_gone_iff)
  qed (use places_differ in \<open>auto simp: backing_up_def intro: outcome_ret\<close>)
  show "outcome (\<lambda>t. ?J t \<and> at t (root @ e) = None) (ret (touched, bs))
     (either (\<lambda>_. ?J) (\<lambda>(_, bs') t. with_slots F (backing_up old new bs') t \<and> (bs' = bs @ [e] \<or> bs' = bs \<and> old e = gone)))"
    using live by (auto simp: slot_def simp flip: view_gone_iff intro!: outcome_ret)
qed auto

lemma promote_entry_outcome:
  assumes "stable F" "e \<in> set entries" "e \<notin> set ps"
  shows "outcome (with_slots F (promoting old new ps)) (promote_entry root staging e (touched, ps))
    (either (\<lambda>_. with_slots F (promoting old new ps))
      (\<lambda>(_, ps') t. with_slots F (promoting old new ps') t \<and> (ps' = ps @ [e] \<or> ps' = ps \<and> new e = gone)))"
  unfolding promote_entry_def
proof (rule outcome_inspect; (unfold if_True if_False not_True_eq_False not_False_eq_True)?)
  let ?J = "with_slots F (promoting old new ps)"
  have live: "slot_of t e = (gone, new e, old e)" if "?J t" for t
    using slot_live [OF that assms(2)] assms(3) by (simp add: promoting_def)
  show "outcome (\<lambda>t. ?J t \<and> at t (staging @ e) \<noteq> None)
     (sq (wrap ''create target parent'' (ensureReplacementParent (root @ e)))
       (sq (wrap ''promote staged'' (rename_file (staging @ e) (root @ e)))
         (ret (touchReplacementRename (staging @ e) (root @ e) (fst (touched, ps)), snd (touched, ps) @ [e]))))
     (either (\<lambda>_. ?J) (\<lambda>(_, ps') t. with_slots F (promoting old new ps') t \<and> (ps' = ps @ [e] \<or> ps' = ps \<and> new e = gone)))"
  proof (rule outcome_move [OF assms(1,2), where P = "promoting old new ps" and Q = "promoting old new (ps @ [e])"])
    fix t assume J: "?J t" and "at t (staging @ e) \<noteq> None"
    then show "promoting old new (ps @ [e]) e (slot_of (moved (staging @ e) (root @ e) t) e)"
      using live [OF J] slot_moves(2) [OF assms(2), of t] by (auto simp: promoting_def slot_def simp flip: view_gone_iff)
  qed (use places_differ in \<open>auto simp: promoting_def intro: outcome_ret\<close>)
  show "outcome (\<lambda>t. ?J t \<and> at t (staging @ e) = None) (ret (touched, ps))
     (either (\<lambda>_. ?J) (\<lambda>(_, ps') t. with_slots F (promoting old new ps') t \<and> (ps' = ps @ [e] \<or> ps' = ps \<and> new e = gone)))"
    using live by (auto simp: slot_def simp flip: view_gone_iff intro!: outcome_ret)
qed auto

text \<open>A whole loop: it stops at a recorded state, or has handled every entry.\<close>

lemma recorded_loop:
  fixes f :: "path \<Rightarrow> path list \<times> path list \<Rightarrow> ('c Disk, path list \<times> path list) act"
  assumes step: "\<And>e touched bs. e \<in> set entries \<Longrightarrow> e \<notin> set bs \<Longrightarrow>
      outcome (with_slots F (P bs)) (f e (touched, bs))
        (either (\<lambda>_. with_slots F (P bs)) (\<lambda>(_, bs') t. with_slots F (P bs') t \<and> (bs' = bs @ [e] \<or> bs' = bs \<and> v e = gone)))"
  shows "outcome (with_slots F (P [])) (each_until f entries (touched, []))
    (either (\<lambda>_ _. False) (\<lambda>r t. case r of
        Inl (_, (_, bs)) \<Rightarrow> distinct bs \<and> set bs \<subseteq> set entries \<and> with_slots F (P bs) t
      | Inr (_, bs) \<Rightarrow> distinct bs \<and> set bs \<subseteq> set entries \<and> (\<forall>e\<in>set entries - set bs. v e = gone) \<and> with_slots F (P bs) t))"
proof -
  let ?I = "\<lambda>pre (s :: path list \<times> path list) t. distinct (snd s) \<and> set (snd s) \<subseteq> set pre \<and>
      (\<forall>e\<in>set pre - set (snd s). v e = gone) \<and> with_slots F (P (snd s)) t"
  let ?E = "\<lambda>(s :: path list \<times> path list) t. distinct (snd s) \<and> set (snd s) \<subseteq> set entries \<and> with_slots F (P (snd s)) t"
  have one: "outcome (?I pre s) (f x s) (either (\<lambda>_. ?E s) (?I (pre @ [x])))"
    if split: "entries = pre @ x # post" for pre x post s
  proof -
    obtain touched bs where s: "s = (touched, bs)" by (cases s)
    have x: "x \<in> set entries" "x \<notin> set pre" "set pre \<subseteq> set entries" using split distinct_entries by auto
    have "outcome (with_slots F (P bs)) (f x s) (either (\<lambda>_. ?E s) (?I (pre @ [x])))"
      if "distinct bs" "set bs \<subseteq> set pre" "\<forall>e\<in>set pre - set bs. v e = gone"
    proof -
      have "x \<notin> set bs" using that x by auto
      from step [OF x(1) this, of touched] show ?thesis
        unfolding s by (rule outcome_weaken) (use that x \<open>x \<notin> set bs\<close> in \<open>auto simp: either_def split: sum.splits\<close>)
    qed
    then show ?thesis unfolding s by (auto simp: outcome_def)
  qed
  have "outcome (?I [] (touched, [])) (each_until f entries (touched, []))
      (either (\<lambda>_ _. False) (\<lambda>r t. case r of Inl (e, s) \<Rightarrow> ?E s t | Inr s \<Rightarrow> ?I entries s t))"
    by (rule outcome_each_until) (rule one)
  then show ?thesis
    by (rule outcome_conseq) (auto simp: either_def split: sum.splits)
qed

text \<open>Rolling back, with the entries \<open>ms\<close> still in the backup.\<close>

definition rolling :: "(path \<Rightarrow> path \<Rightarrow> 'c node option) \<Rightarrow> path set \<Rightarrow> path \<Rightarrow> 'c slot \<Rightarrow> bool" where
  "rolling old ms e s \<longleftrightarrow>
    (if e \<in> ms then snd (snd s) = old e \<and> old e \<noteq> gone
     else snd (snd s) = gone \<and> (old e = gone \<or> fst s = old e))"

lemma rolling_back: "rolling old ms e s \<Longrightarrow> back_slot (old e) s"
  by (auto simp: rolling_def back_slot_def split: if_splits)

lemma rolling_remove:
  assumes "stable G" "e \<in> set entries" "e \<in> ms \<or> old e = gone" "with_slots G (rolling old ms) t"
  shows "with_slots G (rolling old ms) (removed (root @ e) t)"
    "with_slots G (rolling old ms) (partly_removed (root @ e) keep t)"
proof -
  have "rolling old ms e (slot_of t e)" using slot_live [OF assms(4,2)] .
  then have "rolling old ms e (slot_of (removed (root @ e) t) e)"
    "rolling old ms e (slot_of (partly_removed (root @ e) keep t) e)"
    using slot_removed [OF assms(2), where t = t] assms(3) by (auto simp: rolling_def slot_def)
  then show "with_slots G (rolling old ms) (removed (root @ e) t)"
    "with_slots G (rolling old ms) (partly_removed (root @ e) keep t)"
    using with_slots_update(2,3) [OF assms(1,2), where x = root and y = staging and P = "rolling old ms" and Q = "rolling old ms"]
      places_differ assms(4) by auto
qed

lemma remove_promoted_keeps:
  assumes "stable G" "e \<in> set entries" "e \<in> ms \<or> old e = gone"
  shows "keeps (on_tree (with_slots G (rolling old ms))) (remove_promoted root e s)"
  unfolding remove_promoted_def
  using rolling_remove [where G = G and e = e and ms = ms and old = old, OF assms]
  by (intro keep_intros)

lemma restore_moved_outcome:
  assumes "stable G" "e \<in> set entries" "e \<in> ms"
  shows "outcome (with_slots G (rolling old ms)) (restore_moved root backup e (touched, failed))
    (either (\<lambda>_ _. False) (\<lambda>(_, failed') t. failed' \<and> with_slots G (rolling old ms) t \<or>
       failed' = failed \<and> with_slots G (rolling old (ms - {e})) t))"
  (is "outcome ?J _ ?K")
proof -
  note rm = rolling_remove [OF assms(1,2) disjI1 [OF assms(3)]]
  have 1: "outcome ?J (remove_all (root @ e)) (either (\<lambda>_. ?J) (\<lambda>_. ?J))"
    using rm by (intro outcome_remove_all) auto
  have 2: "outcome ?J (ensureReplacementParent (root @ e)) (either (\<lambda>_. ?J) (\<lambda>_. ?J))"
  proof (rule outcome_weaken [OF outcome_keeps])
    show "keeps (on_tree ?J) (ensureReplacementParent (root @ e))"
      by (intro keep_intros with_slots_dirs [OF assms(1,2)]) simp
  qed (auto simp: either_def split: sum.splits)
  have b: "at t (backup @ e) \<noteq> None" if "?J t" for t
    using slot_live [OF that assms(2)] assms(3) by (auto simp: rolling_def slot_def simp flip: view_gone_iff)
  have 3: "outcome ?J (rename_file (backup @ e) (root @ e))
      (either (\<lambda>_. ?J) (\<lambda>_. with_slots G (rolling old (ms - {e}))))"
  proof (rule outcome_rename)
    show "backup @ e \<noteq> root @ e" using places_differ by simp
    fix t assume J: "?J t"
    have "rolling old (ms - {e}) e (slot_of (moved (backup @ e) (root @ e) t) e)"
      using slot_live [OF J assms(2)] slot_moves(3) [OF assms(2) b [OF J]] assms(3)
      by (auto simp: rolling_def slot_def)
    then show "either (\<lambda>_. ?J) (\<lambda>_. with_slots G (rolling old (ms - {e}))) (Inr ()) (moved (backup @ e) (root @ e) t)"
      using with_slots_update(1) [OF assms(1,2) _ _ _ J, where x = backup and y = root and Q = "rolling old (ms - {e})"]
        places_differ by (auto simp: rolling_def)
  qed simp
  show ?thesis
    unfolding restore_moved_def Let_def
    by (rule outcome_try [OF 1]; simp)
       (auto intro!: outcome_ret outcome_try [OF 2] outcome_try [OF 3])
qed

text \<open>After a roll-back attempt: what is still in the backup, and the flag that allows to remove it.\<close>

lemma restoreSnapshotContents_outcome:
  assumes "stable G" "distinct bs" "set bs \<subseteq> set entries"
    and "\<And>e. e \<in> set ps \<Longrightarrow> e \<in> set entries \<and> (e \<in> set bs \<or> old e = gone)"
  shows "outcome (with_slots G (rolling old (set bs))) (restoreSnapshotContents root backup bs ps touched cause)
    (either (\<lambda>_ _. False) (\<lambda>(cleanup, r) t. (\<exists>e. r = ReplacementError e) \<and>
       (\<exists>ms. (cleanup \<longrightarrow> ms = {}) \<and> with_slots G (rolling old ms) t)))"
  (is "outcome ?J _ ?K")
proof -
  let ?I = "\<lambda>pre (s :: path list \<times> bool) t. \<exists>ms. (set bs - set pre \<subseteq> ms \<and> ms \<subseteq> set bs \<and> (\<not> snd s \<longrightarrow> ms = set bs - set pre)) \<and>
      with_slots G (rolling old ms) t"
  have 1: "outcome ?J (each_acc (remove_promoted root) (rev ps) (touched, False))
      (either (\<lambda>_ _. False) (\<lambda>_. ?J))"
  proof (rule outcome_each_acc [where I = "\<lambda>_. ?J"])
    fix e s assume "e \<in> set (rev ps)"
    have "keeps (on_tree ?J) (remove_promoted root e s)"
      using assms(4) \<open>e \<in> set (rev ps)\<close> by (intro remove_promoted_keeps assms) auto
    moreover have "\<exists>a. fst (remove_promoted root e s d) = Inr a" for d :: "'a Disk"
      by (auto simp: remove_promoted_def bnd_def attempt_def ret_def split: prod.splits sum.splits)
    ultimately show "outcome ?J (remove_promoted root e s) (either (\<lambda>_ _. False) (\<lambda>_. ?J))"
      unfolding outcome_def keeps_def by (metis either_simps(2))
  qed
  have step: "outcome (?I pre s) (restore_moved root backup e s) (either (\<lambda>_ _. False) (?I (pre @ [e])))"
    if "rev bs = pre @ e # post" for pre e post s
  proof (rule outcome_ex)
    fix ms assume ms: "set bs - set pre \<subseteq> ms \<and> ms \<subseteq> set bs \<and> (\<not> snd s \<longrightarrow> ms = set bs - set pre)"
    have "e \<in> set (rev bs)" "e \<notin> set pre" using that assms(2) distinct_rev [of bs] by auto
    then have e: "e \<in> set bs" "e \<notin> set pre" by auto
    have "outcome (with_slots G (rolling old ms)) (restore_moved root backup e (fst s, snd s))
        (either (\<lambda>_ _. False) (\<lambda>(_, failed') t. failed' \<and> with_slots G (rolling old ms) t \<or>
           failed' = snd s \<and> with_slots G (rolling old (ms - {e})) t))"
      using e ms assms(3) by (intro restore_moved_outcome assms) auto
    then have run: "outcome (with_slots G (rolling old ms)) (restore_moved root backup e s)
        (either (\<lambda>_ _. False) (\<lambda>(_, failed') t. failed' \<and> with_slots G (rolling old ms) t \<or>
           failed' = snd s \<and> with_slots G (rolling old (ms - {e})) t))" by simp
    have stay: "set bs - set (pre @ [e]) \<subseteq> ms \<and> ms \<subseteq> set bs" using ms by auto
    have gone_e: "set bs - set (pre @ [e]) \<subseteq> ms - {e} \<and> ms - {e} \<subseteq> set bs \<and>
        (\<not> snd s \<longrightarrow> ms - {e} = set bs - set (pre @ [e]))" using ms by auto
    have post: "?I (pre @ [e]) (u, failed) t"
      if "failed \<and> with_slots G (rolling old ms) t \<or> failed = snd s \<and> with_slots G (rolling old (ms - {e})) t" for u failed t
      using that
    proof
      assume "failed \<and> with_slots G (rolling old ms) t"
      then show ?thesis using stay by (intro exI [of _ ms]) simp
    next
      assume "failed = snd s \<and> with_slots G (rolling old (ms - {e})) t"
      then show ?thesis using gone_e by (intro exI [of _ "ms - {e}"]) simp
    qed
    show "outcome (with_slots G (rolling old ms)) (restore_moved root backup e s) (either (\<lambda>_ _. False) (?I (pre @ [e])))"
    proof (rule outcome_weaken [OF run])
      fix r :: "error + path list \<times> bool" and t
      assume r: "either (\<lambda>_ _. False) (\<lambda>(_, failed') t. failed' \<and> with_slots G (rolling old ms) t \<or>
           failed' = snd s \<and> with_slots G (rolling old (ms - {e})) t) r t"
      then obtain u failed where "r = Inr (u, failed)" by (cases r) (simp, metis prod.exhaust)
      with r post show "either (\<lambda>_ _. False) (?I (pre @ [e])) r t" by simp
    qed
  qed
  have 2: "outcome ?J (each_acc (restore_moved root backup) (rev bs) s1) (either (\<lambda>_ _. False) (?I (rev bs)))" for s1
  proof (rule outcome_conseq [OF outcome_each_acc_pre [where I = ?I, OF step]])
    fix t assume "?J t"
    then show "?I [] s1 t" by (intro exI [of _ "set bs"]) simp
  qed simp_all
  have 3: "outcome (?I (rev bs) s2) (syncReplacementDirs root (fst s2)) (either (\<lambda>_. ?I (rev bs) s2) (\<lambda>_. ?I (rev bs) s2))"
    for s2 by (rule outcome_weaken [OF outcome_keeps [OF keeps_syncReplacementDirs]]) (simp add: either_def split: sum.splits)
  show ?thesis
    unfolding restoreSnapshotContents_def Let_def
  proof (rule outcome_bnd_sure [OF 1], rule outcome_bnd_sure [OF 2], rule outcome_try [OF 3])
    fix s2 :: "path list \<times> bool"
    let ?last = "\<lambda>failed. ret (if failed then (False, ReplacementError (Wrapped ''failed to restore previous snapshot state'' cause))
        else (True, ReplacementError cause))"
    have fin: "outcome (?I (rev bs) s2) (?last (snd s2 \<or> b)) ?K" for b
      by (rule outcome_ret) auto
    show "outcome (?I (rev bs) s2) (?last (snd s2 \<or> (case Inl e of Inl _ \<Rightarrow> True | Inr _ \<Rightarrow> False))) ?K" for e :: error
      by (rule fin)
    show "outcome (?I (rev bs) s2) (?last (snd s2 \<or> (case Inr a of Inl _ \<Rightarrow> True | Inr _ \<Rightarrow> False))) ?K" for a :: unit
      by (rule fin)
  qed
qed

text \<open>The hook run before a roll-back records it: the rest of the tree goes from \<open>F\<close> to \<open>G\<close>, on an
  error possibly too; the slots stay.\<close>

definition records :: "('c tree \<Rightarrow> bool) \<Rightarrow> ('c tree \<Rightarrow> bool) \<Rightarrow> ('c Disk, unit) act \<Rightarrow> bool" where
  "records F G hook \<longleftrightarrow> (\<forall>P. outcome (with_slots F P) hook
     (either (\<lambda>_ t. with_slots F P t \<or> with_slots G P t) (\<lambda>_. with_slots G P)))"

text \<open>What a failed replacement leaves: everything on the way forward with the roll-back not recorded,
  or everything on the way back with it recorded.\<close>

definition unfinished :: "('c tree \<Rightarrow> bool) \<Rightarrow> ('c tree \<Rightarrow> bool) \<Rightarrow> (path \<Rightarrow> path \<Rightarrow> 'c node option) \<Rightarrow>
    (path \<Rightarrow> path \<Rightarrow> 'c node option) \<Rightarrow> 'c tree \<Rightarrow> bool" where
  "unfinished F G old new t \<longleftrightarrow>
    with_slots F (\<lambda>e. forward_slot (old e) (new e)) t \<or> with_slots G (\<lambda>e. back_slot (old e)) t"

lemma with_slots_mono:
  "with_slots F P t \<Longrightarrow> (\<And>e s. e \<in> set entries \<Longrightarrow> P e s \<Longrightarrow> Q e s) \<Longrightarrow> with_slots F Q t"
  by (simp add: with_slots_def)

lemma rollback_outcome:
  assumes "stable G" "records F G hook" "distinct bs" "set bs \<subseteq> set entries"
    and ps: "\<And>e. e \<in> set ps \<Longrightarrow> e \<in> set entries \<and> (e \<in> set bs \<or> old e = gone)"
    and forward: "\<And>e s. e \<in> set entries \<Longrightarrow> P e s \<Longrightarrow> forward_slot (old e) (new e) s"
    and start: "\<And>e s. e \<in> set entries \<Longrightarrow> P e s \<Longrightarrow> rolling old (set bs) e s"
  shows "outcome (with_slots F P) (rollbackSnapshotContents root backup bs ps touched cause (Some hook))
    (either (\<lambda>_ _. False) (\<lambda>(cleanup, r) t. (\<exists>e. r = ReplacementError e) \<and> unfinished F G old new t \<and>
       (cleanup \<longrightarrow> with_slots G (rolling old {}) t)))" (is "outcome _ _ ?K")
  unfolding rollbackSnapshotContents_def option.case
proof (rule outcome_try; (unfold sum.case)?)
  show "outcome (with_slots F P) hook (either (\<lambda>_ t. with_slots F P t \<or> with_slots G P t) (\<lambda>_. with_slots G P))"
    using assms(2) by (simp add: records_def)
  show "outcome (\<lambda>t. with_slots F P t \<or> with_slots G P t)
      (ret (False, ReplacementError (Wrapped ''prepare replacement rollback'' cause))) ?K"
    by (rule outcome_ret)
       (auto simp: unfinished_def intro: with_slots_mono forward forward_is_back)
  have "outcome (with_slots G P) (restoreSnapshotContents root backup bs ps touched cause)
    (either (\<lambda>_ _. False) (\<lambda>(cleanup, r) t. (\<exists>e. r = ReplacementError e) \<and>
       (\<exists>ms. (cleanup \<longrightarrow> ms = {}) \<and> with_slots G (rolling old ms) t)))"
    by (rule outcome_conseq [OF restoreSnapshotContents_outcome [OF assms(1,3,4) ps]])
       (auto intro: with_slots_mono start)
  then show "outcome (with_slots G P) (restoreSnapshotContents root backup bs ps touched cause) ?K" for a :: unit
    by (rule outcome_weaken)
       (auto simp: either_def unfinished_def split: sum.splits intro: with_slots_mono rolling_back)
qed

lemma backed_up_all:
  assumes "set bs \<subseteq> set entries" "with_slots F (backing_up old new bs) t"
  shows "\<forall>e\<in>set bs. old e \<noteq> gone"
    "\<forall>e\<in>set entries - set bs. old e = gone \<Longrightarrow> with_slots F (promoting old new []) t"
  using assms by (fastforce simp: with_slots_def backing_up_def promoting_def split: if_splits)+

lemma promoted_all:
  assumes "\<forall>e\<in>set entries - set ps. new e = gone" "with_slots F (promoting old new ps) t"
  shows "with_slots F (\<lambda>e s. s = (new e, gone, old e)) t"
  using assms by (fastforce simp: with_slots_def promoting_def split: if_splits)

definition replaced :: "('c tree \<Rightarrow> bool) \<Rightarrow> ('c tree \<Rightarrow> bool) \<Rightarrow> (path \<Rightarrow> path \<Rightarrow> 'c node option) \<Rightarrow>
    (path \<Rightarrow> path \<Rightarrow> 'c node option) \<Rightarrow> error + replacement_outcome \<Rightarrow> 'c tree \<Rightarrow> bool" where
  "replaced F G old new = either (\<lambda>_ _. False) (\<lambda>(cleanup, r) t. case r of
      ReplacementError _ \<Rightarrow> unfinished F G old new t \<and> (cleanup \<longrightarrow> with_slots G (rolling old {}) t)
    | _ \<Rightarrow> \<not> cleanup \<and> with_slots F (\<lambda>e. promoted_slot (new e)) t)"

text \<open>The last part of the body: flushing, and removing the backup once all is promoted.\<close>

lemma commit_outcome:
  assumes "stable F" and undo: "\<And>cause. outcome (with_slots F (\<lambda>e s. s = (new e, gone, old e)))
      (rollbackSnapshotContents root backup bs ps touched cause (Some hook)) (replaced F G old new)"
  shows "outcome (with_slots F (\<lambda>e s. s = (new e, gone, old e)))
     (commitReplacement root backup bs ps touched (Some hook))
     (replaced F G old new)"
  unfolding commitReplacement_def
proof (rule outcome_try; (unfold sum.case)?)
  let ?J = "with_slots F (\<lambda>e s. s = (new e, gone, old e))"
  let ?D = "with_slots F (\<lambda>e. promoted_slot (new e))"
  show "outcome ?J (syncReplacementDirs root touched) (either (\<lambda>_. ?J) (\<lambda>_. ?J))"
    by (rule outcome_weaken [OF outcome_keeps [OF keeps_syncReplacementDirs]]) (simp add: either_def split: sum.splits)
  show "outcome ?J (rollbackSnapshotContents root backup bs ps touched cause (Some hook)) (replaced F G old new)" for cause
    by (rule undo)
  have fin: "outcome ?D (ret (False, r)) (replaced F G old new)"
    if "r = Replaced \<or> (\<exists>e. r = CommittedReplacementCleanupError e)" for r
    using that by (auto intro!: outcome_ret simp: replaced_def)
  have removed_ok: "?D (removed backup t)" "?D (partly_removed backup keep t)" "?D t" if "?J t" for t keep
  proof -
    have "F (removed backup t)" "F (partly_removed backup keep t)" "F t"
      using stable_backup [OF assms(1)] that by (auto simp: with_slots_def)
    then show "?D (removed backup t)" "?D (partly_removed backup keep t)" "?D t"
      using that slot_backup_removed [where t = t] by (auto simp: with_slots_def promoted_slot_def slot_def)
  qed
  show "outcome ?J (bnd (attempt (wrap ''remove snapshot backup dir'' (remove_all backup))) (\<lambda>r.
              case r of
                Inl e \<Rightarrow> ret (False, CommittedReplacementCleanupError e)
              | Inr _ \<Rightarrow>
                  bnd (attempt (syncAfterBackupRemoval root backup)) (\<lambda>r.
                    case r of
                      Inl e \<Rightarrow> ret (False, CommittedReplacementCleanupError e)
                    | Inr _ \<Rightarrow> ret (False, Replaced)))) (replaced F G old new)"
  proof (rule outcome_try; (unfold sum.case)?)
    show "outcome ?J (wrap ''remove snapshot backup dir'' (remove_all backup)) (either (\<lambda>_. ?D) (\<lambda>_. ?D))"
      by (rule outcome_wrap, rule outcome_remove_all) (auto intro: removed_ok)
    show "outcome ?D (ret (False, CommittedReplacementCleanupError e)) (replaced F G old new)" for e
      by (rule fin) simp
    show "outcome ?D (bnd (attempt (syncAfterBackupRemoval root backup)) (\<lambda>r.
          case r of Inl e \<Rightarrow> ret (False, CommittedReplacementCleanupError e) | Inr _ \<Rightarrow> ret (False, Replaced)))
        (replaced F G old new)"
    proof (rule outcome_try; (unfold sum.case)?)
      show "outcome ?D (syncAfterBackupRemoval root backup) (either (\<lambda>_. ?D) (\<lambda>_. ?D))"
        by (rule outcome_weaken [OF outcome_keeps [OF keeps_syncAfterBackupRemoval]])
           (simp add: either_def split: sum.splits)
    qed (auto intro: fin)
  qed
qed

lemma promoteEntries_outcome:
  assumes "stable F" "stable G" "records F G hook" "distinct bs" "set bs \<subseteq> set entries"
    and old: "\<forall>e\<in>set bs. old e \<noteq> gone" "\<forall>e\<in>set entries - set bs. old e = gone"
  shows "outcome (with_slots F (promoting old new [])) (promoteEntries root staging backup entries bs touched1 (Some hook))
    (replaced F G old new)"
  unfolding promoteEntries_def
proof (rule outcome_bnd_sure)
  let ?R = "\<lambda>r t. case r of
      Inl (_, (_, ps)) \<Rightarrow> distinct ps \<and> set ps \<subseteq> set entries \<and> with_slots F (promoting old new ps) t
    | Inr (_, ps) \<Rightarrow> distinct ps \<and> set ps \<subseteq> set entries \<and> (\<forall>e\<in>set entries - set ps. new e = gone) \<and>
        with_slots F (promoting old new ps) t"
  show "outcome (with_slots F (promoting old new [])) (each_until (promote_entry root staging) entries (touched1, []))
      (either (\<lambda>_ _. False) ?R)"
    by (rule recorded_loop) (rule promote_entry_outcome [OF assms(1)])
  have undo: "outcome (with_slots F P) (rollbackSnapshotContents root backup bs ps touched cause (Some hook)) (replaced F G old new)"
    if ps: "set ps \<subseteq> set entries"
      and sh: "\<And>e s. e \<in> set entries \<Longrightarrow> P e s \<Longrightarrow> s = (new e, gone, old e) \<or> s = (gone, new e, old e)"
    for P ps touched cause
  proof (rule outcome_weaken [OF rollback_outcome [OF assms(2-5), where old = old and new = new]])
    show "e \<in> set entries \<and> (e \<in> set bs \<or> old e = gone)" if "e \<in> set ps" for e
      using that ps old by auto
    show "forward_slot (old e) (new e) s" if "e \<in> set entries" "P e s" for e s
      using sh [OF that] by (auto simp: forward_slot_def)
    show "rolling old (set bs) e s" if "e \<in> set entries" "P e s" for e s
      using sh [OF that] that old by (auto simp: rolling_def)
  qed (auto simp: replaced_def either_def split: sum.splits)
  fix r :: "(error \<times> path list \<times> path list) + path list \<times> path list"
  show "outcome (?R r) (case r of
        Inl (cause, (touched, promoted)) \<Rightarrow> rollbackSnapshotContents root backup bs promoted touched cause (Some hook)
      | Inr (touched, promoted) \<Rightarrow> commitReplacement root backup bs promoted touched (Some hook)) (replaced F G old new)"
  proof (cases r)
    case (Inl x)
    obtain cause touched ps where x: "x = (cause, touched, ps)" by (cases x)
    show ?thesis
      unfolding Inl x sum.case prod.case
      by (intro outcome_pure undo) (auto simp: promoting_def split: if_splits)
  next
    case (Inr x)
    obtain touched ps where x: "x = (touched, ps)" by (cases x)
    have "outcome (with_slots F (promoting old new ps)) (commitReplacement root backup bs ps touched (Some hook)) (replaced F G old new)"
      if "set ps \<subseteq> set entries" "\<forall>e\<in>set entries - set ps. new e = gone"
      by (rule outcome_conseq [OF commit_outcome [OF assms(1) undo [OF that(1)]]])
         (use promoted_all [OF that(2)] in auto)
    then show ?thesis unfolding Inr x sum.case prod.case by (intro outcome_pure)
  qed
qed

lemma replaceBody_outcome:
  assumes "stable F" "stable G" "records F G hook"
  shows "outcome (with_slots F (\<lambda>e s. s = (old e, new e, gone))) (replaceBody root staging backup entries (Some hook))
    (replaced F G old new)"
  unfolding replaceBody_def
proof (rule outcome_bnd_sure)
  let ?R = "\<lambda>r t. case r of
      Inl (_, (_, bs)) \<Rightarrow> distinct bs \<and> set bs \<subseteq> set entries \<and> with_slots F (backing_up old new bs) t
    | Inr (_, bs) \<Rightarrow> distinct bs \<and> set bs \<subseteq> set entries \<and> (\<forall>e\<in>set entries - set bs. old e = gone) \<and>
        with_slots F (backing_up old new bs) t"
  have "outcome (with_slots F (backing_up old new [])) (each_until (backup_entry root backup) entries ([], []))
      (either (\<lambda>_ _. False) ?R)"
    by (rule recorded_loop) (rule backup_entry_outcome [OF assms(1)])
  moreover have "backing_up old new [] = (\<lambda>e s. s = (old e, new e, gone))"
    by (simp add: backing_up_def fun_eq_iff)
  ultimately show "outcome (with_slots F (\<lambda>e s. s = (old e, new e, gone)))
      (each_until (backup_entry root backup) entries ([], [])) (either (\<lambda>_ _. False) ?R)" by simp
  fix r :: "(error \<times> path list \<times> path list) + path list \<times> path list"
  show "outcome (?R r) (case r of
        Inl (cause, (touched, backed)) \<Rightarrow> rollbackSnapshotContents root backup backed [] touched cause (Some hook)
      | Inr (touched, backed) \<Rightarrow> promoteEntries root staging backup entries backed touched (Some hook)) (replaced F G old new)"
  proof (cases r)
    case (Inl x)
    obtain cause touched bs where x: "x = (cause, touched, bs)" by (cases x)
    have "outcome (with_slots F (backing_up old new bs))
        (rollbackSnapshotContents root backup bs [] touched cause (Some hook)) (replaced F G old new)"
      if "distinct bs" "set bs \<subseteq> set entries"
      by (rule outcome_weaken [OF rollback_outcome [OF assms(2,3) that, where old = old and new = new]])
         (auto simp: replaced_def either_def backing_up_def forward_slot_def rolling_def split: sum.splits if_splits)
    then show ?thesis unfolding Inl x sum.case prod.case by (intro outcome_pure)
  next
    case (Inr x)
    obtain touched bs where x: "x = (touched, bs)" by (cases x)
    have "outcome (with_slots F (backing_up old new bs))
        (promoteEntries root staging backup entries bs touched (Some hook)) (replaced F G old new)"
      if "distinct bs" "set bs \<subseteq> set entries" "\<forall>e\<in>set entries - set bs. old e = gone"
    proof (cases "\<forall>e\<in>set bs. old e \<noteq> gone")
      case True
      show ?thesis
        by (rule outcome_conseq [OF promoteEntries_outcome [OF assms that(1,2) True that(3)]])
           (use backed_up_all(2) [OF that(2) _ that(3)] in auto)
    next
      case False
      then show ?thesis
        using backed_up_all(1) [OF that(2), where F = F and old = old and new = new] by (auto simp: outcome_def)
    qed
    then show ?thesis unfolding Inr x sum.case prod.case by (intro outcome_pure)
  qed
qed

lemma with_slots_backup_dirs:
  assumes "stable F" "with_slots F P t"
  shows "with_slots F P (made_dirs backup made t)" "with_slots F P (made_dirs (butlast backup) made t)"
proof -
  have up: "\<not> prefix (x @ e) backup" if "e \<in> set entries" "x \<in> {root, staging, backup}" for x e
    using that backup_apart [of e] proper_entries by (cases "e = []") (auto simp: parallel_def dest: prefix_length_le)
  then have up_parent: "\<not> prefix (x @ e) (butlast backup)" if "e \<in> set entries" "x \<in> {root, staging, backup}" for x e
    using that prefixeq_butlast prefix_order.trans by blast
  have "slot_of (made_dirs backup made t) e = slot_of t e"
    "slot_of (made_dirs (butlast backup) made t) e = slot_of t e" if e: "e \<in> set entries" for e
  proof -
    have "e \<noteq> []" using e proper_entries by metis
    then show "slot_of (made_dirs backup made t) e = slot_of t e"
      "slot_of (made_dirs (butlast backup) made t) e = slot_of t e"
      using up [OF e] up_parent [OF e] by (simp_all add: slot_def)
  qed
  then show "with_slots F P (made_dirs backup made t)" "with_slots F P (made_dirs (butlast backup) made t)"
    using stable_backup(1,2) [OF assms(1)] assms(2) by (auto simp: with_slots_def)
qed

lemma createBackupDir_outcome:
  assumes "stable F"
  shows "outcome (with_slots F P) (createReplacementBackupDir root (Some backup))
    (either (\<lambda>_. with_slots F P) (\<lambda>b t. b = backup \<and> with_slots F P t))"
  unfolding createReplacementBackupDir_def option.case
  by (intro outcome_sq_keeps outcome_ret keep_intros with_slots_backup_dirs [OF assms]) auto

lemma rolling_backup_removed:
  assumes "stable G" "with_slots G (rolling old {}) t"
  shows "with_slots G (rolling old {}) (removed backup t)" "with_slots G (rolling old {}) (partly_removed backup keep t)"
  using stable_backup(3,4) [OF assms(1)] assms(2) slot_backup_removed [where t = t]
  by (auto simp: with_slots_def rolling_def slot_def)

text \<open>\<open>ReplaceContents\<close> on the layout: committed, or unfinished.\<close>

lemma replaceContents_outcome:
  assumes "stable F" "stable G" "records F G hook"
  shows "outcome (with_slots F (\<lambda>e s. s = (old e, new e, gone)))
    (replaceContents root staging entries (Some backup) (Some hook))
    (either (\<lambda>_ _. False) (\<lambda>r t. case r of
        ReplacementError _ \<Rightarrow> unfinished F G old new t
      | _ \<Rightarrow> with_slots F (\<lambda>e. promoted_slot (new e)) t))" (is "outcome ?J _ ?K")
  unfolding replaceContents_def clean_entries sum.case
proof (rule outcome_try [OF createBackupDir_outcome [OF assms(1)]]; (unfold sum.case)?)
  show "outcome ?J (ret (ReplacementError e)) ?K" for e
    by (rule outcome_ret) (auto simp: unfinished_def forward_slot_def with_slots_def)
  let ?R = "\<lambda>r t. case r of ReplacementError _ \<Rightarrow> unfinished F G old new t | _ \<Rightarrow> with_slots F (\<lambda>e. promoted_slot (new e)) t"
  have "outcome (with_slots G (rolling old {})) (remove_all backup) (\<lambda>_. with_slots G (rolling old {}))"
    by (rule outcome_remove_all) (auto intro: rolling_backup_removed [OF assms(2)])
  then have drop: "outcome (with_slots G (rolling old {})) (ignored (remove_all backup)) (either (\<lambda>_ _. False) (\<lambda>_. unfinished F G old new))"
    by (auto simp: outcome_def ignored_def unfinished_def intro: with_slots_mono rolling_back)
  have ok: "outcome (replaced F G old new (Inr (c, r))) (sq (if c then ignored (remove_all backup) else ret ()) (ret r)) ?K"
    for c r
  proof (rule outcome_sq)
    show "outcome (?R r) (ret r) ?K" by (rule outcome_ret) simp
    show "outcome (replaced F G old new (Inr (c, r))) (if c then ignored (remove_all backup) else ret ())
        (either (\<lambda>e. ?K (Inl e)) (\<lambda>_. ?R r))"
      using drop by (cases r; cases c) (auto simp: replaced_def outcome_def ret_def either_def split: sum.splits)
  qed
  have body: "outcome ?J (bnd (replaceBody root staging backup entries (Some hook)) (\<lambda>(c, r).
      sq (if c then ignored (remove_all backup) else ret ()) (ret r))) ?K"
  proof (rule outcome_bnd)
    show "outcome ?J (replaceBody root staging backup entries (Some hook))
        (either (\<lambda>e. ?K (Inl e)) (\<lambda>a. replaced F G old new (Inr a)))"
      by (rule outcome_weaken [OF replaceBody_outcome [OF assms]]) (auto simp: replaced_def either_def split: sum.splits)
    show "outcome (replaced F G old new (Inr a)) (case a of (c, r) \<Rightarrow>
        sq (if c then ignored (remove_all backup) else ret ()) (ret r)) ?K" for a
      using ok by (cases a) simp
  qed
  fix b
  from body show "outcome (\<lambda>t. b = backup \<and> ?J t) (bnd (replaceBody root staging b entries (Some hook)) (\<lambda>(c, r).
      sq (if c then ignored (remove_all b) else ret ()) (ret r))) ?K"
    by (intro outcome_pure) (simp only:)
qed

text \<open>An inspection whose answer the precondition determines.\<close>

lemma outcome_known:
  assumes "\<And>t. J t \<Longrightarrow> (at t p \<noteq> None) = b" and "\<And>e t. J t \<Longrightarrow> K (Inl e) t" and "outcome J (f b) K"
  shows "outcome J (bnd (wrap msg (pathExists p)) f) K"
proof (rule outcome_inspect)
  show "outcome (\<lambda>t. J t \<and> at t p \<noteq> None) (f True) K" "outcome (\<lambda>t. J t \<and> at t p = None) (f False) K"
    using assms(1,3) by (cases b; force simp: outcome_def)+
qed (rule assms(2))

text \<open>The state of one entry fixed to a value, the others in \<open>P\<close>.\<close>

definition fixing :: "path \<Rightarrow> 'c slot \<Rightarrow> (path \<Rightarrow> 'c slot \<Rightarrow> bool) \<Rightarrow> path \<Rightarrow> 'c slot \<Rightarrow> bool" where
  "fixing e v P f s = (if f = e then s = v else P f s)"

lemma fixing_at:
  assumes "with_slots F (fixing e (l, st, b) P) t" "e \<in> set entries"
  shows "view t (root @ e) = l" "view t (staging @ e) = st" "view t (backup @ e) = b"
  using assms by (auto simp: with_slots_def fixing_def slot_def)

lemma outcome_fixing:
  assumes "e \<in> set entries" and "\<And>v. P e v \<Longrightarrow> outcome (with_slots F (fixing e v P)) m K"
  shows "outcome (with_slots F P) m K"
proof (rule outcomeI)
  fix d :: "'a Disk" assume J: "with_slots F P (dkTree d)"
  let ?v = "slot_of (dkTree d) e"
  have "with_slots F (fixing e ?v P) (dkTree d)" using J by (auto simp: with_slots_def fixing_def)
  then show "K (fst (m d)) (dkTree (snd (m d)))"
    using assms(2) [OF slot_live [OF J assms(1)]] by (auto simp: outcome_def)
qed

text \<open>Moving the fixed entry.\<close>

lemma outcome_move_fixed:
  assumes "stable F" "e \<in> set entries"
    and v: "x = root \<and> y = backup \<and> l \<noteq> gone \<and> v' = (gone, st, l) \<or>
            x = staging \<and> y = root \<and> st \<noteq> gone \<and> v' = (st, gone, b) \<or>
            x = backup \<and> y = root \<and> b \<noteq> gone \<and> v' = (b, st, gone)"
    and bad: "\<And>t err. with_slots F (fixing e (l, st, b) P) t \<Longrightarrow> K (Inl err) t"
    and good: "outcome (with_slots F (fixing e v' P)) n K"
  shows "outcome (with_slots F (fixing e (l, st, b) P))
    (sq (wrap m1 (ensureReplacementParent (y @ e))) (sq (wrap m2 (rename_file (x @ e) (y @ e))) n)) K"
proof (rule outcome_move [OF assms(1,2), where P = "fixing e (l, st, b) P" and Q = "fixing e v' P"])
  show "x \<in> {root, staging, backup}" "y \<in> {root, staging, backup}" "x \<noteq> y" using v places_differ by auto
  fix t assume J: "with_slots F (fixing e (l, st, b) P) t"
  note views = fixing_at [OF J assms(2)]
  show "with_slots F (fixing e (l, st, b) P) t \<and> at t (x @ e) \<noteq> None"
    using J views v by (auto simp flip: view_gone_iff)
  show "K (Inl err) t" for err by (rule bad [OF J])
next
  fix t assume J: "with_slots F (fixing e (l, st, b) P) t" and "at t (x @ e) \<noteq> None"
  then show "fixing e v' P e (slot_of (moved (x @ e) (y @ e) t) e)"
    using fixing_at [OF J assms(2)] v slot_moves [OF assms(2), of t] by (auto simp: fixing_def)
next
  fix f and s :: "'a slot" assume "f \<noteq> e" "fixing e (l, st, b) P f s"
  then show "fixing e v' P f s" by (simp add: fixing_def)
qed (rule good)

lemma promote_rest_outcome:
  assumes "stable F" "e \<in> set entries"
    and bad: "\<And>t err. with_slots F (fixing e (gone, st, b) P) t \<Longrightarrow> K (Inl err) t"
    and good: "\<And>t a. with_slots F (fixing e (st, gone, b) P) t \<Longrightarrow> K (Inr a) t"
  shows "outcome (with_slots F (fixing e (gone, st, b) P)) (promote_rest root staging e (st \<noteq> gone) touched) K"
proof (cases "st = gone")
  case True
  then show ?thesis using good by (auto simp: promote_rest_def intro!: outcome_ret)
next
  case False
  then have "promote_rest root staging e (st \<noteq> gone) touched =
      sq (wrap ''create target parent'' (ensureReplacementParent (root @ e)))
        (sq (wrap ''promote staged'' (rename_file (staging @ e) (root @ e)))
           (ret (touchReplacementRename (staging @ e) (root @ e) touched)))"
    by (simp add: promote_rest_def)
  show ?thesis
    unfolding \<open>promote_rest root staging e _ touched = _\<close>
    using False bad good
    by (intro outcome_move_fixed [OF assms(1,2), where l = gone and st = st and b = b and v' = "(st, gone, b)"]
        outcome_ret) auto
qed

text \<open>Rolling one entry forward, from each of its possible states.\<close>

lemma complete_entry_from:
  assumes "stable F" "e \<in> set entries" and staged: "(e \<in> set originally) = (new \<noteq> gone)"
    and v: "forward_slot old new v"
    and bad: "\<And>t err w. with_slots F (fixing e w P) t \<Longrightarrow> forward_slot old new w \<Longrightarrow> K (Inl err) t"
    and good: "\<And>t a. with_slots F (fixing e (new, gone, old) P) t \<Longrightarrow> K (Inr a) t"
  shows "outcome (with_slots F (fixing e v P)) (complete_entry root staging backup originally e touched) K"
proof -
  have fwd: "forward_slot old new (old, new, gone)" "forward_slot old new (gone, new, old)" "forward_slot old new (new, gone, old)"
    by (simp_all add: forward_slot_def)
  have rest: "outcome (with_slots F (fixing e (gone, new, old) P)) (promote_rest root staging e (new \<noteq> gone) ts) K" for ts
    by (rule promote_rest_outcome [OF assms(1,2)]) (auto intro: good bad fwd)
  have keep: "outcome (with_slots F (fixing e (old, new, gone) P))
      (sq (wrap m1 (ensureReplacementParent (backup @ e)))
        (sq (wrap m2 (rename_file (root @ e) (backup @ e))) (promote_rest root staging e (new \<noteq> gone) ts))) K"
    if "old \<noteq> gone" for m1 m2 ts
    using that rest
    by (intro outcome_move_fixed [OF assms(1,2), where l = old and st = new and b = gone and v' = "(gone, new, old)"])
       (auto intro: bad fwd)
  have seen: "(at t (root @ e) \<noteq> None) = (l \<noteq> gone)" "(at t (staging @ e) \<noteq> None) = (st \<noteq> gone)"
      "(at t (backup @ e) \<noteq> None) = (b \<noteq> gone)" if "with_slots F (fixing e (l, st, b) P) t" for t l st b
    using fixing_at [OF that assms(2)] by (auto simp flip: view_gone_iff)
  consider "v = (old, new, gone)" "old \<noteq> gone" | "v = (gone, new, old)" | "v = (new, gone, old)"
    using v by (auto simp: forward_slot_def)
  then show ?thesis
  proof cases
    case 1
    show ?thesis
      unfolding complete_entry_def 1(1)
      by (intro outcome_known [OF seen(2)] outcome_known [OF seen(1)])
         (use 1(2) staged keep bad [OF _ fwd(1)] in \<open>auto intro!: outcome_known [OF seen(3)]\<close>)
  next
    case 2
    show ?thesis
      unfolding complete_entry_def 2
      by (intro outcome_known [OF seen(2)] outcome_known [OF seen(1)]) (use rest in \<open>auto intro: bad fwd\<close>)
  next
    case 3
    show ?thesis
      unfolding complete_entry_def 3
      by (intro outcome_known [OF seen(2)] outcome_known [OF seen(1)])
         (use staged in \<open>auto intro!: outcome_known [OF seen(3)] outcome_ret good intro: bad [OF _ fwd(3)] simp: promote_rest_def\<close>)
  qed
qed

lemma complete_entry_outcome:
  assumes "stable F" "e \<in> set entries" and staged: "(e \<in> set originally) = (new e \<noteq> gone)"
    and P: "\<And>f s. P f s \<Longrightarrow> forward_slot (old f) (new f) s"
  shows "outcome (with_slots F P) (complete_entry root staging backup originally e touched)
    (either (\<lambda>_. with_slots F (\<lambda>f. forward_slot (old f) (new f)))
      (\<lambda>_. with_slots F (\<lambda>f s. if f = e then s = (new e, gone, old e) else P f s)))"
proof (rule outcome_fixing [OF assms(2)], rule complete_entry_from [OF assms(1-3)])
  fix v t err w a
  show "P e v \<Longrightarrow> forward_slot (old e) (new e) v" by (rule P)
  show "either (\<lambda>_. with_slots F (\<lambda>f. forward_slot (old f) (new f)))
      (\<lambda>_. with_slots F (\<lambda>f s. if f = e then s = (new e, gone, old e) else P f s)) (Inl err) t"
    if "with_slots F (fixing e w P) t" "forward_slot (old e) (new e) w"
    by (simp, rule with_slots_mono [OF that(1)], metis fixing_def P that(2))
  show "either (\<lambda>_. with_slots F (\<lambda>f. forward_slot (old f) (new f)))
      (\<lambda>_. with_slots F (\<lambda>f s. if f = e then s = (new e, gone, old e) else P f s)) (Inr a) t"
    if "with_slots F (fixing e (new e, gone, old e) P) t"
    using that by (simp add: fixing_def [abs_def])
qed

text \<open>\<open>CompleteReplacement\<close> finishes what was on its way forward, given the entries that were staged.\<close>

lemma CompleteReplacement_outcome:
  assumes "stable F" and staged: "\<And>e. e \<in> set entries \<Longrightarrow> (e \<in> set (List.map (clean_onto []) stagedEntries)) = (new e \<noteq> gone)"
  shows "outcome (with_slots F (\<lambda>e. forward_slot (old e) (new e)))
    (CompleteReplacement root staging backup entries stagedEntries)
    (either (\<lambda>_. with_slots F (\<lambda>e. forward_slot (old e) (new e))) (\<lambda>_. with_slots F (\<lambda>e s. s = (new e, gone, old e))))"
    (is "outcome ?J _ (either _ (\<lambda>_. ?D))")
  unfolding CompleteReplacement_def clean_entries Let_def
proof (rule outcome_bnd [where R = "\<lambda>c t. c = entries \<and> ?J t"], rule outcome_lift_result, simp)
  let ?I = "\<lambda>pre (_ :: path list). with_slots F (\<lambda>e s. if e \<in> set pre then s = (new e, gone, old e) else forward_slot (old e) (new e) s)"
  have loop: "outcome (?I [] ts) (each_acc (complete_entry root staging backup (List.map (clean_onto []) stagedEntries)) entries ts)
      (either (\<lambda>_. ?J) (?I entries))" for ts
  proof (rule outcome_each_acc_pre)
    fix pre x post ts assume split: "entries = pre @ x # post"
    then have x: "x \<in> set entries" by simp
    have "outcome (?I pre ts) (complete_entry root staging backup (List.map (clean_onto []) stagedEntries) x ts)
      (either (\<lambda>_. ?J) (\<lambda>_. with_slots F (\<lambda>f s. if f = x then s = (new x, gone, old x)
         else if f \<in> set pre then s = (new f, gone, old f) else forward_slot (old f) (new f) s)))"
      using staged [OF x] by (intro complete_entry_outcome [OF assms(1) x]) (auto simp: forward_slot_def split: if_splits)
    then show "outcome (?I pre ts) (complete_entry root staging backup (List.map (clean_onto []) stagedEntries) x ts)
      (either (\<lambda>_. ?J) (?I (pre @ [x])))"
      by (rule outcome_weaken) (auto simp: either_def split: sum.splits elim!: with_slots_mono split: if_splits)
  qed
  fix c
  have "outcome ?J (bnd (each_acc (complete_entry root staging backup (List.map (clean_onto []) stagedEntries)) entries [])
      (\<lambda>touched. syncReplacementDirs root touched)) (either (\<lambda>_. ?J) (\<lambda>_. ?D))"
  proof (rule outcome_bnd)
    show "outcome ?J (each_acc (complete_entry root staging backup (List.map (clean_onto []) stagedEntries)) entries [])
        (either (\<lambda>e. either (\<lambda>_. ?J) (\<lambda>_. ?D) (Inl e)) (\<lambda>_. ?D))"
      by (rule outcome_conseq [OF loop]) (auto simp: either_def split: sum.splits elim!: with_slots_mono)
    have "outcome ?D (syncReplacementDirs root touched) (\<lambda>_. ?D)" for touched
      by (intro outcome_keeps keep_intros)
    then show "outcome ?D (syncReplacementDirs root touched) (either (\<lambda>_. ?J) (\<lambda>_. ?D))" for touched
      by (rule outcome_weaken) (auto simp: either_def forward_slot_def split: sum.splits elim!: with_slots_mono)
  qed
  then show "outcome (\<lambda>t. c = entries \<and> ?J t) (bnd (each_acc (complete_entry root staging backup
      (List.map (clean_onto []) stagedEntries)) c []) (\<lambda>touched. syncReplacementDirs root touched))
      (either (\<lambda>_. ?J) (\<lambda>_. ?D))"
    by (intro outcome_pure) (simp only:)
qed

text \<open>On a committed replacement it changes nothing, whatever is left of the backup.\<close>

lemma complete_entry_promoted:
  assumes "e \<in> set entries" and staged: "(e \<in> set originally) = (new e \<noteq> gone)"
  shows "outcome (with_slots F (\<lambda>f. promoted_slot (new f))) (complete_entry root staging backup originally e touched)
    (\<lambda>_. with_slots F (\<lambda>f. promoted_slot (new f)))" (is "outcome ?J _ (\<lambda>_. ?J)")
proof -
  have seen: "(at t (root @ e) \<noteq> None) = (new e \<noteq> gone)" "(at t (staging @ e) \<noteq> None) = False" if "?J t" for t
    using slot_live [OF that assms(1)] by (auto simp: promoted_slot_def slot_def simp flip: view_gone_iff)
  have known: "outcome ?J (bnd (wrap msg (pathExists (backup @ e))) (\<lambda>b. ret (g b))) (\<lambda>_. ?J)" for msg and g :: "bool \<Rightarrow> path list"
    by (intro outcome_keeps keep_intros)
  show ?thesis
    unfolding complete_entry_def
    by (intro outcome_known [OF seen(2)] outcome_known [OF seen(1)])
       (use staged known in \<open>auto simp: promote_rest_def intro!: outcome_ret\<close>)
qed

lemma CompleteReplacement_eq:
  "CompleteReplacement root staging backup entries stagedEntries =
     bnd (each_acc (complete_entry root staging backup (List.map (clean_onto []) stagedEntries)) entries [])
       (syncReplacementDirs root)"
  by (rule ext) (simp add: CompleteReplacement_def clean_entries bnd_def lift_result_def Let_def)

lemma CompleteReplacement_promoted:
  assumes staged: "\<And>e. e \<in> set entries \<Longrightarrow> (e \<in> set (List.map (clean_onto []) stagedEntries)) = (new e \<noteq> gone)"
  shows "outcome (with_slots F (\<lambda>f. promoted_slot (new f))) (CompleteReplacement root staging backup entries stagedEntries)
    (\<lambda>_. with_slots F (\<lambda>f. promoted_slot (new f)))" (is "outcome ?J _ (\<lambda>_. ?J)")
proof -
  let ?loop = "each_acc (complete_entry root staging backup (List.map (clean_onto []) stagedEntries)) entries []"
  have "outcome ?J ?loop (either (\<lambda>_. ?J) (\<lambda>_. ?J))"
    by (rule outcome_each_acc [where I = "\<lambda>_. ?J"],
        rule outcome_weaken [OF complete_entry_promoted [where new = new]])
       (use staged in \<open>auto simp: either_def split: sum.splits\<close>)
  then show ?thesis
    unfolding CompleteReplacement_eq by (rule outcome_bnd) (intro outcome_keeps keep_intros)
qed

text \<open>Rolling one entry back, and all of them.\<close>

lemma fixing_removed:
  assumes "stable G" "e \<in> set entries" "with_slots G (fixing e (l, st, b) P) t"
  shows "with_slots G (fixing e (gone, st, b) P) (removed (root @ e) t)"
    and "\<exists>l'. with_slots G (fixing e (l', st, b) P) (partly_removed (root @ e) keep t)"
proof -
  note up = with_slots_update(2,3) [OF assms(1,2), where x = root and y = staging and P = "fixing e (l, st, b) P"]
  have places: "root \<in> {root, staging, backup}" "staging \<in> {root, staging, backup}" by auto
  show "with_slots G (fixing e (gone, st, b) P) (removed (root @ e) t)"
    by (rule up(1) [OF places places_differ(1) assms(3)])
       (use slot_removed(1) [OF assms(2), of t] fixing_at [OF assms(3,2)] in \<open>auto simp: fixing_def\<close>)
  let ?l = "view (partly_removed (root @ e) keep t) (root @ e)"
  have "snd (slot_of (partly_removed (root @ e) keep t) e) = (st, b)"
    using slot_removed(2) [OF assms(2), of keep t] fixing_at [OF assms(3,2)] by (simp add: slot_def)
  then have "slot_of (partly_removed (root @ e) keep t) e = (?l, st, b)" by (simp add: slot_def)
  then have "with_slots G (fixing e (?l, st, b) P) (partly_removed (root @ e) keep t)"
    by (intro up(2) [OF places places_differ(1) assms(3)]) (auto simp: fixing_def)
  then show "\<exists>l'. with_slots G (fixing e (l', st, b) P) (partly_removed (root @ e) keep t)" by blast
qed

lemma restore_entry_from:
  assumes "stable G" "e \<in> set entries" and originals: "(e \<in> set originals) = (old \<noteq> gone)"
    and v: "back_slot old (l, st, b)"
    and bad: "\<And>t err w. with_slots G (fixing e w P) t \<Longrightarrow> back_slot old w \<Longrightarrow> K (Inl err) t"
    and good: "\<And>t a. with_slots G (fixing e (old, st, gone) P) t \<Longrightarrow> K (Inr a) t"
  shows "outcome (with_slots G (fixing e (l, st, b) P)) (restore_entry root backup originals e touched) K"
proof -
  have seen: "(at t (backup @ e) \<noteq> None) = (b \<noteq> gone)" if "with_slots G (fixing e (l, st, b) P) t" for t
    using fixing_at [OF that assms(2)] by (auto simp flip: view_gone_iff)
  have clear: "outcome (with_slots G (fixing e (l, st, b) P)) (sq (wrap msg (remove_all (root @ e))) n) K"
    if "b = old" "outcome (with_slots G (fixing e (gone, st, b) P)) n K" for msg n
  proof (rule outcome_sq [OF outcome_wrap that(2)], rule outcome_remove_all)
    fix t keep err assume J: "with_slots G (fixing e (l, st, b) P) t"
    show "either (\<lambda>e'. either (\<lambda>e. K (Inl e)) (\<lambda>_. with_slots G (fixing e (gone, st, b) P)) (Inl (Wrapped msg e')))
        (\<lambda>a. either (\<lambda>e. K (Inl e)) (\<lambda>_. with_slots G (fixing e (gone, st, b) P)) (Inr a)) (Inr ()) (removed (root @ e) t)"
      using fixing_removed(1) [OF assms(1,2) J] by simp
    have stays: "back_slot old (l', st, b)" for l' using that(1) by (simp add: back_slot_def)
    show "either (\<lambda>e'. either (\<lambda>e. K (Inl e)) (\<lambda>_. with_slots G (fixing e (gone, st, b) P)) (Inl (Wrapped msg e')))
        (\<lambda>a. either (\<lambda>e. K (Inl e)) (\<lambda>_. with_slots G (fixing e (gone, st, b) P)) (Inr a)) (Inl err) t"
      using bad [OF J stays] by simp
    show "either (\<lambda>e'. either (\<lambda>e. K (Inl e)) (\<lambda>_. with_slots G (fixing e (gone, st, b) P)) (Inl (Wrapped msg e')))
        (\<lambda>a. either (\<lambda>e. K (Inl e)) (\<lambda>_. with_slots G (fixing e (gone, st, b) P)) (Inr a)) (Inl err)
        (partly_removed (root @ e) keep t)"
    proof -
      obtain l' where "with_slots G (fixing e (l', st, b) P) (partly_removed (root @ e) keep t)"
        using fixing_removed(2) [OF assms(1,2) J] by blast
      from bad [OF this stays] show ?thesis by simp
    qed
  qed
  have fwd: "outcome (with_slots G (fixing e (gone, st, b) P))
      (sq (wrap m1 (ensureReplacementParent (root @ e))) (sq (wrap m2 (rename_file (backup @ e) (root @ e))) (ret a))) K"
    if "b = old" "b \<noteq> gone" for m1 m2 a
  proof -
    have "K (Inl err) t" if "with_slots G (fixing e (gone, st, b) P) t" for err t
      by (rule bad [OF that]) (simp add: back_slot_def \<open>b = old\<close>)
    then show ?thesis
      using that good
      by (intro outcome_move_fixed [OF assms(1,2), where l = gone and st = st and b = b and v' = "(b, st, gone)"] outcome_ret) auto
  qed
  consider "b = old" "old \<noteq> gone" | "b = gone" "old \<noteq> gone" "l = old" | "b = gone" "old = gone"
    using v by (auto simp: back_slot_def split: if_splits)
  then show ?thesis
  proof cases
    case 1
    show ?thesis
      unfolding restore_entry_def Let_def
      by (rule outcome_known [OF seen]) (use 1 fwd clear v bad in auto)
  next
    case 2
    show ?thesis
      unfolding restore_entry_def Let_def
      by (rule outcome_known [OF seen]) (use 2 originals v bad good in \<open>auto intro!: outcome_ret\<close>)
  next
    case 3
    have "outcome (with_slots G (fixing e (gone, st, b) P)) (ret a) K" for a
      using good 3 by (auto intro!: outcome_ret)
    then show ?thesis
      unfolding restore_entry_def Let_def
      by (intro outcome_known [OF seen]) (use 3 originals v bad clear in auto)
  qed
qed

lemma restore_entry_outcome:
  assumes "stable G" "e \<in> set entries" and originals: "(e \<in> set originals) = (old e \<noteq> gone)"
    and P: "\<And>f s. P f s \<Longrightarrow> back_slot (old f) s"
  shows "outcome (with_slots G P) (restore_entry root backup originals e touched)
    (either (\<lambda>_. with_slots G (\<lambda>f. back_slot (old f)))
      (\<lambda>_. with_slots G (\<lambda>f s. if f = e then fst s = old e \<and> snd (snd s) = gone else P f s)))" (is "outcome _ _ ?K")
proof (rule outcome_fixing [OF assms(2)])
  fix v assume v: "P e v"
  obtain l st b where lsb: "v = (l, st, b)" by (cases v)
  show "outcome (with_slots G (fixing e v P)) (restore_entry root backup originals e touched) ?K"
    unfolding lsb
  proof (rule restore_entry_from [OF assms(1-3)])
    show "back_slot (old e) (l, st, b)" using P [OF v] lsb by simp
    fix t err w a
    show "?K (Inl err) t" if "with_slots G (fixing e w P) t" "back_slot (old e) w"
      by (simp, rule with_slots_mono [OF that(1)], metis fixing_def P that(2))
    show "?K (Inr a) t" if "with_slots G (fixing e (old e, st, gone) P) t"
      by (simp, rule with_slots_mono [OF that(1)]) (simp add: fixing_def split: if_splits)
  qed
qed

text \<open>\<open>RestoreReplacementBackup\<close> finishes what was on its way back, given the entries that existed.\<close>

lemma RestoreReplacementBackup_eq:
  "replacementEntrySet originalEntries = Inr originals \<Longrightarrow>
   RestoreReplacementBackup root backup entries originalEntries =
     bnd (each_acc (restore_entry root backup originals) (rev entries) []) (syncReplacementDirs root)"
  by (rule ext) (simp add: RestoreReplacementBackup_def clean_entries bnd_def lift_result_def)

lemma RestoreReplacementBackup_outcome:
  assumes "stable G" and set: "replacementEntrySet originalEntries = Inr originals"
    and originals: "\<And>e. e \<in> set entries \<Longrightarrow> (e \<in> set originals) = (old e \<noteq> gone)"
  shows "outcome (with_slots G (\<lambda>e. back_slot (old e))) (RestoreReplacementBackup root backup entries originalEntries)
    (either (\<lambda>_. with_slots G (\<lambda>e. back_slot (old e))) (\<lambda>_. with_slots G (\<lambda>e s. fst s = old e \<and> snd (snd s) = gone)))"
    (is "outcome ?J _ (either (\<lambda>_. ?J) (\<lambda>_. ?D))")
proof -
  let ?I = "\<lambda>pre (_ :: path list). with_slots G (\<lambda>e s. if e \<in> set pre then fst s = old e \<and> snd (snd s) = gone else back_slot (old e) s)"
  have done_back: "back_slot (old f) s" if "fst s = old f \<and> snd (snd s) = gone" for f and s :: "'a slot"
    using that by (simp add: back_slot_def)
  have loop: "outcome (?I [] ts) (each_acc (restore_entry root backup originals) (rev entries) ts)
      (either (\<lambda>_. ?J) (?I (rev entries)))" for ts
  proof (rule outcome_each_acc_pre)
    fix pre x post ts assume split: "rev entries = pre @ x # post"
    then have "x \<in> set (rev entries)" by simp
    then have x: "x \<in> set entries" by simp
    have "outcome (?I pre ts) (restore_entry root backup originals x ts)
      (either (\<lambda>_. ?J) (\<lambda>_. with_slots G (\<lambda>f s. if f = x then fst s = old x \<and> snd (snd s) = gone
         else if f \<in> set pre then fst s = old f \<and> snd (snd s) = gone else back_slot (old f) s)))"
      using originals [OF x] by (intro restore_entry_outcome [OF assms(1) x]) (auto intro: done_back split: if_splits)
    then show "outcome (?I pre ts) (restore_entry root backup originals x ts) (either (\<lambda>_. ?J) (?I (pre @ [x])))"
      by (rule outcome_weaken) (auto simp: either_def split: sum.splits elim!: with_slots_mono split: if_splits)
  qed
  show ?thesis
    unfolding RestoreReplacementBackup_eq [OF set]
  proof (rule outcome_bnd)
    show "outcome ?J (each_acc (restore_entry root backup originals) (rev entries) [])
        (either (\<lambda>e. either (\<lambda>_. ?J) (\<lambda>_. ?D) (Inl e)) (\<lambda>_. ?D))"
      by (rule outcome_conseq [OF loop]) (auto simp: either_def split: sum.splits elim!: with_slots_mono)
    have "outcome ?D (syncReplacementDirs root touched) (\<lambda>_. ?D)" for touched
      by (intro outcome_keeps keep_intros)
    then show "outcome ?D (syncReplacementDirs root touched) (either (\<lambda>_. ?J) (\<lambda>_. ?D))" for touched
      by (rule outcome_weaken) (auto simp: either_def intro: done_back split: sum.splits elim!: with_slots_mono)
  qed
qed

end

end
