(* ===== verification/Restore_Marker.thy ===== *)
theory Restore_Marker
  imports Restore Replacement_Inv
begin

text \<open>The layout of a restore (where its staging directory and its backup are) as an instance of
  \<open>replacement_layout\<close>, and what writing and removing the marker does to the rest of the disk.\<close>

section \<open>The layout\<close>

definition stagingPath :: "path \<Rightarrow> string \<Rightarrow> path" where
  "stagingPath h x = basePath h @ [''.pc'', ''restore-staging-'' @ x]"

text \<open>\<open>createRestoreBackupPath\<close>, with the formatted time.\<close>

definition createRestoreBackupPath :: "path \<Rightarrow> string \<Rightarrow> path" where
  "createRestoreBackupPath h now = basePath h @ [''.pc'', ''backups'', ''restore-db-'' @ now]"

abbreviation payloadPath :: "path \<Rightarrow> string \<Rightarrow> path" where
  "payloadPath h y \<equiv> restorePayloadBackupDir (createRestoreBackupPath h y)"

lemma clean_restorePayloadEntries: "cleanReplacementEntries restorePayloadEntries = Inr restorePayloadEntries"
  by code_simp

text \<open>No entry is above another one, above the staging directory or above the backup.\<close>

lemma entries_parallel:
  "e \<in> set restorePayloadEntries \<Longrightarrow> f \<in> set restorePayloadEntries \<Longrightarrow> e \<noteq> f \<Longrightarrow> parallel e f"
proof -
  have "list_all (\<lambda>e. list_all (\<lambda>f. e = f \<or> parallel e f) restorePayloadEntries) restorePayloadEntries"
    by (simp add: restorePayloadEntries_def)
  then show "e \<in> set restorePayloadEntries \<Longrightarrow> f \<in> set restorePayloadEntries \<Longrightarrow> e \<noteq> f \<Longrightarrow> parallel e f"
    by (auto simp: list_all_iff)
qed

lemma entry_apart:
  assumes "e \<in> set restorePayloadEntries"
  shows "parallel e (''.pc'' # (''restore-staging-'' @ x) # f)" "parallel e (''.pc'' # ''backups'' # f)"
    "parallel (''.pc'' # (''restore-staging-'' @ x) # f) e" "parallel (''.pc'' # ''backups'' # f) e"
    "parallel e [''.pc'', ''restore.marker'']" "parallel e [''.pc'', ''.tmp-'' @ x]"
  using assms by (auto simp: restorePayloadEntries_def)

lemma site_unfold:
  "stagingPath h x @ e = basePath h @ ''.pc'' # (''restore-staging-'' @ x) # e"
  "payloadPath h y @ e = basePath h @ ''.pc'' # ''backups'' # (''restore-db-'' @ y) # ''.restore-payload'' # e"
  "stagingPath h x = basePath h @ [''.pc'', ''restore-staging-'' @ x]"
  "payloadPath h y = basePath h @ [''.pc'', ''backups'', ''restore-db-'' @ y, ''.restore-payload'']"
  by (simp_all add: stagingPath_def restorePayloadBackupDir_def createRestoreBackupPath_def)

interpretation site: replacement_layout "basePath h" "stagingPath h x" "payloadPath h y" restorePayloadEntries for h x y
proof unfold_locales
  show "cleanReplacementEntries restorePayloadEntries = Inr restorePayloadEntries"
    by (rule clean_restorePayloadEntries)
  show "distinct restorePayloadEntries" "[] \<notin> set restorePayloadEntries"
    by (simp_all add: restorePayloadEntries_def)
  show "basePath h \<noteq> stagingPath h x" "basePath h \<noteq> payloadPath h y" "stagingPath h x \<noteq> payloadPath h y"
    by (simp_all add: site_unfold)
  show "parallel (payloadPath h y) (basePath h @ e)" "parallel (payloadPath h y) (stagingPath h x @ e)"
    if "e \<in> set restorePayloadEntries" for e
    using entry_apart [OF that] by (simp_all add: site_unfold)
  fix a b e f
  assume "a \<in> {basePath h, stagingPath h x, payloadPath h y}" "b \<in> {basePath h, stagingPath h x, payloadPath h y}"
    "e \<in> set restorePayloadEntries" "f \<in> set restorePayloadEntries" "(a, e) \<noteq> (b, f)"
  then show "parallel (a @ e) (b @ f)"
    using entry_apart [of e] entry_apart [of f] entries_parallel [of e f]
    by (elim insertE emptyE) (simp_all add: site_unfold)
qed

section \<open>Writing and removing the marker\<close>

text \<open>A condition on the tree that the marker writes respect: it does not speak of the marker, of temporary
  files beside it, and survives the making of missing directories.\<close>

definition tempPath :: "path \<Rightarrow> string \<Rightarrow> path" where
  "tempPath h s = basePath h @ [''.pc'', ''.tmp-'' @ s]"

definition aside :: "path \<Rightarrow> ('c tree \<Rightarrow> bool) \<Rightarrow> bool" where
  "aside h J \<longleftrightarrow> (\<forall>t. J t \<longrightarrow>
     (\<forall>p. prefix p (basePath h @ [''.pc'']) \<longrightarrow> at t p = None \<longrightarrow> J (put_node p Dir t)) \<and>
     (\<forall>s n. J (put_node (tempPath h s) n t) \<and> J (removed (tempPath h s) t) \<and> J (moved (tempPath h s) (restoreMarkerPath h) t)) \<and>
     J (removed (restoreMarkerPath h) t))"

lemma asideD:
  assumes "aside h J" "J t"
  shows "prefix p (basePath h @ [''.pc'']) \<Longrightarrow> at t p = None \<Longrightarrow> J (put_node p Dir t)"
    "J (put_node (tempPath h s) n t)" "J (removed (tempPath h s) t)" "J (moved (tempPath h s) (restoreMarkerPath h) t)"
    "J (removed (restoreMarkerPath h) t)"
  using assms unfolding aside_def by blast+

lemma aside_conj: "aside h J \<Longrightarrow> aside h K \<Longrightarrow> aside h (\<lambda>t. J t \<and> K t)"
  by (simp add: aside_def)

lemma aside_ball: "(\<And>e. e \<in> A \<Longrightarrow> aside h (J e)) \<Longrightarrow> aside h (\<lambda>t. \<forall>e\<in>A. J e t)"
  unfolding aside_def by blast

lemma aside_all: "(\<And>e. C e \<Longrightarrow> aside h (J e)) \<Longrightarrow> aside h (\<lambda>t. \<forall>e. C e \<longrightarrow> J e t)"
  unfolding aside_def by blast

definition marked :: "path \<Rightarrow> (restoreMarker \<Rightarrow> bool) \<Rightarrow> doc tree \<Rightarrow> bool" where
  "marked h M t \<longleftrightarrow> (\<exists>m. at t (restoreMarkerPath h) = Some (File (MarkerJSON m)) \<and> M m)"

lemma marker_temp: "parallel (tempPath h s) (restoreMarkerPath h)" "parallel (restoreMarkerPath h) (tempPath h s)"
  by (simp_all add: tempPath_def restoreMarkerPath_def)

lemma marked_stays:
  assumes "marked h M t"
  shows "at t p = None \<Longrightarrow> marked h M (put_node p n t)" "marked h M (put_node (tempPath h s) n t)"
    "marked h M (removed (tempPath h s) t)"
  using assms marker_temp [of h s] by (auto simp: marked_def parallel_def)

lemma keeps_ensureDirDurably [keep_intros]:
  "(\<And>t p. J t \<Longrightarrow> prefix p dir \<Longrightarrow> at t p = None \<Longrightarrow> J (put_node p Dir t)) \<Longrightarrow> keeps (on_tree J) (ensureDirDurably dir)"
proof (induction dir rule: ensureDirDurably.induct)
  case (1 dir)
  have rec: "keeps (on_tree J) (ensureDirDurably (butlast dir))" if "err_is e ErrNotExist" "dir \<noteq> []" for e
    by (rule "1.IH") (use that "1.prems" in \<open>auto dest: prefix_order.trans [OF _ prefixeq_butlast]\<close>)
  have "keeps (on_tree J) (case r of
        Inr Dir \<Rightarrow> ret ()
      | Inr (File _) \<Rightarrow> fail (Plain ''exists and is not a directory'')
      | Inl e \<Rightarrow>
          if \<not> err_is e ErrNotExist then fail e
          else
            sq (if dir \<noteq> [] then ensureDirDurably (butlast dir) else ret ())
            (bnd (attempt (mkdir dir)) (\<lambda>r.
              case r of
                Inl e \<Rightarrow>
                  if err_is e ErrExist then
                    bnd (attempt (lstat dir)) (\<lambda>r. case r of Inr Dir \<Rightarrow> ret () | _ \<Rightarrow> fail e)
                  else fail e
              | Inr _ \<Rightarrow> wrap ''sync parent directory for created directory'' (syncDir (butlast dir)))))" for r
  proof (cases r)
    case (Inl e)
    have "keeps (on_tree J) (case r of Inr Dir \<Rightarrow> ret () | _ \<Rightarrow> fail e)" for r :: "error + doc node" and e
      by (cases r) (auto intro: keep_intros split: node.splits)
    moreover have "keeps (on_tree J) (mkdir dir)" by (rule keeps_mkdir) (use "1.prems" in auto)
    ultimately show ?thesis
      using rec [of e] unfolding Inl sum.case
      by (cases "err_is e ErrNotExist"; cases "dir = []") (auto intro!: keeps_sq keeps_bnd keeps_attempt keeps_lstat keeps_wrap keeps_syncDir keeps_ret keeps_fail split: sum.splits)
  qed (auto intro: keep_intros split: node.splits)
  then show ?case
    by (subst ensureDirDurably.simps) (intro keeps_bnd keeps_attempt keeps_lstat)
qed

lemma writeRestoreMarker_outcome:
  assumes "aside h J"
  shows "outcome (\<lambda>t. J t \<and> marked h M t) (writeRestoreMarker h m)
    (either (\<lambda>_ t. J t \<and> (marked h M t \<or> \<not> marker_incomplete m \<and> marked h (\<lambda>m'. m' = m) t))
      (\<lambda>_ t. J t \<and> \<not> marker_incomplete m \<and> marked h (\<lambda>m'. m' = m) t))"
    (is "outcome ?K _ (either (\<lambda>_. ?E) (\<lambda>_. ?A))")
proof (cases "marker_incomplete m")
  case True
  then show ?thesis by (auto simp: writeRestoreMarker_def intro: outcome_fail)
next
  case False
  let ?pc = "butlast (restoreMarkerPath h)"
  let ?T = "\<lambda>p t. ?K t \<and> (\<exists>s. p = tempPath h s)"
  have pc: "?pc = basePath h @ [''.pc'']" "?pc @ [''.tmp-'' @ s] = tempPath h s" for s
    by (simp_all add: restoreMarkerPath_def tempPath_def butlast_append)
  have made: "?K (put_node p Dir t)" if "?K t" "prefix p ?pc" "at t p = None" for t p
    using that asideD(1) [OF assms] marked_stays(1) unfolding pc by blast
  have temp: "?K (put_node (tempPath h s) n t)" "?K (removed (tempPath h s) t)" if "?K t" for t s n
    using that asideD(2,3) [OF assms] marked_stays(2,3) by blast+
  have ens: "outcome ?K (wrap msg (ensureDirDurably ?pc)) (either (\<lambda>_. ?E) (\<lambda>_. ?K))" for msg
    by (rule outcome_weaken [OF outcome_keeps_either]) (intro keep_intros made, auto simp: either_def split: sum.splits)
  have create: "outcome ?K (wrap msg (create_in (File (Bytes [])) ?pc ''.tmp-'')) (either (\<lambda>_. ?E) ?T)" for msg
    by (intro outcome_wrap outcome_create_in) (use temp(1) in \<open>auto simp: pc(1) tempPath_def\<close>)
  have body: "outcome (?T p) (cleanup_unless_ok (remove_file p)
           (sq (wrap m1 (closing disk_plain))
           (sq (wrap m2 (closing (write_open p (MarkerJSON m))))
           (sq (wrap m3 (closing disk_plain))
           (sq (wrap m4 disk_plain)
               (wrap m5 (rename_file p (restoreMarkerPath h)))))))) (either (\<lambda>_. ?E) (\<lambda>_. ?A))" for p m1 m2 m3 m4 m5
  proof (rule outcome_cleanup)
    let ?L = "\<lambda>t. ?T p t \<and> at t p = Some (File (MarkerJSON m))"
    have mv: "?A (moved p (restoreMarkerPath h) t)" if L: "?L t" for t
    proof -
      obtain s where s: "p = tempPath h s" using L by blast
      have "at (moved p (restoreMarkerPath h) t) (restoreMarkerPath h) = Some (File (MarkerJSON m))"
        using L marker_temp [of h s] by (simp add: s at_moved)
      then show ?thesis using L asideD(4) [OF assms, of t s] False by (auto simp: marked_def s)
    qed
    have plain: "outcome (?T p) (wrap msg (closing disk_plain)) (either (\<lambda>_. ?T p) (\<lambda>_. ?T p))"
      "outcome ?L (wrap msg (closing disk_plain)) (either (\<lambda>_. ?T p) (\<lambda>_. ?L))"
      "outcome ?L (wrap msg disk_plain) (either (\<lambda>_. ?T p) (\<lambda>_. ?L))" for msg
      unfolding closing_def
      by (rule outcome_weaken [OF outcome_keeps_either], intro keep_intros, auto simp: either_def split: sum.splits)+
    show "outcome (?T p)
           (sq (wrap m1 (closing disk_plain))
           (sq (wrap m2 (closing (write_open p (MarkerJSON m))))
           (sq (wrap m3 (closing disk_plain))
           (sq (wrap m4 disk_plain)
               (wrap m5 (rename_file p (restoreMarkerPath h))))))) (either (\<lambda>_. ?T p) (\<lambda>b. either (\<lambda>_. ?E) (\<lambda>_. ?A) (Inr b)))"
    proof (intro outcome_sq)
      show "outcome (?T p) (wrap m1 (closing disk_plain)) (either (\<lambda>e. either (\<lambda>_. ?T p) (\<lambda>b. either (\<lambda>_. ?E) (\<lambda>_. ?A) (Inr b)) (Inl e)) (\<lambda>_. ?T p))"
        by (simp only: either_simps) (rule plain)
      show "outcome ?L (wrap m3 (closing disk_plain)) (either (\<lambda>e. either (\<lambda>_. ?T p) (\<lambda>b. either (\<lambda>_. ?E) (\<lambda>_. ?A) (Inr b)) (Inl e)) (\<lambda>_. ?L))"
        by (simp only: either_simps) (rule plain)
      show "outcome ?L (wrap m4 disk_plain) (either (\<lambda>e. either (\<lambda>_. ?T p) (\<lambda>b. either (\<lambda>_. ?E) (\<lambda>_. ?A) (Inr b)) (Inl e)) (\<lambda>_. ?L))"
        by (simp only: either_simps) (rule plain)
      show "outcome (?T p) (wrap m2 (closing (write_open p (MarkerJSON m))))
          (either (\<lambda>e. either (\<lambda>_. ?T p) (\<lambda>b. either (\<lambda>_. ?E) (\<lambda>_. ?A) (Inr b)) (Inl e)) (\<lambda>_. ?L))"
        unfolding closing_def
        by (intro outcome_wrap outcome_cleanup [where E = "\<lambda>_. ?T p"] outcome_write_open outcome_weaken [OF outcome_keeps [where J = "?T p"]] keep_intros)
           (use temp(1) in auto)
      show "outcome ?L (wrap m5 (rename_file p (restoreMarkerPath h))) (either (\<lambda>_. ?T p) (\<lambda>b. either (\<lambda>_. ?E) (\<lambda>_. ?A) (Inr b)))"
      proof (cases "\<exists>s. p = tempPath h s")
        case True
        then have "p \<noteq> restoreMarkerPath h" by (auto simp: tempPath_def restoreMarkerPath_def)
        with mv show ?thesis by (intro outcome_wrap outcome_rename) (simp_all add: False)
      qed (simp add: outcome_def)
    qed
    show "outcome (?T p) (remove_file p) (\<lambda>_. either (\<lambda>_. ?E) (\<lambda>_. ?A) (Inl e))" for e
      by (rule outcome_remove_file) (use temp(2) in auto)
  qed
  have fin: "outcome ?A (wrap msg (syncDir ?pc)) (either (\<lambda>_. ?E) (\<lambda>_. ?A))" for msg
    by (rule outcome_weaken [OF outcome_keeps_either]) (intro keep_intros, auto simp: either_def split: sum.splits)
  have "outcome ?K (writeTextFileAtomically (restoreMarkerPath h) (MarkerJSON m)) (either (\<lambda>_. ?E) (\<lambda>_. ?A))"
    unfolding writeTextFileAtomically_def
  proof (rule outcome_sq)
    show "outcome ?K (wrap ''create parent directory'' (ensureDirDurably ?pc))
        (either (\<lambda>e. either (\<lambda>_. ?E) (\<lambda>_. ?A) (Inl e)) (\<lambda>_. ?K))"
      using ens by (simp only: either_simps)
    show "outcome ?K (bnd (wrap ''create temp file'' (create_in (File (Bytes [])) ?pc ''.tmp-'')) (\<lambda>p.
        sq (cleanup_unless_ok (remove_file p)
           (sq (wrap ''set permissions'' (closing disk_plain))
           (sq (wrap ''write temp file'' (closing (write_open p (MarkerJSON m))))
           (sq (wrap ''sync temp file'' (closing disk_plain))
           (sq (wrap ''close temp file'' disk_plain)
               (wrap ''replace'' (rename_file p (restoreMarkerPath h))))))))
         (wrap ''sync parent directory'' (syncDir ?pc)))) (either (\<lambda>_. ?E) (\<lambda>_. ?A))"
    proof (rule outcome_bnd)
      show "outcome ?K (wrap ''create temp file'' (create_in (File (Bytes [])) ?pc ''.tmp-''))
          (either (\<lambda>e. either (\<lambda>_. ?E) (\<lambda>_. ?A) (Inl e)) ?T)"
        using create by (simp only: either_simps)
      show "outcome (?T p) (sq (cleanup_unless_ok (remove_file p)
           (sq (wrap ''set permissions'' (closing disk_plain))
           (sq (wrap ''write temp file'' (closing (write_open p (MarkerJSON m))))
           (sq (wrap ''sync temp file'' (closing disk_plain))
           (sq (wrap ''close temp file'' disk_plain)
               (wrap ''replace'' (rename_file p (restoreMarkerPath h))))))))
         (wrap ''sync parent directory'' (syncDir ?pc))) (either (\<lambda>_. ?E) (\<lambda>_. ?A))" for p
        by (rule outcome_sq [OF _ fin]) (use body in \<open>simp only: either_simps\<close>)
    qed
  qed
  then show ?thesis
    using False by (simp add: writeRestoreMarker_def) (rule outcome_wrap, erule outcome_weaken, simp add: either_def split: sum.splits)
qed

end
