(* ===== verification/Restore_Safe.thy ===== *)
theory Restore_Safe
  imports Restore_Marker
begin

text \<open>The restore of the local store, whatever fails and wherever the process dies: the marker on the
  disk says in which direction the entries are on their way (\<open>recoverable\<close>), every step of the
  restore and of the recovery keeps that, and a recovery that returns leaves the old store or the new one.\<close>

section \<open>States of a restore\<close>

text \<open>The payload entries of the live store.\<close>

definition live :: "path \<Rightarrow> (path \<Rightarrow> path \<Rightarrow> doc node option) \<Rightarrow> doc tree \<Rightarrow> bool" where
  "live h v t \<longleftrightarrow> (\<forall>e\<in>set restorePayloadEntries. view t (basePath h @ e) = v e)"

text \<open>The marker of the restore staged at \<open>x\<close> and backed up at \<open>y\<close>, with the entries the stores have.\<close>

definition present :: "(path \<Rightarrow> path \<Rightarrow> doc node option) \<Rightarrow> path list" where
  "present v = filter (\<lambda>e. v e \<noteq> gone) restorePayloadEntries"

definition marker_of :: "path \<Rightarrow> string \<Rightarrow> string \<Rightarrow> (path \<Rightarrow> path \<Rightarrow> doc node option) \<Rightarrow> (path \<Rightarrow> path \<Rightarrow> doc node option) \<Rightarrow>
    string \<Rightarrow> bool \<Rightarrow> restoreMarker \<Rightarrow> bool" where
  "marker_of h x y old new phase rb m \<longleftrightarrow>
    rmPhase m = phase \<and> rmStagingDir m = stagingPath h x \<and> rmBackupDir m = createRestoreBackupPath h y \<and>
    rmTimestamp m \<noteq> [] \<and> rmStagedEntries m = Some (present new) \<and> rmOriginalEntries m = Some (present old) \<and>
    rmRollbackOnly m = rb"

text \<open>The directories above and at the staging directory.\<close>

definition staging_there :: "path \<Rightarrow> string \<Rightarrow> doc tree \<Rightarrow> bool" where
  "staging_there h x t \<longleftrightarrow> (\<forall>p. prefix p (stagingPath h x) \<longrightarrow> at t p = Some Dir)"

definition home_there :: "path \<Rightarrow> doc tree \<Rightarrow> bool" where
  "home_there h t \<longleftrightarrow> (\<forall>p. prefix p (basePath h @ [''.pc'']) \<longrightarrow> at t p = Some Dir)"

lemma staging_home: "staging_there h x t \<Longrightarrow> home_there h t"
proof -
  have "prefix (basePath h @ [''.pc'']) (stagingPath h x)" by (simp add: stagingPath_def)
  then show "staging_there h x t \<Longrightarrow> home_there h t"
    unfolding staging_there_def home_there_def using prefix_order.trans by blast
qed

text \<open>Committing: on the way forward, or all promoted; with the roll-back recorded: on the way back.\<close>

definition going_forward where
  "going_forward h x y old new t \<longleftrightarrow>
    site.with_slots h x y (\<lambda>t. marked h (marker_of h x y old new restorePhaseCommitting False) t \<and> staging_there h x t)
      (\<lambda>e. forward_slot (old e) (new e)) t"

definition all_promoted where
  "all_promoted h x y old new t \<longleftrightarrow>
    site.with_slots h x y (\<lambda>t. marked h (marker_of h x y old new restorePhaseCommitting False) t \<and> staging_there h x t)
      (\<lambda>e. promoted_slot (new e)) t"

definition going_back where
  "going_back h x y old new t \<longleftrightarrow>
    site.with_slots h x y (\<lambda>t. marked h (marker_of h x y old new restorePhaseCommitting True) t \<and> home_there h t)
      (\<lambda>e. back_slot (old e)) t"

definition settled where
  "settled h x y old new t \<longleftrightarrow> (live h old t \<or> live h new t) \<and>
    (at t (restoreMarkerPath h) = None \<or> (\<exists>rb. marked h (marker_of h x y old new restorePhaseDone rb) t))"

definition not_begun where
  "not_begun h x y old new t \<longleftrightarrow> live h old t \<and> marked h (marker_of h x y old new restorePhaseStaging False) t"

text \<open>What a restore, finished or not, leaves on the disk.\<close>

definition recoverable where
  "recoverable h x y old new t \<longleftrightarrow>
    not_begun h x y old new t \<or> going_forward h x y old new t \<or> all_promoted h x y old new t \<or>
    going_back h x y old new t \<or> settled h x y old new t"

section \<open>Conditions the marker writes respect\<close>

lemma aside_cong:
  assumes "\<And>v. aside h (\<lambda>t. f t = v)"
  shows "aside h (\<lambda>t. Q (f t))"
  using assms unfolding aside_def by metis

lemma aside_view:
  assumes "\<not> prefix p (basePath h @ [''.pc''])" "parallel p (restoreMarkerPath h)" "\<And>s. parallel p (tempPath h s)"
  shows "aside h (\<lambda>t. view t p = v)"
proof -
  have "\<not> prefix p q" if "prefix q (basePath h @ [''.pc''])" for q
    using that assms(1) prefix_order.trans by blast
  moreover have "parallel (tempPath h s) (restoreMarkerPath h)" for s by (rule marker_temp)
  ultimately show ?thesis
    using assms unfolding aside_def
    by (auto simp: view_moved_other parallel_commute)
       (auto simp: parallel_def)
qed

lemma aside_place:
  assumes "e \<in> set restorePayloadEntries"
  shows "aside h (\<lambda>t. view t (basePath h @ e) = v)" "aside h (\<lambda>t. view t (stagingPath h x @ e) = v)"
    "aside h (\<lambda>t. view t (payloadPath h y @ e) = v)"
proof -
  have "e \<noteq> []" "e \<noteq> [''.pc'']" using assms by (auto simp: restorePayloadEntries_def)
  then show "aside h (\<lambda>t. view t (basePath h @ e) = v)"
    using entry_apart(5,6) [OF assms] by (intro aside_view) (simp_all add: restoreMarkerPath_def tempPath_def)
qed (intro aside_view; simp add: site_unfold restoreMarkerPath_def tempPath_def)+

lemma aside_slots:
  assumes "e \<in> set restorePayloadEntries"
  shows "aside h (\<lambda>t. P (site.slot_of h x y t e))"
proof (rule aside_cong [where Q = P])
  fix v :: "'a slot"
  obtain l st b where "v = (l, st, b)" by (cases v)
  then show "aside h (\<lambda>t. site.slot_of h x y t e = v)"
    by (simp add: slot_def) (intro aside_conj aside_place assms)
qed

lemma aside_live: "aside h (live h v)"
  unfolding live_def [abs_def] by (intro aside_ball aside_place)

lemma aside_at:
  assumes "\<And>s. \<not> prefix (tempPath h s) p" "\<not> prefix (restoreMarkerPath h) p"
  shows "aside h (\<lambda>t. at t p = Some n)"
proof -
  have "tempPath h s \<noteq> p" "restoreMarkerPath h \<noteq> p" for s using assms(1) [of s] assms(2) by auto
  then show ?thesis using assms marker_temp [of h] unfolding aside_def by (auto simp: at_moved) blast
qed

lemma aside_staging: "aside h (staging_there h x)"
  unfolding staging_there_def [abs_def]
proof (intro aside_all aside_at)
  fix p s assume p: "prefix p (stagingPath h x)"
  have "\<not> prefix (tempPath h s) (stagingPath h x)" "\<not> prefix (restoreMarkerPath h) (stagingPath h x)"
    by (simp_all add: site_unfold tempPath_def restoreMarkerPath_def)
  with p show "\<not> prefix (tempPath h s) p" "\<not> prefix (restoreMarkerPath h) p"
    using prefix_order.trans by blast+
qed

lemma aside_home: "aside h (home_there h)"
  unfolding home_there_def [abs_def]
proof (intro aside_all aside_at)
  fix p s assume p: "prefix p (basePath h @ [''.pc''])"
  have "\<not> prefix (tempPath h s) (basePath h @ [''.pc''])" "\<not> prefix (restoreMarkerPath h) (basePath h @ [''.pc''])"
    by (simp_all add: tempPath_def restoreMarkerPath_def)
  with p show "\<not> prefix (tempPath h s) p" "\<not> prefix (restoreMarkerPath h) p"
    using prefix_order.trans by blast+
qed

lemma aside_with_slots: "aside h F \<Longrightarrow> aside h (site.with_slots h x y F P)"
  unfolding site.with_slots_def [abs_def] by (intro aside_conj aside_ball aside_slots)

section \<open>Cleaning up\<close>

lemma live_stays:
  assumes "live h v t"
  shows "live h v (removed (stagingPath h x) t)" "live h v (partly_removed (stagingPath h x) keep t)"
    "live h v (removed (payloadPath h y) t)" "live h v (partly_removed (payloadPath h y) keep t)"
proof -
  have "parallel (stagingPath h x) (basePath h @ e)" "parallel (payloadPath h y) (basePath h @ e)"
    if "e \<in> set restorePayloadEntries" for e
    using entry_apart [OF that] by (simp_all add: site_unfold)
  then show "live h v (removed (stagingPath h x) t)" "live h v (partly_removed (stagingPath h x) keep t)"
    "live h v (removed (payloadPath h y) t)" "live h v (partly_removed (payloadPath h y) keep t)"
    using assms by (simp_all add: live_def)
qed

lemma marker_stays [simp]:
  "\<not> prefix (stagingPath h x) (restoreMarkerPath h)" "\<not> prefix (payloadPath h y) (restoreMarkerPath h)"
  by (simp_all add: site_unfold restoreMarkerPath_def)

lemma keeps_missing_ok [keep_intros]: "keeps I m \<Longrightarrow> keeps I (missing_ok msg m)"
  unfolding missing_ok_def by (intro keep_intros)

text \<open>Removing the staging directory and the backup touches neither the live store nor the marker.\<close>

lemma keeps_cleanup:
  assumes "marker_of h x y old new phase rb m"
  shows "keeps (on_tree (\<lambda>t. live h v t \<and> marked h M t)) (cleanupRestoreStaging m)"
    "keeps (on_tree (\<lambda>t. live h v t \<and> marked h M t)) (cleanupCompletedRestore m)"
proof -
  have m: "rmStagingDir m = stagingPath h x" "rmBackupDir m = createRestoreBackupPath h y"
    using assms by (simp_all add: marker_of_def)
  show 1: "keeps (on_tree (\<lambda>t. live h v t \<and> marked h M t)) (cleanupRestoreStaging m)"
    unfolding cleanupRestoreStaging_def m
    by (intro keep_intros conjI) (auto simp: live_stays marked_def)
  show "keeps (on_tree (\<lambda>t. live h v t \<and> marked h M t)) (cleanupCompletedRestore m)"
    unfolding cleanupCompletedRestore_def m
    by (intro keeps_sq 1 keep_intros conjI) (auto simp: live_stays marked_def)
qed

lemma removeRestoreMarker_outcome:
  "outcome (\<lambda>t. live h v t \<and> marked h M t) (removeRestoreMarker h)
    (either (\<lambda>_ t. live h v t \<and> (marked h M t \<or> at t (restoreMarkerPath h) = None))
      (\<lambda>_ t. live h v t \<and> at t (restoreMarkerPath h) = None))" (is "outcome ?J _ (either (\<lambda>_. ?E) (\<lambda>_. ?A))")
  unfolding removeRestoreMarker_def Let_def
proof (rule outcome_sq)
  have gone: "?A (removed (restoreMarkerPath h) t)" if "?J t" for t
    using asideD(5) [OF aside_live, of h v t] that by simp
  show "outcome ?J (missing_ok ''remove restore marker'' (remove_file (restoreMarkerPath h)))
      (either (\<lambda>e. either (\<lambda>_. ?E) (\<lambda>_. ?A) (Inl e)) (\<lambda>_. ?A))"
    unfolding missing_ok_def either_simps
  proof (rule outcome_try)
    show "outcome ?J (remove_file (restoreMarkerPath h)) (either (\<lambda>e t. ?J t \<and> \<not> err_is e ErrNotExist) (\<lambda>_. ?A))"
      by (rule outcome_remove_file) (auto simp: gone marked_def)
  qed (auto intro!: outcome_ret outcome_fail split: if_splits)
  show "outcome ?A (missing_ok ''sync restore marker removal'' (syncDir (butlast (restoreMarkerPath h)))) (either (\<lambda>_. ?E) (\<lambda>_. ?A))"
    by (rule outcome_weaken [OF outcome_keeps_either]) (intro keep_intros, auto simp: either_def split: sum.splits)
qed

text \<open>The final marker, the clean-up and the removal of the marker, around a live store \<open>v\<close>.\<close>

lemma marker_done:
  "marker_of h x y old new phase rb m \<Longrightarrow> \<not> marker_incomplete (m \<lparr> rmPhase := p, rmTimestamp := now \<rparr>) \<Longrightarrow>
     marker_of h x y old new p rb (m \<lparr> rmPhase := p, rmTimestamp := now \<rparr>)"
  "marker_of h x y old new phase rb m \<Longrightarrow> \<not> marker_incomplete (m \<lparr> rmRollbackOnly := True, rmTimestamp := now \<rparr>) \<Longrightarrow>
     marker_of h x y old new phase True (m \<lparr> rmRollbackOnly := True, rmTimestamp := now \<rparr>)"
  by (simp_all add: marker_of_def marker_incomplete_def)

lemma marked_mono: "marked h M t \<Longrightarrow> (\<And>m. M m \<Longrightarrow> M' m) \<Longrightarrow> marked h M' t"
  by (auto simp: marked_def)

lemma cleanup_outcome:
  assumes "marker_of h x y old new phase rb m"
  shows "outcome (\<lambda>t. live h v t \<and> marked h M t) (sq (cleanupCompletedRestore m) (removeRestoreMarker h))
    (either (\<lambda>_ t. live h v t \<and> (marked h M t \<or> at t (restoreMarkerPath h) = None))
      (\<lambda>_ t. live h v t \<and> at t (restoreMarkerPath h) = None))"
  by (rule outcome_sq [OF outcome_weaken [OF outcome_keeps_either [OF keeps_cleanup(2) [OF assms]]] removeRestoreMarker_outcome])
     (auto elim: either_weaken)

lemma finish_outcome:
  assumes "aside h X" and m: "marker_of h x y old new phase rb m"
  shows "outcome (\<lambda>t. (X t \<and> live h v t) \<and> marked h M t) (finishCommittedRestore h m)
    (either (\<lambda>_ t. (X t \<and> live h v t) \<and> marked h M t \<or>
        live h v t \<and> (marked h (marker_of h x y old new restorePhaseDone rb) t \<or> at t (restoreMarkerPath h) = None))
      (\<lambda>_ t. live h v t \<and> at t (restoreMarkerPath h) = None))" (is "outcome ?J _ (either (\<lambda>_. ?E) (\<lambda>_. ?A))")
  unfolding finishCommittedRestore_def Let_def
proof (rule outcome_after_clock, rule outcome_sq)
  fix now
  let ?m = "m \<lparr> rmPhase := restorePhaseDone, rmTimestamp := now \<rparr>"
  let ?D = "marker_of h x y old new restorePhaseDone rb"
  have J: "aside h (\<lambda>t. X t \<and> live h v t)" by (intro aside_conj assms aside_live)
  have D: "marked h ?D t" if "\<not> marker_incomplete ?m" "marked h (\<lambda>m'. m' = ?m) t" for t
    using that marker_done(1) [OF m] by (auto elim: marked_mono)
  show "outcome ?J (writeRestoreMarker h ?m)
      (either (\<lambda>e. either (\<lambda>_. ?E) (\<lambda>_. ?A) (Inl e)) (\<lambda>_ t. \<not> marker_incomplete ?m \<and> live h v t \<and> marked h ?D t))"
    by (rule outcome_weaken [OF writeRestoreMarker_outcome [OF J]]) (auto elim!: either_weaken dest: D)
  have "outcome (\<lambda>t. live h v t \<and> marked h ?D t) (sq (cleanupCompletedRestore ?m) (removeRestoreMarker h)) (either (\<lambda>_. ?E) (\<lambda>_. ?A))"
    if "\<not> marker_incomplete ?m"
    by (rule outcome_weaken [OF cleanup_outcome [OF marker_done(1) [OF m that]]]) (auto elim: either_weaken)
  then show "outcome (\<lambda>t. \<not> marker_incomplete ?m \<and> live h v t \<and> marked h ?D t)
      (sq (cleanupCompletedRestore ?m) (removeRestoreMarker h)) (either (\<lambda>_. ?E) (\<lambda>_. ?A))"
    by (rule outcome_pure)
qed

section \<open>Promoting\<close>

lemma with_slots_conj: "site.with_slots h x y (\<lambda>t. F t \<and> G t) P t \<longleftrightarrow> F t \<and> site.with_slots h x y G P t"
  by (simp add: site.with_slots_def)

lemma stable_marked: "site.stable h x y (marked h M)"
  unfolding marked_def [abs_def]
proof (intro site.stable_ex site.stable_conj site.stable_const site.stable_at)
  fix z e assume "z \<in> {basePath h, stagingPath h x, payloadPath h y}" "e \<in> set restorePayloadEntries"
  then show "\<not> prefix (z @ e) (restoreMarkerPath h)"
    using entry_apart(5) [of e] by (elim insertE emptyE) (simp_all add: site_unfold restoreMarkerPath_def parallel_def)
qed simp

lemma stable_staging: "site.stable h x y (staging_there h x)"
  unfolding staging_there_def [abs_def]
proof (intro site.stable_all site.stable_at)
  fix p assume p: "prefix p (stagingPath h x)"
  have "\<not> prefix (payloadPath h y) (stagingPath h x)" by (simp add: site_unfold)
  with p show "\<not> prefix (payloadPath h y) p" using prefix_order.trans by blast
  fix z e assume ze: "z \<in> {basePath h, stagingPath h x, payloadPath h y}" "e \<in> set restorePayloadEntries"
  have "e \<noteq> []" using ze(2) by (auto simp: restorePayloadEntries_def)
  with ze have "\<not> prefix (z @ e) (stagingPath h x)"
    using entry_apart(1) [of e x "[]"] by (elim insertE emptyE) (simp_all add: site_unfold parallel_def)
  with p show "\<not> prefix (z @ e) p" using prefix_order.trans by blast
qed

lemma stable_home: "site.stable h x y (home_there h)"
  unfolding home_there_def [abs_def]
proof (intro site.stable_all site.stable_at)
  fix p assume p: "prefix p (basePath h @ [''.pc''])"
  have "\<not> prefix (payloadPath h y) (basePath h @ [''.pc''])" by (simp add: site_unfold)
  with p show "\<not> prefix (payloadPath h y) p" using prefix_order.trans by blast
  fix z e assume ze: "z \<in> {basePath h, stagingPath h x, payloadPath h y}" "e \<in> set restorePayloadEntries"
  have "e \<noteq> []" "e \<noteq> [''.pc'']" using ze(2) by (auto simp: restorePayloadEntries_def)
  with ze have "\<not> prefix (z @ e) (basePath h @ [''.pc''])"
    by (elim insertE emptyE) (simp_all add: site_unfold)
  with p show "\<not> prefix (z @ e) p" using prefix_order.trans by blast
qed

lemma live_of_slots:
  assumes "site.with_slots h x y F P t" and "\<And>e s. e \<in> set restorePayloadEntries \<Longrightarrow> P e s \<Longrightarrow> fst s = v e"
  shows "live h v t"
  using assms unfolding live_def site.with_slots_def slot_def by force

abbreviation committing_at where
  "committing_at h x y old new t \<equiv>
    marked h (marker_of h x y old new restorePhaseCommitting False) t \<and> staging_there h x t"

abbreviation rolling_at where
  "rolling_at h x y old new t \<equiv>
    marked h (marker_of h x y old new restorePhaseCommitting True) t \<and> home_there h t"

text \<open>Writing a marker around entries in a state \<open>P\<close>, the rest of the tree in \<open>F\<close>.\<close>

lemma rollback_marker_outcome:
  assumes m: "marker_of h x y old new restorePhaseCommitting b m" and "aside h F" and home: "\<And>t. F t \<Longrightarrow> home_there h t"
  shows "outcome (site.with_slots h x y (\<lambda>t. marked h M t \<and> F t) P)
      (writeRestoreMarker h (m \<lparr> rmRollbackOnly := True, rmTimestamp := now \<rparr>))
    (either (\<lambda>_ t. site.with_slots h x y (\<lambda>t. marked h M t \<and> F t) P t \<or>
        site.with_slots h x y (rolling_at h x y old new) P t)
      (\<lambda>_ t. \<not> marker_incomplete (m \<lparr> rmRollbackOnly := True, rmTimestamp := now \<rparr>) \<and>
        site.with_slots h x y (rolling_at h x y old new) P t))"
proof (rule outcome_conseq)
  let ?m = "m \<lparr> rmRollbackOnly := True, rmTimestamp := now \<rparr>"
  let ?J = "site.with_slots h x y F P"
  show "outcome (\<lambda>t. ?J t \<and> marked h M t) (writeRestoreMarker h ?m)
    (either (\<lambda>_ t. ?J t \<and> (marked h M t \<or> \<not> marker_incomplete ?m \<and> marked h (\<lambda>m'. m' = ?m) t))
      (\<lambda>_ t. ?J t \<and> \<not> marker_incomplete ?m \<and> marked h (\<lambda>m'. m' = ?m) t))"
    by (rule writeRestoreMarker_outcome [OF aside_with_slots [OF assms(2)]])
  have G: "site.with_slots h x y (rolling_at h x y old new) P t"
    if "?J t" "\<not> marker_incomplete ?m" "marked h (\<lambda>m'. m' = ?m) t" for t
    using that marker_done(2) [OF m] home by (auto simp: site.with_slots_def elim: marked_mono)
  fix r t
  assume "either (\<lambda>_ t. ?J t \<and> (marked h M t \<or> \<not> marker_incomplete ?m \<and> marked h (\<lambda>m'. m' = ?m) t))
      (\<lambda>_ t. ?J t \<and> \<not> marker_incomplete ?m \<and> marked h (\<lambda>m'. m' = ?m) t) r t"
  then show "either (\<lambda>_ t. site.with_slots h x y (\<lambda>t. marked h M t \<and> F t) P t \<or>
        site.with_slots h x y (rolling_at h x y old new) P t)
      (\<lambda>_ t. \<not> marker_incomplete ?m \<and>
        site.with_slots h x y (rolling_at h x y old new) P t) r t"
    by (rule either_weaken) (use G in \<open>auto simp: with_slots_conj\<close>)
qed (simp add: with_slots_conj)

lemma records_rollback:
  assumes "marker_of h x y old new restorePhaseCommitting False m"
  shows "site.records h x y (committing_at h x y old new)
    (rolling_at h x y old new) (markRestoreRollbackOnly h m)"
  unfolding site.records_def markRestoreRollbackOnly_def
proof (intro allI outcome_after_clock)
  fix P now
  show "outcome (site.with_slots h x y (committing_at h x y old new) P)
      (writeRestoreMarker h (m \<lparr> rmRollbackOnly := True, rmTimestamp := now \<rparr>))
      (either (\<lambda>_ t. site.with_slots h x y (committing_at h x y old new) P t \<or>
          site.with_slots h x y (rolling_at h x y old new) P t)
        (\<lambda>_. site.with_slots h x y (rolling_at h x y old new) P))"
    by (rule outcome_weaken [OF rollback_marker_outcome [OF assms aside_staging staging_home]]) (auto elim: either_weaken)
qed

lemma recoverable_cases:
  "going_forward h x y old new t \<Longrightarrow> recoverable h x y old new t"
  "going_back h x y old new t \<Longrightarrow> recoverable h x y old new t"
  "all_promoted h x y old new t \<Longrightarrow> recoverable h x y old new t"
  "settled h x y old new t \<Longrightarrow> recoverable h x y old new t"
  "not_begun h x y old new t \<Longrightarrow> recoverable h x y old new t"
  by (simp_all add: recoverable_def)

lemma settledI:
  "live h v t \<Longrightarrow> v = old \<or> v = new \<Longrightarrow>
   marked h (marker_of h x y old new restorePhaseDone rb) t \<or> at t (restoreMarkerPath h) = None \<Longrightarrow>
     settled h x y old new t"
  by (auto simp: settled_def)

lemma finish_promoted_outcome:
  assumes "marker_of h x y old new restorePhaseCommitting False m"
  shows "outcome (all_promoted h x y old new) (finishCommittedRestore h m)
    (either (\<lambda>_. recoverable h x y old new) (\<lambda>_ t. live h new t \<and> at t (restoreMarkerPath h) = None))"
proof (rule outcome_conseq [OF finish_outcome [where v = new, OF aside_with_slots [OF aside_staging] assms]])
  fix t
  show "(site.with_slots h x y (staging_there h x) (\<lambda>e. promoted_slot (new e)) t \<and> live h new t) \<and>
      marked h (marker_of h x y old new restorePhaseCommitting False) t" if "all_promoted h x y old new t"
    using that unfolding all_promoted_def with_slots_conj
    by (auto elim!: live_of_slots simp: promoted_slot_def)
  fix r
  show "either (\<lambda>_. recoverable h x y old new) (\<lambda>_ t. live h new t \<and> at t (restoreMarkerPath h) = None) r t"
    if "either (\<lambda>_ t. (site.with_slots h x y (staging_there h x) (\<lambda>e. promoted_slot (new e)) t \<and> live h new t) \<and>
          marked h (marker_of h x y old new restorePhaseCommitting False) t \<or>
        live h new t \<and> (marked h (marker_of h x y old new restorePhaseDone False) t \<or> at t (restoreMarkerPath h) = None))
      (\<lambda>_ t. live h new t \<and> at t (restoreMarkerPath h) = None) r t"
    using that
    by (rule either_weaken)
       (auto intro: recoverable_cases(4) settledI recoverable_cases(3) simp: all_promoted_def with_slots_conj)
qed

text \<open>The entries of the marker are clean already.\<close>

lemma clean_loop:
  assumes "\<And>e. e \<in> set es \<Longrightarrow> clean_onto [] e = e \<and> e \<noteq> [] \<and> \<not> rooted e \<and> hd e \<noteq> ''..''"
    and "distinct (acc @ es)"
  shows "cleanReplacementEntryLoop acc es = Inr (acc @ es)"
  using assms by (induction es arbitrary: acc) (auto simp: Let_def)

lemma payload_entry_clean:
  "e \<in> set restorePayloadEntries \<Longrightarrow> clean_onto [] e = e \<and> e \<noteq> [] \<and> \<not> rooted e \<and> hd e \<noteq> ''..''"
proof -
  have "list_all (\<lambda>e. clean_onto [] e = e \<and> e \<noteq> [] \<and> \<not> rooted e \<and> hd e \<noteq> ''..'') restorePayloadEntries"
    by code_simp
  then show "e \<in> set restorePayloadEntries \<Longrightarrow> clean_onto [] e = e \<and> e \<noteq> [] \<and> \<not> rooted e \<and> hd e \<noteq> ''..''"
    by (auto simp: list_all_iff)
qed

lemma present_entries:
  "set (present v) \<subseteq> set restorePayloadEntries" "e \<in> set restorePayloadEntries \<Longrightarrow> e \<in> set (present v) \<longleftrightarrow> v e \<noteq> gone"
  "replacementEntrySet (present v) = Inr (present v)" "List.map (clean_onto []) (present v) = present v"
proof -
  have "distinct (present v)" by (simp add: present_def site.distinct_entries)
  then show "replacementEntrySet (present v) = Inr (present v)"
    unfolding replacementEntrySet_def cleanReplacementEntryList_def
    by (subst clean_loop) (auto simp: present_def dest: payload_entry_clean)
  show "List.map (clean_onto []) (present v) = present v"
    by (rule map_idI) (simp add: present_def payload_entry_clean)
qed (auto simp: present_def)

lemma going_back_outcome:
  "outcome (going_back h x y old new)
    (RestoreReplacementBackup (basePath h) (payloadPath h y) restorePayloadEntries (present old))
    (either (\<lambda>_. going_back h x y old new) (\<lambda>_ t. going_back h x y old new t \<and> live h old t))"
proof (rule outcome_conseq [OF site.RestoreReplacementBackup_outcome [where old = old and x = x, OF site.stable_conj [OF stable_marked stable_home] present_entries(3,2)]])
  fix r t
  show "either (\<lambda>_. going_back h x y old new) (\<lambda>_ t. going_back h x y old new t \<and> live h old t) r t"
    if "either (\<lambda>_. site.with_slots h x y (rolling_at h x y old new) (\<lambda>e. back_slot (old e)))
     (\<lambda>_. site.with_slots h x y (rolling_at h x y old new) (\<lambda>e s. fst s = old e \<and> snd (snd s) = gone)) r t"
    using that
    by (rule either_weaken)
       (auto simp: going_back_def back_slot_def intro: live_of_slots elim!: site.with_slots_mono)
qed (simp_all add: going_back_def)

lemma going_forward_outcome:
  "outcome (going_forward h x y old new)
    (CompleteReplacement (basePath h) (stagingPath h x) (payloadPath h y) restorePayloadEntries (present new))
    (either (\<lambda>_. going_forward h x y old new)
      (\<lambda>_ t. all_promoted h x y old new t \<and> going_forward h x y old new t))"
  unfolding going_forward_def
  by (rule outcome_weaken [OF site.CompleteReplacement_outcome [OF site.stable_conj [OF stable_marked stable_staging]]])
     (auto simp: present_entries all_promoted_def promoted_slot_def forward_slot_def elim!: either_weaken site.with_slots_mono)

lemma promoted_outcome:
  "outcome (all_promoted h x y old new)
    (CompleteReplacement (basePath h) (stagingPath h x) (payloadPath h y) restorePayloadEntries (present new))
    (\<lambda>_. all_promoted h x y old new)"
  unfolding all_promoted_def
  by (rule site.CompleteReplacement_promoted) (simp add: present_entries)

text \<open>Aborting a failed promotion in the same process.\<close>

lemma abort_outcome:
  assumes m: "marker_of h x y old new restorePhaseCommitting False m"
  shows "outcome (\<lambda>t. going_forward h x y old new t \<or> going_back h x y old new t) (abortFailedRestorePromotion h m)
    (either (\<lambda>_. recoverable h x y old new) (\<lambda>_ t. live h old t \<and> at t (restoreMarkerPath h) = None))"
    (is "outcome _ _ (either (\<lambda>_. ?R) (\<lambda>_. ?A))")
  unfolding abortFailedRestorePromotion_def Let_def
proof (rule outcome_after_clock, rule outcome_sq [OF outcome_or])
  fix now
  let ?m = "m \<lparr> rmRollbackOnly := True, rmTimestamp := now \<rparr>"
  let ?B = "\<lambda>t. \<not> marker_incomplete ?m \<and> going_back h x y old new t"
  show "outcome (going_forward h x y old new) (writeRestoreMarker h ?m) (either (\<lambda>e. either (\<lambda>_. ?R) (\<lambda>_. ?A) (Inl e)) (\<lambda>_. ?B))"
    unfolding going_forward_def
    by (rule outcome_weaken [OF rollback_marker_outcome [OF m aside_staging staging_home]])
       (auto simp: going_forward_def going_back_def recoverable_def elim!: either_weaken
         intro: site.with_slots_mono forward_is_back)
  have "outcome (site.with_slots h x y (rolling_at h x y old new) (\<lambda>e. back_slot (old e)))
      (writeRestoreMarker h ?m) (either (\<lambda>_. ?R) (\<lambda>_. ?B))"
    by (rule outcome_weaken [OF rollback_marker_outcome [OF m aside_home]])
       (auto simp: going_back_def recoverable_def elim!: either_weaken)
  then show "outcome (going_back h x y old new) (writeRestoreMarker h ?m) (either (\<lambda>e. either (\<lambda>_. ?R) (\<lambda>_. ?A) (Inl e)) (\<lambda>_. ?B))"
    by (simp add: going_back_def [abs_def])
  have "outcome (going_back h x y old new)
      (sq (wrap ''roll back failed restore promotion''
            (RestoreReplacementBackup (basePath h) (restorePayloadBackupDir (rmBackupDir ?m))
              restorePayloadEntries (originals_of ?m)))
          (finishCommittedRestore h ?m)) (either (\<lambda>_. ?R) (\<lambda>_. ?A))" if "\<not> marker_incomplete ?m"
  proof (rule outcome_sq [OF outcome_wrap])
    have f: "rmBackupDir ?m = createRestoreBackupPath h y" "originals_of ?m = present old"
      using m by (simp_all add: marker_of_def originals_of_def)
    show "outcome (going_back h x y old new)
        (RestoreReplacementBackup (basePath h) (restorePayloadBackupDir (rmBackupDir ?m)) restorePayloadEntries (originals_of ?m))
        (either (\<lambda>e. either (\<lambda>e. either (\<lambda>_. ?R) (\<lambda>_. ?A) (Inl e)) (\<lambda>_ t. going_back h x y old new t \<and> live h old t)
             (Inl (Wrapped ''roll back failed restore promotion'' e)))
          (\<lambda>a. either (\<lambda>e. either (\<lambda>_. ?R) (\<lambda>_. ?A) (Inl e)) (\<lambda>_ t. going_back h x y old new t \<and> live h old t) (Inr a)))"
      unfolding f by (rule outcome_weaken [OF going_back_outcome]) (auto elim!: either_weaken simp: recoverable_def)
    let ?X = "site.with_slots h x y (home_there h) (\<lambda>e. back_slot (old e))"
    have gb: "going_back h x y old new t \<longleftrightarrow> ?X t \<and> marked h (marker_of h x y old new restorePhaseCommitting True) t" for t
      by (auto simp: going_back_def site.with_slots_def)
    have "aside h ?X" by (rule aside_with_slots [OF aside_home])
    from finish_outcome [OF this marker_done(2) [OF m that], where v = old]
    show "outcome (\<lambda>t. going_back h x y old new t \<and> live h old t) (finishCommittedRestore h ?m) (either (\<lambda>_. ?R) (\<lambda>_. ?A))"
      by (rule outcome_conseq) (auto simp: gb elim!: either_weaken intro: recoverable_cases(2,4) settledI)
  qed
  then show "outcome ?B
      (sq (wrap ''roll back failed restore promotion''
            (RestoreReplacementBackup (basePath h) (restorePayloadBackupDir (rmBackupDir ?m))
              restorePayloadEntries (originals_of ?m)))
          (finishCommittedRestore h ?m)) (either (\<lambda>_. ?R) (\<lambda>_. ?A))"
    by (rule outcome_pure)
qed

text \<open>The whole promotion.\<close>

definition staged_store where
  "staged_store h x y old new t \<longleftrightarrow>
    site.with_slots h x y (\<lambda>t. marked h (marker_of h x y old new restorePhaseStaging False) t \<and> staging_there h x t)
      (\<lambda>e s. s = (old e, new e, gone)) t"

lemma staged_not_begun: "staged_store h x y old new t \<Longrightarrow> not_begun h x y old new t"
  unfolding staged_store_def not_begun_def with_slots_conj by (auto intro: live_of_slots)

lemma settle_outcome:
  assumes m: "marker_of h x y old new restorePhaseCommitting False m"
  shows "outcome (\<lambda>t. case result of
        ReplacementError _ \<Rightarrow> site.unfinished h x y (committing_at h x y old new)
          (rolling_at h x y old new) old new t
      | _ \<Rightarrow> all_promoted h x y old new t) (settleReplacement h m result)
    (either (\<lambda>_. recoverable h x y old new) (\<lambda>_ t. live h new t \<and> at t (restoreMarkerPath h) = None))"
    (is "outcome _ _ (either (\<lambda>_. ?R) (\<lambda>_. ?A))")
proof -
  note fin = finish_promoted_outcome [OF m]
  have A_rec: "?R t" if "live h v t \<and> at t (restoreMarkerPath h) = None" "v = old \<or> v = new" for t v
    using that by (auto intro: recoverable_cases(4) settledI)
  have fail_rec: "outcome ?R (fail e) (either (\<lambda>_. ?R) (\<lambda>_. ?A))" for e by (rule outcome_fail) simp
  show ?thesis
  proof (cases result)
    case Replaced
    then show ?thesis using fin by (simp add: settleReplacement_def)
  next
    case (CommittedReplacementCleanupError e)
    have "outcome (all_promoted h x y old new) (finishCommittedRestore h m) (either (\<lambda>_. ?R) (\<lambda>_. ?R))"
      by (rule outcome_weaken [OF fin]) (auto elim!: either_weaken intro: A_rec)
    then show ?thesis
      unfolding settleReplacement_def CommittedReplacementCleanupError replacement_result.case
      by (rule outcome_try) (simp_all add: fail_rec)
  next
    case (ReplacementError e)
    have "outcome (site.unfinished h x y (committing_at h x y old new)
        (rolling_at h x y old new) old new)
      (abortFailedRestorePromotion h m) (either (\<lambda>_. ?R) (\<lambda>_. ?R))"
      by (rule outcome_conseq [OF abort_outcome [OF m]])
         (auto simp: site.unfinished_def going_forward_def going_back_def elim!: either_weaken intro: A_rec)
    then show ?thesis
      unfolding settleReplacement_def ReplacementError replacement_result.case
      by (rule outcome_try) (simp_all add: fail_rec)
  qed
qed

lemma promote_outcome:
  assumes m0: "marker_of h x y old new restorePhaseStaging False m0"
  shows "outcome (staged_store h x y old new) (promoteStagedStore h m0)
    (either (\<lambda>_. recoverable h x y old new) (\<lambda>_ t. live h new t \<and> at t (restoreMarkerPath h) = None))"
    (is "outcome _ _ (either (\<lambda>_. ?R) (\<lambda>_. ?A))")
  unfolding promoteStagedStore_def Let_def
proof (rule outcome_after_clock, rule outcome_sq)
  fix now
  let ?m = "m0 \<lparr> rmPhase := restorePhaseCommitting, rmTimestamp := now \<rparr>"
  let ?F = "committing_at h x y old new"
  let ?G = "rolling_at h x y old new"
  let ?J = "site.with_slots h x y (staging_there h x) (\<lambda>e s. s = (old e, new e, gone))"
  let ?S = "\<lambda>t. \<not> marker_incomplete ?m \<and> site.with_slots h x y ?F (\<lambda>e s. s = (old e, new e, gone)) t"
  have S: "?S t" if "?J t" "\<not> marker_incomplete ?m" "marked h (\<lambda>m'. m' = ?m) t" for t
    using that marker_done(1) [OF m0] by (auto simp: with_slots_conj elim: marked_mono)
  have S_rec: "?R t" if "?S t" for t
  proof (rule recoverable_cases(1))
    show "going_forward h x y old new t"
      using that unfolding going_forward_def by (auto simp: forward_slot_def elim!: site.with_slots_mono)
  qed
  show "outcome (staged_store h x y old new) (writeRestoreMarker h ?m) (either (\<lambda>e. either (\<lambda>_. ?R) (\<lambda>_. ?A) (Inl e)) (\<lambda>_. ?S))"
  proof (rule outcome_conseq [OF writeRestoreMarker_outcome [OF aside_with_slots [OF aside_staging]]])
    fix r t
    show "either (\<lambda>e. either (\<lambda>_. ?R) (\<lambda>_. ?A) (Inl e)) (\<lambda>_. ?S) r t"
      if "either (\<lambda>_ t. ?J t \<and> (marked h (marker_of h x y old new restorePhaseStaging False) t \<or>
            \<not> marker_incomplete ?m \<and> marked h (\<lambda>m'. m' = ?m) t))
          (\<lambda>_ t. ?J t \<and> \<not> marker_incomplete ?m \<and> marked h (\<lambda>m'. m' = ?m) t) r t"
      using that
    proof (rule either_weaken)
      assume J: "?J t \<and> (marked h (marker_of h x y old new restorePhaseStaging False) t \<or>
            \<not> marker_incomplete ?m \<and> marked h (\<lambda>m'. m' = ?m) t)"
      have "?R t" if "?J t" "marked h (marker_of h x y old new restorePhaseStaging False) t"
        by (rule recoverable_cases(5) [OF staged_not_begun]) (use that in \<open>simp add: staged_store_def with_slots_conj\<close>)
      with J show "either (\<lambda>_. ?R) (\<lambda>_. ?A) (Inl e) t" for e
        using S S_rec unfolding either_simps by blast
    qed (use S in blast)
  qed (simp add: staged_store_def with_slots_conj)
  have st: "site.stable h x y ?F" "site.stable h x y ?G"
    by (intro site.stable_conj stable_marked stable_staging stable_home)+
  have "outcome (site.with_slots h x y ?F (\<lambda>e s. s = (old e, new e, gone)))
      (bnd (replaceContents (basePath h) (rmStagingDir ?m) restorePayloadEntries
                (Some (restorePayloadBackupDir (rmBackupDir ?m))) (Some (markRestoreRollbackOnly h ?m)))
        (settleReplacement h ?m))
      (either (\<lambda>_. ?R) (\<lambda>_. ?A))" if "\<not> marker_incomplete ?m"
  proof -
    have m: "marker_of h x y old new restorePhaseCommitting False ?m" by (rule marker_done(1) [OF m0 that])
    then have f: "rmStagingDir ?m = stagingPath h x" "rmBackupDir ?m = createRestoreBackupPath h y"
      by (simp_all add: marker_of_def)
    show ?thesis
      unfolding f
      by (rule outcome_bnd_sure [OF site.replaceContents_outcome [OF st records_rollback [OF m]]
            settle_outcome [OF m, unfolded all_promoted_def]])
  qed
  then show "outcome ?S
      (bnd (replaceContents (basePath h) (rmStagingDir ?m) restorePayloadEntries
                (Some (restorePayloadBackupDir (rmBackupDir ?m))) (Some (markRestoreRollbackOnly h ?m)))
        (settleReplacement h ?m))
      (either (\<lambda>_. ?R) (\<lambda>_. ?A))"
    by (rule outcome_pure)
qed

end
