(* ===== verification/Restore_Recovery.thy ===== *)
theory Restore_Recovery
  imports Restore_Safe
begin

text \<open>The recovery of an interrupted restore, on a disk that loses no single call but may be cut off at
  any point: it ends, when it returns, in the old store or the new one.\<close>

section \<open>A disk that is cut off\<close>

text \<open>Every program keeps the environment; after the cut nothing changes any more.\<close>

definition env :: "(nat \<Rightarrow> (string \<times> (path \<Rightarrow> bool)) option) \<Rightarrow> 'c Disk \<Rightarrow> bool" where
  "env F d \<longleftrightarrow> dkFault d = F"

definition dead :: "'c Disk \<Rightarrow> bool" where
  "dead d \<longleftrightarrow> (case dkCrash d of None \<Rightarrow> False | Some n \<Rightarrow> n \<le> dkTick d)"

definition cut_off :: "'c tree \<Rightarrow> 'c Disk \<Rightarrow> bool" where
  "cut_off T d \<longleftrightarrow> dead d \<and> dkTree d = T"

text \<open>What the calls of a replacement keep.\<close>

definition io_inv :: "('c Disk \<Rightarrow> bool) \<Rightarrow> bool" where
  "io_inv I \<longleftrightarrow> (\<forall>p. keeps I (lstat p)) \<and> keeps I disk_plain \<and> (\<forall>p. keeps I (mkdir_all p)) \<and>
     (\<forall>a b. keeps I (rename_file a b)) \<and> (\<forall>p. keeps I (remove_all p))"

lemma keeps_call_env: "keeps (env F) (disk_call partial effect)"
  by (rule keepsI) (auto simp: env_def disk_call_def Let_def split: option.splits prod.splits sum.splits)

lemma keeps_call_cut: "keeps (cut_off T) (disk_call partial effect)"
  by (rule keepsI) (auto simp: cut_off_def dead_def disk_call_def Let_def split: option.splits prod.splits sum.splits)

lemma io_inv_env: "io_inv (env F)" and io_inv_cut: "io_inv (cut_off T)"
  unfolding io_inv_def lstat_def disk_plain_def disk_read_def mkdir_all_def rename_file_def remove_all_def
  by (auto intro: keeps_call_env keeps_call_cut)

lemma io_inv_calls [keep_intros]:
  assumes "io_inv I"
  shows "keeps I (lstat p)" "keeps I disk_plain" "keeps I (mkdir_all p)" "keeps I (rename_file a b)" "keeps I (remove_all p)"
  using assms by (simp_all add: io_inv_def)

lemma io_inv_syncDir [keep_intros]: "io_inv I \<Longrightarrow> keeps I (syncDir p)"
  unfolding syncDir_def by (intro keep_intros)

lemma io_inv_pathExists [keep_intros]: "io_inv I \<Longrightarrow> keeps I (pathExists p)"
  unfolding pathExists_def by (intro keep_intros)

lemma io_inv_missing_parents [keep_intros]: "io_inv I \<Longrightarrow> keeps I (missing_parents dir missing)"
proof (induction dir missing rule: missing_parents.induct)
  case (1 dir missing)
  have "keeps I (case r of
        Inr _ \<Rightarrow> ret missing
      | Inl e \<Rightarrow>
          if \<not> err_is e ErrNotExist then fail e
          else if dir = [] then ret (missing @ [dir])
          else missing_parents (butlast dir) (missing @ [dir]))" for r :: "error + 'a node"
    using 1 by (cases r) (auto intro: keep_intros)
  then show ?case
    by (subst missing_parents.simps) (intro keeps_bnd keeps_attempt io_inv_calls [OF 1(2)])
qed

lemma io_inv_ensureReplacementParent [keep_intros]: "io_inv I \<Longrightarrow> keeps I (ensureReplacementParent p)"
  unfolding ensureReplacementParent_def Let_def by (intro keep_intros)

lemma io_inv_syncReplacementDirs [keep_intros]: "io_inv I \<Longrightarrow> keeps I (syncReplacementDirs root touched)"
  unfolding syncReplacementDirs_def by (intro keep_intros)

lemma io_inv_promote_rest [keep_intros]: "io_inv I \<Longrightarrow> keeps I (promote_rest root staging e b touched)"
  unfolding promote_rest_def by (intro keep_intros)

lemma io_inv_CompleteReplacement [keep_intros]: "io_inv I \<Longrightarrow> keeps I (CompleteReplacement root staging backup entries staged)"
  unfolding CompleteReplacement_def complete_entry_def Let_def by (intro keep_intros)

lemma io_inv_RestoreReplacementBackup [keep_intros]:
  "io_inv I \<Longrightarrow> keeps I (RestoreReplacementBackup root backup entries originals)"
  unfolding RestoreReplacementBackup_def restore_entry_def Let_def by (intro keep_intros)

text \<open>Reading a disk without faults.\<close>

lemma lstat_run:
  assumes "env (\<lambda>_. None) d"
  shows "lstat p d = (if dead d then Inl (IOError ''crash'') else look (dkTree d) p, d \<lparr> dkTick := Suc (dkTick d) \<rparr>)"
  using assms by (auto simp: env_def dead_def lstat_def disk_read_def disk_call_def Let_def split: option.splits sum.splits)

lemma read_file_run:
  assumes "env (\<lambda>_. None) d"
  shows "read_file p d = (if dead d then Inl (IOError ''crash'')
      else case look (dkTree d) p of
        Inl e \<Rightarrow> Inl e | Inr Dir \<Rightarrow> Inl (Plain ''is a directory'') | Inr (File c) \<Rightarrow> Inr c, d \<lparr> dkTick := Suc (dkTick d) \<rparr>)"
  using assms by (auto simp: env_def dead_def read_file_def disk_read_def disk_call_def Let_def split: option.splits sum.splits node.splits)

lemma tick_simps [simp]:
  "env F (d \<lparr> dkTick := n \<rparr>) = env F d" "dead d \<Longrightarrow> dead (d \<lparr> dkTick := Suc (dkTick d) \<rparr>)"
  by (auto simp: env_def dead_def split: option.splits)

lemma env_after: "keeps (env F) m \<Longrightarrow> env F d \<Longrightarrow> env F (snd (m d))"
  by (rule keepsD)

lemma dead_lstat: "dead d \<Longrightarrow> lstat p d = (Inl (IOError ''crash''), d \<lparr> dkTick := Suc (dkTick d) \<rparr>)"
  by (auto simp: dead_def lstat_def disk_read_def disk_call_def Let_def split: option.splits)

text \<open>After the cut a roll-back does nothing and fails.\<close>

lemma dead_restore:
  assumes "dead d"
  shows "case restoreFromBackup h m originals d of (r, d') \<Rightarrow> r \<noteq> Inr () \<and> dkTree d' = dkTree d"
proof -
  have "\<exists>e d'. RestoreReplacementBackup (basePath h) (payload) restorePayloadEntries originals d = (Inl e, d')" for payload
  proof (cases "replacementEntrySet originals")
    case (Inl e)
    then show ?thesis
      by (simp add: RestoreReplacementBackup_def clean_restorePayloadEntries bnd_def lift_result_def)
  next
    case (Inr os)
    obtain x xs where rev: "rev restorePayloadEntries = x # xs" by (simp add: restorePayloadEntries_def)
    show ?thesis
      using assms
      by (simp add: RestoreReplacementBackup_def clean_restorePayloadEntries Inr rev restore_entry_def pathExists_def
          bnd_def lift_result_def wrap_def attempt_def dead_lstat fail_def)
  qed
  then obtain e d' where run: "RestoreReplacementBackup (basePath h) (restorePayloadBackupDir (rmBackupDir m))
      restorePayloadEntries originals d = (Inl e, d')" by blast
  have "cut_off (dkTree d) (snd (RestoreReplacementBackup (basePath h) (restorePayloadBackupDir (rmBackupDir m))
      restorePayloadEntries originals d))"
    by (rule keepsD [OF io_inv_RestoreReplacementBackup [OF io_inv_cut]]) (simp add: cut_off_def assms)
  with run show ?thesis by (simp add: restoreFromBackup_def Let_def sq_def bnd_def wrap_def cut_off_def)
qed

section \<open>Recovering in the committing phase\<close>

text \<open>A store that has its database.\<close>

definition has_database :: "(path \<Rightarrow> path \<Rightarrow> doc node option) \<Rightarrow> bool" where
  "has_database v \<longleftrightarrow> (\<exists>c. v [''.pc'', ''pc.db''] [] = Some (File c))"

lemma look_clear:
  assumes "\<And>q. strict_prefix q p \<Longrightarrow> \<not> is_file_at t q"
  shows "look t p = (case at t p of None \<Rightarrow> Inl ErrNotExist | Some n \<Rightarrow> Inr n)"
proof -
  have "strict_prefix (take n p) p" if "n < length p" for n
    using that by (metis append_take_drop_id drop_eq_Nil leD prefixI strict_prefix_def append_self_conv)
  with assms show ?thesis by (simp add: look_def below_file_def list_ex_iff)
qed

lemma look_there:
  assumes "home_there h t"
  shows "look t (basePath h @ [''.pc'', e]) =
    (case at t (basePath h @ [''.pc'', e]) of None \<Rightarrow> Inl ErrNotExist | Some n \<Rightarrow> Inr n)"
proof (rule look_clear)
  fix q assume q: "strict_prefix q (basePath h @ [''.pc'', e])"
  have "basePath h @ [''.pc'', e] = (basePath h @ [''.pc'']) @ [e]" by simp
  with q have "prefix q (basePath h @ [''.pc''])" unfolding strict_prefix_def by (metis prefix_snoc)
  with assms have "at t q = Some Dir" unfolding home_there_def by blast
  then show "\<not> is_file_at t q" by (simp add: is_file_at_def)
qed

lemma live_database_run:
  assumes "env (\<lambda>_. None) d" "home_there h (dkTree d)" "live h v (dkTree d)" "has_database v"
  shows "liveDatabaseExists (basePath h) d = (Inr (\<not> dead d), d \<lparr> dkTick := Suc (dkTick d) \<rparr>)"
proof -
  have "[''.pc'', ''pc.db''] \<in> set restorePayloadEntries" by (simp add: restorePayloadEntries_def)
  then have "view (dkTree d) (basePath h @ [''.pc'', ''pc.db'']) = v [''.pc'', ''pc.db'']"
    using assms(3) by (simp add: live_def)
  then obtain c where "at (dkTree d) (basePath h @ [''.pc'', ''pc.db'']) = Some (File c)"
    using assms(4) by (auto simp: has_database_def simp flip: view_root)
  then show ?thesis
    using assms(1,2)
    by (simp add: liveDatabaseExists_def bnd_def attempt_def ret_def lstat_run look_there)
qed

lemma look_staging: "staging_there h x t \<Longrightarrow> look t (stagingPath h x) = Inr Dir"
proof -
  assume there: "staging_there h x t"
  then have "\<not> is_file_at t (take n (stagingPath h x))" for n
    by (auto simp: staging_there_def is_file_at_def take_is_prefix)
  with there show ?thesis by (simp add: look_def below_file_def list_ex_iff staging_there_def)
qed

lemma complete_outcome:
  "outcome (\<lambda>t. going_forward h x y old new t \<or> all_promoted h x y old new t)
    (CompleteReplacement (basePath h) (stagingPath h x) (payloadPath h y) restorePayloadEntries (present new))
    (either (\<lambda>_. recoverable h x y old new) (\<lambda>_. all_promoted h x y old new))"
  by (rule outcome_or; rule outcome_weaken [OF going_forward_outcome] outcome_weaken [OF promoted_outcome])
     (auto elim!: either_weaken intro: recoverable_cases simp: either_def split: sum.splits)

lemma committing_there:
  assumes "going_forward h x y old new t \<or> all_promoted h x y old new t"
  shows "staging_there h x t" "home_there h t"
proof -
  show "staging_there h x t"
    using assms by (auto simp: going_forward_def all_promoted_def with_slots_conj site.with_slots_def)
  then show "home_there h t" by (rule staging_home)
qed

lemma restorePathExists_run:
  "env (\<lambda>_. None) d \<Longrightarrow> \<exists>b. restorePathExists p d = (Inr b, d \<lparr> dkTick := Suc (dkTick d) \<rparr>)"
  by (simp add: restorePathExists_def bnd_def attempt_def ret_def lstat_run)

text \<open>Rolling forward: the process is cut off, or everything is promoted.\<close>

lemma rollForward_run:
  assumes e: "env (\<lambda>_. None) d" and "has_database new" and m: "marker_of h x y old new restorePhaseCommitting False m"
    and st: "going_forward h x y old new (dkTree d) \<or> all_promoted h x y old new (dkTree d)"
  shows "case rollForward h m (present new) d of (r, d') \<Rightarrow> env (\<lambda>_. None) d' \<and> recoverable h x y old new (dkTree d') \<and>
    (case r of Inl _ \<Rightarrow> True | Inr b \<Rightarrow> all_promoted h x y old new (dkTree d') \<and> (\<not> b \<longrightarrow> dead d'))"
proof -
  have f: "rmStagingDir m = stagingPath h x" "rmBackupDir m = createRestoreBackupPath h y"
    using m by (simp_all add: marker_of_def)
  obtain r d' where run: "CompleteReplacement (basePath h) (stagingPath h x) (payloadPath h y) restorePayloadEntries
      (present new) d = (r, d')" by (metis prod.exhaust)
  have K: "either (\<lambda>_. recoverable h x y old new) (\<lambda>_. all_promoted h x y old new) r (dkTree d')"
    using outcomeD [OF complete_outcome run st] .
  have e': "env (\<lambda>_. None) d'"
    using keepsD [OF io_inv_CompleteReplacement [OF io_inv_env] e] run by (metis snd_conv)
  show ?thesis
  proof (cases r)
    case (Inl err)
    then show ?thesis using K e' by (simp add: rollForward_def Let_def sq_def bnd_def wrap_def f run)
  next
    case (Inr a)
    then have p: "all_promoted h x y old new (dkTree d')" using K by simp
    then have "live h new (dkTree d')" unfolding all_promoted_def by (auto intro: live_of_slots simp: promoted_slot_def)
    from live_database_run [OF e' committing_there(2) [OF disjI2 [OF p]] this assms(2)]
    have "rollForward h m (present new) d = (Inr (\<not> dead d'), d' \<lparr> dkTick := Suc (dkTick d') \<rparr>)"
      by (simp add: rollForward_def Let_def sq_def bnd_def wrap_def f run Inr)
    then show ?thesis using p e' by (simp add: recoverable_cases)
  qed
qed

lemma recover_forward:
  assumes e: "env (\<lambda>_. None) d" and "has_database new" and m: "marker_of h x y old new restorePhaseCommitting False m"
    and st: "going_forward h x y old new (dkTree d) \<or> all_promoted h x y old new (dkTree d)"
  shows "case recoverCommittingRestore h m d of (r, d') \<Rightarrow> recoverable h x y old new (dkTree d') \<and>
    (case r of Inl _ \<Rightarrow> True | Inr _ \<Rightarrow> live h new (dkTree d') \<and>
       marked h (marker_of h x y old new restorePhaseCommitting False) (dkTree d'))" (is "case _ of (r, d') \<Rightarrow> ?G r d'")
proof -
  have f: "rmStagingDir m = stagingPath h x" "rmBackupDir m = createRestoreBackupPath h y" "\<not> rmRollbackOnly m"
    "rmStagedEntries m = Some (present new)" "rmOriginalEntries m = Some (present old)"
    using m by (simp_all add: marker_of_def)
  have rec: "recoverable h x y old new (dkTree d)" using st recoverable_cases by blast
  let ?d1 = "d \<lparr> dkTick := Suc (dkTick d) \<rparr>"
  have e1: "env (\<lambda>_. None) ?d1" using e by simp
  obtain b where b: "restorePathExists (payloadPath h y) ?d1 = (Inr b, ?d1 \<lparr> dkTick := Suc (dkTick ?d1) \<rparr>)"
    using restorePathExists_run [OF e1] by blast
  let ?d2 = "?d1 \<lparr> dkTick := Suc (dkTick ?d1) \<rparr>"
  show ?thesis
  proof (cases "dead d")
    case True
    then have dead: "dead ?d2" by (simp add: dead_def split: option.splits)
    have "recoverCommittingRestore h m d = restoreFromBackup h m (present old) ?d2"
      using b True by (simp add: recoverCommittingRestore_def Let_def f bnd_def attempt_def ret_def dead_lstat)
    then show ?thesis using dead_restore [OF dead, of h m "present old"] rec by (auto split: prod.splits sum.splits)
  next
    case False
    have "look (dkTree d) (stagingPath h x) = Inr Dir" by (rule look_staging [OF committing_there(1) [OF st]])
    then have run: "recoverCommittingRestore h m d =
        bnd (rollForward h m (present new)) (\<lambda>live. if live then ret () else restoreFromBackup h m (present old)) ?d2"
      using b False by (simp add: recoverCommittingRestore_def Let_def f bnd_def attempt_def lstat_run [OF e])
    obtain r d' where fwd: "rollForward h m (present new) ?d2 = (r, d')" by (metis prod.exhaust)
    have K: "recoverable h x y old new (dkTree d') \<and>
        (case r of Inl _ \<Rightarrow> True | Inr b \<Rightarrow> all_promoted h x y old new (dkTree d') \<and> (\<not> b \<longrightarrow> dead d'))"
      using rollForward_run [OF _ assms(2) m, of ?d2] st e fwd by simp
    have live: "live h new t \<and> marked h (marker_of h x y old new restorePhaseCommitting False) t" if "all_promoted h x y old new t" for t
      using that unfolding all_promoted_def with_slots_conj by (auto intro: live_of_slots simp: promoted_slot_def site.with_slots_def)
    show ?thesis
      unfolding run
      using fwd K dead_restore [of d' h m "present old"] live
      by (cases r) (auto simp: bnd_def ret_def split: prod.splits sum.splits if_splits)
  qed
qed

lemma restoreFromBackup_outcome:
  assumes "marker_of h x y old new phase rb m"
  shows "outcome (going_back h x y old new) (restoreFromBackup h m (present old))
    (either (\<lambda>_. recoverable h x y old new) (\<lambda>_ t. going_back h x y old new t \<and> live h old t))"
    (is "outcome _ _ (either (\<lambda>_. ?R) (\<lambda>_. ?A))")
proof -
  have f: "rmBackupDir m = createRestoreBackupPath h y" using assms by (simp add: marker_of_def)
  have keep: "keeps (on_tree ?A) (liveDatabaseExists (basePath h))"
    unfolding liveDatabaseExists_def by (intro keep_intros)
  show ?thesis
    unfolding restoreFromBackup_def Let_def f
  proof (rule outcome_sq [OF outcome_wrap [OF outcome_weaken [OF going_back_outcome]]])
    show "outcome ?A (bnd (liveDatabaseExists (basePath h)) (\<lambda>live. if live then ret () else fail (Plain ''restored database is missing'')))
        (either (\<lambda>_. ?R) (\<lambda>_. ?A))"
      by (rule outcome_bnd_keeps [OF keep]) (auto intro: recoverable_cases intro!: outcome_ret outcome_fail)
  qed (auto elim!: either_weaken intro: recoverable_cases)
qed

lemma recover_back:
  assumes m: "marker_of h x y old new restorePhaseCommitting True m"
  shows "outcome (going_back h x y old new) (recoverCommittingRestore h m)
    (either (\<lambda>_. recoverable h x y old new) (\<lambda>_ t. live h old t \<and>
       marked h (marker_of h x y old new restorePhaseCommitting True) t))"
proof -
  have "recoverCommittingRestore h m = restoreFromBackup h m (present old)"
    using m by (simp add: recoverCommittingRestore_def marker_of_def Let_def)
  then show ?thesis
    by (simp only:, intro outcome_weaken [OF restoreFromBackup_outcome [OF m]])
       (auto simp: going_back_def site.with_slots_def elim!: either_weaken)
qed

section \<open>The whole recovery\<close>

lemma readRestoreMarker_run:
  assumes "env (\<lambda>_. None) d"
  shows "case readRestoreMarker h d of (r, d') \<Rightarrow> d' = d \<lparr> dkTick := Suc (dkTick d) \<rparr> \<and>
    (case r of
       Inl _ \<Rightarrow> True
     | Inr None \<Rightarrow> at (dkTree d) (restoreMarkerPath h) = None \<or> \<not> home_there h (dkTree d)
     | Inr (Some m) \<Rightarrow> at (dkTree d) (restoreMarkerPath h) = Some (File (MarkerJSON m)))"
proof -
  have "look (dkTree d) (restoreMarkerPath h) = (case at (dkTree d) (restoreMarkerPath h) of None \<Rightarrow> Inl ErrNotExist | Some n \<Rightarrow> Inr n)"
    if "home_there h (dkTree d)"
    using look_there [OF that] by (simp add: restoreMarkerPath_def)
  then show ?thesis
    using assms
    by (auto simp: readRestoreMarker_def bnd_def attempt_def ret_def fail_def read_file_run look_def errNotDir_def
        split: sum.splits option.splits node.splits doc.splits if_splits prod.splits)
qed

lemma recoverable_live:
  assumes "recoverable h x y old new t" "at t (restoreMarkerPath h) = None \<or> \<not> home_there h t"
  shows "live h old t \<or> live h new t"
proof -
  have "marked h (\<lambda>_. True) t \<and> home_there h t" if "going_forward h x y old new t \<or> all_promoted h x y old new t \<or> going_back h x y old new t"
    using that
    by (auto simp: going_forward_def all_promoted_def going_back_def with_slots_conj site.with_slots_def
        elim: marked_mono intro: staging_home)
  then show ?thesis
    using assms by (auto simp: recoverable_def not_begun_def settled_def marked_def)
qed

lemma recoverable_marked:
  assumes "recoverable h x y old new t" "at t (restoreMarkerPath h) = Some (File (MarkerJSON m))"
  obtains "marker_of h x y old new restorePhaseStaging False m" "live h old t"
  | "marker_of h x y old new restorePhaseCommitting False m" "going_forward h x y old new t \<or> all_promoted h x y old new t"
  | "marker_of h x y old new restorePhaseCommitting True m" "going_back h x y old new t"
  | rb v where "marker_of h x y old new restorePhaseDone rb m" "live h v t" "v = old \<or> v = new"
proof -
  have mk: "marked h M t \<longleftrightarrow> M m" for M using assms(2) by (simp add: marked_def)
  show ?thesis
    using assms(1) that
    unfolding recoverable_def not_begun_def settled_def
    by (elim disjE conjE)
       (auto simp: mk assms(2) going_forward_def all_promoted_def going_back_def with_slots_conj site.with_slots_def)
qed

text \<open>Recovering on a disk without single faults that may be cut off: when it returns, the live store is the
  old or the new one; when it does not, the store is complete or can still be recovered.\<close>

lemma recover_run:
  assumes e: "env (\<lambda>_. None) d" and db: "has_database new" and rec: "recoverable h x y old new (dkTree d)"
  shows "case recoverInterruptedRestore h d of (r, d') \<Rightarrow>
    (live h old (dkTree d') \<or> live h new (dkTree d')) \<or> r \<noteq> Inr () \<and> recoverable h x y old new (dkTree d')"
proof -
  obtain r d1 where read: "readRestoreMarker h d = (r, d1)" by (metis prod.exhaust)
  note R = readRestoreMarker_run [OF e, of h, unfolded read prod.case]
  then have d1: "dkTree d1 = dkTree d" "env (\<lambda>_. None) d1" using e by simp_all
  have keep_live: "case sq n (removeRestoreMarker h) d2 of (r, d') \<Rightarrow> live h v (dkTree d')"
    if "keeps (on_tree (\<lambda>t. live h v t \<and> marked h (\<lambda>_. True) t)) n" "live h v (dkTree d2)" "marked h (\<lambda>_. True) (dkTree d2)" for v n d2
  proof -
    have "outcome (\<lambda>t. live h v t \<and> marked h (\<lambda>_. True) t) (sq n (removeRestoreMarker h)) (\<lambda>_. live h v)"
      by (rule outcome_sq [OF outcome_weaken [OF outcome_keeps_either [OF that(1)]] outcome_weaken [OF removeRestoreMarker_outcome]])
         (auto simp: either_def split: sum.splits)
    then show ?thesis using that(2,3) by (auto simp: outcome_def split: prod.splits)
  qed
  have committing: "case recoverInterruptedRestore h d of (r, d') \<Rightarrow>
      (live h old (dkTree d') \<or> live h new (dkTree d')) \<or> r \<noteq> Inr () \<and> recoverable h x y old new (dkTree d')"
    if "readRestoreMarker h d = (Inr (Some m), d1)" and m: "marker_of h x y old new restorePhaseCommitting b m"
      and c: "recoverCommittingRestore h m d1 = (r2, d2)"
      and K: "either (\<lambda>_. recoverable h x y old new) (\<lambda>_ t. live h v t \<and> marked h (\<lambda>_. True) t) r2 (dkTree d2)"
      and v: "v = old \<or> v = new" for m b r2 d2 v
  proof -
    have run: "recoverInterruptedRestore h d =
        sq (recoverCommittingRestore h m) (sq (cleanupCompletedRestore m) (removeRestoreMarker h)) d1"
      using that(1) m
      by (simp add: recoverInterruptedRestore_def marker_of_def restorePhaseStaging_def restorePhaseCommitting_def)
    show ?thesis
    proof (cases r2)
      case (Inl err)
      then show ?thesis using run c K by (simp add: sq_def bnd_def)
    next
      case (Inr u)
      then have "live h v (dkTree d2)" "marked h (\<lambda>_. True) (dkTree d2)" using K by simp_all
      from keep_live [OF keeps_cleanup(2) [OF m] this] show ?thesis
        using run c Inr v by (auto simp: sq_def [of "recoverCommittingRestore h m"] split: prod.splits)
    qed
  qed
  show ?thesis
  proof (cases r)
    case (Inl err)
    then show ?thesis using read rec d1(1) by (simp add: recoverInterruptedRestore_def bnd_def)
  next
    case (Inr found)
    show ?thesis
    proof (cases found)
      case None
      then have "live h old (dkTree d) \<or> live h new (dkTree d)" using R Inr recoverable_live [OF rec] by simp
      then show ?thesis using read Inr None d1(1) by (simp add: recoverInterruptedRestore_def ret_def)
    next
      case (Some m)
      then have at: "at (dkTree d) (restoreMarkerPath h) = Some (File (MarkerJSON m))" using R Inr by simp
      then have mk: "marked h (\<lambda>_. True) (dkTree d1)" by (simp add: marked_def d1)
      from rec at show ?thesis
      proof (cases rule: recoverable_marked)
        case 1
        then have "recoverInterruptedRestore h d = sq (cleanupRestoreStaging m) (removeRestoreMarker h) d1"
          using read Inr Some by (simp add: recoverInterruptedRestore_def marker_of_def)
        then show ?thesis
          using keep_live [OF keeps_cleanup(1) [OF 1(1)], of old d1] 1(2) mk d1 by (auto split: prod.splits)
      next
        case (4 rb v)
        then have "recoverInterruptedRestore h d = sq (cleanupCompletedRestore m) (removeRestoreMarker h) d1"
          using read Inr Some
          by (simp add: recoverInterruptedRestore_def marker_of_def restorePhaseDone_def restorePhaseStaging_def restorePhaseCommitting_def)
        then show ?thesis
          using keep_live [OF keeps_cleanup(2) [OF 4(1)], of v d1] 4(2,3) mk d1 by (auto split: prod.splits)
      next
        case 2
        obtain r2 d2 where c: "recoverCommittingRestore h m d1 = (r2, d2)" by (metis prod.exhaust)
        have "either (\<lambda>_. recoverable h x y old new) (\<lambda>_ t. live h new t \<and> marked h (\<lambda>_. True) t) r2 (dkTree d2)"
          using recover_forward [OF d1(2) db 2(1)] 2(2) c d1(1) by (auto simp: either_def elim: marked_mono split: sum.splits)
        from committing [OF read [unfolded Inr Some] 2(1) c this] show ?thesis by simp
      next
        case 3
        obtain r2 d2 where c: "recoverCommittingRestore h m d1 = (r2, d2)" by (metis prod.exhaust)
        have "either (\<lambda>_. recoverable h x y old new) (\<lambda>_ t. live h old t \<and> marked h (\<lambda>_. True) t) r2 (dkTree d2)"
          by (rule either_weaken [OF outcomeD [OF recover_back [OF 3(1)] c]]) (auto simp: d1 3 elim: marked_mono)
        from committing [OF read [unfolded Inr Some] 3(1) c this] show ?thesis by simp
      qed
    qed
  qed
qed

end
