(* ===== verification/Restore_Props.thy ===== *)
theory Restore_Props
  imports Restore_Recovery
begin

text \<open>The properties of the restore: a store that was being replaced is the old or the new one after any
  failure and one recovery, and the case the recovery does not cover.\<close>

section \<open>A staged store\<close>

text \<open>The disk when \<open>runRestoreDB\<close> starts to promote: the marker names the staging and backup directories
  and lists what the two stores have, and nothing is backed up yet.\<close>

definition stagedRestore :: "path \<Rightarrow> string \<Rightarrow> string \<Rightarrow> restoreMarker \<Rightarrow> doc tree \<Rightarrow> bool" where
  "stagedRestore h x y m t \<longleftrightarrow>
    at t (restoreMarkerPath h) = Some (File (MarkerJSON m)) \<and> rmPhase m = restorePhaseStaging \<and>
    rmStagingDir m = stagingPath h x \<and> rmBackupDir m = createRestoreBackupPath h y \<and> rmTimestamp m \<noteq> [] \<and>
    rmStagedEntries m = Some (filter (\<lambda>e. at t (stagingPath h x @ e) \<noteq> None) restorePayloadEntries) \<and>
    rmOriginalEntries m = Some (filter (\<lambda>e. at t (basePath h @ e) \<noteq> None) restorePayloadEntries) \<and>
    \<not> rmRollbackOnly m \<and>
    list_all (\<lambda>p. at t p = Some Dir) (prefixes (stagingPath h x)) \<and>
    list_all (\<lambda>e. at t (payloadPath h y @ e) = None) restorePayloadEntries \<and>
    is_file_at t (stagingPath h x @ [''.pc'', ''pc.db''])"

text \<open>The live payload of \<open>u\<close> is the payload \<open>t\<close> had under \<open>root\<close>.\<close>

definition storeIs :: "path \<Rightarrow> doc tree \<Rightarrow> path \<Rightarrow> doc tree \<Rightarrow> bool" where
  "storeIs h t root u \<longleftrightarrow> (\<forall>e\<in>set restorePayloadEntries. view u (basePath h @ e) = view t (root @ e))"

abbreviation oldStore where "oldStore h t \<equiv> storeIs h t (basePath h)"
abbreviation newStore where "newStore h x t \<equiv> storeIs h t (stagingPath h x)"

lemma storeIs_live: "storeIs h t root u \<longleftrightarrow> live h (\<lambda>e. view t (root @ e)) u"
  by (simp add: storeIs_def live_def)

lemma stagedRestore_store:
  assumes "stagedRestore h x y m t"
  shows "staged_store h x y (\<lambda>e. view t (basePath h @ e)) (\<lambda>e. view t (stagingPath h x @ e)) t"
    "marker_of h x y (\<lambda>e. view t (basePath h @ e)) (\<lambda>e. view t (stagingPath h x @ e)) restorePhaseStaging False m"
    "has_database (\<lambda>e. view t (stagingPath h x @ e))"
proof -
  show m: "marker_of h x y (\<lambda>e. view t (basePath h @ e)) (\<lambda>e. view t (stagingPath h x @ e)) restorePhaseStaging False m"
    using assms by (simp add: stagedRestore_def marker_of_def present_def view_gone_iff)
  have "staging_there h x t" using assms by (auto simp: stagedRestore_def staging_there_def list_all_iff)
  moreover have "view t (payloadPath h y @ e) = gone" if "e \<in> set restorePayloadEntries" for e
    using assms that by (auto simp: stagedRestore_def list_all_iff view_gone_iff)
  ultimately show "staged_store h x y (\<lambda>e. view t (basePath h @ e)) (\<lambda>e. view t (stagingPath h x @ e)) t"
    using assms m unfolding staged_store_def site.with_slots_def by (auto simp: stagedRestore_def marked_def slot_def)
  show "has_database (\<lambda>e. view t (stagingPath h x @ e))"
    using assms by (auto simp: stagedRestore_def has_database_def is_file_at_def view_root split: option.splits node.splits)
qed

lemma promote_recoverable:
  assumes "stagedRestore h x y m (dkTree d)"
  shows "recoverable h x y (\<lambda>e. view (dkTree d) (basePath h @ e)) (\<lambda>e. view (dkTree d) (stagingPath h x @ e))
    (dkTree (snd (promoteStagedStore h m d)))"
  using outcomeD [OF promote_outcome [OF stagedRestore_store(2) [OF assms]] prod.collapse [symmetric] stagedRestore_store(1) [OF assms]]
  by (auto simp: either_def intro: recoverable_cases(4) settledI split: sum.splits)

text \<open>The recovery of what a promotion left.\<close>

abbreviation recoverable_from where
  "recoverable_from h x y t \<equiv> recoverable h x y (\<lambda>e. view t (basePath h @ e)) (\<lambda>e. view t (stagingPath h x @ e))"

lemma recover_store:
  assumes "stagedRestore h x y m t" and "recoverable_from h x y t (dkTree d)" and "dkFault d = (\<lambda>_. None)"
  shows "case recoverInterruptedRestore h d of (r, d') \<Rightarrow>
    oldStore h t (dkTree d') \<or> newStore h x t (dkTree d') \<or> r \<noteq> Inr () \<and> recoverable_from h x y t (dkTree d')"
  using recover_run [OF _ stagedRestore_store(3) [OF assms(1)] assms(2)] assms(3)
  by (auto simp: env_def storeIs_live split: prod.splits)

section \<open>Properties\<close>

text \<open>C19. A restore that fails anywhere. \<open>promoteStagedStore\<close> runs on any disk: any call may fail, any failed
  call may have done a part of its work, and the process may die at any point (\<open>dkFault\<close> and \<open>dkCrash\<close> of \<open>d\<close>
  are free). Afterwards the recovery runs on a disk whose calls do not fail but which may be cut off again
  (\<open>dkCrash\<close> of \<open>d2\<close> is free): when it returns without an error, every payload entry of the live store is
  the old one, or every one is the new one.\<close>

theorem restore_old_or_new:
  assumes "stagedRestore h x y m (dkTree d)" and "dkTree d2 = dkTree (snd (promoteStagedStore h m d))"
    and "dkFault d2 = (\<lambda>_. None)"
  shows "case recoverInterruptedRestore h d2 of
      (Inl _, _) \<Rightarrow> True
    | (Inr _, d3) \<Rightarrow> oldStore h (dkTree d) (dkTree d3) \<or> newStore h x (dkTree d) (dkTree d3)"
proof -
  have "recoverable_from h x y (dkTree d) (dkTree d2)" using promote_recoverable [OF assms(1)] assms(2) by simp
  from recover_store [OF assms(1) this assms(3)] show ?thesis by (auto split: prod.splits sum.splits)
qed


text \<open>C21. When the promotion reports success, whatever happened on the way, the live store is the staged one
  and the marker is gone.\<close>

theorem restore_success_is_new:
  assumes "stagedRestore h x y m (dkTree d)"
  shows "case promoteStagedStore h m d of
      (Inl _, _) \<Rightarrow> True
    | (Inr _, d') \<Rightarrow> newStore h x (dkTree d) (dkTree d') \<and> at (dkTree d') (restoreMarkerPath h) = None"
  using outcomeD [OF promote_outcome [OF stagedRestore_store(2) [OF assms]] prod.collapse [symmetric] stagedRestore_store(1) [OF assms]]
  by (auto simp: storeIs_live split: prod.splits sum.splits)

section \<open>A concrete restore\<close>

text \<open>A home with a database and one figure, and a staged store with another database and figure.\<close>

definition exampleStaging :: path where
  "exampleStaging = stagingPath [''h''] ''1''"

definition exampleMarker :: restoreMarker where
  "exampleMarker =
    \<lparr> rmPhase = restorePhaseStaging, rmStagingDir = exampleStaging, rmBackupDir = createRestoreBackupPath [''h''] ''t'',
      rmTimestamp = ''t'', rmStagedEntries = Some [[''.pc'', ''pc.db''], [''figures'']],
      rmOriginalEntries = Some [[''.pc'', ''pc.db''], [''figures'']], rmRollbackOnly = False \<rparr>"

definition exampleTree :: "doc tree" where
  "exampleTree =
    (let base = basePath [''h''] in
     [([], Dir), ([''h''], Dir), (base, Dir), (base @ [''.pc''], Dir),
      (base @ [''.pc'', ''restore.marker''], File (MarkerJSON exampleMarker)),
      (base @ [''.pc'', ''pc.db''], File (Bytes ''old'')),
      (base @ [''figures''], Dir), (base @ [''figures'', ''f''], File (Bytes ''old figure'')),
      (exampleStaging, Dir), (exampleStaging @ [''.pc''], Dir),
      (exampleStaging @ [''.pc'', ''pc.db''], File (Bytes ''new'')),
      (exampleStaging @ [''figures''], Dir), (exampleStaging @ [''figures'', ''f''], File (Bytes ''new figure''))])"

definition exampleDisk :: "doc tree \<Rightarrow> nat option \<Rightarrow> disk" where
  "exampleDisk t crash =
    \<lparr> dkTree = t, dkTick = 0, dkFault = (\<lambda>_. None), dkCrash = crash, dkTemp = (\<lambda>_. [''x'']), dkNow = (\<lambda>_. ''now''),
      dkJunk = (\<lambda>_. Bytes []) \<rparr>"

text \<open>The disk of a recovery that is killed while it removes the backup: the call at tick 42 is that
  \<open>RemoveAll\<close>, it has removed the database of the backup and not yet its figures, and nothing runs after it.\<close>

definition killedInCleanup :: "doc tree \<Rightarrow> disk" where
  "killedInCleanup t =
    (exampleDisk t (Some 43)) \<lparr> dkFault := (\<lambda>n. if n = 42
       then Some (''killed'', \<lambda>p. p \<noteq> payloadPath [''h''] ''t'' @ [''.pc'', ''pc.db'']) else None) \<rparr>"


section \<open>Witnesses\<close>

lemma example_staged: "stagedRestore [''h''] ''1'' ''t'' exampleMarker exampleTree"
  by (simp add: stagedRestore_def exampleTree_def exampleMarker_def stagingPath_def exampleStaging_def basePath_def
      restoreMarkerPath_def createRestoreBackupPath_def restorePayloadBackupDir_def restorePayloadEntries_def is_file_at_def)

lemma example_tree [simp]: "dkTree (exampleDisk t c) = t" "dkFault (exampleDisk t c) = (\<lambda>_. None)"
  by (simp_all add: exampleDisk_def)

text \<open>After the kill at tick 46 the recovery does return, with the new store.\<close>

lemma example_recovers:
  "case recoverInterruptedRestore [''h'']
       (exampleDisk (dkTree (snd (promoteStagedStore [''h''] exampleMarker (exampleDisk exampleTree (Some 46))))) None) of
     (r, d3) \<Rightarrow> r = Inr () \<and>
       at (dkTree d3) (basePath [''h''] @ [''figures'', ''f'']) = Some (File (Bytes ''new figure''))"
  by code_simp

theorem restore_old_or_new_witness:
  "case recoverInterruptedRestore [''h'']
       (exampleDisk (dkTree (snd (promoteStagedStore [''h''] exampleMarker (exampleDisk exampleTree (Some 46))))) None) of
     (r, d3) \<Rightarrow> r = Inr () \<and>
       (oldStore [''h''] exampleTree (dkTree d3) \<or> newStore [''h''] ''1'' exampleTree (dkTree d3))"
proof -
  let ?d = "exampleDisk exampleTree (Some 46)"
  let ?d2 = "exampleDisk (dkTree (snd (promoteStagedStore [''h''] exampleMarker ?d))) None"
  have "case recoverInterruptedRestore [''h''] ?d2 of
      (Inl _, _) \<Rightarrow> True
    | (Inr _, d3) \<Rightarrow> oldStore [''h''] (dkTree ?d) (dkTree d3) \<or> newStore [''h''] ''1'' (dkTree ?d) (dkTree d3)"
    by (rule restore_old_or_new [where y = "''t''" and m = exampleMarker and ?d2.0 = ?d2]) (simp_all add: example_staged)
  with example_recovers show ?thesis by (auto split: prod.splits)
qed


theorem restore_success_is_new_witness:
  "case promoteStagedStore [''h''] exampleMarker (exampleDisk exampleTree None) of
      (Inl _, _) \<Rightarrow> True
    | (Inr _, d') \<Rightarrow> newStore [''h''] ''1'' exampleTree (dkTree d') \<and> at (dkTree d') (restoreMarkerPath [''h'']) = None"
  using restore_success_is_new [of "[''h'']" "''1''" "''t''" exampleMarker "exampleDisk exampleTree None"]
  by (simp add: example_staged split: prod.splits sum.splits)

end
