(* ===== verification/Local_Files.thy ===== *)
theory Local_Files
  imports Replacement Asset_Key
begin

text \<open>\<open>filesystem/filesystem.go\<close> and \<open>filesystem/chat_source.go\<close>: the files of the local store under its
  base directory. One definition per function, on the file system of \<open>Disk\<close> with byte strings as file
  contents. A base path is a clean absolute path; a path given by the user is the text of a path, taken
  relative to the working directory.\<close>

type_synonym files = "string Disk"

record Client =
  basePath :: path
  workDir :: path

section \<open>Paths\<close>

text \<open>\<open>filepath.Base\<close> and \<open>filepath.Ext\<close> of a path's text: the last element, trailing slashes dropped.\<close>

definition filepath_base :: "string \<Rightarrow> string" where
  "filepath_base s =
    (if s = [] then ''.''
     else let t = rev (dropWhile (\<lambda>c. c = CHR ''/'') (rev s)) in
       if t = [] then ''/'' else last (split_at (CHR ''/'') t))"

definition filepath_ext :: "string \<Rightarrow> string" where
  "filepath_ext s =
    (let f = last (split_at (CHR ''/'') s) in
     if CHR ''.'' \<in> set f then CHR ''.'' # last (split_at (CHR ''.'') f) else [])"

text \<open>\<open>filepath.Join\<close> below a clean directory, and \<open>filepath.Abs\<close>.\<close>

definition filepath_join :: "path \<Rightarrow> string list \<Rightarrow> path" where
  "filepath_join dir elems = clean_onto (rev dir) (concat (List.map (split_at (CHR ''/'')) elems))"

definition filepath_abs :: "path \<Rightarrow> string \<Rightarrow> path" where
  "filepath_abs cwd s =
    (if prefix ''/'' s then clean_onto [] (split_at (CHR ''/'') s) else filepath_join cwd [s])"

text \<open>The text of a path, and \<open>filepath.ToSlash\<close> of a joined relative one.\<close>

fun join_at :: "char \<Rightarrow> string list \<Rightarrow> string" where
  "join_at c [] = []"
| "join_at c [p] = p"
| "join_at c (p # q # ps) = p @ c # join_at c (q # ps)"

definition slash_key :: "string list \<Rightarrow> string" where
  "slash_key elems = join_at (CHR ''/'') (filepath_join [] elems)"

definition validatePathSegment :: "string \<Rightarrow> string \<Rightarrow> error + unit" where
  "validatePathSegment field value =
    (if blank value then Inl (Plain (field @ '' is required''))
     else if value \<noteq> trim_space value then Inl (Plain (field @ '' must not contain surrounding whitespace''))
     else if value = ''.'' \<or> value = ''..'' then Inl (Plain (field @ '' must not be a dot name''))
     else if CHR 0x5C \<in> set value then Inl (Plain (field @ '' must not include path separators''))
     else if value \<noteq> filepath_base value then Inl (Plain (field @ '' must not include path separators''))
     else Inr ())"

definition resolvePath :: "Client \<Rightarrow> string \<Rightarrow> string \<Rightarrow> string \<Rightarrow> error + path" where
  "resolvePath c kind recordID filename =
    (case validatePathSegment ''record id'' recordID of
       Inl e \<Rightarrow> Inl e
     | Inr _ \<Rightarrow>
         (case validatePathSegment ''filename'' filename of
            Inl e \<Rightarrow> Inl e
          | Inr _ \<Rightarrow> Inr (filepath_join (basePath c) [kind, recordID, filename])))"

definition ResolveFigurePath :: "Client \<Rightarrow> string \<Rightarrow> string \<Rightarrow> error + path" where
  "ResolveFigurePath c recordID filename = resolvePath c ''figures'' recordID filename"

definition ResolveDataFilePath :: "Client \<Rightarrow> string \<Rightarrow> string \<Rightarrow> error + path" where
  "ResolveDataFilePath c recordID filename = resolvePath c ''data'' recordID filename"

section \<open>Record files\<close>

record StoredFile =
  sfFilename :: string
  sfS3Key :: string
  sfPath :: path
  sfSize :: int

text \<open>\<open>os.Open\<close> of a file, \<open>io.Copy\<close> into an open file, whose read or write may fail half way, and
  \<open>OpenFile\<close> with \<open>O_CREATE | O_EXCL\<close>.\<close>

definition open_file :: "path \<Rightarrow> (files, unit) act" where
  "open_file p = sq (lstat p) (ret ())"

definition copy_open :: "path \<Rightarrow> path \<Rightarrow> (files, int) act" where
  "copy_open to from =
    bnd (read_file from) (\<lambda>content.
    sq (write_open to content) (ret (int (length content))))"

definition create_exclusive :: "path \<Rightarrow> (files, unit) act" where
  "create_exclusive p = disk_call unchanged (\<lambda>t. case look t p of
     Inr _ \<Rightarrow> Inl ErrExist
   | Inl e \<Rightarrow>
       if e \<noteq> ErrNotExist then Inl e
       else if p \<noteq> [] \<and> at t (butlast p) = None then Inl ErrNotExist
       else Inr ((), put_node p (File []) t))"

definition closing_after :: "(files, 'a) act \<Rightarrow> (files, 'a) act" where
  "closing_after m = cleanup_unless_ok disk_plain m" \<comment> \<open>\<open>_ = tempFile.Close()\<close>\<close>

text \<open>The copy proper: into a temporary file beside the target, flushed and closed, then renamed; the
  temporary file is removed when anything fails.\<close>

definition fill_temp :: "path \<Rightarrow> path \<Rightarrow> path \<Rightarrow> (files, int) act" where
  "fill_temp tempPath targetPath source =
    cleanup_unless_ok (remove_file tempPath)
      (bnd (wrap ''copy source file'' (closing_after (copy_open tempPath source))) (\<lambda>writtenBytes.
       sq (wrap ''sync destination file'' (closing_after disk_plain))
       (sq (wrap ''close destination file'' disk_plain)
       (sq (wrap ''rename to destination'' (rename_file tempPath targetPath))
           (ret writtenBytes)))))"

definition copyInto :: "Client \<Rightarrow> string \<Rightarrow> string \<Rightarrow> string \<Rightarrow> (files, StoredFile) act" where
  "copyInto c kind recordID sourcePath =
    (if blank sourcePath then fail (Plain ''source path is required'')
     else let source = filepath_abs (workDir c) sourcePath in
     bnd (wrap ''stat source file'' (lstat source)) (\<lambda>sourceInfo.
     if sourceInfo = Dir then fail (Plain ''source path must be a file'')
     else let filename = filepath_base sourcePath in
     case resolvePath c kind recordID filename of
       Inl e \<Rightarrow> fail e
     | Inr targetPath \<Rightarrow>
         let targetDir = butlast targetPath in
         sq (wrap ''create destination directory'' (mkdir_all targetDir))
         (sq (wrap ''read source file'' (open_file source))
         (bnd (wrap ''create temp file'' (create_in (File []) targetDir ''.copy-'')) (\<lambda>tempPath.
         bnd (fill_temp tempPath targetPath source) (\<lambda>writtenBytes.
         ret \<lparr> sfFilename = filename, sfS3Key = slash_key [kind, recordID, filename],
               sfPath = targetPath, sfSize = writtenBytes \<rparr>))))))"

definition CopyFigure :: "Client \<Rightarrow> string \<Rightarrow> string \<Rightarrow> (files, StoredFile) act" where
  "CopyFigure c recordID sourcePath = copyInto c ''figures'' recordID sourcePath"

definition CopyDataFile :: "Client \<Rightarrow> string \<Rightarrow> string \<Rightarrow> (files, StoredFile) act" where
  "CopyDataFile c recordID sourcePath = copyInto c ''data'' recordID sourcePath"

definition DeleteFigure :: "Client \<Rightarrow> string \<Rightarrow> string \<Rightarrow> (files, unit) act" where
  "DeleteFigure c recordID filename =
    bnd (lift_result (ResolveFigurePath c recordID filename)) (\<lambda>p. wrap ''delete figure'' (remove_file p))"

definition DeleteDataFile :: "Client \<Rightarrow> string \<Rightarrow> string \<Rightarrow> (files, unit) act" where
  "DeleteDataFile c recordID filename =
    bnd (lift_result (ResolveDataFilePath c recordID filename)) (\<lambda>p. wrap ''delete data file'' (remove_file p))"

text \<open>Removing a directory, flushing its parent; a missing parent is no error.\<close>

definition sync_parent :: "string \<Rightarrow> path \<Rightarrow> (files, unit) act" where
  "sync_parent msg dir =
    bnd (attempt (syncDir (butlast dir))) (\<lambda>r.
      case r of
        Inl e \<Rightarrow> if err_is e ErrNotExist then ret () else fail (Wrapped msg e)
      | Inr _ \<Rightarrow> ret ())"

definition DeleteRecordDir :: "Client \<Rightarrow> string \<Rightarrow> (files, unit) act" where
  "DeleteRecordDir c recordID =
    bnd (lift_result (validatePathSegment ''record id'' recordID)) (\<lambda>_.
      each (\<lambda>kind.
        let dir = filepath_join (basePath c) [kind, recordID] in
        sq (wrap ''remove'' (remove_all dir)) (sync_parent ''sync directory after removing'' dir))
        [''figures'', ''data''])"

text \<open>\<open>os.ReadDir\<close>: the names in the directory in order, with their kind.\<close>

definition children :: "'c tree \<Rightarrow> path \<Rightarrow> (string \<times> 'c node) list" where
  "children t p =
    sort_key fst (List.map (\<lambda>(q, n). (last q, n)) (filter (\<lambda>(q, _). q \<noteq> [] \<and> butlast q = p) t))"

definition read_dir :: "path \<Rightarrow> (files, (string \<times> string node) list) act" where
  "read_dir p = disk_read (\<lambda>t. case look t p of
     Inl e \<Rightarrow> Inl e | Inr (File _) \<Rightarrow> Inl errNotDir | Inr Dir \<Rightarrow> Inr (children t p))"

definition valid_entry :: "string \<Rightarrow> bool" where
  "valid_entry name = (validatePathSegment ''entry'' name = Inr ())"

definition read_dir_or_empty :: "path \<Rightarrow> ((string \<times> string node) \<Rightarrow> bool) \<Rightarrow> (files, string list) act" where
  "read_dir_or_empty dir sel =
    bnd (attempt (read_dir dir)) (\<lambda>r.
      case r of
        Inl e \<Rightarrow> if err_is e ErrNotExist then ret [] else fail e
      | Inr entries \<Rightarrow> ret (List.map fst (filter sel entries)))"

definition listSubdirs :: "path \<Rightarrow> (files, string list) act" where
  "listSubdirs dir = read_dir_or_empty dir (\<lambda>(name, n). n = Dir \<and> valid_entry name)"

definition ListRecordIDsOnDisk :: "Client \<Rightarrow> (files, string list \<times> string list) act" where
  "ListRecordIDsOnDisk c =
    bnd (wrap ''list figure directories'' (listSubdirs (filepath_join (basePath c) [''figures'']))) (\<lambda>figures.
    bnd (wrap ''list data directories'' (listSubdirs (filepath_join (basePath c) [''data'']))) (\<lambda>data.
      ret (figures, data)))"

definition ListFigureFilenames :: "Client \<Rightarrow> string \<Rightarrow> (files, string list) act" where
  "ListFigureFilenames c recordID =
    bnd (lift_result (validatePathSegment ''record id'' recordID)) (\<lambda>_.
      read_dir_or_empty (filepath_join (basePath c) [''figures'', recordID]) (\<lambda>(name, n). n \<noteq> Dir \<and> valid_entry name))"

section \<open>Chat source keys\<close>

text \<open>The pattern \<open>^\d{8}-[0-9a-f]{8}$\<close>.\<close>

definition is_digit :: "char \<Rightarrow> bool" where
  "is_digit ch = (CHR ''0'' \<le> ch \<and> ch \<le> CHR ''9'')"

definition is_hex :: "char \<Rightarrow> bool" where
  "is_hex ch = (is_digit ch \<or> CHR ''a'' \<le> ch \<and> ch \<le> CHR ''f'')"

definition chatSessionIDPattern :: "string \<Rightarrow> bool" where
  "chatSessionIDPattern s =
    (length s = 17 \<and> list_all is_digit (take 8 s) \<and> s ! 8 = CHR ''-'' \<and> list_all is_hex (drop 9 s))"

definition validateChatSessionID :: "string \<Rightarrow> error + unit" where
  "validateChatSessionID s =
    (if blank s then Inl (Plain ''chat session id is required'')
     else if \<not> chatSessionIDPattern s then Inl (Plain ''chat session id must match YYYYMMDD-xxxxxxxx'')
     else Inr ())"

definition supportedChatSourceExtensions :: "string list" where
  "supportedChatSourceExtensions = [''.json'', ''.jsonl'', ''.ndjson'']"

text \<open>\<open>strings.ToLower\<close>, as far as the comparison with the supported extensions can tell: no character
  outside ASCII has one of their letters as its lower case.\<close>

definition lower_ascii :: "string \<Rightarrow> string" where
  "lower_ascii = List.map (\<lambda>ch. if CHR ''A'' \<le> ch \<and> ch \<le> CHR ''Z'' then char_of (of_char ch + (32 :: nat)) else ch)"

definition DeriveChatSourceKey :: "string \<Rightarrow> string \<Rightarrow> error + string" where
  "DeriveChatSourceKey chatSessionID sourcePath =
    (case validateChatSessionID chatSessionID of
       Inl e \<Rightarrow> Inl e
     | Inr _ \<Rightarrow>
         let ext = lower_ascii (filepath_ext sourcePath) in
         if ext \<notin> set supportedChatSourceExtensions then Inl (Plain ''unsupported chat source extension'')
         else Inr (''chats/raw/'' @ chatSessionID @ ''/source'' @ ext))"

definition ValidateChatSourceKey :: "string \<Rightarrow> string \<Rightarrow> error + unit" where
  "ValidateChatSourceKey chatSessionID rawSourceKey =
    (case validateChatSessionID chatSessionID of
       Inl e \<Rightarrow> Inl e
     | Inr _ \<Rightarrow>
         if blank rawSourceKey then Inl (Plain ''raw_source_key is required'')
         else if prefix ''/'' rawSourceKey then Inl (Plain ''raw_source_key must be relative'')
         else let parts = split_at (CHR ''/'') rawSourceKey in
           if length parts \<noteq> 4 then Inl (Plain ''raw_source_key must be chats/raw/{chat_session_id}/source.{ext}'')
           else if parts ! 0 \<noteq> ''chats'' \<or> parts ! 1 \<noteq> ''raw'' then Inl (Plain ''raw_source_key must be under chats/raw/'')
           else if parts ! 2 \<noteq> chatSessionID then Inl (Plain ''raw_source_key chat id does not match'')
           else if list_ex (\<lambda>ext. parts ! 3 = ''source'' @ ext) supportedChatSourceExtensions then Inr ()
           else Inl (Plain ''raw_source_key basename must be source.{json|jsonl|ndjson}''))"

definition ResolveChatSourcePath :: "Client \<Rightarrow> string \<Rightarrow> string \<Rightarrow> error + path" where
  "ResolveChatSourcePath c chatSessionID rawSourceKey =
    (case ValidateChatSourceKey chatSessionID rawSourceKey of
       Inl e \<Rightarrow> Inl e
     | Inr _ \<Rightarrow> Inr (filepath_join (basePath c) [rawSourceKey]))"

section \<open>Chat sources\<close>

record ChatSourceStage =
  stChatSessionID :: string
  stRawSourceKey :: string
  stStagedPath :: path
  stSize :: int

definition rawRoot :: "Client \<Rightarrow> path" where
  "rawRoot c = filepath_join (basePath c) [''chats'', ''raw'']"

text \<open>\<open>rand.Read\<close> may fail; its eight bytes are the disk's random source.\<close>

definition hex_digit :: "nat \<Rightarrow> char" where
  "hex_digit n = ''0123456789abcdef'' ! n"

definition hex_encode :: "string \<Rightarrow> string" where
  "hex_encode s = concat (List.map (\<lambda>ch. [hex_digit (of_char ch div 16), hex_digit (of_char ch mod 16)]) s)"

definition randomHexNonce :: "(files, string) act" where
  "randomHexNonce d =
    wrap ''generate nonce''
      (sq disk_plain (ret (hex_encode (case dkTemp d (dkTick d) of [] \<Rightarrow> [] | s # _ \<Rightarrow> take 8 s)))) d"

text \<open>The staged copy: \<open>sync\<close> and \<open>Close\<close> run even when the copy failed, and any of the three errors
  removes the stage.\<close>

definition stage_copy :: "path \<Rightarrow> path \<Rightarrow> path \<Rightarrow> (files, int) act" where
  "stage_copy stageDir stagedPath source =
    bnd (attempt (copy_open stagedPath source)) (\<lambda>copied.
    bnd (attempt disk_plain) (\<lambda>synced.
    bnd (attempt disk_plain) (\<lambda>closed.
      case (copied, synced, closed) of
        (Inr written, Inr _, Inr _) \<Rightarrow> ret written
      | (Inl e, _, _) \<Rightarrow> sq (ignored (remove_all stageDir)) (fail (Wrapped ''copy chat source bytes'' e))
      | (_, Inl e, _) \<Rightarrow> sq (ignored (remove_all stageDir)) (fail (Wrapped ''sync staged chat source'' e))
      | (_, _, Inl e) \<Rightarrow> sq (ignored (remove_all stageDir)) (fail (Wrapped ''close staged chat source'' e)))))"

definition CopyChatSourceToStage :: "Client \<Rightarrow> string \<Rightarrow> string \<Rightarrow> (files, ChatSourceStage) act" where
  "CopyChatSourceToStage c chatSessionID sourcePath =
    bnd (lift_result (validateChatSessionID chatSessionID)) (\<lambda>_.
    if blank sourcePath then fail (Plain ''source path is required'')
    else
    bnd (lift_result (DeriveChatSourceKey chatSessionID sourcePath)) (\<lambda>rawSourceKey.
    let source = filepath_abs (workDir c) sourcePath in
    bnd (wrap ''stat chat source'' (lstat source)) (\<lambda>info.
    if info = Dir then fail (Plain ''chat source must be a file'')
    else
    bnd randomHexNonce (\<lambda>nonce.
    let stageDir = filepath_join (basePath c) [''chats'', ''raw'', ''.staging-'' @ chatSessionID @ ''-'' @ nonce];
        stagedPath = filepath_join stageDir [filepath_base rawSourceKey] in
    sq (wrap ''create chat source stage dir'' (mkdir_all stageDir))
    (sq (cleanup_unless_ok (ignored (remove_all stageDir)) (wrap ''open chat source'' (open_file source)))
    (sq (cleanup_unless_ok (ignored (remove_all stageDir)) (wrap ''create staged chat source'' (create_exclusive stagedPath)))
    (bnd (stage_copy stageDir stagedPath source) (\<lambda>written.
      ret \<lparr> stChatSessionID = chatSessionID, stRawSourceKey = rawSourceKey, stStagedPath = stagedPath,
            stSize = written \<rparr>))))))))"

definition resolveManagedStageDir :: "Client \<Rightarrow> path \<Rightarrow> error + path" where
  "resolveManagedStageDir c stagedPath =
    (let absStageDir = butlast stagedPath in
     if absStageDir = [] \<or> butlast absStageDir \<noteq> rawRoot c \<or> \<not> prefix ''.staging-'' (last absStageDir)
     then Inl (Plain ''staged path is not a managed chats/raw/.staging-* directory'')
     else Inr absStageDir)"

text \<open>An empty staged path is \<open>[]\<close> here: nothing to delete.\<close>

definition DeleteChatSourceStage :: "Client \<Rightarrow> ChatSourceStage \<Rightarrow> (files, unit) act" where
  "DeleteChatSourceStage c stage =
    (if stStagedPath stage = [] then ret ()
     else
       bnd (lift_result (resolveManagedStageDir c (stStagedPath stage))) (\<lambda>stageDir.
       bnd (attempt (remove_all stageDir)) (\<lambda>r.
         case r of
           Inl e \<Rightarrow> if err_is e ErrNotExist then ret () else fail (Wrapped ''remove chat source stage dir'' e)
         | Inr _ \<Rightarrow> ret ())))"

definition restoreChatRawBackup :: "path \<Rightarrow> path option \<Rightarrow> (files, unit) act" where
  "restoreChatRawBackup activeDir backupDir =
    (case backupDir of
       None \<Rightarrow> ret ()
     | Some backup \<Rightarrow>
         sq (bnd (attempt (remove_all activeDir)) (\<lambda>r.
               case r of
                 Inl e \<Rightarrow> if err_is e ErrNotExist then ret () else fail (Wrapped ''remove failed chat raw promotion'' e)
               | Inr _ \<Rightarrow> ret ()))
         (sq (wrap ''restore previous chat raw source'' (rename_file backup activeDir))
             (wrap ''sync restored chat raw parent'' (syncDir (butlast activeDir)))))"

text \<open>A step of the promotion whose failure rolls back.\<close>

definition or_restore :: "path \<Rightarrow> path option \<Rightarrow> string \<Rightarrow> (files, 'a) act \<Rightarrow> (files, 'a) act" where
  "or_restore activeDir backupDir msg m =
    bnd (attempt m) (\<lambda>r.
      case r of
        Inr a \<Rightarrow> ret a
      | Inl e \<Rightarrow>
          bnd (attempt (restoreChatRawBackup activeDir backupDir)) (\<lambda>rb.
            case rb of
              Inl _ \<Rightarrow> fail (Wrapped (msg @ ''; rollback failed'') e)
            | Inr _ \<Rightarrow> fail (Wrapped msg e)))"

text \<open>The previous active directory moves to a backup; \<open>None\<close> when there is none.\<close>

definition back_up_active :: "Client \<Rightarrow> string \<Rightarrow> path \<Rightarrow> (files, path option) act" where
  "back_up_active c chatSessionID activeDir =
    bnd (attempt (lstat activeDir)) (\<lambda>r.
      case r of
        Inr _ \<Rightarrow>
          bnd randomHexNonce (\<lambda>nonce.
          let backupDir = filepath_join (basePath c) [''chats'', ''raw'', ''.backup-'' @ chatSessionID @ ''-'' @ nonce] in
          sq (wrap ''backup previous chat raw source'' (rename_file activeDir backupDir))
             (ret (Some backupDir)))
      | Inl e \<Rightarrow>
          if err_is e ErrNotExist then ret None else fail (Wrapped ''stat active chat raw dir'' e))"

definition content_size :: "string node \<Rightarrow> int" where
  "content_size n = (case n of Dir \<Rightarrow> 0 | File s \<Rightarrow> int (length s))"

definition PromoteChatSourceStage :: "Client \<Rightarrow> ChatSourceStage \<Rightarrow> (files, StoredFile) act" where
  "PromoteChatSourceStage c stage =
    bnd (lift_result (ValidateChatSourceKey (stChatSessionID stage) (stRawSourceKey stage))) (\<lambda>_.
    if stStagedPath stage = [] then fail (Plain ''stage has no staged path'')
    else
    sq (wrap ''staged chat source missing'' (lstat (stStagedPath stage)))
    (let activeDir = filepath_join (basePath c) [''chats'', ''raw'', stChatSessionID stage];
         activePath = filepath_join (basePath c) [stRawSourceKey stage] in
    bnd (lift_result (resolveManagedStageDir c (stStagedPath stage))) (\<lambda>stageDir.
    sq (wrap ''ensure chats/raw exists'' (mkdir_all (butlast activeDir)))
    (bnd (back_up_active c (stChatSessionID stage) activeDir) (\<lambda>backupDir.
    sq (or_restore activeDir backupDir ''promote chat source stage'' (rename_file stageDir activeDir))
    (sq (or_restore activeDir backupDir ''sync promoted chat raw parent'' (syncDir (butlast activeDir)))
    (bnd (or_restore activeDir backupDir ''verify promoted chat source'' (lstat activePath)) (\<lambda>info.
    sq (case backupDir of
          None \<Rightarrow> ret ()
        | Some dir \<Rightarrow> wrap ''clean up previous chat raw backup'' (remove_all dir))
       (ret \<lparr> sfFilename = filepath_base (stRawSourceKey stage), sfS3Key = stRawSourceKey stage,
              sfPath = activePath, sfSize = content_size info \<rparr>)))))))))"

definition DeleteChatSource :: "Client \<Rightarrow> string \<Rightarrow> (files, unit) act" where
  "DeleteChatSource c chatSessionID =
    bnd (lift_result (validateChatSessionID chatSessionID)) (\<lambda>_.
    let dir = filepath_join (basePath c) [''chats'', ''raw'', chatSessionID] in
    sq (wrap ''remove chat raw source dir'' (remove_all dir))
       (sync_parent ''sync chat raw directory after removing'' dir))"

definition ListChatSessionIDsOnDisk :: "Client \<Rightarrow> (files, string list) act" where
  "ListChatSessionIDsOnDisk c =
    wrap ''list chat raw directories''
      (read_dir_or_empty (rawRoot c)
        (\<lambda>(name, n). n = Dir \<and> \<not> prefix ''.'' name \<and> chatSessionIDPattern name))"

end
