(* ===== verification/Local_Files_Props.thy ===== *)
theory Local_Files_Props
  imports Local_Files Disk_Logic
begin

text \<open>Which names reach the file system and where they lead, what the deleting operations can touch, and
  what a promotion of a chat source leaves when it fails anywhere.\<close>

section \<open>Path text\<close>

lemma clean_onto_plain:
  "(\<And>c. c \<in> set cs \<Longrightarrow> c \<noteq> [] \<and> c \<noteq> ''.'' \<and> c \<noteq> ''..'') \<Longrightarrow> clean_onto done cs = rev done @ cs"
  by (induction cs arbitrary: "done") auto

definition plain_element :: "string \<Rightarrow> bool" where
  "plain_element s = (CHR ''/'' \<notin> set s \<and> s \<noteq> [] \<and> s \<noteq> ''.'' \<and> s \<noteq> ''..'')"

lemma filepath_join_plain:
  assumes "\<And>e. e \<in> set es \<Longrightarrow> plain_element e"
  shows "filepath_join p es = p @ es"
proof -
  have "concat (List.map (split_at (CHR ''/'')) es) = es"
    using assms by (induction es) (auto simp: plain_element_def)
  then show ?thesis
    using assms unfolding filepath_join_def by (subst clean_onto_plain) (auto simp: plain_element_def)
qed

lemma path_segment_plain [simp]: "path_segment s \<Longrightarrow> plain_element s"
  by (auto simp: path_segment_def plain_element_def blank_def)

text \<open>Splitting at a character and joining again.\<close>

lemma join_at_Cons: "ps \<noteq> [] \<Longrightarrow> join_at c (p # ps) = p @ c # join_at c ps"
  by (cases ps) simp_all

lemma join_split [simp]: "join_at c (split_at c s) = s"
proof (induction s)
  case (Cons x s)
  show ?case
  proof (cases "split_at c s")
    case (Cons p ps)
    then show ?thesis using Cons.IH by (cases ps) auto
  qed simp
qed simp

lemma split_at_no_sep: "p \<in> set (split_at c s) \<Longrightarrow> c \<notin> set p"
proof (induction s arbitrary: p)
  case (Cons x s)
  then show ?case by (cases "split_at c s") (auto split: if_splits)
qed simp

lemma rev_dropWhile_no_sep:
  "c \<notin> set s \<Longrightarrow> rev (dropWhile (\<lambda>x. x = c) (rev s)) = s"
proof -
  assume "c \<notin> set s"
  then have "rev s = [] \<or> hd (rev s) \<noteq> c" using hd_in_set [of "rev s"] by auto
  then have "dropWhile (\<lambda>x. x = c) (rev s) = rev s" by (simp add: dropWhile_eq_self_iff)
  then show ?thesis by simp
qed

lemma filepath_base_id: "filepath_base s = s \<longleftrightarrow> s = ''/'' \<or> CHR ''/'' \<notin> set s \<and> s \<noteq> []"
proof (cases "CHR ''/'' \<in> set s")
  case False
  then show ?thesis by (cases "s = []") (auto simp: filepath_base_def Let_def rev_dropWhile_no_sep)
next
  case True
  let ?t = "rev (dropWhile (\<lambda>c. c = CHR ''/'') (rev s))"
  have last: "CHR ''/'' \<notin> set (last (split_at (CHR ''/'') ?t))"
    by (rule split_at_no_sep) (rule last_in_set, simp)
  have "s \<noteq> []" using True by auto
  then have base: "filepath_base s = (if ?t = [] then ''/'' else last (split_at (CHR ''/'') ?t))"
    by (simp add: filepath_base_def Let_def)
  show ?thesis
  proof (cases "?t = []")
    case True
    then have "filepath_base s = ''/''" using base by simp
    then show ?thesis using \<open>CHR ''/'' \<in> set s\<close> by metis
  next
    case False
    have "s \<noteq> ''/''" using False by auto
    moreover have "filepath_base s \<noteq> s" using False last \<open>CHR ''/'' \<in> set s\<close> unfolding base by metis
    ultimately show ?thesis using \<open>CHR ''/'' \<in> set s\<close> by metis
  qed
qed

lemma validatePathSegment_iff:
  "validatePathSegment field v = Inr () \<longleftrightarrow> path_segment v \<or> v = ''/''"
proof -
  have "\<not> blank ''/''" "trim_space ''/'' = ''/''" by code_simp+
  then show ?thesis
    using filepath_base_id [of v]
    by (auto simp: validatePathSegment_def path_segment_def eq_commute [of v "filepath_base v"] blank_def)
qed

lemma validatePathSegment_error: "\<not> (path_segment v \<or> v = ''/'') \<Longrightarrow> \<exists>e. validatePathSegment field v = Inl e"
  using validatePathSegment_iff [of field v] by (cases "validatePathSegment field v") auto

lemma resolvePath_ok:
  assumes "path_segment r" "path_segment f" "plain_element kind"
  shows "resolvePath c kind r f = Inr (basePath c @ [kind, r, f])"
proof -
  have "validatePathSegment m s = Inr ()" if "path_segment s" for m s
    using that by (simp add: validatePathSegment_iff)
  then show ?thesis
    using assms by (simp add: resolvePath_def) (subst filepath_join_plain, auto)
qed

section \<open>Names\<close>

text \<open>Where a child's key is accepted, its local path is the base directory followed by the parts of the
  key; where the key is refused, no local path is given either unless one of the names is \<open>/\<close>.\<close>

theorem local_path_is_key:
  "(case CanonicalRecordAssetKey ''figures'' r f of
      Inr key \<Rightarrow> ResolveFigurePath c r f = Inr (basePath c @ split_at (CHR ''/'') key)
    | Inl _ \<Rightarrow> r = ''/'' \<or> f = ''/'' \<or> (\<exists>e. ResolveFigurePath c r f = Inl e)) \<and>
   (case CanonicalRecordAssetKey ''data'' r f of
      Inr key \<Rightarrow> ResolveDataFilePath c r f = Inr (basePath c @ split_at (CHR ''/'') key)
    | Inl _ \<Rightarrow> r = ''/'' \<or> f = ''/'' \<or> (\<exists>e. ResolveDataFilePath c r f = Inl e))"
proof (cases "path_segment r \<and> path_segment f")
  case True
  have "plain_element ''figures''" "plain_element ''data''" by (simp_all add: plain_element_def)
  then show ?thesis
    using True CanonicalRecordAssetKey_split [of r f]
    by (simp add: ResolveFigurePath_def ResolveDataFilePath_def resolvePath_ok CanonicalRecordAssetKey_split
        split_at_append path_segment_def)
next
  case False
  then obtain m m' where "CanonicalRecordAssetKey ''figures'' r f = Inl m" "CanonicalRecordAssetKey ''data'' r f = Inl m'"
    using CanonicalRecordAssetKey_error [of "''figures''" r f] CanonicalRecordAssetKey_error [of "''data''" r f] by auto
  moreover have "r = ''/'' \<or> f = ''/'' \<or> (\<exists>e. resolvePath c k r f = Inl e)" for k
    using False validatePathSegment_error [of r "''record id''"] validatePathSegment_error [of f "''filename''"]
    by (cases "validatePathSegment ''record id'' r"; cases "validatePathSegment ''filename'' f")
       (auto simp: resolvePath_def)
  ultimately show ?thesis by (simp add: ResolveFigurePath_def ResolveDataFilePath_def)
qed

section \<open>Chat source keys\<close>

definition chat_source_key :: "string \<Rightarrow> string \<Rightarrow> string" where
  "chat_source_key i ext = ''chats/raw/'' @ i @ ''/source'' @ ext"

lemma chat_id_chars:
  assumes "chatSessionIDPattern i" "ch \<in> set i"
  shows "is_hex ch \<or> ch = CHR ''-''"
proof -
  have len: "length i = 17" using assms by (simp add: chatSessionIDPattern_def)
  then have "i = take 8 i @ i ! 8 # drop 9 i" using id_take_nth_drop [of 8 i] by simp
  then have "ch \<in> set (take 8 i) \<or> ch = i ! 8 \<or> ch \<in> set (drop 9 i)" using assms(2) by (metis Un_iff set_ConsD set_append)
  then show ?thesis using assms(1) by (auto simp: chatSessionIDPattern_def list_all_iff is_hex_def)
qed

lemma chat_id_plain:
  assumes "chatSessionIDPattern i"
  shows "plain_element i" "\<not> blank i"
proof -
  have ne: "i \<noteq> []" "length i = 17" using assms by (auto simp: chatSessionIDPattern_def)
  have chars: "visible ch \<and> ch \<noteq> CHR ''/'' \<and> ch \<noteq> CHR ''.''" if "ch \<in> set i" for ch
    using chat_id_chars [OF assms that] by (auto simp: is_hex_def is_digit_def visible_def less_eq_char_def)
  show "\<not> blank i" using ne chars by (intro not_blank_visible) auto
  show "plain_element i" using ne chars by (auto simp: plain_element_def)
qed

lemma supported_ext:
  "ext \<in> set supportedChatSourceExtensions \<Longrightarrow>
     CHR ''/'' \<notin> set ext \<and> ext \<noteq> [] \<and> visible (last ext)"
proof -
  have "list_all (\<lambda>ext. CHR ''/'' \<notin> set ext \<and> ext \<noteq> [] \<and> visible (last ext)) supportedChatSourceExtensions"
    by code_simp
  then show "ext \<in> set supportedChatSourceExtensions \<Longrightarrow> CHR ''/'' \<notin> set ext \<and> ext \<noteq> [] \<and> visible (last ext)"
    by (auto simp: list_all_iff)
qed

lemma chat_source_key_parts:
  assumes "plain_element i" "ext \<in> set supportedChatSourceExtensions"
  shows "split_at (CHR ''/'') (chat_source_key i ext) = [''chats'', ''raw'', i, ''source'' @ ext]"
  using assms supported_ext [OF assms(2)]
  by (simp add: chat_source_key_def split_at_append plain_element_def)

lemma ValidateChatSourceKey_iff:
  "ValidateChatSourceKey i key = Inr () \<longleftrightarrow>
     chatSessionIDPattern i \<and> (\<exists>ext\<in>set supportedChatSourceExtensions. key = chat_source_key i ext)"
proof (cases "chatSessionIDPattern i")
  case False
  then show ?thesis by (auto simp: ValidateChatSourceKey_def validateChatSessionID_def)
next
  case True
  note id = chat_id_plain [OF True]
  let ?parts = "split_at (CHR ''/'') key"
  have "key = chat_source_key i ext" if "length ?parts = 4" "?parts ! 0 = ''chats''" "?parts ! 1 = ''raw''" "?parts ! 2 = i"
      "?parts ! 3 = ''source'' @ ext" for ext
  proof -
    have "?parts = [''chats'', ''raw'', i, ''source'' @ ext]"
      using that by (intro nth_equalityI) (auto simp: numeral_eq_Suc less_Suc_eq)
    then have "key = join_at (CHR ''/'') [''chats'', ''raw'', i, ''source'' @ ext]" by (metis join_split)
    then show ?thesis by (simp add: chat_source_key_def)
  qed
  moreover have "\<not> blank key \<and> \<not> prefix ''/'' key \<and> ?parts = [''chats'', ''raw'', i, ''source'' @ ext]"
    if "ext \<in> set supportedChatSourceExtensions" "key = chat_source_key i ext" for ext
  proof -
    have "\<not> blank key"
      using that supported_ext [OF that(1)] by (intro not_blank_visible) (auto simp: chat_source_key_def visible_def less_eq_char_def)
    then show ?thesis using that chat_source_key_parts [OF id(1) that(1)] by (simp add: chat_source_key_def)
  qed
  moreover have "length ?parts = 4 \<and> ?parts ! 0 = ''chats'' \<and> ?parts ! 1 = ''raw'' \<and> ?parts ! 2 = i \<and>
      (\<exists>ext\<in>set supportedChatSourceExtensions. ?parts ! 3 = ''source'' @ ext)" if "ValidateChatSourceKey i key = Inr ()"
    using that True id
    unfolding ValidateChatSourceKey_def validateChatSessionID_def Let_def list_ex_iff
    by (simp split: if_splits)
  moreover have "ValidateChatSourceKey i key = Inr ()"
    if "\<not> blank key" "\<not> prefix ''/'' key" "?parts = [''chats'', ''raw'', i, ''source'' @ ext]"
      "ext \<in> set supportedChatSourceExtensions" for ext
  proof -
    have "list_ex (\<lambda>ext. ?parts ! 3 = ''source'' @ ext) supportedChatSourceExtensions"
      using that by (auto simp: list_ex_iff)
    then show ?thesis
      using that True id unfolding ValidateChatSourceKey_def validateChatSessionID_def Let_def by simp
  qed
  ultimately show ?thesis using True by blast
qed

text \<open>A raw chat source key is accepted exactly when it is the managed key of its session under one of the
  supported extensions; deriving a key from an imported path gives such a key, or fails because the id or
  the extension is not acceptable; and an accepted key resolves to the file of that session below the base
  directory.\<close>

theorem chat_source_key_exact:
  "(ValidateChatSourceKey i key = Inr ()) =
     (chatSessionIDPattern i \<and> (\<exists>ext\<in>set supportedChatSourceExtensions. key = chat_source_key i ext)) \<and>
   (case DeriveChatSourceKey i p of
      Inr k \<Rightarrow> ValidateChatSourceKey i k = Inr () \<and> k = chat_source_key i (lower_ascii (filepath_ext p)) \<and>
        ResolveChatSourcePath c i k = Inr (basePath c @ [''chats'', ''raw'', i, ''source'' @ lower_ascii (filepath_ext p)])
    | Inl _ \<Rightarrow> \<not> (chatSessionIDPattern i \<and> lower_ascii (filepath_ext p) \<in> set supportedChatSourceExtensions))"
proof -
  let ?ext = "lower_ascii (filepath_ext p)"
  have "ResolveChatSourcePath c i (chat_source_key i ?ext) = Inr (basePath c @ [''chats'', ''raw'', i, ''source'' @ ?ext])"
    if "chatSessionIDPattern i" "?ext \<in> set supportedChatSourceExtensions"
  proof -
    note id = chat_id_plain [OF that(1)]
    have "clean_onto (rev (basePath c)) [''chats'', ''raw'', i, ''source'' @ ?ext] =
        basePath c @ [''chats'', ''raw'', i, ''source'' @ ?ext]"
      using id(1) by (subst clean_onto_plain) (auto simp: plain_element_def)
    moreover have "ValidateChatSourceKey i (chat_source_key i ?ext) = Inr ()"
      using that by (auto simp: ValidateChatSourceKey_iff)
    ultimately show ?thesis
      using chat_source_key_parts [OF id(1) that(2)] by (simp add: ResolveChatSourcePath_def filepath_join_def)
  qed
  then show ?thesis
    using chat_id_plain(2) [of i]
    by (auto simp: ValidateChatSourceKey_iff DeriveChatSourceKey_def validateChatSessionID_def Let_def chat_source_key_def)
qed

lemma hex_encode_hex: "list_all is_hex (hex_encode s)"
proof -
  have "list_all (\<lambda>n. is_hex (hex_digit n)) [0..<16]" by code_simp
  then have "is_hex (hex_digit n)" if "n < 16" for n using that by (auto simp: list_all_iff)
  moreover have "(of_char ch :: nat) div 16 < 16" for ch
    using nat_of_char_less_256 [of ch] by (simp add: less_mult_imp_div_less)
  ultimately show ?thesis by (auto simp: hex_encode_def list_all_iff)
qed

section \<open>What the deleting operations touch\<close>

lemma rawRoot_eq: "rawRoot c = basePath c @ [''chats'', ''raw'']"
  unfolding rawRoot_def by (rule filepath_join_plain) (auto simp: plain_element_def)

lemma keeps_sync_parent [keep_intros]: "keeps (on_tree J) (sync_parent msg p)"
  unfolding sync_parent_def by (intro keep_intros)

lemma at_stays:
  "\<not> prefix p q \<Longrightarrow> at t q = v \<Longrightarrow> at (removed p t) q = v"
  "\<not> prefix p q \<Longrightarrow> at t q = v \<Longrightarrow> at (partly_removed p keep t) q = v"
  by simp_all

lemma keeps_removing:
  "\<not> prefix q p \<Longrightarrow> keeps (on_tree (\<lambda>t. at t p = g)) (sq (wrap m (remove_all q)) (sync_parent m' q))"
  by (intro keep_intros) (auto simp: at_stays)

lemma keeps_DeleteRecordDir:
  assumes "r \<noteq> ''/''" "\<not> prefix (basePath c @ [''figures'', r]) p" "\<not> prefix (basePath c @ [''data'', r]) p"
  shows "keeps (on_tree (\<lambda>t. at t p = g)) (DeleteRecordDir c r)"
proof (cases "validatePathSegment ''record id'' r")
  case (Inl e)
  then show ?thesis by (simp add: keeps_def DeleteRecordDir_def bnd_def lift_result_def)
next
  case (Inr u)
  then have "path_segment r" using validatePathSegment_iff [of "''record id''" r] assms(1) by simp
  then have "plain_element r" by (rule path_segment_plain)
  then have dirs: "filepath_join (basePath c) [k, r] = basePath c @ [k, r]" if "k \<in> {''figures'', ''data''}" for k
    using that by (intro filepath_join_plain) (auto simp: plain_element_def)
  show ?thesis
    unfolding DeleteRecordDir_def Let_def
    by (intro keeps_bnd keeps_lift_result keeps_each keeps_removing) (use dirs assms in auto)
qed

lemma keeps_DeleteChatSource:
  assumes "\<not> prefix (basePath c @ [''chats'', ''raw'', i]) p"
  shows "keeps (on_tree (\<lambda>t. at t p = g)) (DeleteChatSource c i)"
proof (cases "validateChatSessionID i")
  case (Inl e)
  then show ?thesis by (simp add: keeps_def DeleteChatSource_def bnd_def lift_result_def)
next
  case (Inr u)
  then have "plain_element i" using chat_id_plain(1) by (auto simp: validateChatSessionID_def split: if_splits)
  then have "filepath_join (basePath c) [''chats'', ''raw'', i] = basePath c @ [''chats'', ''raw'', i]"
    by (intro filepath_join_plain) (auto simp: plain_element_def)
  then show ?thesis
    unfolding DeleteChatSource_def Let_def by (intro keeps_bnd keeps_lift_result keeps_removing) (simp add: assms)
qed


section \<open>The record id \<open>/\<close>\<close>

definition slash_client :: Client where
  "slash_client = \<lparr> basePath = [''home'', ''pc''], workDir = [''tmp''] \<rparr>"

definition slash_disk :: files where
  "slash_disk =
    \<lparr> dkTree = [([''home'', ''pc'', ''figures'', ''r1'', ''a.png''], File ''x''),
        ([''home'', ''pc'', ''figures'', ''r1''], Dir), ([''home'', ''pc'', ''figures''], Dir),
        ([''home'', ''pc'', ''data''], Dir), ([''home'', ''pc''], Dir), ([''home''], Dir), ([], Dir)],
      dkTick = 0, dkFault = (\<lambda>_. None), dkCrash = None, dkTemp = (\<lambda>_. []), dkNow = (\<lambda>_. []), dkJunk = (\<lambda>_. []) \<rparr>"

text \<open>The record id \<open>/\<close> passes the name check, and deleting the files of that record deletes the figures
  and data files of every record and reports success.\<close>

theorem slash_id_deletes_everything:
  "validatePathSegment ''record id'' ''/'' = Inr () \<and>
   fst (DeleteRecordDir slash_client ''/'' slash_disk) = Inr () \<and>
   List.map fst (dkTree (snd (DeleteRecordDir slash_client ''/'' slash_disk))) = [[''home'', ''pc''], [''home''], []]"
  by code_simp

end
