(* ===== verification/Chat_Promotion.thy ===== *)
theory Chat_Promotion
  imports Local_Files_Props
begin

text \<open>The promotion of a staged chat source (\<open>PromoteChatSourceStage\<close> of \<open>filesystem/chat_source.go\<close>) on a
  file system whose calls fail or stop working at any point: the previous source or the new one is always
  whole.\<close>

section \<open>Promotion of a staged chat source\<close>

text \<open>The directories below \<open>chats/raw\<close>, as a map from their names to their contents.\<close>

definition source_dir :: "Client \<Rightarrow> string \<Rightarrow> path" where
  "source_dir c name = basePath c @ [''chats'', ''raw'', name]"

definition backup_name :: "string \<Rightarrow> string \<Rightarrow> string" where
  "backup_name i nonce = ''.backup-'' @ i @ ''-'' @ nonce"

definition sources :: "Client \<Rightarrow> string tree \<Rightarrow> string \<Rightarrow> path \<Rightarrow> string node option" where
  "sources c t name = view t (source_dir c name)"

lemma source_dir_parallel [simp]: "parallel (source_dir c m) (source_dir c n) = (m \<noteq> n)"
  by (simp add: source_dir_def)

lemma source_dir_inj [simp]: "(source_dir c m = source_dir c n) = (m = n)"
  by (simp add: source_dir_def)

lemma source_dir_raw [simp]: "butlast (source_dir c m) = rawRoot c" "\<not> prefix (source_dir c m) (rawRoot c)"
  by (simp_all add: source_dir_def rawRoot_eq butlast_append)

lemma sources_at [simp]: "sources c t n [] = at t (source_dir c n)"
  by (simp add: sources_def view_root)

lemma sources_removed [simp]: "sources c (removed (source_dir c n) t) = (sources c t)(n := gone)"
  by (rule ext) (simp add: sources_def view_removed)

lemma sources_partly:
  "sources c (partly_removed (source_dir c n) keep t) =
     (sources c t)(n := sources c (partly_removed (source_dir c n) keep t) n)"
  by (rule ext) (simp add: sources_def)

lemma sources_moved [simp]:
  "m \<noteq> n \<Longrightarrow> at t (source_dir c m) \<noteq> None \<Longrightarrow>
     sources c (moved (source_dir c m) (source_dir c n) t) = (sources c t)(m := gone, n := sources c t m)"
  by (rule ext) (simp add: sources_def view_moved_to view_moved_from view_moved_other)

lemma sources_made_dirs [simp]: "sources c (made_dirs (rawRoot c) made t) = sources c t"
  by (rule ext) (simp add: sources_def)

definition at_sources :: "Client \<Rightarrow> (string \<Rightarrow> path \<Rightarrow> string node option) \<Rightarrow> string tree \<Rightarrow> bool" where
  "at_sources c v t = (sources c t = v)"

lemma outcome_move_source:
  assumes "m \<noteq> n"
  shows "outcome (at_sources c v) (rename_file (source_dir c m) (source_dir c n))
     (either (\<lambda>_. at_sources c v) (\<lambda>_ t. v m [] \<noteq> None \<and> at_sources c (v(m := gone, n := v m)) t))"
  using assms by (intro outcome_rename) (auto simp: at_sources_def)

lemma outcome_remove_source:
  "outcome (at_sources c v) (remove_all (source_dir c m))
     (either (\<lambda>_ t. \<exists>w. at_sources c (v(m := w)) t) (\<lambda>_. at_sources c (v(m := gone))))"
proof (rule outcome_remove_all)
  fix t keep e assume "at_sources c v t"
  then have "at_sources c (v(m := sources c (partly_removed (source_dir c m) keep t) m))
      (partly_removed (source_dir c m) keep t)"
    unfolding at_sources_def by (metis sources_partly)
  then show "either (\<lambda>_ t. \<exists>w. at_sources c (v(m := w)) t) (\<lambda>_. at_sources c (v(m := gone))) (Inl e)
      (partly_removed (source_dir c m) keep t)"
    by auto
next
  fix t e assume "at_sources c v t"
  then have "at_sources c (v(m := v m)) t" by simp
  then show "either (\<lambda>_ t. \<exists>w. at_sources c (v(m := w)) t) (\<lambda>_. at_sources c (v(m := gone))) (Inl e) t"
    unfolding either_simps by blast
qed (simp add: at_sources_def)

text \<open>The roll-back: the previous source is back, or still whole in its backup.\<close>

lemma restore_source:
  assumes "b \<noteq> i"
  shows "outcome (at_sources c v) (restoreChatRawBackup (source_dir c i) (Some (source_dir c b)))
     (\<lambda>r t. \<exists>w u. (w = v b \<or> u = v b) \<and> at_sources c (v(i := w, b := u)) t)"
proof -
  let ?K = "\<lambda>r t. \<exists>w u. (w = v b \<or> u = v b) \<and> at_sources c (v(i := w, b := u)) t"
  have stays: "?K r t" if "at_sources c (v(i := w)) t" for r :: "error + unit" and w t
  proof -
    have "v(i := w) = v(i := w, b := v b)" using assms by auto
    then show ?thesis using that by metis
  qed
  have clear: "outcome (at_sources c v) (bnd (attempt (remove_all (source_dir c i))) (\<lambda>r.
      case r of
        Inl e \<Rightarrow> if err_is e ErrNotExist then ret () else fail (Wrapped ''remove failed chat raw promotion'' e)
      | Inr _ \<Rightarrow> ret ()))
     (\<lambda>r t. \<exists>w. at_sources c (v(i := w)) t)"
    by (rule outcome_try [OF outcome_remove_source]) (auto intro: outcome_ret outcome_fail)
  have settle: "outcome (\<lambda>t. at_sources c (v(i := w)) t)
       (sq (wrap ''restore previous chat raw source'' (rename_file (source_dir c b) (source_dir c i)))
           (wrap ''sync restored chat raw parent'' (syncDir (butlast (source_dir c i))))) ?K" for w
  proof (rule outcome_sq)
    show "outcome (at_sources c (v(i := w)))
        (wrap ''restore previous chat raw source'' (rename_file (source_dir c b) (source_dir c i)))
        (either (\<lambda>e. ?K (Inl e)) (\<lambda>_. at_sources c (v(i := v b, b := gone))))"
    proof (rule outcome_wrap_either, rule outcome_weaken [OF outcome_move_source [OF assms]], elim either_weaken)
      have eq: "(v(i := w))(b := gone, i := (v(i := w)) b) = v(i := v b, b := gone)"
        using assms by (auto simp: fun_upd_twist)
      show "at_sources c (v(i := v b, b := gone)) t"
        if "(v(i := w)) b [] \<noteq> None \<and> at_sources c ((v(i := w))(b := gone, i := (v(i := w)) b)) t" for t
        using that unfolding eq by blast
    qed (blast intro: stays)
    show "outcome (at_sources c (v(i := v b, b := gone)))
        (wrap ''sync restored chat raw parent'' (syncDir (butlast (source_dir c i)))) ?K"
      by (rule outcome_weaken [OF outcome_keeps]) (intro keep_intros, blast)
  qed
  show ?thesis
    unfolding restoreChatRawBackup_def option.case
  proof (rule outcome_sq [OF outcome_weaken [OF clear]])
    show "either (\<lambda>e. ?K (Inl e)) (\<lambda>_ t. \<exists>w. at_sources c (v(i := w)) t) r t"
      if "\<exists>w. at_sources c (v(i := w)) t" for r :: "error + unit" and t
      using that stays by (cases r) auto
    show "outcome (\<lambda>t. \<exists>w. at_sources c (v(i := w)) t)
        (sq (wrap ''restore previous chat raw source'' (rename_file (source_dir c b) (source_dir c i)))
            (wrap ''sync restored chat raw parent'' (syncDir (butlast (source_dir c i))))) ?K"
      by (rule outcome_some) (rule settle)
  qed
qed

text \<open>Only the directories \<open>i\<close>, \<open>st\<close> and \<open>b\<close> have changed, and the previous source is in place or whole in
  its backup, or the new one is in place.\<close>

definition old_or_new ::
  "Client \<Rightarrow> string \<Rightarrow> string \<Rightarrow> string \<Rightarrow> (string \<Rightarrow> path \<Rightarrow> string node option) \<Rightarrow> string tree \<Rightarrow> bool" where
  "old_or_new c i st b v t \<longleftrightarrow>
     (\<exists>x y z. (x = v i \<or> z = v i \<or> x = v st) \<and> at_sources c (v(i := x, st := y, b := z)) t)"

lemma old_or_newI:
  "at_sources c (v(i := x, st := y, b := z)) t \<Longrightarrow> x = v i \<or> z = v i \<or> x = v st \<Longrightarrow> old_or_new c i st b v t"
  unfolding old_or_new_def by blast

lemma or_restore_old_or_new:
  assumes "outcome J m (either (\<lambda>_. at_sources c u) A)" and names: "distinct [i, st, b]"
    and u: "u = v(i := x, st := y, b := z)" "x = v i \<or> z = v i \<or> x = v st"
    and bk: "bk = None \<or> bk = Some (source_dir c b) \<and> z = v i"
  shows "outcome J (or_restore (source_dir c i) bk msg m) (either (\<lambda>_. old_or_new c i st b v) A)"
proof -
  have "outcome (at_sources c u) (restoreChatRawBackup (source_dir c i) bk) (\<lambda>_. old_or_new c i st b v)"
    using bk
  proof
    assume "bk = None"
    moreover have "old_or_new c i st b v t" if "at_sources c u t" for t
      using that u(2) unfolding u(1) by (rule old_or_newI)
    ultimately show ?thesis by (simp add: restoreChatRawBackup_def outcome_ret)
  next
    assume "bk = Some (source_dir c b) \<and> z = v i"
    then have bk: "bk = Some (source_dir c b)" "u b = v i" using u names by auto
    have eq: "u(i := w, b := w') = v(i := w, st := y, b := w')" for w w'
      using u names by (auto simp: fun_eq_iff)
    have "b \<noteq> i" using names by auto
    from restore_source [OF this, of c u] show ?thesis
      unfolding bk(1) eq bk(2) by (rule outcome_weaken) (auto intro: old_or_newI)
  qed
  then have undone: "outcome (at_sources c u) (restoreChatRawBackup (source_dir c i) bk)
      (either (\<lambda>_. old_or_new c i st b v) (\<lambda>_. old_or_new c i st b v))"
    by (rule outcome_weaken) (auto simp: either_def split: sum.splits)
  show ?thesis
    unfolding or_restore_def
    by (rule outcome_try [OF assms(1)])
       (auto intro!: outcome_try [OF undone] outcome_fail outcome_ret)
qed

text \<open>A promotion that returns: the new source in place, the stage and the backup gone.\<close>

definition promoted_source ::
  "Client \<Rightarrow> string \<Rightarrow> string \<Rightarrow> string \<Rightarrow> string \<Rightarrow> (string \<Rightarrow> path \<Rightarrow> string node option) \<Rightarrow> StoredFile \<Rightarrow>
     string tree \<Rightarrow> bool" where
  "promoted_source c i st b src v f t \<longleftrightarrow>
     (sources c t = v(i := v st, st := gone) \<or> sources c t = v(i := v st, st := gone, b := gone)) \<and>
     map_option content_size (v st [src]) = Some (sfSize f)"

lemma back_up_active_outcome:
  assumes "chatSessionIDPattern i"
  shows "outcome (at_sources c v) (back_up_active c i (source_dir c i))
     (either (\<lambda>_. at_sources c v)
        (\<lambda>bk t. bk = None \<and> at_sources c v t \<or>
           (\<exists>n. bk = Some (source_dir c (backup_name i n)) \<and>
              at_sources c (v(i := gone, backup_name i n := v i)) t)))"
  (is "outcome _ _ ?K")
proof -
  have nonce: "outcome (at_sources c v) randomHexNonce
      (either (\<lambda>_. at_sources c v) (\<lambda>n t. list_all is_hex n \<and> at_sources c v t))"
    by (rule outcomeI)
       (auto simp: randomHexNonce_def wrap_def sq_def bnd_def disk_plain_def disk_read_def disk_call_def Let_def
         unchanged_def ret_def hex_encode_hex hex_encode_hex [of "[]", unfolded hex_encode_def, simplified]
         split: prod.splits sum.splits option.splits list.splits)
  have name: "filepath_join (basePath c) [''chats'', ''raw'', ''.backup-'' @ i @ ''-'' @ n] = source_dir c (backup_name i n)"
    if "list_all is_hex n" for n
  proof -
    have "CHR ''/'' \<notin> set n" using that by (auto simp: list_all_iff is_hex_def is_digit_def less_eq_char_def)
    then have "plain_element (backup_name i n)"
      using chat_id_plain [OF assms] by (simp add: plain_element_def backup_name_def)
    then show ?thesis
      unfolding source_dir_def backup_name_def by (intro filepath_join_plain) (auto simp: plain_element_def)
  qed
  have "i \<noteq> backup_name i n" for n by (simp add: backup_name_def)
  then have move: "outcome (\<lambda>t. list_all is_hex n \<and> at_sources c v t)
      (let backupDir = filepath_join (basePath c) [''chats'', ''raw'', ''.backup-'' @ i @ ''-'' @ n] in
       sq (wrap ''backup previous chat raw source'' (rename_file (source_dir c i) backupDir)) (ret (Some backupDir))) ?K" for n
    unfolding Let_def
    by (intro outcome_pure outcome_sq outcome_wrap_either, unfold either_simps name)
       (rule outcome_weaken [OF outcome_move_source], assumption, elim either_weaken, assumption, assumption,
        auto intro!: outcome_ret)
  have "outcome (at_sources c v) (bnd randomHexNonce (\<lambda>n.
      let backupDir = filepath_join (basePath c) [''chats'', ''raw'', ''.backup-'' @ i @ ''-'' @ n] in
       sq (wrap ''backup previous chat raw source'' (rename_file (source_dir c i) backupDir)) (ret (Some backupDir)))) ?K"
    by (rule outcome_bnd [OF outcome_weaken [OF nonce] move]) simp
  then show ?thesis
    unfolding back_up_active_def
    by (intro outcome_try [OF outcome_keeps_either]) (intro keep_intros, auto intro!: outcome_ret outcome_fail)
qed

lemma promote_rest:
  assumes names: "distinct [i, st, b]"
    and u: "bk = None \<and> u = v \<or> bk = Some (source_dir c b) \<and> u = v(i := gone, b := v i)"
  shows "outcome (at_sources c u)
    (sq (or_restore (source_dir c i) bk m1 (rename_file (source_dir c st) (source_dir c i)))
    (sq (or_restore (source_dir c i) bk m2 (syncDir (butlast (source_dir c i))))
    (bnd (or_restore (source_dir c i) bk m3 (lstat (source_dir c i @ [src]))) (\<lambda>info.
    sq (case bk of
          None \<Rightarrow> ret ()
        | Some dir \<Rightarrow> wrap m4 (remove_all dir))
       (ret \<lparr> sfFilename = fn, sfS3Key = key, sfPath = source_dir c i @ [src], sfSize = content_size info \<rparr>)))))
    (either (\<lambda>_. old_or_new c i st b v) (promoted_source c i st b src v))"
  (is "outcome ?J ?m ?K")
proof -
  define w where "w = u(st := gone, i := v st)"
  have ust: "u st = v st" using u names by auto
  have w: "w = v(i := v st, st := gone, b := w b)" "bk = None \<and> w b = v b \<or> bk = Some (source_dir c b) \<and> w b = v i"
    using u names unfolding w_def by (auto simp: fun_eq_iff)
  have u': "u = v(i := u i, st := v st, b := u b)" "u i = v i \<or> u b = v i \<or> u i = v st"
    "bk = None \<or> bk = Some (source_dir c b) \<and> u b = v i"
    using u names by (auto simp: fun_eq_iff)
  note at_w = or_restore_old_or_new [OF _ names w(1)]
  have bad: "old_or_new c i st b v t" if "at_sources c w t" for t
    using that old_or_newI [of c v i "v st" st gone b "w b" t] w(1) by simp
  have promote: "outcome (at_sources c u) (rename_file (source_dir c st) (source_dir c i))
      (either (\<lambda>_. at_sources c u) (\<lambda>_ t. v st [] \<noteq> None \<and> at_sources c w t))"
    using outcome_move_source [of st i c u] names ust unfolding w_def by auto
  let ?J = "\<lambda>t. v st [] \<noteq> None \<and> at_sources c w t"
  have sync: "outcome ?J (syncDir (butlast (source_dir c i))) (either (\<lambda>_. at_sources c w) (\<lambda>_. ?J))"
    by (rule outcome_weaken [OF outcome_keeps_either], intro keep_intros) (elim either_weaken, auto)
  let ?there = "\<lambda>info t. v st [src] = Some info \<and> at_sources c w t"
  have "v st [src] = at t (source_dir c i @ [src])" if "?J t" for t
  proof -
    have "sources c t i = v st" using that names by (simp add: at_sources_def w_def ust)
    then have "v st [src] = view t (source_dir c i) [src]" "v st [] = view t (source_dir c i) []"
      by (auto simp: sources_def)
    then show ?thesis using that by (auto simp: view_def split: if_splits)
  qed
  then have verify: "outcome ?J (lstat (source_dir c i @ [src])) (either (\<lambda>_. at_sources c w) ?there)"
    by (intro outcome_weaken [OF outcome_lstat]) (auto simp: either_def split: sum.splits)
  have tidy: "outcome (?there info)
      (case bk of None \<Rightarrow> ret () | Some dir \<Rightarrow> wrap m4 (remove_all dir))
      (either (\<lambda>_. old_or_new c i st b v) (\<lambda>_ t. v st [src] = Some info \<and>
        (sources c t = v(i := v st, st := gone) \<or> sources c t = v(i := v st, st := gone, b := gone))))" for info
  proof (cases bk)
    case None
    then have "w b = v b" using w(2) by simp
    then have "v(i := v st, st := gone, b := w b) = v(i := v st, st := gone)" using names by (auto simp: fun_eq_iff)
    with w(1) have "w = v(i := v st, st := gone)" by metis
    then show ?thesis using None by (auto simp: at_sources_def intro: outcome_ret)
  next
    case (Some dir)
    then have dir: "dir = source_dir c b" using w(2) by simp
    have eq: "w(b := x) = v(i := v st, st := gone, b := x)" for x by (subst w(1)) simp
    have "outcome (?there info) (remove_all dir)
       (either (\<lambda>_ t. \<exists>x. at_sources c (w(b := x)) t) (\<lambda>_ t. v st [src] = Some info \<and> at_sources c (w(b := gone)) t))"
      unfolding dir
      by (intro outcome_pure outcome_weaken [OF outcome_remove_source]) (elim either_weaken, auto)
    then show ?thesis
      unfolding Some option.case eq
      by (intro outcome_wrap_either) (erule outcome_weaken, elim either_weaken, auto simp: at_sources_def intro: old_or_newI)
  qed
  show ?thesis
  proof (rule outcome_sq [where R = ?J], goal_cases)
    case 1
    show ?case unfolding either_simps by (rule or_restore_old_or_new [OF promote names u'])
  next
    case 2
    show ?case
    proof (rule outcome_sq [where R = ?J], goal_cases)
      case 1
      show ?case unfolding either_simps by (rule at_w [OF sync]) (use w(2) in blast)+
    next
      case 2
      show ?case
      proof (rule outcome_bnd [where R = ?there], goal_cases)
        case 1
        show ?case unfolding either_simps by (rule at_w [OF verify]) (use w(2) in blast)+
      next
        case (2 info)
        show ?case
          by (rule outcome_sq [OF outcome_weaken [OF tidy]], unfold either_simps, assumption)
             (auto intro!: outcome_ret simp: promoted_source_def)
      qed
    qed
  qed
qed


lemma managed_stage:
  assumes "resolveManagedStageDir c p = Inr q"
  shows "q = source_dir c (last (butlast p))" "prefix ''.staging-'' (last (butlast p))"
proof -
  have q: "q = butlast p" "q \<noteq> []" "butlast q = basePath c @ [''chats'', ''raw'']" "prefix ''.staging-'' (last q)"
    using assms by (auto simp: resolveManagedStageDir_def rawRoot_eq Let_def split: if_splits)
  then show "prefix ''.staging-'' (last (butlast p))" by simp
  have "q = butlast q @ [last q]" using q(2) by simp
  then show "q = source_dir c (last (butlast p))" using q(1,3) by (simp add: source_dir_def)
qed

lemma valid_key_path:
  assumes "ValidateChatSourceKey i key = Inr ()"
  shows "chatSessionIDPattern i" "filepath_join (basePath c) [''chats'', ''raw'', i] = source_dir c i"
    "filepath_join (basePath c) [key] = source_dir c i @ [filepath_base key]"
proof -
  obtain ext where k: "chatSessionIDPattern i" "ext \<in> set supportedChatSourceExtensions" "key = chat_source_key i ext"
    using assms by (auto simp: ValidateChatSourceKey_iff)
  show "chatSessionIDPattern i" by (rule k)
  note plain = chat_id_plain(1) [OF k(1)]
  show "filepath_join (basePath c) [''chats'', ''raw'', i] = source_dir c i"
    using plain unfolding source_dir_def by (intro filepath_join_plain) (auto simp: plain_element_def)
  have parts: "split_at (CHR ''/'') key = [''chats'', ''raw'', i, ''source'' @ ext]"
    using chat_source_key_parts [OF plain k(2)] k(3) by simp
  have "last key \<noteq> CHR ''/''"
    using supported_ext [OF k(2)] k(3) by (auto simp: chat_source_key_def dest: last_in_set)
  moreover have "key \<noteq> []" using k(3) by (simp add: chat_source_key_def)
  ultimately have "rev (dropWhile (\<lambda>c. c = CHR ''/'') (rev key)) = key"
    by (cases key rule: rev_cases) auto
  then have "filepath_base key = ''source'' @ ext" using \<open>key \<noteq> []\<close> parts by (simp add: filepath_base_def Let_def)
  moreover have "clean_onto (rev (basePath c)) [''chats'', ''raw'', i, ''source'' @ ext] =
      basePath c @ [''chats'', ''raw'', i, ''source'' @ ext]"
    using plain by (subst clean_onto_plain) (auto simp: plain_element_def)
  ultimately show "filepath_join (basePath c) [key] = source_dir c i @ [filepath_base key]"
    by (simp add: filepath_join_def parts source_dir_def)
qed

text \<open>C25. However a promotion ends, cut off by a crash or failing at any step, it changes only the active
  directory, the stage and one backup of the session; when it reports success the staged source is in
  place whole, with the reported size, and the stage is gone; when it fails the previous source is in place
  or whole in the backup, or the new one is in place.\<close>

theorem promote_source_safe:
  "case PromoteChatSourceStage c stage d of (r, d') \<Rightarrow>
     (\<exists>n. case r of
         Inl _ \<Rightarrow> old_or_new c (stChatSessionID stage) (last (butlast (stStagedPath stage)))
             (backup_name (stChatSessionID stage) n) (sources c (dkTree d)) (dkTree d')
       | Inr f \<Rightarrow> promoted_source c (stChatSessionID stage) (last (butlast (stStagedPath stage)))
             (backup_name (stChatSessionID stage) n) (filepath_base (stRawSourceKey stage)) (sources c (dkTree d)) f (dkTree d'))"
proof -
  define i where "i = stChatSessionID stage"
  define st where "st = last (butlast (stStagedPath stage))"
  define v where "v = sources c (dkTree d)"
  let ?K = "\<lambda>r t. \<exists>n. either (\<lambda>_. old_or_new c i st (backup_name i n) v)
    (promoted_source c i st (backup_name i n) (filepath_base (stRawSourceKey stage)) v) r t"
  have fails: "?K (Inl e) t" if "at_sources c v t" for e t
    using that old_or_newI [of c v i "v i" st "v st" "backup_name i []" "v (backup_name i [])" t] by auto
  have whole: "outcome J m ?K" if "outcome J m (either (\<lambda>_. old_or_new c i st (backup_name i n) v)
      (promoted_source c i st (backup_name i n) (filepath_base (stRawSourceKey stage)) v))" for J m n
    using that by (rule outcome_weaken) blast
  have run: "outcome (at_sources c v) (PromoteChatSourceStage c stage) ?K"
    unfolding PromoteChatSourceStage_def i_def [symmetric]
  proof (intro outcome_lifted, goal_cases)
    case (2 u)
    then have "ValidateChatSourceKey i (stRawSourceKey stage) = Inr ()" by simp
    note key = valid_key_path(1) [OF this] valid_key_path(2,3) [OF this, of c]
    show ?case
    proof (cases "stStagedPath stage = []")
      case False
      then show ?thesis
        unfolding Let_def key(2,3) if_not_P [OF False]
      proof (intro outcome_sq_keeps outcome_lifted, goal_cases)
        case (6 q)
        note stage = managed_stage [OF this(2), folded st_def]
        then have "distinct [i, st, backup_name i n]" for n
          using chat_id_chars [OF key(1), of "hd i"] key(1)
          by (cases i) (auto simp: backup_name_def chatSessionIDPattern_def is_hex_def is_digit_def less_eq_char_def prefix_def)
        note rest = whole [OF promote_rest [OF this]]
        show ?case
          unfolding stage(1)
        proof (rule outcome_bnd)
          show "outcome (at_sources c v) (back_up_active c i (source_dir c i)) (either (\<lambda>e. ?K (Inl e))
              (\<lambda>bk t. bk = None \<and> at_sources c v t \<or>
                 (\<exists>n. bk = Some (source_dir c (backup_name i n)) \<and>
                    at_sources c (v(i := gone, backup_name i n := v i)) t)))"
            by (rule outcome_weaken [OF back_up_active_outcome [OF key(1)]], erule either_weaken)
               (rule fails, assumption+)
        qed (intro outcome_or outcome_some outcome_pure, rule rest, blast, rule rest, blast)
      qed (use fails in \<open>auto intro!: keep_intros outcome_fail simp: at_sources_def\<close>)
    qed (auto intro!: outcome_fail fails)
  qed (auto intro!: outcome_fail fails)
  have "?K (fst (PromoteChatSourceStage c stage d)) (dkTree (snd (PromoteChatSourceStage c stage d)))"
    using run unfolding outcome_def by (simp add: at_sources_def v_def)
  then show ?thesis
    unfolding i_def st_def v_def either_def case_prod_beta .
qed

end
