(* ===== verification/File_Copy.thy ===== *)
theory File_Copy
  imports Local_Files_Props
begin

text \<open>Copying a figure or data file into the store (\<open>copyInto\<close> of \<open>filesystem/filesystem.go\<close>): the target
  is untouched or holds exactly the bytes of the source, whatever fails.\<close>

definition copy_temp :: "path \<Rightarrow> path \<Rightarrow> bool" where
  "copy_temp dir tmp \<longleftrightarrow> (\<exists>s. tmp = dir @ [''.copy-'' @ s])"

lemma copy_tempI: "copy_temp dir (dir @ [''.copy-'' @ s])"
  by (auto simp: copy_temp_def)

lemmas copy_temp_created [simp] = copy_tempI [simplified]

text \<open>Only missing directories above the target and temporary files beside it may have appeared.\<close>

definition copy_frame :: "path \<Rightarrow> (path \<Rightarrow> string node option) \<Rightarrow> string tree \<Rightarrow> bool" where
  "copy_frame dir g t \<longleftrightarrow>
     (\<forall>p. at t p = g p \<or> g p = None \<and> prefix p dir \<or> (\<exists>q. copy_temp dir q \<and> prefix q p))"

lemma copy_frame_steps:
  assumes "copy_frame dir g t"
  shows "copy_frame dir g (made_dirs dir made t)"
    "copy_temp dir q \<Longrightarrow> copy_frame dir g (put_node q n t)"
    "copy_temp dir q \<Longrightarrow> copy_frame dir g (removed q t)"
proof -
  note frame = assms [unfolded copy_frame_def, rule_format]
  show "copy_frame dir g (made_dirs dir made t)" unfolding copy_frame_def at_made_dirs using frame by metis
  show "copy_frame dir g (put_node q n t)" if "copy_temp dir q"
    unfolding copy_frame_def at_put_node using frame that by (metis prefix_order.refl)
  show "copy_frame dir g (removed q t)" if "copy_temp dir q"
    unfolding copy_frame_def at_removed using frame that by metis
qed

text \<open>While the copy runs the source is as it was, and is not the temporary file.\<close>

definition copying :: "path \<Rightarrow> path \<Rightarrow> (path \<Rightarrow> string node option) \<Rightarrow> string \<Rightarrow> string tree \<Rightarrow> bool" where
  "copying dir source g content t \<longleftrightarrow> copy_frame dir g t \<and> at t source = Some (File content) \<and> g source = Some (File content)"

lemma copyingE: "copying dir source g content t \<Longrightarrow> copy_frame dir g t"
  by (simp add: copying_def)

lemma copying_steps:
  assumes "copying dir source g content t"
  shows "copying dir source g content (made_dirs dir made t)"
    "copy_temp dir q \<Longrightarrow> q \<noteq> source \<Longrightarrow> copying dir source g content (put_node q n t)"
  using assms by (auto simp: copying_def copy_frame_steps)

lemma outcome_temp_file:
  "outcome (copying dir source g content) (create_in (File []) dir ''.copy-'')
    (either (\<lambda>_. copy_frame dir g)
      (\<lambda>tmp t. (copy_temp dir tmp \<and> tmp \<noteq> source) \<and> copying dir source g content t))"
proof -
  have "q \<noteq> source" if "copying dir source g content t" "at t q = None" for t q
    using that by (auto simp: copying_def)
  then show ?thesis
    by (intro outcomeI)
       (auto simp: create_in_def disk_call_def Let_def unchanged_def find_Some_iff copyingE copying_steps
         split: option.splits prod.splits sum.splits node.splits)
qed

lemma outcome_fill:
  assumes "copy_temp dir tmp" "tmp \<noteq> source"
  shows "outcome (copying dir source g content) (copy_open tmp source)
    (either (\<lambda>_. copy_frame dir g)
       (\<lambda>n t. n = int (length content) \<and> copy_frame dir g t \<and> at t tmp = Some (File content)))"
proof -
  have "outcome (copying dir source g content) (read_file source)
     (either (\<lambda>_. copy_frame dir g) (\<lambda>c t. c = content \<and> copy_frame dir g t))"
    by (rule outcome_weaken [OF outcome_read_file]) (auto simp: either_def copying_def split: sum.splits)
  then show ?thesis
    unfolding copy_open_def
    by (intro outcome_bnd [where R = "\<lambda>c t. c = content \<and> copy_frame dir g t"] outcome_pure)
       (auto simp: assms copy_frame_steps
          intro!: outcome_sq [where R = "\<lambda>t. copy_frame dir g t \<and> at t tmp = Some (File content)"]
          outcome_write_open outcome_ret)
qed

text \<open>A copy that failed, and one that succeeded.\<close>

definition copied :: "path \<Rightarrow> path \<Rightarrow> (path \<Rightarrow> string node option) \<Rightarrow> error + StoredFile \<Rightarrow> string tree \<Rightarrow> bool" where
  "copied target source g res t \<longleftrightarrow>
    (case res of
       Inl _ \<Rightarrow> copy_frame (butlast target) g t
     | Inr f \<Rightarrow>
         sfPath f = target \<and>
         (\<exists>content. g source = Some (File content) \<and> at t target = Some (File content) \<and>
            sfSize f = int (length content)) \<and>
         (\<forall>q. at t q = g q \<or> prefix target q \<or> g q = None \<and> prefix q (butlast target) \<or>
            (\<exists>x. copy_temp (butlast target) x \<and> prefix x q)))"

lemma copied_Inl [simp]: "copied target source g (Inl e) = copy_frame (butlast target) g"
  by (simp add: copied_def fun_eq_iff)

lemma move_into_place:
  assumes "copy_temp (butlast target) tmp" "target \<noteq> []" "copy_frame (butlast target) g t"
    "at t tmp = Some (File content)" "g source = Some (File content)" "tmp \<noteq> target"
    "f = \<lparr> sfFilename = n, sfS3Key = k, sfPath = target, sfSize = int (length content) \<rparr>"
  shows "copied target source g (Inr f) (moved tmp target t)"
proof -
  obtain s where tmp: "tmp = butlast target @ [s]" using assms(1) by (auto simp: copy_temp_def)
  have target: "target = butlast target @ [last target]" using assms(2) by simp
  have "s \<noteq> last target" using tmp target assms(6) by metis
  then have "parallel (butlast target @ [s]) (butlast target @ [last target])" by simp
  then have par: "parallel tmp target" unfolding tmp using target by simp
  then have "at (moved tmp target t) target = Some (File content)" using assms(4) by (simp add: at_moved)
  moreover have "at (moved tmp target t) q = g q \<or> prefix target q \<or> g q = None \<and> prefix q (butlast target) \<or>
            (\<exists>x. copy_temp (butlast target) x \<and> prefix x q)" for q
    using assms(1,3) unfolding at_moved [OF par] copy_frame_def by metis
  ultimately show ?thesis using assms(5,7) by (simp add: copied_def)
qed

lemma rename_into_place:
  assumes "copy_temp (butlast target) tmp" "target \<noteq> []" "g source = Some (File content)"
    "f = \<lparr> sfFilename = n, sfS3Key = k, sfPath = target, sfSize = int (length content) \<rparr>"
  shows "outcome (\<lambda>t. copy_frame (butlast target) g t \<and> at t tmp = Some (File content)) (rename_file tmp target)
    (either (\<lambda>_. copy_frame (butlast target) g) (\<lambda>_. copied target source g (Inr f)))"
proof (cases "tmp = target")
  case True
  have "copied target source g (Inr f) t" if "copy_frame (butlast target) g t" "at t tmp = Some (File content)" for t
    using that assms True by (auto simp: copied_def copy_frame_def)
  then show ?thesis
    using True
    by (intro outcomeI)
       (auto simp: rename_file_def disk_call_def Let_def unchanged_def look_def
         split: option.splits prod.splits sum.splits if_splits)
next
  case False
  then show ?thesis
    using move_into_place [where target = target and tmp = tmp and f = f and source = source and content = content
        and g = g and n = n and k = k] assms
    by (intro outcome_rename) simp_all
qed

lemma resolvePath_nonempty:
  assumes "resolvePath c kind r f = Inr target" "plain_element kind"
  shows "target \<noteq> []"
proof -
  have "path_segment r \<or> r = ''/''" "path_segment f \<or> f = ''/''"
    using assms(1) validatePathSegment_iff by (auto simp: resolvePath_def split: sum.splits)
  then have "split_at (CHR ''/'') r = [r] \<and> plain_element r \<or> r = ''/''"
    "split_at (CHR ''/'') f = [f] \<and> plain_element f \<or> f = ''/''"
    by (auto simp: path_segment_def)
  then have "filepath_join (basePath c) [kind, r, f] \<noteq> []"
    using assms(2) by (auto simp: filepath_join_def plain_element_def)
  then show ?thesis using assms(1) by (auto simp: resolvePath_def split: sum.splits)
qed

lemma copy_frame_refl: "at t = g \<Longrightarrow> copy_frame dir g t"
  by (simp add: copy_frame_def)

text \<open>From the temporary file to the target.\<close>

lemma outcome_fill_temp:
  assumes "copy_temp (butlast target) tmp" "tmp \<noteq> source" "target \<noteq> []" "g source = Some (File content)"
  shows "outcome (copying (butlast target) source g content) (fill_temp tmp target source)
    (either (\<lambda>_. copy_frame (butlast target) g)
      (\<lambda>w. copied target source g (Inr \<lparr> sfFilename = n, sfS3Key = k, sfPath = target, sfSize = w \<rparr>)))"
  (is "outcome (copying ?dir source g content) _ (either _ (\<lambda>w. copied target source g (Inr (?f w))))")
  unfolding fill_temp_def closing_after_def
proof (rule outcome_cleanup, unfold either_simps)
  let ?J = "copying ?dir source g content"
  let ?there = "\<lambda>t. copy_frame ?dir g t \<and> at t tmp = Some (File content)"
  show "outcome (copy_frame ?dir g) (remove_file tmp) (\<lambda>_. copy_frame ?dir g)"
    by (rule outcome_keeps) (intro keep_intros copy_frame_steps(3) assms)
  have rename: "outcome ?there (wrap m (rename_file tmp target))
      (either (\<lambda>_. copy_frame ?dir g) (\<lambda>_. copied target source g (Inr (?f (int (length content))))))" for m
    using rename_into_place [of target tmp g source content "?f (int (length content))" n k] assms
    by (intro outcome_wrap_either) simp
  have plain: "outcome ?there (m :: (files, unit) act) (either (\<lambda>_. copy_frame ?dir g) (\<lambda>_. ?there))"
    if "keeps (on_tree ?there) m" for m
    by (rule outcome_weaken [OF outcome_keeps_either [OF that]]) (auto simp: either_def split: sum.splits)
  have fill: "outcome ?J (wrap m (cleanup_unless_ok disk_plain (copy_open tmp source)))
      (either (\<lambda>_. copy_frame ?dir g) (\<lambda>w t. w = int (length content) \<and> ?there t))" for m
    by (intro outcome_wrap_either outcome_cleanup)
       (rule outcome_weaken [OF outcome_fill [OF assms(1,2)]], simp add: either_def split: sum.splits,
        simp add: outcome_keeps keeps_disk_plain)
  show "outcome ?J
     (bnd (wrap ''copy source file'' (cleanup_unless_ok disk_plain (copy_open tmp source))) (\<lambda>w.
      sq (wrap ''sync destination file'' (cleanup_unless_ok disk_plain disk_plain))
      (sq (wrap ''close destination file'' disk_plain)
      (sq (wrap ''rename to destination'' (rename_file tmp target)) (ret w)))))
     (either (\<lambda>_. copy_frame ?dir g) (\<lambda>w. copied target source g (Inr (?f w))))"
    by (rule outcome_bnd, unfold either_simps, rule fill, rule outcome_pure,
        rule outcome_sq [where R = ?there], unfold either_simps, rule plain, intro keep_intros,
        rule outcome_sq [where R = ?there], unfold either_simps, rule plain, intro keep_intros,
        rule outcome_sq, unfold either_simps, rule rename, rule outcome_ret, simp)
qed

lemma outcome_copy_file:
  assumes "target \<noteq> []" "g source = Some (File content)"
  shows "outcome (copying (butlast target) source g content)
    (bnd (wrap m (create_in (File []) (butlast target) ''.copy-'')) (\<lambda>tmp.
     bnd (fill_temp tmp target source) (\<lambda>w. ret \<lparr> sfFilename = n, sfS3Key = k, sfPath = target, sfSize = w \<rparr>)))
    (copied target source g)"
proof (rule outcome_bnd)
  show "outcome (copying (butlast target) source g content) (wrap m (create_in (File []) (butlast target) ''.copy-''))
      (either (\<lambda>e. copied target source g (Inl e))
        (\<lambda>tmp t. (copy_temp (butlast target) tmp \<and> tmp \<noteq> source) \<and> copying (butlast target) source g content t))"
    unfolding copied_Inl by (rule outcome_wrap_either) (rule outcome_temp_file)
  fix tmp
  show "outcome (\<lambda>t. (copy_temp (butlast target) tmp \<and> tmp \<noteq> source) \<and> copying (butlast target) source g content t)
     (bnd (fill_temp tmp target source) (\<lambda>w. ret \<lparr> sfFilename = n, sfS3Key = k, sfPath = target, sfSize = w \<rparr>))
     (copied target source g)"
    by (rule outcome_pure, elim conjE, rule outcome_bnd, unfold copied_Inl,
        rule outcome_fill_temp [where g = g and content = content and n = n and k = k], assumption, assumption,
        rule assms, rule assms, simp add: outcome_ret)
qed

lemma copyInto_outcome:
  assumes "plain_element kind"
  shows "case copyInto c kind r p d of (res, d') \<Rightarrow>
     (case resolvePath c kind r (filepath_base p) of
        Inl _ \<Rightarrow> (\<exists>e. res = Inl e) \<and> dkTree d' = dkTree d
      | Inr target \<Rightarrow> copied target (filepath_abs (workDir c) p) (at (dkTree d)) res (dkTree d'))"
proof -
  define g where "g = at (dkTree d)"
  define source where "source = filepath_abs (workDir c) p"
  define J where "J = (\<lambda>t. t = dkTree d)"
  let ?K = "\<lambda>res t. case resolvePath c kind r (filepath_base p) of
        Inl _ \<Rightarrow> (\<exists>e. res = Inl e) \<and> t = dkTree d | Inr target \<Rightarrow> copied target source g res t"
  have stat: "outcome J (wrap m (lstat source)) (either (\<lambda>_. J) (\<lambda>n t. g source = Some n \<and> J t))" for m
    by (intro outcome_wrap_either outcome_weaken [OF outcome_lstat])
       (auto simp: either_def J_def g_def split: sum.splits)
  have fails: "?K (Inl e) t" if "J t" for e t
    using that by (auto simp: J_def g_def copy_frame_refl split: sum.splits)
  have copy: "outcome J (sq (wrap m1 (mkdir_all (butlast target))) (sq (wrap m2 (open_file source)) rest))
      (copied target source g)"
    if "g source = Some (File content)" "outcome (copying (butlast target) source g content) rest (copied target source g)"
    for target content m1 m2 rest
  proof -
    have "outcome (copying (butlast target) source g content)
        (sq (wrap m1 (mkdir_all (butlast target))) (sq (wrap m2 (open_file source)) rest)) (copied target source g)"
      unfolding open_file_def
      by (intro outcome_sq_keeps that(2) keep_intros copying_steps) (simp_all add: copyingE)
    then show ?thesis
      by (rule outcome_conseq) (use that(1) in \<open>simp_all add: copying_def J_def copy_frame_refl g_def\<close>)
  qed
  have "outcome J (copyInto c kind r p) ?K"
  proof (cases "blank p")
    case False
    show ?thesis
      unfolding copyInto_def Let_def if_not_P [OF False] source_def [symmetric]
    proof (rule outcome_bnd, rule outcome_weaken [OF stat], erule either_weaken, rule fails, assumption, assumption,
        rule outcome_pure, goal_cases)
      case (1 n)
      then show ?case
      proof (cases n; cases "resolvePath c kind r (filepath_base p)")
        fix content target assume here: "n = File content" "resolvePath c kind r (filepath_base p) = Inr target"
        then show ?thesis
          using copy [OF _ outcome_copy_file [OF resolvePath_nonempty [OF here(2) assms]]] 1 by simp
      qed (use fails in \<open>auto intro!: outcome_fail\<close>)
    qed
  qed (simp add: copyInto_def outcome_fail fails)
  then show ?thesis
    unfolding source_def [symmetric] g_def [symmetric] outcome_def J_def case_prod_beta by simp
qed

text \<open>C26. Copying a file into the store is all or nothing: when it fails, at whatever call, nothing has
  changed but missing directories above the target and temporary files beside it; when it succeeds the target
  holds exactly the bytes the source had, and their number is reported.\<close>

theorem copy_into_atomic:
  "(case CopyFigure c r p d of (res, d') \<Rightarrow>
     (case ResolveFigurePath c r (filepath_base p) of
       Inl _ \<Rightarrow> (\<exists>e. res = Inl e) \<and> dkTree d' = dkTree d
     | Inr target \<Rightarrow> copied target (filepath_abs (workDir c) p) (at (dkTree d)) res (dkTree d'))) \<and>
   (case CopyDataFile c r p d of (res, d') \<Rightarrow>
     (case ResolveDataFilePath c r (filepath_base p) of
       Inl _ \<Rightarrow> (\<exists>e. res = Inl e) \<and> dkTree d' = dkTree d
     | Inr target \<Rightarrow> copied target (filepath_abs (workDir c) p) (at (dkTree d)) res (dkTree d')))"
  unfolding CopyFigure_def CopyDataFile_def ResolveFigurePath_def ResolveDataFilePath_def
  by (intro conjI copyInto_outcome) (simp_all add: plain_element_def)

end
