(* ===== verification/Json.thy ===== *)
theory Json
  imports Prelude
begin

text \<open>What the code uses of Go's \<open>encoding/base64\<close>, \<open>unicode/utf8\<close> and \<open>encoding/json\<close>: the standard
  base64 alphabet with padding, the escaping of strings by \<open>Marshal\<close>, and the grammar \<open>Unmarshal\<close> accepts. A
  string is its bytes.\<close>

abbreviation byte :: "char \<Rightarrow> nat" where
  "byte c \<equiv> of_char c"

section \<open>Base64\<close>

definition base64_alphabet :: string where
  "base64_alphabet = ''ABCDEFGHIJKLMNOPQRSTUVWXYZabcdefghijklmnopqrstuvwxyz0123456789+/''"

definition enc6 :: "nat \<Rightarrow> char" where
  "enc6 n = base64_alphabet ! n"

definition dec6 :: "char \<Rightarrow> nat option" where
  "dec6 c = map_of (zip base64_alphabet [0..<64]) c"

fun base64_encode :: "string \<Rightarrow> string" where
  "base64_encode [] = []"
| "base64_encode [a] = [enc6 (byte a div 4), enc6 (byte a mod 4 * 16), CHR ''='', CHR ''='']"
| "base64_encode [a, b] =
    [enc6 (byte a div 4), enc6 (byte a mod 4 * 16 + byte b div 16), enc6 (byte b mod 16 * 4), CHR ''='']"
| "base64_encode (a # b # c # s) =
    enc6 (byte a div 4) # enc6 (byte a mod 4 * 16 + byte b div 16) #
    enc6 (byte b mod 16 * 4 + byte c div 64) # enc6 (byte c mod 64) # base64_encode s"

text \<open>Quanta of four characters; padding only at the end of the text, with anything in the unused bits.\<close>

fun decode_quanta :: "string \<Rightarrow> string option" where
  "decode_quanta [] = Some []"
| "decode_quanta (a # b # c # d # s) =
    (case (dec6 a, dec6 b) of
       (Some x, Some y) \<Rightarrow>
         let p = char_of (x * 4 + y div 16) in
         (case dec6 c of
            None \<Rightarrow> if c = CHR ''='' \<and> d = CHR ''='' \<and> s = [] then Some [p] else None
          | Some z \<Rightarrow>
              let q = char_of (y mod 16 * 16 + z div 4) in
              (case dec6 d of
                 None \<Rightarrow> if d = CHR ''='' \<and> s = [] then Some [p, q] else None
               | Some w \<Rightarrow> map_option (\<lambda>t. p # q # char_of (z mod 4 * 64 + w) # t) (decode_quanta s)))
     | _ \<Rightarrow> None)"
| "decode_quanta _ = None"

text \<open>Line breaks are skipped wherever they stand.\<close>

definition base64_decode :: "string \<Rightarrow> string option" where
  "base64_decode s = decode_quanta (filter (\<lambda>c. c \<noteq> CHR 0x0A \<and> c \<noteq> CHR 0x0D) s)"

section \<open>UTF-8\<close>

text \<open>The bytes of the first character of a string, 0 when they are not well-formed.\<close>

definition second_ok :: "nat \<Rightarrow> char \<Rightarrow> bool" where
  "second_ok a b =
    ((if a = 0xE0 then 0xA0 else if a = 0xF0 then 0x90 else 0x80) \<le> byte b \<and>
     byte b \<le> (if a = 0xED then 0x9F else if a = 0xF4 then 0x8F else 0xBF))"

definition continues :: "char \<Rightarrow> bool" where
  "continues b = (0x80 \<le> byte b \<and> byte b \<le> 0xBF)"

definition rune_size :: "nat \<Rightarrow> nat" where
  "rune_size a =
    (if a < 0x80 then 1
     else if 0xC2 \<le> a \<and> a \<le> 0xDF then 2
     else if 0xE0 \<le> a \<and> a \<le> 0xEF then 3
     else if 0xF0 \<le> a \<and> a \<le> 0xF4 then 4
     else 0)"

definition rune_tail_ok :: "nat \<Rightarrow> string \<Rightarrow> bool" where
  "rune_tail_ok a tail = (case tail of [] \<Rightarrow> True | b # t \<Rightarrow> second_ok a b \<and> list_all continues t)"

fun rune_len :: "string \<Rightarrow> nat" where
  "rune_len [] = 0"
| "rune_len (a # s) =
    (let k = rune_size (byte a) in
     if k \<le> Suc (length s) \<and> rune_tail_ok (byte a) (take (k - 1) s) then k else 0)"

definition replacement :: string where
  "replacement = [CHR 0xEF, CHR 0xBF, CHR 0xBD]" \<comment> \<open>U+FFFD\<close>

definition utf8 :: "nat \<Rightarrow> string" where
  "utf8 r =
    (if r < 0x80 then [char_of r]
     else if r < 0x800 then [char_of (0xC0 + r div 64), char_of (0x80 + r mod 64)]
     else if r < 0x10000 then
       [char_of (0xE0 + r div 4096), char_of (0x80 + r div 64 mod 64), char_of (0x80 + r mod 64)]
     else [char_of (0xF0 + r div 262144), char_of (0x80 + r div 4096 mod 64),
           char_of (0x80 + r div 64 mod 64), char_of (0x80 + r mod 64)])"

text \<open>Every malformed byte replaced.\<close>

function utf8_clean :: "string \<Rightarrow> string" where
  "utf8_clean [] = []"
| "utf8_clean (c # s) =
    (let k = rune_len (c # s) in
     if k = 0 then replacement @ utf8_clean s
     else take k (c # s) @ utf8_clean (drop k (c # s)))"
  by pat_completeness auto
termination
  by (relation "measure length") auto

function utf8_valid :: "string \<Rightarrow> bool" where
  "utf8_valid [] = True"
| "utf8_valid (c # s) =
    (let k = rune_len (c # s) in if k = 0 then False else utf8_valid (drop k (c # s)))"
  by pat_completeness auto
termination
  by (relation "measure length") auto

section \<open>Strings in JSON text\<close>

definition hex4_of :: "nat \<Rightarrow> string" where
  "hex4_of n = List.map (\<lambda>k. ''0123456789abcdef'' ! (n div 16 ^ k mod 16)) [3, 2, 1, 0]"

text \<open>\<open>Marshal\<close> escapes quotes, control characters and the characters special to HTML.\<close>

definition escape_byte :: "char \<Rightarrow> string" where
  "escape_byte c =
    (if c = CHR 0x22 \<or> c = CHR 0x5C then [CHR 0x5C, c]
     else if c = CHR 0x08 then [CHR 0x5C, CHR ''b'']
     else if c = CHR 0x0C then [CHR 0x5C, CHR ''f'']
     else if c = CHR 0x0A then [CHR 0x5C, CHR ''n'']
     else if c = CHR 0x0D then [CHR 0x5C, CHR ''r'']
     else if c = CHR 0x09 then [CHR 0x5C, CHR ''t'']
     else if byte c < 0x20 \<or> c = CHR ''<'' \<or> c = CHR ''>'' \<or> c = CHR ''&'' then [CHR 0x5C, CHR ''u''] @ hex4_of (byte c)
     else [c])"

function json_escape :: "string \<Rightarrow> string" where
  "json_escape [] = []"
| "json_escape (c # s) =
    (let k = rune_len (c # s) in
     if k = 0 then [CHR 0x5C, CHR ''u''] @ hex4_of 0xFFFD @ json_escape s
     else if byte c < 0x80 then escape_byte c @ json_escape s
     else if take 3 (c # s) = utf8 0x2028 then [CHR 0x5C, CHR ''u''] @ hex4_of 0x2028 @ json_escape (drop 3 (c # s))
     else if take 3 (c # s) = utf8 0x2029 then [CHR 0x5C, CHR ''u''] @ hex4_of 0x2029 @ json_escape (drop 3 (c # s))
     else take k (c # s) @ json_escape (drop k (c # s)))"
  by pat_completeness auto
termination
  by (relation "measure length") auto

definition json_string :: "string \<Rightarrow> string" where
  "json_string s = [CHR 0x22] @ json_escape s @ [CHR 0x22]"

definition hex_value :: "char \<Rightarrow> nat option" where
  "hex_value c =
    (if CHR ''0'' \<le> c \<and> c \<le> CHR ''9'' then Some (byte c - 48)
     else if CHR ''a'' \<le> c \<and> c \<le> CHR ''f'' then Some (byte c - 87)
     else if CHR ''A'' \<le> c \<and> c \<le> CHR ''F'' then Some (byte c - 55)
     else None)"

fun hex4 :: "string \<Rightarrow> (nat \<times> string) option" where
  "hex4 (a # b # c # d # s) =
    (case (hex_value a, hex_value b, hex_value c, hex_value d) of
       (Some w, Some x, Some y, Some z) \<Rightarrow> Some (((w * 16 + x) * 16 + y) * 16 + z, s)
     | _ \<Rightarrow> None)"
| "hex4 _ = None"

definition unescape :: "char \<Rightarrow> char option" where
  "unescape e =
    (if e = CHR 0x22 \<or> e = CHR 0x5C \<or> e = CHR ''/'' then Some e
     else if e = CHR ''b'' then Some (CHR 0x08)
     else if e = CHR ''f'' then Some (CHR 0x0C)
     else if e = CHR ''n'' then Some (CHR 0x0A)
     else if e = CHR ''r'' then Some (CHR 0x0D)
     else if e = CHR ''t'' then Some (CHR 0x09)
     else None)"

text \<open>The character of a \<open>\u\<close> escape whose digits are \<open>r\<close>, and the text after it: two halves of a surrogate
  pair make one character, a lone half makes the replacement character.\<close>

definition surrogate_rest :: "nat \<Rightarrow> string \<Rightarrow> string \<times> string" where
  "surrogate_rest r s =
    (if r < 0xD800 \<or> 0xE000 \<le> r then (utf8 r, s)
     else if prefix [CHR 0x5C, CHR ''u''] s then
       (case hex4 (drop 2 s) of
          Some (r', s') \<Rightarrow>
            if r < 0xDC00 \<and> 0xDC00 \<le> r' \<and> r' < 0xE000
            then (utf8 (0x10000 + (r - 0xD800) * 0x400 + (r' - 0xDC00)), s')
            else (replacement, s)
        | None \<Rightarrow> (replacement, s))
     else (replacement, s))"

lemma hex4_length: "hex4 s = Some (r, t) \<Longrightarrow> length s = length t + 4"
  by (induction s rule: hex4.induct) (auto split: option.splits)

lemma surrogate_rest_length: "surrogate_rest r s = (u, t) \<Longrightarrow> length t \<le> length s"
  by (auto simp: surrogate_rest_def split: if_splits option.splits dest!: hex4_length)

text \<open>The string after an opening quote, unquoted, and the text after its closing quote.\<close>

function string_body :: "string \<Rightarrow> (string \<times> string) option" where
  "string_body [] = None"
| "string_body (c # s) =
    (if c = CHR 0x22 then Some ([], s)
     else if c = CHR 0x5C then
       (case s of
          [] \<Rightarrow> None
        | e # t \<Rightarrow>
            if e = CHR ''u'' then
              (case hex4 t of
                 None \<Rightarrow> None
               | Some (r, t') \<Rightarrow>
                   (case surrogate_rest r t' of (x, t'') \<Rightarrow>
                      map_option (\<lambda>(y, z). (x @ y, z)) (string_body t'')))
            else
              (case unescape e of
                 None \<Rightarrow> None
               | Some x \<Rightarrow> map_option (\<lambda>(y, z). (x # y, z)) (string_body t)))
     else if byte c < 0x20 then None
     else
       let k = rune_len (c # s) in
       if k = 0 then map_option (\<lambda>(y, z). (replacement @ y, z)) (string_body s)
       else map_option (\<lambda>(y, z). (take k (c # s) @ y, z)) (string_body (drop k (c # s))))"
  by pat_completeness auto
termination
  by (relation "measure length") (auto dest!: hex4_length surrogate_rest_length [OF sym])

section \<open>JSON values\<close>

datatype json = JNull | JBool bool | JNumber string | JString string | JArray "json list" | JObject "(string \<times> json) list"

definition is_space :: "char \<Rightarrow> bool" where
  "is_space c = (c \<in> {CHR 0x20, CHR 0x09, CHR 0x0D, CHR 0x0A})"

definition skip_space :: "string \<Rightarrow> string" where
  "skip_space s = dropWhile is_space s"

definition decimal :: "char \<Rightarrow> bool" where
  "decimal c = (CHR ''0'' \<le> c \<and> c \<le> CHR ''9'')"

lemma skip_space_length: "length (skip_space s) \<le> length s"
  by (simp add: skip_space_def length_dropWhile_le)

lemma skip_space_Cons: "skip_space s = c # t \<Longrightarrow> length t < length s"
  using skip_space_length [of s] by simp

text \<open>A number: an optional sign, an integer without a leading zero, a fraction, an exponent.\<close>

definition some_digits :: "string \<Rightarrow> (string \<times> string) option" where
  "some_digits s = (let d = takeWhile decimal s in if d = [] then None else Some (d, dropWhile decimal s))"

definition fraction :: "string \<Rightarrow> (string \<times> string) option" where
  "fraction s =
    (case s of
       c # t \<Rightarrow> if c = CHR ''.'' then map_option (\<lambda>(d, r). (c # d, r)) (some_digits t) else Some ([], s)
     | [] \<Rightarrow> Some ([], []))"

definition exponent :: "string \<Rightarrow> (string \<times> string) option" where
  "exponent s =
    (case s of
       c # t \<Rightarrow>
         if c = CHR ''e'' \<or> c = CHR ''E'' then
           (case t of
              d # u \<Rightarrow>
                if d = CHR ''+'' \<or> d = CHR ''-'' then map_option (\<lambda>(n, r). (c # d # n, r)) (some_digits u)
                else map_option (\<lambda>(n, r). (c # n, r)) (some_digits t)
            | [] \<Rightarrow> None)
         else Some ([], s)
     | [] \<Rightarrow> Some ([], []))"

definition integer_part :: "string \<Rightarrow> (string \<times> string) option" where
  "integer_part s =
    (case s of
       c # t \<Rightarrow> if c = CHR ''0'' then Some ([c], t) else some_digits s
     | [] \<Rightarrow> None)"

definition number :: "string \<Rightarrow> (string \<times> string) option" where
  "number s =
    (let (sign, s1) = (if prefix ''-'' s then (''-'', tl s) else ([], s)) in
     case integer_part s1 of
       None \<Rightarrow> None
     | Some (i, s2) \<Rightarrow>
         (case fraction s2 of
            None \<Rightarrow> None
          | Some (f, s3) \<Rightarrow>
              (case exponent s3 of
                 None \<Rightarrow> None
               | Some (e, s4) \<Rightarrow> Some (sign @ i @ f @ e, s4))))"

text \<open>A value, with \<open>d\<close> more levels of nesting allowed, and the text after it. A value that is read
  consumes a character (\<open>json_value_shorter\<close>), so the length tests of the recursion never fail.\<close>

function json_value :: "nat \<Rightarrow> string \<Rightarrow> (json \<times> string) option"
  and json_members :: "nat \<Rightarrow> string \<Rightarrow> ((string \<times> json) list \<times> string) option"
  and json_elements :: "nat \<Rightarrow> string \<Rightarrow> (json list \<times> string) option"
  where
  "json_value d s =
    (case skip_space s of
       [] \<Rightarrow> None
     | c # t \<Rightarrow>
         if c = CHR 0x22 then map_option (\<lambda>(x, r). (JString x, r)) (string_body t)
         else if c = CHR ''{'' then
           (if d = 0 then None
            else if prefix ''}'' (skip_space t) then Some (JObject [], tl (skip_space t))
            else map_option (\<lambda>(m, r). (JObject m, r)) (json_members (d - 1) t))
         else if c = CHR ''['' then
           (if d = 0 then None
            else if prefix '']'' (skip_space t) then Some (JArray [], tl (skip_space t))
            else map_option (\<lambda>(m, r). (JArray m, r)) (json_elements (d - 1) t))
         else if prefix ''true'' (c # t) then Some (JBool True, drop 4 (c # t))
         else if prefix ''false'' (c # t) then Some (JBool False, drop 5 (c # t))
         else if prefix ''null'' (c # t) then Some (JNull, drop 4 (c # t))
         else map_option (\<lambda>(n, r). (JNumber n, r)) (number (c # t)))"
| "json_members d s =
    (case skip_space s of
       [] \<Rightarrow> None
     | c # t \<Rightarrow>
         if c \<noteq> CHR 0x22 then None
         else
           (case string_body t of
              None \<Rightarrow> None
            | Some (k, r) \<Rightarrow>
                (case skip_space r of
                   [] \<Rightarrow> None
                 | e # r1 \<Rightarrow>
                     if e \<noteq> CHR '':'' \<or> length s \<le> length r1 then None
                     else
                       (case json_value d r1 of
                          None \<Rightarrow> None
                        | Some (v, r2) \<Rightarrow>
                            (case skip_space r2 of
                               [] \<Rightarrow> None
                             | f # r3 \<Rightarrow>
                                 if f = CHR ''}'' then Some ([(k, v)], r3)
                                 else if f \<noteq> CHR '','' \<or> length s \<le> length r3 then None
                                 else map_option (\<lambda>(m, r4). ((k, v) # m, r4)) (json_members d r3))))))"
| "json_elements d s =
    (case json_value d s of
       None \<Rightarrow> None
     | Some (v, r) \<Rightarrow>
         (case skip_space r of
            [] \<Rightarrow> None
          | f # r1 \<Rightarrow>
              if f = CHR '']'' then Some ([v], r1)
              else if f \<noteq> CHR '','' \<or> length s \<le> length r1 then None
              else map_option (\<lambda>(m, r2). (v # m, r2)) (json_elements d r1)))"
  by pat_completeness auto

termination
  by (relation "measure (case_sum (\<lambda>(d, s). 2 * length s) (case_sum (\<lambda>(d, s). 2 * length s + 1) (\<lambda>(d, s). 2 * length s + 1)))")
     (auto dest!: skip_space_Cons)

declare json_value.simps [simp del] json_members.simps [simp del] json_elements.simps [simp del]

text \<open>\<open>json.Unmarshal\<close>'s check that the text is one value, at most 10000 levels deep.\<close>

definition json_text :: "string \<Rightarrow> json option" where
  "json_text s =
    (case json_value 10000 s of
       Some (v, r) \<Rightarrow> if skip_space r = [] then Some v else None
     | None \<Rightarrow> None)"

section \<open>Progress of the parser\<close>

lemma string_body_shorter: "string_body s = Some (x, r) \<Longrightarrow> length r < length s"
proof (induction s arbitrary: x r rule: string_body.induct)
  case (2 c s)
  consider "c = CHR 0x22" | "c = CHR 0x5C" "c \<noteq> CHR 0x22" | "c \<noteq> CHR 0x22" "c \<noteq> CHR 0x5C" by blast
  then show ?case
  proof cases
    case 1
    then show ?thesis using "2.prems" by simp
  next
    case 2
    then obtain e t where s: "s = e # t" using "2.prems" by (auto split: list.splits)
    show ?thesis
    proof (cases "e = CHR ''u''")
      case True
      then obtain n t1 where n: "hex4 t = Some (n, t1)" using 2 s "2.prems" by (auto split: option.splits)
      obtain y t2 where y: "surrogate_rest n t1 = (y, t2)" by fastforce
      show ?thesis
        using 2 s True n y "2.prems" "2.IH"(1) [OF 2(2,1) s True n refl y [symmetric]] hex4_length [OF n]
          surrogate_rest_length [OF y] by fastforce
    next
      case False
      then show ?thesis
        using 2 s "2.prems" "2.IH"(2) [OF 2(2,1) s False] by (fastforce split: option.splits)
    qed
  next
    case 3
    then have run: "(if rune_len (c # s) = 0 then map_option (\<lambda>(y, z). (replacement @ y, z)) (string_body s)
        else map_option (\<lambda>(y, z). (take (rune_len (c # s)) (c # s) @ y, z)) (string_body (drop (rune_len (c # s)) (c # s))))
        = Some (x, r)" "\<not> byte c < 0x20"
      using "2.prems" by (auto simp: Let_def split: if_splits)
    show ?thesis
      using run(1) "2.IH"(3) [OF 3 run(2) refl] "2.IH"(4) [OF 3 run(2) refl]
      by (cases "rune_len (c # s) = 0") (auto simp del: rune_len.simps)
  qed
qed simp

lemma some_digits_shorter: "some_digits s = Some (d, r) \<Longrightarrow> length r < length s"
proof -
  assume "some_digits s = Some (d, r)"
  then have "takeWhile decimal s \<noteq> []" "r = dropWhile decimal s"
    by (auto simp: some_digits_def Let_def split: if_splits)
  moreover have "length s = length (takeWhile decimal s) + length (dropWhile decimal s)"
    by (metis length_append takeWhile_dropWhile_id)
  ultimately show ?thesis by simp
qed

lemma fraction_length: "fraction s = Some (d, r) \<Longrightarrow> length r \<le> length s"
  by (auto simp: fraction_def split: list.splits if_splits dest!: some_digits_shorter)

lemma exponent_length: "exponent s = Some (d, r) \<Longrightarrow> length r \<le> length s"
  by (auto simp: exponent_def split: list.splits if_splits dest!: some_digits_shorter)

lemma integer_part_shorter: "integer_part s = Some (d, r) \<Longrightarrow> length r < length s"
  by (auto simp: integer_part_def split: list.splits if_splits dest!: some_digits_shorter)

lemma number_shorter: "number s = Some (n, r) \<Longrightarrow> length r < length s"
  by (fastforce simp: number_def Let_def split: if_splits option.splits
      dest!: integer_part_shorter fraction_length exponent_length)

lemma tl_skip_space: "length (tl (skip_space s)) \<le> length s"
  using skip_space_length [of s] by (cases "skip_space s") auto

text \<open>A value consumes at least a character, so the length tests of the parser never refuse a text.\<close>

lemma json_value_shorter:
  "json_value d s = Some (v, r) \<Longrightarrow> length r < length s"
  "json_members d s = Some (m, r) \<Longrightarrow> length r < length s"
  "json_elements d s = Some (es, r) \<Longrightarrow> length r < length s"
proof (induction d s and d s and d s arbitrary: v r and m r and es r
    rule: json_value_json_members_json_elements.induct)
  case (1 d s)
  show ?case
  proof (cases "skip_space s")
    case Nil
    then show ?thesis using "1.prems" by (simp add: json_value.simps)
  next
    case (Cons c t)
    note len = skip_space_Cons [OF Cons]
    note run = "1.prems" [unfolded json_value.simps [of d s] Cons list.case]
    consider "c = CHR 0x22" | "c = CHR ''{''" | "c = CHR ''[''" | "c \<notin> {CHR 0x22, CHR ''{'', CHR ''[''}" by blast
    then show ?thesis
    proof cases
      case 1
      then show ?thesis using run len by (auto dest: string_body_shorter)
    next
      case 2
      then show ?thesis
        using run len tl_skip_space [of t] "1.IH"(1) [OF Cons] by (auto split: if_splits intro: less_trans)
    next
      case 3
      then show ?thesis
        using run len tl_skip_space [of t] "1.IH"(2) [OF Cons] by (auto split: if_splits intro: less_trans)
    next
      case 4
      then have "c \<noteq> CHR 0x22" "c \<noteq> CHR ''{''" "c \<noteq> CHR ''[''" by simp_all
      note run = run [unfolded if_not_P [OF this(1)] if_not_P [OF this(2)] if_not_P [OF this(3)]]
      have "r = drop 4 (c # t) \<or> r = drop 5 (c # t) \<or> (\<exists>n. number (c # t) = Some (n, r))"
        using run by (cases "prefix ''true'' (c # t)"; cases "prefix ''false'' (c # t)"; cases "prefix ''null'' (c # t)") auto
      then show ?thesis using len number_shorter [of "c # t"] by fastforce
    qed
  qed
next
  case (2 d s)
  note run = "2.prems" [unfolded json_members.simps [of d s]]
  from run obtain t where s: "skip_space s = CHR 0x22 # t"
    by (auto split: if_splits list.splits)
  from run [unfolded s] obtain k r0 where k: "string_body t = Some (k, r0)"
    by (auto split: option.splits)
  from run [unfolded s list.case k option.case prod.case] obtain e r1 where r1: "skip_space r0 = e # r1"
    by (auto split: list.splits)
  note run = run [unfolded s list.case k option.case prod.case r1]
  from run obtain w r2 where w: "e = CHR '':''" "length r1 < length s" "json_value d r1 = Some (w, r2)"
    by (auto split: if_splits option.splits)
  with run obtain f r3 where r3: "skip_space r2 = f # r3"
    by (auto split: list.splits)
  have step: "\<not> CHR 0x22 \<noteq> CHR 0x22" "\<not> (e \<noteq> CHR '':'' \<or> length s \<le> length r1)" using w by auto
  have "length r2 < length r1" by (rule "2.IH"(1) [OF s step(1) k refl r1 step(2) w(3)])
  with w(2) skip_space_Cons [OF r3] have r3_len: "length r3 < length s" by simp
  show ?case
  proof (cases "f = CHR ''}''")
    case True
    then show ?thesis using run w r3 r3_len by auto
  next
    case False
    then show ?thesis
      using run w r3 r3_len "2.IH"(2) [OF s step(1) k refl r1 step(2) w(3) refl r3 False]
      by (auto split: if_splits intro: less_trans)
  qed
next
  case (3 d s)
  note run = "3.prems" [unfolded json_elements.simps [of d s]]
  from run obtain w r0 where w: "json_value d s = Some (w, r0)" by (auto split: option.splits)
  from run [unfolded w option.case prod.case] obtain f r1 where r1: "skip_space r0 = f # r1"
    by (auto split: list.splits)
  have "length r0 < length s" by (rule "3.IH"(1) [OF w])
  with skip_space_Cons [OF r1] have len: "length r1 < length s" by simp
  show ?case
  proof (cases "f = CHR '']''")
    case True
    then show ?thesis using run w r1 len by auto
  next
    case False
    then show ?thesis
      using run w r1 len "3.IH"(2) [OF w refl r1 False] by (auto split: if_splits intro: less_trans)
  qed
qed

end
