(* ===== verification/Json_Props.thy ===== *)
theory Json_Props
  imports Json
begin

text \<open>Round trips of the text encodings: base64, and a string escaped by \<open>Marshal\<close> and read by the JSON
  parser.\<close>

section \<open>Base64\<close>

lemma dec6_enc6 [simp]: "n < 64 \<Longrightarrow> dec6 (enc6 n) = Some n"
proof -
  have "list_all (\<lambda>n. dec6 (enc6 n) = Some n) [0..<64]" by code_simp
  then show "n < 64 \<Longrightarrow> dec6 (enc6 n) = Some n" by (simp add: list_all_iff)
qed

lemma dec6_pad [simp]: "dec6 (CHR ''='') = None"
  by code_simp

lemma enc6_no_break: "n < 64 \<Longrightarrow> enc6 n \<noteq> CHR 0x0A \<and> enc6 n \<noteq> CHR 0x0D"
proof -
  have "list_all (\<lambda>n. enc6 n \<noteq> CHR 0x0A \<and> enc6 n \<noteq> CHR 0x0D) [0..<64]" by code_simp
  then show "n < 64 \<Longrightarrow> enc6 n \<noteq> CHR 0x0A \<and> enc6 n \<noteq> CHR 0x0D" by (simp add: list_all_iff)
qed

lemma byte_less [simp]: "byte c < 256"
  by (rule nat_of_char_less_256)

lemma six_bits [simp]:
  "byte a div 4 < 64" "byte a mod 4 * 16 < 64" "byte a mod 4 * 16 + byte b div 16 < 64"
  "byte b mod 16 * 4 < 64" "byte b mod 16 * 4 + byte c div 64 < 64" "byte c mod 64 < 64"
  using byte_less [of a] byte_less [of b] byte_less [of c] by linarith+

lemma byte_parts [simp]:
  "byte b div 16 div 16 = 0" "byte b div 16 mod 16 = byte b div 16"
  "byte b div 64 div 4 = 0" "byte b div 64 mod 4 = byte b div 64"
proof -
  have "byte b div 16 < 16" "byte b div 64 < 4"
    using byte_less [of b] by (simp_all add: less_mult_imp_div_less)
  then show "byte b div 16 div 16 = 0" "byte b div 16 mod 16 = byte b div 16"
    "byte b div 64 div 4 = 0" "byte b div 64 mod 4 = byte b div 64"
    by (simp_all only: div_less mod_less)
qed

lemma decode_encode_quanta: "decode_quanta (base64_encode s) = Some s"
  by (induction s rule: base64_encode.induct) (simp_all add: Let_def)

lemma base64_no_break: "c \<in> set (base64_encode s) \<Longrightarrow> c \<noteq> CHR 0x0A \<and> c \<noteq> CHR 0x0D"
  by (induction s rule: base64_encode.induct) (auto simp: enc6_no_break)

lemma base64_round_trip: "base64_decode (base64_encode s) = Some s"
proof -
  have "filter (\<lambda>c. c \<noteq> CHR 0x0A \<and> c \<noteq> CHR 0x0D) (base64_encode s) = base64_encode s"
    using base64_no_break by (auto simp: filter_id_conv)
  then show ?thesis by (simp add: base64_decode_def decode_encode_quanta)
qed

section \<open>Strings\<close>

lemma rune_len_le: "rune_len s \<le> length s"
  by (cases s) (auto simp: Let_def)

text \<open>The length of the first character does not depend on what follows it.\<close>

lemma rune_len_take:
  assumes "rune_len s \<noteq> 0"
  shows "rune_len (take (rune_len s) s @ t) = rune_len s"
proof (cases s)
  case (Cons a r)
  let ?k = "rune_size (byte a)"
  have "rune_len s = (if ?k \<le> Suc (length r) \<and> rune_tail_ok (byte a) (take (?k - 1) r) then ?k else 0)"
    by (simp only: Cons rune_len.simps Let_def)
  then have k: "rune_len s = ?k" "?k \<noteq> 0" "?k \<le> Suc (length r)" "rune_tail_ok (byte a) (take (?k - 1) r)"
    using assms by argo+
  from k(2) have "take ?k s = a # take (?k - 1) r" unfolding Cons by (simp only: take_Cons' if_False)
  moreover have "rune_len (a # take (?k - 1) r @ t) = ?k"
    using k(2-4) by (simp only: rune_len.simps Let_def) (simp add: min_def)
  ultimately show ?thesis using k(1) by simp
qed (use assms in simp)

lemma rune_len_ascii: "byte c < 0x80 \<Longrightarrow> rune_len (c # s) = 1"
  by (simp add: rune_size_def rune_tail_ok_def)

lemma utf8_clean_valid: "utf8_valid s \<Longrightarrow> utf8_clean s = s"
  by (induction s rule: utf8_clean.induct) (auto simp: Let_def simp del: rune_len.simps split: if_splits)

lemma utf8_valid_ascii: "list_all (\<lambda>c. byte c < 0x80) s \<Longrightarrow> utf8_valid s"
  by (induction s) (simp_all add: rune_len_ascii del: rune_len.simps)

declare rune_len.simps [simp del] string_body.simps(2) [simp del] json_escape.simps(2) [simp del]
  utf8_clean.simps(2) [simp del]

lemma hex_value_digit: "hex_value (''0123456789abcdef'' ! (k mod 16)) = Some (k mod 16)"
proof -
  have "list_all (\<lambda>k. hex_value (''0123456789abcdef'' ! k) = Some k) [0..<16]" by code_simp
  then have "\<forall>k<16. hex_value (''0123456789abcdef'' ! k) = Some k" unfolding list_all_iff by auto
  then show ?thesis by simp
qed

lemma hex4_of_hex4: "n < 0x10000 \<Longrightarrow> hex4 (hex4_of n @ s) = Some (n, s)"
proof -
  assume "n < 0x10000"
  have join: "m div 16 * 16 + m mod 16 = m" for m :: nat by (rule div_mult_mod_eq)
  have down: "n div 16 div 16 = n div 256" "n div 256 div 16 = n div 4096" by (simp_all add: div_mult2_eq [symmetric])
  have top: "n div 4096 mod 16 = n div 4096"
    using \<open>n < 0x10000\<close> by (intro mod_less) (simp add: less_mult_imp_div_less)
  have sum: "((n div 4096 mod 16 * 16 + n div 256 mod 16) * 16 + n div 16 mod 16) * 16 + n mod 16 = n"
    using join [of "n div 256"] join [of "n div 16"] join [of n] unfolding down top by (simp only:)
  define h where "h k = ''0123456789abcdef'' ! (k mod 16)" for k :: nat
  have h: "hex_value (h k) = Some (k mod 16)" for k unfolding h_def by (rule hex_value_digit)
  have "hex4_of n = [h (n div 4096), h (n div 256), h (n div 16), h n]" by (simp add: hex4_of_def h_def)
  then show ?thesis by (simp only: append.simps hex4.simps h option.case prod.case sum)
qed

lemma string_body_escape_u:
  assumes "n < 0xD800 \<or> 0xE000 \<le> n" "n < 0x10000"
  shows "string_body ([CHR 0x5C, CHR ''u''] @ hex4_of n @ t) = map_option (\<lambda>(y, z). (utf8 n @ y, z)) (string_body t)"
  using hex4_of_hex4 [OF assms(2), of t] assms(1)
  by (simp add: string_body.simps(2) surrogate_rest_def)

lemma string_body_plain:
  assumes "byte c < 0x80" "\<not> byte c < 0x20" "c \<noteq> CHR 0x22" "c \<noteq> CHR 0x5C"
  shows "string_body (c # t) = map_option (\<lambda>(y, z). (c # y, z)) (string_body t)"
  using assms by (simp add: string_body.simps(2) rune_len_ascii)

lemma string_body_short:
  assumes "e \<noteq> CHR ''u''" "unescape e = Some c"
  shows "string_body (CHR 0x5C # e # t) = map_option (\<lambda>(y, z). (c # y, z)) (string_body t)"
  using assms by (simp add: string_body.simps(2))

lemma escape_byte_cases:
  "(\<exists>e. escape_byte c = [CHR 0x5C, e] \<and> e \<noteq> CHR ''u'' \<and> unescape e = Some c) \<or>
   escape_byte c = [CHR 0x5C, CHR ''u''] @ hex4_of (byte c) \<or>
   escape_byte c = [c] \<and> \<not> byte c < 0x20 \<and> c \<noteq> CHR 0x22 \<and> c \<noteq> CHR 0x5C"
proof -
  have "unescape (CHR 0x22) = Some (CHR 0x22)" "unescape (CHR 0x5C) = Some (CHR 0x5C)" "unescape (CHR ''b'') = Some (CHR 0x08)"
    "unescape (CHR ''f'') = Some (CHR 0x0C)" "unescape (CHR ''n'') = Some (CHR 0x0A)" "unescape (CHR ''r'') = Some (CHR 0x0D)"
    "unescape (CHR ''t'') = Some (CHR 0x09)" by code_simp+
  then show ?thesis by (simp add: escape_byte_def)
qed

lemma string_body_escape_byte:
  assumes "byte c < 0x80"
  shows "string_body (escape_byte c @ t) = map_option (\<lambda>(y, z). (c # y, z)) (string_body t)"
  using escape_byte_cases [of c]
proof (elim disjE exE conjE)
  fix e assume "escape_byte c = [CHR 0x5C, e]" "e \<noteq> CHR ''u''" "unescape e = Some c"
  then show ?thesis using string_body_short by simp
next
  assume esc: "escape_byte c = [CHR 0x5C, CHR ''u''] @ hex4_of (byte c)"
  have "utf8 (byte c) = [c]" using assms by (simp add: utf8_def)
  then show ?thesis
    using string_body_escape_u [of "byte c" t] assms unfolding esc append_assoc by simp
next
  assume "escape_byte c = [c]" "\<not> byte c < 0x20" "c \<noteq> CHR 0x22" "c \<noteq> CHR 0x5C"
  then show ?thesis using string_body_plain [OF assms] by simp
qed

lemma string_body_rune:
  assumes "rune_len (c # s) \<noteq> 0" "\<not> byte c < 0x80"
  shows "string_body (take (rune_len (c # s)) (c # s) @ t) =
    map_option (\<lambda>(y, z). (take (rune_len (c # s)) (c # s) @ y, z)) (string_body t)"
proof -
  let ?k = "rune_len (c # s)"
  let ?u = "take (?k - 1) s @ t"
  have u: "take ?k (c # s) @ t = c # ?u" using assms(1) by (simp only: take_Cons' if_False append_Cons)
  have c: "c \<noteq> CHR 0x22" "c \<noteq> CHR 0x5C" "\<not> byte c < 0x20" using assms(2) by auto
  have k: "rune_len (c # ?u) = ?k" using rune_len_take [OF assms(1), of t] unfolding u .
  have "length (take ?k (c # s)) = ?k" using rune_len_le [of "c # s"] by (simp only: length_take min_absorb2)
  then have "take ?k (c # ?u) = take ?k (c # s)" "drop ?k (c # ?u) = t"
    unfolding u [symmetric] by (simp_all only: take_append drop_append diff_self_eq_0 take_0 drop_0 append_Nil2)
       simp_all
  then show ?thesis
    unfolding u string_body.simps(2) [of c ?u] Let_def k if_not_P [OF c(1)] if_not_P [OF c(2)] if_not_P [OF c(3)]
      if_not_P [OF assms(1)]
    by (simp only:)
qed

lemma string_body_json_escape:
  "string_body (json_escape s @ CHR 0x22 # t) = Some (utf8_clean s, t)"
proof (induction s rule: json_escape.induct)
  case 1
  then show ?case by (simp add: string_body.simps(2))
next
  case (2 c s)
  let ?k = "rune_len (c # s)"
  consider "?k = 0" | "?k \<noteq> 0" "byte c < 0x80" | "?k \<noteq> 0" "\<not> byte c < 0x80" by blast
  then show ?case
  proof cases
    case 1
    have "utf8 0xFFFD = replacement" by (simp add: utf8_def replacement_def char_of_def bit_Suc_0_iff)
    moreover have "json_escape (c # s) = [CHR 0x5C, CHR ''u''] @ hex4_of 0xFFFD @ json_escape s"
      "utf8_clean (c # s) = replacement @ utf8_clean s"
      using 1 by (simp_all add: json_escape.simps(2) utf8_clean.simps(2))
    ultimately show ?thesis
      using "2.IH"(1) [OF refl 1] string_body_escape_u [of "0xFFFD" "json_escape s @ CHR 0x22 # t"] by simp
  next
    case 2
    then have "?k = 1" by (simp only: rune_len_ascii)
    then have "json_escape (c # s) = escape_byte c @ json_escape s" "utf8_clean (c # s) = c # utf8_clean s"
      using 2 by (simp_all add: json_escape.simps(2) utf8_clean.simps(2))
    then show ?thesis
      using "2.IH"(2) [OF refl 2] string_body_escape_byte [OF 2(2), of "json_escape s @ CHR 0x22 # t"] by simp
  next
    case 3
    then have clean: "utf8_clean (c # s) = take ?k (c # s) @ utf8_clean (drop ?k (c # s))"
      by (simp only: utf8_clean.simps(2) Let_def if_False)
    have sep: "?thesis"
      if "take 3 (c # s) = utf8 n" "n \<in> {0x2028, 0x2029}"
        "json_escape (c # s) = [CHR 0x5C, CHR ''u''] @ hex4_of n @ json_escape (drop 3 (c # s))"
        "string_body (json_escape (drop 3 (c # s)) @ CHR 0x22 # t) = Some (utf8_clean (drop 3 (c # s)), t)" for n
    proof -
      have "hd (utf8 n) = CHR 0xE2" using that(2) by (auto simp: utf8_def char_of_def bit_Suc_0_iff)
      then have "c = CHR 0xE2" using that(1) by (metis list.sel(1) take_Suc_Cons numeral_3_eq_3)
      then have "?k = 3" using 3(1) by (simp add: rune_len.simps Let_def rune_size_def split: if_splits)
      moreover have "string_body ([CHR 0x5C, CHR ''u''] @ hex4_of n @ json_escape (drop 3 (c # s)) @ CHR 0x22 # t) =
          Some (utf8 n @ utf8_clean (drop 3 (c # s)), t)"
        using that(2,4) string_body_escape_u [of n "json_escape (drop 3 (c # s)) @ CHR 0x22 # t"] by auto
      ultimately show ?thesis unfolding clean that(3) by (simp add: that(1) [symmetric])
    qed
    let ?u = "take 3 (c # s)"
    show ?thesis
    proof (cases "?u = utf8 0x2028")
      case True
      have "json_escape (c # s) = [CHR 0x5C, CHR ''u''] @ hex4_of 0x2028 @ json_escape (drop 3 (c # s))"
        unfolding json_escape.simps(2) [of c s] Let_def if_not_P [OF 3(1)] if_not_P [OF 3(2)] if_P [OF True] ..
      then show ?thesis using sep [OF True] "2.IH"(3) [OF refl 3 True] by simp
    next
      case nl: False
      show ?thesis
      proof (cases "?u = utf8 0x2029")
        case True
        have "json_escape (c # s) = [CHR 0x5C, CHR ''u''] @ hex4_of 0x2029 @ json_escape (drop 3 (c # s))"
          unfolding json_escape.simps(2) [of c s] Let_def if_not_P [OF 3(1)] if_not_P [OF 3(2)] if_not_P [OF nl]
            if_P [OF True] ..
        then show ?thesis using sep [OF True] "2.IH"(4) [OF refl 3 nl True] by simp
      next
        case False
        have "json_escape (c # s) = take ?k (c # s) @ json_escape (drop ?k (c # s))"
          unfolding json_escape.simps(2) [of c s] Let_def if_not_P [OF 3(1)] if_not_P [OF 3(2)] if_not_P [OF nl]
            if_not_P [OF False] ..
        then show ?thesis
          using "2.IH"(5) [OF refl 3 nl False] string_body_rune [OF 3] unfolding clean by simp
      qed
    qed
  qed
qed

end
