(* ===== verification/List_Page.thy ===== *)
theory List_Page
  imports Json_Props
begin

text \<open>\<open>listpage/listpage.go\<close>: the cursor of a record list, its text (base64 of compact JSON), and the order it
  pages through: newest date first, then day order, then id.\<close>

record Cursor =
  cuDate :: string
  cuDayOrder :: string
  cuID :: string

definition ErrCursorEncoding :: error where
  "ErrCursorEncoding = Plain ''invalid cursor encoding''"

definition ErrCursorFormat :: error where
  "ErrCursorFormat = Plain ''invalid cursor format''"

section \<open>The text of a cursor\<close>

text \<open>\<open>json.Marshal\<close> of the struct, and \<open>json.Unmarshal\<close> into it: members match a field whatever their letters'
  case, the last one wins, \<open>null\<close> changes nothing, and a value of another type is an error reported
  after the other members have been read.\<close>

definition marshal_cursor :: "Cursor \<Rightarrow> string" where
  "marshal_cursor c =
    ''{'' @ json_string ''date'' @ '':'' @ json_string (cuDate c) @ '','' @
    json_string ''day_order'' @ '':'' @ json_string (cuDayOrder c) @ '','' @
    json_string ''id'' @ '':'' @ json_string (cuID c) @ ''}''"

definition fold_case :: "string \<Rightarrow> string" where
  "fold_case = List.map (\<lambda>c. if CHR ''A'' \<le> c \<and> c \<le> CHR ''Z'' then char_of (byte c + 32) else c)"

definition set_member :: "string \<Rightarrow> json \<Rightarrow> Cursor \<Rightarrow> error + Cursor" where
  "set_member name v c =
    (let field = fold_case name in
     if field \<notin> {''date'', ''day_order'', ''id''} \<or> v = JNull then Inr c
     else case v of
       JString s \<Rightarrow>
         Inr (if field = ''date'' then c \<lparr> cuDate := s \<rparr>
              else if field = ''day_order'' then c \<lparr> cuDayOrder := s \<rparr>
              else c \<lparr> cuID := s \<rparr>)
     | _ \<Rightarrow> Inl (Plain ''json: cannot unmarshal''))"

fun set_members :: "(string \<times> json) list \<Rightarrow> Cursor \<Rightarrow> error + Cursor" where
  "set_members [] c = Inr c"
| "set_members ((name, v) # ms) c =
    (case set_member name v c of Inl e \<Rightarrow> Inl e | Inr c' \<Rightarrow> set_members ms c')"

definition zero_cursor :: Cursor where
  "zero_cursor = \<lparr> cuDate = [], cuDayOrder = [], cuID = [] \<rparr>"

definition unmarshal_cursor :: "string \<Rightarrow> error + Cursor" where
  "unmarshal_cursor s =
    (case json_text s of
       None \<Rightarrow> Inl (Plain ''invalid JSON'')
     | Some JNull \<Rightarrow> Inr zero_cursor
     | Some (JObject ms) \<Rightarrow> set_members ms zero_cursor
     | Some _ \<Rightarrow> Inl (Plain ''json: cannot unmarshal''))"

definition EncodeCursor :: "Cursor \<Rightarrow> string" where
  "EncodeCursor c = base64_encode (marshal_cursor c)"

definition DecodeCursor :: "string \<Rightarrow> error + Cursor option" where
  "DecodeCursor raw =
    (if raw = [] then Inr None
     else case base64_decode raw of
       None \<Rightarrow> Inl ErrCursorEncoding
     | Some data \<Rightarrow>
         (case unmarshal_cursor data of
            Inl _ \<Rightarrow> Inl ErrCursorFormat
          | Inr c \<Rightarrow>
              if cuDate c = [] \<or> cuDayOrder c = [] \<or> cuID c = []
              then Inl (Wrapped ''incomplete cursor'' ErrCursorFormat)
              else Inr (Some c)))"

definition IsAfterCursor :: "string \<Rightarrow> string \<Rightarrow> string \<Rightarrow> Cursor \<Rightarrow> bool" where
  "IsAfterCursor date dayOrder i cursor =
    (if date \<noteq> cuDate cursor then date < cuDate cursor
     else if dayOrder \<noteq> cuDayOrder cursor then dayOrder > cuDayOrder cursor
     else i > cuID cursor)"

section \<open>The round trip\<close>

definition clean_cursor :: "Cursor \<Rightarrow> Cursor" where
  "clean_cursor c =
    \<lparr> cuDate = utf8_clean (cuDate c), cuDayOrder = utf8_clean (cuDayOrder c), cuID = utf8_clean (cuID c) \<rparr>"

lemma skip_space_solid: "\<not> is_space c \<Longrightarrow> skip_space (c # s) = c # s"
  by (simp add: skip_space_def)

lemma solid [simp]: "\<not> is_space (CHR 0x22)" "\<not> is_space (CHR ''{'')" "\<not> is_space (CHR ''}'')" "\<not> is_space (CHR '':'')"
  "\<not> is_space (CHR '','')"
  by (simp_all add: is_space_def)

lemma json_value_string: "json_value d (json_string s @ t) = Some (JString (utf8_clean s), t)"
  by (subst json_value.simps) (simp add: json_string_def skip_space_solid string_body_json_escape)

lemma json_member_step:
  "json_members d (json_string k @ CHR '':'' # json_string s @ CHR '','' # t) =
     map_option (\<lambda>(m, r). ((utf8_clean k, JString (utf8_clean s)) # m, r)) (json_members d t)"
  using json_value_string [of d s "CHR '','' # t"]
  by (subst json_members.simps)
     (simp add: json_string_def skip_space_solid string_body_json_escape)

lemma json_member_last:
  "json_members d (json_string k @ CHR '':'' # json_string s @ CHR ''}'' # t) =
     Some ([(utf8_clean k, JString (utf8_clean s))], t)"
  using json_value_string [of d s "CHR ''}'' # t"]
  by (subst json_members.simps)
     (simp add: json_string_def skip_space_solid string_body_json_escape)

lemma unmarshal_marshal: "unmarshal_cursor (marshal_cursor c) = Inr (clean_cursor c)"
proof -
  have names: "utf8_clean ''date'' = ''date''" "utf8_clean ''day_order'' = ''day_order''" "utf8_clean ''id'' = ''id''"
    by (rule utf8_clean_valid, rule utf8_valid_ascii, simp)+
  let ?ms = "json_string ''date'' @ CHR '':'' # json_string (cuDate c) @ CHR '','' #
    json_string ''day_order'' @ CHR '':'' # json_string (cuDayOrder c) @ CHR '','' #
    json_string ''id'' @ CHR '':'' # json_string (cuID c) @ CHR ''}'' # []"
  have "json_members d ?ms = Some ([(''date'', JString (utf8_clean (cuDate c))),
      (''day_order'', JString (utf8_clean (cuDayOrder c))), (''id'', JString (utf8_clean (cuID c)))], [])" for d
    by (simp only: json_member_step json_member_last names option.map prod.case)
  moreover have "marshal_cursor c = CHR ''{'' # ?ms" by (simp add: marshal_cursor_def)
  moreover have "\<not> prefix ''}'' (skip_space ?ms)" by (simp add: json_string_def skip_space_solid)
  ultimately have "json_value 10000 (marshal_cursor c) = Some (JObject [(''date'', JString (utf8_clean (cuDate c))),
      (''day_order'', JString (utf8_clean (cuDayOrder c))), (''id'', JString (utf8_clean (cuID c)))], [])"
    by (subst json_value.simps) (simp add: skip_space_solid)
  then show ?thesis
    by (simp add: unmarshal_cursor_def json_text_def skip_space_def set_member_def fold_case_def clean_cursor_def zero_cursor_def)
qed

section \<open>The order of a record list\<close>

datatype page_key = Page_Key string string string \<comment> \<open>date, day order, id\<close>

instantiation page_key :: linorder
begin

fun less_page_key :: "page_key \<Rightarrow> page_key \<Rightarrow> bool" where
  "less_page_key (Page_Key d n i) (Page_Key e m j) = (e < d \<or> d = e \<and> (n < m \<or> n = m \<and> i < j))"

definition less_eq_page_key :: "page_key \<Rightarrow> page_key \<Rightarrow> bool" where
  "less_eq_page_key k l = (k < l \<or> k = l)"

instance
proof
  fix k l m :: page_key
  show "k < l \<longleftrightarrow> k \<le> l \<and> \<not> l \<le> k"
    by (cases k; cases l) (auto simp: less_eq_page_key_def)
  show "k \<le> k" by (simp add: less_eq_page_key_def)
  show "k \<le> m" if "k \<le> l" "l \<le> m"
    using that by (cases k; cases l; cases m) (auto simp: less_eq_page_key_def)
  show "k = l" if "k \<le> l" "l \<le> k"
    using that by (cases k; cases l) (auto simp: less_eq_page_key_def)
  show "k \<le> l \<or> l \<le> k"
    by (cases k; cases l) (auto simp: less_eq_page_key_def)
qed

end

definition cursor_key :: "Cursor \<Rightarrow> page_key" where
  "cursor_key c = Page_Key (cuDate c) (cuDayOrder c) (cuID c)"

lemma IsAfterCursor_iff: "IsAfterCursor d n i c \<longleftrightarrow> cursor_key c < Page_Key d n i"
  by (auto simp: IsAfterCursor_def cursor_key_def)

lemma marshal_nonempty: "base64_encode (marshal_cursor c) \<noteq> []"
  using base64_round_trip [of "marshal_cursor c"] by (auto simp: marshal_cursor_def base64_decode_def)

lemma utf8_clean_Nil [simp]: "utf8_clean s = [] \<longleftrightarrow> s = []"
  by (cases s) (auto simp: utf8_clean.simps(2) Let_def replacement_def)

text \<open>C29. The text of a cursor decodes to the cursor, its parts read as UTF-8 (malformed bytes replaced, so a
  well-formed cursor comes back as it was); a cursor with an empty part is refused.\<close>

theorem cursor_text_round_trip:
  "DecodeCursor (EncodeCursor c) =
    (if cuDate c = [] \<or> cuDayOrder c = [] \<or> cuID c = [] then Inl (Wrapped ''incomplete cursor'' ErrCursorFormat)
     else Inr (Some (clean_cursor c)))"
  by (simp add: DecodeCursor_def EncodeCursor_def marshal_nonempty base64_round_trip unmarshal_marshal clean_cursor_def)

end
