(* ===== verification/Json_Object.thy ===== *)
theory Json_Object
  imports List_Page
begin

text \<open>JSON objects with scalar members, as \<open>MarshalIndent\<close> with two blanks prints them and \<open>Unmarshal\<close> reads
  them: decimal numbers, the matching of member names to struct fields, and the round trip of the text.\<close>

section \<open>Numbers\<close>

definition decimal_value :: "string \<Rightarrow> nat" where
  "decimal_value s = foldl (\<lambda>n c. 10 * n + (byte c - 48)) 0 s"

fun nat_text :: "nat \<Rightarrow> string" where
  "nat_text n = (if n < 10 then [char_of (48 + n)] else nat_text (n div 10) @ [char_of (48 + n mod 10)])"

declare nat_text.simps [simp del]

definition int_text :: "int \<Rightarrow> string" where
  "int_text i = (if i < 0 then CHR ''-'' # nat_text (nat (- i)) else nat_text (nat i))"

text \<open>\<open>strconv.ParseInt\<close> of a JSON number: no fraction or exponent, and 64 bits.\<close>

definition json_int :: "string \<Rightarrow> int option" where
  "json_int s =
    (let neg = prefix ''-'' s; ds = (if neg then tl s else s);
         i = (if neg then - int (decimal_value ds) else int (decimal_value ds)) in
     if list_all decimal ds \<and> - (2 ^ 63) \<le> i \<and> i < 2 ^ 63 then Some i else None)"

section \<open>Names\<close>

text \<open>A member matches the field whose name is equal up to Unicode case folding: of the characters outside
  ASCII only the long s and the Kelvin sign fold to a letter.\<close>

fun fold_name :: "string \<Rightarrow> string" where
  "fold_name (a # b # c # s) =
    (if [a, b] = [CHR 0xC5, CHR 0xBF] then CHR ''s'' # fold_name (c # s)
     else if [a, b, c] = [CHR 0xE2, CHR 0x84, CHR 0xAA] then CHR ''k'' # fold_name s
     else fold_case [a] @ fold_name (b # c # s))"
| "fold_name s = (if s = [CHR 0xC5, CHR 0xBF] then ''s'' else fold_case s)"

section \<open>Objects\<close>

fun scalar_text :: "json \<Rightarrow> string" where
  "scalar_text JNull = ''null''"
| "scalar_text (JBool b) = (if b then ''true'' else ''false'')"
| "scalar_text (JNumber n) = n"
| "scalar_text (JString s) = json_string s"
| "scalar_text _ = []"

fun member_lines :: "(string \<times> json) list \<Rightarrow> string" where
  "member_lines [] = []"
| "member_lines [(k, v)] = CHR 0x0A # ''  '' @ json_string k @ '': '' @ scalar_text v @ [CHR 0x0A]"
| "member_lines ((k, v) # ms) = CHR 0x0A # ''  '' @ json_string k @ '': '' @ scalar_text v @ '','' @ member_lines ms"

definition indented_object :: "(string \<times> json) list \<Rightarrow> string" where
  "indented_object ms = ''{'' @ member_lines ms @ ''}''"

text \<open>What is read back of a member.\<close>

fun clean_scalar :: "json \<Rightarrow> json" where
  "clean_scalar (JString s) = JString (utf8_clean s)"
| "clean_scalar v = v"

section \<open>Reading a number back\<close>

definition plain_scalar :: "json \<Rightarrow> bool" where
  "plain_scalar v =
    (case v of JNumber n \<Rightarrow> n \<noteq> [] \<and> list_all decimal n \<and> hd n \<noteq> CHR ''0'' | JArray _ \<Rightarrow> False | JObject _ \<Rightarrow> False | _ \<Rightarrow> True)"

definition ends_scalar :: "string \<Rightarrow> bool" where
  "ends_scalar t = (\<exists>c u. t = c # u \<and> c \<in> {CHR '','', CHR 0x0A})"

lemma digit_char: "(n :: nat) < 10 \<Longrightarrow> decimal (char_of (48 + n)) \<and> byte (char_of (48 + n)) - 48 = n"
proof -
  have "list_all (\<lambda>n. decimal (char_of (48 + n :: nat)) \<and> byte (char_of (48 + n :: nat)) - 48 = n) [0..<10]"
    by code_simp
  then show "n < 10 \<Longrightarrow> ?thesis" by (simp add: list_all_iff)
qed

lemma nat_text_decimal: "list_all decimal (nat_text n)"
  by (induction n rule: nat_text.induct) (subst nat_text.simps, simp add: digit_char)

lemma nat_text_nonempty [simp]: "nat_text n \<noteq> []"
  by (subst nat_text.simps) simp

lemma nat_text_value: "decimal_value (nat_text n) = n"
proof (induction n rule: nat_text.induct)
  case (1 n)
  show ?case
  proof (cases "n < 10")
    case True
    then show ?thesis by (simp add: nat_text.simps [of n] decimal_value_def digit_char)
  next
    case False
    have "byte (char_of (48 + n mod 10)) - 48 = n mod 10" using digit_char [of "n mod 10"] by simp
    then show ?thesis
      using 1 [OF False] False
      by (simp add: nat_text.simps [of n] decimal_value_def)
  qed
qed

lemma digit_char_zero: "(n :: nat) < 10 \<Longrightarrow> char_of (48 + n) = CHR ''0'' \<longleftrightarrow> n = 0"
proof -
  have "list_all (\<lambda>n. (char_of (48 + n :: nat) = CHR ''0'') = (n = 0)) [0..<10]" by code_simp
  then show "n < 10 \<Longrightarrow> ?thesis" by (simp add: list_all_iff)
qed

lemma nat_text_no_zero: "0 < n \<Longrightarrow> hd (nat_text n) \<noteq> CHR ''0''"
proof (induction n rule: nat_text.induct)
  case (1 n)
  then show ?case
    by (cases "n < 10") (simp_all add: nat_text.simps [of n] digit_char_zero)
qed

lemma not_decimal [simp]:
  "\<not> decimal (CHR 0x22)" "\<not> decimal (CHR ''{'')" "\<not> decimal (CHR ''['')" "\<not> decimal (CHR ''t'')" "\<not> decimal (CHR ''f'')"
  "\<not> decimal (CHR ''n'')" "\<not> decimal (CHR ''-'')" "\<not> decimal (CHR '','')" "\<not> decimal (CHR 0x0A)"
  by (simp_all add: decimal_def)

lemma decimal_solid [simp]: "decimal c \<Longrightarrow> \<not> is_space c"
  by (auto simp: decimal_def is_space_def)

lemma number_decimal:
  assumes "n \<noteq> []" "list_all decimal n" "hd n \<noteq> CHR ''0''" "ends_scalar t"
  shows "number (n @ t) = Some (n, t)"
proof -
  obtain c m where n: "n = c # m" using assms(1) by (cases n) auto
  obtain e u where t: "t = e # u" and e: "e \<in> {CHR '','', CHR 0x0A}" using assms(4) by (auto simp: ends_scalar_def)
  then have "\<not> decimal e" by auto
  then have "takeWhile decimal (n @ t) = n" "dropWhile decimal (n @ t) = t"
    using assms(2) by (simp_all add: t list_all_iff)
  then have "integer_part (n @ t) = Some (n, t)"
    using assms(3) by (simp add: n integer_part_def some_digits_def Let_def)
  moreover have "\<not> prefix ''-'' (n @ t)" using assms(2) by (auto simp: n)
  moreover have "fraction t = Some ([], t)" "exponent t = Some ([], t)"
    using e by (auto simp: t fraction_def exponent_def)
  ultimately show ?thesis by (simp add: number_def)
qed

lemma json_value_scalar:
  assumes "plain_scalar v" "ends_scalar t"
  shows "json_value d (CHR 0x20 # scalar_text v @ t) = Some (clean_scalar v, t)"
proof -
  have blank: "skip_space (CHR 0x20 # s) = skip_space s" for s by (simp add: skip_space_def is_space_def)
  have solid: "\<not> is_space (CHR ''t'')" "\<not> is_space (CHR ''f'')" "\<not> is_space (CHR ''n'')"
    by (simp_all add: is_space_def)
  show ?thesis
  proof (cases v)
    case (JNumber n)
    then have n: "n \<noteq> []" "list_all decimal n" "hd n \<noteq> CHR ''0''" using assms(1) by (simp_all add: plain_scalar_def)
    then obtain c m where c: "n = c # m" "decimal c" by (cases n) auto
    then have "skip_space (c # m @ t) = c # m @ t" by (simp add: skip_space_solid)
    moreover have ne: "c \<noteq> CHR 0x22" "c \<noteq> CHR ''{''" "c \<noteq> CHR ''[''" "c \<noteq> CHR ''t''" "c \<noteq> CHR ''f''" "c \<noteq> CHR ''n''"
      using c(2) by auto
    moreover have "number (c # m @ t) = Some (n, t)" using number_decimal [OF n assms(2)] by (simp add: c(1))
    ultimately show ?thesis
      unfolding JNumber c(1) scalar_text.simps append_Cons json_value.simps [of d "CHR 0x20 # u" for u] blank
      using ne [symmetric] by (simp add: c(1))
  next
    case (JString s)
    then show ?thesis
      by (subst json_value.simps)
         (simp add: blank json_string_def skip_space_solid string_body_json_escape)
  next
    case JNull
    then show ?thesis
      by (simp add: json_value.simps [of d "CHR 0x20 # u" for u] blank solid skip_space_solid)
  next
    case (JBool b)
    then show ?thesis
      by (cases b) (simp_all add: json_value.simps [of d "CHR 0x20 # u" for u] blank solid skip_space_solid)
  qed (use assms(1) in \<open>simp_all add: plain_scalar_def\<close>)
qed

text \<open>The members come back in order, each read as its own text.\<close>

definition read_back :: "string \<times> json \<Rightarrow> string \<times> json" where
  "read_back m = (utf8_clean (fst m), clean_scalar (snd m))"

lemma json_members_lines:
  assumes "ms \<noteq> []" "list_all (\<lambda>m. plain_scalar (snd m)) ms"
  shows "json_members d (member_lines ms @ CHR ''}'' # t) = Some (List.map read_back ms, t)"
  using assms
proof (induction ms rule: member_lines.induct)
  case (2 k v)
  then have v: "plain_scalar v" by simp
  show ?case
    using json_value_scalar [OF v, of "CHR 0x0A # CHR ''}'' # t" d]
    by (subst json_members.simps)
       (simp add: skip_space_def is_space_def json_string_def string_body_json_escape ends_scalar_def read_back_def)
next
  case (3 k v m ms)
  then have v: "plain_scalar v" by simp
  let ?u = "member_lines (m # ms) @ CHR ''}'' # t"
  have IH: "json_members d ?u = Some (List.map read_back (m # ms), t)" using 3 by simp
  show ?case
    using json_value_scalar [OF v, of "CHR '','' # ?u" d] IH
    by (subst json_members.simps)
       (simp add: skip_space_def is_space_def json_string_def string_body_json_escape ends_scalar_def read_back_def)
qed simp

lemma member_lines_open: "ms \<noteq> [] \<Longrightarrow> \<exists>s. skip_space (member_lines ms @ t) = CHR 0x22 # s"
  by (induction ms rule: member_lines.induct) (simp_all add: skip_space_def is_space_def json_string_def)

lemma json_text_indented:
  assumes "list_all (\<lambda>m. plain_scalar (snd m)) ms"
  shows "json_text (indented_object ms @ [CHR 0x0A]) = Some (JObject (List.map read_back ms))"
proof (cases "ms = []")
  case True
  then show ?thesis
    by (simp add: json_text_def indented_object_def json_value.simps [of 10000] skip_space_def is_space_def)
next
  case False
  obtain s where "skip_space (member_lines ms @ CHR ''}'' # [CHR 0x0A]) = CHR 0x22 # s"
    using member_lines_open [OF False] by blast
  then show ?thesis
    using json_members_lines [OF False assms, of 9999 "[CHR 0x0A]"]
    by (simp add: json_text_def indented_object_def json_value.simps [of 10000] skip_space_solid)
       (simp add: skip_space_def is_space_def)
qed

end
