(* ===== verification/Config.thy ===== *)
theory Config
  imports Json_Object Local_Files "HOL-Library.Word"
begin

text \<open>\<open>config/config.go\<close> and \<open>config/validate.go\<close>: the configuration, its modes and bounds, its file and the
  checks of the cloud fields that do not parse a URL. Go's \<open>int\<close> is 64 bits wide.\<close>

section \<open>The configuration\<close>

record Config =
  cNeonURL :: string
  cS3Bucket :: string
  cS3Region :: string
  cAWSProfile :: string
  cActiveProject :: string
  cS3Endpoint :: string
  cS3ForcePathStyle :: bool
  cAPIKey :: string
  cGCRetentionDays :: "int option"

datatype Mode = ModeLocalOnly | ModeCloud

definition config_mode :: "Config \<Rightarrow> error + Mode" where
  "config_mode c =
    (let coreValues = [cNeonURL c, cS3Bucket c, cS3Region c, cAWSProfile c];
         coreSetCount = length (filter (\<lambda>v. \<not> blank v) coreValues);
         apiKeySet = (\<not> blank (cAPIKey c)) in
     if coreSetCount = 0 \<and> \<not> apiKeySet then Inr ModeLocalOnly
     else if coreSetCount = length coreValues then Inr ModeCloud
     else if coreSetCount = 0 \<and> apiKeySet then Inl (Plain ''invalid config: api_key requires cloud fields'')
     else Inl (Plain ''invalid config: cloud mode requires neon_url, s3_bucket, s3_region, and aws_profile''))"

definition MaxGCRetentionDays :: int where
  "MaxGCRetentionDays = 36500"

definition DefaultGCRetentionDays :: int where
  "DefaultGCRetentionDays = 30"

fun ValidateGCRetentionDays :: "int option \<Rightarrow> error + unit" where
  "ValidateGCRetentionDays None = Inr ()"
| "ValidateGCRetentionDays (Some days) =
    (if days < 1 then Inl (Plain ''gc retention days must be a positive integer'')
     else if days > MaxGCRetentionDays then Inl (Plain ''gc retention days must be at most 36500'')
     else Inr ())"

text \<open>A \<open>time.Duration\<close> is 64 bits of nanoseconds; its product wraps.\<close>

type_synonym Duration = "64 word"

definition hour :: Duration where
  "hour = 3600000000000"

definition GCRetention :: "Config \<Rightarrow> Duration" where
  "GCRetention c =
    (let days = (case cGCRetentionDays c of None \<Rightarrow> DefaultGCRetentionDays | Some d \<Rightarrow> d) in
     word_of_int days * 24 * hour)"

section \<open>Checks of the cloud fields\<close>

definition lower_or_digit :: "char \<Rightarrow> bool" where
  "lower_or_digit c = (CHR ''a'' \<le> c \<and> c \<le> CHR ''z'' \<or> decimal c)"

text \<open>The patterns \<open>^[a-z0-9][a-z0-9.\-]{1,61}[a-z0-9]$\<close>, \<open>^\d{1,3}(\.\d{1,3}){3}$\<close> and
  \<open>^[a-z]{2}(?:-[a-z0-9]+)+-\d+$\<close>.\<close>

definition s3BucketRegexp :: "string \<Rightarrow> bool" where
  "s3BucketRegexp s =
    (3 \<le> length s \<and> length s \<le> 63 \<and> lower_or_digit (hd s) \<and> lower_or_digit (last s) \<and>
     list_all (\<lambda>c. lower_or_digit c \<or> c = CHR ''.'' \<or> c = CHR ''-'') (butlast (tl s)))"

definition ipv4Regexp :: "string \<Rightarrow> bool" where
  "ipv4Regexp s =
    (let parts = split_at (CHR ''.'') s in
     length parts = 4 \<and> list_all (\<lambda>p. 1 \<le> length p \<and> length p \<le> 3 \<and> list_all decimal p) parts)"

definition s3RegionRegexp :: "string \<Rightarrow> bool" where
  "s3RegionRegexp s =
    (let parts = split_at (CHR ''-'') s in
     3 \<le> length parts \<and>
     length (hd parts) = 2 \<and> list_all (\<lambda>c. CHR ''a'' \<le> c \<and> c \<le> CHR ''z'') (hd parts) \<and>
     list_all (\<lambda>p. p \<noteq> [] \<and> list_all lower_or_digit p) (butlast (tl parts)) \<and>
     last parts \<noteq> [] \<and> list_all decimal (last parts))"

definition ValidateS3Bucket :: "string \<Rightarrow> error + unit" where
  "ValidateS3Bucket bucket =
    (if blank bucket then Inl (Plain ''S3 bucket name is required'')
     else if length bucket < 3 \<or> length bucket > 63 then Inl (Plain ''S3 bucket name must be 3-63 characters'')
     else if \<not> s3BucketRegexp bucket then Inl (Plain ''S3 bucket name contains invalid characters'')
     else if sublist ''..'' bucket then Inl (Plain ''S3 bucket name must not contain consecutive dots'')
     else if ipv4Regexp bucket then Inl (Plain ''S3 bucket name must not be formatted as an IP address'')
     else Inr ())"

definition ValidateS3Region :: "string \<Rightarrow> error + unit" where
  "ValidateS3Region region =
    (if blank region then Inl (Plain ''S3 region is required'')
     else if \<not> s3RegionRegexp region then Inl (Plain ''S3 region does not match expected format'')
     else Inr ())"

section \<open>The text of a configuration\<close>

text \<open>\<open>MarshalIndent\<close>: a field marked \<open>omitempty\<close> with its zero value is left out.\<close>

definition string_member :: "string \<Rightarrow> string \<Rightarrow> (string \<times> json) list" where
  "string_member k s = (if s = [] then [] else [(k, JString s)])"

definition config_members :: "Config \<Rightarrow> (string \<times> json) list" where
  "config_members c =
    string_member ''neon_url'' (cNeonURL c) @
    string_member ''s3_bucket'' (cS3Bucket c) @
    string_member ''s3_region'' (cS3Region c) @
    string_member ''aws_profile'' (cAWSProfile c) @
    string_member ''active_project'' (cActiveProject c) @
    string_member ''s3_endpoint'' (cS3Endpoint c) @
    (if cS3ForcePathStyle c then [(''s3_force_path_style'', JBool True)] else []) @
    string_member ''api_key'' (cAPIKey c) @
    (case cGCRetentionDays c of None \<Rightarrow> [] | Some d \<Rightarrow> [(''gc_retention_days'', JNumber (int_text d))])"

definition marshal_config :: "Config \<Rightarrow> string" where
  "marshal_config c = indented_object (config_members c)"

text \<open>\<open>Unmarshal\<close> into the zero configuration.\<close>

definition zero_config :: Config where
  "zero_config =
    \<lparr> cNeonURL = [], cS3Bucket = [], cS3Region = [], cAWSProfile = [], cActiveProject = [], cS3Endpoint = [],
      cS3ForcePathStyle = False, cAPIKey = [], cGCRetentionDays = None \<rparr>"

definition string_field :: "string \<Rightarrow> (string \<Rightarrow> Config \<Rightarrow> Config) option" where
  "string_field f =
    (if f = ''neon_url'' then Some (\<lambda>s c. c \<lparr> cNeonURL := s \<rparr>)
     else if f = ''s3_bucket'' then Some (\<lambda>s c. c \<lparr> cS3Bucket := s \<rparr>)
     else if f = ''s3_region'' then Some (\<lambda>s c. c \<lparr> cS3Region := s \<rparr>)
     else if f = ''aws_profile'' then Some (\<lambda>s c. c \<lparr> cAWSProfile := s \<rparr>)
     else if f = ''active_project'' then Some (\<lambda>s c. c \<lparr> cActiveProject := s \<rparr>)
     else if f = ''s3_endpoint'' then Some (\<lambda>s c. c \<lparr> cS3Endpoint := s \<rparr>)
     else if f = ''api_key'' then Some (\<lambda>s c. c \<lparr> cAPIKey := s \<rparr>)
     else None)"

definition errUnmarshal :: error where
  "errUnmarshal = Plain ''json: cannot unmarshal''"

definition set_config_member :: "string \<Rightarrow> json \<Rightarrow> Config \<Rightarrow> error + Config" where
  "set_config_member name v c =
    (let f = fold_name name in
     if f = ''s3_force_path_style'' then
       (case v of JNull \<Rightarrow> Inr c | JBool b \<Rightarrow> Inr (c \<lparr> cS3ForcePathStyle := b \<rparr>) | _ \<Rightarrow> Inl errUnmarshal)
     else if f = ''gc_retention_days'' then
       (case v of
          JNull \<Rightarrow> Inr (c \<lparr> cGCRetentionDays := None \<rparr>)
        | JNumber n \<Rightarrow>
            (case json_int n of None \<Rightarrow> Inl errUnmarshal | Some d \<Rightarrow> Inr (c \<lparr> cGCRetentionDays := Some d \<rparr>))
        | _ \<Rightarrow> Inl errUnmarshal)
     else case string_field f of
       None \<Rightarrow> Inr c
     | Some upd \<Rightarrow> (case v of JNull \<Rightarrow> Inr c | JString s \<Rightarrow> Inr (upd s c) | _ \<Rightarrow> Inl errUnmarshal))"

fun set_config_members :: "(string \<times> json) list \<Rightarrow> Config \<Rightarrow> error + Config" where
  "set_config_members [] c = Inr c"
| "set_config_members ((name, v) # ms) c =
    (case set_config_member name v c of Inl e \<Rightarrow> Inl e | Inr c' \<Rightarrow> set_config_members ms c')"

definition unmarshal_config :: "string \<Rightarrow> error + Config" where
  "unmarshal_config s =
    (case json_text s of
       None \<Rightarrow> Inl (Plain ''invalid JSON'')
     | Some JNull \<Rightarrow> Inr zero_config
     | Some (JObject ms) \<Rightarrow> set_config_members ms zero_config
     | Some _ \<Rightarrow> Inl errUnmarshal)"

section \<open>The store\<close>

text \<open>A store is its home directory, a clean absolute path.\<close>

record Store =
  stHome :: path

definition NewStore :: "path \<Rightarrow> string \<Rightarrow> error + Store" where
  "NewStore cwd homeDir =
    (if blank homeDir then Inl (Plain ''home directory is required'') else Inr \<lparr> stHome = filepath_abs cwd homeDir \<rparr>)"

definition config_path :: "Store \<Rightarrow> path" where
  "config_path s = stHome s @ [''personal-context'', ''.pc'', ''config.json'']"

text \<open>What \<open>Read\<close> does with the bytes, and \<open>Read\<close>.\<close>

definition parse_config :: "string \<Rightarrow> error + Config" where
  "parse_config bytes =
    (case wrap_result ''parse config'' (unmarshal_config bytes) of
       Inl e \<Rightarrow> Inl e
     | Inr cfg \<Rightarrow>
         (case config_mode cfg of
            Inl e \<Rightarrow> Inl e
          | Inr _ \<Rightarrow>
              (case wrap_result ''gc_retention_days'' (ValidateGCRetentionDays (cGCRetentionDays cfg)) of
                 Inl e \<Rightarrow> Inl e
               | Inr _ \<Rightarrow> Inr cfg)))"

definition config_Read :: "Store \<Rightarrow> (files, Config) act" where
  "config_Read s =
    bnd (wrap ''read config'' (read_file (config_path s))) (\<lambda>bytes. lift_result (parse_config bytes))"

text \<open>\<open>os.CreateTemp\<close> with a suffix in the pattern.\<close>

definition create_temp_suffixed :: "path \<Rightarrow> string \<Rightarrow> string \<Rightarrow> (files, path) act" where
  "create_temp_suffixed dir stem suf d =
    (case create_in (File []) dir stem (d \<lparr> dkTemp := (\<lambda>k. List.map (\<lambda>n. n @ suf) (dkTemp d k)) \<rparr>) of
       (r, d') \<Rightarrow> (r, d' \<lparr> dkTemp := dkTemp d \<rparr>))"

text \<open>The hooks \<open>chmodFile\<close>, \<open>syncFile\<close> and \<open>closeFile\<close> change nothing the model holds, and may fail.\<close>

definition writeFileAtomically :: "path \<Rightarrow> string \<Rightarrow> (files, unit) act" where
  "writeFileAtomically p content =
    bnd (wrap ''create temp config file'' (create_temp_suffixed (butlast p) ''.config-'' ''.tmp'')) (\<lambda>tempPath.
      cleanup_unless_ok (ignored (remove_file tempPath))
        (sq (wrap ''set temp config permissions'' (closing_after disk_plain))
        (sq (wrap ''write temp config'' (closing_after (write_open tempPath content)))
        (sq (wrap ''sync temp config'' (closing_after disk_plain))
        (sq (wrap ''close temp config'' disk_plain)
            (wrap ''replace config'' (rename_file tempPath p)))))))"

definition config_Write :: "Store \<Rightarrow> Config \<Rightarrow> (files, unit) act" where
  "config_Write s cfg =
    bnd (lift_result (config_mode cfg)) (\<lambda>_.
    bnd (lift_result (wrap_result ''gc_retention_days'' (ValidateGCRetentionDays (cGCRetentionDays cfg)))) (\<lambda>_.
    let p = config_path s in
    sq (wrap ''create config dir'' (mkdir_all (butlast p)))
       (writeFileAtomically p (marshal_config cfg @ [CHR 0x0A]))))"

end
