(* ===== verification/Local_Stack.thy ===== *)
theory Local_Stack
  imports Config Sqlite_Repo
begin

text \<open>The open local stack of the command line (\<open>localStack\<close> of \<open>cli/deps.go\<close>): the
  configuration, the SQLite repository and the file store, whose operations run on their own part of the state.\<close>

record Stack =
  lsConfig :: Config
  lsDb :: Db
  lsDisk :: files
  lsFS :: Client

definition on_db :: "(Db, 'a) act \<Rightarrow> (Stack, 'a) act" where
  "on_db m w = (case m (lsDb w) of (r, db) \<Rightarrow> (r, w \<lparr> lsDb := db \<rparr>))"

definition on_disk :: "(files, 'a) act \<Rightarrow> (Stack, 'a) act" where
  "on_disk m w = (case m (lsDisk w) of (r, d) \<Rightarrow> (r, w \<lparr> lsDisk := d \<rparr>))"

lemma keeps_on_db: "keeps I m \<Longrightarrow> keeps (\<lambda>w. I (lsDb w)) (on_db m)"
  by (auto simp: keeps_def on_db_def split: prod.splits)

lemma keeps_on_disk: "keeps I m \<Longrightarrow> keeps (\<lambda>w. I (lsDisk w)) (on_disk m)"
  by (auto simp: keeps_def on_disk_def split: prod.splits)

lemma keeps_db_on_disk [keep_intros]: "keeps (\<lambda>w. I (lsDb w)) (on_disk m)"
  by (auto simp: keeps_def on_disk_def split: prod.splits)

lemma keeps_disk_on_db [keep_intros]: "keeps (\<lambda>w. I (lsDisk w)) (on_db m)"
  by (auto simp: keeps_def on_db_def split: prod.splits)

end
