(* ===== verification/Discovery.thy ===== *)
theory Discovery
  imports Local_Stack List_Page Json_Object Timeutil
begin

text \<open>\<open>cli/records.go\<close>: the record list, its filters, its order and its pages, the attachment inventory and
  the statistics. A command is the action on the open stack; printing its result is left out.\<close>

section \<open>Filters\<close>

record recordFilterOptions =
  foProjectID :: string
  foDateFrom :: string
  foDateTo :: string
  foDeleted :: bool

text \<open>\<open>time.Parse("2006-01-02", value)\<close>, whose result must print as \<open>value\<close> again.\<close>

definition all_decimal :: "string \<Rightarrow> bool" where
  "all_decimal s = list_all decimal s"

definition isValidRecordDate :: "string \<Rightarrow> bool" where
  "isValidRecordDate v =
    (length v = 10 \<and> v ! 4 = CHR ''-'' \<and> v ! 7 = CHR ''-'' \<and>
     all_decimal (take 4 v) \<and> all_decimal (take 2 (drop 5 v)) \<and> all_decimal (drop 8 v) \<and>
     (let y = decimal_value (take 4 v); m = decimal_value (take 2 (drop 5 v)); d = decimal_value (drop 8 v) in
      1 \<le> m \<and> m \<le> 12 \<and> 1 \<le> d \<and> int d \<le> month_lengths (int y) ! (m - 1)))"

definition buildBaseRecordFilter :: "recordFilterOptions \<Rightarrow> error + ListRecordsFilter" where
  "buildBaseRecordFilter opts =
    (let from = trim_space (foDateFrom opts); to = trim_space (foDateTo opts) in
     if from \<noteq> [] \<and> \<not> isValidRecordDate from then Inl (Plain ''invalid --from date'')
     else if to \<noteq> [] \<and> \<not> isValidRecordDate to then Inl (Plain ''invalid --to date'')
     else if from \<noteq> [] \<and> to \<noteq> [] \<and> from > to then Inl (Plain ''--from must be on or before --to'')
     else
       let project = trim_space (foProjectID opts) in
       Inr (zero_records_filter
         \<lparr> lrProjectID := (if project \<noteq> [] then Some project else None),
           lrDateFrom := (if from \<noteq> [] then Some from else None),
           lrDateTo := (if to \<noteq> [] then Some to else None) \<rparr>))"

definition buildListRecordsFilter :: "recordFilterOptions \<Rightarrow> error + ListRecordsFilter" where
  "buildListRecordsFilter opts =
    (case buildBaseRecordFilter opts of
       Inl e \<Rightarrow> Inl e
     | Inr f \<Rightarrow>
         if foDeleted opts then Inr (f \<lparr> lrIncludeDeleted := True, lrOnlyDeleted := True \<rparr>) else Inr f)"

definition recordMatchesFilter :: "Record \<Rightarrow> ListRecordsFilter \<Rightarrow> bool" where
  "recordMatchesFilter r f =
    (if (case lrProjectID f of None \<Rightarrow> False | Some p \<Rightarrow> rProjectID r \<noteq> p) then False
     else if (case lrDateFrom f of None \<Rightarrow> False | Some d \<Rightarrow> rDate r < d) then False
     else if (case lrDateTo f of None \<Rightarrow> False | Some d \<Rightarrow> rDate r > d) then False
     else let deleted = (rDeletedAt r \<noteq> None) in
       if lrOnlyDeleted f \<and> \<not> deleted then False
       else if \<not> lrIncludeDeleted f \<and> deleted then False
       else True)"

section \<open>The order\<close>

text \<open>\<open>strings.Compare\<close>, and \<open>slices.SortFunc\<close>: records that compare equal may end up in any order; they have
  equal ids, so there are none in a list read from the database.\<close>

definition string_compare :: "string \<Rightarrow> string \<Rightarrow> int" where
  "string_compare a b = (if a = b then 0 else if a < b then -1 else 1)"

definition compareRecordsForDiscovery :: "Record \<Rightarrow> Record \<Rightarrow> int" where
  "compareRecordsForDiscovery a b =
    (if string_compare (rDate b) (rDate a) \<noteq> 0 then string_compare (rDate b) (rDate a)
     else if string_compare (rDayOrder a) (rDayOrder b) \<noteq> 0 then string_compare (rDayOrder a) (rDayOrder b)
     else string_compare (rID a) (rID b))"

fun insert_by :: "('a \<Rightarrow> 'a \<Rightarrow> int) \<Rightarrow> 'a \<Rightarrow> 'a list \<Rightarrow> 'a list" where
  "insert_by cmp x [] = [x]"
| "insert_by cmp x (y # ys) = (if cmp x y \<le> 0 then x # y # ys else y # insert_by cmp x ys)"

definition sort_by :: "('a \<Rightarrow> 'a \<Rightarrow> int) \<Rightarrow> 'a list \<Rightarrow> 'a list" where
  "sort_by cmp xs = foldr (insert_by cmp) xs []"

definition sortRecordsForDiscovery :: "Record list \<Rightarrow> Record list" where
  "sortRecordsForDiscovery records = sort_by compareRecordsForDiscovery records"

fun applyRecordCursor :: "Record list \<Rightarrow> Cursor option \<Rightarrow> Record list" where
  "applyRecordCursor records None = records"
| "applyRecordCursor [] (Some cursor) = []"
| "applyRecordCursor (r # rs) (Some cursor) =
    (if IsAfterCursor (rDate r) (rDayOrder r) (rID r) cursor then r # rs else applyRecordCursor rs (Some cursor))"

section \<open>Listing records\<close>

record recordListItem =
  liID :: string
  liDate :: string
  liDayOrder :: string
  liProjectID :: string
  liSourceDeviceID :: string
  liUpdatedAt :: string
  liDeletedAt :: "string option"
  liHasHTML :: bool
  liHasNotes :: bool
  liFigureCount :: nat
  liDataFileCount :: nat

record recordListOptions = recordFilterOptions +
  loLimit :: int
  loCursor :: string
  loQuery :: string
  loHasHTML :: bool
  loHasData :: bool
  loAll :: bool
  loFormat :: string

record ListResponse =
  rspItems :: "recordListItem list"
  rspTotal :: nat
  rspNextCursor :: "string option"

definition zero_counts :: ChildCounts where
  "zero_counts = \<lparr> ccFigures = 0, ccDataFiles = 0 \<rparr>"

definition buildRecordListItem :: "Record \<Rightarrow> ChildCounts \<Rightarrow> recordListItem" where
  "buildRecordListItem r counts =
    \<lparr> liID = rID r, liDate = rDate r, liDayOrder = rDayOrder r, liProjectID = rProjectID r,
      liSourceDeviceID = rSourceDeviceID r, liUpdatedAt = FormatUTCMillis (rUpdatedAt r),
      liDeletedAt = FormatUTCMillisPtr (rDeletedAt r), liHasHTML = (rHTMLContent r \<noteq> None),
      liHasNotes = (rNotes r \<noteq> None), liFigureCount = ccFigures counts, liDataFileCount = ccDataFiles counts \<rparr>"

definition maxRecordListLimit :: int where
  "maxRecordListLimit = 500"

definition list_filter :: "recordListOptions \<Rightarrow> error + ListRecordsFilter" where
  "list_filter opts =
    (case buildListRecordsFilter (recordFilterOptions.truncate opts) of
       Inl e \<Rightarrow> Inl e
     | Inr f \<Rightarrow>
         Inr (f \<lparr> lrHasHTML := loHasHTML opts, lrHasData := loHasData opts,
                  lrQuery := (if trim_space (loQuery opts) \<noteq> [] then Some (trim_space (loQuery opts)) else lrQuery f) \<rparr>))"

text \<open>The cut of the page: one record more than the limit is read, to know whether there is a next page.\<close>

definition cut_page :: "bool \<Rightarrow> nat \<Rightarrow> recordListItem list \<Rightarrow> recordListItem list \<times> string option" where
  "cut_page all limit items =
    (if \<not> all \<and> length items > limit then
       let pageItems = take limit items; l = last pageItems in
       (pageItems, Some (EncodeCursor \<lparr> cuDate = liDate l, cuDayOrder = liDayOrder l, cuID = liID l \<rparr>))
     else (items, None))"

definition runList :: "recordListOptions \<Rightarrow> (Db, ListResponse) act" where
  "runList opts =
    (if loFormat opts \<notin> {''table'', ''ids'', ''json''} then fail (Plain ''unknown format'')
     else if loLimit opts < 1 then fail (Plain ''limit must be >= 1'')
     else if loLimit opts > maxRecordListLimit then fail (Plain ''limit must be <= 500'')
     else if loAll opts \<and> trim_space (loCursor opts) \<noteq> [] then fail (Plain ''--all cannot be used with --cursor'')
     else
       bnd (lift_result (list_filter opts)) (\<lambda>f.
       bnd (lift_result (DecodeCursor (trim_space (loCursor opts)))) (\<lambda>cursor.
       bnd (wrap ''count records'' (sqlite_CountRecords f)) (\<lambda>total.
       bnd (wrap ''list records'' (sqlite_ListRecords f)) (\<lambda>listed.
       let records = applyRecordCursor (sortRecordsForDiscovery listed) cursor;
           limit = nat (loLimit opts);
           pageRecords = (if \<not> loAll opts \<and> length records > limit + 1 then take (limit + 1) records else records) in
       bnd (wrap ''count record children'' (sqlite_CountRecordChildren (List.map rID pageRecords))) (\<lambda>childCounts.
       let items = List.map (\<lambda>r. buildRecordListItem r (coalesce (childCounts (rID r)) zero_counts)) pageRecords in
       case cut_page (loAll opts) limit items of
         (pageItems, nextCursor) \<Rightarrow>
           ret \<lparr> rspItems = pageItems, rspTotal = total, rspNextCursor = nextCursor \<rparr>))))))"

text \<open>A reader who follows the cursors: the pages up to the one without a next cursor, at most \<open>n\<close> of them.\<close>

fun list_all_pages :: "nat \<Rightarrow> recordListOptions \<Rightarrow> (Db, recordListItem list list) act" where
  "list_all_pages 0 opts = fail (Plain ''more pages'')"
| "list_all_pages (Suc n) opts =
    bnd (runList opts) (\<lambda>page.
      case rspNextCursor page of
        None \<Rightarrow> ret [rspItems page]
      | Some c \<Rightarrow>
          bnd (list_all_pages n (opts \<lparr> loCursor := c \<rparr>)) (\<lambda>pages. ret (rspItems page # pages)))"

end
