(* ===== verification/Discovery_Props.thy ===== *)
theory Discovery_Props
  imports Discovery Sqlite_Props
begin

text \<open>Following the cursors of the record list: every matching record is visited once, in order, and the
  pages end.\<close>

section \<open>The order\<close>

definition record_key :: "Record \<Rightarrow> page_key" where
  "record_key r = Page_Key (rDate r) (rDayOrder r) (rID r)"

lemma string_compare_iff [simp]:
  "string_compare a b \<noteq> 0 \<longleftrightarrow> a \<noteq> b" "string_compare a b \<le> 0 \<longleftrightarrow> a \<le> b"
  by (auto simp: string_compare_def)

lemma compare_record_key: "compareRecordsForDiscovery a b \<le> 0 \<longleftrightarrow> record_key a \<le> record_key b"
  by (auto simp: compareRecordsForDiscovery_def record_key_def less_eq_page_key_def)

lemma insert_by_insort:
  assumes "\<And>x y. cmp x y \<le> 0 \<longleftrightarrow> f x \<le> f y"
  shows "insert_by cmp x ys = insort_key f x ys"
  by (induction ys) (simp_all add: assms)

lemma sort_by_sort_key:
  assumes "\<And>x y. cmp x y \<le> 0 \<longleftrightarrow> f x \<le> f y"
  shows "sort_by cmp xs = sort_key f xs"
  by (induction xs) (simp_all add: sort_by_def insert_by_insort [OF assms])

lemma sortRecords_sort_key: "sortRecordsForDiscovery rs = sort_key record_key rs"
  unfolding sortRecordsForDiscovery_def by (rule sort_by_sort_key) (rule compare_record_key)

lemma inj_record_key: "distinct (List.map rID rs) \<Longrightarrow> distinct (List.map record_key rs)"
  by (auto simp: distinct_map inj_on_def record_key_def)

text \<open>What follows the cursor of a record in a list sorted without duplicates is what stands after it.\<close>

definition record_cursor :: "Record \<Rightarrow> Cursor" where
  "record_cursor r = \<lparr> cuDate = rDate r, cuDayOrder = rDayOrder r, cuID = rID r \<rparr>"

lemma after_iff: "IsAfterCursor (rDate r) (rDayOrder r) (rID r) (record_cursor x) \<longleftrightarrow> record_key x < record_key r"
  by (simp add: IsAfterCursor_iff record_key_def cursor_key_def record_cursor_def)

lemma apply_cursor_append:
  assumes "sorted_wrt (<) (List.map record_key (xs @ x # ys))"
  shows "applyRecordCursor (xs @ x # ys) (Some (record_cursor x)) = ys"
  using assms
proof (induction xs)
  case Nil
  then show ?case by (cases ys) (simp_all add: after_iff)
next
  case (Cons r xs)
  then have "record_key r < record_key x" by simp
  then have "\<not> record_key x < record_key r" by simp
  then show ?case using Cons by (simp add: after_iff)
qed

lemma apply_cursor_last:
  assumes "sorted_wrt (<) (List.map record_key (xs @ ys @ zs))" "ys \<noteq> []"
  shows "applyRecordCursor (xs @ ys @ zs) (Some (record_cursor (last ys))) = zs"
proof -
  obtain us u where "ys = us @ [u]" using assms(2) by (cases ys rule: rev_cases) auto
  then show ?thesis using apply_cursor_append [of "xs @ us" u zs] assms(1) by simp
qed

lemma strictly_sorted: "distinct (List.map rID rs) \<Longrightarrow> sorted_wrt (<) (List.map record_key (sort_key record_key rs))"
proof -
  assume "distinct (List.map rID rs)"
  then have "distinct (List.map record_key rs)" by (rule inj_record_key)
  then have "distinct (List.map record_key (sort_key record_key rs))"
    by (metis distinct_map distinct_sort set_sort)
  then show ?thesis by (simp add: strict_sorted_iff)
qed

section \<open>Reading without faults\<close>

definition quiet :: "Db \<Rightarrow> bool" where
  "quiet db \<longleftrightarrow> dbFault db = (\<lambda>_. None)"

text \<open>An action that reads \<open>a\<close> from the tables.\<close>

definition reads :: "(Db, 'a) act \<Rightarrow> Db \<Rightarrow> 'a \<Rightarrow> bool" where
  "reads m db a \<longleftrightarrow> (\<forall>k. \<exists>n. m (db \<lparr> dbTick := k \<rparr>) = (Inr a, db \<lparr> dbTick := n \<rparr>))"

lemma reads_query:
  assumes "quiet db" "\<And>n. f (db \<lparr> dbTick := n \<rparr>) = f db"
  shows "reads (query f) db (f db)"
  using assms by (auto simp: reads_def query_def statement_def Let_def quiet_def)

lemma reads_bnd: "reads m db a \<Longrightarrow> reads (f a) db b \<Longrightarrow> reads (bnd m f) db b"
  unfolding reads_def by (metis bnd_ok)

lemma reads_ret: "reads (ret a) db a"
  by (auto simp: reads_def ret_def)

lemma reads_wrap:
  assumes "reads m db a"
  shows "reads (wrap msg m) db a"
  unfolding reads_def
proof (rule allI)
  fix k
  from assms obtain n where "m (db \<lparr> dbTick := k \<rparr>) = (Inr a, db \<lparr> dbTick := n \<rparr>)" unfolding reads_def by blast
  then show "\<exists>n. wrap msg m (db \<lparr> dbTick := k \<rparr>) = (Inr a, db \<lparr> dbTick := n \<rparr>)" by (auto simp: wrap_def)
qed

lemma reads_lift: "reads (lift_result (Inr a)) db a"
  by (auto simp: reads_def lift_result_def)

lemma reads_merge:
  assumes "quiet db" "\<And>n. count (db \<lparr> dbTick := n \<rparr>) = count db"
  shows "\<exists>m. reads (mergeChildCounts put count ids counts) db m"
  unfolding mergeChildCounts_def by (rule exI, rule reads_query [OF assms(1)]) (simp only: assms(2))

lemma reads_count_chunks:
  assumes "quiet db"
  shows "\<exists>m. reads (count_chunks ids counts) db m"
proof (induction ids counts rule: count_chunks.induct)
  case (1 ids counts)
  show ?case
  proof (cases "ids = []")
    case True
    then show ?thesis by (subst count_chunks.simps) (auto intro: reads_ret)
  next
    case False
    let ?chunk = "take sqliteCountChildrenChunkSize ids"
    obtain c1 where 1: "reads (mergeChildCounts (\<lambda>n c. c \<lparr> ccFigures := n \<rparr>) figure_count ?chunk counts) db c1"
      using reads_merge [OF assms, of figure_count] by fastforce
    obtain c2 where 2: "reads (mergeChildCounts (\<lambda>n c. c \<lparr> ccDataFiles := n \<rparr>) data_file_count ?chunk c1) db c2"
      using reads_merge [OF assms, of data_file_count] by fastforce
    obtain m where "reads (count_chunks (drop sqliteCountChildrenChunkSize ids) c2) db m"
      using "1.IH" False by blast
    then show ?thesis
      using False 1 2 by (subst count_chunks.simps) (auto simp: Let_def intro: reads_bnd)
  qed
qed

lemma reads_child_counts:
  assumes "quiet db" "\<not> list_ex blank ids"
  shows "reads (sqlite_CountRecordChildren ids) db (child_counts ids db)"
proof -
  obtain m where m: "reads (count_chunks ids Map.empty) db m" using reads_count_chunks [OF assms(1)] by blast
  then obtain n where "count_chunks ids Map.empty (db \<lparr> dbTick := dbTick db \<rparr>) = (Inr m, db \<lparr> dbTick := n \<rparr>)"
    unfolding reads_def by blast
  then have "m = child_counts ids db"
    using count_chunks_run [of ids Map.empty db m] by (auto simp: fun_eq_iff split: if_splits)
  then show ?thesis using m assms(2) by (simp add: sqlite_CountRecordChildren_def)
qed

lemma predicate_tick [simp]:
  "records_predicate f (db \<lparr> dbTick := n \<rparr>) = records_predicate f db"
  "record_rank q (db \<lparr> dbTick := n \<rparr>) = record_rank q db"
  by (simp_all add: fun_eq_iff records_predicate_def record_rank_def)

lemma matching_tick [simp]: "matching_records f (db \<lparr> dbTick := n \<rparr>) = matching_records f db"
  unfolding matching_records_def predicate_tick by simp

section \<open>One page\<close>

definition items_of :: "Db \<Rightarrow> Record list \<Rightarrow> recordListItem list" where
  "items_of db rs = List.map (\<lambda>r. buildRecordListItem r (full_counts db (rID r))) rs"

definition listing :: "ListRecordsFilter \<Rightarrow> Db \<Rightarrow> Record list" where
  "listing f db = sort_key record_key (matching_records f db)"

lemma list_filter_fields:
  assumes "list_filter opts = Inr f"
  shows "lrLimit f = 0" "\<not> query_blank f"
proof -
  obtain g where g: "buildListRecordsFilter (recordFilterOptions.truncate opts) = Inr g"
    "f = g \<lparr> lrHasHTML := loHasHTML opts, lrHasData := loHasData opts,
            lrQuery := (if trim_space (loQuery opts) \<noteq> [] then Some (trim_space (loQuery opts)) else lrQuery g) \<rparr>"
    using assms by (auto simp: list_filter_def split: sum.splits)
  then have "lrLimit g = 0" "lrQuery g = None"
    by (auto simp: buildListRecordsFilter_def buildBaseRecordFilter_def zero_records_filter_def Let_def
        split: sum.splits if_splits)
  then show "lrLimit f = 0" "\<not> query_blank f" using g(2) by (auto simp: query_blank_def blank_def)
qed

lemma matching_subset: "set (matching_records f db) \<subseteq> set (dbRecords db)"
  by (auto simp: matching_records_def Let_def split: option.splits)

lemma distinct_map_sort: "distinct (List.map g (sort_key h xs)) = distinct (List.map g xs)"
  by (simp add: distinct_map)

lemma distinct_matching:
  "distinct (List.map rID (dbRecords db)) \<Longrightarrow> distinct (List.map rID (matching_records f db))"
  by (cases "lrQuery f") (simp_all add: matching_records_def Let_def distinct_map_sort distinct_map_filter)

lemma apply_cursor_subset: "set (applyRecordCursor rs c) \<subseteq> set rs"
  by (induction rs c rule: applyRecordCursor.induct) auto

lemma counts_of_item:
  "r \<in> set rs \<Longrightarrow> coalesce (child_counts (List.map rID rs) db (rID r)) zero_counts = full_counts db (rID r)"
  by (auto simp: child_counts_def coalesce_def full_counts_def zero_counts_def)

lemma page_items:
  "List.map (\<lambda>r. buildRecordListItem r (coalesce (child_counts (List.map rID rs) db (rID r)) zero_counts)) rs = items_of db rs"
  by (simp add: items_of_def counts_of_item)

definition page_size :: "recordListOptions \<Rightarrow> nat" where
  "page_size opts = nat (loLimit opts)"

definition page_options :: "recordListOptions \<Rightarrow> bool" where
  "page_options opts \<longleftrightarrow> loFormat opts \<in> {''table'', ''ids'', ''json''} \<and> 1 \<le> loLimit opts \<and> loLimit opts \<le> 500 \<and> \<not> loAll opts"

lemma reads_runList:
  assumes "quiet db" "list_all (\<lambda>r. \<not> blank (rID r)) (dbRecords db)" "page_options opts"
    "list_filter opts = Inr f" "DecodeCursor (trim_space (loCursor opts)) = Inr cur"
    "applyRecordCursor (listing f db) cur = rest"
  shows "reads (runList opts) db
    \<lparr> rspItems = items_of db (take (page_size opts) rest), rspTotal = length (matching_records f db),
      rspNextCursor = (if length rest > page_size opts
        then Some (EncodeCursor (record_cursor (last (take (page_size opts) rest)))) else None) \<rparr>"
proof -
  let ?n = "page_size opts"
  let ?page = "if length rest > ?n + 1 then take (?n + 1) rest else rest"
  note f = list_filter_fields [OF assms(4)]
  have opts: "loFormat opts \<in> {''table'', ''ids'', ''json''}" "\<not> loLimit opts < 1" "\<not> loLimit opts > maxRecordListLimit"
    "\<not> loAll opts"
    using assms(3) by (auto simp: page_options_def maxRecordListLimit_def)
  have count: "reads (wrap m (sqlite_CountRecords f)) db (length (matching_records f db))" for m
    using reads_query [OF assms(1), of "\<lambda>db. length (matching_records f db)"] f(2)
    by (intro reads_wrap) (simp add: sqlite_CountRecords_def)
  have listed: "reads (wrap m (sqlite_ListRecords f)) db (matching_records f db)" for m
    using reads_query [OF assms(1), of "\<lambda>db. limit_rows (lrLimit f) (matching_records f db)"] f
    by (intro reads_wrap) (simp add: sqlite_ListRecords_def limit_rows_def)
  have "set ?page \<subseteq> set (dbRecords db)"
  proof -
    have "set ?page \<subseteq> set rest" by (auto dest: in_set_takeD)
    also have "\<dots> \<subseteq> set (listing f db)" using apply_cursor_subset assms(6) by blast
    also have "\<dots> \<subseteq> set (dbRecords db)" using matching_subset by (simp add: listing_def)
    finally show ?thesis .
  qed
  then have counts: "reads (wrap m (sqlite_CountRecordChildren (List.map rID ?page))) db (child_counts (List.map rID ?page) db)" for m
    using assms(2) by (intro reads_wrap reads_child_counts assms(1)) (auto simp: list_ex_iff list_all_iff)
  have rest: "applyRecordCursor (sortRecordsForDiscovery (matching_records f db)) cur = rest"
    using assms(6) by (simp add: listing_def sortRecords_sort_key)
  have cut: "cut_page False ?n (items_of db ?page) = (items_of db (take ?n rest), if length rest > ?n
        then Some (EncodeCursor (record_cursor (last (take ?n rest)))) else None)"
  proof (cases "length rest > ?n")
    case True
    have n: "0 < ?n" using assms(3) by (simp add: page_options_def page_size_def)
    have page: "take ?n ?page = take ?n rest" "length ?page > ?n" using True by auto
    have "take ?n rest \<noteq> []" using n True by auto
    then have "last (items_of db (take ?n rest)) =
        buildRecordListItem (last (take ?n rest)) (full_counts db (rID (last (take ?n rest))))"
      unfolding items_of_def by (rule last_map)
    moreover have "take ?n (items_of db ?page) = items_of db (take ?n rest)"
      unfolding page(1) [symmetric] items_of_def by (rule take_map)
    ultimately show ?thesis
      using True page(2) by (simp add: cut_page_def Let_def record_cursor_def buildRecordListItem_def items_of_def)
  next
    case False
    then show ?thesis by (simp add: cut_page_def items_of_def)
  qed
  show ?thesis
    unfolding runList_def Let_def if_not_P [OF opts(2)] if_not_P [OF opts(3)] assms(4,5)
    using opts(1,4)
    apply (simp only: not_not if_False simp_thms page_size_def [symmetric])
    apply (rule reads_bnd [OF reads_lift])
    apply (rule reads_bnd [OF reads_lift])
    apply (rule reads_bnd [OF count])
    apply (rule reads_bnd [OF listed])
    unfolding rest
    apply (rule reads_bnd [OF counts])
    unfolding page_items cut prod.case
    apply (rule reads_ret)
    done
qed

section \<open>All pages\<close>

declare list_all_pages.simps(2) [simp del]

lemma base64_visible: "c \<in> set (base64_encode s) \<Longrightarrow> visible c"
proof -
  have "list_all (\<lambda>n. visible (enc6 n)) [0..<64]" by code_simp
  then have "n < 64 \<Longrightarrow> visible (enc6 n)" for n by (simp add: list_all_iff)
  moreover have "visible (CHR ''='')" by (simp add: visible_def less_eq_char_def)
  ultimately show "c \<in> set (base64_encode s) \<Longrightarrow> visible c"
    by (induction s rule: base64_encode.induct) auto
qed

lemma trim_cursor [simp]: "trim_space (EncodeCursor c) = EncodeCursor c"
  unfolding EncodeCursor_def
  by (intro trim_visible base64_visible [OF hd_in_set] base64_visible [OF last_in_set] marshal_nonempty)

lemma decode_cursor:
  assumes "cuDate c \<noteq> []" "cuDayOrder c \<noteq> []" "cuID c \<noteq> []"
    "utf8_valid (cuDate c)" "utf8_valid (cuDayOrder c)" "utf8_valid (cuID c)"
  shows "DecodeCursor (EncodeCursor c) = Inr (Some c)"
  using assms
  by (simp add: DecodeCursor_def EncodeCursor_def marshal_nonempty base64_round_trip unmarshal_marshal clean_cursor_def
      utf8_clean_valid)

text \<open>Records whose cursors survive their text.\<close>

definition pageable :: "Record \<Rightarrow> bool" where
  "pageable r \<longleftrightarrow> rDate r \<noteq> [] \<and> rDayOrder r \<noteq> [] \<and> \<not> blank (rID r) \<and>
     utf8_valid (rDate r) \<and> utf8_valid (rDayOrder r) \<and> utf8_valid (rID r)"

lemma decode_record_cursor: "pageable r \<Longrightarrow> DecodeCursor (EncodeCursor (record_cursor r)) = Inr (Some (record_cursor r))"
  by (rule decode_cursor) (auto simp: pageable_def record_cursor_def blank_def)

lemma list_filter_cursor [simp]: "list_filter (opts \<lparr> loCursor := c \<rparr>) = list_filter opts"
proof -
  have "recordFilterOptions.truncate (opts \<lparr> loCursor := c \<rparr>) = recordFilterOptions.truncate opts"
    by (simp add: recordFilterOptions.truncate_def)
  then show ?thesis
    unfolding list_filter_def by (cases "buildListRecordsFilter (recordFilterOptions.truncate opts)") simp_all
qed

lemma page_options_cursor [simp]: "page_options (opts \<lparr> loCursor := c \<rparr>) = page_options opts"
  "page_size (opts \<lparr> loCursor := c \<rparr>) = page_size opts"
  by (simp_all add: page_options_def page_size_def)

lemma reads_all_pages:
  assumes "quiet db" "\<And>r. r \<in> set (dbRecords db) \<Longrightarrow> pageable r" "distinct (List.map rID (dbRecords db))"
    "page_options opts" "list_filter opts = Inr f" "DecodeCursor (trim_space (loCursor opts)) = Inr cur"
    "applyRecordCursor (listing f db) cur = rest" "listing f db = before @ rest"
  shows "\<exists>pages. reads (list_all_pages (Suc (length rest div page_size opts)) opts) db pages \<and>
    concat pages = items_of db rest \<and> list_all (\<lambda>p. length p \<le> page_size opts) pages"
  using assms(4-8)
proof (induction "length rest" arbitrary: opts cur rest before rule: less_induct)
  case less
  let ?n = "page_size opts"
  have n: "0 < ?n" using less.prems(1) by (simp add: page_options_def page_size_def)
  have ids: "list_all (\<lambda>r. \<not> blank (rID r)) (dbRecords db)" using assms(2) by (simp add: pageable_def list_all_iff)
  note page = reads_runList [OF assms(1) ids less.prems(1,2,3,4)]
  show ?case
  proof (cases "length rest > ?n")
    case False
    then have all: "take ?n rest = rest" by simp
    moreover have "reads (list_all_pages (Suc k) opts) db [items_of db rest]" for k
      unfolding list_all_pages.simps
      by (rule reads_bnd [OF page], unfold ListResponse.simps if_not_P [OF False] option.case all)
         (rule reads_ret)
    ultimately show ?thesis using False by (intro exI [of _ "[items_of db rest]"]) (auto simp: items_of_def)
  next
    case True
    let ?x = "last (take ?n rest)" and ?rest = "drop ?n rest"
    let ?opts = "opts \<lparr> loCursor := EncodeCursor (record_cursor ?x) \<rparr>"
    have ne: "take ?n rest \<noteq> []" using n True by auto
    have split: "listing f db = before @ take ?n rest @ ?rest" using less.prems(5) by simp
    have "?x \<in> set (listing f db)" using in_set_takeD [OF last_in_set [OF ne]] less.prems(5) by simp
    then have x: "pageable ?x" using matching_subset assms(2) by (auto simp: listing_def)
    have "sorted_wrt (<) (List.map record_key (before @ take ?n rest @ ?rest))"
      unfolding split [symmetric] listing_def by (rule strictly_sorted [OF distinct_matching [OF assms(3)]])
    then have after: "applyRecordCursor (listing f db) (Some (record_cursor ?x)) = ?rest"
      unfolding split by (rule apply_cursor_last [OF _ ne])
    have "\<exists>pages. reads (list_all_pages (Suc (length ?rest div page_size ?opts)) ?opts) db pages \<and>
        concat pages = items_of db ?rest \<and> list_all (\<lambda>p. length p \<le> page_size ?opts) pages"
    proof (rule less.hyps)
      show "length ?rest < length rest" using n True by simp
      show "page_options ?opts" "list_filter ?opts = Inr f" using less.prems(1,2) by simp_all
      show "DecodeCursor (trim_space (loCursor ?opts)) = Inr (Some (record_cursor ?x))"
        using decode_record_cursor [OF x] by simp
      show "listing f db = (before @ take ?n rest) @ ?rest" using split by simp
    qed (rule after)
    then obtain pages where pages: "reads (list_all_pages (Suc (length ?rest div ?n)) ?opts) db pages"
      "concat pages = items_of db ?rest" "list_all (\<lambda>p. length p \<le> ?n) pages"
      unfolding page_options_cursor by blast
    have more: "Suc (length ?rest div ?n) = length rest div ?n"
      using n True by (simp add: div_if [of "length rest"])
    have "reads (list_all_pages (Suc (length rest div ?n)) opts) db (items_of db (take ?n rest) # pages)"
      unfolding list_all_pages.simps(2) [of "length rest div ?n"]
      by (rule reads_bnd [OF page], unfold ListResponse.simps if_P [OF True] option.case)
         (rule reads_bnd [OF _ reads_ret], use pages(1) more in simp)
    then show ?thesis
      using pages(2,3)
      by (intro exI [of _ "items_of db (take ?n rest) # pages"])
         (auto simp: items_of_def list_all_iff simp flip: map_append)
  qed
qed

text \<open>Ids and dates pass the CHECK constraints of the schema.\<close>

lemma digit_bytes: "Sqlite_Db.is_digit c \<Longrightarrow> visible c \<and> byte c < 0x80" "Sqlite_Db.is_lower_hex c \<Longrightarrow> visible c \<and> byte c < 0x80"
  by (auto simp: Sqlite_Db.is_digit_def is_lower_hex_def visible_def less_eq_char_def)

lemma shape_chars:
  "id_shape s \<Longrightarrow> c \<in> set s \<Longrightarrow> visible c \<and> byte c < 0x80"
  "date_shape s \<Longrightarrow> c \<in> set s \<Longrightarrow> visible c \<and> byte c < 0x80"
proof -
  show "visible c \<and> byte c < 0x80" if "id_shape s" "c \<in> set s"
  proof -
    have "s = take 8 s @ s ! 8 # drop 9 s" using that(1) id_take_nth_drop [of 8 s] by (simp add: id_shape_def)
    then have "c \<in> set (take 8 s) \<or> c = CHR ''-'' \<or> c \<in> set (drop 9 s)"
      using that by (metis Un_iff id_shape_def set_ConsD set_append)
    then show ?thesis
      using that(1) digit_bytes by (auto simp: id_shape_def list_all_iff) (auto simp: visible_def less_eq_char_def)
  qed
  show "visible c \<and> byte c < 0x80" if shape: "date_shape s" "c \<in> set s"
  proof -
    obtain k where "k < length s" "s ! k = c" using shape(2) unfolding in_set_conv_nth by blast
    then have k: "k < 10" "c = s ! k" using that(1) by (simp_all add: date_shape_def)
    have "Sqlite_Db.is_digit (s ! k) \<or> s ! k = CHR ''-''"
    proof (cases "k < 4")
      case True
      then have "s ! k \<in> set (take 4 s)" using that(1) by (auto simp: date_shape_def in_set_conv_nth)
      then show ?thesis using that(1) by (auto simp: date_shape_def list_all_iff)
    next
      case False
      then have "k \<in> {4, 5, 6, 7, 8, 9}" using k(1) by auto
      then show ?thesis
        using that(1) by (auto simp: date_shape_def Sqlite_Db.is_digit_def less_eq_char_def)
    qed
    then show ?thesis using digit_bytes k(2) by (auto simp: visible_def less_eq_char_def)
  qed
qed

lemma wf_pageable:
  assumes "wf_db db" "r \<in> set (dbRecords db)" "rDayOrder r \<noteq> []" "utf8_valid (rDayOrder r)"
  shows "pageable r"
proof -
  have shapes: "id_shape (rID r)" "date_shape (rDate r)"
    using assms(1,2) by (auto simp: wf_db_def wf_records_def record_checks_def)
  then have "rID r \<noteq> []" "rDate r \<noteq> []" by (auto simp: id_shape_def date_shape_def)
  moreover have "utf8_valid (rID r)" "utf8_valid (rDate r)"
    using shape_chars shapes by (auto intro!: utf8_valid_ascii simp: list_all_iff)
  moreover have "\<not> blank (rID r)"
    using shape_chars(1) [OF shapes(1)] \<open>rID r \<noteq> []\<close> by (intro not_blank_visible) auto
  ultimately show ?thesis using assms(3,4) by (simp add: pageable_def)
qed

text \<open>C28. Whoever follows the cursors that \<open>pc list\<close> prints, from an empty cursor on, reaches a page without a
  cursor after at most one page more than the matching records fill, and has then seen every matching record
  exactly once, in the order of the list, on pages of at most the limit: for every filter and every limit
  accepted, while the database does not change.\<close>

theorem listing_visits_all:
  assumes "quiet db" "wf_db db" "\<forall>r\<in>set (dbRecords db). rDayOrder r \<noteq> [] \<and> utf8_valid (rDayOrder r)"
    "page_options opts" "loCursor opts = []" "list_filter opts = Inr f"
  shows "\<exists>pages n.
    list_all_pages (Suc (length (matching_records f db) div page_size opts)) opts db = (Inr pages, db \<lparr> dbTick := n \<rparr>) \<and>
    concat pages = items_of db (listing f db) \<and> list_all (\<lambda>p. length p \<le> page_size opts) pages"
proof -
  have ids: "distinct (List.map rID (dbRecords db))" using assms(2) by (simp add: wf_db_def wf_records_def)
  have "\<And>r. r \<in> set (dbRecords db) \<Longrightarrow> pageable r" using assms(2,3) wf_pageable by blast
  moreover have "DecodeCursor (trim_space (loCursor opts)) = Inr None" using assms(5) by (simp add: DecodeCursor_def)
  ultimately obtain pages where
    "reads (list_all_pages (Suc (length (listing f db) div page_size opts)) opts) db pages"
    "concat pages = items_of db (listing f db)" "list_all (\<lambda>p. length p \<le> page_size opts) pages"
    using reads_all_pages [OF assms(1) _ ids assms(4,6), of None "listing f db" "[]"] by auto
  moreover have "db \<lparr> dbTick := dbTick db \<rparr> = db" by simp
  ultimately show ?thesis unfolding reads_def listing_def by (metis length_sort)
qed

text \<open>Three records, one to a page.\<close>

definition listed_record :: "string \<Rightarrow> string \<Rightarrow> string \<Rightarrow> Record" where
  "listed_record i date order =
    \<lparr> rID = i, rUserID = [], rDate = date, rDayOrder = order, rHTMLContent = None, rNotes = None, rProjectID = ''p'',
      rSourceDeviceID = ''d'', rSourceRef = None, rGitRemoteURL = None, rGitHash = None, rCreatedAt = 0,
      rUpdatedAt = 0, rDeletedAt = None \<rparr>"

definition listed_db :: Db where
  "listed_db = sample_db
    \<lparr> dbProjects := [\<lparr> gID = ''p'', gCreatedAt = 0, gUpdatedAt = 0, gArchivedAt = None \<rparr>],
      dbDevices := [\<lparr> gID = ''d'', gCreatedAt = 0, gUpdatedAt = 0, gArchivedAt = None \<rparr>],
      dbRecords := [listed_record ''20240101-0000000a'' ''2024-01-01'' ''n'', listed_record ''20240101-0000000b'' ''2024-01-01'' ''m'',
        listed_record ''20240102-0000000c'' ''2024-01-02'' ''n''] \<rparr>"

definition one_per_page :: recordListOptions where
  "one_per_page =
    \<lparr> foProjectID = [], foDateFrom = [], foDateTo = [], foDeleted = False, loLimit = 1, loCursor = [], loQuery = [],
      loHasHTML = False, loHasData = False, loAll = False, loFormat = ''json'' \<rparr>"

theorem listing_visits_all_witness:
  "\<exists>pages n.
    list_all_pages (Suc (length (matching_records zero_records_filter listed_db) div page_size one_per_page)) one_per_page listed_db =
      (Inr pages, listed_db \<lparr> dbTick := n \<rparr>) \<and>
    concat pages = items_of listed_db (listing zero_records_filter listed_db) \<and>
    list_all (\<lambda>p. length p \<le> page_size one_per_page) pages"
proof (rule listing_visits_all)
  show "quiet listed_db" by (simp add: quiet_def listed_db_def sample_db_def new_db_def)
  show "wf_db listed_db"
    by (simp add: listed_db_def sample_db_def new_db_def wf_db_def wf_parts id_sets listed_record_def record_checks_def
        record_fks_def id_shape_def date_shape_def Sqlite_Db.is_digit_def is_lower_hex_def less_eq_char_def)
  show "\<forall>r\<in>set (dbRecords listed_db). rDayOrder r \<noteq> [] \<and> utf8_valid (rDayOrder r)"
    by (simp add: listed_db_def listed_record_def rune_len_ascii)
  show "page_options one_per_page" by (simp add: page_options_def one_per_page_def)
  show "loCursor one_per_page = []" by (simp add: one_per_page_def)
  show "list_filter one_per_page = Inr zero_records_filter"
    by (simp add: list_filter_def one_per_page_def recordFilterOptions.truncate_def buildListRecordsFilter_def
        buildBaseRecordFilter_def zero_records_filter_def)
qed


end
