(* ===== verification/Inventory.thy ===== *)
theory Inventory
  imports Discovery
begin

text \<open>\<open>cli/records.go\<close>, continued: the attachment inventory (\<open>pc records files list\<close>) and the statistics
  (\<open>pc records stats\<close>), which read the database and the files of the store. Byte counts are \<open>int\<close>: they add
  up sizes of existing files.\<close>

definition statLocalAttachment ::
  "(string \<Rightarrow> string \<Rightarrow> error + path) \<Rightarrow> string \<Rightarrow> string \<Rightarrow> (Stack, int \<times> bool) act" where
  "statLocalAttachment resolve recordID filename =
    bnd (lift_result (resolve recordID filename)) (\<lambda>path.
    bnd (attempt (on_disk (lstat path))) (\<lambda>r.
      case r of
        Inl e \<Rightarrow> if err_is e ErrNotExist then ret (0, False) else fail (Wrapped ''stat local attachment'' e)
      | Inr Dir \<Rightarrow> fail (Plain ''local attachment path is a directory'')
      | Inr (File content) \<Rightarrow> ret (int (length content), True)))"

definition resolveLocalAttachment ::
  "(string \<Rightarrow> string \<Rightarrow> error + path) \<Rightarrow> string \<Rightarrow> string \<Rightarrow> (Stack, path \<times> int option \<times> string) act" where
  "resolveLocalAttachment resolve recordID filename =
    bnd (lift_result (resolve recordID filename)) (\<lambda>path.
    bnd (attempt (on_disk (lstat path))) (\<lambda>r.
      case r of
        Inl e \<Rightarrow> if err_is e ErrNotExist then ret (path, None, ''missing'') else fail (Wrapped ''stat local attachment'' e)
      | Inr Dir \<Rightarrow> fail (Plain ''local attachment path is a directory'')
      | Inr (File content) \<Rightarrow> ret (path, Some (int (length content)), ''present'')))"

record fileInventoryItem =
  fiRecordID :: string
  fiDate :: string
  fiProjectID :: string
  fiKind :: string
  fiFilename :: string
  fiS3Key :: string
  fiRecordedSize :: "int option"
  fiLocalSize :: "int option"
  fiLocalPath :: path
  fiStatus :: string
  fiHash :: "string option"

definition figure_inventory :: "Client \<Rightarrow> Record \<Rightarrow> RecordFigure \<Rightarrow> (Stack, fileInventoryItem) act" where
  "figure_inventory fs r f =
    bnd (resolveLocalAttachment (Local_Files.ResolveFigurePath fs) (rID r) (fgFilename f)) (\<lambda>(path, sz, status).
      ret \<lparr> fiRecordID = rID r, fiDate = rDate r, fiProjectID = rProjectID r, fiKind = ''figure'',
            fiFilename = fgFilename f, fiS3Key = fgS3Key f, fiRecordedSize = None, fiLocalSize = sz,
            fiLocalPath = path, fiStatus = status, fiHash = None \<rparr>)"

definition data_file_inventory :: "Client \<Rightarrow> Record \<Rightarrow> RecordDataFile \<Rightarrow> (Stack, fileInventoryItem) act" where
  "data_file_inventory fs r f =
    bnd (resolveLocalAttachment (Local_Files.ResolveDataFilePath fs) (rID r) (dfFilename f)) (\<lambda>(path, sz, status).
      ret \<lparr> fiRecordID = rID r, fiDate = rDate r, fiProjectID = rProjectID r, fiKind = ''data'',
            fiFilename = dfFilename f, fiS3Key = dfS3Key f, fiRecordedSize = Some (dfSize f), fiLocalSize = sz,
            fiLocalPath = path, fiStatus = status, fiHash = Some (dfHash f) \<rparr>)"

text \<open>A loop that appends the item of each element.\<close>

definition collect :: "('a \<Rightarrow> ('w, 'b) act) \<Rightarrow> 'a list \<Rightarrow> 'b list \<Rightarrow> ('w, 'b list) act" where
  "collect f xs items = each_acc (\<lambda>x items. bnd (f x) (\<lambda>y. ret (items @ [y]))) xs items"

definition buildFileInventoryItems :: "Client \<Rightarrow> Record \<Rightarrow> (Stack, fileInventoryItem list) act" where
  "buildFileInventoryItems fs r =
    bnd (wrap ''list figures'' (on_db (sqlite_ListRecordFiguresByRecordID (rID r)))) (\<lambda>figures.
    bnd (wrap ''list data files'' (on_db (sqlite_ListRecordDataFilesByRecordID (rID r)))) (\<lambda>dataFiles.
    bnd (collect (figure_inventory fs r) figures []) (\<lambda>items.
      collect (data_file_inventory fs r) dataFiles items)))"

definition runFilesList :: "recordFilterOptions \<Rightarrow> string \<Rightarrow> string \<Rightarrow> (Stack, fileInventoryItem list) act" where
  "runFilesList opts recordOpt format w =
    (if format \<notin> {''table'', ''json''} then fail (Plain ''unknown format'')
     else
       bnd (lift_result (buildListRecordsFilter opts)) (\<lambda>f.
       let recordID = trim_space recordOpt in
       bnd (if recordID \<noteq> [] then
              bnd (attempt (on_db (sqlite_GetRecordByID recordID))) (\<lambda>r.
                case r of
                  Inl _ \<Rightarrow> fail (Plain ''record not found'')
                | Inr record \<Rightarrow>
                    if recordMatchesFilter record f then ret [record]
                    else fail (Plain ''record does not match the requested filters''))
            else
              bnd (wrap ''list records'' (on_db (sqlite_ListRecords f))) (\<lambda>records.
                ret (sortRecordsForDiscovery records))) (\<lambda>records.
         each_acc (\<lambda>r items. bnd (buildFileInventoryItems (lsFS w) r) (\<lambda>new. ret (items @ new))) records []))) w"

section \<open>Statistics\<close>

record recordStats =
  rsActiveRecordCount :: nat
  rsDeletedRecordCount :: nat
  rsSelectedRecordCount :: nat
  rsHTMLRecordCount :: nat
  rsNotesRecordCount :: nat
  rsFigureCount :: nat
  rsDataFileCount :: nat
  rsOldestRecordDate :: "string option"
  rsNewestRecordDate :: "string option"
  rsRecordedDataFileBytes :: int
  rsLocalAttachmentBytes :: int
  rsStoreFileBytes :: int
  rsLocalTotalBytes :: int
  rsMissingAttachmentCount :: nat

definition zero_stats :: recordStats where
  "zero_stats =
    \<lparr> rsActiveRecordCount = 0, rsDeletedRecordCount = 0, rsSelectedRecordCount = 0, rsHTMLRecordCount = 0,
      rsNotesRecordCount = 0, rsFigureCount = 0, rsDataFileCount = 0, rsOldestRecordDate = None,
      rsNewestRecordDate = None, rsRecordedDataFileBytes = 0, rsLocalAttachmentBytes = 0, rsStoreFileBytes = 0,
      rsLocalTotalBytes = 0, rsMissingAttachmentCount = 0 \<rparr>"

definition add_attachment :: "int \<times> bool \<Rightarrow> recordStats \<Rightarrow> recordStats" where
  "add_attachment stat s =
    (case stat of (sz, ok) \<Rightarrow>
       if ok then s \<lparr> rsLocalAttachmentBytes := rsLocalAttachmentBytes s + sz \<rparr>
       else s \<lparr> rsMissingAttachmentCount := rsMissingAttachmentCount s + 1 \<rparr>)"

text \<open>What the loop reads off the row itself.\<close>

definition add_record :: "Record \<Rightarrow> recordStats \<Rightarrow> recordStats" where
  "add_record r s =
    (let s1 = (if (case rsOldestRecordDate s of None \<Rightarrow> True | Some d \<Rightarrow> rDate r < d)
               then s \<lparr> rsOldestRecordDate := Some (rDate r) \<rparr> else s);
         s2 = (if (case rsNewestRecordDate s1 of None \<Rightarrow> True | Some d \<Rightarrow> rDate r > d)
               then s1 \<lparr> rsNewestRecordDate := Some (rDate r) \<rparr> else s1);
         s3 = (if rHTMLContent r \<noteq> None then s2 \<lparr> rsHTMLRecordCount := rsHTMLRecordCount s2 + 1 \<rparr> else s2)
     in if rNotes r \<noteq> None then s3 \<lparr> rsNotesRecordCount := rsNotesRecordCount s3 + 1 \<rparr> else s3)"

definition record_stats_step :: "Client \<Rightarrow> Record \<Rightarrow> recordStats \<Rightarrow> (Stack, recordStats) act" where
  "record_stats_step fs r s =
    (let s1 = add_record r s in
     bnd (wrap ''list figures'' (on_db (sqlite_ListRecordFiguresByRecordID (rID r)))) (\<lambda>figures.
     bnd (wrap ''list data files'' (on_db (sqlite_ListRecordDataFilesByRecordID (rID r)))) (\<lambda>dataFiles.
     let s2 = s1 \<lparr> rsFigureCount := rsFigureCount s1 + length figures,
                   rsDataFileCount := rsDataFileCount s1 + length dataFiles \<rparr> in
     bnd (each_acc (\<lambda>f s.
            bnd (statLocalAttachment (Local_Files.ResolveFigurePath fs) (rID r) (fgFilename f)) (\<lambda>stat. ret (add_attachment stat s)))
          figures s2) (\<lambda>s3.
       each_acc (\<lambda>f s.
            bnd (statLocalAttachment (Local_Files.ResolveDataFilePath fs) (rID r) (dfFilename f)) (\<lambda>stat.
              ret (add_attachment stat (s \<lparr> rsRecordedDataFileBytes := rsRecordedDataFileBytes s + dfSize f \<rparr>))))
          dataFiles s3))))"

text \<open>The database file and SQLite's journals beside it.\<close>

definition store_files :: "Client \<Rightarrow> path list" where
  "store_files fs =
    List.map (\<lambda>suffix. basePath fs @ [''.pc'', ''pc.db'' @ suffix]) [[], ''-wal'', ''-shm'', ''-journal'']"

definition localStoreFileBytes :: "Client \<Rightarrow> (Stack, int) act" where
  "localStoreFileBytes fs =
    each_acc (\<lambda>path total.
      bnd (attempt (on_disk (lstat path))) (\<lambda>r.
        case r of
          Inl e \<Rightarrow> if err_is e ErrNotExist then ret total else fail (Wrapped ''stat store file'' e)
        | Inr n \<Rightarrow> ret (total + content_size n))) (store_files fs) 0"

definition buildRecordStats :: "Client \<Rightarrow> Record list \<Rightarrow> (Stack, recordStats) act" where
  "buildRecordStats fs records =
    bnd (each_acc (record_stats_step fs) records zero_stats) (\<lambda>s.
    bnd (localStoreFileBytes fs) (\<lambda>storeBytes.
      ret (s \<lparr> rsStoreFileBytes := storeBytes, rsLocalTotalBytes := rsLocalAttachmentBytes s + storeBytes \<rparr>)))"

definition runStats :: "recordFilterOptions \<Rightarrow> string \<Rightarrow> (Stack, recordStats) act" where
  "runStats opts format w =
    (if format \<notin> {''text'', ''json''} then fail (Plain ''unknown format'')
     else
       bnd (lift_result (buildBaseRecordFilter opts)) (\<lambda>f.
       bnd (wrap ''list active records''
             (on_db (sqlite_ListRecords (f \<lparr> lrIncludeDeleted := False, lrOnlyDeleted := False \<rparr>)))) (\<lambda>activeRecords.
       bnd (wrap ''list deleted records''
             (on_db (sqlite_ListRecords (f \<lparr> lrIncludeDeleted := True, lrOnlyDeleted := True \<rparr>)))) (\<lambda>deletedRecords.
       let selected = (if foDeleted opts then deletedRecords else activeRecords) in
       bnd (buildRecordStats (lsFS w) selected) (\<lambda>s.
         ret (s \<lparr> rsActiveRecordCount := length activeRecords, rsDeletedRecordCount := length deletedRecords,
                  rsSelectedRecordCount := length selected \<rparr>)))))) w"

end
