(* ===== verification/Config_Props.thy ===== *)
theory Config_Props
  imports Config Disk_Logic
begin

text \<open>The configuration file survives a write that fails anywhere, and a written configuration reads back.\<close>

section \<open>Blank texts\<close>

text \<open>Replacing malformed bytes makes no text blank.\<close>

lemma strip_rev_empty:
  "strip_seqs (List.map rev Q) (rev l) = [] \<Longrightarrow> l \<noteq> [] \<Longrightarrow> starts_with_seq Q l"
proof (induction "List.map rev Q" "rev l" arbitrary: l rule: strip_seqs.induct)
  case 1
  show ?case
  proof (cases "List.find (\<lambda>q. q \<noteq> [] \<and> prefix q (rev l)) (List.map rev Q)")
    case None
    then show ?thesis using "1.prems" by (simp add: strip_seqs.simps [of _ "rev l"])
  next
    case (Some q)
    then obtain i where i: "i < length Q" "q = rev (Q ! i)" "Q ! i \<noteq> []" "prefix q (rev l)"
      by (auto simp: find_Some_iff)
    then obtain p where q: "q = rev p" "p \<in> set Q" "p \<noteq> []" "prefix (rev p) (rev l)" by (metis nth_mem)
    then obtain m where l: "l = m @ p" by (auto simp: suffix_to_prefix [symmetric] suffix_def)
    have drop: "drop (length q) (rev l) = rev m" by (simp add: q(1) l)
    have "strip_seqs (List.map rev Q) (rev m) = []"
      using "1.prems"(1) Some drop by (simp add: strip_seqs.simps [of _ "rev l"])
    then have "m \<noteq> [] \<Longrightarrow> starts_with_seq Q m" using 1(1) [OF Some, of m] drop by simp
    then show ?thesis
      using q(2,3) unfolding l by (cases "m = []") (auto simp: starts_with_seq_def intro: prefix_prefix)
  qed
qed

lemma blank_strip: "blank s \<longleftrightarrow> strip_seqs space_seqs s = []"
  using strip_rev_empty [of space_seqs "strip_seqs space_seqs s"] strip_seqs_not_start [of space_seqs s]
  by (auto simp: blank_def trim_space_def strip_seqs_id starts_with_seq_def)

lemma space_rune:
  assumes "q \<in> set space_seqs"
  shows "rune_len (q @ t) = length q" "q \<noteq> []" "hd q \<noteq> CHR 0xEF"
proof -
  have "list_all (\<lambda>q. rune_len q = length q \<and> q \<noteq> [] \<and> hd q \<noteq> CHR 0xEF) space_seqs" by code_simp
  then have q: "rune_len q = length q" "q \<noteq> []" "hd q \<noteq> CHR 0xEF" using assms by (auto simp: list_all_iff)
  with rune_len_take [of q t] show "rune_len (q @ t) = length q" "q \<noteq> []" "hd q \<noteq> CHR 0xEF" by simp_all
qed

lemma utf8_clean_rune:
  "rune_len s \<noteq> 0 \<Longrightarrow> utf8_clean s = take (rune_len s) s @ utf8_clean (drop (rune_len s) s)"
  by (cases s) (simp_all add: utf8_clean.simps(2) Let_def rune_len.simps(1))

lemma clean_starts_with_space:
  assumes "q \<in> set space_seqs" "prefix q (utf8_clean s)"
  shows "prefix q s"
proof (cases s)
  case Nil
  then show ?thesis using assms by simp
next
  case (Cons c u)
  let ?k = "rune_len s"
  show ?thesis
  proof (cases "?k = 0")
    case True
    then have "utf8_clean s = replacement @ utf8_clean u" by (simp add: Cons utf8_clean.simps(2))
    then have "hd q = CHR 0xEF" using assms space_rune(2) [OF assms(1)] by (cases q) (auto simp: replacement_def)
    then show ?thesis using space_rune(3) [OF assms(1)] by simp
  next
    case False
    then have clean: "utf8_clean s = take ?k s @ utf8_clean (drop ?k s)" by (rule utf8_clean_rune)
    obtain t where t: "utf8_clean s = q @ t" using assms(2) by (auto simp: prefix_def)
    have "rune_len (utf8_clean s) = ?k" unfolding clean using rune_len_take [OF False] .
    then have "length q = ?k" using space_rune(1) [OF assms(1), of t] t by simp
    moreover have "length (take ?k s) = ?k" using rune_len_le [of s] by simp
    ultimately have "q = take ?k s" using t clean by (metis append_eq_append_conv)
    then show ?thesis by (simp add: take_is_prefix)
  qed
qed

lemma space_starts_clean:
  assumes "q \<in> set space_seqs"
  shows "utf8_clean (q @ u) = q @ utf8_clean u"
  using utf8_clean_rune [of "q @ u"] space_rune [OF assms] by simp

lemma clean_starts_iff: "q \<in> set space_seqs \<Longrightarrow> prefix q (utf8_clean s) \<longleftrightarrow> prefix q s"
  using clean_starts_with_space space_starts_clean by (auto simp: prefix_def)

lemma blank_clean: "blank (utf8_clean s) \<longleftrightarrow> blank s"
proof -
  have "strip_seqs space_seqs (utf8_clean s) = utf8_clean (strip_seqs space_seqs s)"
  proof (induction space_seqs s rule: strip_seqs.induct)
    case (1 s)
    show ?case
    proof (cases "List.find (\<lambda>q. q \<noteq> [] \<and> prefix q s) space_seqs")
      case None
      then have "\<not> starts_with_seq space_seqs s" by (auto simp: find_None_iff starts_with_seq_def)
      moreover then have "\<not> starts_with_seq space_seqs (utf8_clean s)"
        using clean_starts_with_space by (auto simp: starts_with_seq_def)
      ultimately show ?thesis by (simp add: strip_seqs_id)
    next
      case (Some q)
      then obtain u where q: "q \<in> set space_seqs" "s = q @ u" by (auto simp: find_Some_iff prefix_def)
      have same: "List.find (\<lambda>q. q \<noteq> [] \<and> prefix q (utf8_clean s)) space_seqs = List.find (\<lambda>q. q \<noteq> [] \<and> prefix q s) space_seqs"
        by (rule find_cong) (simp_all add: clean_starts_iff)
      show ?thesis
        using 1 [OF Some] Some same unfolding strip_seqs.simps [of _ s] strip_seqs.simps [of _ "utf8_clean s"]
        by (simp add: q(2) space_starts_clean [OF q(1)])
    qed
  qed
  then show ?thesis by (simp add: blank_strip)
qed

section \<open>The text reads back\<close>

definition clean_config :: "Config \<Rightarrow> Config" where
  "clean_config c =
    c \<lparr> cNeonURL := utf8_clean (cNeonURL c), cS3Bucket := utf8_clean (cS3Bucket c),
        cS3Region := utf8_clean (cS3Region c), cAWSProfile := utf8_clean (cAWSProfile c),
        cActiveProject := utf8_clean (cActiveProject c), cS3Endpoint := utf8_clean (cS3Endpoint c),
        cAPIKey := utf8_clean (cAPIKey c) \<rparr>"

lemma set_config_append:
  "set_config_members (ms @ ns) c =
     (case set_config_members ms c of Inl e \<Rightarrow> Inl e | Inr c' \<Rightarrow> set_config_members ns c')"
  by (induction ms c rule: set_config_members.induct) (auto split: sum.splits)

lemma json_int_text: "0 < d \<Longrightarrow> d < 2 ^ 63 \<Longrightarrow> json_int (int_text d) = Some d"
proof -
  assume d: "0 < d" "d < 2 ^ 63"
  have dec: "list_all decimal (nat_text (nat d))" by (rule nat_text_decimal)
  then have "\<not> prefix ''-'' (nat_text (nat d))" by (cases "nat_text (nat d)") auto
  then show ?thesis using d dec by (simp add: json_int_def int_text_def nat_text_value)
qed

lemma valid_days: "ValidateGCRetentionDays (Some d) = Inr () \<longleftrightarrow> 1 \<le> d \<and> d \<le> 36500"
  by (auto simp: MaxGCRetentionDays_def)

lemma names_clean:
  "utf8_clean ''neon_url'' = ''neon_url''" "utf8_clean ''s3_bucket'' = ''s3_bucket''"
  "utf8_clean ''s3_region'' = ''s3_region''" "utf8_clean ''aws_profile'' = ''aws_profile''"
  "utf8_clean ''active_project'' = ''active_project''" "utf8_clean ''s3_endpoint'' = ''s3_endpoint''"
  "utf8_clean ''s3_force_path_style'' = ''s3_force_path_style''" "utf8_clean ''api_key'' = ''api_key''"
  "utf8_clean ''gc_retention_days'' = ''gc_retention_days''"
  by (rule utf8_clean_valid, rule utf8_valid_ascii, simp)+

lemma names_fold:
  "fold_name ''neon_url'' = ''neon_url''" "fold_name ''s3_bucket'' = ''s3_bucket''"
  "fold_name ''s3_region'' = ''s3_region''" "fold_name ''aws_profile'' = ''aws_profile''"
  "fold_name ''active_project'' = ''active_project''" "fold_name ''s3_endpoint'' = ''s3_endpoint''"
  "fold_name ''s3_force_path_style'' = ''s3_force_path_style''" "fold_name ''api_key'' = ''api_key''"
  "fold_name ''gc_retention_days'' = ''gc_retention_days''"
  by code_simp+

declare fold_name.simps [simp del]

lemma set_members:
  "set_config_member ''neon_url'' (JString s) c = Inr (c \<lparr> cNeonURL := s \<rparr>)"
  "set_config_member ''s3_bucket'' (JString s) c = Inr (c \<lparr> cS3Bucket := s \<rparr>)"
  "set_config_member ''s3_region'' (JString s) c = Inr (c \<lparr> cS3Region := s \<rparr>)"
  "set_config_member ''aws_profile'' (JString s) c = Inr (c \<lparr> cAWSProfile := s \<rparr>)"
  "set_config_member ''active_project'' (JString s) c = Inr (c \<lparr> cActiveProject := s \<rparr>)"
  "set_config_member ''s3_endpoint'' (JString s) c = Inr (c \<lparr> cS3Endpoint := s \<rparr>)"
  "set_config_member ''api_key'' (JString s) c = Inr (c \<lparr> cAPIKey := s \<rparr>)"
  "set_config_member ''s3_force_path_style'' (JBool b) c = Inr (c \<lparr> cS3ForcePathStyle := b \<rparr>)"
  by (simp_all add: set_config_member_def names_fold string_field_def)

lemma set_days_member:
  "json_int n = Some d \<Longrightarrow> set_config_member ''gc_retention_days'' (JNumber n) c = Inr (c \<lparr> cGCRetentionDays := Some d \<rparr>)"
  by (simp add: set_config_member_def names_fold)

lemma read_string_members:
  "cNeonURL c = [] \<Longrightarrow> set_config_members (List.map read_back (string_member ''neon_url'' s)) c = Inr (c \<lparr> cNeonURL := utf8_clean s \<rparr>)"
  "cS3Bucket c = [] \<Longrightarrow> set_config_members (List.map read_back (string_member ''s3_bucket'' s)) c = Inr (c \<lparr> cS3Bucket := utf8_clean s \<rparr>)"
  "cS3Region c = [] \<Longrightarrow> set_config_members (List.map read_back (string_member ''s3_region'' s)) c = Inr (c \<lparr> cS3Region := utf8_clean s \<rparr>)"
  "cAWSProfile c = [] \<Longrightarrow> set_config_members (List.map read_back (string_member ''aws_profile'' s)) c = Inr (c \<lparr> cAWSProfile := utf8_clean s \<rparr>)"
  "cActiveProject c = [] \<Longrightarrow> set_config_members (List.map read_back (string_member ''active_project'' s)) c = Inr (c \<lparr> cActiveProject := utf8_clean s \<rparr>)"
  "cS3Endpoint c = [] \<Longrightarrow> set_config_members (List.map read_back (string_member ''s3_endpoint'' s)) c = Inr (c \<lparr> cS3Endpoint := utf8_clean s \<rparr>)"
  "cAPIKey c = [] \<Longrightarrow> set_config_members (List.map read_back (string_member ''api_key'' s)) c = Inr (c \<lparr> cAPIKey := utf8_clean s \<rparr>)"
  by (cases c; simp add: string_member_def read_back_def names_clean set_members)+

lemma unmarshal_marshal_config:
  assumes "ValidateGCRetentionDays (cGCRetentionDays c) = Inr ()"
  shows "unmarshal_config (marshal_config c @ [CHR 0x0A]) = Inr (clean_config c)"
proof -
  have days: "1 \<le> d \<and> d \<le> 36500" if "cGCRetentionDays c = Some d" for d
    using assms valid_days [of d] that by simp
  then have "plain_scalar (JNumber (int_text d))" if "cGCRetentionDays c = Some d" for d
    using that nat_text_no_zero [of "nat d"] by (fastforce simp: plain_scalar_def int_text_def nat_text_decimal)
  then have plain: "list_all (\<lambda>m. plain_scalar (snd m)) (config_members c)"
    by (auto simp: config_members_def string_member_def plain_scalar_def split: option.splits)
  have num: "json_int (int_text d) = Some d" if "cGCRetentionDays c = Some d" for d
    using days [OF that] by (intro json_int_text) auto
  have "set_config_members (List.map read_back (config_members c)) zero_config = Inr (clean_config c)"
    unfolding config_members_def map_append set_config_append
    by (cases "cS3ForcePathStyle c"; cases "cGCRetentionDays c"; cases c;
        simp add: read_string_members zero_config_def set_members set_days_member read_back_def names_clean num clean_config_def)
  then show ?thesis
    unfolding unmarshal_config_def marshal_config_def json_text_indented [OF plain] by simp
qed

lemma config_mode_clean: "config_mode (clean_config c) = config_mode c"
  by (simp add: config_mode_def clean_config_def blank_clean Let_def)

lemma parse_marshalled:
  assumes "ValidateGCRetentionDays (cGCRetentionDays c) = Inr ()" "config_mode c = Inr m"
  shows "parse_config (marshal_config c @ [CHR 0x0A]) = Inr (clean_config c)"
proof -
  have "cGCRetentionDays (clean_config c) = cGCRetentionDays c" by (simp add: clean_config_def)
  then show ?thesis
    using assms unmarshal_marshal_config [OF assms(1)]
    by (simp add: parse_config_def wrap_result_def config_mode_clean)
qed

section \<open>The file\<close>

lemma outcome_create_temp:
  assumes "outcome J (create_in (File []) dir stem) K"
  shows "outcome J (create_temp_suffixed dir stem suf) K"
proof (rule outcomeI)
  fix d :: files assume J: "J (dkTree d)"
  let ?d = "d \<lparr> dkTemp := (\<lambda>k. List.map (\<lambda>n. n @ suf) (dkTemp d k)) \<rparr>"
  have "K (fst (create_in (File []) dir stem ?d)) (dkTree (snd (create_in (File []) dir stem ?d)))"
    using assms J by (auto simp: outcome_def)
  then show "K (fst (create_temp_suffixed dir stem suf d)) (dkTree (snd (create_temp_suffixed dir stem suf d)))"
    by (cases "create_in (File []) dir stem ?d") (simp add: create_temp_suffixed_def)
qed

definition config_temp :: "path \<Rightarrow> path \<Rightarrow> bool" where
  "config_temp dir tmp = (\<exists>n. tmp = dir @ [''.config-'' @ n])"

lemma config_temp_parallel:
  assumes "config_temp dir tmp"
  shows "parallel tmp (dir @ [''config.json''])" "\<not> prefix tmp (dir @ [''config.json''])" "tmp \<noteq> dir @ [''config.json'']"
  using assms by (auto simp: config_temp_def parallel_def prefix_def)

lemma outcome_closing_after:
  assumes "keeps (on_tree J) m"
  shows "outcome J (closing_after m) (either (\<lambda>_. J) (\<lambda>_. J))"
  unfolding closing_after_def
  by (rule outcome_keeps_either) (intro keep_intros assms)

lemma write_atomically_outcome:
  fixes dir :: path and content :: string and g :: "string node option"
  defines "target \<equiv> dir @ [''config.json'']"
  shows "outcome (\<lambda>t. at t target = g) (writeFileAtomically target content)
    (either (\<lambda>_ t. at t target = g) (\<lambda>_ t. at t target = Some (File content)))"
proof -
  define old where "old t \<longleftrightarrow> at t target = g" for t :: "string tree"
  define filled where "filled tmp t \<longleftrightarrow> old t \<and> at t tmp = Some (File content)" for tmp t
  have dir: "butlast target = dir" by (simp add: target_def)
  have create: "outcome old (create_temp_suffixed dir ''.config-'' suf)
      (either (\<lambda>_. old) (\<lambda>tmp t. config_temp dir tmp \<and> old t))" for suf
    by (rule outcome_create_temp, rule outcome_create_in)
       (auto simp: old_def target_def config_temp_def)
  have body: "outcome old
      (cleanup_unless_ok (ignored (remove_file tmp))
        (sq (wrap m1 (closing_after disk_plain))
        (sq (wrap m2 (closing_after (write_open tmp content)))
        (sq (wrap m3 (closing_after disk_plain))
        (sq (wrap m4 disk_plain)
            (wrap m5 (rename_file tmp target)))))))
      (either (\<lambda>_. old) (\<lambda>_ t. at t target = Some (File content)))"
    if tmp: "config_temp dir tmp" for tmp m1 m2 m3 m4 m5
  proof (rule outcome_cleanup [where E = "\<lambda>_. old"])
    note par = config_temp_parallel [OF tmp, folded target_def]
    have old_put: "old (put_node tmp n t) = old t" for n t using par(3) by (auto simp: old_def)
    have rename: "outcome (filled tmp) (wrap m5 (rename_file tmp target)) (either (\<lambda>_. old) (\<lambda>_ t. at t target = Some (File content)))"
      by (rule outcome_wrap_either, rule outcome_rename)
         (use par in \<open>auto simp: filled_def at_moved old_def\<close>)
    have close: "outcome (filled tmp) (wrap m disk_plain) (either (\<lambda>_. old) (\<lambda>_. filled tmp))" for m
      by (rule outcome_wrap_either, rule outcome_weaken [OF outcome_keeps_either [OF keeps_disk_plain]])
         (auto simp: filled_def either_def split: sum.splits)
    have sync: "outcome (filled tmp) (wrap m (closing_after disk_plain)) (either (\<lambda>_. old) (\<lambda>_. filled tmp))" for m
      by (rule outcome_wrap_either, rule outcome_weaken [OF outcome_closing_after [OF keeps_disk_plain]])
         (auto simp: filled_def either_def split: sum.splits)
    have chmod: "outcome old (wrap m (closing_after disk_plain)) (either (\<lambda>_. old) (\<lambda>_. old))" for m
      by (rule outcome_wrap_either, rule outcome_closing_after, rule keeps_disk_plain)
    have fill: "outcome old (wrap m (closing_after (write_open tmp content))) (either (\<lambda>_. old) (\<lambda>_. filled tmp))" for m
      unfolding closing_after_def
      by (rule outcome_wrap_either, rule outcome_cleanup [where E = "\<lambda>_. old"], rule outcome_write_open)
         (auto simp: old_put filled_def intro: outcome_weaken [OF outcome_keeps [OF keeps_disk_plain]])
    show "outcome old
        (sq (wrap m1 (closing_after disk_plain))
        (sq (wrap m2 (closing_after (write_open tmp content)))
        (sq (wrap m3 (closing_after disk_plain))
        (sq (wrap m4 disk_plain)
            (wrap m5 (rename_file tmp target))))))
        (either (\<lambda>_. old) (\<lambda>b. either (\<lambda>_. old) (\<lambda>_ t. at t target = Some (File content)) (Inr b)))"
      by (rule outcome_sq [where R = old], simp add: chmod,
          rule outcome_sq [where R = "filled tmp"], simp add: fill,
          rule outcome_sq [where R = "filled tmp"], simp add: sync,
          rule outcome_sq [where R = "filled tmp"], simp add: close, simp add: rename)
    show "outcome old (ignored (remove_file tmp)) (\<lambda>_. either (\<lambda>_. old) (\<lambda>_ t. at t target = Some (File content)) (Inl e))"
      for e
      by (simp, rule outcome_keeps, intro keep_intros) (use par in \<open>simp add: old_def\<close>)
  qed
  have "outcome old (writeFileAtomically target content) (either (\<lambda>_. old) (\<lambda>_ t. at t target = Some (File content)))"
    unfolding writeFileAtomically_def dir
  proof (rule outcome_bnd [where R = "\<lambda>tmp t. config_temp dir tmp \<and> old t"])
    show "outcome old (wrap m (create_temp_suffixed dir ''.config-'' ''.tmp''))
        (either (\<lambda>e. either (\<lambda>_. old) (\<lambda>_ t. at t target = Some (File content)) (Inl e)) (\<lambda>tmp t. config_temp dir tmp \<and> old t))"
      for m
      by (rule outcome_wrap_either) (simp add: create)
  qed (rule outcome_pure, rule body)
  then show ?thesis unfolding old_def .
qed

text \<open>C33. The configuration file under every pattern of I/O failures and at every crash point: a \<open>Write\<close> that
  fails leaves the file as it was, and one that returns leaves a text that \<open>Read\<close> accepts and reads as the
  configuration written, with malformed UTF-8 replaced.\<close>

theorem config_write_read:
  "case config_Write s cfg d of
     (Inl _, d') \<Rightarrow> at (dkTree d') (config_path s) = at (dkTree d) (config_path s)
   | (Inr _, d') \<Rightarrow>
       (\<exists>text. at (dkTree d') (config_path s) = Some (File text) \<and> parse_config text = Inr (clean_config cfg))"
proof -
  let ?p = "config_path s"
  let ?dir = "stHome s @ [''personal-context'', ''.pc'']"
  have p: "?p = ?dir @ [''config.json'']" "butlast ?p = ?dir" by (simp_all add: config_path_def butlast_append)
  show ?thesis
  proof (cases "config_mode cfg")
    case (Inl e)
    then show ?thesis by (simp add: config_Write_def bnd_def lift_result_def)
  next
    case mode: (Inr m)
    show ?thesis
    proof (cases "ValidateGCRetentionDays (cGCRetentionDays cfg)")
      case (Inl e)
      then show ?thesis using mode by (simp add: config_Write_def bnd_def lift_result_def wrap_result_def)
    next
      case (Inr u)
      let ?old = "\<lambda>t. at t ?p = at (dkTree d) ?p"
      let ?text = "marshal_config cfg @ [CHR 0x0A]"
      have "outcome ?old (sq (wrap ''create config dir'' (mkdir_all ?dir)) (writeFileAtomically ?p ?text))
          (either (\<lambda>_. ?old) (\<lambda>_ t. at t ?p = Some (File ?text)))"
        by (rule outcome_sq_keeps, intro keep_intros)
           (use write_atomically_outcome [of ?dir] in \<open>auto simp: p(1)\<close>)
      moreover have "config_Write s cfg d = sq (wrap ''create config dir'' (mkdir_all ?dir)) (writeFileAtomically ?p ?text) d"
        using mode Inr by (simp add: config_Write_def bnd_def lift_result_def wrap_result_def p(2) Let_def)
      moreover have "parse_config ?text = Inr (clean_config cfg)"
        using mode Inr by (intro parse_marshalled) auto
      ultimately show ?thesis
        unfolding outcome_def by (auto simp: either_def split: prod.splits sum.splits dest!: spec [of _ d])
    qed
  qed
qed

end
