(* ===== verification/Lifecycle.thy ===== *)
theory Lifecycle
  imports Local_Stack Sqlite_Chat Timeutil
begin

text \<open>\<open>cli/lifecycle.go\<close>, \<open>cli/gc.go\<close> and \<open>cli/trash.go\<close>: the trash listing and the removal of expired trash,
  cloud first. The cloud stack is a parameter: its calls act on a cloud state of any type and may answer
  anything. So are the opening of the cloud stack, \<open>time.Now\<close> and the synchronisation started at the end.\<close>

section \<open>Items and domains\<close>

record trashedItem =
  tiID :: string
  tiDomain :: string
  tiDate :: string
  tiDeletedAt :: "time option"
  tiRawSourceKey :: string

record 'c cloudStack =
  clDeleteRecord :: "string \<Rightarrow> ('c, unit) act"
  clDeleteChatSession :: "string \<Rightarrow> ('c, unit) act"
  clS3Delete :: "(string \<Rightarrow> ('c, unit) act) option" \<comment> \<open>\<open>None\<close>: no S3 client\<close>
  clS3IsNotFound :: "error \<Rightarrow> bool"

datatype hardError =
    lifecycleDBError string error
  | lifecycleFSError error bool \<comment> \<open>with the flag \<open>dbDeleted\<close>\<close>
  | otherHardError error

record 'c trashDomain =
  tdName :: string
  tdList :: "(Db, trashedItem list) act"
  tdHardLocal :: "trashedItem \<Rightarrow> (Stack, hardError option) act"
  tdHardCloud :: "'c cloudStack \<Rightarrow> trashedItem \<Rightarrow> ('c, unit) act"

text \<open>A local hard deletion: the rows first, then the files.\<close>

definition hard_local :: "string \<Rightarrow> (Db, unit) act \<Rightarrow> (Client \<Rightarrow> (files, unit) act) \<Rightarrow> (Stack, hardError option) act" where
  "hard_local op rows files w =
    bnd (attempt (on_db rows)) (\<lambda>r.
      case r of
        Inl e \<Rightarrow> ret (Some (lifecycleDBError op e))
      | Inr _ \<Rightarrow>
          bnd (attempt (on_disk (files (lsFS w)))) (\<lambda>r.
            case r of Inl e \<Rightarrow> ret (Some (lifecycleFSError e True)) | Inr _ \<Rightarrow> ret None)) w"

definition deleteCloudObjectTolerant :: "'c cloudStack \<Rightarrow> string \<Rightarrow> ('c, unit) act" where
  "deleteCloudObjectTolerant cloud key =
    (case clS3Delete cloud of
       None \<Rightarrow> fail (Plain ''cloud S3 client is required'')
     | Some delete \<Rightarrow>
         bnd (attempt (delete key)) (\<lambda>r.
           case r of
             Inr _ \<Rightarrow> ret ()
           | Inl e \<Rightarrow> if clS3IsNotFound cloud e then ret () else fail e))"

definition record_item :: "Record \<Rightarrow> trashedItem" where
  "record_item r =
    \<lparr> tiID = rID r, tiDomain = ''record'', tiDate = rDate r, tiDeletedAt = rDeletedAt r, tiRawSourceKey = [] \<rparr>"

definition recordTrashDomain :: "'c trashDomain" where
  "recordTrashDomain =
    \<lparr> tdName = ''record'',
      tdList =
        bnd (wrap ''list deleted records'' (sqlite_ListRecords (zero_records_filter \<lparr> lrOnlyDeleted := True \<rparr>)))
          (\<lambda>records. ret (List.map record_item records)),
      tdHardLocal = (\<lambda>item.
        hard_local ''hard delete record'' (sqlite_DeleteRecord (tiID item)) (\<lambda>c. DeleteRecordDir c (tiID item))),
      tdHardCloud = (\<lambda>cloud item. clDeleteRecord cloud (tiID item)) \<rparr>"

definition chat_item :: "ChatSession \<Rightarrow> trashedItem" where
  "chat_item s =
    \<lparr> tiID = csID s, tiDomain = ''chat'', tiDate = take 10 (FormatUTCMillis (csLastActivityAt s)),
      tiDeletedAt = csDeletedAt s, tiRawSourceKey = (case csRawSourceKey s of None \<Rightarrow> [] | Some k \<Rightarrow> k) \<rparr>"

definition chatTrashDomain :: "'c trashDomain" where
  "chatTrashDomain =
    \<lparr> tdName = ''chat'',
      tdList =
        bnd (wrap ''list deleted chats'' (sqlite_ListChatSessions (zero_chats_filter \<lparr> lcOnlyDeleted := True \<rparr>)))
          (\<lambda>sessions. ret (List.map chat_item sessions)),
      tdHardLocal = (\<lambda>item.
        hard_local ''hard delete chat'' (sqlite_DeleteChatSession (tiID item)) (\<lambda>c. DeleteChatSource c (tiID item))),
      tdHardCloud = (\<lambda>cloud item.
        sq (if tiRawSourceKey item \<noteq> []
            then wrap ''delete cloud raw chat object'' (deleteCloudObjectTolerant cloud (tiRawSourceKey item))
            else ret ())
           (clDeleteChatSession cloud (tiID item))) \<rparr>"

definition allTrashDomains :: "'c trashDomain list" where
  "allTrashDomains = [recordTrashDomain, chatTrashDomain]"

section \<open>The listing\<close>

definition tab :: string where
  "tab = [CHR 0x09]"

definition trash_row :: "trashedItem \<Rightarrow> string" where
  "trash_row it =
    tiID it @ tab @ tiDomain it @ tab @ tiDate it @ tab @
    (case tiDeletedAt it of None \<Rightarrow> [] | Some t \<Rightarrow> take 19 (FormatUTCMillis t) @ ''Z'') @ [CHR 0x0A]"

definition writeTrashTable :: "trashedItem list \<Rightarrow> string" where
  "writeTrashTable items =
    ''ID'' @ tab @ ''TYPE'' @ tab @ ''DATE'' @ tab @ ''DELETED AT'' @ [CHR 0x0A] @ concat (List.map trash_row items)"

text \<open>The command's output; the opening of the stack is left out.\<close>

definition runTrashAll :: "'c trashDomain list \<Rightarrow> (Stack, string) act" where
  "runTrashAll domains =
    bnd (each_acc (\<lambda>d items. bnd (on_db (tdList d)) (\<lambda>new. ret (items @ new))) domains []) (\<lambda>items.
      ret (if items = [] then ''Trash is empty.'' @ [CHR 0x0A] else writeTrashTable items))"

section \<open>Garbage collection\<close>

text \<open>\<open>time.Sub\<close>: the difference, cut off at the ends of a \<open>Duration\<close>.\<close>

definition time_Sub :: "time \<Rightarrow> time \<Rightarrow> Duration" where
  "time_Sub t u = word_of_int (max (- (2 ^ 63)) (min (2 ^ 63 - 1) (t - u)))"

definition is_expired :: "Config \<Rightarrow> time \<Rightarrow> trashedItem \<Rightarrow> bool" where
  "is_expired cfg now it =
    (case tiDeletedAt it of None \<Rightarrow> False | Some t \<Rightarrow> sint (time_Sub now t) > sint (GCRetention cfg))"

record 'c World =
  gwStack :: Stack
  gwCloud :: 'c

definition on_stack :: "(Stack, 'a) act \<Rightarrow> ('c World, 'a) act" where
  "on_stack = zoom gwStack (\<lambda>s w. w \<lparr> gwStack := s \<rparr>)"

definition on_cloud :: "('c, 'a) act \<Rightarrow> ('c World, 'a) act" where
  "on_cloud = zoom gwCloud (\<lambda>s w. w \<lparr> gwCloud := s \<rparr>)"

text \<open>Whether an item's cloud copy is out of the way: deleted, or not there.\<close>

definition cloud_settled :: "error + unit \<Rightarrow> bool" where
  "cloud_settled r = (case r of Inr _ \<Rightarrow> True | Inl e \<Rightarrow> err_is e ErrNotFound)"

text \<open>One round of the loop: the item is added to those removed, or skipped with a warning.\<close>

definition gc_item ::
  "'c trashDomain list \<Rightarrow> 'c cloudStack option \<Rightarrow> trashedItem \<Rightarrow> trashedItem list \<Rightarrow>
     ('c World, trashedItem list) act" where
  "gc_item domains cloud item done_items =
    (case List.find (\<lambda>d. tdName d = tiDomain item) (rev domains) of
       None \<Rightarrow> fail (Plain ''no trash domain registered'')
     | Some domain \<Rightarrow>
         bnd (case cloud of
                None \<Rightarrow> ret True
              | Some c \<Rightarrow> bnd (attempt (on_cloud (tdHardCloud domain c item))) (\<lambda>r. ret (cloud_settled r))) (\<lambda>settled.
         if \<not> settled then ret done_items
         else
           bnd (on_stack (tdHardLocal domain item)) (\<lambda>r.
             case r of
               None \<Rightarrow> ret (done_items @ [item])
             | Some (lifecycleDBError op e) \<Rightarrow> fail (Wrapped op e)
             | Some (lifecycleFSError e dbDeleted) \<Rightarrow> ret (if dbDeleted then done_items @ [item] else done_items)
             | Some (otherHardError e) \<Rightarrow> fail e)))"

text \<open>The cloud stack: open, not configured, or not reachable, which is only a warning.\<close>

definition open_cloud :: "('c, 'c cloudStack) act \<Rightarrow> ('c World, 'c cloudStack option) act" where
  "open_cloud openCloudStack =
    bnd (attempt (on_cloud openCloudStack)) (\<lambda>r.
      case r of Inr cloud \<Rightarrow> ret (Some cloud) | Inl _ \<Rightarrow> ret None)"

text \<open>The items removed, \<open>None\<close> when there is no expired trash.\<close>

definition gc_sweep ::
  "'c trashDomain list \<Rightarrow> time \<Rightarrow> ('c, 'c cloudStack) act \<Rightarrow> ('c World, trashedItem list option) act" where
  "gc_sweep domains now openCloudStack w =
    bnd (each_acc (\<lambda>d expired.
           bnd (on_stack (on_db (tdList d))) (\<lambda>items.
             ret (expired @ filter (is_expired (lsConfig (gwStack w)) now) items))) domains []) (\<lambda>expired.
      if expired = [] then ret None
      else
        bnd (open_cloud openCloudStack) (\<lambda>cloud.
        bnd (each_acc (gc_item domains cloud) expired []) (\<lambda>done_items.
          ret (Some done_items)))) w"

definition runGCAll ::
  "'c trashDomain list \<Rightarrow> time \<Rightarrow> ('c, 'c cloudStack) act \<Rightarrow> ('c World, unit) act \<Rightarrow>
     ('c World, trashedItem list) act" where
  "runGCAll domains now openCloudStack runAutoSync =
    bnd (gc_sweep domains now openCloudStack) (\<lambda>r.
      case r of
        None \<Rightarrow> ret []
      | Some done_items \<Rightarrow> sq (bnd (attempt runAutoSync) (\<lambda>_. ret ())) (ret done_items))"

definition gc_command ::
  "time \<Rightarrow> ('c, 'c cloudStack) act \<Rightarrow> ('c World, unit) act \<Rightarrow> ('c World, trashedItem list) act" where
  "gc_command = runGCAll allTrashDomains"

definition trash_command :: "(Stack, string) act" where
  "trash_command = runTrashAll (allTrashDomains :: unit trashDomain list)"

end
