(* ===== verification/Lifecycle_Props.thy ===== *)
theory Lifecycle_Props
  imports Lifecycle Local_Files_Props Sqlite_Inv
begin

text \<open>The retention window is exact, and garbage collection removes nothing but expired trash whose cloud copy
  is out of the way.\<close>

section \<open>The retention window\<close>

definition retention_days :: "Config \<Rightarrow> int" where
  "retention_days c = (case cGCRetentionDays c of None \<Rightarrow> DefaultGCRetentionDays | Some d \<Rightarrow> d)"

definition nanos_of_days :: "int \<Rightarrow> int" where
  "nanos_of_days d = d * 86400000000000"

lemma sint_small: "- (2 ^ 63) \<le> i \<Longrightarrow> i < 2 ^ 63 \<Longrightarrow> sint (word_of_int i :: Duration) = i"
  by transfer (simp add: signed_take_bit_int_eq_self)

lemma sint_GCRetention:
  assumes "ValidateGCRetentionDays (cGCRetentionDays c) = Inr ()"
  shows "sint (GCRetention c) = nanos_of_days (retention_days c) \<and> 1 \<le> retention_days c \<and> retention_days c \<le> 36500"
proof -
  have days: "1 \<le> retention_days c" "retention_days c \<le> 36500"
    using assms by (cases "cGCRetentionDays c"; auto simp: retention_days_def DefaultGCRetentionDays_def MaxGCRetentionDays_def split: if_splits)+
  have "GCRetention c = word_of_int (retention_days c * 24 * 3600000000000)"
    by (simp add: GCRetention_def retention_days_def hour_def Let_def)
  then have "GCRetention c = word_of_int (nanos_of_days (retention_days c))"
    by (simp add: nanos_of_days_def)
  moreover have "sint (word_of_int (nanos_of_days (retention_days c)) :: Duration) = nanos_of_days (retention_days c)"
    using days by (intro sint_small) (simp_all add: nanos_of_days_def)
  ultimately show ?thesis using days by simp
qed

lemma sint_time_Sub: "sint (time_Sub t u) = max (- (2 ^ 63)) (min (2 ^ 63 - 1) (t - u))"
  unfolding time_Sub_def by (rule sint_small) auto

text \<open>C32. With a configuration that passed validation the 64-bit arithmetic of the retention window is exact:
  the window is between one day and 100 years, never negative, and an item is expired exactly when it was
  deleted longer ago than that many days, even where the age itself does not fit a \<open>Duration\<close>.\<close>

theorem gc_threshold_exact:
  assumes "ValidateGCRetentionDays (cGCRetentionDays cfg) = Inr ()"
  shows "sint (GCRetention cfg) = nanos_of_days (retention_days cfg) \<and> nanos_of_days 1 \<le> sint (GCRetention cfg) \<and>
    is_expired cfg now it = (case tiDeletedAt it of None \<Rightarrow> False | Some t \<Rightarrow> now - t > nanos_of_days (retention_days cfg))"
proof -
  note r = sint_GCRetention [OF assms]
  then have "nanos_of_days 1 \<le> nanos_of_days (retention_days cfg)" "nanos_of_days (retention_days cfg) < 2 ^ 63 - 1"
    by (simp_all add: nanos_of_days_def)
  moreover from this have "max (- (2 ^ 63)) (min (2 ^ 63 - 1) d) > nanos_of_days (retention_days cfg) \<longleftrightarrow>
      d > nanos_of_days (retention_days cfg)" for d
    by (auto simp: nanos_of_days_def)
  ultimately show ?thesis
    using r by (simp add: is_expired_def sint_time_Sub split: option.splits)
qed

definition old_item :: trashedItem where
  "old_item =
    \<lparr> tiID = ''20240101-0000000a'', tiDomain = ''record'', tiDate = ''2024-01-01'', tiDeletedAt = Some 7, tiRawSourceKey = [] \<rparr>"

lemma gc_threshold_exact_witness:
  "is_expired (zero_config \<lparr> cGCRetentionDays := Some 36500 \<rparr>) (8 + nanos_of_days 36500) old_item \<and>
   \<not> is_expired (zero_config \<lparr> cGCRetentionDays := Some 36500 \<rparr>) (7 + nanos_of_days 36500) old_item"
proof -
  have valid: "ValidateGCRetentionDays (cGCRetentionDays (zero_config \<lparr> cGCRetentionDays := Some 36500 \<rparr>)) = Inr ()"
    by (simp add: MaxGCRetentionDays_def)
  show ?thesis
    using gc_threshold_exact [OF valid, of "8 + nanos_of_days 36500" old_item]
      gc_threshold_exact [OF valid, of "7 + nanos_of_days 36500" old_item]
    by (simp add: old_item_def retention_days_def)
qed

section \<open>What may be removed\<close>

abbreviation world_db :: "'c World \<Rightarrow> Db" where
  "world_db w \<equiv> lsDb (gwStack w)"

abbreviation world_files :: "'c World \<Rightarrow> string tree" where
  "world_files w \<equiv> dkTree (lsDisk (gwStack w))"

text \<open>The trash of a database.\<close>

definition trash :: "Db \<Rightarrow> trashedItem set" where
  "trash db = record_item ` {r \<in> set (dbRecords db). rDeletedAt r \<noteq> None} \<union>
     chat_item ` {s \<in> set (dbChats db). csDeletedAt s \<noteq> None}"

definition hard_cloud :: "'c cloudStack \<Rightarrow> trashedItem \<Rightarrow> ('c, unit) act" where
  "hard_cloud cloud it =
    (if tiDomain it = ''record'' then tdHardCloud recordTrashDomain cloud it else tdHardCloud chatTrashDomain cloud it)"

text \<open>The expired trash that the cloud, if it can be reached, does not refuse to delete in every state.\<close>

definition removable :: "time \<Rightarrow> ('c, 'c cloudStack) act \<Rightarrow> 'c World \<Rightarrow> trashedItem set" where
  "removable now openCloudStack w =
    {it \<in> trash (world_db w). is_expired (lsConfig (gwStack w)) now it \<and>
       (case fst (openCloudStack (gwCloud w)) of
          Inl _ \<Rightarrow> True
        | Inr cloud \<Rightarrow> \<exists>c. cloud_settled (fst (hard_cloud cloud it c)))}"

definition ids_of :: "string \<Rightarrow> trashedItem set \<Rightarrow> string set" where
  "ids_of domain E = tiID ` {it \<in> E. tiDomain it = domain}"

text \<open>The directories of an item; a record id \<open>/\<close> names them all.\<close>

definition item_file :: "Client \<Rightarrow> trashedItem \<Rightarrow> path \<Rightarrow> bool" where
  "item_file c it p =
    (if tiDomain it = ''record''
     then tiID it = ''/'' \<or> prefix (basePath c @ [''figures'', tiID it]) p \<or> prefix (basePath c @ [''data'', tiID it]) p
     else prefix (basePath c @ [''chats'', ''raw'', tiID it]) p)"

text \<open>The world after some of the items in \<open>E\<close> have been removed from \<open>w0\<close>.\<close>

definition swept :: "trashedItem set \<Rightarrow> Stack \<Rightarrow> Stack \<Rightarrow> bool" where
  "swept E s0 s \<longleftrightarrow>
     lsConfig s = lsConfig s0 \<and> lsFS s = lsFS s0 \<and>
     set (dbRecords (lsDb s)) \<subseteq> set (dbRecords (lsDb s0)) \<and>
     rID ` (set (dbRecords (lsDb s0)) - set (dbRecords (lsDb s))) \<subseteq> ids_of ''record'' E \<and>
     set (dbChats (lsDb s)) \<subseteq> set (dbChats (lsDb s0)) \<and>
     csID ` (set (dbChats (lsDb s0)) - set (dbChats (lsDb s))) \<subseteq> ids_of ''chat'' E \<and>
     {p. at (dkTree (lsDisk s)) p \<noteq> at (dkTree (lsDisk s0)) p} \<subseteq> {p. \<exists>it\<in>E. item_file (lsFS s0) it p}"

lemma swept_parts:
  assumes "swept E s0 s"
  shows "lsConfig s = lsConfig s0" "lsFS s = lsFS s0"
    "set (dbRecords (lsDb s)) \<subseteq> set (dbRecords (lsDb s0))"
    "rID ` (set (dbRecords (lsDb s0)) - set (dbRecords (lsDb s))) \<subseteq> ids_of ''record'' E"
    "set (dbChats (lsDb s)) \<subseteq> set (dbChats (lsDb s0))"
    "csID ` (set (dbChats (lsDb s0)) - set (dbChats (lsDb s))) \<subseteq> ids_of ''chat'' E"
    "{p. at (dkTree (lsDisk s)) p \<noteq> at (dkTree (lsDisk s0)) p} \<subseteq> {p. \<exists>it\<in>E. item_file (lsFS s0) it p}"
  using assms unfolding swept_def by argo+

lemma swept_refl: "swept E s s"
  by (simp add: swept_def)

section \<open>One item\<close>

lemma delete_record_rows:
  assumes "sqlite_DeleteRecord i db = (r, db')"
  shows "dbChats db' = dbChats db"
    "dbRecords db' = dbRecords db \<or> dbRecords db' = filter (\<lambda>x. rID x \<noteq> i) (dbRecords db)"
    "r = Inr u \<Longrightarrow> dbRecords db' = filter (\<lambda>x. rID x \<noteq> i) (dbRecords db)"
  using assms
  by (auto simp: sqlite_DeleteRecord_def statement_def delete_records_def Let_def bnd_def ensureRowsAffected_def
      act_simps split: if_splits option.splits)

lemma delete_chat_rows:
  assumes "sqlite_DeleteChatSession i db = (r, db')"
  shows "dbRecords db' = dbRecords db"
    "dbChats db' = dbChats db \<or> dbChats db' = filter (\<lambda>x. csID x \<noteq> i) (dbChats db)"
    "r = Inr u \<Longrightarrow> dbChats db' = filter (\<lambda>x. csID x \<noteq> i) (dbChats db)"
  using assms
  by (auto simp: sqlite_DeleteChatSession_def statement_def delete_chats_def Let_def bnd_def ensureRowsAffected_def
      act_simps split: if_splits option.splits)

text \<open>The ids of the items in a list have no row any more.\<close>

definition rowless :: "trashedItem list \<Rightarrow> Db \<Rightarrow> bool" where
  "rowless acc db \<longleftrightarrow>
     ids_of ''record'' (set acc) \<inter> record_ids db = {} \<and> ids_of ''chat'' (set acc) \<inter> chat_ids db = {}"

lemma swept_files:
  assumes "swept E s0 s" "\<And>p. \<not> item_file (lsFS s0) it p \<Longrightarrow> at (dkTree d) p = at (dkTree (lsDisk s)) p" "it \<in> E"
  shows "swept E s0 (s \<lparr> lsDisk := d \<rparr>)"
  using assms unfolding swept_def by auto

lemma image_diff_trans: "f ` (A - B) \<subseteq> X \<Longrightarrow> f ` (B - C) \<subseteq> X \<Longrightarrow> f ` (A - C) \<subseteq> X"
  by blast

lemma swept_db:
  assumes "swept E s0 s" "set (dbRecords db) \<subseteq> set (dbRecords (lsDb s))" "set (dbChats db) \<subseteq> set (dbChats (lsDb s))"
    "rID ` (set (dbRecords (lsDb s)) - set (dbRecords db)) \<subseteq> ids_of ''record'' E"
    "csID ` (set (dbChats (lsDb s)) - set (dbChats db)) \<subseteq> ids_of ''chat'' E"
  shows "swept E s0 (s \<lparr> lsDb := db \<rparr>)"
proof -
  note old = swept_parts [OF assms(1)]
  note rows = subset_trans [OF assms(2) old(3)] subset_trans [OF assms(3) old(5)]
  note ids = image_diff_trans [OF old(4) assms(4)] image_diff_trans [OF old(6) assms(5)]
  show ?thesis using old(1,2,7) rows ids unfolding swept_def by simp
qed

lemma ids_ofI: "it \<in> E \<Longrightarrow> tiDomain it = k \<Longrightarrow> tiID it \<in> ids_of k E"
  by (auto simp: ids_of_def)

text \<open>A local hard deletion, in terms of what its two halves do.\<close>

lemma hard_local_run:
  assumes "hard_local op rows files s = (r, s')"
  obtains r1 db where "rows (lsDb s) = (r1, db)"
    "(\<exists>e. r1 = Inl e \<and> s' = s \<lparr> lsDb := db \<rparr> \<and> r = Inr (Some (lifecycleDBError op e))) \<or>
     (\<exists>r2 d. r1 = Inr () \<and> files (lsFS s) (lsDisk s) = (r2, d) \<and> s' = s \<lparr> lsDb := db, lsDisk := d \<rparr> \<and>
        (case r2 of Inl e \<Rightarrow> r = Inr (Some (lifecycleFSError e True)) | Inr _ \<Rightarrow> r = Inr None))"
  using assms
  by (auto simp: hard_local_def bnd_def attempt_def on_db_def on_disk_def act_simps split: prod.splits sum.splits)

lemma hard_local_swept:
  assumes swept: "swept E s0 s" and it: "it \<in> E"
    and rows: "\<And>r1 db. rows (lsDb s) = (r1, db) \<Longrightarrow> swept E s0 (s \<lparr> lsDb := db \<rparr>) \<and> (r1 = Inr () \<longrightarrow> G db)"
    and files: "\<And>p g. \<not> item_file (lsFS s0) it p \<Longrightarrow> keeps (on_tree (\<lambda>t. at t p = g)) (files (lsFS s0))"
    and run: "hard_local op rows files s = (r, s')"
  shows "swept E s0 s' \<and>
    (case r of Inr None \<Rightarrow> G (lsDb s') | Inr (Some (lifecycleDBError m e)) \<Rightarrow> True
     | Inr (Some (lifecycleFSError e b)) \<Rightarrow> b \<and> G (lsDb s') | _ \<Rightarrow> False)"
proof -
  from run obtain r1 db where r1: "rows (lsDb s) = (r1, db)"
    and rest: "(\<exists>e. r1 = Inl e \<and> s' = s \<lparr> lsDb := db \<rparr> \<and> r = Inr (Some (lifecycleDBError op e))) \<or>
     (\<exists>r2 d. r1 = Inr () \<and> files (lsFS s) (lsDisk s) = (r2, d) \<and> s' = s \<lparr> lsDb := db, lsDisk := d \<rparr> \<and>
        (case r2 of Inl e \<Rightarrow> r = Inr (Some (lifecycleFSError e True)) | Inr _ \<Rightarrow> r = Inr None))"
    by (rule hard_local_run)
  note db = rows [OF r1]
  have fs: "lsFS s = lsFS s0" using swept by (simp add: swept_def)
  from rest show ?thesis
  proof (elim disjE exE conjE)
    fix e assume "r1 = Inl e" "s' = s \<lparr> lsDb := db \<rparr>" "r = Inr (Some (lifecycleDBError op e))"
    then show ?thesis using db by simp
  next
    fix r2 d assume r2: "r1 = Inr ()" "files (lsFS s) (lsDisk s) = (r2, d)" "s' = s \<lparr> lsDb := db, lsDisk := d \<rparr>"
      and r: "case r2 of Inl e \<Rightarrow> r = Inr (Some (lifecycleFSError e True)) | Inr _ \<Rightarrow> r = Inr None"
    have "at (dkTree d) p = at (dkTree (lsDisk s)) p" if "\<not> item_file (lsFS s0) it p" for p
      using keepsD [OF files [OF that, of "at (dkTree (lsDisk s)) p"], of "lsDisk s"] r2(2) fs by simp
    then have "swept E s0 (s \<lparr> lsDb := db, lsDisk := d \<rparr>)"
      using db it by (intro swept_files [where it = it]) auto
    then show ?thesis using r r2 db by (auto split: sum.splits)
  qed
qed

lemma record_hard_local:
  assumes "swept E s0 s" "it \<in> E" "tiDomain it = ''record''" "tdHardLocal recordTrashDomain it s = (r, s')"
  shows "swept E s0 s' \<and>
    (case r of Inr None \<Rightarrow> tiID it \<notin> record_ids (lsDb s') | Inr (Some (lifecycleDBError m e)) \<Rightarrow> True
     | Inr (Some (lifecycleFSError e b)) \<Rightarrow> b \<and> tiID it \<notin> record_ids (lsDb s') | _ \<Rightarrow> False)"
proof (rule hard_local_swept [OF assms(1,2)])
  show "hard_local ''hard delete record'' (sqlite_DeleteRecord (tiID it)) (\<lambda>c. DeleteRecordDir c (tiID it)) s = (r, s')"
    using assms(4) by (simp add: recordTrashDomain_def)
  show "keeps (on_tree (\<lambda>t. at t p = g)) (DeleteRecordDir (lsFS s0) (tiID it))" if "\<not> item_file (lsFS s0) it p" for p g
    using that assms(3) by (intro keeps_DeleteRecordDir) (auto simp: item_file_def)
  fix r1 db assume rows: "sqlite_DeleteRecord (tiID it) (lsDb s) = (r1, db)"
  note del = delete_record_rows [OF rows]
  have "swept E s0 (s \<lparr> lsDb := db \<rparr>)"
    using del(1,2) ids_ofI [OF assms(2,3)] by (intro swept_db [OF assms(1)]) auto
  then show "swept E s0 (s \<lparr> lsDb := db \<rparr>) \<and> (r1 = Inr () \<longrightarrow> tiID it \<notin> record_ids db)"
    using del(3) by (auto simp: record_ids_def)
qed

lemma chat_hard_local:
  assumes "swept E s0 s" "it \<in> E" "tiDomain it = ''chat''" "tdHardLocal chatTrashDomain it s = (r, s')"
  shows "swept E s0 s' \<and>
    (case r of Inr None \<Rightarrow> tiID it \<notin> chat_ids (lsDb s') | Inr (Some (lifecycleDBError m e)) \<Rightarrow> True
     | Inr (Some (lifecycleFSError e b)) \<Rightarrow> b \<and> tiID it \<notin> chat_ids (lsDb s') | _ \<Rightarrow> False)"
proof (rule hard_local_swept [OF assms(1,2)])
  show "hard_local ''hard delete chat'' (sqlite_DeleteChatSession (tiID it)) (\<lambda>c. DeleteChatSource c (tiID it)) s = (r, s')"
    using assms(4) by (simp add: chatTrashDomain_def)
  show "keeps (on_tree (\<lambda>t. at t p = g)) (DeleteChatSource (lsFS s0) (tiID it))" if "\<not> item_file (lsFS s0) it p" for p g
    using that assms(3) by (intro keeps_DeleteChatSource) (auto simp: item_file_def)
  fix r1 db assume rows: "sqlite_DeleteChatSession (tiID it) (lsDb s) = (r1, db)"
  note del = delete_chat_rows [OF rows]
  have "swept E s0 (s \<lparr> lsDb := db \<rparr>)"
    using del(1,2) ids_ofI [OF assms(2,3)] by (intro swept_db [OF assms(1)]) auto
  then show "swept E s0 (s \<lparr> lsDb := db \<rparr>) \<and> (r1 = Inr () \<longrightarrow> tiID it \<notin> chat_ids db)"
    using del(3) by (auto simp: chat_ids_def)
qed

section \<open>The sweep\<close>

lemma swept_trans:
  assumes "swept E s0 s" "swept {it} s s'" "it \<in> E"
  shows "swept E s0 s'"
proof -
  have ids: "ids_of k {it} \<subseteq> ids_of k E" for k using assms(3) by (auto simp: ids_of_def)
  note new = swept_parts [OF assms(2)]
  have "swept E s0 (s \<lparr> lsDb := lsDb s' \<rparr>)"
    by (rule swept_db [OF assms(1) new(3,5) subset_trans [OF new(4) ids] subset_trans [OF new(6) ids]])
  moreover have "at (dkTree (lsDisk s')) p = at (dkTree (lsDisk s)) p" if "\<not> item_file (lsFS s0) it p" for p
    using new(7) swept_parts(2) [OF assms(1)] that by auto
  ultimately have "swept E s0 (s \<lparr> lsDb := lsDb s', lsDisk := lsDisk s' \<rparr>)"
    using assms(3) by (intro swept_files [where it = it]) auto
  moreover have "s' = s \<lparr> lsDb := lsDb s', lsDisk := lsDisk s' \<rparr>"
    using new(1,2) by (cases s; cases s') simp
  ultimately show ?thesis by simp
qed

lemma rowless_append: "rowless acc (lsDb s) \<Longrightarrow> swept E s s' \<Longrightarrow> rowless acc (lsDb s')"
  using swept_parts(3,5) [of E s s'] by (fastforce simp: rowless_def record_ids_def chat_ids_def)

lemma rowless_single:
  "rowless [it] db \<longleftrightarrow>
     (if tiDomain it = ''record'' then tiID it \<notin> record_ids db
      else if tiDomain it = ''chat'' then tiID it \<notin> chat_ids db else True)"
proof -
  have "ids_of k {it} = (if tiDomain it = k then {tiID it} else {})" for k by (auto simp: ids_of_def)
  then show ?thesis by (simp add: rowless_def)
qed

lemma rowless_snoc: "rowless (acc @ [it]) db \<longleftrightarrow> rowless acc db \<and> rowless [it] db"
  by (auto simp: rowless_def ids_of_def)

definition domain_of :: "trashedItem \<Rightarrow> 'c trashDomain" where
  "domain_of it = (if tiDomain it = ''record'' then recordTrashDomain else chatTrashDomain)"

lemma tdName_domains: "tdName recordTrashDomain = ''record''" "tdName chatTrashDomain = ''chat''"
  by (simp_all add: recordTrashDomain_def chatTrashDomain_def)

lemma find_domain:
  "tiDomain it \<in> {''record'', ''chat''} \<Longrightarrow>
     List.find (\<lambda>d. tdName d = tiDomain it) (rev allTrashDomains) = Some (domain_of it)"
  unfolding allTrashDomains_def domain_of_def
  by (cases "tiDomain it = ''record''") (simp_all add: tdName_domains)

lemma domain_hard_local:
  fixes it :: trashedItem
  defines "D \<equiv> domain_of it :: 'c trashDomain"
  assumes dom: "tiDomain it \<in> {''record'', ''chat''}" and run: "tdHardLocal D it s = (r, s')"
  shows "swept {it} s s' \<and>
    (case r of Inr None \<Rightarrow> rowless [it] (lsDb s') | Inr (Some (lifecycleDBError m e)) \<Rightarrow> True
     | Inr (Some (lifecycleFSError e b)) \<Rightarrow> b \<and> rowless [it] (lsDb s') | _ \<Rightarrow> False)"
proof (cases "tiDomain it = ''record''")
  case True
  then have "tdHardLocal (recordTrashDomain :: 'c trashDomain) it s = (r, s')" using run by (simp add: D_def domain_of_def)
  from record_hard_local [OF swept_refl _ True this, of "{it}"] show ?thesis
    using True by (auto simp: rowless_single split: sum.splits option.splits hardError.splits)
next
  case False
  then have chat: "tiDomain it = ''chat''" using dom by simp
  from False have "tdHardLocal (chatTrashDomain :: 'c trashDomain) it s = (r, s')" using run by (simp add: D_def domain_of_def)
  from chat_hard_local [OF swept_refl _ chat this, of "{it}"] show ?thesis
    using chat by (auto simp: rowless_single split: sum.splits option.splits hardError.splits)
qed

definition progress :: "trashedItem set \<Rightarrow> Stack \<Rightarrow> trashedItem list \<Rightarrow> Stack \<Rightarrow> bool" where
  "progress E s0 acc s \<longleftrightarrow> swept E s0 s \<and> rowless acc (lsDb s)"

lemma hard_cloud_domain: "tdHardCloud (domain_of it) cloud it = hard_cloud cloud it"
  by (simp add: domain_of_def hard_cloud_def)

lemma on_cloud_run: "on_cloud m w = (fst (m (gwCloud w)), w \<lparr> gwCloud := snd (m (gwCloud w)) \<rparr>)"
  by (simp add: on_cloud_def zoom_def split: prod.splits)

lemma on_stack_run: "on_stack m w = (fst (m (gwStack w)), w \<lparr> gwStack := snd (m (gwStack w)) \<rparr>)"
  by (simp add: on_stack_def zoom_def split: prod.splits)

text \<open>The local half of a round.\<close>

lemma gc_local_step:
  fixes w :: "'c World"
  assumes dom: "tiDomain it \<in> {''record'', ''chat''}" and it: "it \<in> E" and P: "progress E s0 acc (gwStack w)"
  shows "case bnd (on_stack (tdHardLocal (domain_of it :: 'c trashDomain) it)) (\<lambda>r.
             case r of
               None \<Rightarrow> ret (acc @ [it])
             | Some (lifecycleDBError op e) \<Rightarrow> fail (Wrapped op e)
             | Some (lifecycleFSError e dbDeleted) \<Rightarrow> ret (if dbDeleted then acc @ [it] else acc)
             | Some (otherHardError e) \<Rightarrow> fail e) w of
           (Inl e, w') \<Rightarrow> swept E s0 (gwStack w')
         | (Inr acc', w') \<Rightarrow> progress E s0 acc' (gwStack w')"
proof -
  obtain r s' where run: "tdHardLocal (domain_of it :: 'c trashDomain) it (gwStack w) = (r, s')" by fastforce
  note step = domain_hard_local [OF dom run]
  from step have swept: "swept E s0 s'" using P it swept_trans by (auto simp: progress_def)
  have old: "rowless acc (lsDb s')" using P step by (auto simp: progress_def intro: rowless_append)
  show ?thesis
    using step swept old
    by (cases r) (auto simp: bnd_def on_stack_run run ret_def fail_def progress_def rowless_snoc
        split: option.splits hardError.splits)
qed

lemma gc_item_step:
  assumes dom: "tiDomain it \<in> {''record'', ''chat''}" and P: "progress E s0 acc (gwStack w)"
    and E: "case cloud of None \<Rightarrow> it \<in> E | Some c \<Rightarrow> (\<exists>x. cloud_settled (fst (hard_cloud c it x))) \<longrightarrow> it \<in> E"
  shows "case gc_item allTrashDomains cloud it acc w of
           (Inl e, w') \<Rightarrow> swept E s0 (gwStack w')
         | (Inr acc', w') \<Rightarrow> progress E s0 acc' (gwStack w')"
proof (cases cloud)
  case None
  then show ?thesis
    using gc_local_step [OF dom _ P] E by (simp add: gc_item_def find_domain [OF dom] bnd_def ret_def)
next
  case (Some c)
  let ?r = "fst (hard_cloud c it (gwCloud w))"
  let ?w = "w \<lparr> gwCloud := snd (hard_cloud c it (gwCloud w)) \<rparr>"
  have P': "progress E s0 acc (gwStack ?w)" using P by simp
  show ?thesis
  proof (cases "cloud_settled ?r")
    case True
    then have "it \<in> E" using E Some by auto
    from gc_local_step [OF dom this P'] show ?thesis
      using True Some
      by (simp add: gc_item_def find_domain [OF dom] hard_cloud_domain bnd_def [of "bnd _ _"] bnd_def [of "attempt _"]
          attempt_def on_cloud_run ret_def [of True])
  next
    case False
    then show ?thesis
      using Some P'
      by (simp add: gc_item_def find_domain [OF dom] hard_cloud_domain bnd_def attempt_def on_cloud_run ret_def)
  qed
qed

lemma each_acc_post:
  assumes "\<And>x s w. x \<in> set xs \<Longrightarrow> P s w \<Longrightarrow> (case f x s w of (Inl e, w') \<Rightarrow> E w' | (Inr s', w') \<Rightarrow> P s' w')"
    and "P s w"
  shows "case each_acc f xs s w of (Inl e, w') \<Rightarrow> E w' | (Inr s', w') \<Rightarrow> P s' w'"
  using assms
proof (induction xs arbitrary: s w)
  case Nil
  then show ?case by (simp add: ret_def)
next
  case (Cons x xs)
  obtain r w' where run: "f x s w = (r, w')" by fastforce
  have step: "case r of Inl e \<Rightarrow> E w' | Inr s' \<Rightarrow> P s' w'" using Cons.prems(1) [of x s w] Cons.prems(2) run by simp
  show ?case
  proof (cases r)
    case (Inl e)
    then show ?thesis using step run by (simp add: bnd_def)
  next
    case (Inr s')
    have "case each_acc f xs s' w' of (Inl e, w') \<Rightarrow> E w' | (Inr s', w') \<Rightarrow> P s' w'"
      using Inr step by (intro Cons.IH Cons.prems(1)) simp_all
    then show ?thesis using Inr run by (simp add: bnd_def)
  qed
qed

text \<open>Listing the trash changes nothing and finds nothing else.\<close>

lemma query_result: "query f db = (r, db') \<Longrightarrow> db' = db \<lparr> dbTick := Suc (dbTick db) \<rparr> \<and> (case r of Inl _ \<Rightarrow> True | Inr a \<Rightarrow> a = f db')"
  by (auto simp: query_def statement_def Let_def split: option.splits)

lemma list_records_run:
  assumes "sqlite_ListRecords (zero_records_filter \<lparr> lrOnlyDeleted := True \<rparr>) db = (r, db')"
  shows "db' = db \<lparr> dbTick := Suc (dbTick db) \<rparr> \<and>
    (case r of Inl _ \<Rightarrow> True | Inr rs \<Rightarrow> set rs = {x \<in> set (dbRecords db). rDeletedAt x \<noteq> None})"
  using assms
  by (auto simp: sqlite_ListRecords_def query_blank_def zero_records_filter_def limit_rows_def matching_records_def
      records_predicate_def dest!: query_result split: sum.splits)

lemma list_chats_run:
  assumes "sqlite_ListChatSessions (zero_chats_filter \<lparr> lcOnlyDeleted := True \<rparr>) db = (r, db')"
  shows "db' = db \<lparr> dbTick := Suc (dbTick db) \<rparr> \<and>
    (case r of Inl _ \<Rightarrow> True | Inr rs \<Rightarrow> set rs = {x \<in> set (dbChats db). csDeletedAt x \<noteq> None})"
  using assms
  by (auto simp: sqlite_ListChatSessions_def zero_chats_filter_def limit_rows_def Let_def chats_predicate_def
      dest!: query_result split: sum.splits)

lemma domain_list_run:
  fixes d :: "'c trashDomain"
  assumes "d \<in> set allTrashDomains" "tdList d db = (r, db')"
  shows "db' = db \<lparr> dbTick := Suc (dbTick db) \<rparr> \<and> (case r of Inl _ \<Rightarrow> True | Inr items \<Rightarrow> set items \<subseteq> trash db)"
  using assms list_records_run [of db] list_chats_run [of db]
  by (fastforce simp: allTrashDomains_def recordTrashDomain_def chatTrashDomain_def bnd_def wrap_def ret_def trash_def
      split: prod.splits sum.splits)

text \<open>The world while the trash is listed.\<close>

definition trash_listing :: "time \<Rightarrow> 'c World \<Rightarrow> trashedItem list \<Rightarrow> 'c World \<Rightarrow> bool" where
  "trash_listing now w acc w1 \<longleftrightarrow>
     swept {} (gwStack w) (gwStack w1) \<and> gwCloud w1 = gwCloud w \<and>
     set (dbRecords (world_db w1)) = set (dbRecords (world_db w)) \<and>
     set (dbChats (world_db w1)) = set (dbChats (world_db w)) \<and>
     set acc \<subseteq> {it \<in> trash (world_db w). is_expired (lsConfig (gwStack w)) now it}"

lemma trash_listing_step:
  fixes w :: "'c World"
  assumes "d \<in> set allTrashDomains" "trash_listing now w acc w1"
  shows "case bnd (on_stack (on_db (tdList d))) (\<lambda>items.
             ret (acc @ filter (is_expired (lsConfig (gwStack w)) now) items)) w1 of
           (Inl e, w') \<Rightarrow> swept {} (gwStack w) (gwStack w')
         | (Inr acc', w') \<Rightarrow> trash_listing now w acc' w'"
proof -
  obtain r db' where run: "tdList d (world_db w1) = (r, db')" by fastforce
  note step = domain_list_run [OF assms(1) run]
  have "trash (world_db w1) = trash (world_db w)" using assms(2) by (simp add: trash_listing_def trash_def)
  then show ?thesis
    using step assms(2)
    by (cases r) (auto simp: bnd_def on_stack_run on_db_def run ret_def trash_listing_def swept_def)
qed

lemma trash_domain: "it \<in> trash db \<Longrightarrow> tiDomain it \<in> {''record'', ''chat''}"
  by (auto simp: trash_def record_item_def chat_item_def)

lemma swept_mono: "swept E s0 s \<Longrightarrow> E \<subseteq> F \<Longrightarrow> swept F s0 s"
  unfolding swept_def ids_of_def by (auto 0 4)

lemma gc_sweep_post:
  fixes w :: "'c World"
  shows "case gc_sweep allTrashDomains now open w of
     (Inl e, w') \<Rightarrow> swept (removable now open w) (gwStack w) (gwStack w')
   | (Inr None, w') \<Rightarrow> swept (removable now open w) (gwStack w) (gwStack w')
   | (Inr (Some acc), w') \<Rightarrow> progress (removable now open w) (gwStack w) acc (gwStack w')"
proof -
  let ?E = "removable now open w"
  let ?list = "each_acc (\<lambda>d expired.
           bnd (on_stack (on_db (tdList d))) (\<lambda>items.
             ret (expired @ filter (is_expired (lsConfig (gwStack w)) now) items))) (allTrashDomains :: 'c trashDomain list) []"
  have "case ?list w of (Inl e, w') \<Rightarrow> swept {} (gwStack w) (gwStack w') | (Inr acc', w') \<Rightarrow> trash_listing now w acc' w'"
    by (rule each_acc_post [where P = "trash_listing now w" and E = "\<lambda>w'. swept {} (gwStack w) (gwStack w')"])
       (auto simp: trash_listing_def [of _ _ "[]"] swept_refl trash_listing_step)
  then consider e w1 where "?list w = (Inl e, w1)" "swept {} (gwStack w) (gwStack w1)"
    | expired w1 where "?list w = (Inr expired, w1)" "trash_listing now w expired w1"
    by (cases "?list w"; cases "fst (?list w)") auto
  then show ?thesis
  proof cases
    case 1
    then have "gc_sweep allTrashDomains now open w = (Inl e, w1)" by (simp add: gc_sweep_def)
    then show ?thesis using swept_mono [OF 1(2), of ?E] by simp
  next
    case 2
    note l = 2(2) [unfolded trash_listing_def]
    have w1: "swept ?E (gwStack w) (gwStack w1)" using l swept_mono [of "{}" _ _ ?E] by blast
    show ?thesis
    proof (cases "expired = []")
      case True
      then have "gc_sweep allTrashDomains now open w = (Inr None, w1)" using 2(1) by (simp add: gc_sweep_def ret_def)
      then show ?thesis using w1 by simp
    next
      case False
      obtain r c where r: "open (gwCloud w) = (r, c)" by fastforce
      define cloud where "cloud = (case r of Inl _ \<Rightarrow> None | Inr cl \<Rightarrow> Some cl)"
      let ?w2 = "w1 \<lparr> gwCloud := c \<rparr>"
      have "open_cloud open w1 = (Inr cloud, ?w2)"
        using r l by (cases r) (simp_all add: open_cloud_def bnd_def attempt_def on_cloud_run ret_def cloud_def)
      then have run: "gc_sweep allTrashDomains now open w =
          bnd (each_acc (gc_item allTrashDomains cloud) expired []) (\<lambda>done_items. ret (Some done_items)) ?w2"
        using 2(1) False by (simp add: gc_sweep_def)
      have "case each_acc (gc_item allTrashDomains cloud) expired [] ?w2 of
          (Inl e, w') \<Rightarrow> swept ?E (gwStack w) (gwStack w') | (Inr acc', w') \<Rightarrow> progress ?E (gwStack w) acc' (gwStack w')"
      proof (rule each_acc_post [where P = "\<lambda>acc w'. progress ?E (gwStack w) acc (gwStack w')"
          and E = "\<lambda>w'. swept ?E (gwStack w) (gwStack w')"], rule gc_item_step)
        fix it assume "it \<in> set expired"
        then have it: "it \<in> trash (world_db w)" "is_expired (lsConfig (gwStack w)) now it" using l by auto
        then show "tiDomain it \<in> {''record'', ''chat''}" by (intro trash_domain)
        show "case cloud of None \<Rightarrow> it \<in> ?E | Some cl \<Rightarrow> (\<exists>x. cloud_settled (fst (hard_cloud cl it x))) \<longrightarrow> it \<in> ?E"
          using it r by (auto simp: cloud_def removable_def split: sum.splits)
      qed (use w1 in \<open>simp_all add: progress_def rowless_def ids_of_def\<close>)
      then show ?thesis unfolding run by (auto simp: bnd_def ret_def split: prod.splits sum.splits)
    qed
  qed
qed


end
