(* ===== verification/Migrations.thy ===== *)
theory Migrations
  imports Action Timeutil
begin

text \<open>\<open>sqlite/sqlite.go\<close> and \<open>sqlite/schema.go\<close>: the migration runner. The SQL engine is a parameter:
  \<open>run\<close> executes a script on the data of the database, a value of any type, and either fails or gives the
  new data. Every call of the database may fail (the fault oracle); a process that is killed is one all of whose
  later calls fail, since an open transaction is not written.\<close>

section \<open>The database\<close>

record 's Migrated =
  mgData :: 's
  mgRows :: "(string \<times> string) list option" \<comment> \<open>\<open>schema_migrations\<close>: version and \<open>applied_at\<close>; \<open>None\<close>: no such table\<close>
  mgTick :: nat
  mgFault :: "nat \<Rightarrow> string option"
  mgClock :: "nat \<Rightarrow> time"

text \<open>A statement, which is atomic.\<close>

definition mg_call :: "('s Migrated \<Rightarrow> error + ('a \<times> 's Migrated)) \<Rightarrow> ('s Migrated, 'a) act" where
  "mg_call f w =
    (let w' = w \<lparr> mgTick := Suc (mgTick w) \<rparr> in
     case mgFault w (mgTick w) of
       Some msg \<Rightarrow> (Inl (IOError msg), w')
     | None \<Rightarrow> (case f w' of Inl e \<Rightarrow> (Inl e, w') | Inr (a, w'') \<Rightarrow> (Inr a, w'')))"

definition mg_now :: "('s Migrated, time) act" where
  "mg_now w = (Inr (mgClock w (mgTick w)), w)"

text \<open>\<open>tx.Rollback()\<close>, or a \<open>Commit\<close> that fails: the transaction leaves no trace.\<close>

definition mg_rolled_back :: "'s Migrated \<Rightarrow> 's Migrated \<Rightarrow> 's Migrated" where
  "mg_rolled_back before w = before \<lparr> mgTick := mgTick w \<rparr>"

definition mg_transaction :: "string \<Rightarrow> string \<Rightarrow> ('s Migrated, unit) act \<Rightarrow> ('s Migrated, unit) act" where
  "mg_transaction beginMsg commitMsg body w =
    (case sq (wrap beginMsg (mg_call (\<lambda>w. Inr ((), w)))) (sq body (wrap commitMsg (mg_call (\<lambda>w. Inr ((), w))))) w of
       (Inl e, w') \<Rightarrow> (Inl e, mg_rolled_back w w')
     | (Inr _, w') \<Rightarrow> (Inr (), w'))"

section \<open>The runner\<close>

text \<open>A directory entry: its name and whether it is a directory.\<close>

definition has_suffix :: "string \<Rightarrow> string \<Rightarrow> bool" where
  "has_suffix suf s = suffix suf s"

definition sqlMigrationFilenames :: "(string \<times> bool) list \<Rightarrow> string list" where
  "sqlMigrationFilenames entries =
    sort (List.map fst (filter (\<lambda>(name, isDir). \<not> (isDir \<or> \<not> has_suffix ''.sql'' name)) entries))"

definition ensureMigrationTable :: "('s Migrated, unit) act" where
  "ensureMigrationTable =
    wrap ''ensure schema_migrations table''
      (mg_call (\<lambda>w. Inr ((), w \<lparr> mgRows := (case mgRows w of None \<Rightarrow> Some [] | Some rows \<Rightarrow> Some rows) \<rparr>)))"

definition errNoTable :: error where
  "errNoTable = Plain ''no such table: schema_migrations''"

definition isMigrationApplied :: "string \<Rightarrow> ('s Migrated, bool) act" where
  "isMigrationApplied version =
    (if blank version then fail (Plain ''migration version is required'')
     else wrap ''query migration''
       (mg_call (\<lambda>w. case mgRows w of
          None \<Rightarrow> Inl errNoTable
        | Some rows \<Rightarrow> Inr (version \<in> fst ` set rows, w))))"

definition insert_migration :: "string \<Rightarrow> string \<Rightarrow> 's Migrated \<Rightarrow> error + (unit \<times> 's Migrated)" where
  "insert_migration version appliedAt w =
    (case mgRows w of
       None \<Rightarrow> Inl errNoTable
     | Some rows \<Rightarrow>
         if version \<in> fst ` set rows then Inl (Plain ''UNIQUE constraint failed'')
         else Inr ((), w \<lparr> mgRows := Some (rows @ [(version, appliedAt)]) \<rparr>))"

definition applyMigration ::
  "(string \<Rightarrow> 's \<Rightarrow> error + 's) \<Rightarrow> string \<Rightarrow> string \<Rightarrow> ('s Migrated, unit) act" where
  "applyMigration run migration content =
    mg_transaction ''begin migration transaction'' ''commit migration''
      (sq (wrap ''apply migration'' (mg_call (\<lambda>w. case run content (mgData w) of
             Inl e \<Rightarrow> Inl e
           | Inr s \<Rightarrow> Inr ((), w \<lparr> mgData := s \<rparr>))))
          (bnd mg_now (\<lambda>now.
             wrap ''record migration'' (mg_call (insert_migration migration (FormatUTCMillis now))))))"

definition applyPendingMigrations ::
  "(string \<Rightarrow> 's \<Rightarrow> error + 's) \<Rightarrow> string list \<Rightarrow> (string \<Rightarrow> error + string) \<Rightarrow> ('s Migrated, unit) act" where
  "applyPendingMigrations run migrations readMigration =
    sq ensureMigrationTable
      (each (\<lambda>migration.
        bnd (isMigrationApplied migration) (\<lambda>applied.
          if applied then ret ()
          else
            bnd (lift_result (wrap_result ''read migration'' (readMigration migration))) (\<lambda>content.
              applyMigration run migration content))) migrations)"

text \<open>A directory of migrations, on disk or in the binary.\<close>

record MigrationFS =
  mfEntries :: "error + (string \<times> bool) list"
  mfRead :: "string \<Rightarrow> error + string"

definition ApplyMigrationsFromFS ::
  "(string \<Rightarrow> 's \<Rightarrow> error + 's) \<Rightarrow> MigrationFS \<Rightarrow> ('s Migrated, unit) act" where
  "ApplyMigrationsFromFS run fs =
    bnd (lift_result (wrap_result ''read migrations filesystem'' (mfEntries fs))) (\<lambda>entries.
      applyPendingMigrations run (sqlMigrationFilenames entries) (mfRead fs))"

definition ApplyMigrations ::
  "(string \<Rightarrow> 's \<Rightarrow> error + 's) \<Rightarrow> (string \<Rightarrow> MigrationFS) \<Rightarrow> string \<Rightarrow> ('s Migrated, unit) act" where
  "ApplyMigrations run dirs migrationsDir =
    (if blank migrationsDir then fail (Plain ''migrations directory is required'')
     else
       bnd (lift_result (wrap_result ''read migrations directory'' (mfEntries (dirs migrationsDir)))) (\<lambda>entries.
         applyPendingMigrations run (sqlMigrationFilenames entries) (mfRead (dirs migrationsDir))))"

section \<open>The schema in the binary\<close>

definition schemaVersion :: string where
  "schemaVersion = ''001_initial.sql''"

text \<open>\<open>singleFileFS\<close>: one file at the root.\<close>

definition singleFile_ReadDir :: "string \<Rightarrow> string \<Rightarrow> error + (string \<times> bool) list" where
  "singleFile_ReadDir file name = (if name = ''.'' then Inr [(file, False)] else Inl ErrNotExist)"

definition singleFile_ReadFile :: "string \<Rightarrow> string \<Rightarrow> string \<Rightarrow> error + string" where
  "singleFile_ReadFile file data name = (if name = file then Inr data else Inl ErrNotExist)"

definition schemaFS :: "string \<Rightarrow> MigrationFS" where
  "schemaFS schemaContent =
    \<lparr> mfEntries = singleFile_ReadDir schemaVersion ''.'', mfRead = singleFile_ReadFile schemaVersion schemaContent \<rparr>"

definition ApplySchema :: "(string \<Rightarrow> 's \<Rightarrow> error + 's) \<Rightarrow> string \<Rightarrow> ('s Migrated, unit) act" where
  "ApplySchema run schemaContent = ApplyMigrationsFromFS run (schemaFS schemaContent)"

section \<open>Exactly once\<close>

definition applied :: "'s Migrated \<Rightarrow> string list" where
  "applied w = (case mgRows w of None \<Rightarrow> [] | Some rows \<Rightarrow> List.map fst rows)"

text \<open>The migrations of a list that are not applied yet, in order, each once.\<close>

fun pending :: "string list \<Rightarrow> string list \<Rightarrow> string list" where
  "pending seen [] = []"
| "pending seen (m # ms) = (if m \<in> set seen then pending seen ms else m # pending (seen @ [m]) ms)"

text \<open>Scripts run one after the other.\<close>

fun run_scripts :: "(string \<Rightarrow> 's \<Rightarrow> error + 's) \<Rightarrow> (string \<Rightarrow> error + string) \<Rightarrow> string list \<Rightarrow> 's \<Rightarrow> error + 's" where
  "run_scripts run read [] s = Inr s"
| "run_scripts run read (m # ms) s =
    (case read m of
       Inl e \<Rightarrow> Inl e
     | Inr content \<Rightarrow> (case run content s of Inl e \<Rightarrow> Inl e | Inr s' \<Rightarrow> run_scripts run read ms s'))"

definition advanced ::
  "(string \<Rightarrow> 's \<Rightarrow> error + 's) \<Rightarrow> (string \<Rightarrow> error + string) \<Rightarrow> string list \<Rightarrow> 's Migrated \<Rightarrow> 's Migrated \<Rightarrow> bool" where
  "advanced run read ms w w' \<longleftrightarrow>
     applied w' = applied w @ ms \<and> run_scripts run read ms (mgData w) = Inr (mgData w')"

lemma advanced_refl: "advanced run read [] w w"
  by (simp add: advanced_def)

lemma run_scripts_append:
  "run_scripts run read (ms @ ns) s = (case run_scripts run read ms s of Inl e \<Rightarrow> Inl e | Inr s' \<Rightarrow> run_scripts run read ns s')"
  by (induction ms arbitrary: s) (auto split: sum.splits)

lemma advanced_trans: "advanced run read ms w w' \<Longrightarrow> advanced run read ns w' w'' \<Longrightarrow> advanced run read (ms @ ns) w w''"
  by (simp add: advanced_def run_scripts_append)

lemma mg_call_cases:
  obtains e where "mg_call f w = (Inl e, w \<lparr> mgTick := Suc (mgTick w) \<rparr>)"
  | a w' where "f (w \<lparr> mgTick := Suc (mgTick w) \<rparr>) = Inr (a, w')" "mg_call f w = (Inr a, w')"
  by (cases "mgFault w (mgTick w)"; cases "f (w \<lparr> mgTick := Suc (mgTick w) \<rparr>)") (auto simp: mg_call_def Let_def)

text \<open>A call that only moves the tick.\<close>

definition ticked :: "'s Migrated \<Rightarrow> 's Migrated \<Rightarrow> bool" where
  "ticked w w' \<longleftrightarrow> mgRows w' = mgRows w \<and> mgData w' = mgData w"

lemma ticked_advanced: "ticked w w' \<Longrightarrow> advanced run read [] w w'"
  by (simp add: ticked_def advanced_def applied_def)

lemma applyMigration_run:
  assumes "mgRows w = Some rows" "m \<notin> fst ` set rows" "read m = Inr content"
  shows "case applyMigration run m content w of
           (Inl _, w') \<Rightarrow> ticked w w'
         | (Inr _, w') \<Rightarrow> mgRows w' \<noteq> None \<and> advanced run read [m] w w'"
proof -
  obtain r w' where go: "applyMigration run m content w = (r, w')" by fastforce
  show ?thesis
  proof (cases r)
    case (Inl e)
    then have "\<exists>v. w' = mg_rolled_back w v"
      using go by (auto simp: applyMigration_def mg_transaction_def split: prod.splits sum.splits)
    then show ?thesis using go Inl by (auto simp: ticked_def mg_rolled_back_def)
  next
    case (Inr u)
    then show ?thesis
      using go assms
      by (auto simp: applyMigration_def mg_transaction_def sq_def bnd_def wrap_def mg_call_def mg_now_def Let_def
          insert_migration_def advanced_def applied_def split: option.splits sum.splits prod.splits if_splits)
  qed
qed

lemma isMigrationApplied_run:
  assumes "mgRows w \<noteq> None"
  shows "case isMigrationApplied m w of
           (Inl _, w') \<Rightarrow> ticked w w'
         | (Inr b, w') \<Rightarrow> ticked w w' \<and> b = (m \<in> set (applied w))"
  using assms
  by (auto simp: isMigrationApplied_def fail_def wrap_def mg_call_def Let_def ticked_def applied_def
      split: option.splits)

text \<open>One round of the loop.\<close>

definition migration_step ::
  "(string \<Rightarrow> 's \<Rightarrow> error + 's) \<Rightarrow> (string \<Rightarrow> error + string) \<Rightarrow> string \<Rightarrow> ('s Migrated, unit) act" where
  "migration_step run readMigration migration =
    bnd (isMigrationApplied migration) (\<lambda>applied.
      if applied then ret ()
      else
        bnd (lift_result (wrap_result ''read migration'' (readMigration migration))) (\<lambda>content.
          applyMigration run migration content))"

lemma migration_step_run:
  assumes "mgRows w \<noteq> None"
  shows "case migration_step run read m w of
           (Inl _, w') \<Rightarrow> mgRows w' \<noteq> None \<and> advanced run read [] w w'
         | (Inr _, w') \<Rightarrow> mgRows w' \<noteq> None \<and> advanced run read (if m \<in> set (applied w) then [] else [m]) w w'"
proof -
  obtain r w1 where check: "isMigrationApplied m w = (r, w1)" by fastforce
  note c = isMigrationApplied_run [OF assms, of m, unfolded check prod.case]
  have t: "ticked w w1" using c by (cases r) auto
  then have w1: "mgRows w1 = mgRows w" "advanced run read [] w w1" "applied w1 = applied w"
    by (simp_all add: ticked_advanced) (simp_all add: ticked_def applied_def)
  show ?thesis
  proof (cases r)
    case (Inl e)
    then show ?thesis using check w1 assms by (simp add: migration_step_def)
  next
    case (Inr b)
    then have b: "b = (m \<in> set (applied w))" using c by simp
    show ?thesis
    proof (cases "read m")
      case (Inl e)
      then show ?thesis
        using check Inr b w1 assms
        by (simp add: migration_step_def ret_def lift_result_def wrap_result_def bnd_def [of "lift_result _"])
    next
      case read: (Inr content)
      show ?thesis
      proof (cases b)
        case True
        then show ?thesis using check Inr b w1 assms by (simp add: migration_step_def ret_def)
      next
        case False
        obtain rows where rows: "mgRows w1 = Some rows" using w1(1) assms by auto
        then have "set (applied w1) = fst ` set rows" by (simp add: applied_def)
        then have "m \<notin> fst ` set rows" using False b w1(3) by simp
        note a = applyMigration_run [where read = read and run = run, OF rows this read]
        obtain r2 w2 where go: "applyMigration run m content w1 = (r2, w2)" by fastforce
        have "migration_step run read m w = (r2, w2)"
          using check Inr False read go
          by (simp add: migration_step_def lift_result_def wrap_result_def bnd_def [of "lift_result _"])
        moreover have "case r2 of Inl _ \<Rightarrow> ticked w1 w2 | Inr _ \<Rightarrow> mgRows w2 \<noteq> None \<and> advanced run read [m] w1 w2"
          using a unfolding go by simp
        moreover have "advanced run read [] w w2" "mgRows w2 \<noteq> None" if "ticked w1 w2"
          using that rows advanced_trans [OF w1(2) ticked_advanced [OF that]] by (simp_all add: ticked_def)
        moreover have "advanced run read [m] w w2" if "advanced run read [m] w1 w2"
          using advanced_trans [OF w1(2) that] by simp
        ultimately show ?thesis using False b by (cases r2) simp_all
      qed
    qed
  qed
qed

lemma migration_loop_run:
  assumes "mgRows w \<noteq> None"
  shows "case each (migration_step run read) ms w of (r, w') \<Rightarrow>
     mgRows w' \<noteq> None \<and>
     (\<exists>new. prefix new (pending (applied w) ms) \<and> advanced run read new w w' \<and>
        (case r of Inr _ \<Rightarrow> new = pending (applied w) ms | Inl _ \<Rightarrow> True))"
  using assms
proof (induction ms arbitrary: w)
  case Nil
  then show ?case by (simp add: ret_def advanced_refl)
next
  case (Cons m ms)
  obtain r w1 where go: "migration_step run read m w = (r, w1)" by fastforce
  note s = migration_step_run [OF Cons.prems, of run read m, unfolded go prod.case]
  show ?case
  proof (cases r)
    case (Inl e)
    then show ?thesis using s go by (auto simp: sq_def intro: exI [of _ "[]"])
  next
    case (Inr u)
    let ?one = "if m \<in> set (applied w) then [] else [m]"
    have w1: "mgRows w1 \<noteq> None" "advanced run read ?one w w1" using s Inr by auto
    then have seen: "applied w1 = applied w @ ?one" by (simp add: advanced_def)
    obtain r2 w2 where rest: "each (migration_step run read) ms w1 = (r2, w2)" by fastforce
    from Cons.IH [OF w1(1)] obtain new where new: "mgRows w2 \<noteq> None" "prefix new (pending (applied w1) ms)"
      "advanced run read new w1 w2" "case r2 of Inr _ \<Rightarrow> new = pending (applied w1) ms | Inl _ \<Rightarrow> True"
      unfolding rest by auto
    have "pending (applied w) (m # ms) = ?one @ pending (applied w1) ms" by (simp add: seen)
    moreover have "each (migration_step run read) (m # ms) w = (r2, w2)"
      using go Inr rest by (simp add: sq_def)
    ultimately show ?thesis
      using new advanced_trans [OF w1(2) new(3)] by (auto split: sum.splits intro!: exI [of _ "?one @ new"])
  qed
qed

lemma pending_sorted: "sorted ms \<Longrightarrow> sorted_wrt (<) (pending seen ms) \<and> set (pending seen ms) = set ms - set seen"
proof (induction ms arbitrary: seen)
  case (Cons m ms)
  show ?case
    using Cons.IH [of seen] Cons.IH [of "seen @ [m]"] Cons.prems by (auto simp: order_less_le)
qed simp

text \<open>C34. The migration runner, on any database and however it ends: the migrations applied are a lexically
  ordered initial part of the pending ones, each recorded and run exactly once with the whole of its effect, and
  nothing else has happened to the database; a run that succeeds applies all of them, so that a run after a
  failed or killed one continues where that one stopped.\<close>

theorem migrations_exactly_once:
  "case applyPendingMigrations run (sqlMigrationFilenames entries) read w of (r, w') \<Rightarrow>
     \<exists>new. advanced run read new w w' \<and>
       prefix new (pending (applied w) (sqlMigrationFilenames entries)) \<and>
       sorted_wrt (<) (pending (applied w) (sqlMigrationFilenames entries)) \<and>
       set (pending (applied w) (sqlMigrationFilenames entries)) = set (sqlMigrationFilenames entries) - set (applied w) \<and>
       (case r of Inr _ \<Rightarrow> new = pending (applied w) (sqlMigrationFilenames entries) | Inl _ \<Rightarrow> True)"
proof -
  let ?ms = "sqlMigrationFilenames entries"
  have spec: "sorted_wrt (<) (pending (applied w) ?ms) \<and> set (pending (applied w) ?ms) = set ?ms - set (applied w)"
    by (rule pending_sorted) (simp add: sqlMigrationFilenames_def)
  obtain r w1 where table: "(ensureMigrationTable :: ('a Migrated, unit) act) w = (r, w1)" by fastforce
  have loop: "applyPendingMigrations run ?ms read w = sq ensureMigrationTable (each (migration_step run read) ?ms) w"
    unfolding applyPendingMigrations_def migration_step_def ..
  have w1: "applied w1 = applied w \<and> mgData w1 = mgData w \<and> (case r of Inl _ \<Rightarrow> True | Inr _ \<Rightarrow> mgRows w1 \<noteq> None)"
    using table
    by (auto simp: ensureMigrationTable_def wrap_def mg_call_def Let_def applied_def split: option.splits sum.splits)
  then have start: "advanced run read [] w w1" by (simp add: advanced_def)
  show ?thesis
  proof (cases r)
    case (Inl e)
    then show ?thesis
      unfolding loop using table start spec by (auto simp: sq_def intro: exI [of _ "[]"])
  next
    case (Inr u)
    obtain r2 w2 where rest: "each (migration_step run read) ?ms w1 = (r2, w2)" by fastforce
    have "mgRows w1 \<noteq> None" using w1 Inr by simp
    from migration_loop_run [OF this, where run = run and read = read and ms = ?ms] obtain new where new:
      "prefix new (pending (applied w1) ?ms)" "advanced run read new w1 w2"
      "case r2 of Inr _ \<Rightarrow> new = pending (applied w1) ?ms | Inl _ \<Rightarrow> True"
      unfolding rest by auto
    have "sq ensureMigrationTable (each (migration_step run read) ?ms) w = (r2, w2)"
      using table Inr rest by (simp add: sq_def)
    then show ?thesis
      unfolding loop using spec new(1) new(3) w1 advanced_trans [OF start new(2)]
      by (cases r2) (auto intro!: exI [of _ new])
  qed
qed

end
