(* ===== verification/Json_Any.thy ===== *)
theory Json_Any
  imports Json_Object
begin

text \<open>JSON read into Go's \<open>any\<close> and \<open>map[string]any\<close>, and written back by \<open>Marshal\<close>. A number becomes a
  64-bit float: reading one that is out of range is an error, and \<open>Marshal\<close> prints the shortest decimal that reads
  as the same float. A map is kept as its members in the order of their names, each name once, the
  order in which \<open>Marshal\<close> prints them; of two members with one name the last is kept.\<close>

section \<open>Floats\<close>

text \<open>A positive number \<open>p / q\<close> as \<open>m * 2 ^ e\<close> with \<open>m < 2 ^ 53\<close>, rounded to nearest, ties to even; none when it
  is too large.\<close>

definition two_power :: "int \<Rightarrow> nat \<times> nat" where
  "two_power e = (if 0 \<le> e then (2 ^ nat e, 1) else (1, 2 ^ nat (- e)))"

fun bit_length :: "nat \<Rightarrow> nat" where
  "bit_length n = (if n = 0 then 0 else Suc (bit_length (n div 2)))"

declare bit_length.simps [simp del]

definition floor_log2 :: "nat \<Rightarrow> nat \<Rightarrow> int" where
  "floor_log2 p q =
    (let k = int (bit_length p) - int (bit_length q); (a, b) = two_power k in
     if a * q \<le> p * b then k else k - 1)"

definition round_even :: "nat \<Rightarrow> nat \<Rightarrow> nat" where
  "round_even n d =
    (let q = n div d; r = n mod d in
     if d < 2 * r \<or> (2 * r = d \<and> odd q) then Suc q else q)"

definition to_float :: "nat \<Rightarrow> nat \<Rightarrow> (nat \<times> int) option" where
  "to_float p q =
    (if p = 0 then Some (0, 0)
     else
       let e = max (- 1074) (floor_log2 p q - 52); (a, b) = two_power e;
           m = round_even (p * b) (q * a);
           (m', e') = (if m = 2 ^ 53 then (2 ^ 52, e + 1) else (m, e)) in
       if 971 < e' then None else Some (m', e'))"

text \<open>The value of a number's text: sign, numerator and denominator. Like \<open>readFloat\<close>, an exponent of more than
  four digits is cut.\<close>

definition exponent_value :: "string \<Rightarrow> nat" where
  "exponent_value ds = foldl (\<lambda>e c. if e < 10000 then 10 * e + (byte c - 48) else e) 0 ds"

definition number_parts :: "string \<Rightarrow> bool \<times> nat \<times> nat" where
  "number_parts s =
    (let neg = prefix ''-'' s; t = (if neg then tl s else s);
         i = takeWhile decimal t; t1 = dropWhile decimal t;
         f = (if prefix ''.'' t1 then takeWhile decimal (tl t1) else []);
         t2 = (if prefix ''.'' t1 then dropWhile decimal (tl t1) else t1);
         x = (if t2 = [] then [] else tl t2);
         e = (if x = [] then 0
              else if hd x = CHR ''-'' then - int (exponent_value (tl x))
              else if hd x = CHR ''+'' then int (exponent_value (tl x))
              else int (exponent_value x)) - int (length f);
         m = decimal_value (i @ f) in
     (neg, if 0 \<le> e then m * 10 ^ nat e else m, if 0 \<le> e then 1 else 10 ^ nat (- e)))"

definition read_float :: "string \<Rightarrow> (bool \<times> nat \<times> int) option" where
  "read_float s =
    (case number_parts s of (neg, p, q) \<Rightarrow> map_option (\<lambda>(m, e). (neg, m, e)) (to_float p q))"

text \<open>The shortest digits \<open>d\<close> and the decimal point \<open>k\<close> with \<open>0.d * 10 ^ k\<close> reading as the float, the nearest of
  them when there are two; 17 digits always suffice.\<close>

definition ten_power :: "int \<Rightarrow> nat \<times> nat" where
  "ten_power e = (if 0 \<le> e then (10 ^ nat e, 1) else (1, 10 ^ nat (- e)))"

definition reads_as :: "nat \<times> int \<Rightarrow> nat \<Rightarrow> int \<Rightarrow> bool" where
  "reads_as x c u = (case ten_power u of (a, b) \<Rightarrow> to_float (c * a) b = Some x)"

definition decimal_point :: "nat \<Rightarrow> nat \<Rightarrow> int" where
  "decimal_point p q =
    (let k = int (length (nat_text p)) - int (length (nat_text q)); (a, b) = ten_power k in
     if a * q \<le> p * b then k + 1 else k)"

definition pick_digits :: "nat \<times> int \<Rightarrow> nat \<Rightarrow> nat \<Rightarrow> int \<Rightarrow> nat \<Rightarrow> (nat \<times> int) option" where
  "pick_digits x p q k n =
    (let u = k - int n; (a, b) = ten_power u; lo = p * b div (q * a) in
     if reads_as x lo u \<and> reads_as x (Suc lo) u then Some (round_even (p * b) (q * a), u)
     else if reads_as x lo u then Some (lo, u)
     else if reads_as x (Suc lo) u then Some (Suc lo, u)
     else None)"

fun first_some :: "('a \<Rightarrow> 'b option) \<Rightarrow> 'a list \<Rightarrow> 'b option" where
  "first_some f [] = None"
| "first_some f (x # xs) = (case f x of Some y \<Rightarrow> Some y | None \<Rightarrow> first_some f xs)"

definition strip_zeros :: "string \<Rightarrow> string" where
  "strip_zeros s = rev (dropWhile (\<lambda>c. c = CHR ''0'') (rev s))"

definition shortest :: "nat \<Rightarrow> int \<Rightarrow> string \<times> int" where
  "shortest m e =
    (case two_power e of (a, b) \<Rightarrow>
       let p = m * a; k = decimal_point p b in
       (case first_some (pick_digits (m, e) p b k) [1..<18] of
          Some (c, u) \<Rightarrow> (strip_zeros (nat_text c), int (length (nat_text c)) + u)
        | None \<Rightarrow> ([], 0)))"

text \<open>\<open>AppendFloat\<close> as the JSON encoder calls it: plain notation from \<open>1e-6\<close> up to \<open>1e21\<close>, exponents otherwise,
  without a leading zero in a negative one.\<close>

definition zeros :: "int \<Rightarrow> string" where
  "zeros n = replicate (nat n) (CHR ''0'')"

definition plain_notation :: "string \<Rightarrow> int \<Rightarrow> string" where
  "plain_notation d k =
    (if k \<le> 0 then ''0.'' @ zeros (- k) @ d
     else if int (length d) \<le> k then d @ zeros (k - int (length d))
     else take (nat k) d @ ''.'' @ drop (nat k) d)"

definition exponent_notation :: "string \<Rightarrow> int \<Rightarrow> string" where
  "exponent_notation d k =
    take 1 d @ (if tl d = [] then [] else ''.'' @ tl d) @ ''e'' @
    (if k - 1 < 0 then ''-'' else ''+'') @ nat_text (nat \<bar>k - 1\<bar>)"

definition float_text :: "bool \<times> nat \<times> int \<Rightarrow> string" where
  "float_text x =
    (case x of (neg, m, e) \<Rightarrow>
       (if neg then ''-'' else []) @
       (if m = 0 then ''0''
        else case shortest m e of (d, k) \<Rightarrow>
          if k < - 5 \<or> 22 \<le> k then exponent_notation d k else plain_notation d k))"

section \<open>Maps\<close>

type_synonym payload = "(string \<times> json) list"

fun map_put :: "string \<Rightarrow> json \<Rightarrow> payload \<Rightarrow> payload" where
  "map_put k v [] = [(k, v)]"
| "map_put k v ((l, w) # m) =
    (if k = l then (k, v) # m else if k < l then (k, v) # (l, w) # m else (l, w) # map_put k v m)"

definition map_delete :: "string \<Rightarrow> payload \<Rightarrow> payload" where
  "map_delete k m = filter (\<lambda>(l, _). l \<noteq> k) m"

definition has_key :: "payload \<Rightarrow> string \<Rightarrow> bool" where
  "has_key m k = (map_of m k \<noteq> None)"

definition in_order :: "payload \<Rightarrow> bool" where
  "in_order m = (sorted_wrt (<) (List.map fst m))"

text \<open>Reading a value into \<open>any\<close>; a number keeps the text it will be printed with.\<close>

fun decode_any :: "json \<Rightarrow> json option"
  and decode_elements :: "json list \<Rightarrow> json list option"
  and decode_members :: "(string \<times> json) list \<Rightarrow> payload \<Rightarrow> payload option" where
  "decode_any (JNumber n) = map_option (\<lambda>x. JNumber (float_text x)) (read_float n)"
| "decode_any (JArray vs) = map_option JArray (decode_elements vs)"
| "decode_any (JObject ms) = map_option JObject (decode_members ms [])"
| "decode_any v = Some v"
| "decode_elements [] = Some []"
| "decode_elements (v # vs) =
    (case decode_any v of None \<Rightarrow> None | Some w \<Rightarrow> map_option ((#) w) (decode_elements vs))"
| "decode_members [] m = Some m"
| "decode_members ((k, v) # ms) m =
    (case decode_any v of None \<Rightarrow> None | Some w \<Rightarrow> decode_members ms (map_put k w m))"

text \<open>\<open>Marshal\<close>.\<close>

fun marshal_any :: "json \<Rightarrow> string"
  and marshal_elements :: "json list \<Rightarrow> string"
  and marshal_members :: "(string \<times> json) list \<Rightarrow> string" where
  "marshal_any JNull = ''null''"
| "marshal_any (JBool b) = (if b then ''true'' else ''false'')"
| "marshal_any (JNumber n) = n"
| "marshal_any (JString s) = json_string s"
| "marshal_any (JArray vs) = ''['' @ marshal_elements vs @ '']''"
| "marshal_any (JObject ms) = ''{'' @ marshal_members ms @ ''}''"
| "marshal_elements [] = []"
| "marshal_elements (v # vs) =
    marshal_any v @ (if vs = [] then [] else '','' @ marshal_elements vs)"
| "marshal_members [] = []"
| "marshal_members ((k, v) # ms) =
    json_string k @ '':'' @ marshal_any v @ (if ms = [] then [] else '','' @ marshal_members ms)"

text \<open>The nesting depth \<open>Decode\<close> limits.\<close>

fun json_depth :: "json \<Rightarrow> nat"
  and elements_depth :: "json list \<Rightarrow> nat"
  and members_depth :: "(string \<times> json) list \<Rightarrow> nat" where
  "json_depth (JArray vs) = Suc (elements_depth vs)"
| "json_depth (JObject ms) = Suc (members_depth ms)"
| "json_depth v = 0"
| "elements_depth [] = 0"
| "elements_depth (v # vs) = max (json_depth v) (elements_depth vs)"
| "members_depth [] = 0"
| "members_depth ((k, v) # ms) = max (json_depth v) (members_depth ms)"

section \<open>Laws of maps\<close>

lemma map_of_put [simp]: "map_of (map_put k v m) = (map_of m)(k \<mapsto> v)"
  by (induction k v m rule: map_put.induct) auto

lemma map_put_keys: "fst ` set (map_put k v m) = insert k (fst ` set m)"
  by (induction k v m rule: map_put.induct) auto

lemma map_put_in_order: "in_order m \<Longrightarrow> in_order (map_put k v m)"
  unfolding in_order_def
proof (induction k v m rule: map_put.induct)
  case (2 k v l w m)
  have "\<forall>x\<in>set (List.map fst (map_put k v m)). l < x" if "l < k"
    using 2(2) that map_put_keys [of k v m] by auto
  then show ?case using 2 by (auto simp: not_less_iff_gr_or_eq)
qed simp

lemma map_delete_in_order: "in_order m \<Longrightarrow> in_order (map_delete k m)"
  unfolding in_order_def map_delete_def by (induction m) (auto simp: case_prod_unfold)

lemma decode_members_in_order: "decode_members ms m = Some m' \<Longrightarrow> in_order m \<Longrightarrow> in_order m'"
proof (induction ms arbitrary: m)
  case (Cons kv ms)
  then obtain k v w where "kv = (k, v)" "decode_members ms (map_put k w m) = Some m'"
    by (cases kv) (auto split: option.splits)
  then show ?case using Cons by (blast intro: map_put_in_order)
qed simp

end
