(* ===== verification/Time_Text.thy ===== *)
theory Time_Text
  imports Timeutil Json_Object
begin

text \<open>Reading timestamps: Go's \<open>time.Parse\<close> for the two layouts the code uses, \<open>RFC3339Nano\<close> and
  \<open>timeutil.UTCMillisFormat\<close>, with the lenient forms it accepts (an hour of one digit, a comma before the
  fraction, more than nine digits of it, offsets of 24 hours and 60 minutes), and the functions built on it. The
  text of \<open>FormatUTCMillis\<close> reads back as the instant, truncated to its millisecond.\<close>

section \<open>Fields\<close>

definition digit_value :: "char \<Rightarrow> int" where
  "digit_value c = int (byte c) - 48"

text \<open>\<open>getnum\<close>: one or two digits, or exactly two.\<close>

fun getnum :: "bool \<Rightarrow> string \<Rightarrow> (int \<times> string) option" where
  "getnum fixed [] = None"
| "getnum fixed [c] = (if decimal c \<and> \<not> fixed then Some (digit_value c, []) else None)"
| "getnum fixed (c # d # s) =
    (if \<not> decimal c then None
     else if decimal d then Some (digit_value c * 10 + digit_value d, s)
     else if fixed then None
     else Some (digit_value c, d # s))"

definition number_between :: "int \<Rightarrow> int \<Rightarrow> (int \<times> string) option \<Rightarrow> (int \<times> string) option" where
  "number_between lo hi r = Option.bind r (\<lambda>(n, s). if lo \<le> n \<and> n < hi then Some (n, s) else None)"

definition four_digits :: "string \<Rightarrow> (int \<times> string) option" where
  "four_digits s =
    (if length s < 4 \<or> \<not> list_all decimal (take 4 s) then None
     else Some (int (decimal_value (take 4 s)), drop 4 s))"

definition literal :: "char \<Rightarrow> string \<Rightarrow> string option" where
  "literal c s = (case s of [] \<Rightarrow> None | d # t \<Rightarrow> if d = c then Some t else None)"

text \<open>\<open>atoi\<close> of at most nine characters.\<close>

definition atoi :: "string \<Rightarrow> int option" where
  "atoi s =
    (let neg = prefix ''-'' s; t = (if neg \<or> prefix ''+'' s then tl s else s) in
     if list_all decimal t then Some (if neg then - int (decimal_value t) else int (decimal_value t)) else None)"

definition commaOrPeriod :: "char \<Rightarrow> bool" where
  "commaOrPeriod c = (c = CHR ''.'' \<or> c = CHR '','')"

definition parseNanoseconds :: "string \<Rightarrow> int option" where
  "parseNanoseconds value =
    (if value = [] \<or> \<not> commaOrPeriod (hd value) then None
     else let v = take 10 value in
       Option.bind (atoi (tl v)) (\<lambda>ns. if ns < 0 then None else Some (ns * 10 ^ (10 - length v))))"

text \<open>The fraction of a second: any number of digits, or none, for \<open>.999999999\<close>; exactly three characters for
  \<open>.000\<close>.\<close>

definition any_fraction :: "string \<Rightarrow> (int \<times> string) option" where
  "any_fraction s =
    (case s of
       c # d # t \<Rightarrow>
         if commaOrPeriod c \<and> decimal d then
           map_option (\<lambda>ns. (ns, dropWhile decimal (d # t))) (parseNanoseconds (c # takeWhile decimal (d # t)))
         else Some (0, s)
     | _ \<Rightarrow> Some (0, s))"

definition milli_fraction :: "string \<Rightarrow> (int \<times> string) option" where
  "milli_fraction s =
    (if length s < 4 then None else map_option (\<lambda>ns. (ns, drop 4 s)) (parseNanoseconds (take 4 s)))"

text \<open>The zone, in seconds east of UTC: \<open>Z07:00\<close>, and a plain \<open>Z\<close>.\<close>

definition zone_offset :: "string \<Rightarrow> (int \<times> string) option" where
  "zone_offset s =
    (if prefix ''Z'' s then Some (0, tl s)
     else if length s < 6 \<or> s ! 3 \<noteq> CHR '':'' then None
     else
       Option.bind (getnum True (take 2 (drop 1 s))) (\<lambda>(h, _).
       Option.bind (getnum True (take 2 (drop 4 s))) (\<lambda>(m, _).
         if 24 < h \<or> 60 < m then None
         else if hd s = CHR ''+'' then Some ((h * 60 + m) * 60, drop 6 s)
         else if hd s = CHR ''-'' then Some (- ((h * 60 + m) * 60), drop 6 s)
         else None)))"

definition plain_zone :: "string \<Rightarrow> (int \<times> string) option" where
  "plain_zone s = map_option (\<lambda>r. (0, r)) (literal (CHR ''Z'') s)"

section \<open>Instants\<close>

text \<open>The days before a year, and the instant of a date and a time of day.\<close>

definition days_before_year :: "int \<Rightarrow> int" where
  "days_before_year y = 365 * (y - 1) + (y - 1) div 4 - (y - 1) div 100 + (y - 1) div 400"

definition day_number :: "int \<Rightarrow> int \<Rightarrow> int \<Rightarrow> int" where
  "day_number y m d = days_before_year y + sum_list (take (nat (m - 1)) (month_lengths y)) + d - 1"

definition date_ok :: "int \<Rightarrow> int \<Rightarrow> int \<Rightarrow> bool" where
  "date_ok y m d = (1 \<le> d \<and> d \<le> month_lengths y ! nat (m - 1))"

text \<open>The date and the second of the day, for \<open>2006-01-02T15:04:05\<close>.\<close>

definition parse_date :: "string \<Rightarrow> ((int \<times> int \<times> int) \<times> string) option" where
  "parse_date s =
    Option.bind (four_digits s) (\<lambda>(y, s1).
    Option.bind (literal (CHR ''-'') s1) (\<lambda>s2.
    Option.bind (number_between 1 13 (getnum True s2)) (\<lambda>(m, s3).
    Option.bind (literal (CHR ''-'') s3) (\<lambda>s4.
    Option.bind (getnum True s4) (\<lambda>(d, s5). Some ((y, m, d), s5))))))"

definition parse_clock :: "string \<Rightarrow> (int \<times> string) option" where
  "parse_clock s =
    Option.bind (number_between 0 24 (getnum False s)) (\<lambda>(h, s1).
    Option.bind (literal (CHR '':'') s1) (\<lambda>s2.
    Option.bind (number_between 0 60 (getnum True s2)) (\<lambda>(m, s3).
    Option.bind (literal (CHR '':'') s3) (\<lambda>s4.
    Option.bind (number_between 0 60 (getnum True s4)) (\<lambda>(sec, s5).
      Some (h * 3600 + m * 60 + sec, s5))))))"

definition time_parse ::
  "(string \<Rightarrow> (int \<times> string) option) \<Rightarrow> (string \<Rightarrow> (int \<times> string) option) \<Rightarrow> string \<Rightarrow> time option" where
  "time_parse fractional zone s =
    Option.bind (parse_date s) (\<lambda>((y, m, d), s1).
    Option.bind (literal (CHR ''T'') s1) (\<lambda>s2.
    Option.bind (parse_clock s2) (\<lambda>(sec, s3).
    Option.bind (fractional s3) (\<lambda>(ns, s4).
    Option.bind (zone s4) (\<lambda>(off, s5).
      if s5 \<noteq> [] \<or> \<not> date_ok y m d then None
      else Some ((day_number y m d * 86400 + sec - off) * 1000000000 + ns))))))"

definition parse_rfc3339_nano :: "string \<Rightarrow> time option" where
  "parse_rfc3339_nano = time_parse any_fraction zone_offset"

definition parse_utc_millis :: "string \<Rightarrow> time option" where
  "parse_utc_millis = time_parse milli_fraction plain_zone"

text \<open>\<open>chatimport.ParseChatTime\<close>, and \<open>parseTimestamp\<close> and \<open>parseNullableTimestamp\<close> of the SQLite
  repository.\<close>

definition ParseChatTime :: "string \<Rightarrow> error + time" where
  "ParseChatTime raw =
    (case parse_rfc3339_nano raw of
       Some t \<Rightarrow> Inr t
     | None \<Rightarrow> (case parse_utc_millis raw of
         Some t \<Rightarrow> Inr t
       | None \<Rightarrow> Inl (Plain ''unsupported timestamp'')))"

definition parseTimestamp :: "string \<Rightarrow> error + time" where
  "parseTimestamp raw =
    (case parse_rfc3339_nano raw of
       None \<Rightarrow> Inl (Wrapped ''parse timestamp'' (Plain ''time.Parse''))
     | Some t \<Rightarrow> Inr t)"

definition parseNullableTimestamp :: "string option \<Rightarrow> error + time option" where
  "parseNullableTimestamp raw =
    (case raw of
       None \<Rightarrow> Inr None
     | Some s \<Rightarrow> (case parseTimestamp s of Inl e \<Rightarrow> Inl e | Inr t \<Rightarrow> Inr (Some t)))"

section \<open>The calendar\<close>

text \<open>A day number splits into the days before its year and a day of the year.\<close>

lemma four_cycle:
  fixes d :: int
  assumes "0 \<le> d" "d < 4 * l + 1" "1 < l" and a: "a = d div l" and q: "q = a - a div 4"
  shows "0 \<le> q" "q \<le> 3" "0 \<le> d - l * q" "d - l * q < l \<or> q = 3 \<and> d - l * q = l"
proof -
  have l: "0 < l" using assms by simp
  have *: "l * a \<le> d" "d < l * a + l"
    using mult_div_mod_eq [of l d] pos_mod_bound [OF l, of d] pos_mod_sign [OF l, of d]
    unfolding a by linarith+
  have "0 \<le> a" using assms l by (simp add: a pos_imp_zdiv_nonneg_iff)
  have "a < 5"
  proof (rule ccontr)
    assume "\<not> a < 5"
    then have "l * 5 \<le> l * a" using l by (intro mult_left_mono) auto
    with * assms show False by linarith
  qed
  with \<open>0 \<le> a\<close> have "a = 0 \<or> a = 1 \<or> a = 2 \<or> a = 3 \<or> a = 4" by linarith
  then show "0 \<le> q" "q \<le> 3" "0 \<le> d - l * q" "d - l * q < l \<or> q = 3 \<and> d - l * q = l"
    using * assms(2) by (auto simp: q)
qed

lemma year_yday_days:
  assumes "year_yday d = (y, yd)"
  shows "d = days_before_year (y + 1) + yd" "0 \<le> yd" "yd < (if leap_year (y + 1) then 366 else 365)"
proof -
  define n400 d1 where "n400 = d div 146097" and "d1 = d - 146097 * n400"
  define n100a where "n100a = d1 div 36524"
  define n100 where "n100 = n100a - n100a div 4"
  define d2 where "d2 = d1 - 36524 * n100"
  define n4 d3 where "n4 = d2 div 1461" and "d3 = d2 - 1461 * n4"
  define n1a where "n1a = d3 div 365"
  define n1 where "n1 = n1a - n1a div 4"
  have y: "y = 400 * n400 + 100 * n100 + 4 * n4 + n1" and yd: "yd = d3 - 365 * n1"
    using assms unfolding year_yday_def Let_def
      n400_def [symmetric] d1_def [symmetric] n100a_def [symmetric] n100_def [symmetric] d2_def [symmetric]
      n4_def [symmetric] d3_def [symmetric] n1a_def [symmetric] n1_def [symmetric]
    by simp_all
  have d1: "0 \<le> d1" "d1 < 146097" by (simp_all add: d1_def n400_def minus_mult_div_eq_mod)
  note b = four_cycle [OF d1(1) _ _ n100a_def n100_def, simplified, folded d2_def]
  have b: "0 \<le> n100" "n100 \<le> 3" "0 \<le> d2" "d2 < 36524 \<or> (n100 = 3 \<and> d2 = 36524)"
    using b d1 by (auto simp: d2_def)
  have "d3 = d2 mod 1461" by (simp add: d3_def n4_def minus_mult_div_eq_mod)
  then have "1461 * n4 \<le> d2" "d2 < 1461 * n4 + 1461"
    using pos_mod_sign [of 1461 d2] pos_mod_bound [of 1461 d2] unfolding d3_def by linarith+
  then have c: "0 \<le> n4" "n4 \<le> 24" "0 \<le> d3" "d3 < 1461" "n4 = 24 \<Longrightarrow> n100 < 3 \<Longrightarrow> d3 < 1460"
    using b unfolding d3_def by linarith+
  note e = four_cycle [OF c(3) _ _ n1a_def n1_def, simplified, folded yd]
  have e: "0 \<le> n1" "n1 \<le> 3" "0 \<le> yd" "yd < 365 \<or> (n1 = 3 \<and> yd = 365)" "yd = 365 \<Longrightarrow> d3 = 1460"
    using e c yd by auto
  have divs: "y div 4 = 100 * n400 + 25 * n100 + n4" "y div 100 = 4 * n400 + n100" "y div 400 = n400"
  proof -
    show "y div 4 = 100 * n400 + 25 * n100 + n4"
      using e by (intro int_div_pos_eq [of _ _ _ n1]) (auto simp: y)
    show "y div 100 = 4 * n400 + n100"
      using c e by (intro int_div_pos_eq [of _ _ _ "4 * n4 + n1"]) (auto simp: y)
    show "y div 400 = n400"
      using b c e by (intro int_div_pos_eq [of _ _ _ "100 * n100 + 4 * n4 + n1"]) (auto simp: y)
  qed
  show "d = days_before_year (y + 1) + yd"
    unfolding days_before_year_def using divs
    by (simp add: yd y d3_def d2_def d1_def)
  show "0 \<le> yd" by (fact e)
  show "yd < (if leap_year (y + 1) then 366 else 365)"
  proof (cases "yd = 365")
    case True
    then have "n1 = 3" "d3 = 1460" using e by auto
    moreover have "n100 = 3" if "n4 = 24" using that \<open>d3 = 1460\<close> c(5) b(2) by force
    ultimately have next_year: "y + 1 = 4 * (100 * n400 + 25 * n100 + n4 + 1)"
      "y + 1 = 100 * (4 * n400 + n100) + 4 * (n4 + 1)" "n4 = 24 \<Longrightarrow> y + 1 = 400 * (n400 + 1)"
      using c by (auto simp: y)
    have "(y + 1) mod 4 = 0" unfolding next_year(1) by simp
    moreover have "(y + 1) mod 400 = 0" if "n4 = 24" unfolding next_year(3) [OF that] by simp
    moreover have "(y + 1) mod 100 \<noteq> 0" if "n4 \<noteq> 24"
    proof -
      have "(y + 1) mod 100 = 4 * (n4 + 1) mod 100" unfolding next_year(2) by (rule mod_mult_self4)
      also have "\<dots> = 4 * (n4 + 1)" using c that by (intro mod_pos_pos_trivial) auto
      finally show ?thesis using c by simp
    qed
    ultimately show ?thesis using True by (cases "n4 = 24") (simp_all add: leap_year_def)
  qed (use e in auto)
qed

lemma month_day_sum:
  assumes "month_day ns m0 d = (m, r)" "0 \<le> d" "d < sum_list ns" "ns \<noteq> []"
  shows "m0 \<le> m \<and> m < m0 + int (length ns) \<and> d = sum_list (take (nat (m - m0)) ns) + r \<and>
    0 \<le> r \<and> r < ns ! nat (m - m0)"
  using assms
proof (induction ns m0 d rule: month_day.induct)
  case (3 n n' ns m0 d)
  show ?case
  proof (cases "d < n")
    case True
    with 3 show ?thesis by auto
  next
    case False
    with 3 have "m0 + 1 \<le> m \<and> m < m0 + 1 + int (length (n' # ns)) \<and>
        d - n = sum_list (take (nat (m - (m0 + 1))) (n' # ns)) + r \<and> 0 \<le> r \<and> r < (n' # ns) ! nat (m - (m0 + 1))"
      by auto
    moreover from this have "nat (m - m0) = Suc (nat (m - (m0 + 1)))" by linarith
    ultimately show ?thesis by auto
  qed
qed auto

lemma month_lengths_sum: "sum_list (month_lengths y) = (if leap_year y then 366 else 365)"
  by (simp add: month_lengths_def)

lemma civil_day_number:
  assumes "civil days = (y, m, d)"
  shows "day_number y m d = days" "1 \<le> m" "m \<le> 12" "date_ok y m d"
proof -
  obtain y0 yd where yy: "year_yday days = (y0, yd)" by fastforce
  obtain m' d' where md: "month_day (month_lengths (y0 + 1)) 1 yd = (m', d')" by fastforce
  from assms have eq: "y = y0 + 1" "m = m'" "d = d' + 1" by (simp_all add: civil_def yy md)
  note days = year_yday_days [OF yy]
  have "yd < sum_list (month_lengths (y0 + 1))" using days(3) by (simp add: month_lengths_sum)
  from month_day_sum [OF md days(2) this] have s: "1 \<le> m'" "m' < 1 + int (length (month_lengths (y0 + 1)))"
    "yd = sum_list (take (nat (m' - 1)) (month_lengths (y0 + 1))) + d'" "0 \<le> d'"
    "d' < month_lengths (y0 + 1) ! nat (m' - 1)"
    by (auto simp: month_lengths_def)
  show "day_number y m d = days" using days(1) s(3) by (simp add: day_number_def eq)
  show "1 \<le> m" "m \<le> 12" using s(1,2) by (simp_all add: eq month_lengths_def)
  show "date_ok y m d" using s(4,5) by (simp add: date_ok_def eq)
qed

section \<open>Reading the canonical text back\<close>

lemma digit_decimal [simp]: "decimal (digit n)"
  and digit_value_digit [simp]: "digit_value (digit n) = n mod 10"
  and byte_digit [simp]: "byte (digit n) - 48 = nat (n mod 10)"
proof -
  have "nat (n mod 10) < 10" by (simp add: nat_less_iff)
  note d = digit_char [OF this]
  then show "decimal (digit n)" "byte (digit n) - 48 = nat (n mod 10)" by (simp_all add: digit_def)
  have "byte (digit n) = 48 + nat (n mod 10)"
    using \<open>nat (n mod 10) < 10\<close> by (simp add: digit_def)
  then show "digit_value (digit n) = n mod 10" by (simp add: digit_value_def)
qed

lemma digits_length [simp]: "length (digits k n) = k"
  by (induction k n rule: digits.induct) auto

lemma digits_decimal [simp]: "list_all decimal (digits k n)"
  by (induction k n rule: digits.induct) auto

lemma decimal_value_digits: "0 \<le> n \<Longrightarrow> int (decimal_value (digits k n)) = n mod 10 ^ k"
proof (induction k n rule: digits.induct)
  case (2 k n)
  then have "int (decimal_value (digits k (n div 10))) = n div 10 mod 10 ^ k"
    by (simp add: pos_imp_zdiv_nonneg_iff)
  then have "int (decimal_value (digits (Suc k) n)) = 10 * (n div 10 mod 10 ^ k) + n mod 10"
    by (simp add: decimal_value_def)
  also have "\<dots> = n mod (10 * 10 ^ k)"
    by (simp add: zmod_zmult2_eq)
  finally show ?case by simp
qed (simp add: decimal_value_def)

lemma getnum_digits: "0 \<le> n \<Longrightarrow> n < 100 \<Longrightarrow> getnum fixed (digits 2 n @ s) = Some (n, s)"
  by (simp add: numeral_2_eq_2 mod_pos_pos_trivial)

lemma four_digits_digits: "0 \<le> n \<Longrightarrow> n < 10000 \<Longrightarrow> four_digits (digits 4 n @ s) = Some (n, s)"
  using decimal_value_digits [of n 4] by (simp add: four_digits_def)

lemma literal_Cons [simp]: "literal c (c # s) = Some s"
  by (simp add: literal_def)

lemma fraction_digits:
  assumes "0 \<le> n" "n < 1000"
  shows "any_fraction (CHR ''.'' # digits 3 n @ ''Z'') = Some (n * 1000000, ''Z'')"
    and "milli_fraction (CHR ''.'' # digits 3 n @ ''Z'') = Some (n * 1000000, ''Z'')"
proof -
  have atoi: "atoi (digits 3 n) = Some n"
  proof -
    have "decimal (hd (digits 3 n))" by (simp add: numeral_3_eq_3)
    then have "\<not> prefix ''-'' (digits 3 n)" "\<not> prefix ''+'' (digits 3 n)"
      by (auto simp: prefix_def decimal_def)
    then show ?thesis using assms decimal_value_digits [of n 3] by (simp add: atoi_def)
  qed
  then have nanos: "parseNanoseconds (CHR ''.'' # digits 3 n) = Some (n * 1000000)"
    using assms by (simp add: parseNanoseconds_def commaOrPeriod_def)
  have "takeWhile decimal (digits 3 n @ ''Z'') = digits 3 n" "dropWhile decimal (digits 3 n @ ''Z'') = ''Z''"
    using digits_decimal [of 3 n] by (auto simp: list_all_iff takeWhile_append dropWhile_append decimal_def)
  moreover obtain d t where "digits 3 n = d # t" "decimal d" by (auto simp: numeral_3_eq_3)
  ultimately show "any_fraction (CHR ''.'' # digits 3 n @ ''Z'') = Some (n * 1000000, ''Z'')"
    using nanos by (simp add: any_fraction_def commaOrPeriod_def)
  show "milli_fraction (CHR ''.'' # digits 3 n @ ''Z'') = Some (n * 1000000, ''Z'')"
    using nanos by (simp add: milli_fraction_def)
qed

lemma zone_Z [simp]: "zone_offset ''Z'' = Some (0, [])" "plain_zone ''Z'' = Some (0, [])"
  by (simp_all add: zone_offset_def plain_zone_def)

lemma parse_clock_text:
  assumes "0 \<le> h" "h < 24" "0 \<le> m" "m < 60" "0 \<le> sec" "sec < 60"
  shows "parse_clock (digits 2 h @ CHR '':'' # digits 2 m @ CHR '':'' # digits 2 sec @ s) =
    Some (h * 3600 + m * 60 + sec, s)"
  using assms by (simp add: parse_clock_def number_between_def getnum_digits)

lemma parse_date_text:
  assumes "0 \<le> y" "y < 10000" "1 \<le> m" "m \<le> 12" "0 \<le> d" "d < 100"
  shows "parse_date (digits 4 y @ CHR ''-'' # digits 2 m @ CHR ''-'' # digits 2 d @ s) = Some ((y, m, d), s)"
  using assms by (simp add: parse_date_def number_between_def getnum_digits four_digits_digits)

lemma date_ok_small: "date_ok y m d \<Longrightarrow> 1 \<le> m \<Longrightarrow> m \<le> 12 \<Longrightarrow> d < 100"
proof -
  assume d: "date_ok y m d" and m: "1 \<le> m" "m \<le> 12"
  have "nat (m - 1) < length (month_lengths y)" using m by (simp add: month_lengths_def)
  then have "month_lengths y ! nat (m - 1) \<in> set (month_lengths y)" by (rule nth_mem)
  then have "month_lengths y ! nat (m - 1) \<le> 31" by (auto simp: month_lengths_def split: if_splits)
  with d show ?thesis by (simp add: date_ok_def)
qed

text \<open>The year of an instant before the year 10000 has at most four digits.\<close>

definition year_10000 :: time where
  "year_10000 = days_before_year 10000 * nanos_per_day"

lemma days_before_year_mono: "x \<le> y \<Longrightarrow> days_before_year x \<le> days_before_year y"
proof -
  assume le: "x \<le> y"
  have "(x - 1) div 100 \<le> (y - 1) div 100" "(x - 1) div 4 \<le> (y - 1) div 4" "(x - 1) div 400 \<le> (y - 1) div 400"
    using le by (simp_all add: zdiv_mono1)
  moreover have "(y - 1) div 100 - (x - 1) div 100 \<le> y - x"
  proof -
    have "(y - 1) div 100 \<le> ((x - 1) + (y - x) * 100) div 100" using le by (intro zdiv_mono1) auto
    also have "\<dots> = (y - x) + (x - 1) div 100" by (rule div_mult_self1) simp
    finally show ?thesis by simp
  qed
  moreover have "365 * (x - 1) + a - b + c \<le> 365 * (y - 1) + a' - b' + c'"
    if "a \<le> a'" "b' - b \<le> y - x" "c \<le> c'" for a b c a' b' c'
    using le that by presburger
  ultimately show ?thesis unfolding days_before_year_def by blast
qed

lemma civil_year_range:
  assumes "civil (t div nanos_per_day) = (y, m, d)" "0 \<le> t" "t < year_10000"
  shows "0 \<le> y" "y < 10000"
proof -
  obtain y0 yd where yy: "year_yday (t div nanos_per_day) = (y0, yd)" by fastforce
  then have y: "y = y0 + 1" using assms(1) by (auto simp: civil_def split: prod.splits)
  note days = year_yday_days [OF yy, folded y]
  have pos: "0 \<le> t div nanos_per_day" using assms(2) by (simp add: pos_imp_zdiv_nonneg_iff nanos_per_day_def)
  have less: "t div nanos_per_day < days_before_year 10000"
  proof -
    have "nanos_per_day * (t div nanos_per_day) \<le> t"
      using mult_div_mod_eq [of nanos_per_day t] pos_mod_sign [of nanos_per_day t] by (simp add: nanos_per_day_def)
    also have "t < nanos_per_day * days_before_year 10000" using assms(3) by (simp add: year_10000_def mult.commute)
    finally show ?thesis by (simp add: nanos_per_day_def)
  qed
  show "y < 10000"
  proof (rule ccontr)
    assume "\<not> y < 10000"
    then have "days_before_year 10000 \<le> days_before_year y" by (intro days_before_year_mono) simp
    with days less show False by linarith
  qed
  show "0 \<le> y"
  proof (rule ccontr)
    assume "\<not> 0 \<le> y"
    then have "days_before_year y \<le> days_before_year (-1)" by (intro days_before_year_mono) simp
    also have "\<dots> = - 731" by (simp add: days_before_year_def)
    finally show False using days pos by (auto split: if_splits)
  qed
qed

lemma time_parse_format:
  assumes "0 \<le> t" "t < year_10000"
    and fr: "\<And>n. 0 \<le> n \<Longrightarrow> n < 1000 \<Longrightarrow> fr (CHR ''.'' # digits 3 n @ ''Z'') = Some (n * 1000000, ''Z'')"
    and zn: "zn ''Z'' = Some (0, [])"
  shows "time_parse fr zn (FormatUTCMillis t) = Some (truncateToMillisecond t)"
proof -
  define ms where "ms = (t mod nanos_per_day) div millisecond"
  define h mi se ml where "h = ms div 3600000" and "mi = ms div 60000 mod 60"
    and "se = ms div 1000 mod 60" and "ml = ms mod 1000"
  obtain y m d where c: "civil (t div nanos_per_day) = (y, m, d)" by (cases "civil (t div nanos_per_day)") auto
  note cal = civil_day_number [OF c]
  have dd: "0 \<le> d" "d < 100" using cal date_ok_small by (auto simp: date_ok_def)
  have md: "0 \<le> t mod nanos_per_day" "t mod nanos_per_day < nanos_per_day"
    by (simp_all add: nanos_per_day_def)
  then have ms: "0 \<le> ms" "ms < 86400000"
    unfolding ms_def nanos_per_day_def by (simp_all add: pos_imp_zdiv_nonneg_iff div_less_iff_less_mult)
  have fields: "0 \<le> h" "h < 24" "0 \<le> mi" "mi < 60" "0 \<le> se" "se < 60" "0 \<le> ml" "ml < 1000"
    using ms unfolding h_def mi_def se_def ml_def by (simp_all add: pos_imp_zdiv_nonneg_iff div_less_iff_less_mult)
  have canon: "FormatUTCMillis t = digits 4 y @ CHR ''-'' # digits 2 m @ CHR ''-'' # digits 2 d @ CHR ''T'' #
      digits 2 h @ CHR '':'' # digits 2 mi @ CHR '':'' # digits 2 se @ CHR ''.'' # digits 3 ml @ ''Z''"
    unfolding FormatUTCMillis_def by (simp add: c Let_def ms_def h_def mi_def se_def ml_def)
  have "time_parse fr zn (FormatUTCMillis t) =
      Some ((day_number y m d * 86400 + (h * 3600 + mi * 60 + se)) * 1000000000 + ml * 1000000)"
    unfolding time_parse_def canon
    using parse_date_text [OF civil_year_range [OF c assms(1,2)] cal(2,3) dd] parse_clock_text [OF fields(1-6)]
      fr [OF fields(7,8)] zn cal(4)
    by simp
  also have "(day_number y m d * 86400 + (h * 3600 + mi * 60 + se)) * 1000000000 + ml * 1000000 =
      truncateToMillisecond t"
  proof -
    have "ms = h * 3600000 + mi * 60000 + se * 1000 + ml"
    proof -
      have "ms div 60000 = ms div 1000 div 60" "ms div 3600000 = ms div 60000 div 60"
        using zdiv_zmult2_eq [of 60 ms 1000] zdiv_zmult2_eq [of 60 ms 60000] by simp_all
      then show ?thesis
        using div_mult_mod_eq [of ms 1000] div_mult_mod_eq [of "ms div 1000" 60] div_mult_mod_eq [of "ms div 60000" 60]
        unfolding h_def mi_def se_def ml_def by linarith
    qed
    then have "(day_number y m d * 86400 + (h * 3600 + mi * 60 + se)) * 1000000000 + ml * 1000000 =
        t div nanos_per_day * nanos_per_day + ms * 1000000"
      by (simp add: cal(1) nanos_per_day_def)
    also have "ms * 1000000 = t mod nanos_per_day - t mod nanos_per_day mod millisecond"
      unfolding ms_def using div_mult_mod_eq [of "t mod nanos_per_day" millisecond] by linarith
    also have "t mod nanos_per_day mod millisecond = t mod millisecond"
      by (rule mod_mod_cancel) (simp add: nanos_per_day_def)
    finally show ?thesis
      using div_mult_mod_eq [of t nanos_per_day] by (simp add: truncateToMillisecond_def)
  qed
  finally show ?thesis .
qed

text \<open>C40. Timestamps survive storage: for every instant before the year 10000, the canonical text the program writes
  into the database reads back, under each of the layouts the program reads, as the instant truncated to its
  millisecond.\<close>

theorem timestamp_round_trip:
  assumes "0 \<le> t" "t < year_10000"
  shows "ParseChatTime (FormatUTCMillis t) = Inr (truncateToMillisecond t) \<and>
    parseTimestamp (FormatUTCMillis t) = Inr (truncateToMillisecond t) \<and>
    parseNullableTimestamp (FormatUTCMillisPtr (Some t)) = Inr (Some (truncateToMillisecond t)) \<and>
    parse_utc_millis (FormatUTCMillis t) = Some (truncateToMillisecond t)"
  using time_parse_format [where fr = any_fraction and zn = zone_offset, OF assms fraction_digits(1) zone_Z(1)]
    time_parse_format [where fr = milli_fraction and zn = plain_zone, OF assms fraction_digits(2) zone_Z(2)]
  by (simp add: ParseChatTime_def parseTimestamp_def parseNullableTimestamp_def parse_rfc3339_nano_def
      parse_utc_millis_def)

text \<open>The leap day 2024-02-29 at 23:59:59.999999999.\<close>

lemma timestamp_round_trip_witness:
  "ParseChatTime (FormatUTCMillis 63844847999999999999) = Inr 63844847999999000000"
  using timestamp_round_trip [of 63844847999999999999]
  by (simp add: year_10000_def days_before_year_def nanos_per_day_def truncateToMillisecond_def)

end
