(* ===== verification/Chat_Import.thy ===== *)
theory Chat_Import
  imports Json_Any Time_Text Local_Files
begin

text \<open>\<open>chatimport/chatimport.go\<close>: agents' transcripts read into a chat session and its items. A decoded row is a
  \<^typ>\<open>payload\<close>; a path given as text stays a text until a file is opened.\<close>

section \<open>Strings\<close>

text \<open>\<open>strings.ToLower\<close>, as far as comparisons with ASCII texts can tell: outside ASCII only the Kelvin sign
  and the dotted capital I have an ASCII letter as their lower case.\<close>

fun to_lower :: "string \<Rightarrow> string" where
  "to_lower (a # b # c # s) =
    (if [a, b, c] = [CHR 0xE2, CHR 0x84, CHR 0xAA] then CHR ''k'' # to_lower s
     else if [a, b] = [CHR 0xC4, CHR 0xB0] then CHR ''i'' # to_lower (c # s)
     else lower_ascii [a] @ to_lower (b # c # s))"
| "to_lower s = (if s = [CHR 0xC4, CHR 0xB0] then ''i'' else lower_ascii s)"

definition contains :: "string \<Rightarrow> string \<Rightarrow> bool" where
  "contains s t = list_ex (prefix t) (suffixes s)"

definition trim_suffix :: "string \<Rightarrow> string \<Rightarrow> string" where
  "trim_suffix s t = (if suffix t s then take (length s - length t) s else s)"

text \<open>The UTF-8 texts of the runes of a string; a malformed byte is the replacement character.\<close>

function runes :: "string \<Rightarrow> string list" where
  "runes [] = []"
| "runes (c # s) =
    (let k = rune_len (c # s) in
     if k = 0 then replacement # runes s else take k (c # s) # runes (drop k (c # s)))"
  by pat_completeness auto
termination
  by (relation "measure length") auto

definition truncate_runes :: "string \<Rightarrow> nat \<Rightarrow> string" where
  "truncate_runes s limit =
    (let rs = runes s in
     if length rs \<le> limit then s
     else if limit \<le> 3 then concat (take limit rs)
     else concat (take (limit - 3) rs) @ ''...'')"

text \<open>\<open>filepath.Clean\<close>, \<open>filepath.Join\<close> and \<open>filepath.Dir\<close> of a path's text.\<close>

definition filepath_clean :: "string \<Rightarrow> string" where
  "filepath_clean s =
    (let parts = split_at (CHR ''/'') s in
     if prefix ''/'' s then path_text (dropWhile (\<lambda>c. c = ''..'') (clean_onto [] parts))
     else let p = clean_onto [] parts in if p = [] then ''.'' else join_at (CHR ''/'') p)"

definition join_text :: "string list \<Rightarrow> string" where
  "join_text elems =
    (let es = dropWhile (\<lambda>e. e = []) elems in
     if es = [] then [] else filepath_clean (join_at (CHR ''/'') es))"

definition dir_text :: "string \<Rightarrow> string" where
  "dir_text s = filepath_clean (rev (dropWhile (\<lambda>c. c \<noteq> CHR ''/'') (rev s)))"

definition NormalizeAgentName :: "string \<Rightarrow> error + string" where
  "NormalizeAgentName agent =
    (let a = trim_space (to_lower agent) in
     if a = [] then Inr []
     else if a = ''codex'' then Inr ''codex''
     else if a \<in> {''claude'', ''claude-code'', ''claude_code''} then Inr ''claude_code''
     else if a = ''gemini'' then Inr ''gemini''
     else Inl (Plain ''unknown agent''))"

section \<open>Fields of a row\<close>

definition string_of :: "json option \<Rightarrow> string option" where
  "string_of v = (case v of Some (JString s) \<Rightarrow> if trim_space s = [] then None else Some (trim_space s) | _ \<Rightarrow> None)"

definition stringField :: "payload \<Rightarrow> string \<Rightarrow> string option" where
  "stringField p key = string_of (map_of p key)"

definition firstString :: "payload \<Rightarrow> string list \<Rightarrow> string" where
  "firstString p keys = (case first_some (stringField p) keys of None \<Rightarrow> [] | Some s \<Rightarrow> s)"

definition block_text :: "json \<Rightarrow> string list" where
  "block_text v =
    (case v of
       JObject m \<Rightarrow> let t = firstString m [''text'', ''content''] in if t = [] then [] else [t]
     | _ \<Rightarrow> [])"

definition contentText :: "json option \<Rightarrow> string" where
  "contentText v =
    (case v of
       Some (JString s) \<Rightarrow> s
     | Some (JArray vs) \<Rightarrow> join_at (CHR 0x0A) (concat (List.map block_text vs))
     | Some (JObject m) \<Rightarrow> firstString m [''text'', ''content'']
     | _ \<Rightarrow> [])"

lemma map_of_size: "map_of m k = Some v \<Longrightarrow> size v < size (JObject m)"
proof -
  assume "map_of m k = Some v"
  then have "(k, v) \<in> set m" by (rule map_of_SomeD)
  then show ?thesis by (induction m) auto
qed

function contentHasToolPayload :: "json \<Rightarrow> bool" where
  "contentHasToolPayload (JArray vs) = list_ex contentHasToolPayload vs"
| "contentHasToolPayload (JObject m) =
    (contains (to_lower (firstString m [''type'', ''item_type''])) ''tool'' \<or>
     (case map_of m ''content'' of None \<Rightarrow> False | Some v \<Rightarrow> contentHasToolPayload v))"
| "contentHasToolPayload JNull = False"
| "contentHasToolPayload (JBool b) = False"
| "contentHasToolPayload (JNumber n) = False"
| "contentHasToolPayload (JString s) = False"
  by pat_completeness auto
termination
proof (relation "measure size")
  fix vs :: "json list" and v assume "v \<in> set vs"
  then show "(v, JArray vs) \<in> measure size"
    by (induction vs) auto
next
  fix m :: payload and v assume "map_of m ''content'' = Some v"
  then show "(v, JObject m) \<in> measure size" using map_of_size by simp
qed simp

definition itemTypeIsRoleShape :: "string \<Rightarrow> bool" where
  "itemTypeIsRoleShape v = (to_lower (trim_space v) \<in> {''user'', ''assistant'', ''system'', ''human'', ''model''})"

definition time_keys :: "string list" where
  "time_keys = [''timestamp'', ''created_at'', ''started_at'']"

definition time_field :: "payload \<Rightarrow> string \<Rightarrow> time option" where
  "time_field p key =
    (case stringField p key of
       None \<Rightarrow> None
     | Some v \<Rightarrow> (case ParseChatTime v of Inr t \<Rightarrow> Some t | Inl _ \<Rightarrow> None))"

definition hasItemPayload :: "payload \<Rightarrow> bool" where
  "hasItemPayload p = list_ex (has_key p) [''content'', ''text'', ''message'']"

section \<open>Items\<close>

definition item_role :: "payload \<Rightarrow> string" where
  "item_role p = (let r = firstString p [''role'', ''type'', ''author''] in if r = [] then ''unknown'' else r)"

definition item_type :: "payload \<Rightarrow> string" where
  "item_type p =
    (let t = firstString p [''item_type'', ''type'']; t1 = (if t = [] then ''message'' else t);
         t2 = (if itemTypeIsRoleShape t1 then ''message'' else t1) in
     if (contains (to_lower t2) ''tool'' \<or>
         (case map_of p ''content'' of None \<Rightarrow> False | Some v \<Rightarrow> contentHasToolPayload v)) \<and>
        \<not> contains (to_lower (item_role p)) ''assistant''
     then ''tool_output'' else t2)"

definition item_text :: "payload \<Rightarrow> string" where
  "item_text p =
    (let t = contentText (map_of p ''content'') in if t = [] then firstString p [''text'', ''message''] else t)"

definition itemFromPayload :: "payload \<Rightarrow> int \<Rightarrow> CreateChatItemInput" where
  "itemFromPayload p ordinal =
    \<lparr> iiSessionID = [], iiOrdinal = ordinal, iiRole = item_role p, iiItemType = item_type p,
      iiText = (if blank (item_text p) then None else Some (item_text p)), iiSearchText = item_text p,
      iiRawJSON = Some (marshal_any (JObject p)), iiCreatedAt = first_some (time_field p) time_keys \<rparr>"

section \<open>Rows\<close>

definition object_at :: "payload \<Rightarrow> string \<Rightarrow> payload option" where
  "object_at p key = (case map_of p key of Some (JObject m) \<Rightarrow> Some m | _ \<Rightarrow> None)"

text \<open>A key of the outer row that the inner one lacks.\<close>

definition inherit :: "payload \<Rightarrow> string \<Rightarrow> payload \<Rightarrow> payload" where
  "inherit line key flat =
    (if has_key flat key then flat else case map_of line key of None \<Rightarrow> flat | Some v \<Rightarrow> map_put key v flat)"

definition geminiItem :: "payload \<Rightarrow> string \<Rightarrow> string \<Rightarrow> payload" where
  "geminiItem line role itemType =
    map_delete ''type'' (map_put ''item_type'' (JString itemType) (map_put ''role'' (JString role) line))"

text \<open>The item and the session metadata of a row; a row may be the nil map (\<open>null\<close>).\<close>

definition unwrapChatLine :: "string \<Rightarrow> payload option \<Rightarrow> payload option \<times> payload option" where
  "unwrapChatLine source row =
    (let line = (case row of None \<Rightarrow> [] | Some m \<Rightarrow> m) in
     if source = ''codex'' then
       (let outerType = firstString line [''type'']; inner = object_at line ''payload'' in
        if outerType = ''session_meta'' then (None, inner)
        else if outerType = ''response_item'' then
          (case inner of None \<Rightarrow> (None, None) | Some m \<Rightarrow> (Some (inherit line ''timestamp'' m), inner))
        else if outerType = ''turn_context'' then (None, inner)
        else if outerType = ''event_msg'' then (None, None)
        else (row, row))
     else if source = ''claude_code'' then
       (let outerType = firstString line [''type''] in
        case (if outerType \<in> {''user'', ''assistant''} then object_at line ''message'' else None) of
          Some message \<Rightarrow>
            let flat = inherit line ''sessionId'' (inherit line ''cwd'' (inherit line ''timestamp'' message)) in
            (Some (if has_key flat ''role'' then flat else map_put ''role'' (JString outerType) flat), row)
        | None \<Rightarrow> if has_key line ''sessionId'' then (None, None) else (row, row))
     else if source = ''gemini'' then
       (let t = to_lower (firstString line [''type'']) in
        if t = ''gemini'' then (Some (geminiItem line ''assistant'' ''message''), None)
        else if t = ''user'' then (Some (geminiItem line ''user'' ''message''), None)
        else if t \<in> {''info'', ''error''} then (Some (geminiItem line t ''event''), None)
        else (row, None))
     else (row, row))"

section \<open>The session\<close>

record subagentContext =
  saBasename :: string
  saByPath :: bool

definition no_subagent :: subagentContext where
  "no_subagent = \<lparr> saBasename = [], saByPath = False \<rparr>"

definition applySessionTime :: "time \<Rightarrow> CreateChatSessionInput \<Rightarrow> CreateChatSessionInput" where
  "applySessionTime t s =
    (let s1 = (if is_zero (icStartedAt s) \<or> t < icStartedAt s then s \<lparr> icStartedAt := t \<rparr> else s) in
     if is_zero (icLastActivityAt s1) \<or> icLastActivityAt s1 < t then s1 \<lparr> icLastActivityAt := t \<rparr> else s1)"

text \<open>\<open>applySessionFields\<close> in its three parts: whose session it is, the working directory and the title, which
  the first header of a fork locks, and the times.\<close>

definition meta_identity :: "string \<Rightarrow> payload \<Rightarrow> CreateChatSessionInput \<Rightarrow> CreateChatSessionInput" where
  "meta_identity fallback p s =
    (let s1 = (case first_some (stringField p) [''session_id'', ''conversation_id'', ''chat_id'', ''id''] of
                 Some v \<Rightarrow>
                   if icSourceSessionID s = fallback \<or> icSourceSessionID s = v
                   then s \<lparr> icSourceSessionID := v \<rparr> else s
               | None \<Rightarrow> s) in
     if icParentSourceSessionID s1 = None
     then s1 \<lparr> icParentSourceSessionID := stringField p ''forked_from_id'' \<rparr> else s1)"

definition fork_locked :: "CreateChatSessionInput \<Rightarrow> bool" where
  "fork_locked s = (icParentSourceSessionID s \<noteq> None)"

definition meta_cwd :: "payload \<Rightarrow> CreateChatSessionInput \<Rightarrow> CreateChatSessionInput" where
  "meta_cwd p s =
    (if stringField p ''cwd'' \<noteq> None \<and> (\<not> fork_locked s \<or> icCWD s = None)
     then s \<lparr> icCWD := stringField p ''cwd'' \<rparr> else s)"

definition meta_title :: "payload \<Rightarrow> CreateChatSessionInput \<Rightarrow> CreateChatSessionInput" where
  "meta_title p s =
    (if stringField p ''title'' \<noteq> None \<and> (\<not> fork_locked s \<or> icTitle s = None)
     then s \<lparr> icTitle := stringField p ''title'' \<rparr> else s)"

definition applySessionFields :: "string \<Rightarrow> payload \<Rightarrow> CreateChatSessionInput \<Rightarrow> CreateChatSessionInput" where
  "applySessionFields fallback p s =
    (let s1 = meta_title p (meta_cwd p (meta_identity fallback p s)) in
     case first_some (time_field p) time_keys of None \<Rightarrow> s1 | Some t \<Rightarrow> applySessionTime t s1)"

definition item_identity ::
  "string \<Rightarrow> subagentContext \<Rightarrow> payload \<Rightarrow> CreateChatSessionInput \<Rightarrow> CreateChatSessionInput" where
  "item_identity fallback sub p s =
    (case first_some (stringField p) [''session_id'', ''sessionId'', ''conversation_id'', ''chat_id''] of
       None \<Rightarrow> s
     | Some v \<Rightarrow>
         let isSidechain = (map_of p ''isSidechain'' = Some (JBool True)) in
         if saBasename sub \<noteq> [] \<and> (saByPath sub \<or> isSidechain) then
           (if icParentSourceSessionID s = None
            then s \<lparr> icParentSourceSessionID := Some v, icSourceSessionID := v @ '':'' @ saBasename sub \<rparr>
            else s)
         else if icSourceSessionID s = fallback \<or> icSourceSessionID s = v
         then s \<lparr> icSourceSessionID := v \<rparr> else s)"

definition applyItemSessionFields ::
  "string \<Rightarrow> subagentContext \<Rightarrow> payload \<Rightarrow> CreateChatSessionInput \<Rightarrow> CreateChatSessionInput" where
  "applyItemSessionFields fallback sub p s =
    (let s1 = item_identity fallback sub p s;
         s2 = (if icCWD s1 = None then s1 \<lparr> icCWD := stringField p ''cwd'' \<rparr> else s1) in
     if icTitle s2 = None then s2 \<lparr> icTitle := stringField p ''title'' \<rparr> else s2)"

text \<open>The times and the default title, once all items are known; \<open>now\<close> is the clock.\<close>

definition item_time :: "CreateChatItemInput \<Rightarrow> CreateChatSessionInput \<Rightarrow> CreateChatSessionInput" where
  "item_time i s = (case iiCreatedAt i of None \<Rightarrow> s | Some t \<Rightarrow> applySessionTime t s)"

definition default_title :: "CreateChatItemInput list \<Rightarrow> CreateChatSessionInput \<Rightarrow> CreateChatSessionInput" where
  "default_title items s =
    (case items of
       i # _ \<Rightarrow>
         (case iiText i of
            Some t \<Rightarrow>
              if icTitle s = None
              then s \<lparr> icTitle := Some (truncate_runes (List.map (\<lambda>c. if c = CHR 0x0A then CHR '' '' else c) t) 80) \<rparr>
              else s
          | None \<Rightarrow> s)
     | [] \<Rightarrow> s)"

definition finalizeSessionTimes ::
  "time \<Rightarrow> CreateChatItemInput list \<Rightarrow> CreateChatSessionInput \<Rightarrow> CreateChatSessionInput" where
  "finalizeSessionTimes now items s =
    (let s1 = fold item_time items s;
         s2 = (if is_zero (icStartedAt s1) then s1 \<lparr> icStartedAt := now \<rparr> else s1);
         s3 = (if is_zero (icLastActivityAt s2) \<or> icLastActivityAt s2 < icStartedAt s2
               then s2 \<lparr> icLastActivityAt := icStartedAt s2 \<rparr> else s2) in
     default_title items s3)"

section \<open>Line transcripts\<close>

definition maxJSONLLineBytes :: nat where
  "maxJSONLLineBytes = 256 * 1024 * 1024"

text \<open>\<open>Unmarshal\<close> into a map: an object, or \<open>null\<close> for the nil map.\<close>

definition unmarshal_row :: "string \<Rightarrow> payload option option" where
  "unmarshal_row s =
    (case json_text s of
       Some JNull \<Rightarrow> Some None
     | Some (JObject ms) \<Rightarrow> map_option Some (decode_members ms [])
     | _ \<Rightarrow> None)"

type_synonym parsed = "CreateChatSessionInput \<times> CreateChatItemInput list"

definition add_row ::
  "string \<Rightarrow> string \<Rightarrow> subagentContext \<Rightarrow> payload option \<Rightarrow> parsed \<times> int \<Rightarrow> parsed \<times> int" where
  "add_row source fallback sub row st =
    (case st of ((s, items), ordinal) \<Rightarrow>
     (case unwrapChatLine source row of (itemPayload, sessionPayload) \<Rightarrow>
      (case (case itemPayload of None \<Rightarrow> None | Some p \<Rightarrow> if hasItemPayload p then Some p else None) of
         None \<Rightarrow> ((case sessionPayload of None \<Rightarrow> s | Some q \<Rightarrow> applySessionFields fallback q s, items), ordinal)
       | Some p \<Rightarrow>
           let s' = (case sessionPayload of None \<Rightarrow> s | Some q \<Rightarrow> applyItemSessionFields fallback sub q s);
               item = itemFromPayload p ordinal in
           if iiSearchText item \<noteq> [] \<or> iiRawJSON item \<noteq> None
           then ((s', items @ [item]), ordinal + 1) else ((s', items), ordinal))))"

text \<open>A line of the scanner, which gives up at a line that does not fit its buffer.\<close>

definition jsonl_line ::
  "string \<Rightarrow> string \<Rightarrow> subagentContext \<Rightarrow> string \<Rightarrow> parsed \<times> int \<Rightarrow> error + parsed \<times> int" where
  "jsonl_line source fallback sub text_line st =
    (if maxJSONLLineBytes \<le> length text_line then Inl (Wrapped ''parse'' (Plain ''bufio.Scanner: token too long''))
     else let line = trim_space text_line in
       if line = [] then Inr st
       else case unmarshal_row line of
         None \<Rightarrow> Inl (Wrapped ''parse'' (Plain ''json''))
       | Some row \<Rightarrow> Inr (add_row source fallback sub row st))"

definition parse_jsonl ::
  "string \<Rightarrow> string \<Rightarrow> subagentContext \<Rightarrow> string \<Rightarrow> parsed \<times> int \<Rightarrow> error + parsed \<times> int" where
  "parse_jsonl source fallback sub content st =
    each_result (jsonl_line source fallback sub) (split_at (CHR 0x0A) content) st"

definition parseJSONLTranscriptReader ::
  "time \<Rightarrow> string \<Rightarrow> string \<Rightarrow> CreateChatSessionInput \<Rightarrow> int \<Rightarrow> string \<Rightarrow> subagentContext \<Rightarrow> error + parsed" where
  "parseJSONLTranscriptReader now source content session ordinalStart fallback sub =
    (case parse_jsonl source fallback sub content ((session, []), ordinalStart) of
       Inl e \<Rightarrow> Inl e
     | Inr ((s, items), _) \<Rightarrow> Inr (finalizeSessionTimes now items s, items))"

end
