(* ===== verification/Sha256.thy ===== *)
theory Sha256
  imports Local_Files "HOL-Library.Word"
begin

text \<open>\<open>crypto/sha256\<close> of a byte string, as lower-case hexadecimal (\<open>hex.EncodeToString\<close>), and
  \<open>recordio.HashFile\<close>.\<close>

unbundle bit_operations_syntax

type_synonym word32 = "32 word"

definition round_constants :: "word32 list" where
  "round_constants =
    [0x428A2F98, 0x71374491, 0xB5C0FBCF, 0xE9B5DBA5, 0x3956C25B, 0x59F111F1, 0x923F82A4, 0xAB1C5ED5,
     0xD807AA98, 0x12835B01, 0x243185BE, 0x550C7DC3, 0x72BE5D74, 0x80DEB1FE, 0x9BDC06A7, 0xC19BF174,
     0xE49B69C1, 0xEFBE4786, 0x0FC19DC6, 0x240CA1CC, 0x2DE92C6F, 0x4A7484AA, 0x5CB0A9DC, 0x76F988DA,
     0x983E5152, 0xA831C66D, 0xB00327C8, 0xBF597FC7, 0xC6E00BF3, 0xD5A79147, 0x06CA6351, 0x14292967,
     0x27B70A85, 0x2E1B2138, 0x4D2C6DFC, 0x53380D13, 0x650A7354, 0x766A0ABB, 0x81C2C92E, 0x92722C85,
     0xA2BFE8A1, 0xA81A664B, 0xC24B8B70, 0xC76C51A3, 0xD192E819, 0xD6990624, 0xF40E3585, 0x106AA070,
     0x19A4C116, 0x1E376C08, 0x2748774C, 0x34B0BCB5, 0x391C0CB3, 0x4ED8AA4A, 0x5B9CCA4F, 0x682E6FF3,
     0x748F82EE, 0x78A5636F, 0x84C87814, 0x8CC70208, 0x90BEFFFA, 0xA4506CEB, 0xBEF9A3F7, 0xC67178F2]"

definition initial_hash :: "word32 list" where
  "initial_hash = [0x6A09E667, 0xBB67AE85, 0x3C6EF372, 0xA54FF53A, 0x510E527F, 0x9B05688C, 0x1F83D9AB, 0x5BE0CD19]"

section \<open>The compression function\<close>

definition small_sigma0 :: "word32 \<Rightarrow> word32" where
  "small_sigma0 x = word_rotr 7 x XOR word_rotr 18 x XOR drop_bit 3 x"

definition small_sigma1 :: "word32 \<Rightarrow> word32" where
  "small_sigma1 x = word_rotr 17 x XOR word_rotr 19 x XOR drop_bit 10 x"

definition big_sigma0 :: "word32 \<Rightarrow> word32" where
  "big_sigma0 x = word_rotr 2 x XOR word_rotr 13 x XOR word_rotr 22 x"

definition big_sigma1 :: "word32 \<Rightarrow> word32" where
  "big_sigma1 x = word_rotr 6 x XOR word_rotr 11 x XOR word_rotr 25 x"

definition next_word :: "word32 list \<Rightarrow> word32" where
  "next_word ws =
    (let t = length ws in
     small_sigma1 (ws ! (t - 2)) + ws ! (t - 7) + small_sigma0 (ws ! (t - 15)) + ws ! (t - 16))"

definition schedule :: "word32 list \<Rightarrow> word32 list" where
  "schedule ws = ((\<lambda>ws. ws @ [next_word ws]) ^^ 48) ws"

definition hash_round :: "word32 \<times> word32 \<Rightarrow> word32 list \<Rightarrow> word32 list" where
  "hash_round kw hs =
    (case (kw, hs) of
       ((k, w), [a, b, c, d, e, f, g, h]) \<Rightarrow>
         let t1 = h + big_sigma1 e + ((e AND f) XOR (NOT e AND g)) + k + w;
             t2 = big_sigma0 a + ((a AND b) XOR (a AND c) XOR (b AND c)) in
         [t1 + t2, a, b, c, d + t1, e, f, g]
     | _ \<Rightarrow> hs)"

definition compress :: "word32 list \<Rightarrow> word32 list \<Rightarrow> word32 list" where
  "compress block hs = List.map2 (+) hs (fold hash_round (zip round_constants (schedule block)) hs)"

section \<open>Messages\<close>

definition big_endian :: "nat \<Rightarrow> nat \<Rightarrow> string" where
  "big_endian k n = List.map (\<lambda>i. char_of (n div 256 ^ i mod 256)) (rev [0..<k])"

definition pad_message :: "string \<Rightarrow> string" where
  "pad_message s =
    s @ [CHR 0x80] @ replicate ((119 - length s mod 64) mod 64) (CHR 0x00) @
    big_endian 8 (8 * length s mod 2 ^ 64)"

fun words_of :: "string \<Rightarrow> word32 list" where
  "words_of (a # b # c # d # s) =
    of_nat (((of_char a * 256 + of_char b) * 256 + of_char c) * 256 + of_char d) # words_of s"
| "words_of s = []"

function blocks_of :: "word32 list \<Rightarrow> word32 list list" where
  "blocks_of ws = (if ws = [] then [] else take 16 ws # blocks_of (drop 16 ws))"
  by pat_completeness auto
termination
  by (relation "measure length") auto

declare blocks_of.simps [simp del]

definition sha256 :: "string \<Rightarrow> string" where
  "sha256 s =
    concat (List.map (\<lambda>w. big_endian 4 (unat w)) (fold compress (blocks_of (words_of (pad_message s))) initial_hash))"

definition sha256_hex :: "string \<Rightarrow> string" where
  "sha256_hex s = hex_encode (sha256 s)"

text \<open>\<open>recordio.HashFile\<close>.\<close>

definition HashFile :: "path \<Rightarrow> (files, string) act" where
  "HashFile p =
    sq (wrap ''open file for hashing'' (open_file p))
      (bnd (wrap ''hash file'' (read_file p)) (\<lambda>content. ret (sha256_hex content)))"

end
