(* ===== verification/Chat_Transcript.thy ===== *)
theory Chat_Transcript
  imports Chat_Import Sha256 "HOL-Library.AList"
begin

text \<open>\<open>chatimport/chatimport.go\<close>, the files: JSON transcripts (one object with an array of items), line
  transcripts and their appended ranges, the attribution of Gemini sessions to a project, and the search for
  transcript files. Relative paths are taken from the working directory \<open>cwd\<close>; \<open>now\<close> is the clock. A file
  that cannot be read to its end is reported as such, also when a line before the end would not parse.\<close>

section \<open>Identity\<close>

definition ErrEmptyTranscript :: error where
  "ErrEmptyTranscript = Plain ''transcript has no chat items''"

definition base_without_ext :: "string \<Rightarrow> string" where
  "base_without_ext path = trim_suffix (filepath_base path) (filepath_ext path)"

definition geminiSourceSessionID :: "string \<Rightarrow> string \<Rightarrow> string" where
  "geminiSourceSessionID path base =
    (let dir = dir_text path; parent = filepath_base dir; grandparent = filepath_base (dir_text dir) in
     if parent \<in> {''.'', ''/''} then base
     else if grandparent \<notin> {''.'', ''/''} then grandparent @ ''/'' @ parent @ ''/'' @ base
     else parent @ ''/'' @ base)"

definition newTranscriptSession :: "path \<Rightarrow> string \<Rightarrow> string \<Rightarrow> CreateChatSessionInput" where
  "newTranscriptSession cwd source path =
    \<lparr> icID = [], icSource = source,
      icSourceSessionID =
        (if source = ''gemini'' then geminiSourceSessionID path (base_without_ext path) else base_without_ext path),
      icParentSourceSessionID = None, icSourceDeviceID = [], icProjectID = None, icCWD = None, icTitle = None,
      icStartedAt = 0, icLastActivityAt = 0, icOriginalSourcePath = Some (path_text (filepath_abs cwd path)),
      icRawSourceKey = None, icCreatedAt = None, icUpdatedAt = None, icDeletedAt = None \<rparr>"

section \<open>Line transcripts\<close>

definition subagent_of :: "string \<Rightarrow> string \<Rightarrow> subagentContext" where
  "subagent_of source path =
    (if source = ''claude_code''
     then \<lparr> saBasename = base_without_ext path, saByPath = contains path ''/subagents/'' \<rparr>
     else no_subagent)"

definition nonempty_transcript :: "parsed \<Rightarrow> error + parsed" where
  "nonempty_transcript r = (if snd r = [] then Inl ErrEmptyTranscript else Inr r)"

definition parseJSONLTranscript :: "path \<Rightarrow> time \<Rightarrow> string \<Rightarrow> string \<Rightarrow> (files, parsed) act" where
  "parseJSONLTranscript cwd now source path =
    sq (open_file (filepath_abs cwd path))
      (let session = newTranscriptSession cwd source path in
       bnd (wrap ''parse'' (read_file (filepath_abs cwd path))) (\<lambda>content.
       bnd (lift_result (parseJSONLTranscriptReader now source content session 0 (icSourceSessionID session)
              (subagent_of source path))) (\<lambda>r.
       lift_result (nonempty_transcript r))))"

definition line_extension :: "string \<Rightarrow> bool" where
  "line_extension ext = (ext \<in> {''.jsonl'', ''.ndjson''})"

definition ParseAppendedJSONLTranscript ::
  "path \<Rightarrow> time \<Rightarrow> string \<Rightarrow> string \<Rightarrow> int \<Rightarrow> int \<Rightarrow> CreateChatSessionInput \<Rightarrow> int \<Rightarrow> (files, parsed) act" where
  "ParseAppendedJSONLTranscript cwd now source path offset limit base ordinalStart =
    (if offset < 0 \<or> limit < 0 \<or> ordinalStart < 0 then fail (Plain ''invalid appended transcript range'')
     else if \<not> line_extension (to_lower (filepath_ext path))
     then fail (Plain ''unsupported append transcript extension'')
     else
       sq (open_file (filepath_abs cwd path))
       (sq (wrap ''seek appended transcript range'' disk_plain)
       (bnd (wrap ''parse'' (read_file (filepath_abs cwd path))) (\<lambda>content.
        lift_result (parseJSONLTranscriptReader now source (take (nat limit) (drop (nat offset) content)) base
          ordinalStart [] no_subagent)))))"

section \<open>JSON transcripts\<close>

definition jsonTranscriptArrayKeys :: "string list" where
  "jsonTranscriptArrayKeys = [''messages'', ''items'', ''transcript'']"

definition isJSONTranscriptSessionFieldKey :: "string \<Rightarrow> bool" where
  "isJSONTranscriptSessionFieldKey key =
    (key \<in> {''session_id'', ''conversation_id'', ''chat_id'', ''id'', ''cwd'', ''title'', ''timestamp'',
      ''created_at'', ''started_at''})"

record jsonTranscriptScan =
  jsSessionFields :: "(string \<times> string) list"
  jsArrays :: "(string \<times> nat \<times> bool) list" \<comment> \<open>how often the key occurred; whether it last had an array\<close>

text \<open>The members of the object in the order of the text. The tokens of every value are read, so a number out
  of range is an error anywhere.\<close>

definition scan_member :: "string \<times> json \<Rightarrow> jsonTranscriptScan \<Rightarrow> jsonTranscriptScan" where
  "scan_member kv scan =
    (case kv of (key, v) \<Rightarrow>
     if key \<in> set jsonTranscriptArrayKeys then
       (let n = (case map_of (jsArrays scan) key of None \<Rightarrow> 0 | Some (n, _) \<Rightarrow> n) in
        scan \<lparr> jsArrays := AList.update key (Suc n, case v of JArray _ \<Rightarrow> True | _ \<Rightarrow> False) (jsArrays scan) \<rparr>)
     else if isJSONTranscriptSessionFieldKey key then
       (case string_of (Some v) of
          Some s \<Rightarrow> scan \<lparr> jsSessionFields := AList.update key s (jsSessionFields scan) \<rparr>
        | None \<Rightarrow> scan \<lparr> jsSessionFields := AList.delete key (jsSessionFields scan) \<rparr>)
     else scan)"

definition transcript_members :: "string \<Rightarrow> (string \<times> json) list option" where
  "transcript_members content =
    (case json_value (length content) content of
       Some (JObject ms, _) \<Rightarrow> Some ms
     | _ \<Rightarrow> None)"

definition scanJSONTranscript :: "string \<Rightarrow> error + jsonTranscriptScan" where
  "scanJSONTranscript content =
    (case transcript_members content of
       None \<Rightarrow> Inl (Plain ''expected JSON object transcript'')
     | Some ms \<Rightarrow>
         if list_ex (\<lambda>(_, v). decode_any v = None) ms then Inl (Plain ''json: number out of range'')
         else Inr (fold scan_member ms \<lparr> jsSessionFields = [], jsArrays = [] \<rparr>))"

definition selectedArray :: "jsonTranscriptScan \<Rightarrow> (string \<times> nat) option" where
  "selectedArray scan =
    first_some (\<lambda>key. case map_of (jsArrays scan) key of
        Some (n, True) \<Rightarrow> Some (key, n)
      | _ \<Rightarrow> None) jsonTranscriptArrayKeys"

text \<open>\<open>jsonTranscriptSessionFields.applyTo\<close>.\<close>

definition fields_applyTo :: "(string \<times> string) list \<Rightarrow> CreateChatSessionInput \<Rightarrow> CreateChatSessionInput" where
  "fields_applyTo fs s =
    (let s1 = (case first_some (map_of fs) [''session_id'', ''conversation_id'', ''chat_id'', ''id''] of
                 None \<Rightarrow> s | Some v \<Rightarrow> s \<lparr> icSourceSessionID := v \<rparr>);
         s2 = (case map_of fs ''cwd'' of None \<Rightarrow> s1 | Some v \<Rightarrow> s1 \<lparr> icCWD := Some v \<rparr>);
         s3 = (case map_of fs ''title'' of None \<Rightarrow> s2 | Some v \<Rightarrow> s2 \<lparr> icTitle := Some v \<rparr>) in
     case first_some (\<lambda>key. case map_of fs key of
              None \<Rightarrow> None
            | Some v \<Rightarrow> (case ParseChatTime v of Inr t \<Rightarrow> Some t | Inl _ \<Rightarrow> None)) time_keys of
       None \<Rightarrow> s3
     | Some t \<Rightarrow> applySessionTime t s3)"

text \<open>Each element is decoded on its own, at most 10000 levels deep; the ordinal counts all of them.\<close>

definition add_element :: "json \<Rightarrow> CreateChatItemInput list \<times> int \<Rightarrow> error + CreateChatItemInput list \<times> int" where
  "add_element v st =
    (case st of (items, ordinal) \<Rightarrow>
     if 10000 < json_depth v then Inl (Wrapped ''parse'' (Plain ''json: exceeded max depth''))
     else
       (case decode_any v of
          None \<Rightarrow> Inl (Wrapped ''parse'' (Plain ''json: number out of range''))
        | Some (JObject m) \<Rightarrow>
            let item = itemFromPayload m ordinal in
            Inr (if iiSearchText item \<noteq> [] \<or> iiRawJSON item \<noteq> None then items @ [item] else items, ordinal + 1)
        | Some _ \<Rightarrow> Inr (items, ordinal + 1)))"

definition decodeJSONTranscriptItems :: "json \<Rightarrow> error + CreateChatItemInput list" where
  "decodeJSONTranscriptItems v =
    (case v of
       JArray vs \<Rightarrow> (case each_result add_element vs ([], 0) of Inl e \<Rightarrow> Inl e | Inr (items, _) \<Rightarrow> Inr items)
     | _ \<Rightarrow> Inl (Plain ''selected transcript key is no longer an array''))"

definition parseJSONTranscriptArray :: "string \<Rightarrow> string \<Rightarrow> nat \<Rightarrow> error + CreateChatItemInput list" where
  "parseJSONTranscriptArray content key targetOccurrence =
    (case transcript_members content of
       None \<Rightarrow> Inl (Plain ''expected JSON object transcript'')
     | Some ms \<Rightarrow>
         let vs = List.map snd (filter (\<lambda>(k, _). k = key) ms) in
         if targetOccurrence = 0 \<or> length vs < targetOccurrence
         then Inl (Plain ''selected transcript array not found'')
         else decodeJSONTranscriptItems (vs ! (targetOccurrence - 1)))"

definition parseJSONTranscript :: "path \<Rightarrow> time \<Rightarrow> string \<Rightarrow> string \<Rightarrow> (files, parsed) act" where
  "parseJSONTranscript cwd now source path =
    (let p = filepath_abs cwd path in
     sq (open_file p)
     (bnd (wrap ''scan'' (bnd (read_file p) (\<lambda>content. lift_result (scanJSONTranscript content)))) (\<lambda>scan.
      let session = fields_applyTo (jsSessionFields scan) (newTranscriptSession cwd source path) in
      case selectedArray scan of
        None \<Rightarrow> fail (Plain ''no transcript array'')
      | Some (arrayKey, occurrence) \<Rightarrow>
          sq (open_file p)
          (bnd (read_file p) (\<lambda>content.
           bnd (lift_result (parseJSONTranscriptArray content arrayKey occurrence)) (\<lambda>items.
           if items = [] then fail ErrEmptyTranscript
           else ret (finalizeSessionTimes now items session, items)))))))"

definition ParseTranscriptFile :: "path \<Rightarrow> time \<Rightarrow> string \<Rightarrow> string \<Rightarrow> (files, parsed) act" where
  "ParseTranscriptFile cwd now source path =
    (let ext = to_lower (filepath_ext path) in
     if line_extension ext then parseJSONLTranscript cwd now source path
     else if ext = ''.json'' then parseJSONTranscript cwd now source path
     else fail (Plain ''unsupported transcript extension''))"

section \<open>Projects\<close>

definition MatchProjectPath :: "ProjectPath list \<Rightarrow> string option \<Rightarrow> string \<Rightarrow> string option" where
  "MatchProjectPath paths cwd deviceID =
    (case cwd of
       None \<Rightarrow> None
     | Some dir \<Rightarrow>
         let clean = filepath_clean dir;
             best = fold (\<lambda>p best.
               if ppDeviceID p = deviceID \<and> (clean = ppPath p \<or> prefix (ppPath p @ ''/'') clean) \<and>
                  (case best of None \<Rightarrow> True | Some b \<Rightarrow> length (ppPath b) < length (ppPath p))
               then Some p else best) paths None in
         map_option ppProjectID best)"

definition matchProjectHash :: "ProjectPath list \<Rightarrow> string \<Rightarrow> string \<Rightarrow> string option" where
  "matchProjectHash paths projectHash deviceID =
    map_option ppPath
      (List.find (\<lambda>p. ppDeviceID p = deviceID \<and> sha256_hex (ppPath p) = to_lower projectHash) paths)"

definition readGeminiProjectRoot :: "path \<Rightarrow> string \<Rightarrow> (files, string option) act" where
  "readGeminiProjectRoot cwd sourcePath =
    bnd (attempt (read_file (filepath_abs cwd (join_text [dir_text (dir_text sourcePath), ''.project_root''])))) (\<lambda>r.
      case r of
        Inl _ \<Rightarrow> ret None
      | Inr content \<Rightarrow> ret (if trim_space content = [] then None else Some (trim_space content)))"

text \<open>\<open>Decode\<close> into the struct with the one field \<open>projectHash\<close>: a value of another type is an error.\<close>

fun set_hash :: "(string \<times> json) list \<Rightarrow> string \<Rightarrow> string option" where
  "set_hash [] h = Some h"
| "set_hash ((k, v) # ms) h =
    (if fold_name k \<noteq> ''projecthash'' then set_hash ms h
     else case v of JString s \<Rightarrow> set_hash ms s | JNull \<Rightarrow> set_hash ms h | _ \<Rightarrow> None)"

definition project_hash :: "string \<Rightarrow> string option" where
  "project_hash content =
    (case json_value 10000 content of
       Some (JObject ms, _) \<Rightarrow>
         (case set_hash ms [] of
            None \<Rightarrow> None
          | Some h \<Rightarrow> if trim_space h = [] then None else Some (trim_space h))
     | _ \<Rightarrow> None)"

definition readGeminiProjectHash :: "path \<Rightarrow> string \<Rightarrow> (files, string option) act" where
  "readGeminiProjectHash cwd sourcePath =
    bnd (attempt (sq (open_file (filepath_abs cwd sourcePath)) (read_file (filepath_abs cwd sourcePath)))) (\<lambda>r.
      case r of Inl _ \<Rightarrow> ret None | Inr content \<Rightarrow> ret (project_hash content))"

definition ResolveGeminiProjectCWD :: "path \<Rightarrow> string \<Rightarrow> ProjectPath list \<Rightarrow> string \<Rightarrow> (files, string option) act" where
  "ResolveGeminiProjectCWD cwd sourcePath paths deviceID =
    bnd (readGeminiProjectRoot cwd sourcePath) (\<lambda>root.
      case root of
        Some _ \<Rightarrow> ret root
      | None \<Rightarrow>
          bnd (readGeminiProjectHash cwd sourcePath) (\<lambda>hash.
            ret (case hash of None \<Rightarrow> None | Some h \<Rightarrow> matchProjectHash paths h deviceID)))"

section \<open>Transcript files\<close>

text \<open>\<open>normalizePath\<close>; without symbolic links a path resolves to itself when it exists.\<close>

definition normalizePath :: "path \<Rightarrow> string \<Rightarrow> (files, string) act" where
  "normalizePath cwd path =
    (if blank path then fail (Plain ''project path must not be empty'')
     else
       let abs = filepath_abs cwd (trim_space path) in
       sq (wrap ''resolve project path symlinks'' (lstat abs)) (ret (path_text abs)))"

definition home_roots :: "string \<Rightarrow> string \<Rightarrow> string list" where
  "home_roots home source =
    (if source = ''codex'' then [join_text [home, ''.codex'', ''sessions'']]
     else if source = ''claude_code'' then [join_text [home, ''.claude'', ''projects'']]
     else if source = ''gemini'' then [join_text [home, ''.gemini'', ''tmp'']]
     else [])"

definition project_roots :: "string \<Rightarrow> ProjectPath \<Rightarrow> string list" where
  "project_roots source p =
    (if source = ''codex'' then [join_text [ppPath p, ''.codex'', ''sessions'']]
     else if source = ''claude_code''
     then [join_text [ppPath p, ''.claude'', ''projects''], join_text [ppPath p, ''.claude-config'', ''projects'']]
     else if source = ''gemini'' then [join_text [ppPath p, ''.gemini'', ''tmp'']]
     else [])"

fun first_of_each :: "string list \<Rightarrow> string list \<Rightarrow> string list" where
  "first_of_each seen [] = []"
| "first_of_each seen (p # ps) =
    (if filepath_clean p \<in> set seen then first_of_each seen ps
     else filepath_clean p # first_of_each (filepath_clean p # seen) ps)"

text \<open>The map from sources to roots, as a list of its entries. Given roots are used as they are.\<close>

definition Roots ::
  "path \<Rightarrow> (error + string) \<Rightarrow> string list \<Rightarrow> string \<Rightarrow> ProjectPath list \<Rightarrow> (files, (string \<times> string list) list) act" where
  "Roots cwd home extra sourceFilter projectPaths =
    (let sources = (if sourceFilter \<noteq> [] then [sourceFilter] else [''codex'', ''claude_code'', ''gemini'']) in
     if extra \<noteq> [] then
       bnd (each_acc (\<lambda>root acc. bnd (normalizePath cwd root) (\<lambda>p. ret (acc @ [p]))) extra []) (\<lambda>ps.
       ret (List.map (\<lambda>source. (source, ps)) sources))
     else case home of
       Inl e \<Rightarrow> fail (Wrapped ''resolve home'' e)
     | Inr dir \<Rightarrow>
         ret (List.map (\<lambda>source. (source,
           first_of_each [] (home_roots dir source @ concat (List.map (project_roots source) projectPaths)))) sources))"

text \<open>The files \<open>WalkDir\<close> finds below a root that the source's rule accepts; \<open>rel\<close> is the path below the root.\<close>

definition claude_transcript :: "path \<Rightarrow> bool" where
  "claude_transcript rel =
    (rel \<noteq> [] \<and> to_lower (filepath_ext (last rel)) = ''.jsonl'' \<and>
     (length rel = 2 \<or> (length rel = 4 \<and> rel ! 2 = ''subagents'' \<and> prefix ''agent-'' (last rel))))"

definition other_transcript :: "string \<Rightarrow> bool" where
  "other_transcript name =
    (let n = to_lower name in
     \<not> suffix ''.meta.json'' n \<and> n \<notin> {''sessions-index.json'', ''logs.json''} \<and>
     to_lower (filepath_ext name) \<in> {''.json'', ''.jsonl'', ''.ndjson''})"

definition transcript_at :: "string \<Rightarrow> path \<Rightarrow> path \<Rightarrow> bool" where
  "transcript_at source root p =
    (if source = ''claude_code'' then claude_transcript (drop (length root) p)
     else p \<noteq> [] \<and> other_transcript (last p))"

definition transcripts_under :: "string \<Rightarrow> string \<Rightarrow> path \<Rightarrow> string tree \<Rightarrow> string list" where
  "transcripts_under source root rootPath t =
    sort (List.map (\<lambda>p. join_text (root # drop (length rootPath) p))
      (filter (\<lambda>p. prefix rootPath p \<and> is_file_at t p \<and> transcript_at source rootPath p) (remdups (List.map fst t))))"

definition TranscriptFiles :: "path \<Rightarrow> string \<Rightarrow> string \<Rightarrow> (files, string list) act" where
  "TranscriptFiles cwd source root =
    (let p = filepath_abs cwd root in
     bnd (attempt (lstat p)) (\<lambda>r.
      case r of
        Inl e \<Rightarrow> if err_is e ErrNotExist then ret [] else fail (Wrapped ''stat'' e)
      | Inr _ \<Rightarrow> wrap ''scan'' (disk_read (\<lambda>t. Inr (transcripts_under source root p t)))))"

end
