(* ===== verification/Record_Ids.thy ===== *)
theory Record_Ids
  imports Time_Text Local_Files_Props
begin

text \<open>\<open>recordid/recordid.go\<close>: ids of records and chats, a UTC date and eight random hexadecimal digits. The entropy
  reader is what it returns for four bytes; a nil reader is \<open>None\<close>.\<close>

definition year_text :: "int \<Rightarrow> string" where
  "year_text y = (if 0 \<le> y \<and> y < 10000 then digits 4 y else int_text y)"

definition date_prefix :: "time \<Rightarrow> string" where
  "date_prefix t = (case civil (t div nanos_per_day) of (y, m, d) \<Rightarrow> year_text y @ digits 2 m @ digits 2 d)"

definition GenerateForDateWithReader :: "time \<Rightarrow> (error + string) option \<Rightarrow> error + string" where
  "GenerateForDateWithReader date reader =
    (case reader of
       None \<Rightarrow> Inl (Plain ''entropy reader is required'')
     | Some (Inl e) \<Rightarrow> Inl (Wrapped ''read entropy'' e)
     | Some (Inr random) \<Rightarrow> Inr (date_prefix date @ ''-'' @ hex_encode random))"

definition Validate_id :: "string \<Rightarrow> bool" where
  "Validate_id s =
    (length s = 17 \<and> list_all is_digit (take 8 s) \<and> s ! 8 = CHR ''-'' \<and> list_all is_hex (drop 9 s))"

lemma is_digit_digit [simp]: "is_digit (digit n)"
  using digit_decimal [of n] by (simp add: is_digit_def decimal_def)

lemma digits_all_digits [simp]: "list_all is_digit (digits k n)"
  by (induction k n rule: digits.induct) auto

lemma hex_encode_length: "length (hex_encode s) = 2 * length s"
  by (induction s) (auto simp: hex_encode_def)

lemma is_hex_visible: "is_hex c \<Longrightarrow> visible c"
  by (auto simp: visible_def is_hex_def is_digit_def less_eq_char_def)

text \<open>Generated ids are ids: for every date before the year 10000 and any four random bytes the generated id has the
  canonical form, begins with the UTC date, and is accepted as the name of a chat's source directory.\<close>

theorem generated_id_valid:
  assumes "0 \<le> t" "t < year_10000" "length bytes = 4"
  shows "case GenerateForDateWithReader t (Some (Inr bytes)) of
      Inl _ \<Rightarrow> False
    | Inr i \<Rightarrow> Validate_id i \<and> validateChatSessionID i = Inr () \<and>
        take 8 i = filter is_digit (take 10 (FormatUTCMillis t))"
proof -
  obtain y m d where c: "civil (t div nanos_per_day) = (y, m, d)" by (cases "civil (t div nanos_per_day)") auto
  note year = civil_year_range [OF c assms(1,2)]
  let ?date = "digits 4 y @ digits 2 m @ digits 2 d"
  have i: "GenerateForDateWithReader t (Some (Inr bytes)) = Inr (?date @ ''-'' @ hex_encode bytes)"
    using year by (simp add: GenerateForDateWithReader_def date_prefix_def year_text_def c)
  have digits: "list_all is_digit ?date" "length ?date = 8" by simp_all
  have pattern: "chatSessionIDPattern (?date @ ''-'' @ hex_encode bytes)"
    using assms(3) digits hex_encode_hex [of bytes]
    by (simp add: chatSessionIDPattern_def hex_encode_length nth_append)
  have "hd (?date @ ''-'' @ hex_encode bytes) = digit (y div 10 div 10 div 10)"
    by (simp add: eval_nat_numeral)
  then have "visible (hd (?date @ ''-'' @ hex_encode bytes))"
    using is_digit_digit [of "y div 10 div 10 div 10"] is_hex_visible by (simp add: is_hex_def)
  moreover have "visible (last (?date @ ''-'' @ hex_encode bytes))"
  proof -
    have "hex_encode bytes \<noteq> []" using assms(3) hex_encode_length [of bytes] by auto
    then have "is_hex (last (?date @ ''-'' @ hex_encode bytes))"
      using hex_encode_hex [of bytes] by (auto simp: list_all_iff)
    then show ?thesis by (rule is_hex_visible)
  qed
  ultimately have "\<not> blank (?date @ ''-'' @ hex_encode bytes)" by (intro not_blank_visible) auto
  moreover have "filter is_digit (take 10 (FormatUTCMillis t)) = ?date"
    using digits by (simp add: FormatUTCMillis_def c Let_def list_all_iff is_digit_def filter_id_conv)
  ultimately show ?thesis
    using pattern digits assms(3) hex_encode_hex [of bytes]
    by (simp add: i Validate_id_def validateChatSessionID_def hex_encode_length nth_append)
qed

lemma generated_id_valid_witness:
  "\<exists>i. GenerateForDateWithReader 63844847999999999999 (Some (Inr ''abcd'')) = Inr i \<and> Validate_id i"
  using generated_id_valid [of 63844847999999999999 "''abcd''"]
  by (auto simp: year_10000_def days_before_year_def nanos_per_day_def split: sum.splits)

end
