(* ===== verification/Chat_Batch.thy ===== *)
theory Chat_Batch
  imports Chat_Transcript Record_Ids Local_Stack Sqlite_Chat
begin

text \<open>\<open>cli/chat.go\<close>, the parts the import of transcripts is made of: the summary, the index of known sessions, the batch
  of pending writes with their staged raw sources, and the comparison of a source with the managed copy. The state of
  a run is a record around the open stack; Go's maps are association lists; a check of the context may find it
  cancelled.\<close>

section \<open>The state of an import\<close>

record chatImportSummary =
  smSessionsCreated :: nat
  smSessionsUpdated :: nat
  smSessionsSkipped :: nat
  smDuplicatesSkipped :: nat
  smCollisionsSkipped :: nat
  smFilesSkipped :: nat
  smItemsImported :: nat
  smFilesScanned :: nat
  smRawSourceSessions :: "string list"
  smRawSourcesCopied :: nat
  smSourcesDeleted :: nat
  smSourceDeleteWarnings :: "string list"

record pendingChatImport =
  pdOp :: ChatImportOp
  pdStage :: "ChatSourceStage option"
  pdSourcePath :: string
  pdDeleteSource :: bool

record chatImportContentRepresentative =
  rpChatID :: string
  rpSource :: string
  rpSourceSessionID :: string
  rpHasCWD :: bool

record Import =
  imStack :: Stack
  imSummary :: chatImportSummary
  imEntries :: "pendingChatImport list"
  imByOriginalPath :: "((string \<times> string \<times> string) \<times> ChatSession) list"
  imBySourceSession :: "((string \<times> string) \<times> ChatSession) list"
  imSeen :: "((string \<times> string) \<times> chatImportContentRepresentative) list"
  imMutated :: bool
  imStderr :: "string list" \<comment> \<open>the files warned about\<close>
  imTick :: nat
  imCancelled :: "nat \<Rightarrow> error option"
  imEntropy :: "nat \<Rightarrow> error + string"
  imNow :: "nat \<Rightarrow> time"

definition on_fs :: "(files, 'a) act \<Rightarrow> (Import, 'a) act" where
  "on_fs m w = (case on_disk m (imStack w) of (r, s) \<Rightarrow> (r, w \<lparr> imStack := s \<rparr>))"

definition on_repo :: "(Db, 'a) act \<Rightarrow> (Import, 'a) act" where
  "on_repo m w = (case on_db m (imStack w) of (r, s) \<Rightarrow> (r, w \<lparr> imStack := s \<rparr>))"

definition get :: "(Import \<Rightarrow> 'a) \<Rightarrow> (Import, 'a) act" where
  "get f w = (Inr (f w), w)"

definition count_in :: "(chatImportSummary \<Rightarrow> chatImportSummary) \<Rightarrow> (Import, unit) act" where
  "count_in f w = (Inr (), w \<lparr> imSummary := f (imSummary w) \<rparr>)"

definition client :: "(Import, Client) act" where
  "client = get (\<lambda>w. lsFS (imStack w))"

definition cwd_of :: "(Import, path) act" where
  "cwd_of = get (\<lambda>w. workDir (lsFS (imStack w)))"

text \<open>\<open>ctx.Err()\<close>, \<open>time.Now\<close> and four random bytes.\<close>

definition check_ctx :: "(Import, unit) act" where
  "check_ctx w =
    (case imCancelled w (imTick w) of
       None \<Rightarrow> (Inr (), w \<lparr> imTick := Suc (imTick w) \<rparr>)
     | Some e \<Rightarrow> (Inl e, w \<lparr> imTick := Suc (imTick w) \<rparr>))"

definition time_now :: "(Import, time) act" where
  "time_now w = (Inr (imNow w (imTick w)), w \<lparr> imTick := Suc (imTick w) \<rparr>)"

definition random_bytes :: "(Import, error + string) act" where
  "random_bytes w = (Inr (imEntropy w (imTick w)), w \<lparr> imTick := Suc (imTick w) \<rparr>)"

section \<open>The index\<close>

definition remember :: "ChatSession \<Rightarrow> (Import, unit) act" where
  "remember session w =
    (let abs = (\<lambda>p. path_text (filepath_abs (workDir (lsFS (imStack w))) p));
         w1 = w \<lparr> imBySourceSession :=
                    AList.update (csSource session, csSourceSessionID session) session (imBySourceSession w) \<rparr> in
     (Inr (), case csOriginalSourcePath session of
        None \<Rightarrow> w1
      | Some p \<Rightarrow> w1 \<lparr> imByOriginalPath :=
          AList.update (csSource session, csSourceDeviceID session, abs p) session (imByOriginalPath w1) \<rparr>))"

definition loadChatImportSessionIndex :: "string \<Rightarrow> string \<Rightarrow> (Import, unit) act" where
  "loadChatImportSessionIndex source deviceID =
    bnd (wrap ''list existing chat sessions'' (on_repo (sqlite_ListChatSessions
      \<lparr> lcIncludeDeleted = True, lcOnlyDeleted = False, lcProjectID = None, lcUnassigned = False,
        lcSource = Some source, lcDeviceID = Some deviceID, lcParentSourceSessionID = None, lcDateFrom = None,
        lcDateTo = None, lcLimit = 0, lcOffset = 0, lcUpdatedAfter = None \<rparr>))) (\<lambda>sessions.
    sq (\<lambda>w. (Inr (), w \<lparr> imByOriginalPath := [], imBySourceSession := [] \<rparr>))
       (each remember sessions))"

definition existingByOriginalPath :: "string \<Rightarrow> string \<Rightarrow> string \<Rightarrow> (Import, ChatSession option) act" where
  "existingByOriginalPath source deviceID sourcePath =
    get (\<lambda>w. map_of (imByOriginalPath w)
      (source, deviceID, path_text (filepath_abs (workDir (lsFS (imStack w))) sourcePath)))"

section \<open>Deleting sources\<close>

definition isSameAsManagedFile :: "Client \<Rightarrow> string \<Rightarrow> string \<Rightarrow> string \<Rightarrow> bool" where
  "isSameAsManagedFile c chatID rawSourceKey sourcePath =
    (case Local_Files.ResolveChatSourcePath c chatID rawSourceKey of
       Inl _ \<Rightarrow> False
     | Inr managed \<Rightarrow> managed = filepath_abs (workDir c) sourcePath)"

definition deleteOriginalChatSource :: "string \<Rightarrow> (Import, unit) act" where
  "deleteOriginalChatSource sourcePath =
    bnd cwd_of (\<lambda>cwd.
    bnd (attempt (on_fs (remove_file (filepath_abs cwd sourcePath)))) (\<lambda>r.
      case r of
        Inl _ \<Rightarrow> count_in (\<lambda>s. s \<lparr> smSourceDeleteWarnings := smSourceDeleteWarnings s @ [sourcePath] \<rparr>)
      | Inr _ \<Rightarrow> count_in (\<lambda>s. s \<lparr> smSourcesDeleted := Suc (smSourcesDeleted s) \<rparr>)))"

definition deleteImportedChatSourceIfSafe :: "string \<Rightarrow> string \<Rightarrow> string \<Rightarrow> (Import, unit) act" where
  "deleteImportedChatSourceIfSafe chatID rawSourceKey sourcePath =
    bnd client (\<lambda>c.
    if isSameAsManagedFile c chatID rawSourceKey sourcePath then ret ()
    else deleteOriginalChatSource sourcePath)"

section \<open>The batch\<close>

definition chatImportBatchSize :: nat where
  "chatImportBatchSize = 50"

definition delete_stage :: "ChatSourceStage option \<Rightarrow> (Import, unit) act" where
  "delete_stage stage =
    (case stage of
       None \<Rightarrow> ret ()
     | Some s \<Rightarrow> bnd client (\<lambda>c. ignored (on_fs (DeleteChatSourceStage c s))))"

definition discardPending :: "(Import, unit) act" where
  "discardPending =
    bnd (get imEntries) (\<lambda>entries.
    sq (each (\<lambda>entry. delete_stage (pdStage entry)) entries)
       (\<lambda>w. (Inr (), w \<lparr> imEntries := [] \<rparr>)))"

text \<open>What \<open>flush\<close> does for an entry once its row is stored.\<close>

definition finish_stage :: "pendingChatImport \<Rightarrow> pendingChatImport list \<Rightarrow> string \<Rightarrow> (Import, unit) act" where
  "finish_stage entry later sessionID =
    (case pdStage entry of
       None \<Rightarrow> ret ()
     | Some stage \<Rightarrow>
         bnd client (\<lambda>c.
         bnd (attempt (on_fs (PromoteChatSourceStage c stage))) (\<lambda>r.
           case r of
             Inl e \<Rightarrow>
               sq (delete_stage (Some stage))
               (sq (each (\<lambda>e. delete_stage (pdStage e)) later)
                   (fail (Wrapped ''promote chat source'' e)))
           | Inr _ \<Rightarrow>
               count_in (\<lambda>s.
                 let known = List.insert sessionID (smRawSourceSessions s) in
                 s \<lparr> smRawSourceSessions := known, smRawSourcesCopied := length known \<rparr>))))"

definition finish_entry :: "pendingChatImport \<Rightarrow> pendingChatImport list \<Rightarrow> ChatImportResult \<Rightarrow> (Import, unit) act" where
  "finish_entry entry later result =
    sq (finish_stage entry later (csID (irSession result)))
    (sq (count_in (\<lambda>s. s \<lparr> smItemsImported := smItemsImported s + length (ioItems (pdOp entry)) \<rparr>))
    (sq (count_in (\<lambda>s. if irCreated result then s \<lparr> smSessionsCreated := Suc (smSessionsCreated s) \<rparr>
                       else s \<lparr> smSessionsUpdated := Suc (smSessionsUpdated s) \<rparr>))
    (sq (remember (irSession result))
        (if pdDeleteSource entry then
           (case csRawSourceKey (irSession result) of
              Some key \<Rightarrow> deleteImportedChatSourceIfSafe (csID (irSession result)) key (pdSourcePath entry)
            | None \<Rightarrow> deleteOriginalChatSource (pdSourcePath entry))
         else ret ()))))"

fun finish_entries :: "pendingChatImport list \<Rightarrow> ChatImportResult list \<Rightarrow> (Import, unit) act" where
  "finish_entries (entry # later) (result # results) =
    sq (finish_entry entry later result) (finish_entries later results)"
| "finish_entries _ _ = ret ()"

definition flush :: "(Import, unit) act" where
  "flush =
    bnd (get imEntries) (\<lambda>entries.
    if entries = [] then ret ()
    else
      sq (\<lambda>w. (Inr (), w \<lparr> imEntries := [] \<rparr>))
      (bnd (attempt (on_repo (sqlite_WriteChatImportBatch (List.map pdOp entries)))) (\<lambda>r.
         case r of
           Inl e \<Rightarrow> sq (each (\<lambda>entry. delete_stage (pdStage entry)) entries)
                        (fail (Wrapped ''write chat import batch'' e))
         | Inr results \<Rightarrow> finish_entries entries results)))"

definition batch_add :: "pendingChatImport \<Rightarrow> (Import, unit) act" where
  "batch_add pending =
    sq (\<lambda>w. (Inr (), w \<lparr> imEntries := imEntries w @ [pending] \<rparr>))
    (bnd (get imEntries) (\<lambda>entries.
       if chatImportBatchSize \<le> length entries then flush else ret ()))"

definition entry_session :: "pendingChatImport \<Rightarrow> UpsertChatSessionInput" where
  "entry_session entry = ioSession (pdOp entry)"

definition hasSourceSession :: "string \<Rightarrow> string \<Rightarrow> (Import, bool) act" where
  "hasSourceSession source sourceSessionID =
    get (\<lambda>w. list_ex (\<lambda>e. icSource (entry_session e) = source \<and>
      icSourceSessionID (entry_session e) = sourceSessionID) (imEntries w))"

definition merge_attribution :: "CreateChatSessionInput \<Rightarrow> pendingChatImport \<Rightarrow> pendingChatImport" where
  "merge_attribution duplicate entry =
    (let s = entry_session entry;
         s1 = (if icCWD s = None \<and> icCWD duplicate \<noteq> None then s \<lparr> icCWD := icCWD duplicate \<rparr> else s);
         s2 = (if icProjectID s1 = None \<and> icProjectID duplicate \<noteq> None
               then s1 \<lparr> icProjectID := icProjectID duplicate \<rparr> else s1) in
     entry \<lparr> pdOp := (pdOp entry) \<lparr> ioSession := s2 \<rparr> \<rparr>)"

fun merge_first :: "chatImportContentRepresentative \<Rightarrow> CreateChatSessionInput \<Rightarrow> pendingChatImport list \<Rightarrow>
    pendingChatImport list option" where
  "merge_first rep duplicate [] = None"
| "merge_first rep duplicate (e # es) =
    (if icID (entry_session e) = rpChatID rep \<and> icSource (entry_session e) = rpSource rep \<and>
        icSourceSessionID (entry_session e) = rpSourceSessionID rep
     then Some (merge_attribution duplicate e # es)
     else map_option ((#) e) (merge_first rep duplicate es))"

definition mergePendingAttribution ::
  "chatImportContentRepresentative \<Rightarrow> CreateChatSessionInput \<Rightarrow> (Import, bool) act" where
  "mergePendingAttribution rep duplicate w =
    (case merge_first rep duplicate (imEntries w) of
       None \<Rightarrow> (Inr False, w)
     | Some es \<Rightarrow> (Inr True, w \<lparr> imEntries := es \<rparr>))"

section \<open>Comparing a source with the managed copy\<close>

record chatImportSourceComparison =
  cmMatches :: bool
  cmAppendOnly :: bool
  cmManagedPath :: path
  cmManagedSize :: int
  cmSourceSize :: int

definition no_comparison :: chatImportSourceComparison where
  "no_comparison = \<lparr> cmMatches = False, cmAppendOnly = False, cmManagedPath = [], cmManagedSize = 0, cmSourceSize = 0 \<rparr>"

definition isAppendableChatSourcePath :: "string \<Rightarrow> bool" where
  "isAppendableChatSourcePath path = line_extension (to_lower (filepath_ext path))"

text \<open>\<open>io.ReadFull\<close> of the next bytes of an open file.\<close>

definition read_full :: "path \<Rightarrow> nat \<Rightarrow> nat \<Rightarrow> (files, string) act" where
  "read_full p offset n =
    bnd (read_file p) (\<lambda>content.
      let chunk = take n (drop offset content) in
      if length chunk < n then fail (Plain ''unexpected EOF'') else ret chunk)"

function prefix_chunks :: "path \<Rightarrow> path \<Rightarrow> nat \<Rightarrow> nat \<Rightarrow> (Import, bool) act" where
  "prefix_chunks prefixPath fullPath offset remaining =
    (if remaining = 0 then ret True
     else
       let n = min (1024 * 1024) remaining in
       sq check_ctx
       (bnd (on_fs (read_full prefixPath offset n)) (\<lambda>a.
        bnd (on_fs (read_full fullPath offset n)) (\<lambda>b.
        if a \<noteq> b then ret False
        else prefix_chunks prefixPath fullPath (offset + n) (remaining - n)))))"
  by pat_completeness auto
termination
  by (relation "measure (\<lambda>(_, _, _, remaining). remaining)") auto

declare prefix_chunks.simps [simp del]

definition filePrefixMatches :: "path \<Rightarrow> path \<Rightarrow> int \<Rightarrow> (Import, bool) act" where
  "filePrefixMatches prefixPath fullPath prefixSize =
    sq (on_fs (open_file prefixPath))
    (sq (on_fs (open_file fullPath))
        (prefix_chunks prefixPath fullPath 0 (nat prefixSize)))"

definition compareChatImportSource :: "string \<Rightarrow> string \<Rightarrow> string \<Rightarrow> (Import, chatImportSourceComparison) act" where
  "compareChatImportSource chatID rawSourceKey sourcePath =
    bnd client (\<lambda>c.
    bnd (lift_result (Local_Files.ResolveChatSourcePath c chatID rawSourceKey)) (\<lambda>managedPath.
    let source = filepath_abs (workDir c) sourcePath in
    bnd (attempt (on_fs (lstat managedPath))) (\<lambda>r.
      case r of
        Inl e \<Rightarrow> if err_is e ErrNotExist then ret no_comparison else fail e
      | Inr managedInfo \<Rightarrow>
          bnd (on_fs (lstat source)) (\<lambda>sourceInfo.
          let cmp = \<lparr> cmMatches = False, cmAppendOnly = False, cmManagedPath = managedPath,
                      cmManagedSize = content_size managedInfo, cmSourceSize = content_size sourceInfo \<rparr> in
          if cmManagedSize cmp \<noteq> cmSourceSize cmp then
            (if cmManagedSize cmp < cmSourceSize cmp \<and> isAppendableChatSourcePath sourcePath \<and>
                isAppendableChatSourcePath (path_text managedPath)
             then bnd (filePrefixMatches managedPath source (cmManagedSize cmp)) (\<lambda>m.
                    ret (cmp \<lparr> cmAppendOnly := m \<rparr>))
             else ret cmp)
          else
            sq check_ctx
            (bnd (on_fs (HashFile source)) (\<lambda>sourceHash.
             sq check_ctx
             (bnd (on_fs (HashFile managedPath)) (\<lambda>managedHash.
              ret (cmp \<lparr> cmMatches := (sourceHash = managedHash) \<rparr>)))))))))"

definition sourceMatchesManagedRaw :: "string \<Rightarrow> string \<Rightarrow> string \<Rightarrow> (Import, bool) act" where
  "sourceMatchesManagedRaw chatID rawSourceKey sourcePath =
    bnd (compareChatImportSource chatID rawSourceKey sourcePath) (\<lambda>cmp. ret (cmMatches cmp))"

text \<open>Items as they are stored.\<close>

definition chatImportSearchText :: "CreateChatItemInput \<Rightarrow> string" where
  "chatImportSearchText i =
    (if iiSearchText i \<noteq> [] then iiSearchText i else case iiText i of Some t \<Rightarrow> t | None \<Rightarrow> [])"

definition chatImportItemMatches :: "ChatItem \<Rightarrow> CreateChatItemInput \<Rightarrow> bool" where
  "chatImportItemMatches stored input =
    (ciRole stored = iiRole input \<and> ciItemType stored = iiItemType input \<and>
     ciSearchText stored = chatImportSearchText input \<and> ciText stored = iiText input \<and>
     ciRawJSON stored = iiRawJSON input)"

definition chatImportItemsAlreadyStored :: "ChatItem list \<Rightarrow> CreateChatItemInput list \<Rightarrow> bool" where
  "chatImportItemsAlreadyStored existing appended =
    list_all (\<lambda>i. case map_of (rev (List.map (\<lambda>x. (ciOrdinal x, x)) existing)) (iiOrdinal i) of
        None \<Rightarrow> False
      | Some stored \<Rightarrow> chatImportItemMatches stored i) appended"

end
