(* ===== verification/Chat_Import_Run.thy ===== *)
theory Chat_Import_Run
  imports Chat_Batch
begin

text \<open>\<open>cli/chat.go\<close>, the import of transcripts: one definition per function, from \<open>handleExistingChatImport\<close> up to the scan
  of \<open>runChatImport\<close>. A \<open>continue\<close> is a return; the map of roots is a list of its entries, in any order.\<close>

section \<open>Queueing writes\<close>

definition import_op ::
  "CreateChatSessionInput \<Rightarrow> bool \<Rightarrow> ChatImportItemMode \<Rightarrow> CreateChatItemInput list \<Rightarrow> ChatImportOp" where
  "import_op s clearDeleted mode items =
    \<lparr> ioSession = CreateChatSessionInput.extend s \<lparr> icClearDeleted = clearDeleted \<rparr>, ioItemMode = mode, ioItems = items \<rparr>"

definition queueReplaceChatImport ::
  "CreateChatSessionInput \<Rightarrow> CreateChatItemInput list \<Rightarrow> string \<Rightarrow> bool \<Rightarrow> (Import, unit) act" where
  "queueReplaceChatImport session items sourcePath deleteSource =
    bnd client (\<lambda>c.
    bnd (wrap ''stage chat source'' (on_fs (CopyChatSourceToStage c (icID session) sourcePath))) (\<lambda>stage.
    batch_add
      \<lparr> pdOp = import_op (session \<lparr> icRawSourceKey := Some (stRawSourceKey stage) \<rparr>) True ItemModeReplace items,
        pdStage = Some stage, pdSourcePath = sourcePath, pdDeleteSource = deleteSource \<rparr>))"

text \<open>The session an appended range is parsed for.\<close>

definition append_base :: "ChatSession \<Rightarrow> string \<Rightarrow> string \<Rightarrow> string \<Rightarrow> CreateChatSessionInput" where
  "append_base existing deviceID absSourcePath rawSourceKey =
    \<lparr> icID = csID existing, icSource = csSource existing, icSourceSessionID = csSourceSessionID existing,
      icParentSourceSessionID = None, icSourceDeviceID = deviceID, icProjectID = csProjectID existing,
      icCWD = csCWD existing, icTitle = csTitle existing, icStartedAt = csStartedAt existing,
      icLastActivityAt = csLastActivityAt existing, icOriginalSourcePath = Some absSourcePath,
      icRawSourceKey = Some rawSourceKey, icCreatedAt = None, icUpdatedAt = None, icDeletedAt = None \<rparr>"

definition attributed ::
  "ChatSession \<Rightarrow> string \<Rightarrow> ProjectPath list \<Rightarrow> CreateChatSessionInput \<Rightarrow> CreateChatSessionInput" where
  "attributed existing deviceID projectPaths s =
    (let s1 = s \<lparr> icID := csID existing, icSource := csSource existing,
                  icSourceSessionID := csSourceSessionID existing, icSourceDeviceID := deviceID,
                  icProjectID := MatchProjectPath projectPaths (icCWD s) deviceID \<rparr> in
     if icProjectID s1 = None then s1 \<lparr> icProjectID := csProjectID existing \<rparr> else s1)"

definition queueAppendJSONLChatImport ::
  "ChatSession \<Rightarrow> string \<Rightarrow> chatImportSourceComparison \<Rightarrow> string \<Rightarrow> ProjectPath list \<Rightarrow> bool \<Rightarrow> (Import, unit) act" where
  "queueAppendJSONLChatImport existing sourcePath cmp deviceID projectPaths deleteSource =
    bnd (wrap ''find existing chat item ordinal'' (on_repo (sqlite_MaxChatItemOrdinal (csID existing)))) (\<lambda>maxOrdinal.
    bnd (wrap ''list existing chat items before append'' (on_repo (sqlite_ListChatItems (csID existing)))) (\<lambda>existingItems.
    bnd cwd_of (\<lambda>cwd.
    bnd time_now (\<lambda>now.
    bnd (wrap ''parse managed chat raw source''
          (on_fs (ParseTranscriptFile cwd now (csSource existing) (path_text (cmManagedPath cmp))))) (\<lambda>(_, managedItems).
    let base = append_base existing deviceID (path_text (filepath_abs cwd sourcePath)) (the (csRawSourceKey existing));
        ordinalStart = int (length managedItems) in
    bnd time_now (\<lambda>now.
    bnd (wrap ''parse appended chat source''
          (on_fs (ParseAppendedJSONLTranscript cwd now (csSource existing) sourcePath (cmManagedSize cmp)
            (cmSourceSize cmp - cmManagedSize cmp) base ordinalStart))) (\<lambda>(session, items).
    let stored = chatImportItemsAlreadyStored existingItems items in
    if \<not> stored \<and> maxOrdinal + 1 \<noteq> ordinalStart
    then fail (Plain ''append-only chat import item state mismatch'')
    else
      let session1 = attributed existing deviceID projectPaths session in
      bnd client (\<lambda>c.
      bnd (wrap ''stage appended chat source'' (on_fs (CopyChatSourceToStage c (icID session1) sourcePath))) (\<lambda>stage.
      batch_add
        \<lparr> pdOp = import_op (session1 \<lparr> icRawSourceKey := Some (stRawSourceKey stage) \<rparr>) True ItemModeAppend
                   (if stored then [] else items),
          pdStage = Some stage, pdSourcePath = sourcePath, pdDeleteSource = deleteSource \<rparr>)))))))))"

section \<open>Known sessions\<close>

definition resolveGeminiCWD ::
  "string \<Rightarrow> ProjectPath list \<Rightarrow> string \<Rightarrow> CreateChatSessionInput \<Rightarrow> (Import, CreateChatSessionInput) act" where
  "resolveGeminiCWD sourcePath projectPaths deviceID session =
    (if icSource session \<noteq> ''gemini'' \<or> icCWD session \<noteq> None then ret session
     else
       bnd cwd_of (\<lambda>cwd.
       bnd (on_fs (ResolveGeminiProjectCWD cwd sourcePath projectPaths deviceID)) (\<lambda>dir.
       ret (session \<lparr> icCWD := dir \<rparr>))))"

definition skip_session :: "ChatSession \<Rightarrow> string \<Rightarrow> bool \<Rightarrow> (Import, unit) act" where
  "skip_session existing sourcePath deleteSource =
    sq (count_in (\<lambda>s. s \<lparr> smSessionsSkipped := Suc (smSessionsSkipped s) \<rparr>))
       (if deleteSource
        then deleteImportedChatSourceIfSafe (csID existing) (the (csRawSourceKey existing)) sourcePath
        else ret ())"

text \<open>The result says whether the file is dealt with, and whether a write was queued.\<close>

definition handleExactMatchChatImport ::
  "ChatSession \<Rightarrow> string \<Rightarrow> chatImportSourceComparison \<Rightarrow> string \<Rightarrow> ProjectPath list \<Rightarrow> bool \<Rightarrow> (Import, bool \<times> bool) act" where
  "handleExactMatchChatImport existing sourcePath cmp deviceID projectPaths deleteSource =
    bnd cwd_of (\<lambda>cwd.
    bnd time_now (\<lambda>now.
    bnd (attempt (on_fs (ParseTranscriptFile cwd now (csSource existing) (path_text (cmManagedPath cmp))))) (\<lambda>r.
      case r of
        Inl e \<Rightarrow>
          if err_is e ErrEmptyTranscript
          then sq (skip_session existing sourcePath deleteSource) (ret (True, False))
          else fail (Wrapped ''parse managed chat raw source'' e)
      | Inr (parsedSession, items) \<Rightarrow>
          bnd (if csProjectID existing = None
               then resolveGeminiCWD sourcePath projectPaths deviceID parsedSession else ret parsedSession) (\<lambda>s0.
          let s1 = attributed existing deviceID projectPaths s0;
              s2 = (if icCWD s1 = None then s1 \<lparr> icCWD := csCWD existing \<rparr> else s1);
              s3 = (if icTitle s2 = None then s2 \<lparr> icTitle := csTitle existing \<rparr> else s2) in
          bnd (wrap ''list existing chat items before exact-match repair''
                (on_repo (sqlite_ListChatItems (csID existing)))) (\<lambda>storedItems.
          if length storedItems = length items \<and> chatImportItemsAlreadyStored storedItems items \<and>
             icProjectID s3 = csProjectID existing \<and> icCWD s3 = csCWD existing
          then sq (skip_session existing sourcePath deleteSource) (ret (True, False))
          else
            sq (queueReplaceChatImport
                 (s3 \<lparr> icOriginalSourcePath := Some (path_text (filepath_abs cwd sourcePath)) \<rparr>) items sourcePath deleteSource)
               (ret (True, True)))))))"

definition handleExistingChatImport ::
  "ChatSession \<Rightarrow> string \<Rightarrow> string \<Rightarrow> ProjectPath list \<Rightarrow> bool \<Rightarrow> (Import, bool \<times> bool) act" where
  "handleExistingChatImport existing sourcePath deviceID projectPaths deleteSource =
    (case csRawSourceKey existing of
       None \<Rightarrow> ret (False, False)
     | Some key \<Rightarrow>
         bnd (wrap ''compare chat source with managed raw'' (compareChatImportSource (csID existing) key sourcePath)) (\<lambda>cmp.
         if cmMatches cmp then handleExactMatchChatImport existing sourcePath cmp deviceID projectPaths deleteSource
         else if cmAppendOnly cmp then
           bnd (hasSourceSession (csSource existing) (csSourceSessionID existing)) (\<lambda>queued.
           sq (if queued then flush else ret ())
           (sq (queueAppendJSONLChatImport existing sourcePath cmp deviceID projectPaths deleteSource)
               (ret (True, True))))
         else ret (False, False)))"

definition defendChatImportCollision :: "ChatSession \<Rightarrow> string \<Rightarrow> bool \<Rightarrow> (Import, unit) act" where
  "defendChatImportCollision existing sourcePath deleteSource =
    bnd (case csRawSourceKey existing of
           None \<Rightarrow> ret False
         | Some key \<Rightarrow>
             wrap ''compare chat source with managed raw''
               (sourceMatchesManagedRaw (csID existing) key sourcePath)) (\<lambda>matches.
    if matches then skip_session existing sourcePath deleteSource
    else
      sq (count_in (\<lambda>s. s \<lparr> smCollisionsSkipped := Suc (smCollisionsSkipped s) \<rparr>))
         (\<lambda>w. (Inr (), w \<lparr> imStderr := imStderr w @ [sourcePath] \<rparr>)))"

section \<open>Duplicates\<close>

definition backfilled_session :: "ChatSession \<Rightarrow> CreateChatSessionInput" where
  "backfilled_session existing =
    \<lparr> icID = csID existing, icSource = csSource existing, icSourceSessionID = csSourceSessionID existing,
      icParentSourceSessionID = csParentSourceSessionID existing, icSourceDeviceID = csSourceDeviceID existing,
      icProjectID = csProjectID existing, icCWD = csCWD existing, icTitle = csTitle existing,
      icStartedAt = csStartedAt existing, icLastActivityAt = csLastActivityAt existing,
      icOriginalSourcePath = csOriginalSourcePath existing, icRawSourceKey = csRawSourceKey existing,
      icCreatedAt = None, icUpdatedAt = None, icDeletedAt = csDeletedAt existing \<rparr>"

definition queueChatImportAttributionBackfill ::
  "chatImportContentRepresentative \<Rightarrow> CreateChatSessionInput \<Rightarrow> string \<Rightarrow> bool \<Rightarrow> (Import, bool) act" where
  "queueChatImportAttributionBackfill rep duplicate sourcePath deleteSource =
    bnd (wrap ''look up duplicate chat representative''
          (on_repo (sqlite_GetChatSessionBySource (rpSource rep) (rpSourceSessionID rep)))) (\<lambda>existing.
    let s = backfilled_session existing;
        cwdChanged = (icCWD s = None \<and> icCWD duplicate \<noteq> None);
        projectChanged = (icProjectID s = None \<and> icProjectID duplicate \<noteq> None);
        s1 = (if cwdChanged then s \<lparr> icCWD := icCWD duplicate \<rparr> else s);
        s2 = (if projectChanged then s1 \<lparr> icProjectID := icProjectID duplicate \<rparr> else s1) in
    if \<not> cwdChanged \<and> \<not> projectChanged then ret False
    else
      sq (batch_add
           \<lparr> pdOp = import_op s2 False ItemModeAppend [], pdStage = None, pdSourcePath = sourcePath,
             pdDeleteSource = deleteSource \<rparr>)
         (ret True))"

definition mergeDuplicateChatImportAttribution ::
  "chatImportContentRepresentative \<Rightarrow> CreateChatSessionInput \<Rightarrow> string \<Rightarrow> bool \<Rightarrow> (Import, bool \<times> bool) act" where
  "mergeDuplicateChatImportAttribution rep duplicate sourcePath deleteSource =
    (if icSource duplicate \<noteq> ''gemini'' \<or> rpHasCWD rep \<or> icCWD duplicate = None then ret (False, False)
     else
       bnd (mergePendingAttribution rep duplicate) (\<lambda>merged.
       if merged then ret (False, True)
       else
         bnd (queueChatImportAttributionBackfill rep duplicate sourcePath deleteSource) (\<lambda>queued.
         ret (queued, queued))))"

section \<open>New sessions\<close>

fun generateUniqueChatID :: "nat \<Rightarrow> time \<Rightarrow> (Import, string) act" where
  "generateUniqueChatID 0 t = fail (Plain ''generate unique chat id: exhausted retries'')"
| "generateUniqueChatID (Suc n) t =
    bnd random_bytes (\<lambda>random.
    bnd (lift_result (GenerateForDateWithReader t (Some random))) (\<lambda>i.
    bnd (attempt (on_repo (sqlite_GetRecordByID i))) (\<lambda>recordR.
    case (case recordR of Inl e \<Rightarrow> if err_is e ErrNotFound then None else Some e | Inr _ \<Rightarrow> None) of
      Some e \<Rightarrow> fail (Wrapped ''generate unique chat id: check record'' e)
    | None \<Rightarrow>
        bnd (attempt (on_repo (sqlite_GetChatSessionByID i))) (\<lambda>chatR.
        case (recordR, chatR) of
          (_, Inl e) \<Rightarrow>
            if \<not> err_is e ErrNotFound then fail (Wrapped ''generate unique chat id: check chat'' e)
            else (case recordR of Inl _ \<Rightarrow> ret i | Inr _ \<Rightarrow> generateUniqueChatID n t)
        | (_, Inr _) \<Rightarrow> generateUniqueChatID n t))))"

definition mark_mutated :: "bool \<Rightarrow> (Import, unit) act" where
  "mark_mutated b w = (Inr (), if b then w \<lparr> imMutated := True \<rparr> else w)"

definition see :: "string \<Rightarrow> string \<Rightarrow> chatImportContentRepresentative \<Rightarrow> (Import, unit) act" where
  "see source hash rep w = (Inr (), w \<lparr> imSeen := AList.update (source, hash) rep (imSeen w) \<rparr>)"

definition known_session :: "ChatSession option \<Rightarrow> CreateChatSessionInput \<Rightarrow> (Import, ChatSession option) act" where
  "known_session prior session =
    (if prior \<noteq> None then ret prior
     else
       bnd (attempt (on_repo (sqlite_GetChatSessionBySource (icSource session) (icSourceSessionID session)))) (\<lambda>r.
       case r of
         Inr s \<Rightarrow> ret (Some s)
       | Inl e \<Rightarrow> if err_is e ErrNotFound then ret None else fail (Wrapped ''look up existing chat session'' e)))"

definition session_id :: "ChatSession option \<Rightarrow> CreateChatSessionInput \<Rightarrow> (Import, CreateChatSessionInput) act" where
  "session_id prior session =
    (if icID session \<noteq> [] then ret session
     else case prior of
       Some s \<Rightarrow> ret (session \<lparr> icID := csID s \<rparr>)
     | None \<Rightarrow> bnd (generateUniqueChatID 16 (icLastActivityAt session)) (\<lambda>i. ret (session \<lparr> icID := i \<rparr>)))"

definition skip_duplicate ::
  "chatImportContentRepresentative \<Rightarrow> string \<Rightarrow> string \<Rightarrow> CreateChatSessionInput \<Rightarrow> string \<Rightarrow> bool \<Rightarrow> (Import, unit) act" where
  "skip_duplicate rep source hash session sourceFile deleteSource =
    bnd (mergeDuplicateChatImportAttribution rep session sourceFile deleteSource) (\<lambda>(queued, merged).
    sq (if merged then see source hash (rep \<lparr> rpHasCWD := True \<rparr>) else ret ())
    (sq (mark_mutated queued)
    (sq (count_in (\<lambda>s. s \<lparr> smDuplicatesSkipped := Suc (smDuplicatesSkipped s) \<rparr>))
        (if deleteSource \<and> \<not> queued then deleteOriginalChatSource sourceFile else ret ()))))"

definition queue_and_mark ::
  "CreateChatSessionInput \<Rightarrow> CreateChatItemInput list \<Rightarrow> string \<Rightarrow> bool \<Rightarrow> (Import, unit) act" where
  "queue_and_mark session items sourceFile deleteSource =
    sq (queueReplaceChatImport session items sourceFile deleteSource) (mark_mutated True)"

definition import_session ::
  "string \<Rightarrow> string \<Rightarrow> bool \<Rightarrow> ChatSession option \<Rightarrow> parsed \<Rightarrow> (Import, unit) act" where
  "import_session source sourceFile deleteSource prior0 p =
    bnd (known_session prior0 (fst p)) (\<lambda>prior.
    bnd (session_id prior (fst p)) (\<lambda>session.
    if prior \<noteq> None then queue_and_mark session (snd p) sourceFile deleteSource
    else
      bnd cwd_of (\<lambda>cwd.
      bnd (wrap ''hash chat source'' (on_fs (HashFile (filepath_abs cwd sourceFile)))) (\<lambda>hash.
      bnd (get (\<lambda>w. map_of (imSeen w) (source, hash))) (\<lambda>seen.
      case seen of
        Some rep \<Rightarrow> skip_duplicate rep source hash session sourceFile deleteSource
      | None \<Rightarrow>
          sq (see source hash \<lparr> rpChatID = icID session, rpSource = icSource session,
                rpSourceSessionID = icSourceSessionID session, rpHasCWD = (icCWD session \<noteq> None) \<rparr>)
             (queue_and_mark session (snd p) sourceFile deleteSource))))))"

section \<open>The scan\<close>

text \<open>A file whose path is already known: whether it is dealt with.\<close>

definition import_known_path ::
  "string \<Rightarrow> string \<Rightarrow> string \<Rightarrow> ProjectPath list \<Rightarrow> bool \<Rightarrow> ChatSession option \<Rightarrow> (Import, bool) act" where
  "import_known_path source sourceFile deviceID projectPaths deleteSource existing =
    (case existing of
       None \<Rightarrow> ret False
     | Some prior \<Rightarrow>
         bnd cwd_of (\<lambda>cwd.
         bnd (wrap ''hash existing chat source'' (on_fs (HashFile (filepath_abs cwd sourceFile)))) (\<lambda>hash.
         bnd (handleExistingChatImport prior sourceFile deviceID projectPaths deleteSource) (\<lambda>(handled, mutated).
         sq (mark_mutated mutated)
            (if handled
             then sq (see source hash \<lparr> rpChatID = csID prior, rpSource = csSource prior,
                        rpSourceSessionID = csSourceSessionID prior, rpHasCWD = (csCWD prior \<noteq> None) \<rparr>)
                     (ret True)
             else ret False)))))"

text \<open>A parsed file whose source session may be known under another path.\<close>

definition import_known_session ::
  "string \<Rightarrow> string \<Rightarrow> string \<Rightarrow> ProjectPath list \<Rightarrow> bool \<Rightarrow> ChatSession option \<Rightarrow> parsed \<Rightarrow> (Import, unit) act" where
  "import_known_session source sourceFile deviceID projectPaths deleteSource prior p =
    bnd (hasSourceSession (icSource (fst p)) (icSourceSessionID (fst p))) (\<lambda>queued.
    sq (if queued then flush else ret ())
    (bnd (get (\<lambda>w. map_of (imBySourceSession w) (icSource (fst p), icSourceSessionID (fst p)))) (\<lambda>existing.
     case existing of
       None \<Rightarrow> import_session source sourceFile deleteSource prior p
     | Some owner \<Rightarrow>
         if prior = None then defendChatImportCollision owner sourceFile deleteSource
         else
           bnd (handleExistingChatImport owner sourceFile deviceID projectPaths deleteSource) (\<lambda>(handled, mutated).
           sq (mark_mutated mutated)
              (if handled then ret ()
               else import_session source sourceFile deleteSource (Some owner) p)))))"

definition import_file ::
  "string \<Rightarrow> ProjectPath list \<Rightarrow> bool \<Rightarrow> string \<Rightarrow> string \<Rightarrow> (Import, unit) act" where
  "import_file deviceID projectPaths deleteSource source sourceFile =
    sq check_ctx
    (sq (count_in (\<lambda>s. s \<lparr> smFilesScanned := Suc (smFilesScanned s) \<rparr>))
    (bnd (existingByOriginalPath source deviceID sourceFile) (\<lambda>prior.
     bnd (import_known_path source sourceFile deviceID projectPaths deleteSource prior) (\<lambda>handled.
     if handled then ret ()
     else
       bnd cwd_of (\<lambda>cwd.
       bnd time_now (\<lambda>now.
       bnd (attempt (on_fs (ParseTranscriptFile cwd now source sourceFile))) (\<lambda>r.
       case r of
         Inl e \<Rightarrow>
           if err_is e ErrEmptyTranscript then ret ()
           else
             sq (count_in (\<lambda>s. s \<lparr> smFilesSkipped := Suc (smFilesSkipped s) \<rparr>))
                (\<lambda>w. (Inr (), w \<lparr> imStderr := imStderr w @ [sourceFile] \<rparr>))
       | Inr (s, items) \<Rightarrow>
           bnd (resolveGeminiCWD sourceFile projectPaths deviceID (s \<lparr> icSourceDeviceID := deviceID \<rparr>)) (\<lambda>s1.
           import_known_session source sourceFile deviceID projectPaths deleteSource prior
             (s1 \<lparr> icProjectID := MatchProjectPath projectPaths (icCWD s1) deviceID \<rparr>, items)))))))))"

definition import_root ::
  "string \<Rightarrow> ProjectPath list \<Rightarrow> bool \<Rightarrow> string \<Rightarrow> string \<Rightarrow> (Import, unit) act" where
  "import_root deviceID projectPaths deleteSource source root =
    bnd cwd_of (\<lambda>cwd.
    bnd (on_fs (TranscriptFiles cwd source root)) (\<lambda>found_files.
    each (import_file deviceID projectPaths deleteSource source) found_files))"

definition import_sources ::
  "string \<Rightarrow> ProjectPath list \<Rightarrow> bool \<Rightarrow> (string \<times> string list) list \<Rightarrow> (Import, unit) act" where
  "import_sources deviceID projectPaths deleteSource roots =
    each (\<lambda>(source, sourceRoots).
      sq (loadChatImportSessionIndex source deviceID)
      (sq (each (import_root deviceID projectPaths deleteSource source) sourceRoots)
          flush)) roots"

text \<open>The whole scan; what is still pending after an error is discarded.\<close>

definition runImportScan ::
  "string \<Rightarrow> ProjectPath list \<Rightarrow> bool \<Rightarrow> (string \<times> string list) list \<Rightarrow> (Import, unit) act" where
  "runImportScan deviceID projectPaths deleteSource roots =
    cleanup_unless_ok discardPending (import_sources deviceID projectPaths deleteSource roots)"

section \<open>Before and after\<close>

record chatImportOptions =
  opDeviceID :: string
  opAgent :: string
  opRoots :: "string list"
  opDeleteSource :: bool

definition validateActiveDevice :: "string \<Rightarrow> (Import, unit) act" where
  "validateActiveDevice deviceID =
    bnd (attempt (on_repo (sqlite_GetDeviceByID deviceID))) (\<lambda>r.
      case r of
        Inl e \<Rightarrow>
          if err_is e ErrNotFound then fail (Plain ''device is not registered'') else fail (Wrapped ''get device'' e)
      | Inr device \<Rightarrow> if gArchivedAt device \<noteq> None then fail (Plain ''device is archived'') else ret ())"

text \<open>The parseable sessions on disk, byte-identical files counted once.\<close>

definition expect_file :: "string \<Rightarrow> string \<Rightarrow>
    (string \<times> string) list \<times> (string \<times> string) list \<Rightarrow> (Import, (string \<times> string) list \<times> (string \<times> string) list) act" where
  "expect_file source sourceFile st =
    (case st of (expected, seen) \<Rightarrow>
     sq check_ctx
     (bnd cwd_of (\<lambda>cwd.
      bnd time_now (\<lambda>now.
      bnd (attempt (on_fs (ParseTranscriptFile cwd now source sourceFile))) (\<lambda>r.
      case r of
        Inl _ \<Rightarrow> ret st
      | Inr (session, _) \<Rightarrow>
          bnd (wrap ''hash chat source for import completeness''
                (on_fs (HashFile (filepath_abs cwd sourceFile)))) (\<lambda>hash.
          ret (if (source, hash) \<in> set seen then st
               else (List.insert (icSource session, icSourceSessionID session) expected,
                     (source, hash) # seen))))))))"

definition scanChatImportCompleteness ::
  "(string \<times> string list) list \<Rightarrow> (Import, (string \<times> string) list) act" where
  "scanChatImportCompleteness roots =
    bnd cwd_of (\<lambda>cwd.
    bnd (each_acc (\<lambda>(source, sourceRoots).
           each_acc (\<lambda>root st.
             bnd (on_fs (TranscriptFiles cwd source root)) (\<lambda>found_files.
             each_acc (expect_file source) found_files st)) sourceRoots) roots ([], [])) (\<lambda>(expected, _).
    ret expected))"

text \<open>How many of them are stored, which \<open>applyChatImportCompleteness\<close> compares with their number.\<close>

definition applyChatImportCompleteness :: "(string \<times> string) list \<Rightarrow> (Import, nat) act" where
  "applyChatImportCompleteness expected =
    each_acc (\<lambda>(source, sourceSessionID) stored.
      sq check_ctx
      (bnd (attempt (on_repo (sqlite_GetChatSessionBySource source sourceSessionID))) (\<lambda>r.
         case r of
           Inr _ \<Rightarrow> ret (Suc stored)
         | Inl e \<Rightarrow>
             if err_is e ErrNotFound then ret stored
             else fail (Wrapped ''check chat import completeness'' e)))) expected 0"

definition chatImportPrepared ::
  "(error + string) \<Rightarrow> chatImportOptions \<Rightarrow> (Import, string \<times> ProjectPath list \<times> (string \<times> string list) list) act" where
  "chatImportPrepared home opts =
    (let deviceID = trim_space (opDeviceID opts) in
     if deviceID = [] then fail (Plain ''--device is required'')
     else
       bnd (lift_result (NormalizeAgentName (opAgent opts))) (\<lambda>sourceFilter.
       if opRoots opts \<noteq> [] \<and> sourceFilter = [] then fail (Plain ''--agent is required when --root is set'')
       else
         sq (validateActiveDevice deviceID)
         (bnd (wrap ''list project paths'' (on_repo (sqlite_ListProjectPaths None))) (\<lambda>projectPaths.
          bnd cwd_of (\<lambda>cwd.
          bnd (on_fs (Roots cwd home (opRoots opts) sourceFilter projectPaths)) (\<lambda>roots.
          ret (deviceID, projectPaths, roots)))))))"

text \<open>The import between taking and releasing the sync lock: the number of stored items before and after, and the number
  of parseable sessions that are not stored.\<close>

definition runChatImport :: "(error + string) \<Rightarrow> chatImportOptions \<Rightarrow> (Import, nat \<times> nat \<times> nat) act" where
  "runChatImport home opts =
    bnd (chatImportPrepared home opts) (\<lambda>(deviceID, projectPaths, roots).
    bnd (scanChatImportCompleteness roots) (\<lambda>expected.
    bnd (wrap ''count chat items before import'' (on_repo (sqlite_CountChatItems \<lparr> ciIncludeDeleted = False \<rparr>))) (\<lambda>before.
    sq (runImportScan deviceID projectPaths (opDeleteSource opts) roots)
    (bnd (wrap ''count chat items after import'' (on_repo (sqlite_CountChatItems \<lparr> ciIncludeDeleted = False \<rparr>))) (\<lambda>after.
     bnd (applyChatImportCompleteness expected) (\<lambda>stored.
     if stored < length expected then fail (Plain ''chat import completeness check failed'')
     else ret (before, after, length expected - stored)))))))"

end
