(* ===== verification/Chat_Import_Props.thy ===== *)
theory Chat_Import_Props
  imports Chat_Transcript Sqlite_Chat
begin

text \<open>What the transcript parsers guarantee: every item can be stored, parsing the appended part of a line transcript
  gives the items a full parse adds, and appended rows do not change whose session they belong to.\<close>

section \<open>Shared facts\<close>

lemma each_result_append:
  "each_result f (xs @ ys) s = (case each_result f xs s of Inl e \<Rightarrow> Inl e | Inr s' \<Rightarrow> each_result f ys s')"
  by (induction xs arbitrary: s) (auto split: sum.splits)

lemma each_result_invariant:
  assumes "each_result f xs s = Inr s'" "I s" "\<And>x s s'. I s \<Longrightarrow> f x s = Inr s' \<Longrightarrow> I s'"
  shows "I s'"
  using assms(1,2) by (induction xs arbitrary: s) (auto split: sum.splits dest: assms(3))

lemma split_at_break: "split_at c (s @ c # t) = split_at c s @ split_at c t"
  by (induction c s rule: split_at.induct) (auto split: list.splits simp: Cons_eq_append_conv append_eq_Cons_conv)

lemma first_some_Some: "first_some f xs = Some y \<Longrightarrow> \<exists>x\<in>set xs. f x = Some y"
  by (induction xs) (auto split: option.splits)

lemma stringField_not_blank: "stringField p k = Some s \<Longrightarrow> \<not> blank s"
  by (auto simp: stringField_def string_of_def blank_def split: option.splits json.splits if_splits)

lemma firstString_not_blank: "firstString p ks \<noteq> [] \<Longrightarrow> \<not> blank (firstString p ks)"
  by (auto simp: firstString_def split: option.splits dest!: first_some_Some stringField_not_blank)

section \<open>Items can be stored\<close>

lemma constant_not_blank [simp]:
  "\<not> blank ''unknown''" "\<not> blank ''message''" "\<not> blank ''tool_output''"
  by (rule not_blank_visible; simp add: visible_def)+

lemma item_role_not_blank: "\<not> blank (item_role p)"
  using firstString_not_blank [of p] by (simp add: item_role_def Let_def)

lemma item_type_not_blank: "\<not> blank (item_type p)"
  using firstString_not_blank [of p] by (simp add: item_type_def Let_def)

lemma itemFromPayload_valid: "0 \<le> n \<Longrightarrow> validChatItemInput (itemFromPayload p n)"
  by (simp add: validChatItemInput_def itemFromPayload_def item_role_not_blank item_type_not_blank)

lemma itemFromPayload_ordinal [simp]: "iiOrdinal (itemFromPayload p n) = n"
  by (simp add: itemFromPayload_def)

text \<open>Items that can be stored together: valid, and no ordinal twice, all below the next one.\<close>

definition storable :: "CreateChatItemInput list \<Rightarrow> int \<Rightarrow> bool" where
  "storable items n =
    (0 \<le> n \<and> list_all (\<lambda>i. validChatItemInput i \<and> iiOrdinal i < n) items \<and>
     sorted_wrt (<) (List.map iiOrdinal items))"

lemma storable_Nil: "0 \<le> n \<Longrightarrow> storable [] n"
  by (simp add: storable_def)

lemma storable_next: "storable items n \<Longrightarrow> storable items (n + 1)"
  by (auto simp: storable_def list_all_iff)

lemma storable_snoc: "storable items n \<Longrightarrow> storable (items @ [itemFromPayload p n]) (n + 1)"
  by (auto simp: storable_def list_all_iff sorted_wrt_append itemFromPayload_valid)

lemma add_row_storable:
  assumes "storable (snd (fst st)) (snd st)"
  shows "storable (snd (fst (add_row source fb sub row st))) (snd (add_row source fb sub row st))"
  using assms
  by (auto simp: add_row_def Let_def itemFromPayload_def [THEN arg_cong [where f = iiRawJSON]] split: prod.splits option.splits intro: storable_snoc)

lemma parse_jsonl_storable:
  assumes "parse_jsonl source fb sub content st = Inr st'" "storable (snd (fst st)) (snd st)"
  shows "storable (snd (fst st')) (snd st')"
  using assms unfolding parse_jsonl_def
proof (rule each_result_invariant [where I = "\<lambda>st. storable (snd (fst st)) (snd st)"])
  fix x and s s' :: "parsed \<times> int"
  assume "storable (snd (fst s)) (snd s)" "jsonl_line source fb sub x s = Inr s'"
  then show "storable (snd (fst s')) (snd s')"
    by (auto simp: jsonl_line_def Let_def add_row_storable split: if_splits option.splits)
qed

lemma add_element_storable:
  "add_element v st = Inr st' \<Longrightarrow> storable (fst st) (snd st) \<Longrightarrow> storable (fst st') (snd st')"
  by (auto simp: add_element_def Let_def split: prod.splits if_splits option.splits json.splits
      intro: storable_snoc storable_next)

lemma finalized_times: "icStartedAt (finalizeSessionTimes now items s) \<le> icLastActivityAt (finalizeSessionTimes now items s)"
proof -
  have "icStartedAt (default_title items s) = icStartedAt s" "icLastActivityAt (default_title items s) = icLastActivityAt s" for s
    by (simp_all add: default_title_def split: list.split option.split)
  then show ?thesis by (simp add: finalizeSessionTimes_def Let_def)
qed

definition good_transcript :: "parsed \<Rightarrow> bool" where
  "good_transcript r =
    (case r of (s, items) \<Rightarrow>
       items \<noteq> [] \<and> list_all validChatItemInput items \<and> sorted_wrt (<) (List.map iiOrdinal items) \<and>
       icStartedAt s \<le> icLastActivityAt s)"

lemma storable_good: "storable items n \<Longrightarrow> items \<noteq> [] \<Longrightarrow> good_transcript (finalizeSessionTimes now items' s, items)"
  by (auto simp: good_transcript_def storable_def finalized_times list_all_iff)

lemma ok_any: "(\<And>a. ok_triple (\<lambda>_. True) (f a) Q) \<Longrightarrow> ok_triple (\<lambda>_. True) (bnd m f) Q"
  by (rule ok_bnd [where R = "\<lambda>_ _. True"]) (simp_all add: ok_triple_def)

lemma ok_any_sq: "ok_triple (\<lambda>_. True) n Q \<Longrightarrow> ok_triple (\<lambda>_. True) (sq m n) Q"
  unfolding sq_def by (rule ok_any)

lemma ok_lifted: "(\<And>a. r = Inr a \<Longrightarrow> Q a) \<Longrightarrow> ok_triple (\<lambda>_. True) (lift_result r) (\<lambda>a _. Q a)"
  by (auto simp: ok_triple_def lift_result_def)

lemma reader_storable:
  assumes "parseJSONLTranscriptReader now source content session n fb sub = Inr (s, items)" "0 \<le> n"
  shows "\<exists>s' m. s = finalizeSessionTimes now items s' \<and> storable items m"
  using assms parse_jsonl_storable [of source fb sub content "((session, []), n)"]
  by (fastforce simp: parseJSONLTranscriptReader_def storable_Nil split: sum.splits prod.splits)

lemma ok_jsonl: "ok_triple (\<lambda>_. True) (parseJSONLTranscript cwd now source path) (\<lambda>r _. good_transcript r)"
  unfolding parseJSONLTranscript_def Let_def
proof (rule ok_any_sq, rule ok_any, rule ok_bnd [where R = "\<lambda>r _. \<exists>s' n. fst r = finalizeSessionTimes now (snd r) s' \<and> storable (snd r) n"])
  show "ok_triple (\<lambda>_. True) (lift_result (parseJSONLTranscriptReader now source content s 0 fb sub))
    (\<lambda>r _. \<exists>s' n. fst r = finalizeSessionTimes now (snd r) s' \<and> storable (snd r) n)" for content s fb sub
    by (rule ok_lifted) (metis reader_storable order.refl prod.collapse)
  show "ok_triple (\<lambda>_. \<exists>s' n. fst r = finalizeSessionTimes now (snd r) s' \<and> storable (snd r) n)
    (lift_result (nonempty_transcript r)) (\<lambda>r _. good_transcript r)" for r
    by (cases r) (auto simp: ok_triple_def lift_result_def nonempty_transcript_def storable_good split: if_splits)
qed

lemma array_storable:
  assumes "parseJSONTranscriptArray content key n = Inr items"
  shows "\<exists>m. storable items m"
proof -
  obtain vs m where "each_result add_element vs ([], 0) = Inr (items, m)"
    using assms
    by (auto simp: parseJSONTranscriptArray_def decodeJSONTranscriptItems_def Let_def
        split: option.splits if_splits json.splits sum.splits prod.splits)
  then have "storable (fst (items, m)) (snd (items, m))"
    by (rule each_result_invariant [where I = "\<lambda>st. storable (fst st) (snd st)"])
       (auto simp: storable_Nil dest: add_element_storable)
  then show ?thesis by auto
qed

lemma ok_json: "ok_triple (\<lambda>_. True) (parseJSONTranscript cwd now source path) (\<lambda>r _. good_transcript r)"
  unfolding parseJSONTranscript_def Let_def
proof (rule ok_any_sq, rule ok_any)
  fix scan :: jsonTranscriptScan
  let ?items = "\<lambda>c k n. lift_result (parseJSONTranscriptArray c k n)"
  have step: "ok_triple (\<lambda>_. True) (bnd (?items c k n) (\<lambda>items. if items = [] then fail ErrEmptyTranscript
      else ret (finalizeSessionTimes now items (S :: CreateChatSessionInput), items))) (\<lambda>r _. good_transcript r)" for c k n S
    by (rule ok_bnd [where R = "\<lambda>items _. \<exists>m. storable items m"])
       (auto simp: ok_triple_def ret_def fail_def lift_result_def storable_good dest: array_storable)
  show "ok_triple (\<lambda>_. True)
    (case selectedArray scan of None \<Rightarrow> fail (Plain ''no transcript array'')
     | Some (arrayKey, occurrence) \<Rightarrow>
         sq (open_file (filepath_abs cwd path)) (bnd (read_file (filepath_abs cwd path)) (\<lambda>content.
           bnd (?items content arrayKey occurrence) (\<lambda>items.
             if items = [] then fail ErrEmptyTranscript
             else ret (finalizeSessionTimes now items
               (fields_applyTo (jsSessionFields scan) (newTranscriptSession cwd source path)), items)))))
    (\<lambda>r _. good_transcript r)"
    by (auto split: option.split intro!: ok_fail ok_any_sq ok_any step)
qed


section \<open>Appended rows\<close>

text \<open>What a row adds does not depend on the session it is added to.\<close>

lemma add_row_items:
  "snd (fst (add_row source fb sub row ((s, items), n))) =
     items @ snd (fst (add_row source fb' sub' row ((s', []), n)))"
  "snd (add_row source fb sub row ((s, items), n)) = snd (add_row source fb' sub' row ((s', []), n))"
  by (auto simp: add_row_def Let_def split: prod.splits option.splits)

definition parsed_items :: "error + (parsed \<times> int) \<Rightarrow> error + CreateChatItemInput list \<times> int" where
  "parsed_items r = map_sum id (\<lambda>((s, items), n). (items, n)) r"

lemma parse_items:
  "parsed_items (each_result (jsonl_line source fb sub) ls ((s, items), n)) =
    map_sum id (\<lambda>(is0, m). (items @ is0, m)) (parsed_items (each_result (jsonl_line source fb' sub') ls ((s', []), n)))"
proof (induction ls arbitrary: s s' items n fb sub fb' sub')
  case Nil
  show ?case by (simp add: parsed_items_def)
next
  case (Cons l ls)
  show ?case
  proof (cases "jsonl_line source fb sub l ((s, items), n)")
    case (Inl e)
    then have "jsonl_line source fb' sub' l ((s', []), n) = Inl e"
      by (auto simp: jsonl_line_def Let_def split: if_splits option.splits)
    with Inl show ?thesis by (simp add: parsed_items_def)
  next
    case (Inr st)
    obtain t is0 m where st: "st = ((t, is0), m)" by (metis prod.collapse)
    obtain t' is1 m' where run: "jsonl_line source fb' sub' l ((s', []), n) = Inr ((t', is1), m')"
      and rel: "is0 = items @ is1" "m' = m"
    proof (cases "trim_space l = []")
      case True
      then show thesis using Inr st that [of s' "[]" n] by (auto simp: jsonl_line_def split: if_splits)
    next
      case False
      then obtain row where row: "unmarshal_row (trim_space l) = Some row"
        and add: "add_row source fb sub row ((s, items), n) = st" "length l < maxJSONLLineBytes"
        using Inr by (auto simp: jsonl_line_def Let_def split: if_splits option.splits)
      obtain t' is1 m' where add': "add_row source fb' sub' row ((s', []), n) = ((t', is1), m')"
        by (metis prod.collapse)
      then show thesis
        using False row add add_row_items [of source fb sub row s items n fb' sub' s'] st
        by (intro that [of t' is1 m']) (auto simp: jsonl_line_def Let_def not_le)
    qed
    have "parsed_items (each_result (jsonl_line source fb sub) ls ((t, is0), m)) =
        map_sum id (\<lambda>(js, k). (is0 @ js, k)) (parsed_items (each_result (jsonl_line source fb' sub') ls ((t', []), m)))"
      and "parsed_items (each_result (jsonl_line source fb' sub') ls ((t', is1), m)) =
        map_sum id (\<lambda>(js, k). (is1 @ js, k)) (parsed_items (each_result (jsonl_line source fb' sub') ls ((t', []), m)))"
      by (rule Cons.IH)+
    then show ?thesis
      using Inr st run rel
      by (cases "parsed_items (each_result (jsonl_line source fb' sub') ls ((t', []), m))") auto
  qed
qed

lemma reader_items:
  "map_sum id snd (parseJSONLTranscriptReader now source content s n fb sub) =
    map_sum id fst (parsed_items (parse_jsonl source fb sub content ((s, []), n)))"
  by (auto simp: parseJSONLTranscriptReader_def parsed_items_def split: sum.split)

lemma blank_tail: "parse_jsonl source fb sub (content @ [CHR 0x0A]) st = parse_jsonl source fb sub content st"
proof -
  have "jsonl_line source fb sub [] st = Inr st" for st
    by (simp add: jsonl_line_def maxJSONLLineBytes_def)
  then show ?thesis
    by (simp add: parse_jsonl_def split_at_break each_result_append split: sum.split)
qed

text \<open>Every row that is an item takes one ordinal.\<close>

lemma add_row_count:
  "snd (add_row source fb sub row ((s, items), n)) - int (length (snd (fst (add_row source fb sub row ((s, items), n))))) =
    n - int (length items)"
  by (auto simp: add_row_def Let_def itemFromPayload_def split: prod.splits option.splits)

lemma parse_count:
  assumes "parse_jsonl source fb sub content st = Inr st'"
  shows "int (length (snd (fst st'))) - int (length (snd (fst st))) = snd st' - snd st"
proof -
  let ?d = "\<lambda>st :: parsed \<times> int. snd st - int (length (snd (fst st)))"
  have "?d st' = ?d st"
    using assms unfolding parse_jsonl_def
  proof (rule each_result_invariant [where I = "\<lambda>x. ?d x = ?d st"])
    fix x and s s' :: "parsed \<times> int"
    assume "?d s = ?d st" "jsonl_line source fb sub x s = Inr s'"
    then show "?d s' = ?d st"
      using add_row_count [of source fb sub _ "fst (fst s)" "snd (fst s)" "snd s"]
      by (auto simp: jsonl_line_def Let_def split: if_splits option.splits)
  qed simp
  then show ?thesis by simp
qed

text \<open>C35. Importing only what was appended is importing everything: for a line transcript that has grown after a line break,
  the items of the whole file are those of the old part followed by those the appended range is parsed into, with
  the ordinals going on where the old part ended; and the whole file is refused exactly when one of the two is.
  The session the appended range is parsed for does not matter.\<close>

theorem append_import_exact:
  "map_sum id snd (parseJSONLTranscriptReader now source (old @ [CHR 0x0A] @ added) session 0 fallback sub) =
    (case parseJSONLTranscriptReader now source (old @ [CHR 0x0A]) session 0 fallback sub of
       Inl e \<Rightarrow> Inl e
     | Inr (_, items) \<Rightarrow>
         map_sum id (\<lambda>r. items @ snd r)
           (parseJSONLTranscriptReader now' source
             (take (length added) (drop (length (old @ [CHR 0x0A])) (old @ [CHR 0x0A] @ added)))
             base (int (length items)) [] no_subagent))"
proof (cases "parse_jsonl source fallback sub old ((session, []), 0)")
  case (Inl e)
  then show ?thesis
    using reader_items [of now source _ session 0 fallback sub] blank_tail [of source fallback sub old]
    by (simp add: parseJSONLTranscriptReader_def parse_jsonl_def split_at_break each_result_append)
next
  case (Inr st)
  obtain s items n where st: "st = ((s, items), n)" by (metis prod.collapse)
  have count: "n = int (length items)"
    by (rule parse_count [OF Inr [unfolded st], simplified, symmetric])
  have "parsed_items (parse_jsonl source fallback sub (old @ [CHR 0x0A] @ added) ((session, []), 0)) =
      parsed_items (parse_jsonl source fallback sub added ((s, items), n))"
    using Inr st by (simp add: parse_jsonl_def split_at_break each_result_append)
  also have "\<dots> = map_sum id (\<lambda>(js, m). (items @ js, m)) (parsed_items (parse_jsonl source [] no_subagent added ((base, []), n)))"
    unfolding parse_jsonl_def by (rule parse_items)
  finally show ?thesis
    using Inr st blank_tail [of source fallback sub old]
    by (simp add: reader_items count sum.map_comp split: sum.split)
       (auto simp: parseJSONLTranscriptReader_def reader_items [symmetric] parsed_items_def split: sum.splits)
qed

text \<open>What an appended row cannot touch.\<close>

definition same_identity :: "CreateChatSessionInput \<Rightarrow> CreateChatSessionInput \<Rightarrow> bool" where
  "same_identity s base =
    (icID s = icID base \<and> icSource s = icSource base \<and> icSourceSessionID s = icSourceSessionID base \<and>
     icSourceDeviceID s = icSourceDeviceID base \<and> icProjectID s = icProjectID base \<and>
     icOriginalSourcePath s = icOriginalSourcePath base \<and> icRawSourceKey s = icRawSourceKey base \<and>
     icDeletedAt s = icDeletedAt base \<and>
     (icParentSourceSessionID base = None \<or> icParentSourceSessionID s = icParentSourceSessionID base))"

lemma same_identity_refl [simp]: "same_identity s s"
  by (simp add: same_identity_def)

lemma same_identity_trans: "same_identity s t \<Longrightarrow> same_identity t u \<Longrightarrow> same_identity s u"
  by (auto simp: same_identity_def)

lemma time_identity [simp]: "same_identity (applySessionTime t s) s"
  by (simp add: same_identity_def applySessionTime_def Let_def)

lemma fields_identity:
  assumes "icSourceSessionID s \<noteq> []"
  shows "same_identity (applySessionFields [] p s) s"
proof -
  have "same_identity (meta_title p s') s'" "same_identity (meta_cwd p s') s'" for s'
    by (simp_all add: same_identity_def meta_title_def meta_cwd_def)
  moreover have "same_identity (meta_identity [] p s) s"
    using assms by (auto simp: same_identity_def meta_identity_def Let_def split: option.split)
  ultimately have "same_identity (meta_title p (meta_cwd p (meta_identity [] p s))) s"
    by (blast intro: same_identity_trans)
  then show ?thesis
    by (auto simp: applySessionFields_def Let_def split: option.split intro: same_identity_trans [OF time_identity])
qed

lemma item_fields_identity: "icSourceSessionID s \<noteq> [] \<Longrightarrow> same_identity (applyItemSessionFields [] no_subagent p s) s"
  by (auto simp: same_identity_def applyItemSessionFields_def item_identity_def no_subagent_def Let_def split: option.splits)

lemma finalize_identity: "same_identity (finalizeSessionTimes now items s) s"
proof -
  have items: "same_identity (fold item_time xs s) s" for xs s
  proof (induction xs arbitrary: s)
    case (Cons x xs)
    have "same_identity (item_time x s) s" by (simp add: item_time_def split: option.split)
    with Cons [of "item_time x s"] show ?case by (auto intro: same_identity_trans)
  qed simp
  have title: "same_identity (default_title xs s) s" for xs s
    by (simp add: default_title_def same_identity_def split: list.split option.split)
  show ?thesis
    unfolding finalizeSessionTimes_def Let_def
    by (rule same_identity_trans [OF title], rule same_identity_trans [OF _ items [of items s]])
       (simp add: same_identity_def)
qed

lemma add_row_identity:
  assumes "icSourceSessionID (fst (fst st)) \<noteq> []"
  shows "same_identity (fst (fst (add_row source [] no_subagent row st))) (fst (fst st))"
  using assms
  by (auto simp: add_row_def Let_def fields_identity item_fields_identity split: prod.splits option.splits)

lemma parse_identity:
  assumes "parse_jsonl source [] no_subagent content st = Inr st'" "icSourceSessionID (fst (fst st)) \<noteq> []"
  shows "same_identity (fst (fst st')) (fst (fst st))"
  using assms(1) unfolding parse_jsonl_def
proof (rule each_result_invariant [where I = "\<lambda>x. same_identity (fst (fst x)) (fst (fst st))"])
  fix l and s s' :: "parsed \<times> int"
  assume s: "same_identity (fst (fst s)) (fst (fst st))" and run: "jsonl_line source [] no_subagent l s = Inr s'"
  then have "icSourceSessionID (fst (fst s)) \<noteq> []" using assms(2) by (simp add: same_identity_def)
  then have "same_identity (fst (fst (add_row source [] no_subagent row s))) (fst (fst s))" for row
    by (rule add_row_identity)
  with s run show "same_identity (fst (fst s')) (fst (fst st))"
    by (auto simp: jsonl_line_def Let_def split: if_splits option.splits intro: same_identity_trans)
qed simp

lemma reader_identity:
  assumes "parseJSONLTranscriptReader now source content base n [] no_subagent = Inr (s, items)"
    "icSourceSessionID base \<noteq> []"
  shows "same_identity s base"
proof -
  obtain s' m where "parse_jsonl source [] no_subagent content ((base, []), n) = Inr ((s', items), m)"
    and s: "s = finalizeSessionTimes now items s'"
    using assms(1) by (auto simp: parseJSONLTranscriptReader_def split: sum.splits)
  from parse_identity [OF this(1)] assms(2) have "same_identity s' base" by simp
  with finalize_identity show ?thesis unfolding s by (rule same_identity_trans)
qed

text \<open>C39. Whatever rows an appended range holds, the session it belongs to stays who it was: id, source, source
  session id, device, project and raw source are those of the session it is appended to, and a parent that is
  known is kept.\<close>

theorem appended_rows_keep_identity:
  assumes "icSourceSessionID base \<noteq> []"
  shows "case fst (ParseAppendedJSONLTranscript cwd now source path offset limit base n d) of
      Inl _ \<Rightarrow> True
    | Inr (s, items) \<Rightarrow> same_identity s base"
proof -
  have "ok_triple (\<lambda>_. True) (ParseAppendedJSONLTranscript cwd now source path offset limit base n)
      (\<lambda>r _. same_identity (fst r) base)"
    unfolding ParseAppendedJSONLTranscript_def
    by (auto intro!: ok_fail ok_any_sq ok_any ok_lifted dest: reader_identity [OF _ assms])
  then have "ParseAppendedJSONLTranscript cwd now source path offset limit base n d = (Inr r, d') \<Longrightarrow>
      same_identity (fst r) base" for r d'
    by (rule ok_tripleD) simp
  then show ?thesis
    by (cases "ParseAppendedJSONLTranscript cwd now source path offset limit base n d") (auto split: sum.split)
qed

text \<open>A fork whose parent is known, with a range appended that has one row.\<close>

definition sample_base :: CreateChatSessionInput where
  "sample_base =
    \<lparr> icID = ''20240101-0000000a'', icSource = ''codex'', icSourceSessionID = ''s1'',
      icParentSourceSessionID = Some ''s0'', icSourceDeviceID = ''d'', icProjectID = None, icCWD = Some ''/a'',
      icTitle = None, icStartedAt = 5000000, icLastActivityAt = 6000000, icOriginalSourcePath = None,
      icRawSourceKey = None, icCreatedAt = None, icUpdatedAt = None, icDeletedAt = None \<rparr>"

definition sample_appended :: files where
  "sample_appended =
    \<lparr> dkTree = [([''s1.jsonl''], File (''{}'' @ [CHR 0x0A] @ ''{}'' @ [CHR 0x0A])), ([], Dir)],
      dkTick = 0, dkFault = (\<lambda>_. None), dkCrash = None, dkTemp = (\<lambda>_. []), dkNow = (\<lambda>_. []), dkJunk = (\<lambda>_. []) \<rparr>"

theorem appended_rows_keep_identity_witness:
  "case fst (ParseAppendedJSONLTranscript [] 7000000 ''codex'' ''/s1.jsonl'' 3 3 sample_base 1 sample_appended) of
      Inl _ \<Rightarrow> True
    | Inr (s, items) \<Rightarrow> same_identity s sample_base"
  by (rule appended_rows_keep_identity) (simp add: sample_base_def)

end
