(* ===== verification/Chat_Run_Props.thy ===== *)
theory Chat_Run_Props
  imports Chat_Import_Run Chat_Import_Props Local_Files_Props Sqlite_Ids Sqlite_Chat_Props
begin

text \<open>What a whole import run keeps, however it ends. The proofs follow the code once, in a locale that states what a
  predicate of the open stack must allow: reading, the batch write, and the operations on staged raw sources. It is
  interpreted on the integrity of the database and on the files outside the managed chats.\<close>

section \<open>Disk programs that only read\<close>

definition reads_only :: "(files, 'a) act \<Rightarrow> bool" where
  "reads_only m = (\<forall>d. dkTree (snd (m d)) = dkTree d)"

lemma reads_onlyI: "(\<And>t. keeps (on_tree (\<lambda>u. u = t)) m) \<Longrightarrow> reads_only m"
  unfolding reads_only_def keeps_def by blast

lemma reads_only_import:
  "reads_only (TranscriptFiles cwd source root)"
  "reads_only (ParseTranscriptFile cwd now source p)"
  "reads_only (ParseAppendedJSONLTranscript cwd now source p off limit base n)"
  "reads_only (ResolveGeminiProjectCWD cwd p paths dev)"
  "reads_only (Roots cwd home extra sf paths)"
  "reads_only (HashFile q)" "reads_only (lstat q)" "reads_only (open_file q)" "reads_only (read_full q off2 k)"
  unfolding TranscriptFiles_def ParseTranscriptFile_def parseJSONLTranscript_def parseJSONTranscript_def
    ParseAppendedJSONLTranscript_def ResolveGeminiProjectCWD_def readGeminiProjectRoot_def readGeminiProjectHash_def
    Roots_def normalizePath_def HashFile_def open_file_def read_full_def Let_def
  by (rule reads_onlyI, intro keep_intros)+

section \<open>The contract\<close>

locale import_contract =
  fixes S :: "Stack \<Rightarrow> bool" and c :: Client and deleting :: bool
  assumes fs: "S s \<Longrightarrow> lsFS s = c"
    and tree: "S s \<Longrightarrow> dkTree d = dkTree (lsDisk s) \<Longrightarrow> S (s \<lparr> lsDisk := d \<rparr>)"
    and tick: "S s \<Longrightarrow> S (s \<lparr> lsDb := (lsDb s) \<lparr> dbTick := n \<rparr> \<rparr>)"
    and batch_write: "keeps S (on_db (sqlite_WriteChatImportBatch ops))"
    and stage_source: "keeps S (on_disk (CopyChatSourceToStage c i p))"
    and drop_stage: "keeps S (on_disk (DeleteChatSourceStage c stage))"
    and promote_stage: "keeps S (on_disk (PromoteChatSourceStage c stage))"
    and remove_source: "deleting \<Longrightarrow> keeps S (on_disk (remove_file q))"
begin

text \<open>The entries of a run that does not delete sources never ask for it.\<close>

definition allowed :: "pendingChatImport \<Rightarrow> bool" where
  "allowed e = (pdDeleteSource e \<longrightarrow> deleting)"

definition I :: "Import \<Rightarrow> bool" where
  "I w = (S (imStack w) \<and> list_all allowed (imEntries w))"

lemma keeps_on_fs: "keeps S (on_disk m) \<Longrightarrow> keeps I (on_fs m)"
  by (auto simp: keeps_def on_fs_def I_def split: prod.splits)

lemma keeps_on_repo: "keeps S (on_db m) \<Longrightarrow> keeps I (on_repo m)"
  by (auto simp: keeps_def on_repo_def I_def split: prod.splits)

lemma keeps_reading: "reads_only m \<Longrightarrow> keeps I (on_fs m)"
proof (rule keeps_on_fs, rule keepsI)
  fix s assume m: "reads_only m" and s: "S s"
  obtain r d where run: "m (lsDisk s) = (r, d)" by fastforce
  with m have "dkTree d = dkTree (lsDisk s)" unfolding reads_only_def by (metis snd_conv)
  with s have "S (s \<lparr> lsDisk := d \<rparr>)" by (rule tree)
  then show "S (snd (on_disk m s))" by (simp add: on_disk_def run)
qed

lemma keeps_query_stack: "keeps S (on_db (query f))"
  using tick by (auto simp: keeps_def on_db_def query_def statement_def Let_def split: option.splits)

lemma keeps_query_import [keep_intros]: "keeps I (on_repo (query f))"
  by (rule keeps_on_repo [OF keeps_query_stack])

lemma keeps_stack:
  "(\<And>w. imStack (snd (m w)) = imStack w) \<Longrightarrow>
   (\<And>w. list_all allowed (imEntries w) \<Longrightarrow> list_all allowed (imEntries (snd (m w)))) \<Longrightarrow> keeps I m"
  by (simp add: keeps_def I_def)

lemma merge_allowed [simp]: "allowed (merge_attribution y e) = allowed e"
  by (simp add: allowed_def merge_attribution_def Let_def)

lemma merge_first_allowed: "merge_first rep y es = Some es' \<Longrightarrow> list_all allowed es \<Longrightarrow> list_all allowed es'"
  by (induction es arbitrary: es') (auto split: if_splits)

lemma keeps_cond: "(b \<Longrightarrow> keeps I m) \<Longrightarrow> (\<not> b \<Longrightarrow> keeps I n) \<Longrightarrow> keeps I (if b then m else n)"
  by simp

lemma bookkeeping [keep_intros]:
  "keeps I (get f)" "keeps I (count_in g)" "keeps I check_ctx" "keeps I time_now" "keeps I random_bytes"
  "keeps I (remember x)" "keeps I (mark_mutated b)" "keeps I (see a h rep)" "keeps I (mergePendingAttribution rep y)"
  by (rule keeps_stack;
      simp add: get_def count_in_def check_ctx_def time_now_def random_bytes_def remember_def mark_mutated_def see_def
        mergePendingAttribution_def Let_def merge_first_allowed split: option.split)+

lemma keeps_client: "keeps I (f c) \<Longrightarrow> keeps I (bnd client f)"
  using fs by (auto simp: keeps_def client_def get_def bnd_def I_def)

lemma keeps_entries: "(\<And>es. list_all allowed es \<Longrightarrow> keeps I (f es)) \<Longrightarrow> keeps I (bnd (get imEntries) f)"
  by (auto simp: keeps_def get_def bnd_def I_def)

lemma on_repo_found: "on_repo (found m) = bnd (on_repo m) (\<lambda>r. case r of None \<Rightarrow> fail ErrNotFound | Some a \<Rightarrow> ret a)"
  by (rule ext)
     (auto simp: on_repo_def on_db_def found_def bnd_def ret_def fail_def split: prod.splits sum.splits option.splits)

lemma on_repo_pure: "on_repo (fail e) = fail e" "on_repo (ret x) = ret x"
  by (rule ext, simp add: on_repo_def on_db_def fail_def ret_def)+

lemma found_keeps [keep_intros]: "keeps I (on_repo (found (query f)))"
  unfolding on_repo_found by (intro keep_intros)

lemma repo_reads [keep_intros]:
  "keeps I (on_repo (sqlite_ListChatSessions f))" "keeps I (on_repo (sqlite_ListChatItems i))"
  "keeps I (on_repo (sqlite_MaxChatItemOrdinal i))" "keeps I (on_repo (sqlite_GetChatSessionBySource a b))"
  "keeps I (on_repo (sqlite_GetRecordByID i))" "keeps I (on_repo (sqlite_GetChatSessionByID i))"
  "keeps I (on_repo (sqlite_GetDeviceByID i))" "keeps I (on_repo (sqlite_ListProjectPaths x))"
  "keeps I (on_repo (sqlite_CountChatItems y))"
  unfolding sqlite_ListChatSessions_def sqlite_ListChatItems_def sqlite_MaxChatItemOrdinal_def
    sqlite_GetChatSessionBySource_def sqlite_GetRecordByID_def sqlite_GetChatSessionByID_def
    sqlite_GetDeviceByID_def sqlite_ListProjectPaths_def sqlite_CountChatItems_def Let_def
  by (auto simp: on_repo_pure intro!: keep_intros)

lemmas fs_reads [keep_intros] = reads_only_import [THEN keeps_reading]

lemma fs_writes [keep_intros]:
  "keeps I (on_fs (CopyChatSourceToStage c i p))" "keeps I (on_fs (DeleteChatSourceStage c stage))"
  "keeps I (on_fs (PromoteChatSourceStage c stage))" "keeps I (on_repo (sqlite_WriteChatImportBatch ops))"
  by (intro keeps_on_fs keeps_on_repo batch_write stage_source drop_stage promote_stage)+

lemma cwd_keeps [keep_intros]: "keeps I cwd_of"
  unfolding cwd_of_def by (rule bookkeeping)

section \<open>The run, function by function\<close>

lemma deleting_keeps [keep_intros]: "deleting \<Longrightarrow> keeps I (deleteOriginalChatSource p)"
  unfolding deleteOriginalChatSource_def by (intro keep_intros keeps_on_fs remove_source)

lemma deleting_safe_keeps [keep_intros]: "deleting \<Longrightarrow> keeps I (deleteImportedChatSourceIfSafe i key p)"
  unfolding deleteImportedChatSourceIfSafe_def by (intro keeps_client keep_intros)

lemma delete_stage_keeps [keep_intros]: "keeps I (delete_stage stage)"
  unfolding delete_stage_def by (intro keep_intros keeps_client)

lemma set_entries_keeps: "list_all allowed es \<Longrightarrow> keeps I (\<lambda>w. (Inr (), w \<lparr> imEntries := es \<rparr>))"
  by (rule keeps_stack) simp_all

lemma clear_keeps [keep_intros]: "keeps I (\<lambda>w. (Inr (), w \<lparr> imEntries := [] \<rparr>))"
  by (rule set_entries_keeps) simp

lemma discard_keeps [keep_intros]: "keeps I discardPending"
  unfolding discardPending_def by (intro keep_intros)

lemma finish_entry_keeps: "allowed e \<Longrightarrow> keeps I (finish_entry e later r)"
  supply keeps_if [keep_intros del]
  unfolding finish_entry_def finish_stage_def
  by (intro keep_intros keeps_client keeps_cond) (simp_all add: allowed_def)

lemma finish_entries_keeps: "list_all allowed es \<Longrightarrow> keeps I (finish_entries es rs)"
  by (induction es rs rule: finish_entries.induct) (auto intro!: keep_intros finish_entry_keeps)

lemma flush_keeps [keep_intros]: "keeps I flush"
  unfolding flush_def by (rule keeps_entries) (intro keep_intros finish_entries_keeps)

lemma add_keeps: "allowed e \<Longrightarrow> keeps I (batch_add e)"
  unfolding batch_add_def
  by (intro keep_intros) (rule keeps_stack, auto)

lemma gemini_keeps [keep_intros]: "keeps I (resolveGeminiCWD p paths dev s)"
  unfolding resolveGeminiCWD_def by (intro keep_intros)

lemma prefix_chunks_keeps [keep_intros]: "keeps I (prefix_chunks p q k n)"
proof (induction p q k n rule: prefix_chunks.induct)
  case (1 p q k n)
  then show ?case
    by (subst prefix_chunks.simps) (auto simp: Let_def intro!: keep_intros)
qed

lemma compare_keeps [keep_intros]: "keeps I (compareChatImportSource i key p)"
  unfolding compareChatImportSource_def filePrefixMatches_def Let_def
  by (intro keeps_client keep_intros)

lemma matches_keeps [keep_intros]: "keeps I (sourceMatchesManagedRaw i key p)"
  unfolding sourceMatchesManagedRaw_def by (intro keep_intros)

lemma unique_id_keeps [keep_intros]: "keeps I (generateUniqueChatID n t)"
proof (induction n)
  case (Suc n)
  then show ?case by (auto intro!: keep_intros)
qed (auto intro: keep_intros)

lemma lookup_keeps [keep_intros]:
  "keeps I (hasSourceSession a b)" "keeps I (existingByOriginalPath a b p)"
  unfolding hasSourceSession_def existingByOriginalPath_def by (rule bookkeeping)+

lemma keeps_prod_step [keep_intros]: "(\<And>a b. keeps I (f a b s)) \<Longrightarrow> keeps I ((case x of (a, b) \<Rightarrow> f a b) s)"
  by (cases x) simp

lemma skip_keeps: "(ds \<Longrightarrow> deleting) \<Longrightarrow> keeps I (skip_session x p ds)"
  supply keeps_if [keep_intros del]
  unfolding skip_session_def by (intro keep_intros keeps_cond)

lemma queue_keeps: "(ds \<Longrightarrow> deleting) \<Longrightarrow> keeps I (queueReplaceChatImport s items p ds)"
  unfolding queueReplaceChatImport_def
  by (intro keeps_client keep_intros add_keeps) (simp add: allowed_def)

lemma append_keeps: "(ds \<Longrightarrow> deleting) \<Longrightarrow> keeps I (queueAppendJSONLChatImport x p cmp dev paths ds)"
  unfolding queueAppendJSONLChatImport_def Let_def
  by (intro keeps_client keep_intros add_keeps) (simp add: allowed_def)

lemma exact_keeps: "(ds \<Longrightarrow> deleting) \<Longrightarrow> keeps I (handleExactMatchChatImport x p cmp dev paths ds)"
  unfolding handleExactMatchChatImport_def Let_def
  by (intro keep_intros skip_keeps queue_keeps)

lemma existing_keeps: "(ds \<Longrightarrow> deleting) \<Longrightarrow> keeps I (handleExistingChatImport x p dev paths ds)"
  unfolding handleExistingChatImport_def
  by (intro keep_intros exact_keeps append_keeps)

lemma warn_keeps [keep_intros]: "keeps I (\<lambda>w. (Inr (), w \<lparr> imStderr := imStderr w @ [p] \<rparr>))"
  by (rule keeps_stack) simp_all

lemma defend_keeps: "(ds \<Longrightarrow> deleting) \<Longrightarrow> keeps I (defendChatImportCollision x p ds)"
  unfolding defendChatImportCollision_def
  by (intro keep_intros skip_keeps)

lemma duplicate_keeps: "(ds \<Longrightarrow> deleting) \<Longrightarrow> keeps I (mergeDuplicateChatImportAttribution rep y p ds)"
  unfolding mergeDuplicateChatImportAttribution_def queueChatImportAttributionBackfill_def Let_def
  by (intro keep_intros add_keeps) (simp add: allowed_def)

lemma session_keeps: "(ds \<Longrightarrow> deleting) \<Longrightarrow> keeps I (import_session source p ds prior q)"
  supply keeps_if [keep_intros del]
  unfolding import_session_def known_session_def session_id_def skip_duplicate_def queue_and_mark_def
  by (intro keep_intros keeps_cond queue_keeps duplicate_keeps) simp_all

lemma known_path_keeps: "(ds \<Longrightarrow> deleting) \<Longrightarrow> keeps I (import_known_path source p dev paths ds x)"
  unfolding import_known_path_def by (intro keep_intros existing_keeps)

lemma known_session_keeps: "(ds \<Longrightarrow> deleting) \<Longrightarrow> keeps I (import_known_session source p dev paths ds prior q)"
  unfolding import_known_session_def
  by (intro keep_intros existing_keeps defend_keeps session_keeps)

lemma file_keeps: "(ds \<Longrightarrow> deleting) \<Longrightarrow> keeps I (import_file dev paths ds source p)"
  unfolding import_file_def by (intro keep_intros known_path_keeps known_session_keeps)

lemma index_keeps [keep_intros]: "keeps I (loadChatImportSessionIndex source dev)"
  unfolding loadChatImportSessionIndex_def by (intro keep_intros) (rule keeps_stack, simp_all)

lemma scan_keeps: "(ds \<Longrightarrow> deleting) \<Longrightarrow> keeps I (runImportScan dev paths ds roots)"
  unfolding runImportScan_def import_sources_def import_root_def
  by (intro keep_intros file_keeps)

lemma prepared_keeps [keep_intros]: "keeps I (chatImportPrepared home opts)"
  unfolding chatImportPrepared_def validateActiveDevice_def Let_def by (intro keep_intros)

lemma completeness_keeps [keep_intros]:
  "keeps I (scanChatImportCompleteness roots)" "keeps I (applyChatImportCompleteness expected)"
  unfolding scanChatImportCompleteness_def applyChatImportCompleteness_def expect_file_def
  by (intro keep_intros)+

lemma import_keeps: "(opDeleteSource opts \<Longrightarrow> deleting) \<Longrightarrow> keeps I (runChatImport home opts)"
  unfolding runChatImport_def by (intro keep_intros scan_keeps)

end

section \<open>Files outside the managed chats\<close>

definition chats_dir :: "Client \<Rightarrow> path" where
  "chats_dir c = basePath c @ [''chats'']"

definition file_stays :: "path \<Rightarrow> string \<Rightarrow> string tree \<Rightarrow> bool" where
  "file_stays p b t = (at t p = Some (File b))"

text \<open>A path of the raw directory holds nothing outside the managed chats.\<close>

definition in_raw :: "Client \<Rightarrow> path \<Rightarrow> bool" where
  "in_raw c q = prefix (rawRoot c) q"

lemma in_raw_outside: "in_raw c q \<Longrightarrow> \<not> prefix (chats_dir c) p \<Longrightarrow> \<not> prefix q p"
proof -
  assume "in_raw c q" "\<not> prefix (chats_dir c) p"
  moreover have "prefix (chats_dir c) (rawRoot c)" by (simp add: rawRoot_eq chats_dir_def)
  ultimately show ?thesis unfolding in_raw_def by (meson prefix_order.trans)
qed

lemma at_moved_other: "\<not> prefix a r \<Longrightarrow> \<not> prefix b r \<Longrightarrow> at (moved a b t) r = at t r"
proof (induction t)
  case (Cons x t)
  then show ?case
    by (cases x) (auto simp: moved_def at_def split: if_splits)
qed (simp add: moved_def)

lemma raw_calls:
  assumes p: "\<not> prefix (chats_dir c) p"
  shows "in_raw c q \<Longrightarrow> keeps (on_tree (file_stays p b)) (remove_all q)"
    and "in_raw c q \<Longrightarrow> in_raw c r \<Longrightarrow> keeps (on_tree (file_stays p b)) (rename_file q r)"
    and "in_raw c q \<Longrightarrow> keeps (on_tree (file_stays p b)) (write_open q s)"
    and "in_raw c q \<Longrightarrow> keeps (on_tree (file_stays p b)) (create_exclusive q)"
    and "keeps (on_tree (file_stays p b)) (mkdir_all q)"
proof -
  note out = in_raw_outside [OF _ p]
  show "keeps (on_tree (file_stays p b)) (remove_all q)" if "in_raw c q"
    using out [OF that] by (intro keep_intros) (auto simp: file_stays_def)
  show "keeps (on_tree (file_stays p b)) (rename_file q r)" if "in_raw c q" "in_raw c r"
    using out [OF that(1)] out [OF that(2)] by (intro keep_intros) (auto simp: file_stays_def at_moved_other)
  have "p \<noteq> q" if "in_raw c q" using out [OF that] by auto
  then show "keeps (on_tree (file_stays p b)) (write_open q s)" "keeps (on_tree (file_stays p b)) (create_exclusive q)"
    if "in_raw c q"
    using that unfolding create_exclusive_def
    by (intro keep_intros keeps_call; auto simp: file_stays_def unchanged_def split: sum.splits if_splits)+
  show "keeps (on_tree (file_stays p b)) (mkdir_all q)"
    by (intro keep_intros) (auto simp: file_stays_def)
qed

lemma keeps_lifted: "(\<And>a. r = Inr a \<Longrightarrow> keeps I (f a)) \<Longrightarrow> keeps I (bnd (lift_result r) f)"
  by (cases r) (auto simp: keeps_def bnd_def lift_result_def)

lemma keeps_bnd_result:
  "keeps I m \<Longrightarrow> (\<And>w a w'. m w = (Inr a, w') \<Longrightarrow> keeps I (f a)) \<Longrightarrow> keeps I (bnd m f)"
  by (auto simp: keeps_def bnd_def split: prod.splits sum.splits)

lemma nonce_hex: "randomHexNonce d = (Inr n, d') \<Longrightarrow> list_all is_hex n"
  by (auto simp: randomHexNonce_def wrap_def sq_def bnd_def disk_plain_def disk_read_def disk_call_def Let_def
      unchanged_def ret_def hex_encode_hex split: prod.splits sum.splits option.splits list.splits)

lemma nonce_keeps [keep_intros]: "keeps (on_tree J) randomHexNonce"
proof (rule keepsI)
  fix d :: files assume "J (dkTree d)"
  moreover have "keeps (on_tree J) (wrap ''generate nonce'' (sq disk_plain (ret x)))" for x :: string
    by (intro keep_intros)
  ultimately show "J (dkTree (snd (randomHexNonce d)))"
    unfolding randomHexNonce_def by (blast dest: keepsD)
qed

lemma named_in_raw:
  assumes "chatSessionIDPattern i" "list_all is_hex n" "CHR ''/'' \<notin> set m" "m \<noteq> []"
  shows "in_raw c (filepath_join (basePath c) [''chats'', ''raw'', m @ i @ ''-'' @ n])"
proof -
  have "CHR ''/'' \<notin> set n" using assms(2) by (auto simp: list_all_iff is_hex_def Local_Files.is_digit_def less_eq_char_def)
  moreover have "2 < length (m @ i @ ''-'' @ n)"
    using chat_id_plain(1) [OF assms(1)] assms(4) by (cases m; cases i) (auto simp: plain_element_def)
  then have "m @ i @ ''-'' @ n \<noteq> ''.''" "m @ i @ ''-'' @ n \<noteq> ''..''" "m @ i @ ''-'' @ n \<noteq> []"
    by (auto dest!: arg_cong [of _ _ length])
  ultimately have "plain_element (m @ i @ ''-'' @ n)"
    using chat_id_plain(1) [OF assms(1)] assms(3) unfolding plain_element_def by simp
  then have "filepath_join (basePath c) [''chats'', ''raw'', m @ i @ ''-'' @ n] = basePath c @ [''chats'', ''raw'', m @ i @ ''-'' @ n]"
    by (intro filepath_join_plain) (auto simp: plain_element_def)
  then show ?thesis by (simp add: in_raw_def rawRoot_eq)
qed

lemma id_in_raw:
  assumes "chatSessionIDPattern i"
  shows "filepath_join (basePath c) [''chats'', ''raw'', i] = rawRoot c @ [i]"
  unfolding rawRoot_eq using chat_id_plain(1) [OF assms]
  by (subst filepath_join_plain) (auto simp: plain_element_def)

lemma staged_name:
  assumes "chatSessionIDPattern i" "DeriveChatSourceKey i p = Inr key"
  shows "filepath_join dir [filepath_base key] = dir @ [filepath_base key]"
proof -
  obtain ext where ext: "ext \<in> set supportedChatSourceExtensions" and key: "key = chat_source_key i ext"
    using assms by (auto simp: DeriveChatSourceKey_def chat_source_key_def Let_def split: sum.splits if_splits)
  have "last key \<noteq> CHR ''/''"
    using ext by (auto simp: key chat_source_key_def supportedChatSourceExtensions_def)
  then have "dropWhile (\<lambda>c. c = CHR ''/'') (rev key) = rev key"
    by (simp add: dropWhile_eq_self_iff hd_rev)
  moreover have "key \<noteq> []" by (simp add: key chat_source_key_def)
  ultimately have "filepath_base key = last (split_at (CHR ''/'') key)" by (simp add: filepath_base_def Let_def)
  also have "\<dots> = ''source'' @ ext"
    using chat_source_key_parts [OF chat_id_plain(1) [OF assms(1)] ext] by (simp add: key)
  finally have "plain_element (filepath_base key)"
    using ext by (auto simp: plain_element_def supportedChatSourceExtensions_def)
  then show ?thesis by (intro filepath_join_plain) simp
qed

lemma stage_confined:
  assumes p: "\<not> prefix (chats_dir c) p"
  shows "keeps (on_tree (file_stays p b)) (CopyChatSourceToStage c i source)"
proof (cases "chatSessionIDPattern i")
  case True
  note raw = raw_calls [OF p]
  have stage: "keeps (on_tree (file_stays p b)) (stage_copy dir (dir @ [x]) q)" if "in_raw c dir" for dir x q
  proof -
    have "in_raw c (dir @ [x])" using that by (simp add: in_raw_def)
    then show ?thesis
      using that unfolding stage_copy_def copy_open_def by (intro keep_intros raw)
  qed
  have rest: "keeps (on_tree (file_stays p b))
      (sq (wrap ''create chat source stage dir'' (mkdir_all dir))
      (sq (cleanup_unless_ok (ignored (remove_all dir)) (wrap ''open chat source'' (open_file q)))
      (sq (cleanup_unless_ok (ignored (remove_all dir)) (wrap ''create staged chat source'' (create_exclusive (dir @ [x]))))
      (bnd (stage_copy dir (dir @ [x]) q) (\<lambda>written. ret (g written))))))" if "in_raw c dir" for dir x q
    and g :: "int \<Rightarrow> ChatSourceStage"
  proof -
    have "in_raw c (dir @ [x])" using that by (simp add: in_raw_def)
    then show ?thesis using that unfolding open_file_def by (intro keep_intros raw stage)
  qed
  show ?thesis
    unfolding CopyChatSourceToStage_def Let_def
    apply (rule keeps_lifted)
    apply (rule keeps_if, rule keeps_fail)
    apply (rule keeps_lifted)
    apply (rule keeps_bnd, rule keeps_wrap, rule keeps_lstat)
    apply (rule keeps_if, rule keeps_fail)
    apply (rule keeps_bnd_result [OF nonce_keeps])
    apply (simp only: staged_name [OF True])
    apply (rule rest, rule named_in_raw [OF True], erule nonce_hex)
     apply simp_all
    done
next
  case False
  then show ?thesis
    by (simp add: CopyChatSourceToStage_def validateChatSessionID_def bnd_def lift_result_def keeps_def)
qed

lemma managed_in_raw:
  assumes "resolveManagedStageDir c s = Inr q"
  shows "in_raw c q"
proof -
  from assms have "q \<noteq> []" "butlast q = rawRoot c" by (auto simp: resolveManagedStageDir_def Let_def split: if_splits)
  then show ?thesis unfolding in_raw_def by (metis append_butlast_last_id prefixI)
qed

lemma drop_stage_confined:
  assumes p: "\<not> prefix (chats_dir c) p"
  shows "keeps (on_tree (file_stays p b)) (DeleteChatSourceStage c stage)"
  unfolding DeleteChatSourceStage_def
  apply (rule keeps_if, rule keeps_ret)
  apply (rule keeps_lifted, rule keeps_bnd, rule keeps_attempt)
   apply (rule raw_calls(1) [OF p], erule managed_in_raw)
  apply (intro keep_intros)
  done

lemma promote_stage_confined:
  assumes p: "\<not> prefix (chats_dir c) p"
  shows "keeps (on_tree (file_stays p b)) (PromoteChatSourceStage c stage)"
proof (cases "chatSessionIDPattern (stChatSessionID stage)")
  case True
  let ?dir = "rawRoot c @ [stChatSessionID stage]"
  note raw = raw_calls [OF p]
  have dir: "in_raw c ?dir" by (simp add: in_raw_def)
  have resolved: "in_raw c q" if "resolveManagedStageDir c s = Inr q" for q s
    using that by (rule managed_in_raw)
  have restore: "keeps (on_tree (file_stays p b)) (or_restore ?dir bk msg m)"
    if "keeps (on_tree (file_stays p b)) m" "\<And>q. bk = Some q \<Longrightarrow> in_raw c q" for bk msg and m :: "(files, 'x) act"
    using that unfolding or_restore_def restoreChatRawBackup_def
    supply keeps_rename [keep_intros del] keeps_remove_all [keep_intros del]
    by (cases bk) (simp_all, (intro keep_intros raw(1) raw(2) dir; simp)+)
  have clean: "keeps (on_tree (file_stays p b)) (case bk of None \<Rightarrow> ret () | Some q \<Rightarrow> wrap msg (remove_all q))"
    if "\<And>q. bk = Some q \<Longrightarrow> in_raw c q" for bk msg
    using that by (cases bk) (auto intro: keeps_ret keeps_wrap raw(1))
  have backup: "keeps (on_tree (file_stays p b)) (back_up_active c (stChatSessionID stage) ?dir)"
    unfolding back_up_active_def Let_def
    apply (rule keeps_bnd, rule keeps_attempt, rule keeps_lstat)
    apply (rule keeps_sum, rule keeps_if, rule keeps_ret, rule keeps_fail)
    apply (rule keeps_bnd_result [OF nonce_keeps])
    apply (rule keeps_sq, rule keeps_wrap, rule raw(2) [OF dir])
     apply (rule named_in_raw [OF True], erule nonce_hex)
      apply (simp_all add: keeps_ret)
    done
  have backed: "in_raw c q" if "back_up_active c (stChatSessionID stage) ?dir d = (Inr (Some q), d')" for q d d'
  proof -
    from that obtain n d1 d2 where n: "randomHexNonce d1 = (Inr n, d2)"
      and q: "q = filepath_join (basePath c) [''chats'', ''raw'', ''.backup-'' @ stChatSessionID stage @ ''-'' @ n]"
      by (auto simp: back_up_active_def bnd_def sq_def attempt_def wrap_def ret_def fail_def Let_def
          split: prod.splits sum.splits if_splits)
    show ?thesis unfolding q by (rule named_in_raw [OF True nonce_hex [OF n]]) simp_all
  qed
  show ?thesis
    unfolding PromoteChatSourceStage_def Let_def id_in_raw [OF True]
    apply (rule keeps_lifted)
    apply (rule keeps_if, rule keeps_fail)
    apply (rule keeps_sq, rule keeps_wrap, rule keeps_lstat)
    apply (rule keeps_lifted)
    apply (rule keeps_sq, rule keeps_wrap, rule raw(5))
    apply (rule keeps_bnd_result [OF backup])
    apply (rule keeps_sq, rule restore, rule raw(2), erule resolved, rule dir, simp add: backed)
    apply (rule keeps_sq, rule restore, rule keeps_syncDir, simp add: backed)
    apply (rule keeps_bnd, rule restore, rule keeps_lstat, simp add: backed)
    apply (rule keeps_sq, rule clean, simp add: backed, rule keeps_ret)
    done
next
  case False
  then have "ValidateChatSourceKey (stChatSessionID stage) (stRawSourceKey stage) \<noteq> Inr ()"
    by (auto simp: ValidateChatSourceKey_def validateChatSessionID_def split: if_splits)
  then show ?thesis
    by (auto simp: PromoteChatSourceStage_def bnd_def lift_result_def keeps_def split: sum.splits)
qed

section \<open>The contract on the model\<close>

interpretation import_ids: import_contract "\<lambda>s. disjoint_ids (lsDb s) \<and> lsFS s = c" c True for c
proof unfold_locales
  fix s :: Stack and n assume "disjoint_ids (lsDb s) \<and> lsFS s = c"
  then show "disjoint_ids (lsDb (s \<lparr>lsDb := (lsDb s) \<lparr>dbTick := n\<rparr>\<rparr>)) \<and>
      lsFS (s \<lparr>lsDb := (lsDb s) \<lparr>dbTick := n\<rparr>\<rparr>) = c"
    using tick_free_ids by (simp add: tick_free_def)
next
  fix ops
  show "keeps (\<lambda>s. disjoint_ids (lsDb s) \<and> lsFS s = c) (on_db (sqlite_WriteChatImportBatch ops))"
    using chat_upserts_ids(2) [of ops] by (auto simp: keeps_def on_db_def split: prod.splits)
qed (auto simp: keeps_def on_disk_def split: prod.splits)

lemma keeps_files_on_disk:
  "keeps (on_tree (file_stays p b)) m \<Longrightarrow>
   keeps (\<lambda>s. lsFS s = c \<and> (prefix (chats_dir c) p \<or> file_stays p b (dkTree (lsDisk s)))) (on_disk m)"
  by (auto simp: keeps_def on_disk_def split: prod.splits)

lemma keeps_managed_on_disk:
  "prefix (chats_dir c) p \<Longrightarrow>
   keeps (\<lambda>s. lsFS s = c \<and> (prefix (chats_dir c) p \<or> file_stays p b (dkTree (lsDisk s)))) (on_disk m)"
  by (auto simp: keeps_def on_disk_def split: prod.splits)

lemma files_confined:
  assumes "\<not> prefix (chats_dir c) p \<Longrightarrow> keeps (on_tree (file_stays p b)) m"
  shows "keeps (\<lambda>s. lsFS s = c \<and> (prefix (chats_dir c) p \<or> file_stays p b (dkTree (lsDisk s)))) (on_disk m)"
  using assms keeps_files_on_disk keeps_managed_on_disk by (cases "prefix (chats_dir c) p") blast+

interpretation import_files:
  import_contract "\<lambda>s. lsFS s = c \<and> (prefix (chats_dir c) p \<or> file_stays p b (dkTree (lsDisk s)))" c False for c p b
proof unfold_locales
  fix ops
  show "keeps (\<lambda>s. lsFS s = c \<and> (prefix (chats_dir c) p \<or> file_stays p b (dkTree (lsDisk s))))
      (on_db (sqlite_WriteChatImportBatch ops))"
    by (auto simp: keeps_def on_db_def split: prod.splits)
qed (auto intro!: files_confined stage_confined drop_stage_confined promote_stage_confined)

section \<open>Properties\<close>

definition new_import :: "Stack \<Rightarrow> (nat \<Rightarrow> error option) \<Rightarrow> (nat \<Rightarrow> error + string) \<Rightarrow> (nat \<Rightarrow> time) \<Rightarrow> Import" where
  "new_import s cancelled entropy now =
    \<lparr> imStack = s, imSummary = \<lparr> smSessionsCreated = 0, smSessionsUpdated = 0, smSessionsSkipped = 0,
        smDuplicatesSkipped = 0, smCollisionsSkipped = 0, smFilesSkipped = 0, smItemsImported = 0, smFilesScanned = 0,
        smRawSourceSessions = [], smRawSourcesCopied = 0, smSourcesDeleted = 0, smSourceDeleteWarnings = [] \<rparr>,
      imEntries = [], imByOriginalPath = [], imBySourceSession = [], imSeen = [], imMutated = False, imStderr = [],
      imTick = 0, imCancelled = cancelled, imEntropy = entropy, imNow = now \<rparr>"


text \<open>C37. An import without \<open>--delete-source\<close> changes nothing outside the managed chats: whatever it scans
  and however it ends, every file that is not under \<open>chats\<close> of the context home keeps its content.\<close>

theorem import_run_keeps_files:
  assumes "\<not> opDeleteSource opts" "\<not> prefix (chats_dir (lsFS s)) p"
    and "at (dkTree (lsDisk s)) p = Some (File b)"
    and "runChatImport home opts (new_import s cancelled entropy now) = (r, w)"
  shows "at (dkTree (lsDisk (imStack w))) p = Some (File b)"
proof -
  have "import_files.I (lsFS s) p b (new_import s cancelled entropy now)"
    using assms(2,3) unfolding import_files.I_def by (simp add: new_import_def file_stays_def)
  then have "import_files.I (lsFS s) p b (snd (runChatImport home opts (new_import s cancelled entropy now)))"
    by (rule keepsD [OF import_files.import_keeps, rotated]) (simp add: assms(1))
  then show ?thesis using assms(2) unfolding import_files.I_def by (simp add: assms(4) file_stays_def)
qed

section \<open>A concrete run\<close>

text \<open>A home with one transcript of the agent Codex outside the managed chats.\<close>

definition sample_transcript :: string where
  "sample_transcript =
    ''{\"type\":\"session_meta\",\"payload\":{\"id\":\"s1\",\"cwd\":\"/w\"}}'' @ [CHR 0x0A] @
    ''{\"role\":\"user\",\"content\":\"hi\"}'' @ [CHR 0x0A]"

definition import_stack :: Stack where
  "import_stack =
    \<lparr> lsConfig = \<lparr> cNeonURL = [], cS3Bucket = [], cS3Region = [], cAWSProfile = [], cActiveProject = [], cS3Endpoint = [],
        cS3ForcePathStyle = False, cAPIKey = [], cGCRetentionDays = None \<rparr>,
      lsDb = sample_chat_db,
      lsDisk = \<lparr> dkTree = [([''in'', ''s1.jsonl''], File sample_transcript), ([''in''], Dir), ([''home'', ''pc''], Dir),
          ([''home''], Dir), ([], Dir)],
        dkTick = 0, dkFault = (\<lambda>_. None), dkCrash = None, dkTemp = (\<lambda>_. []), dkNow = (\<lambda>_. []), dkJunk = (\<lambda>_. []) \<rparr>,
      lsFS = slash_client \<rparr>"

definition import_options :: "bool \<Rightarrow> chatImportOptions" where
  "import_options deleteSource =
    \<lparr> opDeviceID = ''d'', opAgent = ''codex'', opRoots = [''/in''], opDeleteSource = deleteSource \<rparr>"

definition import_start :: Import where
  "import_start = new_import import_stack (\<lambda>_. None) (\<lambda>_. Inr (replicate 4 (CHR 0x0A))) (\<lambda>_. 63839664000 * 1000000000)"


theorem import_run_keeps_files_witness:
  "at (dkTree (lsDisk (imStack (snd (runChatImport (Inr ''/home/pc'') (import_options False) import_start)))))
     [''in'', ''s1.jsonl''] = Some (File sample_transcript)"
  unfolding import_start_def
  by (rule import_run_keeps_files [OF _ _ _ surjective_pairing])
     (simp_all add: import_options_def import_stack_def chats_dir_def slash_client_def at_def)

section \<open>Two deviations from what the code's comments promise\<close>

text \<open>The base an appended range is parsed for leaves out the parent, so the lock that keeps a fork's directory is open:
  any appended metadata row with a \<open>cwd\<close> moves the session, where the full parse keeps it.\<close>

lemma cwd_applied: "icCWD (applySessionFields fallback row s) = icCWD (meta_cwd row (meta_identity fallback row s))"
  by (simp add: applySessionFields_def applySessionTime_def meta_title_def Let_def split: option.split)

lemma identity_cwd: "icCWD (meta_identity fallback row s) = icCWD s"
  by (simp add: meta_identity_def Let_def split: option.split)

lemma identity_parent:
  "icParentSourceSessionID (meta_identity fallback row s) =
    (case icParentSourceSessionID s of None \<Rightarrow> stringField row ''forked_from_id'' | Some q \<Rightarrow> Some q)"
  by (simp add: meta_identity_def Let_def split: option.split)

lemma appended_fork_unlocked:
  assumes "stringField row ''cwd'' = Some b" "stringField row ''forked_from_id'' = None"
  shows "icCWD (applySessionFields [] row (append_base existing dev src raw)) = Some b"
    and "icParentSourceSessionID s = Some parent \<Longrightarrow> icCWD s = Some a \<Longrightarrow> icCWD (applySessionFields fallback row s) = Some a"
  using assms
  by (simp_all add: cwd_applied meta_cwd_def fork_locked_def identity_cwd identity_parent append_base_def)

text \<open>The guard of the source deletion knows one managed file only, that of the session just imported: any other path is
  removed, the managed raw source of another session included.\<close>

lemma passed_source_deleted:
  assumes "Local_Files.ResolveChatSourcePath (lsFS (imStack w)) chatID key = Inr managed" "managed \<noteq> q"
    and q: "q = filepath_abs (workDir (lsFS (imStack w))) p"
    and "dkCrash d = None" "dkFault d (dkTick d) = None" "is_file_at (dkTree d) q" "look (dkTree d) q = Inr n"
    and d: "d = lsDisk (imStack w)"
  shows "fst (deleteImportedChatSourceIfSafe chatID key p w) = Inr ()"
    and "dkTree (lsDisk (imStack (snd (deleteImportedChatSourceIfSafe chatID key p w)))) = removed q (dkTree d)"
proof -
  have "remove_file q d = (Inr (), d \<lparr> dkTick := Suc (dkTick d), dkTree := removed q (dkTree d) \<rparr>)"
    using assms(4-7) by (simp add: remove_file_def disk_call_def)
  then show "fst (deleteImportedChatSourceIfSafe chatID key p w) = Inr ()"
    and "dkTree (lsDisk (imStack (snd (deleteImportedChatSourceIfSafe chatID key p w)))) = removed q (dkTree d)"
    using assms(1,2) unfolding q d
    by (simp_all add: isSameAsManagedFile_def deleteImportedChatSourceIfSafe_def deleteOriginalChatSource_def client_def
        cwd_of_def get_def bnd_def attempt_def on_fs_def on_disk_def count_in_def)
qed

end
