(* ===== verification/Json_Struct.thy ===== *)
theory Json_Struct
  imports Json_Any
begin

text \<open>Printing nested JSON values as \<open>Marshal\<close> and \<open>MarshalIndent\<close> with two blanks do, that the text reads back, and
  the decoding of objects into structs: a struct is the list of its fields in their order, with the values they
  hold, whose constructors are the types of the fields.\<close>

section \<open>Printing\<close>

definition line_break :: "bool \<Rightarrow> nat \<Rightarrow> string" where
  "line_break ind n = (if ind then CHR 0x0A # replicate (2 * n) (CHR 0x20) else [])"

fun print_json :: "bool \<Rightarrow> nat \<Rightarrow> json \<Rightarrow> string"
  and print_elements :: "bool \<Rightarrow> nat \<Rightarrow> json list \<Rightarrow> string"
  and print_members :: "bool \<Rightarrow> nat \<Rightarrow> (string \<times> json) list \<Rightarrow> string" where
  "print_json ind n JNull = ''null''"
| "print_json ind n (JBool b) = (if b then ''true'' else ''false'')"
| "print_json ind n (JNumber s) = s"
| "print_json ind n (JString s) = json_string s"
| "print_json ind n (JArray vs) =
    (if vs = [] then ''[]''
     else ''['' @ line_break ind (Suc n) @ print_elements ind (Suc n) vs @ line_break ind n @ '']'')"
| "print_json ind n (JObject ms) =
    (if ms = [] then ''{}''
     else ''{'' @ line_break ind (Suc n) @ print_members ind (Suc n) ms @ line_break ind n @ ''}'')"
| "print_elements ind n [] = []"
| "print_elements ind n (v # vs) =
    print_json ind n v @ (if vs = [] then [] else '','' @ line_break ind n @ print_elements ind n vs)"
| "print_members ind n [] = []"
| "print_members ind n ((k, v) # ms) =
    json_string k @ (if ind then '': '' else '':'') @ print_json ind n v @
    (if ms = [] then [] else '','' @ line_break ind n @ print_members ind n ms)"

definition marshal :: "json \<Rightarrow> string" where
  "marshal v = print_json False 0 v"

definition marshal_indent :: "json \<Rightarrow> string" where
  "marshal_indent v = print_json True 0 v"

text \<open>What is read back: strings and names with malformed bytes replaced.\<close>

fun clean_json :: "json \<Rightarrow> json" where
  "clean_json (JString s) = JString (utf8_clean s)"
| "clean_json (JArray vs) = JArray (List.map clean_json vs)"
| "clean_json (JObject ms) = JObject (List.map (\<lambda>m. (utf8_clean (fst m), clean_json (snd m))) ms)"
| "clean_json v = v"

fun numbers_ok :: "json \<Rightarrow> bool" where
  "numbers_ok (JNumber n) = (number n = Some (n, []))"
| "numbers_ok (JArray vs) = list_all numbers_ok vs"
| "numbers_ok (JObject ms) = list_all (\<lambda>m. numbers_ok (snd m)) ms"
| "numbers_ok v = True"

section \<open>The text of a number ends where it ends\<close>

definition ends_value :: "string \<Rightarrow> bool" where
  "ends_value t = (t = [] \<or> hd t \<in> {CHR '','', CHR '']'', CHR ''}'', CHR 0x0A})"

lemma ends_valueE:
  assumes "ends_value t"
  obtains "t = []" | c u where "t = c # u" "\<not> decimal c" "c \<noteq> CHR ''.''" "c \<noteq> CHR ''e''" "c \<noteq> CHR ''E''"
  using assms by (cases t) (auto simp: ends_value_def decimal_def)

lemma digits_append:
  assumes "ends_value t"
  shows "takeWhile decimal (s @ t) = takeWhile decimal s" "dropWhile decimal (s @ t) = dropWhile decimal s @ t"
  using assms by (cases t; induction s; auto simp: ends_value_def decimal_def)+

lemma some_digits_append:
  "ends_value t \<Longrightarrow> some_digits (s @ t) = map_option (\<lambda>(d, r). (d, r @ t)) (some_digits s)"
  by (simp add: some_digits_def digits_append Let_def)

lemma integer_part_append:
  assumes "ends_value t" "integer_part s = Some (d, r)"
  shows "integer_part (s @ t) = Some (d, r @ t)"
  using assms(2) some_digits_append [OF assms(1), of s]
  by (cases s) (auto simp: integer_part_def split: if_splits)

lemma fraction_append:
  assumes "ends_value t" "fraction s = Some (d, r)"
  shows "fraction (s @ t) = Some (d, r @ t)"
proof (cases s)
  case Nil
  then show ?thesis using assms by (elim ends_valueE) (auto simp: fraction_def)
next
  case (Cons c u)
  then show ?thesis using assms(2) some_digits_append [OF assms(1), of u] by (auto simp: fraction_def split: if_splits)
qed

lemma exponent_append:
  assumes "ends_value t" "exponent s = Some (d, r)"
  shows "exponent (s @ t) = Some (d, r @ t)"
proof (cases s)
  case Nil
  then show ?thesis using assms by (elim ends_valueE) (auto simp: exponent_def)
next
  case (Cons c u)
  then show ?thesis
    using assms(2) some_digits_append [OF assms(1), of u] some_digits_append [OF assms(1), of "tl u"]
    by (cases u) (auto simp: exponent_def split: if_splits)
qed

lemma number_append:
  assumes "number n = Some (m, r)" "ends_value t"
  shows "number (n @ t) = Some (m, r @ t)"
proof -
  define s where "s = (if prefix ''-'' n then tl n else n)"
  obtain i s2 f s3 e where parts: "integer_part s = Some (i, s2)" "fraction s2 = Some (f, s3)" "exponent s3 = Some (e, r)"
    and m: "m = (if prefix ''-'' n then ''-'' else []) @ i @ f @ e"
    using assms(1) by (fastforce simp: number_def s_def Let_def split: if_splits option.splits)
  have "s \<noteq> []" using parts(1) by (auto simp: integer_part_def)
  then have sign: "prefix ''-'' (n @ t) = prefix ''-'' n" and tl: "(if prefix ''-'' n then tl (n @ t) else n @ t) = s @ t"
    unfolding s_def by (cases n; auto)+
  show ?thesis
    using integer_part_append [OF assms(2) parts(1)] fraction_append [OF assms(2) parts(2)]
      exponent_append [OF assms(2) parts(3)] tl
    by (auto simp: number_def sign m Let_def)
qed

lemma number_starts:
  assumes "number n = Some (n, [])"
  obtains c u where "n = c # u" "decimal c \<or> c = CHR ''-''"
proof (cases n)
  case (Cons c u)
  have "decimal c \<or> c = CHR ''-''"
    using assms by (auto simp: Cons number_def Let_def integer_part_def some_digits_def decimal_def split: if_splits option.splits)
  then show ?thesis by (rule that [OF Cons])
qed (use assms in \<open>simp add: number_def integer_part_def\<close>)

lemma number_int_text: "number (int_text i) = Some (int_text i, [])"
proof -
  have dec: "list_all decimal (nat_text k)" for k by (rule nat_text_decimal)
  have nat: "integer_part (nat_text k) = Some (nat_text k, [])" for k
  proof (cases "k = 0")
    case True
    have "nat_text 0 = ''0''" by (subst nat_text.simps) code_simp
    then show ?thesis using True by (simp add: integer_part_def)
  next
    case False
    then have "hd (nat_text k) \<noteq> CHR ''0''" using nat_text_no_zero by simp
    moreover have "takeWhile decimal (nat_text k) = nat_text k" "dropWhile decimal (nat_text k) = []"
      using dec [of k] by (simp_all add: list_all_iff)
    ultimately show ?thesis
      using nat_text_nonempty [of k] by (cases "nat_text k") (simp_all add: integer_part_def some_digits_def Let_def)
  qed
  have "\<not> prefix ''-'' (nat_text k)" for k using dec [of k] by (cases "nat_text k") auto
  then show ?thesis using nat by (auto simp: number_def int_text_def fraction_def exponent_def Let_def)
qed

section \<open>The printed text reads back\<close>

lemma skip_space_append: "list_all is_space ws \<Longrightarrow> skip_space (ws @ s) = skip_space s"
  by (induction ws) (auto simp: skip_space_def)

lemma break_blank: "list_all is_space (line_break ind n)"
  by (auto simp: line_break_def is_space_def list_all_iff)

lemmas skip_break [simp] = skip_space_append [OF break_blank]

lemma json_value_break [simp]: "json_value d (line_break ind n @ s) = json_value d s"
  unfolding json_value.simps [of d "line_break ind n @ s"] json_value.simps [of d s] by simp

lemma json_members_skip:
  assumes "skip_space s' = skip_space s"
  shows "json_members d s' = json_members d s"
proof -
  have "length r1 < length s" "length r1 < length s'"
    if "skip_space s = c # t" "string_body t = Some (k, r)" "skip_space r = e # r1" for c t k r e r1
    using skip_space_Cons [of s c t] skip_space_Cons [of s' c t] string_body_shorter [OF that(2)]
      skip_space_Cons [OF that(3)] that assms by simp_all
  moreover have "length r3 < length s" "length r3 < length s'"
    if "skip_space s = c # t" "string_body t = Some (k, r)" "skip_space r = e # r1" "json_value d r1 = Some (v, r2)"
      "skip_space r2 = f # r3" for c t k r e r1 v r2 f r3
    using skip_space_Cons [of s c t] skip_space_Cons [of s' c t] string_body_shorter [OF that(2)]
      skip_space_Cons [OF that(3)] json_value_shorter(1) [OF that(4)] skip_space_Cons [OF that(5)] that assms by simp_all
  ultimately show ?thesis
    unfolding json_members.simps [of d s'] json_members.simps [of d s] assms
    by (auto split: list.split option.split prod.split simp: not_le [symmetric])
qed

lemma json_elements_skip:
  assumes "skip_space s' = skip_space s"
  shows "json_elements d s' = json_elements d s"
proof -
  have same: "json_value d s' = json_value d s"
    unfolding json_value.simps [of d s'] json_value.simps [of d s] assms ..
  have "length r1 < length s" "length r1 < length s'" if "json_value d s = Some (v, r)" "skip_space r = e # r1" for v r e r1
    using json_value_shorter(1) [OF that(1)] json_value_shorter(1) [of d s' v r] skip_space_Cons [OF that(2)] that same by simp_all
  then show ?thesis
    unfolding json_elements.simps [of d s'] json_elements.simps [of d s] same
    by (auto split: list.split option.split prod.split simp: not_le [symmetric])
qed

lemma json_break [simp]:
  "json_members d (line_break ind n @ s) = json_members d s" "json_elements d (line_break ind n @ s) = json_elements d s"
  by (rule json_members_skip json_elements_skip, simp)+

lemma print_starts:
  assumes "numbers_ok v"
  shows "\<exists>c u. print_json ind n v = c # u \<and> \<not> is_space c \<and> c \<noteq> CHR '']'' \<and> c \<noteq> CHR ''}''"
proof (cases v)
  case (JNumber s)
  then obtain c u where c: "s = c # u" "decimal c \<or> c = CHR ''-''" using assms by (auto elim: number_starts)
  then have "\<not> is_space c" "c \<noteq> CHR '']''" "c \<noteq> CHR ''}''" by (auto simp: is_space_def decimal_def)
  then show ?thesis using c(1) JNumber by simp
qed (simp_all add: is_space_def json_string_def)

lemma skip_printed: "numbers_ok v \<Longrightarrow> skip_space (print_json ind n v @ t) = print_json ind n v @ t"
  using print_starts [of v ind n] by (auto simp: skip_space_solid)

lemma not_ending: "numbers_ok v \<Longrightarrow> \<not> prefix '']'' (print_json ind n v @ t)"
  using print_starts [of v ind n] by auto

lemma printed_longer: "numbers_ok v \<Longrightarrow> length t < length (print_json ind n v @ t)"
  using print_starts [of v ind n] by auto

lemma number_value: "number s = Some (s, []) \<Longrightarrow> ends_value t \<Longrightarrow> json_value d (s @ t) = Some (JNumber s, t)"
proof -
  assume s: "number s = Some (s, [])" and t: "ends_value t"
  then obtain c u where c: "s = c # u" "decimal c \<or> c = CHR ''-''" by (blast elim: number_starts)
  then have "\<not> is_space c" by (auto simp: is_space_def decimal_def)
  then have skip: "skip_space (c # u @ t) = c # u @ t" by (simp add: skip_space_solid)
  have ne: "c \<noteq> CHR 0x22" "c \<noteq> CHR ''{''" "c \<noteq> CHR ''[''" "c \<noteq> CHR ''t''" "c \<noteq> CHR ''f''" "c \<noteq> CHR ''n''"
    using c(2) by auto
  have "number (c # u @ t) = Some (c # u, t)" using number_append [OF s t] by (simp add: c(1))
  then show ?thesis
    unfolding c(1) append_Cons json_value.simps [of d "c # u @ t"] skip using ne ne [symmetric] by simp
qed

lemma ends_break [simp]:
  "ends_value (line_break ind n @ CHR '']'' # t)" "ends_value (line_break ind n @ CHR ''}'' # t)"
  "ends_value (CHR '','' # t)" "ends_value (CHR '']'' # t)" "ends_value (CHR ''}'' # t)" "ends_value []"
  by (auto simp: ends_value_def line_break_def)

lemma json_value_print:
  "numbers_ok v \<Longrightarrow> json_depth v \<le> d \<Longrightarrow> ends_value t \<Longrightarrow>
   json_value d (print_json ind n v @ t) = Some (clean_json v, t)"
  "list_all numbers_ok vs \<Longrightarrow> elements_depth vs \<le> d \<Longrightarrow> vs \<noteq> [] \<Longrightarrow>
   json_elements d (print_elements ind n vs @ line_break ind m @ CHR '']'' # t) = Some (List.map clean_json vs, t)"
  "list_all (\<lambda>m. numbers_ok (snd m)) ms \<Longrightarrow> members_depth ms \<le> d \<Longrightarrow> ms \<noteq> [] \<Longrightarrow>
   json_members d (print_members ind n ms @ line_break ind m @ CHR ''}'' # t) =
     Some (List.map (\<lambda>m. (utf8_clean (fst m), clean_json (snd m))) ms, t)"
proof (induction ind n v and ind n vs and ind n ms arbitrary: d t and d t m and d t m
    rule: print_json_print_elements_print_members.induct)
  case (1 ind n)
  show ?case by (subst json_value.simps) (simp add: skip_space_solid is_space_def)
next
  case (2 ind n b)
  show ?case by (subst json_value.simps) (cases b; simp add: skip_space_solid is_space_def)
next
  case (3 ind n s)
  then show ?case by (simp add: number_value)
next
  case (4 ind n s)
  show ?case
    by (subst json_value.simps) (simp add: skip_space_solid is_space_def json_string_def string_body_json_escape)
next
  case (5 ind n vs)
  show ?case
  proof (cases vs)
    case Nil
    with 5 show ?thesis by (subst json_value.simps) (simp add: skip_space_solid is_space_def)
  next
    case (Cons w ws)
    obtain e where d: "d = Suc e" "elements_depth vs \<le> e" using 5 by (cases d) auto
    have ok: "numbers_ok w" using 5 Cons by simp
    have "\<not> prefix '']'' (skip_space (print_elements ind (Suc n) vs @ line_break ind n @ CHR '']'' # t))"
      using not_ending [OF ok, of ind "Suc n"] skip_printed [OF ok, of ind "Suc n"] by (simp add: Cons)
    moreover have "json_elements e (print_elements ind (Suc n) vs @ line_break ind n @ CHR '']'' # t) =
        Some (List.map clean_json vs, t)"
      using 5 Cons d by (intro "5.IH") auto
    ultimately show ?thesis
      using Cons d by (subst json_value.simps) (simp add: skip_space_solid is_space_def)
  qed
next
  case (6 ind n ms)
  show ?case
  proof (cases ms)
    case Nil
    with 6 show ?thesis by (subst json_value.simps) (simp add: skip_space_solid is_space_def)
  next
    case (Cons w ws)
    obtain e where d: "d = Suc e" "members_depth ms \<le> e" using 6 by (cases d) auto
    have "\<not> prefix ''}'' (skip_space (print_members ind (Suc n) ms @ line_break ind n @ CHR ''}'' # t))"
      by (cases w) (simp add: Cons json_string_def skip_space_solid is_space_def)
    moreover have "json_members e (print_members ind (Suc n) ms @ line_break ind n @ CHR ''}'' # t) =
        Some (List.map (\<lambda>m. (utf8_clean (fst m), clean_json (snd m))) ms, t)"
      using 6 Cons d by (intro "6.IH") auto
    ultimately show ?thesis
      using Cons d by (subst json_value.simps) (simp add: skip_space_solid is_space_def)
  qed
next
  case (7 ind n)
  then show ?case by simp
next
  case (8 ind n v vs)
  show ?case
  proof (cases "vs = []")
    case True
    have "json_value d (print_json ind n v @ line_break ind m @ CHR '']'' # t) =
        Some (clean_json v, line_break ind m @ CHR '']'' # t)"
      using 8 by (intro "8.IH") auto
    then show ?thesis using True by (subst json_elements.simps) (simp add: skip_space_solid is_space_def)
  next
    case False
    let ?r = "line_break ind n @ print_elements ind n vs @ line_break ind m @ CHR '']'' # t"
    have "json_value d (print_json ind n v @ CHR '','' # ?r) = Some (clean_json v, CHR '','' # ?r)"
      using 8 by (intro "8.IH") auto
    moreover have "json_elements d ?r = Some (List.map clean_json vs, t)"
      unfolding json_break using 8 False by (intro "8.IH") auto
    ultimately show ?thesis using False by (subst json_elements.simps) (simp add: skip_space_solid is_space_def)
  qed
next
  case (9 ind n)
  then show ?case by simp
next
  case (10 ind n k v ms)
  let ?colon = "if ind then '': '' else '':''"
  have colon: "json_value d (tl ?colon @ u) = json_value d u" for u
    by (simp add: json_value.simps [of d "CHR 0x20 # u"] json_value.simps [of d u] skip_space_def is_space_def)
  have key: "string_body (json_escape k @ CHR 0x22 # u) = Some (utf8_clean k, u)" for u
    by (rule string_body_json_escape)
  show ?case
  proof (cases "ms = []")
    case True
    have "json_value d (print_json ind n v @ line_break ind m @ CHR ''}'' # t) =
        Some (clean_json v, line_break ind m @ CHR ''}'' # t)"
      using 10 by (intro "10.IH") auto
    then show ?thesis
      using True colon [of "print_json ind n v @ line_break ind m @ CHR ''}'' # t"]
      by (subst json_members.simps) (cases ind; simp add: skip_space_solid is_space_def json_string_def key)
  next
    case False
    let ?r = "line_break ind n @ print_members ind n ms @ line_break ind m @ CHR ''}'' # t"
    have "json_value d (print_json ind n v @ CHR '','' # ?r) = Some (clean_json v, CHR '','' # ?r)"
      using 10 by (intro "10.IH") auto
    moreover have "json_members d ?r = Some (List.map (\<lambda>m. (utf8_clean (fst m), clean_json (snd m))) ms, t)"
      unfolding json_break using 10 False by (intro "10.IH") auto
    ultimately show ?thesis
      using False colon [of "print_json ind n v @ CHR '','' # ?r"]
      by (subst json_members.simps) (cases ind; simp add: skip_space_solid is_space_def json_string_def key)
  qed
qed

theorem json_text_print:
  assumes "numbers_ok v" "json_depth v \<le> 10000"
  shows "json_text (print_json ind n v) = Some (clean_json v)" "json_text (print_json ind n v @ [CHR 0x0A]) = Some (clean_json v)"
  using json_value_print(1) [OF assms, of "[]"] json_value_print(1) [OF assms, of "[CHR 0x0A]"]
  by (simp_all add: json_text_def skip_space_def is_space_def ends_value_def)

section \<open>Structs\<close>

text \<open>A scalar field and its type: \<open>string\<close>, \<open>*string\<close>, an integer, \<open>bool\<close>; and a field that may be a slice of structs
  of scalars, with the struct of zero values a new element starts from.\<close>

datatype scalar = VString string | VOpt "string option" | VInt int | VBool bool

type_synonym flat_struct = "(string \<times> scalar) list"

datatype field = Scalar scalar | Structs flat_struct "flat_struct list"

type_synonym struct = "(string \<times> field) list"

definition errUnmarshalType :: error where
  "errUnmarshalType = Plain ''json: cannot unmarshal''"

text \<open>\<open>null\<close> leaves everything but a pointer and a slice as it is.\<close>

fun decode_scalar :: "scalar \<Rightarrow> json \<Rightarrow> error + scalar" where
  "decode_scalar (VOpt s) JNull = Inr (VOpt None)"
| "decode_scalar x JNull = Inr x"
| "decode_scalar (VString s) (JString t) = Inr (VString t)"
| "decode_scalar (VOpt s) (JString t) = Inr (VOpt (Some t))"
| "decode_scalar (VInt i) (JNumber n) = (case json_int n of Some j \<Rightarrow> Inr (VInt j) | None \<Rightarrow> Inl errUnmarshalType)"
| "decode_scalar (VBool b) (JBool c) = Inr (VBool c)"
| "decode_scalar _ _ = Inl errUnmarshalType"

text \<open>The members of an object one after the other, each into the field its name matches, if any.\<close>

definition same_name :: "string \<Rightarrow> string \<Rightarrow> bool" where
  "same_name k name = (fold_name k = fold_name name)"

fun update_first :: "('k \<Rightarrow> bool) \<Rightarrow> ('v \<Rightarrow> error + 'v) \<Rightarrow> ('k \<times> 'v) list \<Rightarrow> error + ('k \<times> 'v) list" where
  "update_first sel f [] = Inr []"
| "update_first sel f ((k, v) # s) =
    (if sel k then (case f v of Inl e \<Rightarrow> Inl e | Inr w \<Rightarrow> Inr ((k, w) # s))
     else (case update_first sel f s of Inl e \<Rightarrow> Inl e | Inr s' \<Rightarrow> Inr ((k, v) # s')))"

fun decode_members :: "('v \<Rightarrow> json \<Rightarrow> error + 'v) \<Rightarrow> (string \<times> json) list \<Rightarrow> (string \<times> 'v) list \<Rightarrow> error + (string \<times> 'v) list" where
  "decode_members dec [] s = Inr s"
| "decode_members dec ((k, v) # ms) s =
    (case update_first (same_name k) (\<lambda>x. dec x v) s of Inl e \<Rightarrow> Inl e | Inr s' \<Rightarrow> decode_members dec ms s')"

definition decode_flat :: "flat_struct \<Rightarrow> json \<Rightarrow> error + flat_struct" where
  "decode_flat s v =
    (case v of JNull \<Rightarrow> Inr s | JObject ms \<Rightarrow> decode_members decode_scalar ms s | _ \<Rightarrow> Inl errUnmarshalType)"

text \<open>The elements of an array are read into those that are there, further ones into zero values.\<close>

fun decode_slice :: "('s \<Rightarrow> json \<Rightarrow> error + 's) \<Rightarrow> 's \<Rightarrow> 's list \<Rightarrow> json list \<Rightarrow> error + 's list" where
  "decode_slice dec zero cur [] = Inr []"
| "decode_slice dec zero cur (v # vs) =
    (case dec (case cur of [] \<Rightarrow> zero | c # _ \<Rightarrow> c) v of
       Inl e \<Rightarrow> Inl e
     | Inr s \<Rightarrow>
         (case decode_slice dec zero (tl cur) vs of Inl e \<Rightarrow> Inl e | Inr ss \<Rightarrow> Inr (s # ss)))"

definition decode_field :: "field \<Rightarrow> json \<Rightarrow> error + field" where
  "decode_field x v =
    (case x of
       Scalar s \<Rightarrow> map_sum id Scalar (decode_scalar s v)
     | Structs zero cur \<Rightarrow>
         (case v of
            JNull \<Rightarrow> Inr (Structs zero [])
          | JArray vs \<Rightarrow> map_sum id (Structs zero) (decode_slice decode_flat zero cur vs)
          | _ \<Rightarrow> Inl errUnmarshalType))"

definition decode_struct :: "struct \<Rightarrow> json \<Rightarrow> error + struct" where
  "decode_struct s v =
    (case v of JNull \<Rightarrow> Inr s | JObject ms \<Rightarrow> decode_members decode_field ms s | _ \<Rightarrow> Inl errUnmarshalType)"

text \<open>\<open>Unmarshal\<close> into a zero struct, and into a nil slice of structs.\<close>

definition unmarshal_struct :: "struct \<Rightarrow> string \<Rightarrow> error + struct" where
  "unmarshal_struct zero s =
    (case json_text s of None \<Rightarrow> Inl (Plain ''invalid JSON'') | Some v \<Rightarrow> decode_struct zero v)"

definition unmarshal_structs :: "struct \<Rightarrow> string \<Rightarrow> error + struct list" where
  "unmarshal_structs zero s =
    (case json_text s of
       None \<Rightarrow> Inl (Plain ''invalid JSON'')
     | Some JNull \<Rightarrow> Inr []
     | Some (JArray vs) \<Rightarrow> decode_slice decode_struct zero [] vs
     | Some _ \<Rightarrow> Inl errUnmarshalType)"

text \<open>\<open>Marshal\<close>: fields of the option \<open>omitempty\<close> are left out when nil.\<close>

fun scalar_json :: "scalar \<Rightarrow> json" where
  "scalar_json (VString s) = JString s"
| "scalar_json (VOpt None) = JNull"
| "scalar_json (VOpt (Some s)) = JString s"
| "scalar_json (VInt i) = JNumber (int_text i)"
| "scalar_json (VBool b) = JBool b"

definition flat_json :: "flat_struct \<Rightarrow> json" where
  "flat_json s = JObject (List.map (\<lambda>m. (fst m, scalar_json (snd m))) s)"

fun field_json :: "field \<Rightarrow> json" where
  "field_json (Scalar s) = scalar_json s"
| "field_json (Structs zero ss) = JArray (List.map flat_json ss)"

definition struct_json :: "string list \<Rightarrow> struct \<Rightarrow> json" where
  "struct_json omitempty s =
    JObject (List.map (\<lambda>m. (fst m, field_json (snd m)))
      (filter (\<lambda>m. \<not> (fst m \<in> set omitempty \<and> snd m = Scalar (VOpt None))) s))"

section \<open>What was marshalled is read back\<close>

fun zero_scalar :: "scalar \<Rightarrow> scalar" where
  "zero_scalar (VString s) = VString []"
| "zero_scalar (VOpt s) = VOpt None"
| "zero_scalar (VInt i) = VInt 0"
| "zero_scalar (VBool b) = VBool False"

fun clean_value :: "scalar \<Rightarrow> scalar" where
  "clean_value (VString s) = VString (utf8_clean s)"
| "clean_value (VOpt s) = VOpt (map_option utf8_clean s)"
| "clean_value x = x"

fun in_range :: "scalar \<Rightarrow> bool" where
  "in_range (VInt i) = (- (2 ^ 63) \<le> i \<and> i < 2 ^ 63)"
| "in_range x = True"

definition clean_flat :: "flat_struct \<Rightarrow> flat_struct" where
  "clean_flat s = List.map (\<lambda>m. (fst m, clean_value (snd m))) s"

definition zero_flat :: "flat_struct \<Rightarrow> flat_struct" where
  "zero_flat s = List.map (\<lambda>m. (fst m, zero_scalar (snd m))) s"

fun zero_field :: "field \<Rightarrow> field" where
  "zero_field (Scalar s) = Scalar (zero_scalar s)"
| "zero_field (Structs z ss) = Structs z []"

fun clean_field :: "field \<Rightarrow> field" where
  "clean_field (Scalar s) = Scalar (clean_value s)"
| "clean_field (Structs z ss) = Structs z (List.map clean_flat ss)"

definition plain_names :: "string list \<Rightarrow> bool" where
  "plain_names ks = (distinct ks \<and> list_all (\<lambda>k. utf8_clean k = k \<and> fold_name k = k) ks)"

definition flat_ok :: "flat_struct \<Rightarrow> bool" where
  "flat_ok s = (plain_names (List.map fst s) \<and> list_all (\<lambda>m. in_range (snd m)) s)"

fun field_ok :: "field \<Rightarrow> bool" where
  "field_ok (Scalar s) = in_range s"
| "field_ok (Structs z ss) = list_all (\<lambda>s. flat_ok s \<and> zero_flat s = z) ss"

definition struct_ok :: "struct \<Rightarrow> bool" where
  "struct_ok s = (plain_names (List.map fst s) \<and> list_all (\<lambda>m. field_ok (snd m)) s)"

lemma json_int_any: "- (2 ^ 63) \<le> i \<Longrightarrow> i < 2 ^ 63 \<Longrightarrow> json_int (int_text i) = Some i"
proof -
  assume i: "- (2 ^ 63) \<le> i" "i < 2 ^ 63"
  have dec: "list_all decimal (nat_text k)" for k by (rule nat_text_decimal)
  then have "\<not> prefix ''-'' (nat_text k)" for k using dec [of k] by (cases "nat_text k") auto
  moreover have "nat (- i) \<le> 2 ^ 63" "0 \<le> i \<Longrightarrow> nat i < 2 ^ 63" using i by (simp_all add: nat_le_iff nat_less_iff)
  ultimately show ?thesis using i dec by (simp add: json_int_def int_text_def nat_text_value Let_def)
qed

lemma decode_scalar_json: "in_range x \<Longrightarrow> decode_scalar (zero_scalar x) (clean_json (scalar_json x)) = Inr (clean_value x)"
  by (cases x rule: scalar_json.cases) (auto simp: json_int_any)

lemma update_first_at:
  "list_all (\<lambda>m. \<not> sel (fst m)) pre \<Longrightarrow> sel k \<Longrightarrow> f v = Inr w \<Longrightarrow>
   update_first sel f (pre @ (k, v) # s) = Inr (pre @ (k, w) # s)"
  by (induction pre) auto

lemma set_members_fresh:
  assumes "plain_names (List.map fst (pre @ s))"
    and "\<And>k x. (k, x) \<in> set s \<Longrightarrow> keep (k, x) \<Longrightarrow> dec (z x) (clean_json (js x)) = Inr (cl x)"
    and "\<And>k x. (k, x) \<in> set s \<Longrightarrow> \<not> keep (k, x) \<Longrightarrow> z x = cl x"
  shows "decode_members dec (List.map (\<lambda>m. (utf8_clean (fst m), clean_json (js (snd m)))) (filter keep s))
      (pre @ List.map (\<lambda>m. (fst m, z (snd m))) s) = Inr (pre @ List.map (\<lambda>m. (fst m, cl (snd m))) s)"
  using assms
proof (induction s arbitrary: pre)
  case (Cons m s)
  obtain k x where m: "m = (k, x)" by fastforce
  let ?pre = "pre @ [(k, cl x)]"
  have IH: "decode_members dec (List.map (\<lambda>m. (utf8_clean (fst m), clean_json (js (snd m)))) (filter keep s))
      (?pre @ List.map (\<lambda>m. (fst m, z (snd m))) s) = Inr (?pre @ List.map (\<lambda>m. (fst m, cl (snd m))) s)"
    using Cons.prems by (intro Cons.IH) (auto simp: m)
  show ?case
  proof (cases "keep m")
    case True
    have k: "utf8_clean k = k" "fold_name k = k" and other: "list_all (\<lambda>m. \<not> same_name k (fst m)) pre"
      using Cons.prems(1) by (auto simp: m plain_names_def list_all_iff same_name_def)
    have "dec (z x) (clean_json (js x)) = Inr (cl x)" using Cons.prems(2) [of k x] True by (simp add: m)
    then have "update_first (same_name k) (\<lambda>y. dec y (clean_json (js x)))
        (pre @ (k, z x) # List.map (\<lambda>m. (fst m, z (snd m))) s) =
        Inr (pre @ (k, cl x) # List.map (\<lambda>m. (fst m, z (snd m))) s)"
      by (intro update_first_at other) (simp_all add: same_name_def)
    then show ?thesis using True IH by (simp add: m k)
  next
    case False
    then have "z x = cl x" using Cons.prems(3) [of k x] by (simp add: m)
    then show ?thesis using False IH by (simp add: m)
  qed
qed simp

lemma decode_flat_json: "flat_ok s \<Longrightarrow> decode_flat (zero_flat s) (clean_json (flat_json s)) = Inr (clean_flat s)"
proof -
  assume "flat_ok s"
  then have "decode_members decode_scalar
      (List.map (\<lambda>m. (utf8_clean (fst m), clean_json (scalar_json (snd m)))) (filter (\<lambda>_. True) s))
      ([] @ List.map (\<lambda>m. (fst m, zero_scalar (snd m))) s) = Inr ([] @ List.map (\<lambda>m. (fst m, clean_value (snd m))) s)"
    by (intro set_members_fresh) (auto simp: flat_ok_def list_all_iff decode_scalar_json)
  then show ?thesis by (simp add: decode_flat_def flat_json_def zero_flat_def clean_flat_def comp_def)
qed

lemma decode_slice_json:
  "(\<And>s. s \<in> set ss \<Longrightarrow> dec zero (js s) = Inr (cl s)) \<Longrightarrow>
   decode_slice dec zero [] (List.map js ss) = Inr (List.map cl ss)"
  by (induction ss) auto

lemma decode_field_json: "field_ok x \<Longrightarrow> decode_field (zero_field x) (clean_json (field_json x)) = Inr (clean_field x)"
proof (cases x)
  case (Scalar s)
  then show "field_ok x \<Longrightarrow> ?thesis" by (simp add: decode_field_def decode_scalar_json)
next
  case (Structs z ss)
  assume "field_ok x"
  then have "decode_slice decode_flat z [] (List.map (\<lambda>s. clean_json (flat_json s)) ss) = Inr (List.map clean_flat ss)"
    using Structs by (intro decode_slice_json) (auto simp: list_all_iff decode_flat_json)
  then show ?thesis by (simp add: Structs decode_field_def comp_def)
qed

lemma decode_struct_json:
  assumes "struct_ok s"
  shows "decode_struct (List.map (\<lambda>m. (fst m, zero_field (snd m))) s) (clean_json (struct_json omitempty s)) =
    Inr (List.map (\<lambda>m. (fst m, clean_field (snd m))) s)"
proof -
  have "decode_members decode_field
      (List.map (\<lambda>m. (utf8_clean (fst m), clean_json (field_json (snd m))))
        (filter (\<lambda>m. \<not> (fst m \<in> set omitempty \<and> snd m = Scalar (VOpt None))) s))
      ([] @ List.map (\<lambda>m. (fst m, zero_field (snd m))) s) = Inr ([] @ List.map (\<lambda>m. (fst m, clean_field (snd m))) s)"
    using assms by (intro set_members_fresh) (auto simp: struct_ok_def list_all_iff decode_field_json)
  then show ?thesis by (simp add: decode_struct_def struct_json_def comp_def)
qed

lemma scalar_text_ok: "numbers_ok (scalar_json x)" "json_depth (scalar_json x) = 0"
  by (cases x rule: scalar_json.cases; simp add: number_int_text)+

lemma members_depth_le: "(\<And>k v. (k, v) \<in> set ms \<Longrightarrow> json_depth v \<le> d) \<Longrightarrow> members_depth ms \<le> d"
  by (induction ms) force+

lemma elements_depth_le: "(\<And>v. v \<in> set vs \<Longrightarrow> json_depth v \<le> d) \<Longrightarrow> elements_depth vs \<le> d"
  by (induction vs) auto

lemma flat_text_ok: "numbers_ok (flat_json s)" "json_depth (flat_json s) \<le> 1"
proof -
  have "members_depth (List.map (\<lambda>m. (fst m, scalar_json (snd m))) s) \<le> 0"
    by (rule members_depth_le) (auto simp: scalar_text_ok)
  then show "numbers_ok (flat_json s)" "json_depth (flat_json s) \<le> 1"
    by (simp_all add: flat_json_def list_all_iff scalar_text_ok)
qed

lemma field_text_ok: "numbers_ok (field_json x)" "json_depth (field_json x) \<le> 2"
proof -
  have slice: "elements_depth (List.map flat_json ss) \<le> 1" for ss
    using flat_text_ok(2) by (intro elements_depth_le) auto
  show "numbers_ok (field_json x)" "json_depth (field_json x) \<le> 2"
    using slice by (cases x; simp add: list_all_iff scalar_text_ok flat_text_ok)+
qed

lemma struct_text_ok: "numbers_ok (struct_json om s)" "json_depth (struct_json om s) \<le> 3"
proof -
  have "members_depth (List.map (\<lambda>m. (fst m, field_json (snd m))) ms) \<le> 2" for ms
    by (rule members_depth_le) (auto simp: field_text_ok)
  then show "numbers_ok (struct_json om s)" "json_depth (struct_json om s) \<le> 3"
    by (simp_all add: struct_json_def list_all_iff field_text_ok)
qed

text \<open>A struct from the text of \<open>Marshal\<close> or \<open>MarshalIndent\<close>, with or without the line break after it, and a slice.\<close>

lemma unmarshal_printed:
  assumes "struct_ok s" "zero = List.map (\<lambda>m. (fst m, zero_field (snd m))) s" "t = [] \<or> t = [CHR 0x0A]"
  shows "unmarshal_struct zero (print_json ind n (struct_json omitempty s) @ t) =
    Inr (List.map (\<lambda>m. (fst m, clean_field (snd m))) s)"
  using json_text_print [of "struct_json omitempty s" ind n] struct_text_ok [of omitempty s]
    decode_struct_json [OF assms(1), of omitempty] assms(2,3)
  by (auto simp: unmarshal_struct_def)

lemma unmarshal_printed_slice:
  assumes "\<And>s. s \<in> set ss \<Longrightarrow> struct_ok s \<and> zero = List.map (\<lambda>m. (fst m, zero_field (snd m))) s"
  shows "unmarshal_structs zero (print_json ind n (JArray (List.map (struct_json omitempty) ss)) @ [CHR 0x0A]) =
    Inr (List.map (\<lambda>s. List.map (\<lambda>m. (fst m, clean_field (snd m))) s) ss)"
proof -
  have "elements_depth (List.map (struct_json omitempty) ss) \<le> 3"
    by (rule elements_depth_le) (auto simp: struct_text_ok)
  moreover have "list_all numbers_ok (List.map (struct_json omitempty) ss)" by (simp add: list_all_iff struct_text_ok)
  ultimately have "json_text (print_json ind n (JArray (List.map (struct_json omitempty) ss)) @ [CHR 0x0A]) =
      Some (clean_json (JArray (List.map (struct_json omitempty) ss)))"
    by (intro json_text_print) simp_all
  then have "json_text (print_json ind n (JArray (List.map (struct_json omitempty) ss)) @ [CHR 0x0A]) =
      Some (JArray (List.map (\<lambda>s. clean_json (struct_json omitempty s)) ss))"
    by (simp add: comp_def)
  moreover have "decode_slice decode_struct zero [] (List.map (\<lambda>s. clean_json (struct_json omitempty s)) ss) =
      Inr (List.map (\<lambda>s. List.map (\<lambda>m. (fst m, clean_field (snd m))) s) ss)"
  proof (rule decode_slice_json)
    fix s assume "s \<in> set ss"
    from assms [OF this] show "decode_struct zero (clean_json (struct_json omitempty s)) = Inr (List.map (\<lambda>m. (fst m, clean_field (snd m))) s)"
      using decode_struct_json [of s omitempty] by simp
  qed
  ultimately show ?thesis by (simp add: unmarshal_structs_def)
qed

end
