(* ===== verification/Snapshot_Files.thy ===== *)
theory Snapshot_Files
  imports Json_Struct Record_Ids Chat_Import
begin

text \<open>\<open>gitsnapshot/snapshot.go\<close>, the texts of a git export: the registries, the metadata of records and chats, and the
  items of a chat, as \<open>writeSnapshotContents\<close> builds them and the readers parse them. The structs of the JSON
  files are lists of fields (\<open>Json_Struct\<close>). The code sorts with an unstable sort; the keys it compares are unique
  in what the program exports.\<close>

section \<open>The snapshot\<close>

record TemplateExport =
  teName :: string
  teHTMLContent :: string

record FigureExport =
  feFilename :: string
  feS3Key :: string
  feAltText :: "string option"
  feContent :: string

record DataFileExport =
  deFilename :: string
  deS3Key :: string
  deSize :: int
  deHash :: string
  deDescription :: "string option"

record RecordExport =
  reID :: string
  reDate :: string
  reDayOrder :: string
  reProjectID :: string
  reSourceDeviceID :: string
  reSourceRef :: "string option"
  reGitRemoteURL :: "string option"
  reGitHash :: "string option"
  reHTMLContent :: "string option"
  reNotes :: "string option"
  reFigures :: "FigureExport list"
  reDataFiles :: "DataFileExport list"
  reCreatedAt :: time
  reUpdatedAt :: time

record RegistryExport =
  geID :: string
  geCreatedAt :: time
  geUpdatedAt :: time
  geArchivedAt :: "time option"

record ChatItemExport =
  ieOrdinal :: int
  ieRole :: string
  ieItemType :: string
  ieText :: "string option"
  ieSearchText :: string
  ieRawJSON :: "string option"
  ieCreatedAt :: time

record ChatExport =
  ceID :: string
  ceSource :: string
  ceSourceSessionID :: string
  ceParentSourceSessionID :: "string option"
  ceSourceDeviceID :: string
  ceProjectID :: "string option"
  ceCWD :: "string option"
  ceTitle :: "string option"
  ceStartedAt :: time
  ceLastActivityAt :: time
  ceOriginalSourcePath :: "string option"
  ceRawSourceKey :: "string option"
  ceRawSourceContent :: string
  ceCreatedAt :: time
  ceUpdatedAt :: time
  ceItems :: "ChatItemExport list"

record Snapshot =
  ssTemplates :: "TemplateExport list"
  ssProjects :: "RegistryExport list"
  ssDevices :: "RegistryExport list"
  ssRecords :: "RecordExport list"
  ssChats :: "ChatExport list"

definition FormatVersion :: int where
  "FormatVersion = 1"

definition ChatFormatVersion :: int where
  "ChatFormatVersion = 2"

section \<open>Times\<close>

text \<open>\<open>Format(time.RFC3339Nano)\<close> of a time in UTC: the fraction without trailing zeros.\<close>

definition nano_fraction :: "int \<Rightarrow> string" where
  "nano_fraction n = (if n = 0 then [] else CHR ''.'' # rev (dropWhile (\<lambda>c. c = CHR ''0'') (rev (digits 9 n))))"

definition format_rfc3339_nano :: "time \<Rightarrow> string" where
  "format_rfc3339_nano t =
    (let s = t div 1000000000 mod 86400 in
     case civil (t div nanos_per_day) of (y, m, d) \<Rightarrow>
       year_text y @ ''-'' @ digits 2 m @ ''-'' @ digits 2 d @ ''T'' @
       digits 2 (s div 3600) @ '':'' @ digits 2 (s div 60 mod 60) @ '':'' @ digits 2 (s mod 60) @
       nano_fraction (t mod 1000000000) @ ''Z'')"

definition parse_time :: "string \<Rightarrow> string \<Rightarrow> error + time" where
  "parse_time msg s =
    (case parse_rfc3339_nano s of None \<Rightarrow> Inl (Wrapped msg (Plain ''time.Parse'')) | Some t \<Rightarrow> Inr t)"

section \<open>Fields of a struct\<close>

definition string_at :: "struct \<Rightarrow> string \<Rightarrow> string" where
  "string_at s k = (case map_of s k of Some (Scalar (VString x)) \<Rightarrow> x | _ \<Rightarrow> [])"

definition opt_at :: "struct \<Rightarrow> string \<Rightarrow> string option" where
  "opt_at s k = (case map_of s k of Some (Scalar (VOpt x)) \<Rightarrow> x | _ \<Rightarrow> None)"

definition int_at :: "struct \<Rightarrow> string \<Rightarrow> int" where
  "int_at s k = (case map_of s k of Some (Scalar (VInt x)) \<Rightarrow> x | _ \<Rightarrow> 0)"

definition bool_at :: "struct \<Rightarrow> string \<Rightarrow> bool" where
  "bool_at s k = (case map_of s k of Some (Scalar (VBool x)) \<Rightarrow> x | _ \<Rightarrow> False)"

definition rows_at :: "struct \<Rightarrow> string \<Rightarrow> struct list" where
  "rows_at s k =
    (case map_of s k of Some (Structs z xs) \<Rightarrow> List.map (List.map (\<lambda>m. (fst m, Scalar (snd m)))) xs | _ \<Rightarrow> [])"

section \<open>Registries\<close>

definition registry_struct :: "string \<Rightarrow> string \<Rightarrow> string \<Rightarrow> string option \<Rightarrow> struct" where
  "registry_struct i created updated archived =
    [(''id'', Scalar (VString i)), (''created_at'', Scalar (VString created)), (''updated_at'', Scalar (VString updated)),
     (''archived_at'', Scalar (VOpt archived))]"

definition registry_entry :: "RegistryExport \<Rightarrow> error + struct" where
  "registry_entry e =
    (if blank (geID e) then Inl (Plain ''registry id is required'')
     else if is_zero (geCreatedAt e) \<or> is_zero (geUpdatedAt e)
     then Inl (Plain ''registry must have created_at and updated_at'')
     else Inr (registry_struct (geID e) (format_rfc3339_nano (geCreatedAt e)) (format_rfc3339_nano (geUpdatedAt e))
            (map_option format_rfc3339_nano (geArchivedAt e))))"

fun map_result :: "('a \<Rightarrow> error + 'b) \<Rightarrow> 'a list \<Rightarrow> error + 'b list" where
  "map_result f [] = Inr []"
| "map_result f (x # xs) =
    (case f x of Inl e \<Rightarrow> Inl e | Inr y \<Rightarrow> (case map_result f xs of Inl e \<Rightarrow> Inl e | Inr ys \<Rightarrow> Inr (y # ys)))"

definition registry_text :: "RegistryExport list \<Rightarrow> error + string" where
  "registry_text entries =
    (case map_result registry_entry (sort_key geID entries) of
       Inl e \<Rightarrow> Inl e
     | Inr fileEntries \<Rightarrow>
         Inr (marshal_indent (JArray (List.map (struct_json [''archived_at'']) fileEntries)) @ [CHR 0x0A]))"

definition if_ok :: "error + 'a \<Rightarrow> ('a \<Rightarrow> error + 'b) \<Rightarrow> error + 'b" where
  "if_ok r f = (case r of Inl e \<Rightarrow> Inl e | Inr a \<Rightarrow> f a)"

definition guard :: "bool \<Rightarrow> string \<Rightarrow> error + unit" where
  "guard b msg = (if b then Inr () else Inl (Plain msg))"

definition read_registry_entry :: "struct \<Rightarrow> string list \<times> RegistryExport list \<Rightarrow> error + string list \<times> RegistryExport list" where
  "read_registry_entry s st =
    (let i = string_at s ''id'' in
     if_ok (guard (\<not> blank i) ''registry id is required'') (\<lambda>_.
     if_ok (guard (i \<notin> set (fst st)) ''duplicate registry id'') (\<lambda>_.
     if_ok (parse_time ''parse created_at for registry'' (string_at s ''created_at'')) (\<lambda>created.
     if_ok (parse_time ''parse updated_at for registry'' (string_at s ''updated_at'')) (\<lambda>updated.
     if_ok (case opt_at s ''archived_at'' of
              None \<Rightarrow> Inr None
            | Some a \<Rightarrow> map_sum id Some (parse_time ''parse archived_at for registry'' a)) (\<lambda>archived.
       Inr (i # fst st,
         snd st @ [\<lparr> geID = i, geCreatedAt = created, geUpdatedAt = updated, geArchivedAt = archived \<rparr>])))))))"

definition parse_registry :: "string \<Rightarrow> error + RegistryExport list" where
  "parse_registry content =
    (case unmarshal_structs (registry_struct [] [] [] None) content of
       Inl e \<Rightarrow> Inl e
     | Inr fileEntries \<Rightarrow>
         map_sum id (\<lambda>st. sort_key geID (snd st)) (each_result read_registry_entry fileEntries ([], [])))"

section \<open>Path segments\<close>

definition validatePathSegment_export :: "string \<Rightarrow> string \<Rightarrow> error + unit" where
  "validatePathSegment_export field v =
    (if blank v then Inl (Plain (field @ '' is required''))
     else if v = ''.'' \<or> v = ''..'' then Inl (Plain (field @ '' must not be a dot''))
     else if CHR ''/'' \<in> set v \<or> CHR 0x5C \<in> set v then Inl (Plain (field @ '' must not include path separators''))
     else if v \<noteq> filepath_base v then Inl (Plain (field @ '' must not include path separators''))
     else Inr ())"

definition rawSourceExportFilename :: "string \<Rightarrow> string \<Rightarrow> error + string" where
  "rawSourceExportFilename chatID rawSourceKey =
    (let parts = split_at (CHR ''/'') rawSourceKey in
     if length parts \<noteq> 4 \<or> parts ! 0 \<noteq> ''chats'' \<or> parts ! 1 \<noteq> ''raw'' then Inl (Plain ''expected a raw source key'')
     else if parts ! 2 \<noteq> chatID then Inl (Plain ''raw source key chat id does not match snapshot chat'')
     else if parts ! 3 \<in> {''source.json'', ''source.jsonl'', ''source.ndjson''} then Inr (parts ! 3)
     else Inl (Plain ''expected source.{json|jsonl|ndjson}''))"

section \<open>Records\<close>

definition metadata_struct ::
  "int \<Rightarrow> string \<Rightarrow> string \<Rightarrow> string \<Rightarrow> string \<Rightarrow> string \<Rightarrow> string option \<Rightarrow> string option \<Rightarrow> string option \<Rightarrow> bool \<Rightarrow>
   flat_struct list \<Rightarrow> flat_struct list \<Rightarrow> string \<Rightarrow> string \<Rightarrow> struct" where
  "metadata_struct version i date day_order project device source_ref remote hash has_notes figures files created updated =
    [(''format_version'', Scalar (VInt version)), (''id'', Scalar (VString i)), (''date'', Scalar (VString date)),
     (''day_order'', Scalar (VString day_order)), (''project_id'', Scalar (VString project)),
     (''source_device_id'', Scalar (VString device)), (''source_ref'', Scalar (VOpt source_ref)),
     (''git_remote_url'', Scalar (VOpt remote)), (''git_hash'', Scalar (VOpt hash)),
     (''has_notes'', Scalar (VBool has_notes)),
     (''figures'', Structs [(''filename'', VString []), (''s3_key'', VString []), (''alt_text'', VOpt None)] figures),
     (''data_files'', Structs [(''filename'', VString []), (''s3_key'', VString []), (''size'', VInt 0), (''hash'', VString []),
       (''description'', VOpt None)] files),
     (''created_at'', Scalar (VString created)), (''updated_at'', Scalar (VString updated))]"

definition figure_struct :: "FigureExport \<Rightarrow> flat_struct" where
  "figure_struct f =
    [(''filename'', VString (feFilename f)), (''s3_key'', VString (feS3Key f)), (''alt_text'', VOpt (feAltText f))]"

definition data_file_struct :: "DataFileExport \<Rightarrow> flat_struct" where
  "data_file_struct f =
    [(''filename'', VString (deFilename f)), (''s3_key'', VString (deS3Key f)), (''size'', VInt (deSize f)),
     (''hash'', VString (deHash f)), (''description'', VOpt (deDescription f))]"

definition record_struct :: "RecordExport \<Rightarrow> struct" where
  "record_struct r =
    metadata_struct FormatVersion (reID r) (reDate r) (reDayOrder r) (reProjectID r) (reSourceDeviceID r) (reSourceRef r)
      (reGitRemoteURL r) (reGitHash r) (reNotes r \<noteq> None)
      (List.map figure_struct (sort_key feFilename (reFigures r)))
      (List.map data_file_struct (sort_key deFilename (reDataFiles r)))
      (format_rfc3339_nano (reCreatedAt r)) (format_rfc3339_nano (reUpdatedAt r))"

definition record_metadata_text :: "RecordExport \<Rightarrow> string" where
  "record_metadata_text r =
    marshal_indent (struct_json [''source_ref'', ''git_remote_url'', ''git_hash''] (record_struct r)) @ [CHR 0x0A]"

text \<open>The checks of \<open>readRecord\<close> on the metadata, and what it takes from it; figures are still without their bytes.\<close>

definition metadata_figure :: "struct \<Rightarrow> FigureExport" where
  "metadata_figure s =
    \<lparr> feFilename = string_at s ''filename'', feS3Key = string_at s ''s3_key'', feAltText = opt_at s ''alt_text'', feContent = [] \<rparr>"

definition metadata_data_file :: "struct \<Rightarrow> DataFileExport" where
  "metadata_data_file s =
    \<lparr> deFilename = string_at s ''filename'', deS3Key = string_at s ''s3_key'', deSize = int_at s ''size'',
      deHash = string_at s ''hash'', deDescription = opt_at s ''description'' \<rparr>"

definition parse_record_metadata :: "string \<Rightarrow> string \<Rightarrow> error + RecordExport \<times> bool" where
  "parse_record_metadata recordID content =
    if_ok (unmarshal_struct (metadata_struct 0 [] [] [] [] [] None None None False [] [] [] []) content) (\<lambda>s.
    if_ok (guard (int_at s ''format_version'' = FormatVersion) ''unsupported format_version'') (\<lambda>_.
    if_ok (guard (string_at s ''id'' = recordID) ''metadata id does not match record dir'') (\<lambda>_.
    if_ok (guard (\<not> blank (string_at s ''project_id'')) ''project_id is required'') (\<lambda>_.
    if_ok (guard (\<not> blank (string_at s ''source_device_id'')) ''source_device_id is required'') (\<lambda>_.
    if_ok (parse_time ''parse created_at'' (string_at s ''created_at'')) (\<lambda>created.
    if_ok (parse_time ''parse updated_at'' (string_at s ''updated_at'')) (\<lambda>updated.
      Inr (\<lparr> reID = recordID, reDate = string_at s ''date'', reDayOrder = string_at s ''day_order'',
             reProjectID = string_at s ''project_id'', reSourceDeviceID = string_at s ''source_device_id'',
             reSourceRef = opt_at s ''source_ref'', reGitRemoteURL = opt_at s ''git_remote_url'',
             reGitHash = opt_at s ''git_hash'', reHTMLContent = None, reNotes = None,
             reFigures = List.map metadata_figure (rows_at s ''figures''),
             reDataFiles = List.map metadata_data_file (rows_at s ''data_files''),
             reCreatedAt = created, reUpdatedAt = updated \<rparr>, bool_at s ''has_notes''))))))))"

section \<open>Chats\<close>

definition chat_metadata_struct ::
  "int \<Rightarrow> string \<Rightarrow> string \<Rightarrow> string \<Rightarrow> string option \<Rightarrow> string \<Rightarrow> string option \<Rightarrow> string option \<Rightarrow> string option \<Rightarrow>
   string \<Rightarrow> string \<Rightarrow> string option \<Rightarrow> string option \<Rightarrow> string option \<Rightarrow> string \<Rightarrow> string \<Rightarrow> struct" where
  "chat_metadata_struct version i source source_session parent device project cwd title started latest original raw
      legacy created updated =
    [(''format_version'', Scalar (VInt version)), (''id'', Scalar (VString i)), (''source'', Scalar (VString source)),
     (''source_session_id'', Scalar (VString source_session)), (''parent_source_session_id'', Scalar (VOpt parent)),
     (''source_device_id'', Scalar (VString device)), (''project_id'', Scalar (VOpt project)), (''cwd'', Scalar (VOpt cwd)),
     (''title'', Scalar (VOpt title)), (''started_at'', Scalar (VString started)),
     (''last_activity_at'', Scalar (VString latest)), (''original_source_path'', Scalar (VOpt original)),
     (''raw_source_key'', Scalar (VOpt raw)), (''source_path'', Scalar (VOpt legacy)),
     (''created_at'', Scalar (VString created)), (''updated_at'', Scalar (VString updated))]"

definition chat_struct :: "ChatExport \<Rightarrow> struct" where
  "chat_struct c =
    chat_metadata_struct ChatFormatVersion (ceID c) (ceSource c) (ceSourceSessionID c) (ceParentSourceSessionID c)
      (ceSourceDeviceID c) (ceProjectID c) (ceCWD c) (ceTitle c) (format_rfc3339_nano (ceStartedAt c))
      (format_rfc3339_nano (ceLastActivityAt c)) (ceOriginalSourcePath c) (ceRawSourceKey c) None
      (format_rfc3339_nano (ceCreatedAt c)) (format_rfc3339_nano (ceUpdatedAt c))"

definition chat_metadata_text :: "ChatExport \<Rightarrow> string" where
  "chat_metadata_text c =
    marshal_indent (struct_json [''parent_source_session_id'', ''project_id'', ''cwd'', ''title'', ''original_source_path'',
      ''raw_source_key'', ''source_path''] (chat_struct c)) @ [CHR 0x0A]"

definition parse_chat_metadata :: "string \<Rightarrow> string \<Rightarrow> error + ChatExport" where
  "parse_chat_metadata chatID content =
    if_ok (unmarshal_struct (chat_metadata_struct 0 [] [] [] None [] None None None [] [] None None None [] []) content) (\<lambda>s.
    if_ok (guard (int_at s ''format_version'' = ChatFormatVersion) ''unsupported chat format_version'') (\<lambda>_.
    if_ok (guard (opt_at s ''source_path'' = None) ''chat metadata contains legacy source_path'') (\<lambda>_.
    if_ok (guard (string_at s ''id'' = chatID) ''chat metadata id does not match dir'') (\<lambda>_.
    if_ok (parse_time ''parse started_at for chat'' (string_at s ''started_at'')) (\<lambda>started.
    if_ok (parse_time ''parse last_activity_at for chat'' (string_at s ''last_activity_at'')) (\<lambda>last.
    if_ok (parse_time ''parse created_at for chat'' (string_at s ''created_at'')) (\<lambda>created.
    if_ok (parse_time ''parse updated_at for chat'' (string_at s ''updated_at'')) (\<lambda>updated.
      Inr \<lparr> ceID = chatID, ceSource = string_at s ''source'', ceSourceSessionID = string_at s ''source_session_id'',
            ceParentSourceSessionID = opt_at s ''parent_source_session_id'',
            ceSourceDeviceID = string_at s ''source_device_id'', ceProjectID = opt_at s ''project_id'',
            ceCWD = opt_at s ''cwd'', ceTitle = opt_at s ''title'', ceStartedAt = started, ceLastActivityAt = last,
            ceOriginalSourcePath = opt_at s ''original_source_path'', ceRawSourceKey = opt_at s ''raw_source_key'',
            ceRawSourceContent = [], ceCreatedAt = created, ceUpdatedAt = updated, ceItems = [] \<rparr>))))))))"

text \<open>The lines of \<open>items.jsonl\<close>, and the scan of them; the scanner gives up at a line that does not fit its buffer.\<close>

definition item_struct :: "int \<Rightarrow> string \<Rightarrow> string \<Rightarrow> string option \<Rightarrow> string \<Rightarrow> string option \<Rightarrow> string \<Rightarrow> struct" where
  "item_struct ordinal role item_kind body search raw created =
    [(''ordinal'', Scalar (VInt ordinal)), (''role'', Scalar (VString role)), (''item_type'', Scalar (VString item_kind)),
     (''text'', Scalar (VOpt body)), (''search_text'', Scalar (VString search)), (''raw_json'', Scalar (VOpt raw)),
     (''created_at'', Scalar (VString created))]"

definition item_line :: "ChatItemExport \<Rightarrow> string" where
  "item_line i =
    marshal (struct_json [''text'', ''raw_json'']
      (item_struct (ieOrdinal i) (ieRole i) (ieItemType i) (ieText i) (ieSearchText i) (ieRawJSON i)
        (format_rfc3339_nano (ieCreatedAt i)))) @ [CHR 0x0A]"

definition items_text :: "ChatItemExport list \<Rightarrow> string" where
  "items_text items = concat (List.map item_line (sort_key ieOrdinal items))"

definition read_item_line :: "string \<Rightarrow> ChatItemExport list \<Rightarrow> error + ChatItemExport list" where
  "read_item_line text_line items =
    (if maxJSONLLineBytes \<le> length text_line then Inl (Wrapped ''scan chat items'' (Plain ''bufio.Scanner: token too long''))
     else let line = trim_space text_line in
       if line = [] then Inr items
       else
         if_ok (wrap_result ''parse chat item'' (unmarshal_struct (item_struct 0 [] [] None [] None []) line)) (\<lambda>s.
         if_ok (guard (int_at s ''ordinal'' \<notin> ieOrdinal ` set items) ''duplicate chat item ordinal'') (\<lambda>_.
         if_ok (parse_time ''parse chat item created_at'' (string_at s ''created_at'')) (\<lambda>created.
           Inr (items @ [\<lparr> ieOrdinal = int_at s ''ordinal'', ieRole = string_at s ''role'', ieItemType = string_at s ''item_type'',
             ieText = opt_at s ''text'', ieSearchText = string_at s ''search_text'', ieRawJSON = opt_at s ''raw_json'',
             ieCreatedAt = created \<rparr>])))))"

definition parse_chat_items :: "string \<Rightarrow> error + ChatItemExport list" where
  "parse_chat_items content =
    map_sum id (sort_key ieOrdinal) (each_result read_item_line (split_at (CHR 0x0A) content) [])"

section \<open>Git LFS pointers\<close>

definition strip_text :: "string \<Rightarrow> string \<Rightarrow> string option" where
  "strip_text p s = (if prefix p s then Some (drop (length p) s) else None)"

definition line_end :: "string \<Rightarrow> string option" where
  "line_end s = strip_text [CHR 0x0A] (if prefix [CHR 0x0D] s then tl s else s)"

definition oid_digit :: "char \<Rightarrow> bool" where
  "oid_digit c = (hex_value c \<noteq> None)"

definition lfsPointer :: "string \<Rightarrow> bool" where
  "lfsPointer s =
    (case Option.bind (strip_text ''version https://git-lfs.github.com/spec/v1'' s) (\<lambda>s1.
          Option.bind (line_end s1) (\<lambda>s2.
          Option.bind (strip_text ''oid sha256:'' s2) (\<lambda>s3.
          if length (take 64 s3) < 64 \<or> \<not> list_all oid_digit (take 64 s3) then None
          else Option.bind (line_end (drop 64 s3)) (strip_text ''size '')))) of
       None \<Rightarrow> False
     | Some s4 \<Rightarrow>
         takeWhile decimal s4 \<noteq> [] \<and>
         dropWhile decimal s4 \<in> {[], [CHR 0x0A], [CHR 0x0D], [CHR 0x0D, CHR 0x0A]})"

definition isLFSPointer :: "string \<Rightarrow> bool" where
  "isLFSPointer data = (length data \<le> 512 \<and> lfsPointer data)"

end
