(* ===== verification/Git_Snapshot.thy ===== *)
theory Git_Snapshot
  imports Snapshot_Files Config "HOL-Library.Product_Lexorder"
begin

text \<open>\<open>gitsnapshot/snapshot.go\<close>, the snapshot on disk: \<open>Write\<close> builds the tree in a staging directory and replaces the
  managed entries of the export root by it (\<open>Replacement\<close>); \<open>Read\<close> loads and checks the tree. The texts of the files
  are those of \<open>Snapshot_Files\<close>.\<close>

section \<open>Writing a file\<close>

text \<open>The temporary file is removed unless the rename is reached; the mode and the directory are flushed after it.\<close>

definition fill_snapshot_temp :: "path \<Rightarrow> path \<Rightarrow> string \<Rightarrow> (files, unit) act" where
  "fill_snapshot_temp tempPath p content =
    cleanup_unless_ok (ignored (remove_file tempPath))
      (sq (closing_after (write_open tempPath content))
      (sq (closing_after disk_plain)
      (sq disk_plain
          (rename_file tempPath p))))"

definition writeFile :: "path \<Rightarrow> string \<Rightarrow> (files, unit) act" where
  "writeFile p content =
    sq (mkdir_all (butlast p))
    (bnd (create_temp_suffixed (butlast p) ''.snapshot-'' ''.tmp'') (\<lambda>tempPath.
    sq (fill_snapshot_temp tempPath p content)
    (sq disk_plain
        (syncDir (butlast p)))))"

definition writeRegistryFile :: "path \<Rightarrow> RegistryExport list \<Rightarrow> (files, unit) act" where
  "writeRegistryFile p entries = bnd (lift_result (registry_text entries)) (\<lambda>content. writeFile p content)"

section \<open>The contents of a snapshot\<close>

text \<open>The orders of the exported lists.\<close>

definition sortedTemplates :: "TemplateExport list \<Rightarrow> TemplateExport list" where
  "sortedTemplates = sort_key teName"

definition sortedRecords :: "RecordExport list \<Rightarrow> RecordExport list" where
  "sortedRecords = sort_key (\<lambda>r. (reDate r, reDayOrder r, reID r))"

definition sortedChats :: "ChatExport list \<Rightarrow> ChatExport list" where
  "sortedChats = sort_key (\<lambda>c. (ceLastActivityAt c, ceID c))"

definition write_template :: "path \<Rightarrow> TemplateExport \<Rightarrow> (files, unit) act" where
  "write_template templatesDir tmpl =
    sq (lift_result (validatePathSegment_export ''template name'' (teName tmpl)))
       (wrap ''write template'' (writeFile (templatesDir @ [teName tmpl @ ''.html'']) (teHTMLContent tmpl)))"

definition write_optional :: "string \<Rightarrow> path \<Rightarrow> string option \<Rightarrow> (files, unit) act" where
  "write_optional msg p content =
    (case content of None \<Rightarrow> ret () | Some c \<Rightarrow> wrap msg (writeFile p c))"

definition write_figure :: "path \<Rightarrow> FigureExport \<Rightarrow> (files, unit) act" where
  "write_figure figureDir f =
    sq (lift_result (validatePathSegment_export ''figure filename'' (feFilename f)))
       (wrap ''write figure'' (writeFile (figureDir @ [feFilename f]) (feContent f)))"

definition write_record :: "path \<Rightarrow> RecordExport \<Rightarrow> (files, unit) act" where
  "write_record recordsDir r =
    sq (lift_result (validatePathSegment_export ''record id'' (reID r)))
    (let recordDir = recordsDir @ [reID r];
         figures = sort_key feFilename (reFigures r);
         figureDir = recordDir @ [''figures''] in
     sq (wrap ''create record dir'' (mkdir_all recordDir))
    (sq (write_optional ''write record.html'' (recordDir @ [''record.html'']) (reHTMLContent r))
    (sq (write_optional ''write notes.md'' (recordDir @ [''notes.md'']) (reNotes r))
    (sq (if figures \<noteq> [] then wrap ''create figures dir'' (mkdir_all figureDir) else ret ())
    (sq (each (write_figure figureDir) figures)
    (sq (each (\<lambda>f. lift_result (validatePathSegment_export ''data file filename'' (deFilename f)))
           (sort_key deFilename (reDataFiles r)))
        (wrap ''write metadata.json'' (writeFile (recordDir @ [''metadata.json'']) (record_metadata_text r)))))))))"

definition write_raw_source :: "path \<Rightarrow> ChatExport \<Rightarrow> (files, unit) act" where
  "write_raw_source chatDir c =
    (case ceRawSourceKey c of
       None \<Rightarrow> ret ()
     | Some key \<Rightarrow>
         if ceRawSourceContent c = [] then fail (Plain ''raw_source_key is set but raw source content is empty'')
         else
           bnd (lift_result (wrap_result ''raw source key'' (rawSourceExportFilename (ceID c) key))) (\<lambda>rawName.
             wrap ''write chat raw source'' (writeFile (chatDir @ [rawName]) (ceRawSourceContent c))))"

definition write_chat :: "path \<Rightarrow> ChatExport \<Rightarrow> (files, unit) act" where
  "write_chat chatsDir c =
    sq (lift_result (validatePathSegment_export ''chat id'' (ceID c)))
    (let chatDir = chatsDir @ [ceID c] in
     sq (wrap ''create chat dir'' (mkdir_all chatDir))
    (sq (wrap ''write chat metadata'' (writeFile (chatDir @ [''metadata.json'']) (chat_metadata_text c)))
    (sq (wrap ''write chat items'' (writeFile (chatDir @ [''items.jsonl'']) (items_text (ceItems c))))
        (write_raw_source chatDir c))))"

definition writeSnapshotContents :: "path \<Rightarrow> Snapshot \<Rightarrow> (files, unit) act" where
  "writeSnapshotContents root snapshot =
    (let templatesDir = root @ [''templates''];
         recordsDir = root @ [''records''];
         chatsDir = root @ [''chats''];
         chats = sortedChats (ssChats snapshot) in
     sq (wrap ''create templates dir'' (mkdir_all templatesDir))
    (sq (wrap ''create records dir'' (mkdir_all recordsDir))
    (sq (each (write_template templatesDir) (sortedTemplates (ssTemplates snapshot)))
    (sq (each (write_record recordsDir) (sortedRecords (ssRecords snapshot)))
    (sq (if chats \<noteq> [] then wrap ''create chats dir'' (mkdir_all chatsDir) else ret ())
    (sq (each (write_chat chatsDir) chats)
    (sq (wrap ''write projects.json'' (writeRegistryFile (root @ [''projects.json'']) (ssProjects snapshot)))
    (sq (wrap ''write devices.json'' (writeRegistryFile (root @ [''devices.json'']) (ssDevices snapshot)))
        (each (\<lambda>dir. wrap ''sync staged'' (syncDir dir))
          ([templatesDir, recordsDir] @ (if chats \<noteq> [] then [chatsDir] else []))))))))))) "

section \<open>Writing a snapshot\<close>

definition managedSnapshotEntries :: "path list" where
  "managedSnapshotEntries = [[''projects.json''], [''devices.json''], [''templates''], [''records''], [''chats'']]"

definition replaceSnapshotContents :: "path \<Rightarrow> path \<Rightarrow> (files, unit) act" where
  "replaceSnapshotContents root stagingRoot =
    bnd (replaceContents root stagingRoot managedSnapshotEntries None None) (\<lambda>r.
      case r of
        Replaced \<Rightarrow> ret ()
      | CommittedReplacementCleanupError e \<Rightarrow> fail e
      | ReplacementError e \<Rightarrow> fail e)"

text \<open>\<open>os.MkdirTemp\<close>, and the deferred removal of the staging directory, which runs however the rest ends.\<close>

definition and_then_always :: "('w, 'b) act \<Rightarrow> ('w, 'a) act \<Rightarrow> ('w, 'a) act" where
  "and_then_always final m w = (case m w of (r, w') \<Rightarrow> (r, snd (final w')))"

definition Write_snapshot :: "path \<Rightarrow> string \<Rightarrow> Snapshot \<Rightarrow> (files, unit) act" where
  "Write_snapshot cwd rootText snapshot =
    (if blank rootText then fail (Plain ''root path is required'')
     else let root = filepath_abs cwd rootText in
     sq (wrap ''create export root'' (mkdir_all root))
     (bnd (wrap ''create staging snapshot dir'' (create_in Dir root ''.snapshot-staging-'')) (\<lambda>stagingDir.
      and_then_always (remove_all stagingDir)
        (sq (writeSnapshotContents stagingDir snapshot)
            (replaceSnapshotContents root stagingDir)))))"

section \<open>Reading a snapshot\<close>

definition readRegistryFile :: "path \<Rightarrow> (files, RegistryExport list) act" where
  "readRegistryFile p = bnd (read_file p) (\<lambda>content. lift_result (parse_registry content))"

definition read_template :: "path \<Rightarrow> string \<times> string node \<Rightarrow> TemplateExport list \<Rightarrow> (files, TemplateExport list) act" where
  "read_template dir entry templates =
    (if snd entry = Dir then fail (Plain ''unexpected directory in templates export'')
     else if filepath_ext (fst entry) \<noteq> ''.html'' then fail (Plain ''template file must end with .html'')
     else let name = trim_suffix (fst entry) ''.html'' in
       sq (lift_result (validatePathSegment_export ''template name'' name))
       (bnd (wrap ''read template'' (read_file (dir @ [fst entry]))) (\<lambda>content.
         ret (templates @ [\<lparr> teName = name, teHTMLContent = content \<rparr>]))))"

definition readTemplates :: "path \<Rightarrow> (files, TemplateExport list) act" where
  "readTemplates dir =
    bnd (wrap ''read templates dir'' (read_dir dir)) (\<lambda>entries.
    bnd (each_acc (read_template dir) entries []) (\<lambda>templates.
      ret (sortedTemplates templates)))"

text \<open>A figure at a time, then the directory listing against the names in the metadata.\<close>

definition read_figure :: "path \<Rightarrow> FigureExport \<Rightarrow> FigureExport list \<Rightarrow> (files, FigureExport list) act" where
  "read_figure figureDir f figures =
    sq (lift_result (validatePathSegment_export ''figure filename'' (feFilename f)))
    (bnd (wrap ''read figure'' (read_file (figureDir @ [feFilename f]))) (\<lambda>content.
      if isLFSPointer content then fail (Plain ''figure is a Git LFS pointer, not real content'')
      else ret (figures @ [f \<lparr> feContent := content \<rparr>])))"

definition check_figure_entry :: "string list \<Rightarrow> string \<times> string node \<Rightarrow> (files, unit) act" where
  "check_figure_entry expected entry =
    (if snd entry = Dir then fail (Plain ''unexpected nested dir in figures'')
     else if fst entry \<notin> set expected then fail (Plain ''figure file not referenced by metadata'')
     else ret ())"

definition readFigures :: "path \<Rightarrow> FigureExport list \<Rightarrow> (files, FigureExport list) act" where
  "readFigures dir metadata =
    (let figureDir = dir @ [''figures''] in
     bnd (each_acc (read_figure figureDir) metadata []) (\<lambda>figures.
       if metadata = [] then
         bnd (attempt (lstat figureDir)) (\<lambda>r.
           case r of
             Inl _ \<Rightarrow> ret figures
           | Inr _ \<Rightarrow>
               bnd (wrap ''read figures dir'' (read_dir figureDir)) (\<lambda>entries.
                 if entries \<noteq> [] then fail (Plain ''figures dir contains files not referenced by metadata'')
                 else ret figures))
       else
         bnd (wrap ''read figures dir'' (read_dir figureDir)) (\<lambda>entries.
           sq (each (check_figure_entry (List.map feFilename metadata)) entries)
              (ret figures))))"

definition read_html :: "path \<Rightarrow> (files, string option) act" where
  "read_html p =
    bnd (attempt (read_file p)) (\<lambda>r.
      case r of
        Inr c \<Rightarrow> ret (Some c)
      | Inl e \<Rightarrow> if err_is e ErrNotExist then ret None else fail (Wrapped ''read record.html'' e))"

definition read_notes :: "path \<Rightarrow> bool \<Rightarrow> (files, string option) act" where
  "read_notes p hasNotes =
    (if hasNotes then bnd (wrap ''read notes.md'' (read_file p)) (\<lambda>c. ret (Some c))
     else bnd (attempt (lstat p)) (\<lambda>r.
       case r of
         Inr _ \<Rightarrow> fail (Plain ''notes.md present despite has_notes=false'')
       | Inl _ \<Rightarrow> ret None))"

definition readRecord :: "path \<Rightarrow> string \<Rightarrow> (files, RecordExport) act" where
  "readRecord dir recordID =
    sq (lift_result (validatePathSegment_export ''record id'' recordID))
    (bnd (wrap ''read metadata'' (read_file (dir @ [''metadata.json'']))) (\<lambda>metadataBytes.
     bnd (lift_result (parse_record_metadata recordID metadataBytes)) (\<lambda>(metadata, hasNotes).
     bnd (read_html (dir @ [''record.html''])) (\<lambda>htmlContent.
     bnd (read_notes (dir @ [''notes.md'']) hasNotes) (\<lambda>notes.
     bnd (readFigures dir (reFigures metadata)) (\<lambda>figures.
     sq (each (\<lambda>f. lift_result (validatePathSegment_export ''data file filename'' (deFilename f))) (reDataFiles metadata))
        (ret (metadata \<lparr> reHTMLContent := htmlContent, reNotes := notes, reFigures := figures \<rparr>))))))))"

definition read_record_entry :: "path \<Rightarrow> string \<times> string node \<Rightarrow> RecordExport list \<Rightarrow> (files, RecordExport list) act" where
  "read_record_entry dir entry records =
    (if snd entry \<noteq> Dir then fail (Plain ''unexpected file in records export'')
     else bnd (readRecord (dir @ [fst entry]) (fst entry)) (\<lambda>record. ret (records @ [record])))"

definition readRecords :: "path \<Rightarrow> (files, RecordExport list) act" where
  "readRecords dir =
    bnd (wrap ''read records dir'' (read_dir dir)) (\<lambda>entries.
    bnd (each_acc (read_record_entry dir) entries []) (\<lambda>records.
      ret (sortedRecords records)))"

definition readChatItems :: "path \<Rightarrow> (files, ChatItemExport list) act" where
  "readChatItems p =
    bnd (wrap ''read chat items'' (read_file p)) (\<lambda>content. lift_result (parse_chat_items content))"

definition read_raw_source :: "path \<Rightarrow> string \<Rightarrow> string option \<Rightarrow> (files, string) act" where
  "read_raw_source dir chatID rawSourceKey =
    (case rawSourceKey of
       None \<Rightarrow> ret []
     | Some key \<Rightarrow>
         bnd (lift_result (wrap_result ''raw source key'' (rawSourceExportFilename chatID key))) (\<lambda>rawName.
           wrap ''read chat raw source'' (read_file (dir @ [rawName]))))"

definition readChat :: "path \<Rightarrow> string \<Rightarrow> (files, ChatExport) act" where
  "readChat dir chatID =
    sq (lift_result (validatePathSegment_export ''chat id'' chatID))
    (bnd (wrap ''read chat metadata'' (read_file (dir @ [''metadata.json'']))) (\<lambda>metadataBytes.
     bnd (lift_result (parse_chat_metadata chatID metadataBytes)) (\<lambda>metadata.
     bnd (readChatItems (dir @ [''items.jsonl''])) (\<lambda>items.
     bnd (read_raw_source dir chatID (ceRawSourceKey metadata)) (\<lambda>rawSourceContent.
       ret (metadata \<lparr> ceRawSourceContent := rawSourceContent, ceItems := items \<rparr>))))))"

definition read_chat_entry :: "path \<Rightarrow> string \<times> string node \<Rightarrow> ChatExport list \<Rightarrow> (files, ChatExport list) act" where
  "read_chat_entry dir entry chats =
    (if snd entry \<noteq> Dir then fail (Plain ''unexpected file in chats export'')
     else bnd (readChat (dir @ [fst entry]) (fst entry)) (\<lambda>chat. ret (chats @ [chat])))"

definition readChats :: "path \<Rightarrow> (files, ChatExport list) act" where
  "readChats dir =
    bnd (attempt (read_dir dir)) (\<lambda>r.
      case r of
        Inl e \<Rightarrow> if err_is e ErrNotExist then ret [] else fail (Wrapped ''read chats dir'' e)
      | Inr entries \<Rightarrow>
          bnd (each_acc (read_chat_entry dir) entries []) (\<lambda>chats.
            ret (sortedChats chats)))"

definition Read_snapshot :: "path \<Rightarrow> string \<Rightarrow> (files, Snapshot) act" where
  "Read_snapshot cwd rootText =
    (if blank rootText then fail (Plain ''root path is required'')
     else let root = filepath_abs cwd rootText in
     bnd (readTemplates (root @ [''templates''])) (\<lambda>templates.
     bnd (readRecords (root @ [''records''])) (\<lambda>records.
     bnd (wrap ''read projects.json'' (readRegistryFile (root @ [''projects.json'']))) (\<lambda>projects.
     bnd (wrap ''read devices.json'' (readRegistryFile (root @ [''devices.json'']))) (\<lambda>devices.
     bnd (readChats (root @ [''chats''])) (\<lambda>chats.
       ret \<lparr> ssTemplates = templates, ssProjects = projects, ssDevices = devices, ssRecords = records,
             ssChats = chats \<rparr>))))))"

end
