(* ===== verification/Snapshot_Write.thy ===== *)
theory Snapshot_Write
  imports Git_Snapshot Disk_Logic
begin

text \<open>What a successful \<open>writeSnapshotContents\<close> leaves below the staging directory: exactly the files of the snapshot.\<close>

section \<open>Tidy trees\<close>

text \<open>A tree as a file system has it: one node for a path, and every node's parent is a directory.\<close>

definition tidy :: "'c tree \<Rightarrow> bool" where
  "tidy t = (distinct (List.map fst t) \<and> (\<forall>p x. at t (p @ [x]) \<noteq> None \<longrightarrow> at t p = Some Dir))"

lemma tidy_parent: "tidy t \<Longrightarrow> at t (p @ [x]) \<noteq> None \<Longrightarrow> at t p = Some Dir"
  unfolding tidy_def by blast

lemma tidy_above: "tidy t \<Longrightarrow> at t (p @ q) \<noteq> None \<Longrightarrow> q \<noteq> [] \<Longrightarrow> at t p = Some Dir"
proof (induction q rule: rev_induct)
  case (snoc x q)
  have "at t (p @ q) = Some Dir" using tidy_parent [OF snoc.prems(1), of "p @ q" x] snoc.prems(2) by simp
  then show ?case using snoc.IH snoc.prems(1) by (cases "q = []") auto
qed simp

lemma tidy_below_file: "tidy t \<Longrightarrow> at t p = Some (File c) \<Longrightarrow> q \<noteq> [] \<Longrightarrow> at t (p @ q) = None"
  using tidy_above [of t p q] by fastforce

lemma tidy_below_none: "tidy t \<Longrightarrow> at t p = None \<Longrightarrow> at t (p @ q) = None"
  using tidy_above [of t p q] by (cases "q = []") fastforce+

lemma tidy_strict: "tidy t \<Longrightarrow> at t r \<noteq> None \<Longrightarrow> strict_prefix p r \<Longrightarrow> at t p = Some Dir"
  by (metis tidy_above strict_prefix_def prefix_def append_Nil2)

lemma distinct_put: "distinct (List.map fst t) \<Longrightarrow> distinct (List.map fst (put_node p n t))"
  by (auto simp: put_node_def distinct_map inj_on_def)

lemma distinct_made:
  assumes "distinct (List.map fst t)"
  shows "distinct (List.map fst (made_dirs p made t))"
proof -
  let ?new = "filter (\<lambda>q. at t q = None \<and> made q) (prefixes p)"
  have "List.map fst (made_dirs p made t) = ?new @ List.map fst t" by (simp add: made_dirs_def comp_def)
  moreover have "set ?new \<inter> set (List.map fst t) = {}" by (auto simp: at_def map_of_eq_None_iff)
  moreover have "distinct ?new" by (rule distinct_filter) (rule distinct_prefixes)
  ultimately show ?thesis using assms by simp
qed

lemma distinct_removed: "distinct (List.map fst t) \<Longrightarrow> distinct (List.map fst (removed p t))"
  "distinct (List.map fst t) \<Longrightarrow> distinct (List.map fst (partly_removed p keep t))"
  by (auto simp: removed_def partly_removed_def distinct_map inj_on_def)

lemma distinct_moved:
  assumes "distinct (List.map fst t)"
  shows "distinct (List.map fst (moved a b t))"
proof -
  let ?f = "\<lambda>r. if prefix a r then b @ drop (length a) r else r"
  let ?t = "filter (\<lambda>(r, _). prefix a r \<or> \<not> prefix b r) t"
  have "moved a b t = List.map (\<lambda>(r, n). (?f r, n)) ?t"
    unfolding moved_def by (rule map_cong) auto
  then have keys: "List.map fst (moved a b t) = List.map ?f (List.map fst ?t)"
    by (simp only: list.map_comp) (auto simp: comp_def)
  have "distinct (List.map fst ?t)" using assms by (auto simp: distinct_map inj_on_def)
  moreover have "inj_on ?f (set (List.map fst ?t))"
  proof (rule inj_onI)
    fix x y assume xy: "x \<in> set (List.map fst ?t)" "y \<in> set (List.map fst ?t)" "?f x = ?f y"
    have ok: "prefix a z \<or> \<not> prefix b z" if "z \<in> set (List.map fst ?t)" for z using that by auto
    show "x = y"
      using xy(3) ok [OF xy(1)] ok [OF xy(2)] by (auto split: if_splits elim!: prefixE)
  qed
  ultimately show ?thesis unfolding keys by (simp add: distinct_map del: List.map_map)
qed

lemma at_moved_off: "\<not> prefix a r \<Longrightarrow> \<not> prefix b r \<Longrightarrow> at (moved a b t) r = at t r"
  by (induction t) (auto simp: moved_def at_def)

lemma tidy_put:
  assumes "tidy t" "at t p = None \<or> is_file_at t p" "at t (butlast p) = Some Dir" "p \<noteq> []"
  shows "tidy (put_node p n t)"
proof -
  obtain q y where p: "p = q @ [y]" using assms(4) by (cases p rule: rev_cases) auto
  have "at t (p @ [x]) = None" for x
    using assms(1,2) tidy_below_none [of t p "[x]"] tidy_below_file [of t p _ "[x]"]
    by (auto simp: is_file_at_def split: option.splits node.splits)
  then show ?thesis
    using assms(1,3) by (auto simp: tidy_def distinct_put p)
qed

lemma tidy_made:
  assumes "tidy t" "\<not> below_file t p" "\<not> is_file_at t p"
  shows "tidy (made_dirs p (\<lambda>_. True) t)"
proof -
  have nofile: "at t r \<noteq> Some (File c)" if "prefix r p" for r c
  proof
    assume f: "at t r = Some (File c)"
    have r: "r = take (length r) p" "length r \<le> length p" using that by (auto simp: prefix_def)
    from f have there: "is_file_at t (take (length r) p)" by (simp add: is_file_at_def r(1) [symmetric])
    with assms(3) r(2) have "length r < length p" by (cases "length r = length p") auto
    with there assms(2) show False by (auto simp: below_file_def list_ex_iff)
  qed
  have "at (made_dirs p (\<lambda>_. True) t) q = Some Dir" if "at (made_dirs p (\<lambda>_. True) t) (q @ [x]) \<noteq> None" for q x
  proof (cases "at t (q @ [x])")
    case None
    then have "prefix (q @ [x]) p" using that by (auto split: if_splits)
    then have "prefix q p" by (rule append_prefixD)
    then show ?thesis using nofile [of q] by (cases "at t q"; cases "the (at t q)") auto
  next
    case (Some n)
    then show ?thesis using tidy_parent [OF assms(1), of q x] by simp
  qed
  then show ?thesis using assms(1) by (auto simp: tidy_def distinct_made)
qed

text \<open>The move of a file to a free name, or over a file, in the same directory.\<close>

lemma file_moved:
  assumes "tidy t" "at t a = Some (File c)" "at t b = None \<or> is_file_at t b" "a \<noteq> b" "butlast a = butlast b" "a \<noteq> []" "b \<noteq> []"
  shows "at (moved a b t) r = (if r = b then Some (File c) else if r = a then None else at t r)"
    and "tidy (moved a b t)"
proof -
  have len: "length a = length b" using assms(5-7) by (metis append_butlast_last_id length_append_singleton)
  then have par: "parallel a b" using assms(4) by (auto simp: parallel_def prefix_def)
  have below_a: "at t (a @ q) = None" if "q \<noteq> []" for q using tidy_below_file [OF assms(1,2) that] .
  have below_b: "at t (b @ q) = None" if "q \<noteq> []" for q
    using assms(3) tidy_below_none [OF assms(1), of b q] tidy_below_file [OF assms(1) _ that, of b]
    by (auto simp: is_file_at_def split: option.splits node.splits)
  have look: "at (moved a b t) r = (if r = b then Some (File c) else if r = a then None else at t r)" for r
  proof -
    consider "r = b" | q where "r = b @ q" "q \<noteq> []" | "r = a" | q where "r = a @ q" "q \<noteq> []" | "\<not> prefix a r" "\<not> prefix b r"
      by (metis prefix_def append_Nil2)
    then show ?thesis
    proof cases
      case 2
      then have "r \<noteq> a" "r \<noteq> b" using par by (auto simp: parallel_def)
      then show ?thesis using 2 below_a below_b par by (simp add: at_moved)
    next
      case 4
      then have "\<not> prefix b r" "r \<noteq> a" "r \<noteq> b"
        using par len by (auto simp: parallel_def prefix_def)
      then show ?thesis using 4 below_a par by (simp add: at_moved)
    qed (use par assms(2) in \<open>auto simp: at_moved parallel_def\<close>)
  qed
  then show "at (moved a b t) r = (if r = b then Some (File c) else if r = a then None else at t r)" .
  obtain q x y where ab: "a = q @ [x]" "b = q @ [y]"
    using assms(5-7) by (metis append_butlast_last_id)
  have q: "at t q = Some Dir" using tidy_parent [OF assms(1), of q x] assms(2) ab by simp
  have "at (moved a b t) p = Some Dir" if there: "at (moved a b t) (p @ [z]) \<noteq> None" for p z
  proof (cases "p @ [z] = b")
    case True
    then show ?thesis using q look [of p] ab assms(4) by auto
  next
    case False
    then have t: "at t (p @ [z]) \<noteq> None" "p @ [z] \<noteq> a" using there look by (auto split: if_splits)
    then have "p \<noteq> b" "p \<noteq> a" using below_a [of "[z]"] below_b [of "[z]"] by auto
    then show ?thesis using tidy_parent [OF assms(1) t(1)] look by simp
  qed
  then show "tidy (moved a b t)"
    using assms(1) distinct_moved [of t a b] unfolding tidy_def by blast
qed

section \<open>The tree below a directory\<close>

text \<open>The nodes below \<open>S\<close> are exactly those of \<open>E\<close>.\<close>

definition snap :: "path \<Rightarrow> (path \<times> string node) set \<Rightarrow> string tree \<Rightarrow> bool" where
  "snap S E t = (tidy t \<and> (\<forall>q n. at t (S @ q) = Some n \<longleftrightarrow> (q, n) \<in> E))"

lemma snap_at: "snap S E t \<Longrightarrow> (at t (S @ q) = Some n) = ((q, n) \<in> E)"
  by (simp add: snap_def)

lemma snap_none: "snap S E t \<Longrightarrow> (at t (S @ q) = None) = (\<forall>n. (q, n) \<notin> E)"
  by (metis snap_at option.exhaust option.simps(3))

lemma snap_put:
  assumes "snap S E t" "at t (S @ q) = None" "(butlast q, Dir) \<in> E" "q \<noteq> []"
  shows "snap S (insert (q, n) E) (put_node (S @ q) n t)"
proof -
  have "tidy (put_node (S @ q) n t)"
    using assms by (intro tidy_put) (auto simp: snap_def butlast_append)
  then show ?thesis using assms(1) snap_none [OF assms(1), of q] assms(2) by (auto simp: snap_def)
qed

lemma snap_insert:
  assumes "snap S E t" "tidy u" "\<And>r. at u (S @ r) = (if r = q then Some n else at t (S @ r))" "\<And>m. (q, m) \<in> E \<Longrightarrow> m = n"
  shows "snap S (insert (q, n) E) u"
  using assms by (auto simp: snap_def)

text \<open>The rules for the calls.\<close>

abbreviation on_snap :: "path \<Rightarrow> (path \<times> string node) set \<Rightarrow> files \<Rightarrow> bool" where
  "on_snap S E \<equiv> on_tree (snap S E)"

lemma disk_call_ok:
  assumes "\<And>t u a. P t \<Longrightarrow> effect t = Inr (a, u) \<Longrightarrow> Q a u"
  shows "ok_triple (on_tree P) (disk_call partial effect) (\<lambda>a. on_tree (Q a))"
  using assms by (intro ok_tripleI) (auto simp: disk_call_def Let_def split: if_splits option.splits sum.splits)

lemma snap_mkdir_known:
  assumes "(q, Dir) \<in> E"
  shows "ok_triple (on_snap S E) (mkdir_all (S @ q)) (\<lambda>_. on_snap S E)"
  unfolding mkdir_all_def
proof (rule disk_call_ok)
  fix t u and a :: unit
  assume snap: "snap S E t" and "(if below_file t (S @ q) \<or> is_file_at t (S @ q) then Inl errNotDir
         else Inr ((), made_dirs (S @ q) (\<lambda>_. True) t)) = Inr (a, u)"
  then have u: "u = made_dirs (S @ q) (\<lambda>_. True) t" by (auto split: if_splits)
  have "at t (S @ q) = Some Dir" "tidy t" using snap assms by (simp_all add: snap_at) (simp add: snap_def)
  then have "at t r \<noteq> None" if "prefix r (S @ q)" for r
    using that tidy_strict [of t "S @ q" r] by (cases "r = S @ q") (auto simp: strict_prefix_def)
  then have "u = t" unfolding u made_dirs_def by (auto simp: filter_empty_conv)
  then show "snap S E u" using snap by simp
qed

lemma snap_mkdir:
  assumes "(butlast q, Dir) \<in> E" "q \<noteq> []"
  shows "ok_triple (on_snap S E) (mkdir_all (S @ q)) (\<lambda>_. on_snap S (insert (q, Dir) E))"
  unfolding mkdir_all_def
proof (rule disk_call_ok)
  fix t u and a :: unit
  assume snap: "snap S E t" and eff: "(if below_file t (S @ q) \<or> is_file_at t (S @ q) then Inl errNotDir
         else Inr ((), made_dirs (S @ q) (\<lambda>_. True) t)) = Inr (a, u)"
  then have u: "u = made_dirs (S @ q) (\<lambda>_. True) t" and nofile: "\<not> below_file t (S @ q)" "\<not> is_file_at t (S @ q)"
    by (auto split: if_splits)
  have tidy: "tidy t" using snap by (simp add: snap_def)
  have parent: "at t (S @ butlast q) = Some Dir" using snap assms(1) by (simp add: snap_at)
  obtain q' y where q: "q = q' @ [y]" using assms(2) by (cases q rule: rev_cases) auto
  have above: "at t r = Some Dir" if "strict_prefix r (S @ q)" for r
  proof -
    have "prefix r (S @ q')" using that by (auto simp: strict_prefix_def q simp flip: append_assoc)
    then show ?thesis using parent q tidy_strict [OF tidy, of "S @ q'" r] by (cases "r = S @ q'") (auto simp: strict_prefix_def)
  qed
  have "at t (S @ q) = Some Dir \<or> at t (S @ q) = None"
    using nofile(2) by (auto simp: is_file_at_def split: option.splits node.splits)
  then have kind: "at t (S @ q) = Some Dir \<or> at t (S @ q) = None" .
  have look: "at u r = (if r = S @ q then Some Dir else at t r)" for r
    using above [of r] kind unfolding u by (cases "r = S @ q") (auto simp: strict_prefix_def)
  show "snap S (insert (q, Dir) E) u"
  proof (rule snap_insert [OF snap])
    show "tidy u" unfolding u by (rule tidy_made [OF tidy nofile])
    show "m = Dir" if "(q, m) \<in> E" for m using kind snap_at [OF snap, of q m] that by auto
  qed (simp add: look)
qed

lemma snap_read: "ok_triple (on_snap S E) (disk_read f) (\<lambda>_. on_snap S E)"
  by (rule ok_keeps) (rule keeps_disk_read)

lemma snap_syncDir: "ok_triple (on_snap S E) (syncDir p) (\<lambda>_. on_snap S E)"
  by (rule ok_keeps) (rule keeps_syncDir)

lemma snap_plain: "ok_triple (on_snap S E) disk_plain (\<lambda>_. on_snap S E)"
  by (rule ok_keeps) (rule keeps_disk_plain)

lemma ok_cleanup: "ok_triple P m Q \<Longrightarrow> ok_triple P (cleanup_unless_ok c m) Q"
  unfolding ok_triple_def cleanup_unless_ok_def by (auto split: prod.splits sum.splits)

lemma ok_closing: "ok_triple P m Q \<Longrightarrow> ok_triple P (closing_after m) Q"
  unfolding closing_after_def by (rule ok_cleanup)

text \<open>A new file: a temporary one beside it, filled and renamed.\<close>

definition temp_of :: "path \<Rightarrow> (path \<times> string node) set \<Rightarrow> path \<Rightarrow> string \<Rightarrow> path \<Rightarrow> string tree \<Rightarrow> bool" where
  "temp_of S E dir c tmp t = (\<exists>x. tmp = S @ dir @ [x] \<and> (\<forall>n. (dir @ [x], n) \<notin> E) \<and> snap S (insert (dir @ [x], File c) E) t)"

lemma snap_temp:
  assumes "(dir, Dir) \<in> E"
  shows "ok_triple (on_snap S E) (create_temp_suffixed (S @ dir) stem suf) (\<lambda>tmp. on_tree (temp_of S E dir [] tmp))"
proof (rule ok_tripleI)
  fix d tmp d' assume snap: "snap S E (dkTree d)" and run: "create_temp_suffixed (S @ dir) stem suf d = (Inr tmp, d')"
  obtain s where s: "tmp = (S @ dir) @ [stem @ s]" "at (dkTree d) tmp = None" "dkTree d' = put_node tmp (File []) (dkTree d)"
    using run
    by (auto simp: create_temp_suffixed_def create_in_def disk_call_def Let_def find_Some_iff
        split: prod.splits if_splits option.splits sum.splits node.splits)
  let ?q = "dir @ [stem @ s]"
  have "snap S (insert (?q, File []) E) (dkTree d')"
    using snap_put [OF snap, of ?q "File []"] s assms by simp
  moreover have "\<forall>n. (?q, n) \<notin> E" using snap_none [OF snap, of ?q] s by simp
  ultimately show "temp_of S E dir [] tmp (dkTree d')" using s(1) by (auto simp: temp_of_def)
qed

lemma snap_fill:
  "ok_triple (on_tree (temp_of S E dir c tmp)) (write_open tmp c') (\<lambda>_. on_tree (temp_of S E dir c' tmp))"
proof (rule ok_tripleI)
  fix d a d' assume "temp_of S E dir c tmp (dkTree d)" and run: "write_open tmp c' d = (Inr a, d')"
  then obtain x where x: "tmp = S @ dir @ [x]" "\<forall>n. (dir @ [x], n) \<notin> E" "snap S (insert (dir @ [x], File c) E) (dkTree d)"
    by (auto simp: temp_of_def)
  have tree: "dkTree d' = put_node tmp (File c') (dkTree d)"
    using run by (auto simp: write_open_def disk_call_def Let_def split: if_splits option.splits)
  have there: "at (dkTree d) tmp = Some (File c)" using snap_at [OF x(3), of "dir @ [x]" "File c"] x(1) by simp
  have "at (dkTree d) (S @ dir) = Some Dir"
    by (rule tidy_parent [where x = x]) (use x(3) in \<open>simp add: snap_def\<close>, use there x(1) in simp)
  then have "tidy (put_node tmp (File c') (dkTree d))"
    by (intro tidy_put) (use x(3) in \<open>simp add: snap_def\<close>, use x(1) there in \<open>auto simp: is_file_at_def butlast_append\<close>)
  then have "snap S (insert (dir @ [x], File c') E) (dkTree d')"
    using x tree by (auto simp: snap_def)
  then show "temp_of S E dir c' tmp (dkTree d')" using x by (auto simp: temp_of_def)
qed

lemma snap_rename:
  assumes "q \<noteq> []" "butlast q = dir" "\<forall>n. (q, n) \<notin> E"
  shows "ok_triple (on_tree (temp_of S E dir c tmp)) (rename_file tmp (S @ q)) (\<lambda>_. on_snap S (insert (q, File c) E))"
  unfolding rename_file_def
proof (rule disk_call_ok)
  fix t u and a :: unit
  assume "temp_of S E dir c tmp t" and eff: "(case look t tmp of
       Inl e \<Rightarrow> Inl e
     | Inr n \<Rightarrow>
         if tmp = S @ q then Inr ((), t)
         else if below_file t (S @ q) then Inl errNotDir
         else if prefix tmp (S @ q) \<or> \<not> may_replace t n (S @ q) then Inl (Plain ''cannot rename'')
         else Inr ((), moved tmp (S @ q) t)) = Inr (a, u)"
  then obtain x where x: "tmp = S @ dir @ [x]" "\<forall>n. (dir @ [x], n) \<notin> E" "snap S (insert (dir @ [x], File c) E) t"
    by (auto simp: temp_of_def)
  show "snap S (insert (q, File c) E) u"
  proof (cases "tmp = S @ q")
    case True
    then have "u = t" using eff by (auto split: sum.splits)
    then show ?thesis using x True by simp
  next
    case False
    then have u: "u = moved tmp (S @ q) t" using eff by (auto split: sum.splits if_splits)
    have q: "q \<noteq> dir @ [x]" using False x(1) by auto
    have "at t tmp = Some (File c)" using snap_at [OF x(3), of "dir @ [x]" "File c"] x(1) by simp
    moreover have free: "at t (S @ q) = None" using snap_none [OF x(3), of q] assms(3) q by auto
    moreover have "butlast tmp = butlast (S @ q)" "tmp \<noteq> []" "S @ q \<noteq> []"
      using x(1) assms(1,2) by (auto simp: butlast_append)
    moreover have "tidy t" using x(3) by (simp add: snap_def)
    ultimately have look: "\<And>r. at u r = (if r = S @ q then Some (File c) else if r = tmp then None else at t r)" and "tidy u"
      unfolding u using file_moved [of t tmp c "S @ q"] False by auto
    then show ?thesis using x q assms(3) by (auto simp: snap_def)
  qed
qed

lemma snap_writeFile:
  assumes "q \<noteq> []" "(butlast q, Dir) \<in> E" "\<forall>n. (q, n) \<notin> E"
  shows "ok_triple (on_snap S E) (writeFile (S @ q) c) (\<lambda>_. on_snap S (insert (q, File c) E))"
proof -
  have dir: "butlast (S @ q) = S @ butlast q" using assms(1) by (simp add: butlast_append)
  have mk: "ok_triple (on_snap S E) (mkdir_all (S @ butlast q)) (\<lambda>_. on_snap S E)"
    using assms(2) by (rule snap_mkdir_known)
  show ?thesis
    unfolding writeFile_def fill_snapshot_temp_def dir
  proof (intro ok_sq [OF mk] ok_bnd [OF snap_temp [OF assms(2)]])
    fix tmp
    let ?P = "on_tree (temp_of S E (butlast q) c tmp)" and ?Q = "on_snap S (insert (q, File c) E)"
    have plain: "ok_triple ?P disk_plain (\<lambda>_. ?P)" by (rule ok_keeps) (rule keeps_disk_plain)
    have "ok_triple ?P (rename_file tmp (S @ q)) (\<lambda>_. ?Q)" by (rule snap_rename [OF assms(1) refl assms(3)])
    from ok_cleanup [OF ok_sq [OF ok_closing [OF snap_fill] ok_sq [OF ok_closing [OF plain] ok_sq [OF plain this]]]]
    have fill: "ok_triple (on_tree (temp_of S E (butlast q) [] tmp))
        (cleanup_unless_ok (ignored (remove_file tmp))
            (sq (closing_after (write_open tmp c)) (sq (closing_after disk_plain) (sq disk_plain (rename_file tmp (S @ q))))))
        (\<lambda>_. ?Q)" .
    show "ok_triple (on_tree (temp_of S E (butlast q) [] tmp))
        (sq (cleanup_unless_ok (ignored (remove_file tmp))
            (sq (closing_after (write_open tmp c)) (sq (closing_after disk_plain) (sq disk_plain (rename_file tmp (S @ q))))))
          (sq disk_plain (syncDir (S @ butlast q))))
        (\<lambda>_. ?Q)"
      by (rule ok_sq [OF fill ok_sq [OF snap_plain snap_syncDir]])
  qed
qed

section \<open>The files of a snapshot\<close>

definition optional_node :: "path \<Rightarrow> string option \<Rightarrow> (path \<times> string node) set" where
  "optional_node p c = (case c of None \<Rightarrow> {} | Some x \<Rightarrow> {(p, File x)})"

definition result_node :: "path \<Rightarrow> error + string \<Rightarrow> (path \<times> string node) set" where
  "result_node p r = (case r of Inl _ \<Rightarrow> {} | Inr x \<Rightarrow> {(p, File x)})"

definition template_nodes :: "TemplateExport \<Rightarrow> (path \<times> string node) set" where
  "template_nodes tm = {([''templates'', teName tm @ ''.html''], File (teHTMLContent tm))}"

definition figure_nodes :: "path \<Rightarrow> FigureExport \<Rightarrow> (path \<times> string node) set" where
  "figure_nodes p f = {(p @ [feFilename f], File (feContent f))}"

definition record_nodes :: "RecordExport \<Rightarrow> (path \<times> string node) set" where
  "record_nodes r =
    (let p = [''records'', reID r] in
     {(p, Dir), (p @ [''metadata.json''], File (record_metadata_text r))} \<union>
     optional_node (p @ [''record.html'']) (reHTMLContent r) \<union> optional_node (p @ [''notes.md'']) (reNotes r) \<union>
     (if reFigures r = [] then {} else {(p @ [''figures''], Dir)}) \<union>
     (\<Union>f\<in>set (reFigures r). figure_nodes (p @ [''figures'']) f))"

definition chat_nodes :: "ChatExport \<Rightarrow> (path \<times> string node) set" where
  "chat_nodes c =
    (let p = [''chats'', ceID c] in
     {(p, Dir), (p @ [''metadata.json''], File (chat_metadata_text c)), (p @ [''items.jsonl''], File (items_text (ceItems c)))} \<union>
     (case ceRawSourceKey c of
        None \<Rightarrow> {}
      | Some key \<Rightarrow>
          (case rawSourceExportFilename (ceID c) key of
             Inl _ \<Rightarrow> {} | Inr name \<Rightarrow> {(p @ [name], File (ceRawSourceContent c))})))"

definition snapshot_nodes :: "Snapshot \<Rightarrow> (path \<times> string node) set" where
  "snapshot_nodes s =
    {([], Dir), ([''templates''], Dir), ([''records''], Dir)} \<union> (\<Union>x\<in>set (ssTemplates s). template_nodes x) \<union>
    (\<Union>x\<in>set (ssRecords s). record_nodes x) \<union> (if ssChats s = [] then {} else {([''chats''], Dir)}) \<union>
    (\<Union>x\<in>set (ssChats s). chat_nodes x) \<union> result_node [''projects.json''] (registry_text (ssProjects s)) \<union>
    result_node [''devices.json''] (registry_text (ssDevices s))"

text \<open>The names a successful write has checked.\<close>

definition named :: "string \<Rightarrow> string \<Rightarrow> bool" where
  "named field v = (validatePathSegment_export field v = Inr ())"

definition record_named :: "RecordExport \<Rightarrow> bool" where
  "record_named r =
    (named ''record id'' (reID r) \<and> (\<forall>f\<in>set (reFigures r). named ''figure filename'' (feFilename f)) \<and>
     (\<forall>f\<in>set (reDataFiles r). named ''data file filename'' (deFilename f)))"

definition chat_named :: "ChatExport \<Rightarrow> bool" where
  "chat_named c =
    (named ''chat id'' (ceID c) \<and>
     (case ceRawSourceKey c of
        None \<Rightarrow> True
      | Some key \<Rightarrow> ceRawSourceContent c \<noteq> [] \<and> (\<exists>name. rawSourceExportFilename (ceID c) key = Inr name)))"

definition snapshot_named :: "Snapshot \<Rightarrow> bool" where
  "snapshot_named s =
    ((\<forall>x\<in>set (ssTemplates s). named ''template name'' (teName x)) \<and> (\<forall>x\<in>set (ssRecords s). record_named x) \<and>
     (\<forall>x\<in>set (ssChats s). chat_named x) \<and> (\<exists>c. registry_text (ssProjects s) = Inr c) \<and>
     (\<exists>c. registry_text (ssDevices s) = Inr c))"

section \<open>The steps of the writer\<close>

lemma ok_pure: "(V \<Longrightarrow> ok_triple P m Q) \<Longrightarrow> ok_triple (\<lambda>d. V \<and> P d) m Q"
  by (auto simp: ok_triple_def)

lemma ok_lift: "(\<And>a. r = Inr a \<Longrightarrow> ok_triple P (f a) Q) \<Longrightarrow> ok_triple P (bnd (lift_result r) f) Q"
  by (cases r) (auto simp: ok_triple_def bnd_def lift_result_def)

lemma ok_checked: "(r = Inr () \<Longrightarrow> ok_triple P m Q) \<Longrightarrow> ok_triple P (sq (lift_result r) m) Q"
  unfolding sq_def by (rule ok_lift) simp

lemma ok_also: "ok_triple P m (\<lambda>_. Q) \<Longrightarrow> V \<Longrightarrow> ok_triple P m (\<lambda>_ d. V \<and> Q d)"
  by (simp add: ok_triple_def)

lemma ok_with: "ok_triple P m (\<lambda>_ d. V \<and> R d) \<Longrightarrow> (V \<Longrightarrow> ok_triple R n Q) \<Longrightarrow> ok_triple P (sq m n) Q"
  by (rule ok_sq) (auto intro: ok_pure)

lemma ok_checks: "ok_triple P (each (\<lambda>x. lift_result (g x)) xs) (\<lambda>_ d. (\<forall>x\<in>set xs. g x = Inr ()) \<and> P d)"
proof (induction xs)
  case (Cons x xs)
  have "ok_triple P (each (\<lambda>x. lift_result (g x)) xs) (\<lambda>_ d. (\<forall>y\<in>set (x # xs). g y = Inr ()) \<and> P d)" if "g x = Inr ()"
    using that by (intro ok_conseq [OF Cons.IH]) auto
  then show ?case unfolding each.simps by (rule ok_checked)
qed (auto intro: ok_ret)

lemma snap_each:
  assumes "\<And>pre x post. xs = pre @ x # post \<Longrightarrow>
      ok_triple (on_snap S (E \<union> (\<Union>y\<in>set pre. N y))) (f x) (\<lambda>_ d. V x \<and> on_snap S (N x \<union> (E \<union> (\<Union>y\<in>set pre. N y))) d)"
  shows "ok_triple (on_snap S E) (each f xs) (\<lambda>_ d. (\<forall>x\<in>set xs. V x) \<and> on_snap S (E \<union> (\<Union>x\<in>set xs. N x)) d)"
proof -
  have "ok_triple (on_snap S (E \<union> (\<Union>y\<in>set pre. N y))) (each f ys)
      (\<lambda>_ d. (\<forall>x\<in>set ys. V x) \<and> on_snap S (E \<union> (\<Union>x\<in>set xs. N x)) d)" if "xs = pre @ ys" for pre ys
    using that
  proof (induction ys arbitrary: pre)
    case Nil
    then show ?case by (auto intro: ok_ret)
  next
    case (Cons y ys)
    have eq: "N y \<union> (E \<union> (\<Union>y\<in>set pre. N y)) = E \<union> (\<Union>y\<in>set (pre @ [y]). N y)" by auto
    have "ok_triple (on_snap S (E \<union> (\<Union>y\<in>set (pre @ [y]). N y))) (each f ys)
        (\<lambda>_ d. (\<forall>x\<in>set (y # ys). V x) \<and> on_snap S (E \<union> (\<Union>x\<in>set xs. N x)) d)" if "V y"
      using Cons.IH [of "pre @ [y]"] Cons.prems that by (auto simp: ok_triple_def)
    then show ?case
      unfolding each.simps by (intro ok_with [OF assms [OF Cons.prems]]) (simp only: eq)
  qed
  from this [of "[]" xs] show ?thesis by simp
qed

lemma snap_write_wrapped:
  "q \<noteq> [] \<Longrightarrow> (butlast q, Dir) \<in> E \<Longrightarrow> \<forall>n. (q, n) \<notin> E \<Longrightarrow>
    ok_triple (on_snap S E) (wrap msg (writeFile (S @ q) c)) (\<lambda>_. on_snap S (insert (q, File c) E))"
  by (intro ok_wrap snap_writeFile)

lemma snap_optional:
  assumes "q \<noteq> []" "(butlast q, Dir) \<in> E" "\<forall>n. (q, n) \<notin> E"
  shows "ok_triple (on_snap S E) (write_optional msg (S @ q) c) (\<lambda>_. on_snap S (optional_node q c \<union> E))"
  using snap_write_wrapped [OF assms]
  by (cases c) (auto simp: write_optional_def optional_node_def intro: ok_ret)

lemma snap_template:
  assumes "([''templates''], Dir) \<in> E" "\<forall>n. ([''templates'', teName tm @ ''.html''], n) \<notin> E"
  shows "ok_triple (on_snap S E) (write_template (S @ [''templates'']) tm)
    (\<lambda>_ d. named ''template name'' (teName tm) \<and> on_snap S (template_nodes tm \<union> E) d)"
  unfolding write_template_def append_assoc append.simps template_nodes_def insert_is_Un [symmetric]
  by (intro ok_checked ok_also snap_write_wrapped) (use assms in \<open>simp_all add: named_def\<close>)

lemma snap_figure:
  assumes "p \<noteq> []" "(p, Dir) \<in> E" "\<forall>n. (p @ [feFilename f], n) \<notin> E"
  shows "ok_triple (on_snap S E) (write_figure (S @ p) f)
    (\<lambda>_ d. named ''figure filename'' (feFilename f) \<and> on_snap S (figure_nodes p f \<union> E) d)"
  unfolding write_figure_def append_assoc figure_nodes_def insert_is_Un [symmetric]
  by (intro ok_checked ok_also snap_write_wrapped) (use assms in \<open>simp_all add: named_def\<close>)

lemma snap_figures:
  assumes "p \<noteq> []" "(p, Dir) \<in> E" "\<forall>x n. (p @ [x], n) \<notin> E" "distinct (List.map feFilename fs)"
  shows "ok_triple (on_snap S E) (each (write_figure (S @ p)) fs)
    (\<lambda>_ d. (\<forall>f\<in>set fs. named ''figure filename'' (feFilename f)) \<and> on_snap S (E \<union> (\<Union>f\<in>set fs. figure_nodes p f)) d)"
  by (rule snap_each, rule snap_figure) (use assms in \<open>auto simp: figure_nodes_def\<close>)

lemma snap_record:
  assumes root: "([''records''], Dir) \<in> E" and fresh: "\<And>q n. ([''records'', reID r] @ q, n) \<notin> E"
    and figures: "distinct (List.map feFilename (reFigures r))"
  shows "ok_triple (on_snap S E) (write_record (S @ [''records'']) r) (\<lambda>_ d. record_named r \<and> on_snap S (record_nodes r \<union> E) d)"
proof -
  let ?p = "[''records'', reID r]" and ?fs = "sort_key feFilename (reFigures r)"
  define E1 where "E1 = insert (?p, Dir) E"
  define E2 where "E2 = optional_node (?p @ [''record.html'']) (reHTMLContent r) \<union> E1"
  define E3 where "E3 = optional_node (?p @ [''notes.md'']) (reNotes r) \<union> E2"
  define E4 where "E4 = (if ?fs \<noteq> [] then insert (?p @ [''figures''], Dir) E3 else E3)"
  define E5 where "E5 = E4 \<union> (\<Union>f\<in>set ?fs. figure_nodes (?p @ [''figures'']) f)"
  have fresh': "(''records'' # reID r # q, n) \<notin> E" for q n using fresh [of q n] by simp
  have empty: "(?fs \<noteq> []) = (reFigures r \<noteq> [])" by (metis set_sort set_empty)
  note E = E1_def E2_def E3_def E4_def E5_def optional_node_def figure_nodes_def
  have final: "insert (?p @ [''metadata.json''], File (record_metadata_text r)) E5 = record_nodes r \<union> E"
    unfolding E1_def E2_def E3_def E4_def E5_def record_nodes_def Let_def set_sort empty by (cases "reFigures r = []") auto
  have 1: "ok_triple (on_snap S E) (wrap m (mkdir_all (S @ ?p))) (\<lambda>_. on_snap S E1)" for m
    unfolding E1_def by (intro ok_wrap snap_mkdir) (use root in simp_all)
  have 2: "ok_triple (on_snap S E1) (write_optional m (S @ ?p @ [''record.html'']) (reHTMLContent r)) (\<lambda>_. on_snap S E2)" for m
    unfolding E2_def by (rule snap_optional) (use fresh' in \<open>auto simp: E1_def\<close>)
  have 3: "ok_triple (on_snap S E2) (write_optional m (S @ ?p @ [''notes.md'']) (reNotes r)) (\<lambda>_. on_snap S E3)" for m
    unfolding E3_def by (rule snap_optional) (use fresh' in \<open>auto simp: E2_def E1_def optional_node_def split: option.splits\<close>)
  have 4: "ok_triple (on_snap S E3) (if ?fs \<noteq> [] then wrap m (mkdir_all (S @ ?p @ [''figures''])) else ret ()) (\<lambda>_. on_snap S E4)" for m
    using snap_mkdir [of "?p @ [''figures'']" E3 S] by (auto simp: E4_def E3_def E2_def E1_def intro!: ok_wrap ok_ret)
  have 5: "ok_triple (on_snap S E4) (each (write_figure (S @ ?p @ [''figures''])) ?fs)
      (\<lambda>_ d. (\<forall>f\<in>set ?fs. named ''figure filename'' (feFilename f)) \<and> on_snap S E5 d)"
  proof (cases "?fs = []")
    case False
    have "distinct (List.map feFilename ?fs)" using figures by (metis distinct_map distinct_sort set_sort)
    with False show ?thesis
      unfolding E5_def
      by (intro snap_figures)
         (use fresh' in \<open>auto simp: E4_def E3_def E2_def E1_def optional_node_def split: option.splits\<close>)
  qed (auto simp: E5_def intro: ok_ret)
  have 6: "ok_triple (on_snap S E5) (wrap m (writeFile (S @ ?p @ [''metadata.json'']) (record_metadata_text r)))
      (\<lambda>_. on_snap S (record_nodes r \<union> E))" for m
    unfolding final [symmetric]
    by (rule snap_write_wrapped) (use fresh' in \<open>auto simp: E split: option.splits\<close>)
  show ?thesis
    unfolding write_record_def Let_def append_assoc append.simps
    by (intro ok_checked ok_sq [OF 1 [unfolded append.simps]] ok_sq [OF 2 [unfolded append.simps]] ok_sq [OF 3 [unfolded append.simps]]
          ok_sq [OF 4 [unfolded append.simps]] ok_with [OF 5 [unfolded append.simps]] ok_with [OF ok_checks] ok_also [OF 6 [unfolded append.simps]])
       (auto simp: record_named_def named_def)
qed

lemma raw_names: "rawSourceExportFilename i key = Inr name \<Longrightarrow> name \<in> {''source.json'', ''source.jsonl'', ''source.ndjson''}"
  by (simp add: rawSourceExportFilename_def Let_def split: if_splits)

definition raw_node :: "path \<Rightarrow> ChatExport \<Rightarrow> (path \<times> string node) set" where
  "raw_node p c =
    (case ceRawSourceKey c of
       None \<Rightarrow> {}
     | Some key \<Rightarrow>
         (case rawSourceExportFilename (ceID c) key of Inl _ \<Rightarrow> {} | Inr name \<Rightarrow> {(p @ [name], File (ceRawSourceContent c))}))"

lemma snap_raw:
  assumes "p \<noteq> []" "(p, Dir) \<in> E" "\<forall>x\<in>{''source.json'', ''source.jsonl'', ''source.ndjson''}. \<forall>n. (p @ [x], n) \<notin> E"
  shows "ok_triple (on_snap S E) (write_raw_source (S @ p) c)
    (\<lambda>_ d. (case ceRawSourceKey c of
        None \<Rightarrow> True
      | Some key \<Rightarrow> ceRawSourceContent c \<noteq> [] \<and> (\<exists>name. rawSourceExportFilename (ceID c) key = Inr name)) \<and>
      on_snap S (raw_node p c \<union> E) d)"
proof (cases "ceRawSourceKey c")
  case None
  then show ?thesis by (auto simp: write_raw_source_def raw_node_def intro: ok_ret)
next
  case (Some key)
  have "ok_triple (on_snap S E) (wrap m (writeFile (S @ p @ [name]) (ceRawSourceContent c)))
      (\<lambda>_. on_snap S (insert (p @ [name], File (ceRawSourceContent c)) E))"
    if "rawSourceExportFilename (ceID c) key = Inr name" for name m
    by (rule snap_write_wrapped) (use assms raw_names [OF that] in auto)
  then show ?thesis
    using Some
    by (auto simp: write_raw_source_def raw_node_def wrap_result_def intro!: ok_fail ok_lift ok_also split: sum.splits)
qed

lemma snap_chat:
  assumes root: "([''chats''], Dir) \<in> E" and fresh: "\<And>q n. ([''chats'', ceID c] @ q, n) \<notin> E"
  shows "ok_triple (on_snap S E) (write_chat (S @ [''chats'']) c) (\<lambda>_ d. chat_named c \<and> on_snap S (chat_nodes c \<union> E) d)"
proof -
  let ?p = "[''chats'', ceID c]"
  define E1 where "E1 = insert (?p, Dir) E"
  define E2 where "E2 = insert (?p @ [''metadata.json''], File (chat_metadata_text c)) E1"
  define E3 where "E3 = insert (?p @ [''items.jsonl''], File (items_text (ceItems c))) E2"
  have fresh': "(''chats'' # ceID c # q, n) \<notin> E" for q n using fresh [of q n] by simp
  have final: "raw_node ?p c \<union> E3 = chat_nodes c \<union> E"
    unfolding E1_def E2_def E3_def chat_nodes_def raw_node_def Let_def by auto
  have 1: "ok_triple (on_snap S E) (wrap m (mkdir_all (S @ ?p))) (\<lambda>_. on_snap S E1)" for m
    unfolding E1_def by (intro ok_wrap snap_mkdir) (use root in simp_all)
  have 2: "ok_triple (on_snap S E1) (wrap m (writeFile (S @ ?p @ [''metadata.json'']) (chat_metadata_text c))) (\<lambda>_. on_snap S E2)" for m
    unfolding E2_def by (rule snap_write_wrapped) (use fresh' in \<open>auto simp: E1_def\<close>)
  have 3: "ok_triple (on_snap S E2) (wrap m (writeFile (S @ ?p @ [''items.jsonl'']) (items_text (ceItems c)))) (\<lambda>_. on_snap S E3)" for m
    unfolding E3_def by (rule snap_write_wrapped) (use fresh' in \<open>auto simp: E1_def E2_def\<close>)
  have 4: "ok_triple (on_snap S E3) (write_raw_source (S @ ?p) c)
    (\<lambda>_ d. (case ceRawSourceKey c of
        None \<Rightarrow> True
      | Some key \<Rightarrow> ceRawSourceContent c \<noteq> [] \<and> (\<exists>name. rawSourceExportFilename (ceID c) key = Inr name)) \<and>
      on_snap S (chat_nodes c \<union> E) d)"
    unfolding final [symmetric] by (rule snap_raw) (use fresh' in \<open>auto simp: E1_def E2_def E3_def\<close>)
  show ?thesis
    unfolding write_chat_def Let_def append_assoc append.simps
    by (intro ok_checked ok_sq [OF 1 [unfolded append.simps]] ok_sq [OF 2 [unfolded append.simps]]
          ok_sq [OF 3 [unfolded append.simps]] ok_conseq [OF 4 [unfolded append.simps]])
       (auto simp: chat_named_def named_def)
qed

lemma snap_registry:
  assumes "q \<noteq> []" "(butlast q, Dir) \<in> E" "\<forall>n. (q, n) \<notin> E"
  shows "ok_triple (on_snap S E) (wrap msg (writeRegistryFile (S @ q) es))
    (\<lambda>_ d. (\<exists>c. registry_text es = Inr c) \<and> on_snap S (result_node q (registry_text es) \<union> E) d)"
  unfolding writeRegistryFile_def
  by (intro ok_wrap ok_lift ok_conseq [OF snap_writeFile [OF assms]]) (auto simp: result_node_def)

text \<open>The identifiers that name the files are unique.\<close>

definition names_distinct :: "Snapshot \<Rightarrow> bool" where
  "names_distinct s =
    (distinct (List.map teName (ssTemplates s)) \<and> distinct (List.map reID (ssRecords s)) \<and>
     distinct (List.map ceID (ssChats s)) \<and> list_all (\<lambda>r. distinct (List.map feFilename (reFigures r))) (ssRecords s))"

lemma distinct_keys_sorted: "distinct (List.map f xs) \<Longrightarrow> distinct (List.map f (sort_key k xs))"
  by (metis distinct_map distinct_sort set_sort)

lemma snap_contents:
  assumes "names_distinct s"
  shows "ok_triple (on_snap S {([], Dir)}) (writeSnapshotContents S s)
    (\<lambda>_ d. snapshot_named s \<and> on_snap S (snapshot_nodes s) d)"
proof -
  let ?ts = "sortedTemplates (ssTemplates s)" and ?rs = "sortedRecords (ssRecords s)" and ?cs = "sortedChats (ssChats s)"
  define E1 where "E1 = {([''records''], Dir), ([''templates''], Dir), ([] :: path, Dir :: string node)}"
  define E2 where "E2 = E1 \<union> (\<Union>x\<in>set ?ts. template_nodes x)"
  define E3 where "E3 = E2 \<union> (\<Union>x\<in>set ?rs. record_nodes x)"
  define E4 where "E4 = (if ?cs \<noteq> [] then insert ([''chats''], Dir) E3 else E3)"
  define E5 where "E5 = E4 \<union> (\<Union>x\<in>set ?cs. chat_nodes x)"
  define E6 where "E6 = result_node [''projects.json''] (registry_text (ssProjects s)) \<union> E5"
  define E7 where "E7 = result_node [''devices.json''] (registry_text (ssDevices s)) \<union> E6"
  have dist: "distinct (List.map teName ?ts)" "distinct (List.map reID ?rs)" "distinct (List.map ceID ?cs)"
    "\<forall>r\<in>set ?rs. distinct (List.map feFilename (reFigures r))"
    using assms by (auto simp: names_distinct_def sortedTemplates_def sortedRecords_def sortedChats_def list_all_iff
        intro: distinct_keys_sorted)
  have empty: "(?cs \<noteq> []) = (ssChats s \<noteq> [])" unfolding sortedChats_def by (metis set_sort set_empty)
  have final: "E7 = snapshot_nodes s"
    unfolding E1_def E2_def E3_def E4_def E5_def E6_def E7_def snapshot_nodes_def empty
    unfolding sortedTemplates_def sortedRecords_def sortedChats_def set_sort
    by (cases "ssChats s = []") auto
  have tops: "q \<noteq> [] \<and> hd q = ''templates''" if "(q, n) \<in> template_nodes x" for q n x
    using that by (auto simp: template_nodes_def)
  have rtops: "\<exists>q'. q = [''records'', reID x] @ q'" if "(q, n) \<in> record_nodes x" for q n x
    using that by (auto simp: record_nodes_def Let_def optional_node_def figure_nodes_def split: option.splits if_splits)
  have ctops: "\<exists>q'. q = [''chats'', ceID x] @ q'" if "(q, n) \<in> chat_nodes x" for q n x
    using that by (auto simp: chat_nodes_def Let_def split: option.splits sum.splits)
  have 1: "ok_triple (on_snap S {([], Dir)}) (wrap m (mkdir_all (S @ [''templates''])))
      (\<lambda>_. on_snap S {([''templates''], Dir), ([], Dir)})" for m
    by (intro ok_wrap snap_mkdir) simp_all
  have 2: "ok_triple (on_snap S {([''templates''], Dir), ([], Dir)}) (wrap m (mkdir_all (S @ [''records''])))
      (\<lambda>_. on_snap S E1)" for m
    unfolding E1_def by (intro ok_wrap snap_mkdir) simp_all
  have 3: "ok_triple (on_snap S E1) (each (write_template (S @ [''templates''])) ?ts)
      (\<lambda>_ d. (\<forall>x\<in>set ?ts. named ''template name'' (teName x)) \<and> on_snap S E2 d)"
    unfolding E2_def
    by (rule snap_each, rule snap_template) (use dist(1) in \<open>auto simp: E1_def template_nodes_def\<close>)
  have 4: "ok_triple (on_snap S E2) (each (write_record (S @ [''records''])) ?rs)
      (\<lambda>_ d. (\<forall>x\<in>set ?rs. record_named x) \<and> on_snap S E3 d)"
    unfolding E3_def
    by (rule snap_each, rule snap_record)
       (use dist(2,4) in \<open>auto simp: E2_def E1_def dest!: tops rtops\<close>)
  have 5: "ok_triple (on_snap S E3) (if ?cs \<noteq> [] then wrap m (mkdir_all (S @ [''chats''])) else ret ()) (\<lambda>_. on_snap S E4)" for m
    using snap_mkdir [of "[''chats'']" E3 S] by (auto simp: E4_def E3_def E2_def E1_def intro!: ok_wrap ok_ret)
  have 6: "ok_triple (on_snap S E4) (each (write_chat (S @ [''chats''])) ?cs)
      (\<lambda>_ d. (\<forall>x\<in>set ?cs. chat_named x) \<and> on_snap S E5 d)"
    unfolding E5_def
    by (rule snap_each, rule snap_chat)
       (use dist(3) in \<open>auto simp: E4_def E3_def E2_def E1_def dest!: tops rtops ctops split: if_splits\<close>)
  have 7: "ok_triple (on_snap S E5) (wrap m (writeRegistryFile (S @ [''projects.json'']) (ssProjects s)))
      (\<lambda>_ d. (\<exists>c. registry_text (ssProjects s) = Inr c) \<and> on_snap S E6 d)" for m
    unfolding E6_def
    by (rule snap_registry) (auto simp: E5_def E4_def E3_def E2_def E1_def dest!: tops rtops ctops split: if_splits)
  have 8: "ok_triple (on_snap S E6) (wrap m (writeRegistryFile (S @ [''devices.json'']) (ssDevices s)))
      (\<lambda>_ d. (\<exists>c. registry_text (ssDevices s) = Inr c) \<and> on_snap S E7 d)" for m
    unfolding E7_def
    by (rule snap_registry)
       (auto simp: E6_def E5_def E4_def E3_def E2_def E1_def result_node_def dest!: tops rtops ctops split: if_splits sum.splits)
  have 9: "ok_triple (on_snap S E7) (each (\<lambda>dir. wrap m (syncDir dir)) dirs) (\<lambda>_. on_snap S E7)" for m dirs
    by (rule ok_keeps) (intro keep_intros)
  have sets: "set ?ts = set (ssTemplates s)" "set ?rs = set (ssRecords s)" "set ?cs = set (ssChats s)"
    by (simp_all add: sortedTemplates_def sortedRecords_def sortedChats_def)
  show ?thesis
    unfolding writeSnapshotContents_def Let_def append_assoc append.simps final [symmetric]
    by (intro ok_sq [OF 1] ok_sq [OF 2] ok_with [OF 3] ok_with [OF 4] ok_sq [OF 5] ok_with [OF 6] ok_with [OF 7]
          ok_with [OF 8] ok_also [OF 9])
       (auto simp: snapshot_named_def sets)
qed

end
