(* ===== verification/Snapshot_Export.thy ===== *)
theory Snapshot_Export
  imports Snapshot_Write Replacement_Inv
begin

text \<open>The export as a whole: the replacement of the managed entries by the staged ones, and what is left of the export
  root however it ends.\<close>

section \<open>The places of an export\<close>

definition staging_of :: "path \<Rightarrow> string \<Rightarrow> path" where
  "staging_of root s = root @ [''.snapshot-staging-'' @ s]"

definition backup_of :: "path \<Rightarrow> string \<Rightarrow> path" where
  "backup_of root b = root @ [''.snapshot-backup-'' @ b]"

lemma managed_entry: "e \<in> set managedSnapshotEntries \<Longrightarrow> \<exists>x. e = [x] \<and> x \<noteq> [] \<and> hd x \<noteq> CHR ''.''"
  by (auto simp: managedSnapshotEntries_def)

lemma parallel_names: "a \<noteq> b \<Longrightarrow> parallel (p @ a # q) (p @ b # r)"
  by (simp add: parallel_def)

lemma managed_apart:
  assumes "e \<in> set managedSnapshotEntries"
  shows "parallel (root @ e) (staging_of root s @ q)" "parallel (staging_of root s @ q) (root @ e)"
    "parallel (root @ e) (backup_of root b @ q)" "parallel (backup_of root b @ q) (root @ e)"
proof -
  obtain x where x: "e = [x]" "x \<noteq> []" "hd x \<noteq> CHR ''.''" using managed_entry [OF assms] by blast
  then have "x \<noteq> ''.snapshot-staging-'' @ s" "x \<noteq> ''.snapshot-backup-'' @ b" by (auto simp: hd_append)
  then show "parallel (root @ e) (staging_of root s @ q)" "parallel (staging_of root s @ q) (root @ e)"
    "parallel (root @ e) (backup_of root b @ q)" "parallel (backup_of root b @ q) (root @ e)"
    by (simp_all add: x(1) staging_of_def backup_of_def parallel_names)
qed

lemma places_apart: "parallel (staging_of root s @ q) (backup_of root b @ r)" "parallel (backup_of root b @ q) (staging_of root s @ r)"
  by (simp_all add: staging_of_def backup_of_def parallel_names)

lemma entries_apart:
  assumes "e \<in> set managedSnapshotEntries" "f \<in> set managedSnapshotEntries" "e \<noteq> f"
  shows "parallel (p @ e) (p @ f)"
proof -
  obtain x y where "e = [x]" "f = [y]" using assms(1,2) managed_entry by blast
  then show ?thesis using assms(3) parallel_names [of x y p "[]" "[]"] by simp
qed

lemma export_layout: "replacement_layout root (staging_of root s) (backup_of root b) managedSnapshotEntries"
proof
  show "cleanReplacementEntries managedSnapshotEntries = Inr managedSnapshotEntries"
    by (simp add: cleanReplacementEntries_def cleanReplacementEntryList_def managedSnapshotEntries_def rooted_def Let_def)
  show "distinct managedSnapshotEntries" "[] \<notin> set managedSnapshotEntries" by (simp_all add: managedSnapshotEntries_def)
  show "root \<noteq> staging_of root s" "root \<noteq> backup_of root b" "staging_of root s \<noteq> backup_of root b"
    by (simp_all add: staging_of_def backup_of_def)
  show "parallel (backup_of root b) (root @ e)" "parallel (backup_of root b) (staging_of root s @ e)"
    if "e \<in> set managedSnapshotEntries" for e
    using managed_apart(4) [OF that, of root b "[]"] places_apart(2) [of root b "[]" s e] by simp_all
  fix e f x y
  assume "x \<in> {root, staging_of root s, backup_of root b}" "y \<in> {root, staging_of root s, backup_of root b}"
    "e \<in> set managedSnapshotEntries" "f \<in> set managedSnapshotEntries" "(x, e) \<noteq> (y, f)"
  then show "parallel (x @ e) (y @ f)"
    using managed_apart [of e root] managed_apart [of f root] entries_apart [of e f] places_apart
    by (elim insertE emptyE) simp_all
qed

interpretation export: replacement_layout root "staging_of root s" "backup_of root b" managedSnapshotEntries for root s b
  by (rule export_layout)

text \<open>Without a hook the roll-back is the one with a hook that does nothing.\<close>

lemma no_hook: "replaceBody root st bk es None = replaceBody root st bk es (Some (ret ()))"
proof -
  have 1: "rollbackSnapshotContents root bk ms ps ts c None = rollbackSnapshotContents root bk ms ps ts c (Some (ret ()))"
    for ms ps ts c unfolding rollbackSnapshotContents_def option.case ..
  have 2: "commitReplacement root bk ms ps ts None = commitReplacement root bk ms ps ts (Some (ret ()))" for ms ps ts
    unfolding commitReplacement_def 1 ..
  have 3: "promoteEntries root st bk es ms ts None = promoteEntries root st bk es ms ts (Some (ret ()))" for ms ts
    unfolding promoteEntries_def 1 2 ..
  show ?thesis unfolding replaceBody_def 1 3 ..
qed

section \<open>What stays of the export root\<close>

text \<open>The tree the replacement works on: keys are unique, and the root and all above it are directories.\<close>

definition rooted_at :: "path \<Rightarrow> string tree \<Rightarrow> bool" where
  "rooted_at root t = (distinct (List.map fst t) \<and> (\<forall>p. prefix p root \<longrightarrow> at t p = Some Dir))"

lemma tidy_rooted:
  assumes "tidy t" "at t root = Some Dir"
  shows "rooted_at root t"
  unfolding rooted_at_def
proof (intro conjI allI impI)
  show "distinct (List.map fst t)" using assms(1) unfolding tidy_def by blast
  fix p assume "prefix p root"
  then show "at t p = Some Dir"
    using tidy_strict [OF assms(1), of root p] assms(2) by (cases "p = root") (simp_all add: strict_prefix_def)
qed

lemma rooted_steps:
  assumes "rooted_at root t"
  shows "rooted_at root (made_dirs p made t)"
    and "\<not> prefix p root \<Longrightarrow> rooted_at root (removed p t)" "\<not> prefix p root \<Longrightarrow> rooted_at root (partly_removed p keep t)"
    and "\<not> prefix p root \<Longrightarrow> \<not> prefix q root \<Longrightarrow> rooted_at root (moved p q t)"
proof -
  have up: "\<not> prefix p r" if "\<not> prefix p root" "prefix r root" for p r
    using that prefix_order.trans by blast
  show "rooted_at root (made_dirs p made t)" using assms by (auto simp: rooted_at_def distinct_made)
  show "\<not> prefix p root \<Longrightarrow> rooted_at root (removed p t)" "\<not> prefix p root \<Longrightarrow> rooted_at root (partly_removed p keep t)"
    "\<not> prefix p root \<Longrightarrow> \<not> prefix q root \<Longrightarrow> rooted_at root (moved p q t)"
    using assms up by (auto simp: rooted_at_def distinct_removed distinct_moved at_moved_off)
qed

lemma below_root: "q \<noteq> [] \<Longrightarrow> \<not> prefix (root @ q) root"
  by (auto dest: prefix_length_le)

text \<open>What belongs to the export below its root; all else stays as in \<open>g\<close>.\<close>

definition own :: "path \<Rightarrow> path \<Rightarrow> bool" where
  "own root r =
    (\<exists>x q. r = root @ x # q \<and>
       ([x] \<in> set managedSnapshotEntries \<or> prefix ''.snapshot-staging-'' x \<or> prefix ''.snapshot-backup-'' x))"

definition framed :: "(path \<Rightarrow> string node option) \<Rightarrow> path \<Rightarrow> string tree \<Rightarrow> bool" where
  "framed g root t = (rooted_at root t \<and> (\<forall>r. \<not> own root r \<longrightarrow> at t r = g r))"

lemma own_places:
  "e \<in> set managedSnapshotEntries \<Longrightarrow> own root (root @ e @ q)" "own root (staging_of root s @ q)" "own root (backup_of root b @ q)"
  by (auto simp: own_def staging_of_def backup_of_def managedSnapshotEntries_def)

lemma framed_steps:
  assumes t: "framed g root t" and p: "\<And>r. own root (p @ r)"
  shows "framed g root (made_dirs p made t)" "framed g root (removed p t)" "framed g root (partly_removed p keep t)"
    and "(\<And>r. own root (q @ r)) \<Longrightarrow> framed g root (moved p q t)"
    and "framed g root (made_dirs root made t)" "framed g root (put_node p n t)"
proof -
  have r: "rooted_at root t" using t by (simp add: framed_def)
  have up: "\<not> prefix p root" if mine: "\<And>r. own root (p @ r)" for p
  proof -
    obtain x q where "p = root @ x # q" using mine [of "[]"] by (auto simp: own_def)
    then show ?thesis using below_root [of "x # q" root] by simp
  qed
  have off: "\<not> prefix p r" if "\<not> own root r" "\<And>r. own root (p @ r)" for p r
    using that by (auto simp: prefix_def)
  have above: "prefix r p \<Longrightarrow> \<not> own root r \<Longrightarrow> at t r \<noteq> None" for r
  proof -
    assume "prefix r p" "\<not> own root r"
    moreover obtain x q where x: "p = root @ x # q"
        "[x] \<in> set managedSnapshotEntries \<or> prefix ''.snapshot-staging-'' x \<or> prefix ''.snapshot-backup-'' x"
      using p [of "[]"] by (auto simp: own_def)
    ultimately have "prefix r root"
      unfolding own_def by (auto simp: prefix_append prefix_Cons)
    then show ?thesis using r by (simp add: rooted_at_def)
  qed
  show "framed g root (made_dirs p made t)"
    unfolding framed_def
  proof (intro conjI allI impI)
    show "rooted_at root (made_dirs p made t)" by (rule rooted_steps(1) [OF r])
    fix r assume mine: "\<not> own root r"
    then have "at t r = g r" using t by (simp add: framed_def)
    then show "at (made_dirs p made t) r = g r" using above [OF _ mine] by auto
  qed
  show "framed g root (removed p t)" "framed g root (partly_removed p keep t)"
    using t rooted_steps(2,3) [OF r up [OF p]] off [OF _ p] by (auto simp: framed_def)
  show "framed g root (moved p q t)" if "\<And>r. own root (q @ r)"
    using t rooted_steps(4) [OF r up [OF p] up [OF that]] off [OF _ p] off [OF _ that] by (auto simp: framed_def at_moved_off)
  show "framed g root (put_node p n t)"
    using t off [OF _ p] up [OF p] distinct_put [of t p n] by (auto simp: framed_def rooted_at_def)
  show "framed g root (made_dirs root made t)"
    using t rooted_steps(1) [OF r] by (auto simp: framed_def rooted_at_def)
qed

lemma framed_stable: "export.stable root s b (framed g root)"
  unfolding export.stable_def
proof (intro conjI allI impI)
  fix t :: "string tree" and keep
  assume t: "framed g root t"
  note b = framed_steps [OF t own_places(3)]
  have "butlast (backup_of root b) = root" by (simp add: backup_of_def)
  then show "framed g root (made_dirs (backup_of root b) keep t)" "framed g root (made_dirs (butlast (backup_of root b)) keep t)"
    "framed g root (removed (backup_of root b) t)" "framed g root (partly_removed (backup_of root b) keep t)"
    using b by simp_all
next
  fix t :: "string tree" and e x y keep
  assume e: "e \<in> set managedSnapshotEntries" and t: "framed g root t"
    and x: "x \<in> {root, staging_of root s, backup_of root b}" and y: "y \<in> {root, staging_of root s, backup_of root b}"
  have own_at: "own root ((z @ e) @ q)" if "z \<in> {root, staging_of root s, backup_of root b}" for z q
    using that own_places(1) [OF e, of root q] own_places(2,3) [of root _ "e @ q"] by auto
  obtain u where u: "e = [u]" using managed_entry [OF e] by blast
  show "framed g root (made_dirs (butlast (x @ e)) keep t)"
    using x framed_steps(1,5) [OF t own_places(2)] framed_steps(1) [OF t own_places(3)] by (auto simp: u butlast_append)
  show "framed g root (removed (root @ e) t)" "framed g root (partly_removed (root @ e) keep t)"
    using framed_steps(2,3) [OF t own_at [of root]] by simp_all
  show "framed g root (moved (x @ e) (y @ e) t)" if "x \<noteq> y"
    by (intro framed_steps(4) [OF t] own_at x y)
qed

text \<open>What a failed replacement keeps: every entry that was there is in its place or whole in one backup directory.\<close>

definition kept :: "(path \<Rightarrow> string node option) \<Rightarrow> path \<Rightarrow> (path \<Rightarrow> path \<Rightarrow> string node option) \<Rightarrow> string tree \<Rightarrow> bool" where
  "kept g root old t = (framed g root t \<and>
    (\<exists>b. \<forall>e\<in>set managedSnapshotEntries. old e = gone \<or> view t (root @ e) = old e \<or> view t (backup_of root b @ e) = old e))"

definition placed :: "(path \<Rightarrow> string node option) \<Rightarrow> path \<Rightarrow> (path \<Rightarrow> path \<Rightarrow> string node option) \<Rightarrow> string tree \<Rightarrow> bool" where
  "placed g root new t = (framed g root t \<and> (\<forall>e\<in>set managedSnapshotEntries. view t (root @ e) = new e))"

lemma back_kept: "export.with_slots root s b (framed g root) (\<lambda>e. back_slot (old e)) t \<Longrightarrow> kept g root old t"
  unfolding kept_def export.with_slots_def back_slot_def slot_def by (intro conjI exI [of _ b]) (auto split: if_splits)

lemma unfinished_kept: "export.unfinished root s b (framed g root) (framed g root) old new t \<Longrightarrow> kept g root old t"
  unfolding export.unfinished_def
  by (elim disjE) (auto intro!: back_kept elim!: export.with_slots_mono dest: forward_is_back)

lemma rolling_kept: "export.with_slots root s b (framed g root) (export.rolling old {}) t \<Longrightarrow> kept g root old t"
  by (rule back_kept [where s = s and b = b], erule export.with_slots_mono) (rule export.rolling_back)

lemma promoted_placed: "export.with_slots root s b (framed g root) (\<lambda>e. promoted_slot (new e)) t \<Longrightarrow> placed g root new t"
  by (simp add: placed_def export.with_slots_def promoted_slot_def slot_def)

lemma no_hook_records: "export.records root s b F F (ret ())"
  by (auto simp: export.records_def outcome_def ret_def)

text \<open>The replacement of the managed entries: they are the new ones, or a failure has kept the old ones.\<close>

definition staged :: "(path \<Rightarrow> string node option) \<Rightarrow> path \<Rightarrow> string \<Rightarrow> (path \<Rightarrow> path \<Rightarrow> string node option) \<Rightarrow>
    (path \<Rightarrow> path \<Rightarrow> string node option) \<Rightarrow> string tree \<Rightarrow> bool" where
  "staged g root s old new t =
    (tidy t \<and> at t root = Some Dir \<and> (\<forall>r. \<not> own root r \<longrightarrow> at t r = g r) \<and>
     (\<forall>e\<in>set managedSnapshotEntries. view t (root @ e) = old e \<and> view t (staging_of root s @ e) = new e))"

lemma replace_outcome:
  "outcome (staged g root s old new) (replaceContents root (staging_of root s) managedSnapshotEntries None None)
    (either (\<lambda>_ _. False) (\<lambda>r t. case r of ReplacementError _ \<Rightarrow> kept g root old t | _ \<Rightarrow> placed g root new t))"
    (is "outcome ?J _ (either _ ?K)")
  unfolding replaceContents_def export.clean_entries sum.case
proof (rule outcome_try; (unfold sum.case)?)
  let ?A = "\<lambda>bk t. \<exists>b. bk = backup_of root b \<and> export.with_slots root s b (framed g root) (\<lambda>e x. x = (old e, new e, gone)) t"
  have start: "\<exists>b. dir = backup_of root b \<and> export.with_slots root s b (framed g root) (\<lambda>e x. x = (old e, new e, gone)) (put_node dir Dir t)"
    if J: "?J t" and dir: "dir = root @ [''.snapshot-backup-'' @ b]" and free: "at t dir = None" for t dir b
  proof -
    have t: "tidy t" "at t root = Some Dir" using J by (auto simp: staged_def)
    have dir': "dir = backup_of root b" using dir by (simp add: backup_of_def)
    have "tidy (put_node dir Dir t)" using t free dir by (intro tidy_put) (auto simp: butlast_append)
    then have "rooted_at root (put_node dir Dir t)"
      using t(2) dir by (intro tidy_rooted) auto
    moreover have "at (put_node dir Dir t) r = g r" if "\<not> own root r" for r
      using that J own_places(3) [of root b "[]"] dir' by (auto simp: staged_def)
    ultimately have "framed g root (put_node dir Dir t)" by (simp add: framed_def)
    moreover have "slot root (staging_of root s) dir (put_node dir Dir t) e = (old e, new e, gone)" if e: "e \<in> set managedSnapshotEntries" for e
    proof -
      have p: "\<not> prefix (root @ e) dir" "\<not> prefix (staging_of root s @ e) dir"
        using managed_apart(3) [OF e, of root b "[]"] places_apart(1) [of root s e b "[]"] dir' by (auto simp: parallel_def)
      have "view (put_node dir Dir t) q = view t q" if "\<not> prefix q dir" for q
        by (rule view_cong) (use that in auto)
      moreover have "e \<noteq> []" using managed_entry [OF e] by auto
      then have "view (put_node dir Dir t) (dir @ e) = gone"
        using tidy_below_none [OF t(1) free, of e] by (simp add: view_gone_iff)
      ultimately show ?thesis using J e p by (simp add: slot_def staged_def)
    qed
    ultimately show ?thesis using dir' by (auto simp: export.with_slots_def)
  qed
  have same: "kept g root old t" if "?J t" for t
    using that tidy_rooted [of t root] by (auto simp: staged_def kept_def framed_def)
  show "outcome ?J (createReplacementBackupDir root None) (either (\<lambda>_. kept g root old) ?A)"
    unfolding createReplacementBackupDir_def option.case
  proof (rule outcome_wrap_either, rule outcomeI)
    fix d :: files assume "?J (dkTree d)"
    with start same show "either (\<lambda>_. kept g root old) ?A (fst (create_in Dir root ''.snapshot-backup-'' d))
        (dkTree (snd (create_in Dir root ''.snapshot-backup-'' d)))"
      by (auto simp: create_in_def disk_call_def Let_def unchanged_def find_Some_iff
          split: option.splits prod.splits sum.splits node.splits)
  qed
  show "outcome (kept g root old) (ret (ReplacementError e)) (either (\<lambda>_ _. False) ?K)" for e
    by (rule outcome_ret) simp
  fix bk
  show "outcome (?A bk) (bnd (replaceBody root (staging_of root s) bk managedSnapshotEntries None) (\<lambda>(c, r).
      sq (if c then ignored (remove_all bk) else ret ()) (ret r))) (either (\<lambda>_ _. False) ?K)"
  proof (rule outcome_some, rule outcome_pure, simp only:)
    fix b
    let ?R = "export.replaced root s b (framed g root) (framed g root) old new"
    show "outcome (export.with_slots root s b (framed g root) (\<lambda>e x. x = (old e, new e, gone)))
        (bnd (replaceBody root (staging_of root s) (backup_of root b) managedSnapshotEntries None) (\<lambda>(c, r).
          sq (if c then ignored (remove_all (backup_of root b)) else ret ()) (ret r))) (either (\<lambda>_ _. False) ?K)"
      unfolding no_hook
    proof (rule outcome_bnd_sure)
      show "outcome (export.with_slots root s b (framed g root) (\<lambda>e x. x = (old e, new e, gone)))
          (replaceBody root (staging_of root s) (backup_of root b) managedSnapshotEntries (Some (ret ())))
          (either (\<lambda>_ _. False) (\<lambda>a. ?R (Inr a)))"
        by (rule outcome_weaken [OF export.replaceBody_outcome [OF framed_stable framed_stable no_hook_records]])
           (auto simp: export.replaced_def either_def split: sum.splits)
      fix a :: replacement_outcome
      obtain c r where a: "a = (c, r)" by (cases a)
      have rest: "?K r t" if "?R (Inr (c, r)) t" for t
        using that by (auto simp: export.replaced_def intro: unfinished_kept promoted_placed split: replacement_result.splits)
      have drop: "?K r (dkTree (snd (remove_all (backup_of root b) d)))" if c and R: "?R (Inr (c, r)) (dkTree d)" for d
      proof -
        obtain e where r: "r = ReplacementError e" using R \<open>c\<close> by (auto simp: export.replaced_def split: replacement_result.splits)
        have "export.with_slots root s b (framed g root) (export.rolling old {}) (dkTree d)"
          using R \<open>c\<close> r by (simp add: export.replaced_def)
        then have "export.with_slots root s b (framed g root) (export.rolling old {}) (dkTree (snd (remove_all (backup_of root b) d)))"
          using outcome_remove_all [where J = "export.with_slots root s b (framed g root) (export.rolling old {})"
              and K = "\<lambda>_. export.with_slots root s b (framed g root) (export.rolling old {})"]
            export.rolling_backup_removed [OF framed_stable]
          unfolding outcome_def by blast
        then show ?thesis unfolding r by (simp add: rolling_kept)
      qed
      show "outcome (?R (Inr a)) (case a of (c, r) \<Rightarrow> sq (if c then ignored (remove_all (backup_of root b)) else ret ()) (ret r))
          (either (\<lambda>_ _. False) ?K)"
        using rest drop by (auto simp: a outcome_def sq_def bnd_def ignored_def ret_def)
    qed
  qed
qed

section \<open>A successful export\<close>

definition exported :: "path \<Rightarrow> Snapshot \<Rightarrow> string tree \<Rightarrow> bool" where
  "exported root s t =
    (rooted_at root t \<and>
     (\<forall>x r n. [x] \<in> set managedSnapshotEntries \<longrightarrow> (view t (root @ [x]) r = Some n) = ((x # r, n) \<in> snapshot_nodes s)))"

lemma staged_view:
  assumes "snap S E t"
  shows "(view t (S @ [x]) r = Some n) = ((x # r, n) \<in> E)"
proof (cases "at t (S @ [x])")
  case None
  have "tidy t" using assms by (simp add: snap_def)
  then have "at t ((S @ [x]) @ r) = None" using None by (rule tidy_below_none)
  then show ?thesis using None snap_at [OF assms, of "x # r" n] by (simp add: view_def)
next
  case (Some m)
  then show ?thesis using snap_at [OF assms, of "x # r" n] by (simp add: view_def)
qed

lemma placed_drop:
  assumes "placed g root new t"
  shows "placed g root new (removed (staging_of root s) t)" "placed g root new (partly_removed (staging_of root s) keep t)"
  using assms managed_apart(2) [of _ root s "[]"] framed_steps(2,3) [OF _ own_places(2)]
  by (simp_all add: placed_def)

text \<open>The replacement after the staging: the snapshot is in place, or an error has been reported and the old entries are kept.\<close>

lemma replaced_end:
  assumes snap: "snap (staging_of root s) (snapshot_nodes sn) (dkTree d)"
    and frame: "framed g root (dkTree d)" and old: "\<forall>e\<in>set managedSnapshotEntries. view (dkTree d) (root @ e) = old e"
    and run: "replaceSnapshotContents root (staging_of root s) d = (res, d')"
  shows "(\<exists>new. placed g root new (dkTree d') \<and> (\<forall>x r n. (new [x] r = Some n) = ((x # r, n) \<in> snapshot_nodes sn))) \<or>
      (\<exists>e. res = Inl e) \<and> kept g root old (dkTree d')"
proof -
  let ?t = "dkTree d" and ?new = "\<lambda>e. view (dkTree d) (staging_of root s @ e)"
  have "at ?t root = Some Dir" "tidy ?t" using frame snap by (auto simp: framed_def rooted_at_def snap_def)
  then have "staged g root s old ?new ?t" using frame old by (auto simp: staged_def framed_def)
  moreover obtain r d1 where rep: "replaceContents root (staging_of root s) managedSnapshotEntries None None d = (r, d1)" by fastforce
  ultimately have "either (\<lambda>_ _. False) (\<lambda>r t. case r of ReplacementError _ \<Rightarrow> kept g root old t | _ \<Rightarrow> placed g root ?new t)
      r (dkTree d1)"
    using outcomeD [OF replace_outcome rep] by blast
  moreover have "d' = d1 \<and> (res = (case r of Inl e \<Rightarrow> Inl e | Inr Replaced \<Rightarrow> Inr () | Inr (CommittedReplacementCleanupError e) \<Rightarrow> Inl e
      | Inr (ReplacementError e) \<Rightarrow> Inl e))"
    using run rep by (auto simp: replaceSnapshotContents_def bnd_def ret_def fail_def split: sum.splits replacement_result.splits)
  ultimately have "placed g root ?new (dkTree d') \<or> (\<exists>e. res = Inl e) \<and> kept g root old (dkTree d')"
    by (auto simp: either_def split: sum.splits replacement_result.splits)
  then show ?thesis using staged_view [OF snap] by blast
qed

section \<open>Staging touches nothing else\<close>

definition below_stable :: "path \<Rightarrow> (string tree \<Rightarrow> bool) \<Rightarrow> bool" where
  "below_stable S J =
    (\<forall>t p q n made. J t \<longrightarrow>
       J (made_dirs (S @ q) made t) \<and> J (put_node (S @ q) n t) \<and> J (removed (S @ q) t) \<and> J (moved (S @ p) (S @ q) t))"

lemma below_stableD:
  assumes "below_stable S J" "J t"
  shows "J (made_dirs (S @ q) made t)" "J (put_node (S @ q) n t)" "J (removed (S @ q) t)" "J (moved (S @ p) (S @ q) t)"
  using assms unfolding below_stable_def by blast+

lemma keeps_create_suffixed:
  assumes "below_stable S J"
  shows "outcome J (create_temp_suffixed (S @ q) stem suf) (either (\<lambda>_. J) (\<lambda>tmp t. (\<exists>p. tmp = S @ p) \<and> J t))"
proof (rule outcomeI)
  fix d :: files assume "J (dkTree d)"
  then show "either (\<lambda>_. J) (\<lambda>tmp t. (\<exists>p. tmp = S @ p) \<and> J t) (fst (create_temp_suffixed (S @ q) stem suf d))
      (dkTree (snd (create_temp_suffixed (S @ q) stem suf d)))"
    using below_stableD(2) [OF assms, of _ "q @ [_]"]
    by (auto simp: create_temp_suffixed_def create_in_def disk_call_def Let_def unchanged_def find_Some_iff
        split: option.splits prod.splits sum.splits node.splits)
qed

lemma keeps_writeFile_below:
  assumes "below_stable S J" "q \<noteq> []"
  shows "keeps (on_tree J) (writeFile (S @ q) c)"
proof -
  note J = below_stableD [OF assms(1)]
  have dir: "butlast (S @ q) = S @ butlast q" using assms(2) by (simp add: butlast_append)
  have rest: "keeps (on_tree J) (sq (fill_snapshot_temp (S @ p) (S @ q) c) (sq disk_plain (syncDir (S @ butlast q))))" for p
    unfolding fill_snapshot_temp_def closing_after_def by (intro keep_intros J)
  have "outcome J (bnd (create_temp_suffixed (S @ butlast q) ''.snapshot-'' ''.tmp'') (\<lambda>tmp.
      sq (fill_snapshot_temp tmp (S @ q) c) (sq disk_plain (syncDir (S @ butlast q))))) (\<lambda>_. J)"
  proof (rule outcome_bnd)
    show "outcome J (create_temp_suffixed (S @ butlast q) ''.snapshot-'' ''.tmp'') (either (\<lambda>_. J) (\<lambda>tmp t. (\<exists>p. tmp = S @ p) \<and> J t))"
      by (rule keeps_create_suffixed [OF assms(1)])
    fix tmp
    show "outcome (\<lambda>t. (\<exists>p. tmp = S @ p) \<and> J t)
        (sq (fill_snapshot_temp tmp (S @ q) c) (sq disk_plain (syncDir (S @ butlast q)))) (\<lambda>_. J)"
      by (intro outcome_pure) (use rest outcome_keeps in blast)
  qed
  then have "keeps (on_tree J) (bnd (create_temp_suffixed (S @ butlast q) ''.snapshot-'' ''.tmp'') (\<lambda>tmp.
      sq (fill_snapshot_temp tmp (S @ q) c) (sq disk_plain (syncDir (S @ butlast q)))))"
    by (simp add: outcome_def keeps_def)
  then show ?thesis unfolding writeFile_def dir by (rule keeps_sq [rotated]) (intro keeps_mkdir_all J(1))
qed

lemma keeps_contents_below:
  assumes "below_stable S J"
  shows "keeps (on_tree J) (writeSnapshotContents S s)"
proof -
  note J = below_stableD [OF assms] and w = keeps_writeFile_below [OF assms]
  have opt: "keeps (on_tree J) (write_optional m (S @ q) c)" if "q \<noteq> []" for m q c
    unfolding write_optional_def by (intro keep_intros w that)
  have reg: "keeps (on_tree J) (wrap m (writeRegistryFile (S @ q) es))" if "q \<noteq> []" for m q es
    unfolding writeRegistryFile_def by (intro keep_intros w that)
  have tm: "keeps (on_tree J) (write_template (S @ [''templates'']) x)" for x
    unfolding write_template_def append_assoc by (intro keep_intros w) simp
  have fg: "keeps (on_tree J) (write_figure (S @ q) f)" for q f
    unfolding write_figure_def append_assoc by (intro keep_intros w) simp
  have rc: "keeps (on_tree J) (write_record (S @ [''records'']) r)" for r
    unfolding write_record_def Let_def append_assoc by (intro keep_intros w opt fg J) simp_all
  have raw: "keeps (on_tree J) (write_raw_source (S @ q) c)" for q c
    unfolding write_raw_source_def append_assoc by (intro keep_intros w) simp
  have ch: "keeps (on_tree J) (write_chat (S @ [''chats'']) c)" for c
    unfolding write_chat_def Let_def append_assoc by (intro keep_intros w raw J) simp_all
  show ?thesis
    unfolding writeSnapshotContents_def Let_def append_assoc by (intro keep_intros w tm rc ch reg J) simp_all
qed

lemma made_root:
  assumes "tidy (dkTree d)" "mkdir_all root d = (Inr u, d')"
  shows "tidy (dkTree d') \<and> at (dkTree d') root = Some Dir"
proof -
  have run: "\<not> below_file (dkTree d) root" "\<not> is_file_at (dkTree d) root" "dkTree d' = made_dirs root (\<lambda>_. True) (dkTree d)"
    using assms(2) by (auto simp: mkdir_all_def disk_call_def Let_def split: if_splits option.splits)
  then show ?thesis
    using tidy_made [OF assms(1) run(1,2)] by (auto simp: is_file_at_def split: option.splits node.splits)
qed

lemma made_staging:
  assumes "tidy (dkTree d)" "at (dkTree d) root = Some Dir" "create_in Dir root ''.snapshot-staging-'' d = (Inr st, d')"
  shows "\<exists>x. st = staging_of root x \<and> snap st {([], Dir)} (dkTree d')"
proof -
  obtain x where st: "st = staging_of root x" "at (dkTree d) st = None" "dkTree d' = put_node st Dir (dkTree d)"
    using assms(3)
    by (auto simp: staging_of_def create_in_def disk_call_def Let_def find_Some_iff
        split: prod.splits if_splits option.splits sum.splits node.splits)
  have "tidy (dkTree d')" unfolding st(3) using assms(1,2) st(1,2) by (intro tidy_put) (auto simp: staging_of_def)
  then show ?thesis using st tidy_below_none [OF assms(1) st(2)] by (auto simp: snap_def)
qed

section \<open>How an export ends\<close>

text \<open>Outside the export's own entries only the way to the root may have been made.\<close>

definition outside_unchanged :: "path \<Rightarrow> string tree \<Rightarrow> string tree \<Rightarrow> bool" where
  "outside_unchanged root t u =
    (\<forall>r. own root r \<or> at u r = at t r \<or> at t r = None \<and> prefix r root \<and> at u r = Some Dir)"

definition old_kept :: "path \<Rightarrow> string tree \<Rightarrow> string tree \<Rightarrow> bool" where
  "old_kept root t u =
    (\<exists>b. \<forall>e\<in>set managedSnapshotEntries.
       at t (root @ e) = None \<or> view u (root @ e) = view t (root @ e) \<or> view u (backup_of root b @ e) = view t (root @ e))"

lemma old_kept_refl: "(\<And>e. e \<in> set managedSnapshotEntries \<Longrightarrow> view u (root @ e) = view t (root @ e)) \<Longrightarrow> old_kept root t u"
  by (auto simp: old_kept_def)

lemma below_staging:
  "below_stable (staging_of root s)
    (\<lambda>t. framed g root t \<and> (\<forall>e\<in>set managedSnapshotEntries. view t (root @ e) = old e))"
  unfolding below_stable_def
proof (intro allI impI)
  fix t p q and n :: "string node" and made
  let ?S = "staging_of root s"
  assume t: "framed g root t \<and> (\<forall>e\<in>set managedSnapshotEntries. view t (root @ e) = old e)"
  have mine: "own root ((?S @ q) @ r)" for q r using own_places(2) [of root s "q @ r"] by simp
  note steps = framed_steps [OF conjunct1 [OF t] mine]
  have off: "\<not> prefix (?S @ q) r" if "e \<in> set managedSnapshotEntries" "prefix (root @ e) r" for q e r
    using managed_apart(1) [OF that(1), of root s q] that(2) by (auto simp: parallel_def dest: prefix_same_cases)
  have "view (made_dirs (?S @ q) made t) (root @ e) = old e" "view (put_node (?S @ q) n t) (root @ e) = old e"
    "view (removed (?S @ q) t) (root @ e) = old e" "view (moved (?S @ p) (?S @ q) t) (root @ e) = old e"
    if e: "e \<in> set managedSnapshotEntries" for e
  proof -
    have same: "view u (root @ e) = old e" if "\<And>r. prefix (root @ e) r \<Longrightarrow> at u r = at t r" for u
      using t e view_cong [of "root @ e" u t] that by auto
    have "\<not> prefix r (?S @ q)" if "prefix (root @ e) r" for r
      using managed_apart(1) [OF e, of root s q] prefix_order.trans [OF that] by (auto simp: parallel_def)
    then show "view (made_dirs (?S @ q) made t) (root @ e) = old e" by (intro same) auto
    have ne: "r \<noteq> ?S @ q" if "prefix (root @ e) r" for r using off [OF e that, of q] by auto
    show "view (put_node (?S @ q) n t) (root @ e) = old e" "view (removed (?S @ q) t) (root @ e) = old e"
      "view (moved (?S @ p) (?S @ q) t) (root @ e) = old e"
      using off [OF e] ne by (auto intro!: same simp: at_moved_off)
  qed
  then show "(framed g root (made_dirs (?S @ q) made t) \<and> (\<forall>e\<in>set managedSnapshotEntries. view (made_dirs (?S @ q) made t) (root @ e) = old e)) \<and>
      (framed g root (put_node (?S @ q) n t) \<and> (\<forall>e\<in>set managedSnapshotEntries. view (put_node (?S @ q) n t) (root @ e) = old e)) \<and>
      (framed g root (removed (?S @ q) t) \<and> (\<forall>e\<in>set managedSnapshotEntries. view (removed (?S @ q) t) (root @ e) = old e)) \<and>
      framed g root (moved (?S @ p) (?S @ q) t) \<and> (\<forall>e\<in>set managedSnapshotEntries. view (moved (?S @ p) (?S @ q) t) (root @ e) = old e)"
    using steps(1,2,6) steps(4) [OF mine] by blast
qed

text \<open>The parts of an export after the staging directory has been made.\<close>

lemma staged_end:
  assumes frame: "framed g root (dkTree d)" and old: "\<forall>e\<in>set managedSnapshotEntries. view (dkTree d) (root @ e) = old e"
    and snap: "snap (staging_of root s) {([], Dir)} (dkTree d)" and names: "names_distinct sn"
    and run: "sq (writeSnapshotContents (staging_of root s) sn) (replaceSnapshotContents root (staging_of root s)) d = (res, d')"
  shows "snapshot_named sn \<and> (\<exists>new. placed g root new (dkTree d') \<and> (\<forall>x r n. (new [x] r = Some n) = ((x # r, n) \<in> snapshot_nodes sn))) \<or>
      (\<exists>e. res = Inl e) \<and> kept g root old (dkTree d')"
proof -
  let ?S = "staging_of root s"
  obtain r d1 where wr: "writeSnapshotContents ?S sn d = (r, d1)" by fastforce
  have "framed g root (dkTree d1) \<and> (\<forall>e\<in>set managedSnapshotEntries. view (dkTree d1) (root @ e) = old e)"
    using keepsD [OF keeps_contents_below [OF below_staging [of root s g old], of sn], of d] frame old wr by simp
  then have same: "framed g root (dkTree d1)" "\<forall>e\<in>set managedSnapshotEntries. view (dkTree d1) (root @ e) = old e" by auto
  show ?thesis
  proof (cases r)
    case (Inl e)
    then have "res = Inl e" "d' = d1" using run wr by (auto simp: sq_def)
    then show ?thesis using same by (auto simp: kept_def)
  next
    case (Inr u)
    then have "snapshot_named sn \<and> snap ?S (snapshot_nodes sn) (dkTree d1)"
      using ok_tripleD [OF snap_contents [OF names] snap] wr by auto
    moreover have "replaceSnapshotContents root ?S d1 = (res, d')" using run wr Inr by (auto simp: sq_def)
    ultimately show ?thesis using replaced_end [OF _ same] by blast
  qed
qed

lemma kept_drop:
  assumes "kept g root old t"
  shows "kept g root old (removed (staging_of root s) t)" "kept g root old (partly_removed (staging_of root s) keep t)"
proof -
  obtain b where b: "framed g root t"
      "\<forall>e\<in>set managedSnapshotEntries. old e = gone \<or> view t (root @ e) = old e \<or> view t (backup_of root b @ e) = old e"
    using assms by (auto simp: kept_def)
  have p: "parallel (staging_of root s) (backup_of root b @ e)" for e
    using places_apart(1) [of root s "[]" b e] by simp
  show "kept g root old (removed (staging_of root s) t)" "kept g root old (partly_removed (staging_of root s) keep t)"
    using b framed_steps(2,3) [OF b(1) own_places(2)] managed_apart(2) [of _ root s "[]"] p
    by (auto simp: kept_def intro!: exI [of _ b])
qed

lemma mkdir_all_tree:
  assumes "mkdir_all p d = (r, d')"
  shows "\<exists>made. dkTree d' = made_dirs p made (dkTree d) \<or> dkTree d' = dkTree d"
  using assms by (auto simp: mkdir_all_def disk_call_def Let_def split: if_splits option.splits)

lemma made_outside: "outside_unchanged root t (made_dirs root made t)" "old_kept root t (made_dirs root made t)"
proof -
  have "\<not> prefix (root @ e) root" if "e \<in> set managedSnapshotEntries" for e
    using managed_entry [OF that] below_root [of e root] by auto
  then show "old_kept root t (made_dirs root made t)" by (intro old_kept_refl) simp
qed (auto simp: outside_unchanged_def)

lemma outside_refl: "outside_unchanged root t t" "old_kept root t t"
  by (simp_all add: outside_unchanged_def old_kept_def)

lemma end_of_frame:
  assumes "framed g root u" "g = at (made_dirs root (\<lambda>_. True) t)"
  shows "outside_unchanged root t u"
  using assms made_outside(1) [of root t "\<lambda>_. True"] by (auto simp: outside_unchanged_def framed_def)

lemma write_end:
  assumes "tidy (dkTree d)" "names_distinct s" "Write_snapshot cwd rt s d = (res, d')"
  shows "outside_unchanged (filepath_abs cwd rt) (dkTree d) (dkTree d') \<and>
    (snapshot_named s \<and> exported (filepath_abs cwd rt) s (dkTree d') \<or>
     (\<exists>e. res = Inl e) \<and> old_kept (filepath_abs cwd rt) (dkTree d) (dkTree d'))"
proof (cases "blank rt")
  case True
  then show ?thesis using assms(3) by (auto simp: Write_snapshot_def fail_def outside_unchanged_def old_kept_def)
next
  case False
  let ?root = "filepath_abs cwd rt"
  let ?t = "dkTree d"
  obtain r1 d1 where mk: "mkdir_all ?root d = (r1, d1)" by fastforce
  show ?thesis
  proof (cases r1)
    case (Inl e)
    then have "\<exists>e. res = Inl e" "d' = d1"
      using assms(3) False mk by (auto simp: Write_snapshot_def Let_def sq_def bnd_def wrap_def)
    moreover have "outside_unchanged ?root ?t (dkTree d1) \<and> old_kept ?root ?t (dkTree d1)"
      using mkdir_all_tree [OF mk] made_outside outside_refl by metis
    ultimately show ?thesis by auto
  next
    case (Inr u)
    have d1: "tidy (dkTree d1)" "at (dkTree d1) ?root = Some Dir" using made_root [OF assms(1), of ?root u d1] mk Inr by auto
    have tree: "dkTree d1 = made_dirs ?root (\<lambda>_. True) ?t"
      using mk Inr by (auto simp: mkdir_all_def disk_call_def Let_def split: if_splits option.splits)
    define g where "g = at (dkTree d1)"
    have views: "view (dkTree d1) (?root @ e) = view ?t (?root @ e)" if "e \<in> set managedSnapshotEntries" for e
      using managed_entry [OF that] below_root [of e ?root] unfolding tree by auto
    obtain r2 d2 where cr: "create_in Dir ?root ''.snapshot-staging-'' d1 = (r2, d2)" by fastforce
    show ?thesis
    proof (cases r2)
      case (Inl e)
      then have "\<exists>e. res = Inl e" "d' = d2"
        using assms(3) False mk cr Inr by (auto simp: Write_snapshot_def Let_def sq_def bnd_def wrap_def)
      moreover have "dkTree d2 = dkTree d1"
        using cr Inl by (auto simp: create_in_def disk_call_def Let_def unchanged_def
            split: if_splits option.splits sum.splits node.splits)
      ultimately show ?thesis using made_outside [of ?root ?t] by (simp add: tree)
    next
      case st: (Inr st)
      obtain x where x: "st = staging_of ?root x" "snap st {([], Dir)} (dkTree d2)"
        using made_staging [OF d1] cr st by blast
      have put: "dkTree d2 = put_node st Dir (dkTree d1)"
        using cr st by (auto simp: create_in_def disk_call_def Let_def find_Some_iff
            split: if_splits option.splits sum.splits node.splits)
      have "framed g ?root (dkTree d1)" using tidy_rooted [OF d1] by (simp add: framed_def g_def)
      then have frame: "framed g ?root (dkTree d2)"
        unfolding put x(1) using framed_steps(6) [OF _ own_places(2)] by blast
      have old: "\<forall>e\<in>set managedSnapshotEntries. view (dkTree d2) (?root @ e) = view ?t (?root @ e)"
      proof
        fix e assume e: "e \<in> set managedSnapshotEntries"
        have "view (dkTree d2) (?root @ e) = view (dkTree d1) (?root @ e)"
          using managed_apart(2) [OF e, of ?root x "[]"] by (intro view_cong) (auto simp: put x(1) parallel_def)
        then show "view (dkTree d2) (?root @ e) = view ?t (?root @ e)" using views [OF e] by simp
      qed
      obtain d3 where body: "sq (writeSnapshotContents st s) (replaceSnapshotContents ?root st) d2 = (res, d3)"
          and d': "d' = snd (remove_all st d3)"
        using assms(3) False mk cr Inr st
        by (auto simp: Write_snapshot_def Let_def sq_def bnd_def wrap_def and_then_always_def split: prod.splits sum.splits)
      have drop: "P (dkTree d')" if "P (dkTree d3)" "\<And>t. P t \<Longrightarrow> P (removed st t)" "\<And>t keep. P t \<Longrightarrow> P (partly_removed st keep t)" for P
        using keepsD [OF keeps_remove_all [of P st], of d3] that by (auto simp: d')
      from staged_end [OF frame old x(2) [unfolded x(1)] assms(2) body [unfolded x(1)]]
      show ?thesis
      proof (elim disjE conjE exE)
        fix new assume "snapshot_named s" and there: "placed g ?root new (dkTree d3)"
          and new: "\<forall>x r n. (new [x] r = Some n) = ((x # r, n) \<in> snapshot_nodes s)"
        from there have "placed g ?root new (dkTree d')" by (rule drop [where P = "placed g ?root new"]) (simp_all add: x(1) placed_drop)
        then have "framed g ?root (dkTree d')" "exported ?root s (dkTree d')"
          using new by (simp_all add: placed_def exported_def framed_def)
        moreover have "outside_unchanged ?root ?t (dkTree d')"
          by (rule end_of_frame [OF calculation(1)]) (simp add: g_def tree)
        ultimately show ?thesis using \<open>snapshot_named s\<close> by simp
      next
        fix e assume e: "res = Inl e" and there: "kept g ?root (\<lambda>e. view ?t (?root @ e)) (dkTree d3)"
        from there have "kept g ?root (\<lambda>e. view ?t (?root @ e)) (dkTree d')" by (rule drop [where P = "kept g ?root (\<lambda>e. view ?t (?root @ e))"]) (simp_all add: x(1) kept_drop)
        then have "framed g ?root (dkTree d')" "old_kept ?root ?t (dkTree d')"
          unfolding kept_def old_kept_def view_gone_iff by blast+
        moreover have "outside_unchanged ?root ?t (dkTree d')"
          by (rule end_of_frame [OF calculation(1)]) (simp add: g_def tree)
        ultimately show ?thesis using e by simp
      qed
    qed
  qed
qed

end
