(* ===== verification/Snapshot_Files_Props.thy ===== *)
theory Snapshot_Files_Props
  imports Snapshot_Files
begin

text \<open>The files of a git export read back: times with their nanoseconds, registries, the metadata of records and chats,
  and the items of a chat.\<close>

section \<open>Times\<close>

lemma decimal_value_zeros: "decimal_value (s @ replicate k (CHR ''0'')) = decimal_value s * 10 ^ k"
proof (induction k arbitrary: s)
  case (Suc k)
  from Suc [of "s @ ''0''"] show ?case by (simp add: decimal_value_def)
qed simp

lemma nano_fraction_parse:
  assumes "0 \<le> n" "n < 1000000000"
  shows "any_fraction (nano_fraction n @ ''Z'') = Some (n, ''Z'')"
proof (cases "n = 0")
  case True
  then show ?thesis by (simp add: nano_fraction_def any_fraction_def)
next
  case False
  let ?z = "\<lambda>c. c = CHR ''0''"
  define ds where "ds = rev (dropWhile ?z (rev (digits 9 n)))"
  define k where "k = length (takeWhile ?z (rev (digits 9 n)))"
  have "takeWhile ?z (rev (digits 9 n)) = replicate k (CHR ''0'')"
    unfolding k_def by (metis (full_types) replicate_length_same set_takeWhileD)
  then have split: "digits 9 n = ds @ replicate k (CHR ''0'')"
    unfolding ds_def by (metis rev_append rev_replicate rev_rev_ident takeWhile_dropWhile_id)
  have "length ds + k = 9" using arg_cong [OF split, of length] by simp
  then have k: "k = 9 - length ds" "length ds \<le> 9" by simp_all
  have dec: "list_all decimal ds"
    using digits_decimal [of 9 n] by (simp add: split)
  have val: "int (decimal_value ds * 10 ^ k) = n"
    using decimal_value_digits [of n 9] assms by (simp add: split decimal_value_zeros)
  have ne: "ds \<noteq> []" using False val by (auto simp: decimal_value_def)
  obtain d r where d: "ds = d # r" "decimal d" using ne dec by (cases ds) auto
  have tw: "takeWhile decimal (ds @ ''Z'') = ds" "dropWhile decimal (ds @ ''Z'') = ''Z''"
    using dec by (auto simp: list_all_iff takeWhile_append dropWhile_append decimal_def)
  have "\<not> prefix ''-'' ds" "\<not> prefix ''+'' ds" using d by (auto simp: prefix_def decimal_def)
  then have "atoi ds = Some (int (decimal_value ds))" using dec by (simp add: atoi_def)
  then have "parseNanoseconds (CHR ''.'' # ds) = Some n"
    using val k by (simp add: parseNanoseconds_def commaOrPeriod_def)
  then show ?thesis
    using tw False unfolding nano_fraction_def ds_def [symmetric] by (simp add: d any_fraction_def commaOrPeriod_def)
qed

definition time_ok :: "time \<Rightarrow> bool" where
  "time_ok t = (0 \<le> t \<and> t < year_10000)"

lemma time_round_trip:
  assumes "time_ok t"
  shows "parse_rfc3339_nano (format_rfc3339_nano t) = Some t"
proof -
  have t: "0 \<le> t" "t < year_10000" using assms by (auto simp: time_ok_def)
  define s where "s = t div 1000000000 mod 86400"
  define h mi se where "h = s div 3600" and "mi = s div 60 mod 60" and "se = s mod 60"
  obtain y m d where c: "civil (t div nanos_per_day) = (y, m, d)" by (cases "civil (t div nanos_per_day)") auto
  note cal = civil_day_number [OF c] and year = civil_year_range [OF c t]
  have dd: "0 \<le> d" "d < 100" using cal date_ok_small by (auto simp: date_ok_def)
  have s: "0 \<le> s" "s < 86400" by (simp_all add: s_def)
  have fields: "0 \<le> h" "h < 24" "0 \<le> mi" "mi < 60" "0 \<le> se" "se < 60"
    using s unfolding h_def mi_def se_def by (simp_all add: pos_imp_zdiv_nonneg_iff div_less_iff_less_mult)
  have canon: "format_rfc3339_nano t = digits 4 y @ CHR ''-'' # digits 2 m @ CHR ''-'' # digits 2 d @ CHR ''T'' #
      digits 2 h @ CHR '':'' # digits 2 mi @ CHR '':'' # digits 2 se @ nano_fraction (t mod 1000000000) @ ''Z''"
    using year unfolding format_rfc3339_nano_def by (simp add: c Let_def s_def h_def mi_def se_def year_text_def)
  have "parse_rfc3339_nano (format_rfc3339_nano t) =
      Some ((day_number y m d * 86400 + (h * 3600 + mi * 60 + se)) * 1000000000 + t mod 1000000000)"
    unfolding parse_rfc3339_nano_def time_parse_def canon
    using parse_date_text [OF year cal(2,3) dd] parse_clock_text [OF fields] cal(4)
      nano_fraction_parse [of "t mod 1000000000"]
    by simp
  also have "h * 3600 + mi * 60 + se = s"
  proof -
    have "h = s div 60 div 60" using zdiv_zmult2_eq [of 60 s 60] by (simp add: h_def)
    moreover have "s div 60 div 60 * 60 + mi = s div 60" unfolding mi_def by (rule div_mult_mod_eq)
    moreover have "s div 60 * 60 + se = s" unfolding se_def by (rule div_mult_mod_eq)
    ultimately show ?thesis by simp
  qed
  also have "(day_number y m d * 86400 + s) * 1000000000 + t mod 1000000000 = t"
  proof -
    have "t div nanos_per_day = t div 1000000000 div 86400"
      using zdiv_zmult2_eq [of 86400 t 1000000000] by (simp add: nanos_per_day_def)
    then show ?thesis
      using div_mult_mod_eq [of "t div 1000000000" 86400] div_mult_mod_eq [of t 1000000000]
      unfolding cal(1) s_def by simp
  qed
  finally show ?thesis .
qed

lemma parse_time_format: "time_ok t \<Longrightarrow> parse_time msg (format_rfc3339_nano t) = Inr t"
  by (simp add: parse_time_def time_round_trip)

section \<open>Names and texts without surprises\<close>

definition lower :: "char \<Rightarrow> bool" where
  "lower c = (c \<in> set ''abcdefghijklmnopqrstuvwxyz_0123456789'')"

lemma name_ascii: "lower c \<Longrightarrow> byte c < 0x80 \<and> fold_case [c] = [c] \<and> c \<noteq> CHR 0xC5 \<and> c \<noteq> CHR 0xE2"
proof -
  have "list_all (\<lambda>c. byte c < 0x80 \<and> fold_case [c] = [c] \<and> c \<noteq> CHR 0xC5 \<and> c \<noteq> CHR 0xE2)
      ''abcdefghijklmnopqrstuvwxyz_0123456789''"
    by code_simp
  then show "lower c \<Longrightarrow> ?thesis" unfolding lower_def list_all_iff by blast
qed

lemma lower_name:
  assumes "list_all lower k"
  shows "utf8_clean k = k" "fold_name k = k"
proof -
  have "list_all (\<lambda>c. byte c < 0x80) k" using assms name_ascii by (auto simp: list_all_iff)
  then show "utf8_clean k = k" by (intro utf8_clean_valid utf8_valid_ascii)
  have case_all: "list_all lower s \<Longrightarrow> fold_case s = s" for s
  proof (induction s)
    case (Cons c s)
    then show ?case using name_ascii [of c] by (simp add: fold_case_def)
  qed (simp add: fold_case_def)
  show "fold_name k = k"
    using assms
  proof (induction k rule: fold_name.induct)
    case (1 a b c s)
    then show ?case using name_ascii [of a] by auto
  qed (auto simp: case_all dest: name_ascii)
qed

lemma plain_namesI: "distinct ks \<Longrightarrow> list_all (list_all lower) ks \<Longrightarrow> plain_names ks"
  using lower_name by (auto simp: plain_names_def list_all_iff)

lemma format_ascii:
  assumes "time_ok t"
  shows "utf8_clean (format_rfc3339_nano t) = format_rfc3339_nano t"
proof (rule utf8_clean_valid, rule utf8_valid_ascii)
  have dec: "byte c < 0x80" if "decimal c" for c
    using that by (simp add: decimal_def less_eq_char_def)
  have digs: "list_all (\<lambda>c. byte c < 0x80) (digits k n)" for k n
    using digits_decimal [of k n] dec by (auto simp: list_all_iff)
  have frac: "list_all (\<lambda>c. byte c < 0x80) (nano_fraction n)" for n
    using digs [of 9 n] by (auto simp: nano_fraction_def list_all_iff dest!: set_dropWhileD)
  obtain y m d where c: "civil (t div nanos_per_day) = (y, m, d)" by (cases "civil (t div nanos_per_day)") auto
  have "0 \<le> y \<and> y < 10000" using civil_year_range [OF c] assms by (auto simp: time_ok_def)
  then show "list_all (\<lambda>c. byte c < 0x80) (format_rfc3339_nano t)"
    unfolding format_rfc3339_nano_def by (simp add: c Let_def year_text_def digs frac)
qed

section \<open>Registries\<close>

definition registry_ok :: "RegistryExport \<Rightarrow> bool" where
  "registry_ok e =
    (\<not> blank (geID e) \<and> utf8_valid (geID e) \<and> \<not> is_zero (geCreatedAt e) \<and> \<not> is_zero (geUpdatedAt e) \<and>
     time_ok (geCreatedAt e) \<and> time_ok (geUpdatedAt e) \<and>
     (case geArchivedAt e of None \<Rightarrow> True | Some t \<Rightarrow> time_ok t))"

definition entry_struct :: "RegistryExport \<Rightarrow> struct" where
  "entry_struct e =
    registry_struct (geID e) (format_rfc3339_nano (geCreatedAt e)) (format_rfc3339_nano (geUpdatedAt e))
      (map_option format_rfc3339_nano (geArchivedAt e))"

lemma map_result_ok: "(\<And>x. x \<in> set xs \<Longrightarrow> f x = Inr (g x)) \<Longrightarrow> map_result f xs = Inr (List.map g xs)"
  by (induction xs) auto

lemma entry_struct_ok:
  "struct_ok (entry_struct e)"
  "List.map (\<lambda>m. (fst m, zero_field (snd m))) (entry_struct e) = registry_struct [] [] [] None"
  by (simp_all add: entry_struct_def registry_struct_def struct_ok_def lower_def plain_namesI)

lemma entry_struct_clean: "registry_ok e \<Longrightarrow> List.map (\<lambda>m. (fst m, clean_field (snd m))) (entry_struct e) = entry_struct e"
  by (auto simp: entry_struct_def registry_struct_def registry_ok_def format_ascii utf8_clean_valid option.map_comp
      split: option.splits)

lemma entry_read:
  assumes "registry_ok e" "geID e \<notin> set seen"
  shows "read_registry_entry (entry_struct e) (seen, es) = Inr (geID e # seen, es @ [e])"
  using assms
  by (cases e) (auto simp: read_registry_entry_def entry_struct_def registry_struct_def registry_ok_def string_at_def opt_at_def
      if_ok_def guard_def parse_time_format split: option.splits)

lemma entries_read:
  assumes "list_all registry_ok es" "distinct (List.map geID es)" "set seen \<inter> geID ` set es = {}"
  shows "\<exists>seen'. each_result read_registry_entry (List.map entry_struct es) (seen, acc) = Inr (seen', acc @ es)"
  using assms
proof (induction es arbitrary: seen acc)
  case (Cons e es)
  then have "read_registry_entry (entry_struct e) (seen, acc) = Inr (geID e # seen, acc @ [e])"
    by (intro entry_read) auto
  moreover obtain seen' where "each_result read_registry_entry (List.map entry_struct es) (geID e # seen, acc @ [e]) =
      Inr (seen', (acc @ [e]) @ es)"
    using Cons.IH [of "geID e # seen" "acc @ [e]"] Cons.prems by auto
  ultimately show ?case by simp
qed simp

lemma registry_round_trip:
  assumes "list_all registry_ok es" "distinct (List.map geID es)"
  shows "\<exists>content. registry_text es = Inr content \<and> parse_registry content = Inr (sort_key geID es)"
proof -
  let ?es = "sort_key geID es"
  have ok: "list_all registry_ok ?es" using assms(1) by (simp add: list_all_iff)
  have dist: "distinct (List.map geID ?es)"
    using assms(2) by (metis distinct_map distinct_sort set_sort)
  have entries: "map_result registry_entry ?es = Inr (List.map entry_struct ?es)"
    using ok by (intro map_result_ok) (auto simp: list_all_iff registry_entry_def entry_struct_def registry_ok_def)
  define content where "content = marshal_indent (JArray (List.map (struct_json [''archived_at'']) (List.map entry_struct ?es))) @ [CHR 0x0A]"
  have "unmarshal_structs (registry_struct [] [] [] None) content =
      Inr (List.map (\<lambda>s. List.map (\<lambda>m. (fst m, clean_field (snd m))) s) (List.map entry_struct ?es))"
    unfolding content_def marshal_indent_def by (rule unmarshal_printed_slice) (auto simp: entry_struct_ok)
  also have "List.map (\<lambda>s. List.map (\<lambda>m. (fst m, clean_field (snd m))) s) (List.map entry_struct ?es) = List.map entry_struct ?es"
    using ok entry_struct_clean by (simp add: list_all_iff)
  finally have read: "unmarshal_structs (registry_struct [] [] [] None) content = Inr (List.map entry_struct ?es)" .
  obtain seen where "each_result read_registry_entry (List.map entry_struct ?es) ([], []) = Inr (seen, ?es)"
    using entries_read [OF ok dist, of "[]" "[]"] by auto
  then have "parse_registry content = Inr (sort_key geID ?es)" unfolding parse_registry_def read by simp
  then show ?thesis
    using entries by (auto simp: registry_text_def content_def sort_key_id_if_sorted)
qed

section \<open>Records\<close>

definition opt_valid :: "string option \<Rightarrow> bool" where
  "opt_valid s = (case s of None \<Rightarrow> True | Some t \<Rightarrow> utf8_valid t)"

lemma opt_clean [simp]: "opt_valid s \<Longrightarrow> map_option utf8_clean s = s"
  by (simp add: opt_valid_def utf8_clean_valid split: option.splits)

definition size_ok :: "int \<Rightarrow> bool" where
  "size_ok n = (- (2 ^ 63) \<le> n \<and> n < 2 ^ 63)"

definition figure_ok :: "FigureExport \<Rightarrow> bool" where
  "figure_ok f = (utf8_valid (feFilename f) \<and> utf8_valid (feS3Key f) \<and> opt_valid (feAltText f))"

definition data_file_ok :: "DataFileExport \<Rightarrow> bool" where
  "data_file_ok f =
    (utf8_valid (deFilename f) \<and> utf8_valid (deS3Key f) \<and> utf8_valid (deHash f) \<and> opt_valid (deDescription f) \<and>
     size_ok (deSize f))"

definition record_ok :: "RecordExport \<Rightarrow> bool" where
  "record_ok r =
    (list_all utf8_valid [reID r, reDate r, reDayOrder r, reProjectID r, reSourceDeviceID r] \<and>
     list_all opt_valid [reSourceRef r, reGitRemoteURL r, reGitHash r] \<and>
     \<not> blank (reProjectID r) \<and> \<not> blank (reSourceDeviceID r) \<and>
     list_all figure_ok (reFigures r) \<and> list_all data_file_ok (reDataFiles r) \<and>
     time_ok (reCreatedAt r) \<and> time_ok (reUpdatedAt r))"

definition without_bytes :: "FigureExport \<Rightarrow> FigureExport" where
  "without_bytes f = f \<lparr> feContent := [] \<rparr>"

lemma figure_struct_ok:
  "flat_ok (figure_struct f)" "zero_flat (figure_struct f) = [(''filename'', VString []), (''s3_key'', VString []), (''alt_text'', VOpt None)]"
  "figure_ok f \<Longrightarrow> clean_flat (figure_struct f) = figure_struct f"
  by (simp_all add: figure_struct_def flat_ok_def zero_flat_def clean_flat_def figure_ok_def lower_def plain_namesI utf8_clean_valid)

lemma data_file_struct_ok:
  "data_file_ok f \<Longrightarrow> flat_ok (data_file_struct f)"
  "zero_flat (data_file_struct f) = [(''filename'', VString []), (''s3_key'', VString []), (''size'', VInt 0),
     (''hash'', VString []), (''description'', VOpt None)]"
  "data_file_ok f \<Longrightarrow> clean_flat (data_file_struct f) = data_file_struct f"
  by (simp_all add: data_file_struct_def flat_ok_def zero_flat_def clean_flat_def data_file_ok_def size_ok_def lower_def
      plain_namesI utf8_clean_valid)

lemma figure_read: "metadata_figure (List.map (\<lambda>m. (fst m, Scalar (snd m))) (figure_struct f)) = without_bytes f"
  by (simp add: metadata_figure_def figure_struct_def string_at_def opt_at_def without_bytes_def)

lemma data_file_read: "metadata_data_file (List.map (\<lambda>m. (fst m, Scalar (snd m))) (data_file_struct f)) = f"
  by (simp add: metadata_data_file_def data_file_struct_def string_at_def opt_at_def int_at_def)

lemma record_struct_ok:
  assumes "record_ok r"
  shows "struct_ok (record_struct r)"
    "List.map (\<lambda>m. (fst m, zero_field (snd m))) (record_struct r) = metadata_struct 0 [] [] [] [] [] None None None False [] [] [] []"
    "List.map (\<lambda>m. (fst m, clean_field (snd m))) (record_struct r) = record_struct r"
  using assms
  by (simp_all add: record_struct_def metadata_struct_def struct_ok_def record_ok_def list_all_iff figure_struct_ok
      data_file_struct_ok FormatVersion_def lower_def plain_namesI utf8_clean_valid format_ascii)

lemma record_metadata_round_trip:
  assumes "record_ok r"
  shows "parse_record_metadata (reID r) (record_metadata_text r) =
    Inr (r \<lparr> reHTMLContent := None, reNotes := None,
      reFigures := List.map without_bytes (sort_key feFilename (reFigures r)),
      reDataFiles := sort_key deFilename (reDataFiles r) \<rparr>, reNotes r \<noteq> None)"
proof -
  have "unmarshal_struct (metadata_struct 0 [] [] [] [] [] None None None False [] [] [] []) (record_metadata_text r) =
      Inr (record_struct r)"
    unfolding record_metadata_text_def marshal_indent_def
    using unmarshal_printed [OF record_struct_ok(1) [OF assms] record_struct_ok(2) [OF assms, symmetric]]
      record_struct_ok(3) [OF assms] by simp
  then show ?thesis
    using assms
    by (cases r)
       (simp add: parse_record_metadata_def if_ok_def guard_def record_struct_def metadata_struct_def string_at_def opt_at_def
         int_at_def bool_at_def rows_at_def record_ok_def parse_time_format comp_def figure_read data_file_read)
qed

section \<open>Chats\<close>

definition chat_ok :: "ChatExport \<Rightarrow> bool" where
  "chat_ok c =
    (list_all utf8_valid [ceID c, ceSource c, ceSourceSessionID c, ceSourceDeviceID c] \<and>
     list_all opt_valid [ceParentSourceSessionID c, ceProjectID c, ceCWD c, ceTitle c, ceOriginalSourcePath c, ceRawSourceKey c] \<and>
     list_all time_ok [ceStartedAt c, ceLastActivityAt c, ceCreatedAt c, ceUpdatedAt c])"

lemma chat_struct_ok:
  assumes "chat_ok c"
  shows "struct_ok (chat_struct c)"
    "List.map (\<lambda>m. (fst m, zero_field (snd m))) (chat_struct c) =
      chat_metadata_struct 0 [] [] [] None [] None None None [] [] None None None [] []"
    "List.map (\<lambda>m. (fst m, clean_field (snd m))) (chat_struct c) = chat_struct c"
  using assms
  by (simp_all add: chat_struct_def chat_metadata_struct_def struct_ok_def chat_ok_def ChatFormatVersion_def lower_def
      plain_namesI utf8_clean_valid format_ascii)

lemma chat_metadata_round_trip:
  assumes "chat_ok c"
  shows "parse_chat_metadata (ceID c) (chat_metadata_text c) = Inr (c \<lparr> ceRawSourceContent := [], ceItems := [] \<rparr>)"
proof -
  have "unmarshal_struct (chat_metadata_struct 0 [] [] [] None [] None None None [] [] None None None [] []) (chat_metadata_text c) =
      Inr (chat_struct c)"
    unfolding chat_metadata_text_def marshal_indent_def
    using unmarshal_printed [OF chat_struct_ok(1) [OF assms] chat_struct_ok(2) [OF assms, symmetric]]
      chat_struct_ok(3) [OF assms] by simp
  then show ?thesis
    using assms
    by (cases c)
       (simp add: parse_chat_metadata_def if_ok_def guard_def chat_struct_def chat_metadata_struct_def string_at_def opt_at_def
         int_at_def chat_ok_def parse_time_format)
qed

section \<open>The items of a chat\<close>

text \<open>A compact text has no line break.\<close>

lemma hex4_of_solid: "CHR 0x0A \<notin> set (hex4_of n)"
proof -
  have "list_all (\<lambda>k. ''0123456789abcdef'' ! k \<noteq> CHR 0x0A) [0..<16]" by code_simp
  then have "\<forall>k<16. ''0123456789abcdef'' ! k \<noteq> CHR 0x0A" unfolding list_all_iff by auto
  then have "CHR 0x0A \<noteq> ''0123456789abcdef'' ! (k mod 16)" for k by (metis mod_less_divisor zero_less_numeral)
  then show ?thesis by (simp add: hex4_of_def)
qed

lemma escape_byte_solid: "CHR 0x0A \<notin> set (escape_byte c)"
  using hex4_of_solid [of "byte c"] by (simp add: escape_byte_def)

lemma rune_solid:
  assumes "rune_len (c # s) \<noteq> 0" "\<not> byte c < 0x80"
  shows "CHR 0x0A \<notin> set (take (rune_len (c # s)) (c # s))"
proof -
  let ?k = "rune_size (byte c)"
  have k: "rune_len (c # s) = ?k" and tail: "rune_tail_ok (byte c) (take (?k - 1) s)"
    using assms(1) by (auto simp: rune_len.simps Let_def split: if_splits)
  have "byte x \<noteq> 10" if "x \<in> set (take (?k - 1) s)" for x
    using tail that by (cases "take (?k - 1) s")
      (auto simp: rune_tail_ok_def second_ok_def continues_def list_all_iff split: if_splits)
  then have "CHR 0x0A \<notin> set (take (?k - 1) s)" by fastforce
  moreover have "c \<noteq> CHR 0x0A" using assms(2) by auto
  ultimately show ?thesis unfolding k by (cases ?k) auto
qed

lemma json_escape_solid: "CHR 0x0A \<notin> set (json_escape s)"
proof (induction s rule: json_escape.induct)
  case (2 c s)
  let ?k = "rune_len (c # s)"
  consider "?k = 0" | "?k \<noteq> 0" "byte c < 0x80" | "?k \<noteq> 0" "\<not> byte c < 0x80" by blast
  then show ?case
  proof cases
    case 1
    then show ?thesis using 2(1) [OF refl] hex4_of_solid by (simp add: json_escape.simps(2))
  next
    case 2
    then show ?thesis using "2.IH"(2) [OF refl] escape_byte_solid by (simp add: json_escape.simps(2))
  next
    case 3
    then show ?thesis
      using "2.IH"(3-5) [OF refl] hex4_of_solid rune_solid [OF 3]
      by (auto simp: json_escape.simps(2) Let_def simp del: take_Suc_Cons)
  qed
qed simp

lemma int_text_solid: "CHR 0x0A \<notin> set (int_text i)"
proof -
  have "CHR 0x0A \<notin> set (nat_text n)" for n
    using nat_text_decimal [of n] not_decimal(9) unfolding list_all_iff by blast
  then show ?thesis by (simp add: int_text_def)
qed

lemma print_solid:
  "CHR 0x0A \<notin> set (print_json False n (scalar_json x))"
  by (cases x rule: scalar_json.cases) (auto simp: json_string_def json_escape_solid int_text_solid)

lemma members_solid:
  "(\<And>k v. (k, v) \<in> set ms \<Longrightarrow> CHR 0x0A \<notin> set (print_json False n v)) \<Longrightarrow> CHR 0x0A \<notin> set (print_members False n ms)"
proof (induction ms)
  case (Cons m ms)
  obtain k v where m: "m = (k, v)" by fastforce
  have "CHR 0x0A \<notin> set (print_json False n v)" by (rule Cons.prems [of k v]) (simp add: m)
  moreover have "CHR 0x0A \<notin> set (print_members False n ms)" using Cons.prems by (intro Cons.IH) auto
  ultimately show ?case by (simp add: m json_string_def json_escape_solid line_break_def)
qed simp

definition item_json :: "ChatItemExport \<Rightarrow> json" where
  "item_json i =
    struct_json [''text'', ''raw_json'']
      (item_struct (ieOrdinal i) (ieRole i) (ieItemType i) (ieText i) (ieSearchText i) (ieRawJSON i)
        (format_rfc3339_nano (ieCreatedAt i)))"

lemma item_line_json: "item_line i = marshal (item_json i) @ [CHR 0x0A]"
  by (simp add: item_line_def item_json_def)

lemma item_text_shape:
  "\<exists>u. marshal (item_json i) = CHR ''{'' # u @ ''}'' \<and> CHR 0x0A \<notin> set u"
proof -
  define s where "s = item_struct (ieOrdinal i) (ieRole i) (ieItemType i) (ieText i) (ieSearchText i) (ieRawJSON i)
      (format_rfc3339_nano (ieCreatedAt i))"
  define kept where "kept = filter (\<lambda>m. \<not> (fst m \<in> set [''text'', ''raw_json''] \<and> snd m = Scalar (VOpt None))) s"
  define ms where "ms = List.map (\<lambda>m. (fst m, field_json (snd m))) kept"
  have ms: "item_json i = JObject ms"
    by (simp only: item_json_def struct_json_def ms_def kept_def s_def)
  have "(''ordinal'', Scalar (VInt (ieOrdinal i))) \<in> set kept" by (simp add: kept_def s_def item_struct_def)
  then have ne: "ms \<noteq> []" by (auto simp: ms_def)
  have "\<exists>x. f = Scalar x" if "(k, f) \<in> set s" for k f
    using that by (auto simp: s_def item_struct_def)
  then have vs: "\<exists>x. v = scalar_json x" if "(k, v) \<in> set ms" for k v
    using that by (fastforce simp: ms_def kept_def)
  have "CHR 0x0A \<notin> set (print_members False 1 ms)"
    using vs print_solid by (intro members_solid) blast
  then show ?thesis using ms ne by (simp add: marshal_def line_break_def)
qed

lemma prefix_hd: "prefix q (c # w) \<Longrightarrow> q \<noteq> [] \<Longrightarrow> hd q = c"
  by (cases q) auto

lemma not_starting: "list_all (\<lambda>q. hd q \<noteq> c) qs \<Longrightarrow> \<not> starts_with_seq qs (c # w)"
proof
  assume all: "list_all (\<lambda>q. hd q \<noteq> c) qs" and "starts_with_seq qs (c # w)"
  then obtain q where "q \<in> set qs" "q \<noteq> []" "prefix q (c # w)" by (auto simp: starts_with_seq_def)
  then have "hd q = c" by (metis prefix_hd)
  with all \<open>q \<in> set qs\<close> show False by (simp add: list_all_iff)
qed

lemma braced_trimmed: "trim_space (CHR ''{'' # u @ ''}'') = CHR ''{'' # u @ ''}''"
proof -
  have "list_all (\<lambda>q. hd q \<noteq> CHR ''{'') space_seqs" "list_all (\<lambda>q. hd q \<noteq> CHR ''}'') (List.map rev space_seqs)"
    by code_simp+
  then have "\<not> starts_with_seq space_seqs (CHR ''{'' # u @ ''}'')"
    "\<not> starts_with_seq (List.map rev space_seqs) (CHR ''}'' # rev u @ ''{'')"
    by (simp_all add: not_starting)
  then show ?thesis by (simp add: trim_space_def strip_seqs_id)
qed

definition item_ok :: "ChatItemExport \<Rightarrow> bool" where
  "item_ok i =
    (list_all utf8_valid [ieRole i, ieItemType i, ieSearchText i] \<and> list_all opt_valid [ieText i, ieRawJSON i] \<and>
     size_ok (ieOrdinal i) \<and> time_ok (ieCreatedAt i) \<and> length (marshal (item_json i)) < maxJSONLLineBytes)"

lemma item_line_read:
  assumes "item_ok i" "ieOrdinal i \<notin> ieOrdinal ` set items"
  shows "read_item_line (marshal (item_json i)) items = Inr (items @ [i])"
proof -
  let ?s = "item_struct (ieOrdinal i) (ieRole i) (ieItemType i) (ieText i) (ieSearchText i) (ieRawJSON i)
      (format_rfc3339_nano (ieCreatedAt i))"
  obtain u where u: "marshal (item_json i) = CHR ''{'' # u @ ''}''" using item_text_shape by blast
  have "struct_ok ?s" "item_struct 0 [] [] None [] None [] = List.map (\<lambda>m. (fst m, zero_field (snd m))) ?s"
    using assms(1) by (simp_all add: item_struct_def struct_ok_def item_ok_def size_ok_def lower_def plain_namesI)
  then have "unmarshal_struct (item_struct 0 [] [] None [] None []) (marshal (item_json i)) =
      Inr (List.map (\<lambda>m. (fst m, clean_field (snd m))) ?s)"
    using unmarshal_printed [of ?s _ "[]" False 0] by (simp add: marshal_def item_json_def)
  also have "List.map (\<lambda>m. (fst m, clean_field (snd m))) ?s = ?s"
    using assms(1) by (simp add: item_struct_def item_ok_def utf8_clean_valid format_ascii)
  finally have "unmarshal_struct (item_struct 0 [] [] None [] None []) (CHR ''{'' # u @ ''}'') = Inr ?s" by (simp add: u)
  moreover have "\<not> maxJSONLLineBytes \<le> length (CHR ''{'' # u @ ''}'')" "time_ok (ieCreatedAt i)"
    using assms(1) by (simp_all add: item_ok_def u)
  moreover have "\<lparr> ieOrdinal = ieOrdinal i, ieRole = ieRole i, ieItemType = ieItemType i, ieText = ieText i,
      ieSearchText = ieSearchText i, ieRawJSON = ieRawJSON i, ieCreatedAt = ieCreatedAt i \<rparr> = i"
    by simp
  ultimately show ?thesis
    using assms(2) braced_trimmed [of u] unfolding read_item_line_def u
    by (simp add: if_ok_def guard_def wrap_result_def Let_def)
       (simp add: item_struct_def string_at_def opt_at_def int_at_def parse_time_format)
qed

lemma item_lines_read:
  assumes "list_all item_ok js" "distinct (List.map ieOrdinal js)" "ieOrdinal ` set acc \<inter> ieOrdinal ` set js = {}"
  shows "each_result read_item_line (List.map (\<lambda>i. marshal (item_json i)) js) acc = Inr (acc @ js)"
  using assms
proof (induction js arbitrary: acc)
  case (Cons i js)
  then have "read_item_line (marshal (item_json i)) acc = Inr (acc @ [i])"
    by (intro item_line_read) auto
  moreover have "each_result read_item_line (List.map (\<lambda>i. marshal (item_json i)) js) (acc @ [i]) = Inr ((acc @ [i]) @ js)"
    using Cons.prems by (intro Cons.IH) auto
  ultimately show ?case by simp
qed simp

lemma split_lines:
  "list_all (\<lambda>b. CHR 0x0A \<notin> set b) bs \<Longrightarrow> split_at (CHR 0x0A) (concat (List.map (\<lambda>b. b @ [CHR 0x0A]) bs)) = bs @ [[]]"
  by (induction bs) (simp_all add: split_at_append)

lemma each_result_snoc: "each_result f (xs @ [x]) s = (case each_result f xs s of Inl e \<Rightarrow> Inl e | Inr s' \<Rightarrow> f x s')"
  by (induction xs arbitrary: s) (auto split: sum.split)

lemma items_round_trip:
  assumes "list_all item_ok js" "distinct (List.map ieOrdinal js)"
  shows "parse_chat_items (items_text js) = Inr (sort_key ieOrdinal js)"
proof -
  let ?js = "sort_key ieOrdinal js" and ?b = "\<lambda>i. marshal (item_json i)"
  have ok: "list_all item_ok ?js" using assms(1) by (simp add: list_all_iff)
  have dist: "distinct (List.map ieOrdinal ?js)" using assms(2) by (metis distinct_map distinct_sort set_sort)
  have "CHR 0x0A \<notin> set (?b i)" for i using item_text_shape [of i] by auto
  then have "split_at (CHR 0x0A) (items_text js) = List.map ?b ?js @ [[]]"
    unfolding items_text_def item_line_json using split_lines [of "List.map ?b ?js"] by (simp add: list_all_iff comp_def)
  moreover have "each_result read_item_line (List.map ?b ?js) [] = Inr ([] @ ?js)"
    using ok dist by (intro item_lines_read) auto
  moreover have "read_item_line [] ?js = Inr ?js"
  proof -
    have "trim_space [] = []" by code_simp
    then show ?thesis by (simp add: read_item_line_def maxJSONLLineBytes_def)
  qed
  ultimately show ?thesis
    by (simp add: parse_chat_items_def each_result_snoc sort_key_id_if_sorted)
qed

text \<open>The reader has a limit for a line, the writer has none.\<close>

lemma long_item_unreadable:
  assumes "maxJSONLLineBytes \<le> length (marshal (item_json i))"
  shows "parse_chat_items (items_text [i]) = Inl (Wrapped ''scan chat items'' (Plain ''bufio.Scanner: token too long''))"
proof -
  have "CHR 0x0A \<notin> set (marshal (item_json i))" using item_text_shape [of i] by auto
  then have "split_at (CHR 0x0A) (items_text [i]) = [marshal (item_json i), []]"
    using split_lines [of "[marshal (item_json i)]"] by (simp add: items_text_def item_line_json)
  then show ?thesis using assms by (simp add: parse_chat_items_def read_item_line_def)
qed

end
