(* ===== verification/Snapshot_Read.thy ===== *)
theory Snapshot_Read
  imports Snapshot_Export Snapshot_Files_Props Chat_Import_Props
begin

text \<open>Reading the tree of a successful export: \<open>Read\<close> returns the snapshot in its order, or the error of a failing call.\<close>

section \<open>Programs that only read\<close>

definition calm :: "files \<Rightarrow> bool" where
  "calm d = ((\<forall>n. dkFault d n = None) \<and> dkCrash d = None)"

text \<open>\<open>m\<close> leaves the tree alone and returns \<open>v\<close> unless a call fails; \<open>weakly\<close> is the same without the promise for calm disks.\<close>

definition weakly :: "string tree \<Rightarrow> (files, 'a) act \<Rightarrow> 'a \<Rightarrow> bool" where
  "weakly t m v = (\<forall>d. dkTree d = t \<longrightarrow> dkTree (snd (m d)) = t \<and> (fst (m d) = Inr v \<or> (\<exists>e. fst (m d) = Inl e)))"

definition yields :: "string tree \<Rightarrow> (files, 'a) act \<Rightarrow> 'a \<Rightarrow> bool" where
  "yields t m v = (weakly t m v \<and> (\<forall>d. dkTree d = t \<longrightarrow> calm d \<longrightarrow> calm (snd (m d)) \<and> fst (m d) = Inr v))"

lemma weakly_ret: "weakly t (ret v) v" and weakly_fail: "weakly t (fail e) v"
  by (simp_all add: weakly_def ret_def fail_def)

lemma yields_weakly: "yields t m v \<Longrightarrow> weakly t m v"
  by (simp add: yields_def)

lemma yields_ret: "yields t (ret v) v"
  by (simp add: yields_def weakly_ret) (simp add: ret_def)

lemma yields_bnd:
  assumes m: "yields t m a" and f: "yields t (f a) v"
  shows "yields t (bnd m f) v"
  unfolding yields_def weakly_def
proof (intro conjI allI impI)
  fix d :: files assume d: "dkTree d = t"
  obtain r d' where run: "m d = (r, d')" by fastforce
  have m': "dkTree d' = t" "r = Inr a \<or> (\<exists>e. r = Inl e)" "calm d \<Longrightarrow> calm d' \<and> r = Inr a"
    using m d run by (auto simp: yields_def weakly_def)
  show "dkTree (snd (bnd m f d)) = t" "fst (bnd m f d) = Inr v \<or> (\<exists>e. fst (bnd m f d) = Inl e)"
    using m' f run by (auto simp: yields_def weakly_def)
  show "calm (snd (bnd m f d))" "fst (bnd m f d) = Inr v" if "calm d"
    using m' f run that by (auto simp: yields_def)
qed

lemma yields_sq: "yields t m a \<Longrightarrow> yields t n v \<Longrightarrow> yields t (sq m n) v"
  unfolding sq_def by (rule yields_bnd)

lemma yields_wrap: "yields t m v \<Longrightarrow> yields t (wrap msg m) v"
  unfolding yields_def weakly_def wrap_def by (fastforce split: prod.splits sum.splits)

lemma yields_lift: "r = Inr v \<Longrightarrow> yields t (lift_result r) v"
  by (simp add: yields_def weakly_def lift_result_def)

lemma disk_read_cases:
  "dkTree (snd (disk_read f d)) = dkTree d \<and> (fst (disk_read f d) = f (dkTree d) \<or> (\<exists>msg. fst (disk_read f d) = Inl (IOError msg))) \<and>
   (calm d \<longrightarrow> calm (snd (disk_read f d)) \<and> fst (disk_read f d) = f (dkTree d))"
  by (auto simp: disk_read_def disk_call_def Let_def unchanged_def calm_def split: option.splits sum.splits)

lemma yields_disk:
  assumes "f t = Inr v"
  shows "yields t (disk_read f) v"
proof -
  have "dkTree d = t \<longrightarrow> dkTree (snd (disk_read f d)) = t \<and> (fst (disk_read f d) = Inr v \<or> (\<exists>e. fst (disk_read f d) = Inl e))"
    "dkTree d = t \<longrightarrow> calm d \<longrightarrow> calm (snd (disk_read f d)) \<and> fst (disk_read f d) = Inr v" for d
    using disk_read_cases [of f d] assms by auto
  then show ?thesis by (simp add: yields_def weakly_def)
qed

lemma yields_attempt:
  assumes io: "\<And>msg. weakly t (k (Inl (IOError msg))) v" and here: "yields t (k (f t)) v"
  shows "yields t (bnd (attempt (disk_read f)) k) v"
  unfolding yields_def weakly_def
proof (intro conjI allI impI)
  fix d :: files assume d: "dkTree d = t"
  obtain r d' where run: "disk_read f d = (r, d')" by fastforce
  have c: "dkTree d' = t" "r = f t \<or> (\<exists>msg. r = Inl (IOError msg))" "calm d \<Longrightarrow> calm d' \<and> r = f t"
    using disk_read_cases [of f d] run d by auto
  have b: "bnd (attempt (disk_read f)) k d = k r d'" using run by (simp add: bnd_def attempt_def)
  have "weakly t (k r) v" using c(2) io yields_weakly [OF here] by auto
  then show "dkTree (snd (bnd (attempt (disk_read f)) k d)) = t"
    "fst (bnd (attempt (disk_read f)) k d) = Inr v \<or> (\<exists>e. fst (bnd (attempt (disk_read f)) k d) = Inl e)"
    using c(1) unfolding b weakly_def by auto
  show "calm (snd (bnd (attempt (disk_read f)) k d))" "fst (bnd (attempt (disk_read f)) k d) = Inr v" if "calm d"
    using c that here unfolding b yields_def by auto
qed

lemma yields_file: "look t p = Inr (File c) \<Longrightarrow> yields t (read_file p) c"
  unfolding read_file_def by (rule yields_disk) simp

lemma yields_dir: "look t p = Inr Dir \<Longrightarrow> yields t (read_dir p) (children t p)"
  unfolding read_dir_def by (rule yields_disk) simp

lemma yields_each: "(\<And>x. x \<in> set xs \<Longrightarrow> yields t (f x) ()) \<Longrightarrow> yields t (each f xs) ()"
  by (induction xs) (auto intro: yields_ret yields_sq)

lemma yields_each_map:
  "(\<And>x acc. x \<in> set xs \<Longrightarrow> yields t (f (h x) acc) (acc @ [g x])) \<Longrightarrow> yields t (each_acc f (List.map h xs) acc) (acc @ List.map g xs)"
proof (induction xs arbitrary: acc)
  case (Cons x xs)
  have "yields t (each_acc f (List.map h xs) (acc @ [g x])) ((acc @ [g x]) @ List.map g xs)"
    by (rule Cons.IH) (simp add: Cons.prems)
  then show ?case using Cons.prems [of x acc] by (auto intro: yields_bnd)
qed (auto intro: yields_ret)

lemma yields_listing:
  assumes "yields t m es" "yields t (each_acc f es []) xs" "g xs = v"
  shows "yields t (bnd m (\<lambda>entries. bnd (each_acc f entries []) (\<lambda>ys. ret (g ys)))) v"
  using yields_bnd [OF assms(1), of "\<lambda>entries. bnd (each_acc f entries []) (\<lambda>ys. ret (g ys))"] yields_bnd [OF assms(2), of "\<lambda>ys. ret (g ys)"]
    yields_ret [of t "g xs"] assms(3) by simp

section \<open>Listings\<close>

lemma children_set:
  assumes "distinct (List.map fst t)"
  shows "set (children t p) = {(y, n). at t (p @ [y]) = Some n}" "distinct (List.map fst (children t p))"
proof -
  let ?l = "filter (\<lambda>(q, _). q \<noteq> [] \<and> butlast q = p) t"
  have "(y, n) \<in> set (children t p) \<longleftrightarrow> (p @ [y], n) \<in> set t" for y n
  proof -
    have "(y, n) \<in> set (children t p) \<longleftrightarrow> (\<exists>q. (q, n) \<in> set t \<and> q \<noteq> [] \<and> butlast q = p \<and> last q = y)"
      by (auto simp: children_def image_iff)
    also have "\<dots> \<longleftrightarrow> (p @ [y], n) \<in> set t"
      by (metis last_snoc snoc_eq_iff_butlast)
    finally show ?thesis .
  qed
  then show "set (children t p) = {(y, n). at t (p @ [y]) = Some n}" using assms by (auto simp: at_def)
  have keys: "distinct (List.map fst ?l)" using assms by (auto simp: distinct_map inj_on_def)
  have "inj_on last (set (List.map fst ?l))"
  proof (rule inj_onI)
    fix a b assume "a \<in> set (List.map fst ?l)" "b \<in> set (List.map fst ?l)" "last a = last b"
    moreover from this have "a \<noteq> []" "b \<noteq> []" "butlast a = butlast b" by auto
    ultimately show "a = b" by (metis append_butlast_last_id)
  qed
  then have "distinct (List.map last (List.map fst ?l))" using keys by (simp add: distinct_map del: List.map_map)
  moreover have "List.map last (List.map fst ?l) = List.map fst (List.map (\<lambda>(q, n). (last q, n)) ?l)" by (simp add: comp_def case_prod_beta)
  ultimately have "distinct (List.map fst (List.map (\<lambda>(q, n). (last q, n)) ?l))" by (simp only:)
  then show "distinct (List.map fst (children t p))"
    unfolding children_def by (rule distinct_keys_sorted)
qed

lemma listing_of:
  assumes "set xs = h ` set ys" "inj_on h (set ys)"
  shows "\<exists>zs. xs = List.map h zs \<and> set zs = set ys"
proof -
  have "xs \<in> lists (h ` set ys)" using assms(1) by auto
  then obtain zs where zs: "xs = List.map h zs" "set zs \<subseteq> set ys" unfolding lists_image by auto
  then have "h ` set zs = h ` set ys" using assms(1) by simp
  then have "set zs = set ys" using inj_on_image_eq_iff [OF assms(2) zs(2) subset_refl] by simp
  then show ?thesis using zs(1) by blast
qed

lemma sort_key_set_eq:
  assumes "distinct (List.map f xs)" "distinct (List.map f ys)" "set xs = set ys"
  shows "sort_key f xs = sort_key f ys"
proof (rule map_sorted_distinct_set_unique)
  show "inj_on f (set (sort_key f xs) \<union> set (sort_key f ys))" using assms by (simp add: distinct_map)
qed (use assms in \<open>simp_all add: distinct_keys_sorted\<close>)

lemma insort_key_map: "(\<And>x. f (h x) = f x) \<Longrightarrow> insort_key f (h x) (List.map h xs) = List.map h (insort_key f x xs)"
  by (induction xs) auto

lemma sort_key_map: "(\<And>x. f (h x) = f x) \<Longrightarrow> sort_key f (List.map h xs) = List.map h (sort_key f xs)"
  by (induction xs) (auto simp: insort_key_map)

section \<open>The exported tree\<close>

lemma nodes_not_root: "([], n) \<notin> template_nodes x" "([], n) \<notin> record_nodes r" "([], n) \<notin> chat_nodes c"
    "q \<noteq> [] \<Longrightarrow> ([], n) \<notin> result_node q z"
  by (auto simp: template_nodes_def)
     (auto simp: record_nodes_def figure_nodes_def optional_node_def Let_def split: option.splits if_splits,
      auto simp: chat_nodes_def Let_def split: option.splits sum.splits, auto simp: result_node_def split: sum.splits)

lemma nodes_root: "([], n) \<in> snapshot_nodes s \<longleftrightarrow> n = Dir"
  by (simp add: snapshot_nodes_def nodes_not_root)

lemma record_nodes_closed:
  assumes "(q @ [y], n) \<in> record_nodes r"
  shows "q = [''records''] \<or> (q, Dir) \<in> record_nodes r"
  using assms
  by (auto simp: record_nodes_def figure_nodes_def optional_node_def Let_def append_eq_Cons_conv Cons_eq_append_conv
      split: option.splits if_splits)

lemma chat_nodes_closed:
  assumes "(q @ [y], n) \<in> chat_nodes c"
  shows "q = [''chats''] \<or> (q, Dir) \<in> chat_nodes c"
  using assms
  by (auto simp: chat_nodes_def Let_def append_eq_Cons_conv Cons_eq_append_conv split: option.splits sum.splits)

lemma nodes_closed:
  assumes "(q @ [y], n) \<in> snapshot_nodes s"
  shows "(q, Dir) \<in> snapshot_nodes s"
proof -
  consider "q = []" | x where "x \<in> set (ssTemplates s)" "(q @ [y], n) \<in> template_nodes x"
    | x where "x \<in> set (ssRecords s)" "(q @ [y], n) \<in> record_nodes x"
    | x where "x \<in> set (ssChats s)" "(q @ [y], n) \<in> chat_nodes x"
    using assms by (auto simp: snapshot_nodes_def result_node_def split: if_splits sum.splits)
  then show ?thesis
  proof cases
    case 1
    then show ?thesis by (simp add: nodes_root)
  next
    case 2
    then have "q = [''templates'']" by (auto simp: template_nodes_def append_eq_Cons_conv)
    then show ?thesis by (simp add: snapshot_nodes_def)
  next
    case (3 x)
    then show ?thesis using record_nodes_closed [OF 3(2)] by (auto simp: snapshot_nodes_def)
  next
    case (4 x)
    then show ?thesis using chat_nodes_closed [OF 4(2)] by (auto simp: snapshot_nodes_def)
  qed
qed

lemma nodes_above: "(q @ r, n) \<in> snapshot_nodes s \<Longrightarrow> r \<noteq> [] \<Longrightarrow> (q, Dir) \<in> snapshot_nodes s"
proof (induction r arbitrary: n rule: rev_induct)
  case (snoc y r)
  then have "(q @ r, Dir) \<in> snapshot_nodes s" using nodes_closed [of "q @ r" y n s] by simp
  then show ?case using snoc.IH by (cases "r = []") auto
qed simp

lemma exported_at:
  assumes "exported root s t" "(x # r, n) \<in> snapshot_nodes s" "[x] \<in> set managedSnapshotEntries"
  shows "at t (root @ x # r) = Some n"
proof -
  have "view t (root @ [x]) r = Some n" using assms by (simp add: exported_def)
  then show ?thesis by (simp add: view_def split: if_splits)
qed

lemma exported_iff:
  assumes "exported root s t" "([x], m) \<in> snapshot_nodes s" "[x] \<in> set managedSnapshotEntries"
  shows "at t (root @ x # r) = Some n \<longleftrightarrow> (x # r, n) \<in> snapshot_nodes s"
proof -
  have "view t (root @ [x]) r = at t (root @ x # r)" by (simp add: view_def exported_at [OF assms])
  then show ?thesis using assms(1,3) unfolding exported_def by metis
qed

lemma not_below:
  assumes "rooted_at root t" "\<And>q' r. q = q' @ r \<Longrightarrow> r \<noteq> [] \<Longrightarrow> q' \<noteq> [] \<Longrightarrow> at t (root @ q') = Some Dir"
  shows "\<not> below_file t (root @ q)"
proof -
  have "at t (take n (root @ q)) = Some Dir" if "n < length (root @ q)" for n
  proof (cases "n \<le> length root")
    case True
    then show ?thesis using assms(1) by (simp add: rooted_at_def take_is_prefix)
  next
    case False
    then have "take (n - length root) q \<noteq> []" "drop (n - length root) q \<noteq> []" using that by auto
    then show ?thesis
      using assms(2) [of "take (n - length root) q" "drop (n - length root) q"] False by simp
  qed
  then show ?thesis by (auto simp: below_file_def is_file_at_def list_ex_iff)
qed

lemma exported_not_below:
  assumes "exported root s t" "[x] \<in> set managedSnapshotEntries" "r = [] \<or> (x # butlast r, Dir) \<in> snapshot_nodes s"
  shows "\<not> below_file t (root @ x # r)"
proof (rule not_below)
  show "rooted_at root t" using assms(1) by (simp add: exported_def)
  fix q' r' assume q: "x # r = q' @ r'" "r' \<noteq> []" "q' \<noteq> []"
  then obtain u where u: "q' = x # u" "r = u @ r'" by (cases q') auto
  then have "x # butlast r = q' @ butlast r'" "r \<noteq> []" using q by (auto simp: butlast_append)
  then have "(q', Dir) \<in> snapshot_nodes s"
    using assms(3) nodes_above [of q' "butlast r'" Dir s] by (cases "butlast r' = []") auto
  then show "at t (root @ q') = Some Dir" using exported_at [OF assms(1) _ assms(2)] u by simp
qed

lemma look_node:
  assumes "exported root s t" "(x # r, n) \<in> snapshot_nodes s" "[x] \<in> set managedSnapshotEntries"
  shows "look t (root @ x # r) = Inr n"
proof -
  have "r = [] \<or> (x # butlast r, Dir) \<in> snapshot_nodes s"
    using nodes_closed [of "x # butlast r" "last r" n s] assms(2) by (cases "r = []") simp_all
  then show ?thesis
    using exported_not_below [OF assms(1,3)] exported_at [OF assms] by (simp add: look_def)
qed

lemma look_absent:
  assumes "exported root s t" "(x # r, Dir) \<in> snapshot_nodes s" "\<And>n. (x # r @ [y], n) \<notin> snapshot_nodes s"
    "[x] \<in> set managedSnapshotEntries"
  shows "look t (root @ x # r @ [y]) = Inl ErrNotExist"
proof -
  have top: "([x], Dir) \<in> snapshot_nodes s" using assms(2) nodes_above [of "[x]" r Dir s] by (cases "r = []") auto
  have "at t (root @ x # r @ [y]) = None"
    using exported_iff [OF assms(1) top assms(4), of "r @ [y]"] assms(3) by (cases "at t (root @ x # r @ [y])") auto
  then show ?thesis
    using exported_not_below [OF assms(1,4), of "r @ [y]"] assms(2) by (simp add: look_def)
qed

lemma exported_children:
  assumes "exported root s t" "(x # r, Dir) \<in> snapshot_nodes s" "[x] \<in> set managedSnapshotEntries"
  shows "set (children t (root @ x # r)) = {(y, n). (x # r @ [y], n) \<in> snapshot_nodes s}"
    "distinct (List.map fst (children t (root @ x # r)))"
proof -
  have top: "([x], Dir) \<in> snapshot_nodes s" using assms(2) nodes_above [of "[x]" r Dir s] by (cases "r = []") auto
  have dist: "distinct (List.map fst t)" using assms(1) by (simp add: exported_def rooted_at_def)
  show "set (children t (root @ x # r)) = {(y, n). (x # r @ [y], n) \<in> snapshot_nodes s}"
    using children_set(1) [OF dist, of "root @ x # r"] exported_iff [OF assms(1) top assms(3)] by simp
  show "distinct (List.map fst (children t (root @ x # r)))" by (rule children_set(2) [OF dist])
qed

lemma node_heads:
  "(x # r, n) \<in> template_nodes tm \<Longrightarrow> x = ''templates''" "(x # r, n) \<in> record_nodes q \<Longrightarrow> x = ''records'' \<and> (\<exists>u. r = reID q # u)"
  "(x # r, n) \<in> chat_nodes c \<Longrightarrow> x = ''chats'' \<and> (\<exists>u. r = ceID c # u)" "(x # r, n) \<in> result_node [y] z \<Longrightarrow> x = y \<and> r = []"
  by (auto simp: template_nodes_def)
     (auto simp: record_nodes_def figure_nodes_def optional_node_def Let_def split: option.splits if_splits,
      auto simp: chat_nodes_def Let_def split: option.splits sum.splits, auto simp: result_node_def split: sum.splits)

lemma template_node: "(''templates'' # r, n) \<in> snapshot_nodes s \<longleftrightarrow>
    r = [] \<and> n = Dir \<or> (\<exists>tm\<in>set (ssTemplates s). r = [teName tm @ ''.html''] \<and> n = File (teHTMLContent tm))"
  unfolding snapshot_nodes_def by (auto simp: template_nodes_def dest: node_heads)

lemma record_node: "(''records'' # r, n) \<in> snapshot_nodes s \<longleftrightarrow>
    r = [] \<and> n = Dir \<or> (\<exists>q\<in>set (ssRecords s). (''records'' # r, n) \<in> record_nodes q)"
  unfolding snapshot_nodes_def by (auto dest: node_heads)

lemma chat_node: "(''chats'' # r, n) \<in> snapshot_nodes s \<longleftrightarrow>
    r = [] \<and> n = Dir \<and> ssChats s \<noteq> [] \<or> (\<exists>q\<in>set (ssChats s). (''chats'' # r, n) \<in> chat_nodes q)"
  unfolding snapshot_nodes_def by (auto dest: node_heads)

lemma managed_names: "[''templates''] \<in> set managedSnapshotEntries" "[''records''] \<in> set managedSnapshotEntries"
    "[''chats''] \<in> set managedSnapshotEntries" "[''projects.json''] \<in> set managedSnapshotEntries"
    "[''devices.json''] \<in> set managedSnapshotEntries"
  by (simp_all add: managedSnapshotEntries_def)

section \<open>Templates and registries\<close>

lemma html_name:
  assumes "named ''template name'' v"
  shows "filepath_ext (v @ ''.html'') = ''.html''" "trim_suffix (v @ ''.html'') ''.html'' = v"
proof -
  have "CHR ''/'' \<notin> set v" using assms by (auto simp: named_def validatePathSegment_export_def split: if_splits)
  then have "split_at (CHR ''/'') (v @ ''.html'') = [v @ ''.html'']" by (intro split_at_notin) simp
  moreover have "List.last (split_at (CHR ''.'') (v @ CHR ''.'' # u)) = u" if "CHR ''.'' \<notin> set u" for u
    using that by (simp add: split_at_break)
  from this [of "''html''"] have "List.last (split_at (CHR ''.'') (v @ ''.html'')) = ''html''" by simp
  ultimately show "filepath_ext (v @ ''.html'') = ''.html''" by (simp add: filepath_ext_def Let_def)
  show "trim_suffix (v @ ''.html'') ''.html'' = v" by (simp add: trim_suffix_def suffix_def)
qed

lemma yields_templates:
  assumes exp: "exported root s t" and ok: "snapshot_named s" "names_distinct s"
  shows "yields t (readTemplates (root @ [''templates''])) (sortedTemplates (ssTemplates s))"
proof -
  let ?p = "root @ [''templates'']" and ?h = "\<lambda>tm. (teName tm @ ''.html'', File (teHTMLContent tm) :: string node)"
  have node: "(''templates'' # [], Dir) \<in> snapshot_nodes s" by (simp add: template_node)
  have "set (children t ?p) = ?h ` set (ssTemplates s)"
    unfolding exported_children(1) [OF exp node managed_names(1)] by (auto simp: template_node)
  moreover have "inj_on ?h (set (ssTemplates s))"
    using ok(2) by (auto simp: names_distinct_def distinct_map inj_on_def)
  ultimately obtain ts where ts: "children t ?p = List.map ?h ts" "set ts = set (ssTemplates s)"
    using listing_of by blast
  have dist: "distinct (List.map teName ts)"
    using exported_children(2) [OF exp node managed_names(1)] by (auto simp: ts(1) distinct_map inj_on_def)
  have step: "yields t (read_template ?p (?h tm) acc) (acc @ [tm])" if tm: "tm \<in> set ts" for tm acc
  proof -
    have nm: "named ''template name'' (teName tm)" using ok(1) tm ts(2) by (simp add: snapshot_named_def)
    have "(''templates'' # [teName tm @ ''.html''], File (teHTMLContent tm)) \<in> snapshot_nodes s"
      using tm ts(2) by (auto simp: template_node)
    from look_node [OF exp this managed_names(1)]
    have there: "yields t (read_file (root @ [''templates'', teName tm @ ''.html''])) (teHTMLContent tm)" by (rule yields_file)
    have "yields t (ret (acc @ [\<lparr> teName = teName tm, teHTMLContent = teHTMLContent tm \<rparr>])) (acc @ [tm])"
      using yields_ret [of t "acc @ [tm]"] by (cases tm) simp
    then show ?thesis
      unfolding read_template_def fst_conv snd_conv html_name [OF nm] Let_def
      using nm by (auto simp: named_def intro!: yields_sq yields_lift yields_bnd [OF yields_wrap [OF there]])
  qed
  have loop: "yields t (each_acc (read_template ?p) (List.map ?h ts) []) ts"
    using yields_each_map [of ts t "read_template ?p" ?h "\<lambda>x. x" "[]"] step by simp
  have same: "sortedTemplates ts = sortedTemplates (ssTemplates s)"
    unfolding sortedTemplates_def using dist ok(2) ts(2) by (intro sort_key_set_eq) (auto simp: names_distinct_def)
  have dir: "yields t (read_dir ?p) (List.map ?h ts)"
    unfolding ts(1) [symmetric] by (rule yields_dir) (rule look_node [OF exp node managed_names(1)])
  show ?thesis
    unfolding readTemplates_def by (rule yields_listing [where g = sortedTemplates, OF yields_wrap [OF dir] loop same])
qed

lemma yields_registry:
  assumes "exported root s t" "[x] \<in> set managedSnapshotEntries" "([x], File c) \<in> snapshot_nodes s" "parse_registry c = Inr es"
  shows "yields t (readRegistryFile (root @ [x])) es"
  unfolding readRegistryFile_def
  by (rule yields_bnd [OF yields_file yields_lift]) (use look_node [OF assms(1) assms(3) assms(2)] assms(4) in simp_all)

section \<open>Records\<close>

definition sorted_record :: "RecordExport \<Rightarrow> RecordExport" where
  "sorted_record r = r \<lparr> reFigures := sort_key feFilename (reFigures r), reDataFiles := sort_key deFilename (reDataFiles r) \<rparr>"

text \<open>The files of one record.\<close>

lemma record_file:
  assumes "names_distinct s" "r \<in> set (ssRecords s)"
  shows "([''records'', reID r] @ q, n) \<in> snapshot_nodes s \<longleftrightarrow> ([''records'', reID r] @ q, n) \<in> record_nodes r"
proof -
  have "p = r" if "p \<in> set (ssRecords s)" "reID p = reID r" for p
    using assms that by (auto simp: names_distinct_def distinct_map inj_on_def)
  then show ?thesis
    using assms(2) node_heads(2) [of "''records''" "reID r # q" n] by (simp add: record_node) metis
qed

lemma record_places:
  "([''records'', reID r] @ [], Dir) \<in> record_nodes r"
  "([''records'', reID r] @ [''metadata.json''], n) \<in> record_nodes r \<longleftrightarrow> n = File (record_metadata_text r)"
  "([''records'', reID r] @ [''record.html''], n) \<in> record_nodes r \<longleftrightarrow> (\<exists>c. reHTMLContent r = Some c \<and> n = File c)"
  "([''records'', reID r] @ [''notes.md''], n) \<in> record_nodes r \<longleftrightarrow> (\<exists>c. reNotes r = Some c \<and> n = File c)"
  "([''records'', reID r] @ [''figures''], n) \<in> record_nodes r \<longleftrightarrow> reFigures r \<noteq> [] \<and> n = Dir"
  "([''records'', reID r] @ [''figures'', y], n) \<in> record_nodes r \<longleftrightarrow> (\<exists>f\<in>set (reFigures r). y = feFilename f \<and> n = File (feContent f))"
  by (auto simp: record_nodes_def figure_nodes_def optional_node_def Let_def split: option.splits if_splits)

lemma yields_checks: "(\<And>x. x \<in> set xs \<Longrightarrow> g x = Inr ()) \<Longrightarrow> yields t (each (\<lambda>x. lift_result (g x)) xs) ()"
  by (rule yields_each) (rule yields_lift)

lemma yields_record:
  assumes exp: "exported root s t" and names: "names_distinct s" and r: "r \<in> set (ssRecords s)"
    and named: "record_named r" and ok: "record_ok r" and real: "\<forall>f\<in>set (reFigures r). \<not> isLFSPointer (feContent f)"
  shows "yields t (readRecord (root @ [''records'', reID r]) (reID r)) (sorted_record r)"
proof -
  note node = record_file [OF names r]
  have at_file: "yields t (read_file (root @ [''records'', reID r] @ q)) c"
    if "([''records'', reID r] @ q, File c) \<in> record_nodes r" for q c
    using look_node [OF exp _ managed_names(2), of "reID r # q" "File c"] node [of q "File c"] that by (intro yields_file) simp
  have absent: "look t (root @ [''records'', reID r] @ [y]) = Inl ErrNotExist"
    if "\<And>n. ([''records'', reID r] @ [y], n) \<notin> record_nodes r" for y
    using look_absent [OF exp _ _ managed_names(2), of "[reID r]" y] node [of "[]" Dir] node [of "[y]"] that record_places(1) [of r]
    by simp
  have meta: "yields t (read_file (root @ [''records'', reID r, ''metadata.json''])) (record_metadata_text r)"
    using at_file [of "[''metadata.json'']"] by (simp add: record_places [simplified])
  have html: "yields t (read_html (root @ [''records'', reID r, ''record.html''])) (reHTMLContent r)"
  proof (cases "reHTMLContent r")
    case None
    then have "look t (root @ [''records'', reID r, ''record.html'']) = Inl ErrNotExist"
      using absent [of "''record.html''"] by (simp add: record_places [simplified])
    then show ?thesis
      unfolding read_html_def read_file_def
      by (intro yields_attempt) (auto simp: None weakly_fail yields_ret)
  next
    case (Some c)
    then have "look t (root @ [''records'', reID r, ''record.html'']) = Inr (File c)"
      using look_node [OF exp _ managed_names(2), of "[reID r, ''record.html'']" "File c"] node [of "[''record.html'']" "File c"]
      by (simp add: record_places [simplified])
    then show ?thesis
      unfolding read_html_def read_file_def
      by (intro yields_attempt) (auto simp: Some weakly_fail yields_ret)
  qed
  have note_text: "yields t (read_notes (root @ [''records'', reID r, ''notes.md'']) (reNotes r \<noteq> None)) (reNotes r)"
  proof (cases "reNotes r")
    case None
    then have "look t (root @ [''records'', reID r, ''notes.md'']) = Inl ErrNotExist"
      using absent [of "''notes.md''"] by (simp add: record_places [simplified])
    then show ?thesis
      using None unfolding read_notes_def lstat_def
      by (auto intro!: yields_attempt simp: weakly_ret yields_ret)
  next
    case (Some c)
    then have "yields t (read_file (root @ [''records'', reID r, ''notes.md''])) c"
      using at_file [of "[''notes.md'']" c] by (simp add: record_places [simplified])
    then show ?thesis
      using Some unfolding read_notes_def by (auto intro: yields_bnd yields_wrap yields_ret)
  qed
  let ?fs = "sort_key feFilename (reFigures r)" and ?p = "root @ [''records'', reID r, ''figures'']"
  have figures: "yields t (readFigures (root @ [''records'', reID r]) (List.map without_bytes ?fs)) ?fs"
  proof -
    have step: "yields t (read_figure ?p (without_bytes f) acc) (acc @ [f])" if f: "f \<in> set ?fs" for f acc
    proof -
      have "yields t (read_file (root @ [''records'', reID r, ''figures'', feFilename f])) (feContent f)"
        using at_file [of "[''figures'', feFilename f]" "feContent f"] f by (auto simp: record_places [simplified])
      moreover have "\<not> isLFSPointer (feContent f)" "named ''figure filename'' (feFilename f)"
        using real named f by (auto simp: record_named_def)
      moreover have "without_bytes f \<lparr> feContent := feContent f \<rparr> = f" "feFilename (without_bytes f) = feFilename f"
        by (simp_all add: without_bytes_def)
      ultimately show ?thesis
        unfolding read_figure_def by (auto simp: named_def yields_ret intro!: yields_sq [OF yields_lift] yields_bnd [OF yields_wrap])
    qed
    have loop: "yields t (each_acc (read_figure ?p) (List.map without_bytes ?fs) []) ?fs"
      using yields_each_map [of ?fs t "read_figure ?p" without_bytes "\<lambda>x. x" "[]"] step by simp
    show ?thesis
    proof (cases "reFigures r = []")
      case True
      then have "look t ?p = Inl ErrNotExist"
        using absent [of "''figures''"] by (simp add: record_places [simplified])
      then show ?thesis
        using loop True unfolding readFigures_def Let_def lstat_def
        by (auto intro!: yields_bnd [OF yields_ret] yields_attempt simp: weakly_ret yields_ret)
    next
      case False
      have names: "List.map feFilename (List.map without_bytes ?fs) = List.map feFilename ?fs"
        by (simp add: without_bytes_def)
      have "(''records'' # [reID r, ''figures''], Dir) \<in> snapshot_nodes s"
        using node [of "[''figures'']" Dir] False by (simp add: record_places [simplified])
      note there = look_node [OF exp this managed_names(2)] exported_children(1) [OF exp this managed_names(2)]
      have "yields t (read_dir ?p) (children t ?p)" by (rule yields_dir) (rule there(1))
      moreover have "yields t (each (check_figure_entry (List.map feFilename ?fs)) (children t ?p)) ()"
      proof (rule yields_each)
        fix e assume "e \<in> set (children t ?p)"
        then have "([''records'', reID r] @ [''figures'', fst e], snd e) \<in> snapshot_nodes s" unfolding there(2) by auto
        then obtain f where "f \<in> set (reFigures r)" "fst e = feFilename f" "snd e = File (feContent f)"
          unfolding node record_places by blast
        then show "yields t (check_figure_entry (List.map feFilename ?fs) e) ()"
          by (auto simp: check_figure_entry_def yields_ret)
      qed
      moreover have "List.map without_bytes ?fs \<noteq> []" using False by (metis map_is_Nil_conv set_empty set_sort)
      ultimately show ?thesis
        unfolding readFigures_def Let_def names append_assoc append.simps
        by (auto intro!: yields_bnd [OF loop] yields_bnd [OF yields_wrap] yields_sq yields_ret)
    qed
  qed
  have checks: "yields t (each (\<lambda>f. lift_result (validatePathSegment_export ''data file filename'' (deFilename f)))
      (sort_key deFilename (reDataFiles r))) ()"
    by (rule yields_checks) (use named in \<open>auto simp: record_named_def named_def\<close>)
  define m where "m = r \<lparr> reHTMLContent := None, reNotes := None, reFigures := List.map without_bytes ?fs,
      reDataFiles := sort_key deFilename (reDataFiles r) \<rparr>"
  have m: "reFigures m = List.map without_bytes ?fs" "reDataFiles m = sort_key deFilename (reDataFiles r)"
    "m \<lparr> reHTMLContent := reHTMLContent r, reNotes := reNotes r, reFigures := ?fs \<rparr> = sorted_record r"
    by (simp_all add: m_def) (cases r, simp add: sorted_record_def)
  then have final: "yields t (ret (m \<lparr> reHTMLContent := reHTMLContent r, reNotes := reNotes r, reFigures := ?fs \<rparr>)) (sorted_record r)"
    by (simp only: yields_ret)
  have parsed: "parse_record_metadata (reID r) (record_metadata_text r) = Inr (m, reNotes r \<noteq> None)"
    unfolding m_def by (rule record_metadata_round_trip [OF ok])
  have valid: "validatePathSegment_export ''record id'' (reID r) = Inr ()" using named by (simp add: record_named_def named_def)
  show ?thesis
    unfolding readRecord_def append_assoc append.simps
    by (intro yields_sq [OF yields_lift [OF valid]] yields_bnd [OF yields_wrap [OF meta]] yields_bnd [OF yields_lift [OF parsed]])
       (simp only: prod.case, intro yields_bnd [OF html] yields_bnd [OF note_text] yields_bnd [OF figures [folded m(1)]]
         yields_sq [OF checks [folded m(2)]] final)
qed

lemma yields_records:
  assumes exp: "exported root s t" and ok: "snapshot_named s" "names_distinct s" "list_all record_ok (ssRecords s)"
    and real: "\<forall>r\<in>set (ssRecords s). \<forall>f\<in>set (reFigures r). \<not> isLFSPointer (feContent f)"
  shows "yields t (readRecords (root @ [''records''])) (List.map sorted_record (sortedRecords (ssRecords s)))"
proof -
  let ?p = "root @ [''records'']" and ?h = "\<lambda>r. (reID r, Dir :: string node)"
  have node: "(''records'' # [], Dir) \<in> snapshot_nodes s" by (simp add: record_node)
  have one: "(''records'' # [] @ [y], n) \<in> record_nodes r \<longleftrightarrow> y = reID r \<and> n = Dir" for y n r
    by (auto simp: record_nodes_def figure_nodes_def optional_node_def Let_def split: option.splits if_splits)
  have "set (children t ?p) = ?h ` set (ssRecords s)"
    unfolding exported_children(1) [OF exp node managed_names(2)] record_node one by auto
  moreover have "inj_on ?h (set (ssRecords s))"
    using ok(2) by (auto simp: names_distinct_def distinct_map inj_on_def)
  ultimately obtain rs where rs: "children t ?p = List.map ?h rs" "set rs = set (ssRecords s)"
    using listing_of by blast
  have dist: "distinct (List.map reID rs)"
    using exported_children(2) [OF exp node managed_names(2)] by (simp add: rs(1) comp_def)
  have step: "yields t (read_record_entry ?p (?h r) acc) (acc @ [sorted_record r])" if r: "r \<in> set rs" for r acc
  proof -
    have "yields t (readRecord (root @ [''records'', reID r]) (reID r)) (sorted_record r)"
      using r rs(2) ok(1,3) real by (intro yields_record [OF exp ok(2)]) (auto simp: snapshot_named_def list_all_iff)
    then show ?thesis
      unfolding read_record_entry_def by (auto intro: yields_bnd yields_ret)
  qed
  let ?k = "\<lambda>r. (reDate r, reDayOrder r, reID r)"
  have loop: "yields t (each_acc (read_record_entry ?p) (List.map ?h rs) []) (List.map sorted_record rs)"
    using yields_each_map [of rs t "read_record_entry ?p" ?h sorted_record "[]"] step by simp
  have keys: "distinct (List.map ?k rs)" "distinct (List.map ?k (ssRecords s))"
    using dist ok(2) by (auto simp: names_distinct_def distinct_map inj_on_def)
  have "sortedRecords (List.map sorted_record rs) = List.map sorted_record (sortedRecords rs)"
    unfolding sortedRecords_def by (rule sort_key_map) (simp add: sorted_record_def)
  also have "sortedRecords rs = sortedRecords (ssRecords s)"
    unfolding sortedRecords_def using rs(2) by (intro sort_key_set_eq keys)
  finally have same: "sortedRecords (List.map sorted_record rs) = List.map sorted_record (sortedRecords (ssRecords s))" .
  have dir: "yields t (read_dir ?p) (List.map ?h rs)"
    unfolding rs(1) [symmetric] by (rule yields_dir) (rule look_node [OF exp node managed_names(2)])
  show ?thesis
    unfolding readRecords_def by (rule yields_listing [where g = sortedRecords, OF yields_wrap [OF dir] loop same])
qed

section \<open>Chats\<close>

text \<open>Without a key the bytes of a raw source are not exported.\<close>

definition sorted_chat :: "ChatExport \<Rightarrow> ChatExport" where
  "sorted_chat c =
    c \<lparr> ceItems := sort_key ieOrdinal (ceItems c),
        ceRawSourceContent := (if ceRawSourceKey c = None then [] else ceRawSourceContent c) \<rparr>"

lemma chat_file:
  assumes "names_distinct s" "c \<in> set (ssChats s)"
  shows "([''chats'', ceID c] @ q, n) \<in> snapshot_nodes s \<longleftrightarrow> ([''chats'', ceID c] @ q, n) \<in> chat_nodes c"
proof -
  have "p = c" if "p \<in> set (ssChats s)" "ceID p = ceID c" for p
    using assms that by (auto simp: names_distinct_def distinct_map inj_on_def)
  then show ?thesis
    using assms(2) node_heads(3) [of "''chats''" "ceID c # q" n] by (simp add: chat_node) metis
qed

lemma yields_chat:
  assumes exp: "exported root s t" and names: "names_distinct s" and c: "c \<in> set (ssChats s)"
    and named: "chat_named c" and ok: "chat_ok c" "list_all item_ok (ceItems c)" "distinct (List.map ieOrdinal (ceItems c))"
  shows "yields t (readChat (root @ [''chats'', ceID c]) (ceID c)) (sorted_chat c)"
proof -
  have at_file: "yields t (read_file (root @ [''chats'', ceID c, y])) x"
    if "([''chats'', ceID c] @ [y], File x) \<in> chat_nodes c" for y x
    using look_node [OF exp _ managed_names(3), of "[ceID c, y]" "File x"] chat_file [OF names c, of "[y]" "File x"] that
    by (intro yields_file) simp
  have meta: "yields t (read_file (root @ [''chats'', ceID c, ''metadata.json''])) (chat_metadata_text c)"
    by (rule at_file) (simp add: chat_nodes_def Let_def)
  have content: "yields t (read_file (root @ [''chats'', ceID c, ''items.jsonl''])) (items_text (ceItems c))"
    by (rule at_file) (simp add: chat_nodes_def Let_def)
  have items: "yields t (readChatItems (root @ [''chats'', ceID c, ''items.jsonl''])) (sort_key ieOrdinal (ceItems c))"
    unfolding readChatItems_def by (rule yields_bnd [OF yields_wrap [OF content]]) (rule yields_lift, rule items_round_trip [OF ok(2,3)])
  have raw: "yields t (read_raw_source (root @ [''chats'', ceID c]) (ceID c) (ceRawSourceKey c))
      (if ceRawSourceKey c = None then [] else ceRawSourceContent c)"
  proof (cases "ceRawSourceKey c")
    case None
    then show ?thesis by (simp add: read_raw_source_def yields_ret)
  next
    case (Some key)
    then obtain name where name: "rawSourceExportFilename (ceID c) key = Inr name" using named by (auto simp: chat_named_def)
    have "yields t (read_file (root @ [''chats'', ceID c, name])) (ceRawSourceContent c)"
      by (rule at_file) (simp add: chat_nodes_def Let_def Some name)
    then show ?thesis
      by (auto simp: read_raw_source_def Some name wrap_result_def intro!: yields_bnd [OF yields_lift] yields_wrap)
  qed
  have "c \<lparr> ceRawSourceContent := [], ceItems := [] \<rparr>
      \<lparr> ceRawSourceContent := (if ceRawSourceKey c = None then [] else ceRawSourceContent c),
        ceItems := sort_key ieOrdinal (ceItems c) \<rparr> = sorted_chat c"
    by (cases c) (simp add: sorted_chat_def)
  then have final: "yields t (ret (c \<lparr> ceRawSourceContent := [], ceItems := [] \<rparr>
      \<lparr> ceRawSourceContent := (if ceRawSourceKey c = None then [] else ceRawSourceContent c),
        ceItems := sort_key ieOrdinal (ceItems c) \<rparr>)) (sorted_chat c)"
    by (simp only: yields_ret)
  have key: "ceRawSourceKey (c \<lparr> ceRawSourceContent := [], ceItems := [] \<rparr>) = ceRawSourceKey c" by simp
  have valid: "validatePathSegment_export ''chat id'' (ceID c) = Inr ()" using named by (simp add: chat_named_def named_def)
  show ?thesis
    unfolding readChat_def append_assoc append.simps
    by (intro yields_sq [OF yields_lift [OF valid]] yields_bnd [OF yields_wrap [OF meta]] yields_bnd [OF yields_lift [OF chat_metadata_round_trip [OF ok(1)]]]
          yields_bnd [OF items] yields_bnd [OF raw [folded key]] final [folded key])
qed

lemma yields_chats:
  assumes exp: "exported root s t" and ok: "snapshot_named s" "names_distinct s"
    and chats: "list_all (\<lambda>c. chat_ok c \<and> list_all item_ok (ceItems c) \<and> distinct (List.map ieOrdinal (ceItems c))) (ssChats s)"
  shows "yields t (readChats (root @ [''chats''])) (List.map sorted_chat (sortedChats (ssChats s)))"
proof (cases "ssChats s = []")
  case True
  have "([''chats''], n) \<notin> snapshot_nodes s" for n by (simp add: chat_node True)
  then have "view t (root @ [''chats'']) [] \<noteq> Some n" for n
    using exp managed_names(3) by (auto simp: exported_def)
  then have "at t (root @ [''chats'']) = None" by (cases "at t (root @ [''chats''])") (auto simp: view_root)
  moreover have "\<not> below_file t (root @ [''chats''])"
    by (rule exported_not_below [OF exp managed_names(3)]) simp
  ultimately have "look t (root @ [''chats'']) = Inl ErrNotExist" by (simp add: look_def)
  then show ?thesis
    unfolding readChats_def read_dir_def
    by (intro yields_attempt) (auto simp: True sortedChats_def weakly_fail yields_ret)
next
  case False
  let ?p = "root @ [''chats'']" and ?h = "\<lambda>c. (ceID c, Dir :: string node)"
  have node: "(''chats'' # [], Dir) \<in> snapshot_nodes s" using False by (simp add: chat_node)
  have one: "(''chats'' # [] @ [y], n) \<in> chat_nodes c \<longleftrightarrow> y = ceID c \<and> n = Dir" for y n c
    by (auto simp: chat_nodes_def Let_def split: option.splits sum.splits)
  have "set (children t ?p) = ?h ` set (ssChats s)"
    unfolding exported_children(1) [OF exp node managed_names(3)] chat_node one by auto
  moreover have "inj_on ?h (set (ssChats s))"
    using ok(2) by (auto simp: names_distinct_def distinct_map inj_on_def)
  ultimately obtain cs where cs: "children t ?p = List.map ?h cs" "set cs = set (ssChats s)"
    using listing_of by blast
  have dist: "distinct (List.map ceID cs)"
    using exported_children(2) [OF exp node managed_names(3)] by (simp add: cs(1) comp_def)
  have step: "yields t (read_chat_entry ?p (?h c) acc) (acc @ [sorted_chat c])" if c: "c \<in> set cs" for c acc
  proof -
    have "yields t (readChat (root @ [''chats'', ceID c]) (ceID c)) (sorted_chat c)"
      using c cs(2) ok(1) chats by (intro yields_chat [OF exp ok(2)]) (auto simp: snapshot_named_def list_all_iff)
    then show ?thesis
      unfolding read_chat_entry_def by (auto intro: yields_bnd yields_ret)
  qed
  let ?k = "\<lambda>c. (ceLastActivityAt c, ceID c)"
  have loop: "yields t (each_acc (read_chat_entry ?p) (List.map ?h cs) []) (List.map sorted_chat cs)"
    using yields_each_map [of cs t "read_chat_entry ?p" ?h sorted_chat "[]"] step by simp
  have keys: "distinct (List.map ?k cs)" "distinct (List.map ?k (ssChats s))"
    using dist ok(2) by (auto simp: names_distinct_def distinct_map inj_on_def)
  have "sortedChats (List.map sorted_chat cs) = List.map sorted_chat (sortedChats cs)"
    unfolding sortedChats_def by (rule sort_key_map) (simp add: sorted_chat_def)
  also have "sortedChats cs = sortedChats (ssChats s)"
    unfolding sortedChats_def using cs(2) by (intro sort_key_set_eq keys)
  finally have same: "sortedChats (List.map sorted_chat cs) = List.map sorted_chat (sortedChats (ssChats s))" .
  have "yields t (bnd (each_acc (read_chat_entry ?p) (List.map ?h cs) []) (\<lambda>chats. ret (sortedChats chats)))
      (List.map sorted_chat (sortedChats (ssChats s)))"
    by (rule yields_bnd [OF loop]) (simp add: same yields_ret)
  moreover have "look t ?p = Inr Dir" by (rule look_node [OF exp node managed_names(3)])
  ultimately show ?thesis
    unfolding readChats_def read_dir_def
    by (intro yields_attempt) (simp_all add: weakly_fail cs(1))
qed

end
