(* ===== verification/Snapshot_Props.thy ===== *)
theory Snapshot_Props
  imports Snapshot_Read
begin

text \<open>The two promises of a git export: it ends with the old or the new entries in place and touches nothing else, and what
  it has written is read back.\<close>

definition snapshot_ok :: "Snapshot \<Rightarrow> bool" where
  "snapshot_ok s =
    (names_distinct s \<and> list_all registry_ok (ssProjects s) \<and> distinct (List.map geID (ssProjects s)) \<and>
     list_all registry_ok (ssDevices s) \<and> distinct (List.map geID (ssDevices s)) \<and>
     list_all (\<lambda>r. record_ok r \<and> list_all (\<lambda>f. \<not> isLFSPointer (feContent f)) (reFigures r)) (ssRecords s) \<and>
     list_all (\<lambda>c. chat_ok c \<and> list_all item_ok (ceItems c) \<and> distinct (List.map ieOrdinal (ceItems c))) (ssChats s))"

definition sorted_snapshot :: "Snapshot \<Rightarrow> Snapshot" where
  "sorted_snapshot s =
    \<lparr> ssTemplates = sortedTemplates (ssTemplates s), ssProjects = sort_key geID (ssProjects s),
      ssDevices = sort_key geID (ssDevices s), ssRecords = List.map sorted_record (sortedRecords (ssRecords s)),
      ssChats = List.map sorted_chat (sortedChats (ssChats s)) \<rparr>"

lemma registry_reads:
  assumes "exported root s t" "snapshot_named s" "snapshot_ok s"
  shows "yields t (readRegistryFile (root @ [''projects.json''])) (sort_key geID (ssProjects s))"
    "yields t (readRegistryFile (root @ [''devices.json''])) (sort_key geID (ssDevices s))"
proof -
  obtain p where p: "registry_text (ssProjects s) = Inr p" "parse_registry p = Inr (sort_key geID (ssProjects s))"
    using registry_round_trip [of "ssProjects s"] assms(3) by (auto simp: snapshot_ok_def)
  obtain d where d: "registry_text (ssDevices s) = Inr d" "parse_registry d = Inr (sort_key geID (ssDevices s))"
    using registry_round_trip [of "ssDevices s"] assms(3) by (auto simp: snapshot_ok_def)
  have "([''projects.json''], File p) \<in> snapshot_nodes s" "([''devices.json''], File d) \<in> snapshot_nodes s"
    by (simp_all add: snapshot_nodes_def result_node_def p(1) d(1))
  then show "yields t (readRegistryFile (root @ [''projects.json''])) (sort_key geID (ssProjects s))"
    "yields t (readRegistryFile (root @ [''devices.json''])) (sort_key geID (ssDevices s))"
    using yields_registry [OF assms(1) managed_names(4) _ p(2)] yields_registry [OF assms(1) managed_names(5) _ d(2)] by blast+
qed

lemma yields_snapshot:
  assumes exp: "exported (filepath_abs cwd rt) s t" and named: "snapshot_named s" and ok: "snapshot_ok s" and rt: "\<not> blank rt"
  shows "yields t (Read_snapshot cwd rt) (sorted_snapshot s)"
proof -
  have names: "names_distinct s" using ok by (simp add: snapshot_ok_def)
  have records: "list_all record_ok (ssRecords s)" "\<forall>r\<in>set (ssRecords s). \<forall>f\<in>set (reFigures r). \<not> isLFSPointer (feContent f)"
    using ok by (auto simp: snapshot_ok_def list_all_iff)
  have chats: "list_all (\<lambda>c. chat_ok c \<and> list_all item_ok (ceItems c) \<and> distinct (List.map ieOrdinal (ceItems c))) (ssChats s)"
    using ok by (simp add: snapshot_ok_def)
  have final: "yields t (ret \<lparr> ssTemplates = sortedTemplates (ssTemplates s), ssProjects = sort_key geID (ssProjects s),
      ssDevices = sort_key geID (ssDevices s), ssRecords = List.map sorted_record (sortedRecords (ssRecords s)),
      ssChats = List.map sorted_chat (sortedChats (ssChats s)) \<rparr>) (sorted_snapshot s)"
    unfolding sorted_snapshot_def by (rule yields_ret)
  show ?thesis
    unfolding Read_snapshot_def Let_def if_not_P [OF rt]
    by (intro yields_bnd [OF yields_templates [OF exp named names]] yields_bnd [OF yields_records [OF exp named names records]]
          yields_bnd [OF yields_wrap [OF registry_reads(1) [OF exp named ok]]]
          yields_bnd [OF yields_wrap [OF registry_reads(2) [OF exp named ok]]]
          yields_bnd [OF yields_chats [OF exp named names chats]] final)
qed

text \<open>C22. An export can be imported again. When \<open>Write\<close> reports success, reading the export root gives the snapshot back, with
  its lists in the order of the export: \<open>Read\<close> on that tree returns it whenever no call fails, and otherwise it or an error,
  and it changes nothing. The snapshot's texts are UTF-8, its times have four-digit years, its names and ordinals are unique
  and no figure is a Git LFS pointer.\<close>

theorem export_reads_back:
  assumes "tidy (dkTree d)" "snapshot_ok s" "Write_snapshot cwd rt s d = (Inr (), d')" "dkTree e = dkTree d'"
  shows "case Read_snapshot cwd rt e of (res, e') \<Rightarrow>
    dkTree e' = dkTree e \<and> (res = Inr (sorted_snapshot s) \<or> \<not> calm e \<and> (\<exists>err. res = Inl err))"
proof -
  have "names_distinct s" using assms(2) by (simp add: snapshot_ok_def)
  from write_end [OF assms(1) this assms(3)]
  have "snapshot_named s" "exported (filepath_abs cwd rt) s (dkTree d')" by auto
  moreover have "\<not> blank rt" using assms(3) by (auto simp: Write_snapshot_def fail_def)
  ultimately have "yields (dkTree d') (Read_snapshot cwd rt) (sorted_snapshot s)"
    using assms(2) by (intro yields_snapshot)
  then show ?thesis using assms(4) by (auto simp: yields_def weakly_def split: prod.splits)
qed

definition exampleSnapshot :: Snapshot where
  "exampleSnapshot =
    \<lparr> ssTemplates = [], ssProjects = [], ssDevices = [],
      ssRecords =
        [\<lparr> reID = ''r'', reDate = ''2'', reDayOrder = ''a'', reProjectID = ''p'', reSourceDeviceID = ''d'', reSourceRef = None,
           reGitRemoteURL = None, reGitHash = None, reHTMLContent = Some ''h'', reNotes = None,
           reFigures = [\<lparr> feFilename = ''f'', feS3Key = ''k'', feAltText = None, feContent = ''b'' \<rparr>],
           reDataFiles = [], reCreatedAt = 0, reUpdatedAt = 1 \<rparr>],
      ssChats = [] \<rparr>"

definition exportDisk :: files where
  "exportDisk =
    \<lparr> dkTree = [([], Dir)], dkTick = 0, dkFault = (\<lambda>_. None), dkCrash = None, dkTemp = (\<lambda>_. [''1'']), dkNow = (\<lambda>_. []),
      dkJunk = (\<lambda>_. []) \<rparr>"

lemma example_written: "fst (Write_snapshot [] ''/'' exampleSnapshot exportDisk) = Inr ()"
  by code_simp

lemma example_ok: "snapshot_ok exampleSnapshot"
  by code_simp

lemma example_tidy: "tidy (dkTree exportDisk)"
  by (simp add: tidy_def exportDisk_def at_def)

theorem export_reads_back_witness:
  "case Read_snapshot [] ''/'' (exportDisk \<lparr> dkTree := dkTree (snd (Write_snapshot [] ''/'' exampleSnapshot exportDisk)) \<rparr>) of
     (res, _) \<Rightarrow> res = Inr (sorted_snapshot exampleSnapshot)"
proof -
  obtain d' where run: "Write_snapshot [] ''/'' exampleSnapshot exportDisk = (Inr (), d')"
    using example_written by (cases "Write_snapshot [] ''/'' exampleSnapshot exportDisk") simp
  have "calm (exportDisk \<lparr> dkTree := dkTree d' \<rparr>)" by (simp add: calm_def exportDisk_def)
  then show ?thesis
    using export_reads_back [OF example_tidy example_ok run, of "exportDisk \<lparr> dkTree := dkTree d' \<rparr>"]
    by (auto simp: run split: prod.splits)
qed

text \<open>C23. An export is all or nothing and touches nothing else. However \<open>Write\<close> ends, every node outside its own entries
  (the managed ones and its temporary directories) is as before, directories on the way to the root apart; and the tree of
  the snapshot is completely in place, or an error is reported and every managed entry that existed is still in its place or
  whole in one backup directory.\<close>

theorem export_old_or_new:
  assumes "tidy (dkTree d)" "names_distinct s"
  shows "case Write_snapshot cwd rt s d of (res, d') \<Rightarrow>
    outside_unchanged (filepath_abs cwd rt) (dkTree d) (dkTree d') \<and>
    (exported (filepath_abs cwd rt) s (dkTree d') \<or>
     (\<exists>e. res = Inl e) \<and> old_kept (filepath_abs cwd rt) (dkTree d) (dkTree d'))"
proof (cases "Write_snapshot cwd rt s d")
  case (Pair res d')
  then show ?thesis using write_end [OF assms Pair] by auto
qed

theorem export_old_or_new_witness:
  "case Write_snapshot [] ''/'' exampleSnapshot (exportDisk \<lparr> dkCrash := Some 20 \<rparr>) of (res, d') \<Rightarrow>
    outside_unchanged [] [([], Dir)] (dkTree d') \<and> (exported [] exampleSnapshot (dkTree d') \<or>
     (\<exists>e. res = Inl e) \<and> old_kept [] [([], Dir)] (dkTree d'))"
proof -
  have "filepath_abs [] ''/'' = []" by code_simp
  then show ?thesis
    using export_old_or_new [of "exportDisk \<lparr> dkCrash := Some 20 \<rparr>" exampleSnapshot "[]" "''/''"] example_tidy example_ok
    by (simp add: snapshot_ok_def exportDisk_def split: prod.splits)
qed

end
